(* ===== verification/Yor_Prelude.thy ===== *)
theory Yor_Prelude
  imports Main "HOL-Library.Char_ord" "HOL-Library.List_Lexorder"
begin

text \<open>
  Shared vocabulary of the development: identifiers and instants, the result type that every
  fallible Rust function returns, the string functions of the Rust standard library the sources
  call, ordered maps (\<open>BTreeMap\<close>), and database tables with the SQL statements SeaORM builds.

  A Rust \<open>String\<close> is its UTF-8 byte sequence, a HOL \<^typ>\<open>string\<close>; the lexicographic order on byte
  sequences is Rust's order on strings.  A \<open>Uuid\<close> is compared for equality and order only, so it
  is a natural number.  An instant (\<open>DateTime\<close>) is an integer number of seconds.
\<close>

named_theorems res_simps \<open>laws of the result monad\<close>
named_theorems table_simps \<open>laws of table statements\<close>

type_synonym uuid = nat
type_synonym instant = int

section \<open>Results\<close>

fun rbind :: "'e + 'a \<Rightarrow> ('a \<Rightarrow> 'e + 'b) \<Rightarrow> 'e + 'b" where
  "rbind (Inl e) f = Inl e"
| "rbind (Inr x) f = f x"

definition ok_or :: "'a option \<Rightarrow> 'e \<Rightarrow> 'e + 'a" where
  "ok_or x e = (case x of None \<Rightarrow> Inl e | Some v \<Rightarrow> Inr v)"

definition ensure :: "bool \<Rightarrow> 'e \<Rightarrow> 'e + unit" where
  "ensure b e = (if b then Inr () else Inl e)"

lemma rbind_cong [fundef_cong]:
  "m = m' \<Longrightarrow> (\<And>x. m' = Inr x \<Longrightarrow> f x = f' x) \<Longrightarrow> rbind m f = rbind m' f'"
  by (cases m') auto

lemma rbind_Inr_iff [res_simps]: "rbind m f = Inr y \<longleftrightarrow> (\<exists>x. m = Inr x \<and> f x = Inr y)"
  by (cases m) auto

lemma rbind_Inl_iff: "rbind m f = Inl e \<longleftrightarrow> m = Inl e \<or> (\<exists>x. m = Inr x \<and> f x = Inl e)"
  by (cases m) auto

lemma ok_or_simps [simp]: "ok_or None e = Inl e" "ok_or (Some v) e = Inr v"
  by (simp_all add: ok_or_def)

lemma ok_or_Inr_iff [res_simps]: "ok_or x e = Inr v \<longleftrightarrow> x = Some v"
  by (cases x) auto

lemma ensure_simps [simp]: "ensure True e = Inr ()" "ensure False e = Inl e"
  by (simp_all add: ensure_def)

lemma ensure_Inr_iff [res_simps]: "ensure b e = Inr u \<longleftrightarrow> b"
  by (cases b) (auto simp: ensure_def)

lemma ensure_Inl_iff: "ensure b e = Inl e' \<longleftrightarrow> \<not> b \<and> e' = e"
  by (auto simp: ensure_def)

lemma if_list_Nil [simp]: "(if b then x # xs else []) = [] \<longleftrightarrow> \<not> b"
  by simp

section \<open>Strings\<close>

text \<open>\<open>str::replace\<close> of one character by a string.\<close>

definition replace_char :: "char \<Rightarrow> string \<Rightarrow> string \<Rightarrow> string" where
  "replace_char c r s = concat (map (\<lambda>x. if x = c then r else [x]) s)"

lemma replace_char_simps [simp]:
  "replace_char c r [] = []"
  "replace_char c r (x # s) = (if x = c then r else [x]) @ replace_char c r s"
  by (simp_all add: replace_char_def)

text \<open>Decimal rendering of an unsigned integer, as \<open>to_string\<close> produces it.\<close>

fun dec_string :: "nat \<Rightarrow> string" where
  "dec_string n = (if n < 10 then [char_of (n + 48)]
                   else dec_string (n div 10) @ [char_of (n mod 10 + 48)])"

declare dec_string.simps [simp del]

text \<open>
  \<open>str::trim\<close> removes the Unicode \<open>White_Space\<close> characters at both ends.  Those characters are
  listed here by their UTF-8 encodings.
\<close>

definition whitespace_encodings :: "string list" where
  "whitespace_encodings =
     map (map char_of)
       ([[9], [10], [11], [12], [13], [32], [194, 133], [194, 160], [225, 154, 128]]
        @ map (\<lambda>b. [226, 128, b]) [128, 129, 130, 131, 132, 133, 134, 135, 136, 137, 138, 168, 169, 175]
        @ [[226, 129, 159], [227, 128, 128 :: nat]])"

definition strip_any :: "string list \<Rightarrow> string \<Rightarrow> string option" where
  "strip_any ps s = map_option (\<lambda>p. drop (length p) s)
     (List.find (\<lambda>p. p \<noteq> [] \<and> take (length p) s = p) ps)"

lemma strip_any_shorter: "strip_any ps s = Some s' \<Longrightarrow> length s' < length s"
proof -
  assume "strip_any ps s = Some s'"
  then obtain p where p: "List.find (\<lambda>p. p \<noteq> [] \<and> take (length p) s = p) ps = Some p"
    and s': "s' = drop (length p) s"
    by (auto simp: strip_any_def)
  from p have "p \<noteq> []" and "take (length p) s = p"
    by (auto simp: find_Some_iff)
  then have "0 < length p" and "length p \<le> length s"
    by (simp, metis length_take min.cobounded1)
  then have "length s - length p < length s" by linarith
  then show ?thesis using s' by simp
qed

function trim_start_with :: "string list \<Rightarrow> string \<Rightarrow> string" where
  "trim_start_with ps s = (case strip_any ps s of None \<Rightarrow> s | Some s' \<Rightarrow> trim_start_with ps s')"
  by pat_completeness auto
termination
  by (relation "measure (\<lambda>(ps, s). length s)") (auto dest: strip_any_shorter)

declare trim_start_with.simps [simp del]

definition trim :: "string \<Rightarrow> string" where
  "trim s = rev (trim_start_with (map rev whitespace_encodings)
                  (rev (trim_start_with whitespace_encodings s)))"

text \<open>\<open>s.chars().count()\<close>: the UTF-8 bytes that start a character.\<close>

definition char_count :: "string \<Rightarrow> nat" where
  "char_count s = length (filter (\<lambda>c. \<not> (128 \<le> (of_char c :: nat) \<and> (of_char c :: nat) < 192)) s)"

text \<open>\<open>str::strip_prefix\<close>, \<open>str::replacen(.., 1)\<close> and \<open>str::split\<close> at a character.\<close>

definition strip_prefix :: "string \<Rightarrow> string \<Rightarrow> string option" where
  "strip_prefix p s = (if take (length p) s = p then Some (drop (length p) s) else None)"

fun replace_first :: "string \<Rightarrow> string \<Rightarrow> string \<Rightarrow> string" where
  "replace_first p r [] = (if p = [] then r else [])"
| "replace_first p r (c # s) =
     (case strip_prefix p (c # s) of Some rest \<Rightarrow> r @ rest | None \<Rightarrow> c # replace_first p r s)"

fun split_char :: "char \<Rightarrow> string \<Rightarrow> string list" where
  "split_char c [] = [[]]"
| "split_char c (x # s) =
     (if x = c then [] # split_char c s
      else (case split_char c s of [] \<Rightarrow> [[x]] | w # ws \<Rightarrow> (x # w) # ws))"

lemma strip_prefix_append [simp]: "strip_prefix p (p @ s) = Some s"
  by (simp add: strip_prefix_def)

lemma strip_prefix_Some: "strip_prefix p s = Some r \<longleftrightarrow> s = p @ r"
  by (auto simp: strip_prefix_def) (metis append_take_drop_id)

lemma strip_prefix_case:
  "(case strip_prefix p s of Some n \<Rightarrow> f n | None \<Rightarrow> Inl e) = Inr t \<longleftrightarrow> (\<exists>n. s = p @ n \<and> f n = Inr t)"
  by (cases "strip_prefix p s") (auto simp: strip_prefix_Some)

lemma replace_first_prefix: "p \<noteq> [] \<Longrightarrow> replace_first p r (p @ s) = r @ s"
  by (cases p) (simp_all add: strip_prefix_def)

section \<open>Ordered maps\<close>

text \<open>
  \<open>BTreeMap<String, V>\<close> and \<open>serde_json::Map\<close> iterate in key order: a map is its list of entries,
  strictly increasing in the key.
\<close>

type_synonym 'v btree_map = "(string \<times> 'v) list"

definition bt_wf :: "'v btree_map \<Rightarrow> bool" where
  "bt_wf m = sorted_wrt (<) (map fst m)"

definition bt_get :: "'v btree_map \<Rightarrow> string \<Rightarrow> 'v option" where
  "bt_get m k = map_of m k"

fun bt_insert :: "string \<Rightarrow> 'v \<Rightarrow> 'v btree_map \<Rightarrow> 'v btree_map" where
  "bt_insert k v [] = [(k, v)]"
| "bt_insert k v ((a, b) # m) =
     (if k < a then (k, v) # (a, b) # m
      else if k = a then (k, v) # m
      else (a, b) # bt_insert k v m)"

definition bt_remove :: "string \<Rightarrow> 'v btree_map \<Rightarrow> 'v btree_map" where
  "bt_remove k m = filter (\<lambda>e. fst e \<noteq> k) m"

definition bt_keys :: "'v btree_map \<Rightarrow> string list" where
  "bt_keys m = map fst m"

lemma bt_wf_Nil [simp]: "bt_wf []"
  by (simp add: bt_wf_def)

lemma bt_wf_Cons: "bt_wf (e # m) \<longleftrightarrow> (\<forall>x \<in> set m. fst e < fst x) \<and> bt_wf m"
  by (auto simp: bt_wf_def)

lemma bt_get_simps [simp]:
  "bt_get [] k = None"
  "bt_get (e # m) k = (if k = fst e then Some (snd e) else bt_get m k)"
  by (auto simp: bt_get_def)

lemma bt_wf_distinct: "bt_wf m \<Longrightarrow> distinct (map fst m)"
  by (simp add: bt_wf_def strict_sorted_iff)

lemma bt_get_eq_None: "bt_get m k = None \<longleftrightarrow> k \<notin> fst ` set m"
  by (auto simp: bt_get_def map_of_eq_None_iff)

lemma bt_get_mem: "bt_get m k = Some v \<Longrightarrow> (k, v) \<in> set m"
  by (simp add: bt_get_def map_of_SomeD)

lemma bt_mem_get: "bt_wf m \<Longrightarrow> (k, v) \<in> set m \<Longrightarrow> bt_get m k = Some v"
  by (simp add: bt_get_def bt_wf_distinct)

lemma bt_get_insert: "bt_get (bt_insert k v m) k' = (if k' = k then Some v else bt_get m k')"
  by (induction k v m rule: bt_insert.induct) auto

lemma set_bt_insert_keys: "fst ` set (bt_insert k v m) = insert k (fst ` set m)"
  by (induction k v m rule: bt_insert.induct) auto

lemma bt_wf_insert: "bt_wf m \<Longrightarrow> bt_wf (bt_insert k v m)"
proof (induction k v m rule: bt_insert.induct)
  case (1 k v)
  then show ?case by (simp add: bt_wf_def)
next
  case (2 k v a b m)
  have keys: "\<forall>x \<in> set (bt_insert k v m). fst x = k \<or> fst x \<in> fst ` set m"
    using set_bt_insert_keys [of k v m] by blast
  show ?case
    using 2 keys by (fastforce simp: bt_wf_Cons)
qed

lemma bt_get_remove: "bt_get (bt_remove k m) k' = (if k' = k then None else bt_get m k')"
  by (induction m) (auto simp: bt_remove_def)

lemma bt_wf_remove: "bt_wf m \<Longrightarrow> bt_wf (bt_remove k m)"
  by (induction m) (auto simp: bt_remove_def bt_wf_Cons)

text \<open>
  Two ordered maps with the same lookups are equal: the list is a canonical form.
\<close>

lemma bt_ext: "bt_wf m \<Longrightarrow> bt_wf m' \<Longrightarrow> (\<And>k. bt_get m k = bt_get m' k) \<Longrightarrow> m = m'"
proof -
  assume wf: "bt_wf m" "bt_wf m'" and same: "\<And>k. bt_get m k = bt_get m' k"
  have "map_of m = map_of m'"
    using same by (simp add: bt_get_def fun_eq_iff)
  moreover have "sorted (map fst m)" "sorted (map fst m')"
    using wf by (simp_all add: bt_wf_def strict_sorted_iff)
  ultimately have "set m = set m'"
    using wf by (metis bt_wf_distinct map_of_inject_set)
  moreover have "distinct (map fst m)" "distinct (map fst m')"
    using wf by (simp_all add: bt_wf_distinct)
  ultimately show "m = m'"
    using map_sorted_distinct_set_unique [of fst m m'] \<open>sorted (map fst m)\<close> \<open>sorted (map fst m')\<close>
    by (metis (no_types, lifting) inj_on_subset distinct_map set_append sup.idem sup_ge1)
qed

text \<open>What a client of an ordered map relies on, independently of its representation.\<close>

locale ordered_map =
  fixes get :: "'m \<Rightarrow> string \<Rightarrow> 'v option"
    and ins :: "string \<Rightarrow> 'v \<Rightarrow> 'm \<Rightarrow> 'm"
    and del :: "string \<Rightarrow> 'm \<Rightarrow> 'm"
    and wf :: "'m \<Rightarrow> bool"
  assumes get_ins: "get (ins k v m) k' = (if k' = k then Some v else get m k')"
    and get_del: "get (del k m) k' = (if k' = k then None else get m k')"
    and wf_ins: "wf m \<Longrightarrow> wf (ins k v m)"
    and wf_del: "wf m \<Longrightarrow> wf (del k m)"
    and extensional: "wf m \<Longrightarrow> wf m' \<Longrightarrow> (\<And>k. get m k = get m' k) \<Longrightarrow> m = m'"
begin

lemma del_ins: "wf m \<Longrightarrow> del k (ins k v m) = del k m"
  by (rule extensional) (auto simp: get_ins get_del wf_ins wf_del)

lemma ins_ins: "wf m \<Longrightarrow> ins k v (ins k w m) = ins k v m"
  by (rule extensional) (auto simp: get_ins wf_ins)

lemma ins_commute: "wf m \<Longrightarrow> k \<noteq> k' \<Longrightarrow> ins k v (ins k' w m) = ins k' w (ins k v m)"
  by (rule extensional) (auto simp: get_ins wf_ins)

lemma ins_same: "wf m \<Longrightarrow> get m k = Some v \<Longrightarrow> ins k v m = m"
  by (rule extensional) (auto simp: get_ins wf_ins)

lemma del_absent: "wf m \<Longrightarrow> get m k = None \<Longrightarrow> del k m = m"
  by (rule extensional) (auto simp: get_del wf_del)

end

interpretation bt: ordered_map bt_get bt_insert bt_remove bt_wf
  by unfold_locales (auto simp: bt_get_insert bt_get_remove bt_wf_insert bt_wf_remove intro: bt_ext)

section \<open>Tables\<close>

text \<open>
  A table is the list of its rows in insertion order.  The operators are the statements SeaORM
  builds: \<open>find().filter(p)\<close>, \<open>update_many().filter(p)\<close> with its \<open>rows_affected\<close>,
  \<open>delete_many().filter(p)\<close>, \<open>count\<close>, \<open>order_by(..).one\<close>.
\<close>

definition select_where :: "('r \<Rightarrow> bool) \<Rightarrow> 'r list \<Rightarrow> 'r list" where
  "select_where p t = filter p t"

definition find_row :: "('r \<Rightarrow> bool) \<Rightarrow> 'r list \<Rightarrow> 'r option" where
  "find_row p t = List.find p t"

definition count_where :: "('r \<Rightarrow> bool) \<Rightarrow> 'r list \<Rightarrow> nat" where
  "count_where p t = length (filter p t)"

definition update_where :: "('r \<Rightarrow> bool) \<Rightarrow> ('r \<Rightarrow> 'r) \<Rightarrow> 'r list \<Rightarrow> 'r list" where
  "update_where p f t = map (\<lambda>r. if p r then f r else r) t"

definition delete_where :: "('r \<Rightarrow> bool) \<Rightarrow> 'r list \<Rightarrow> 'r list" where
  "delete_where p t = filter (\<lambda>r. \<not> p r) t"

definition latest_by :: "('r \<Rightarrow> int) \<Rightarrow> 'r list \<Rightarrow> 'r option" where
  "latest_by key t = (case sort_key (\<lambda>r. - key r) t of [] \<Rightarrow> None | r # _ \<Rightarrow> Some r)"

lemma find_row_Some: "find_row p t = Some r \<Longrightarrow> r \<in> set t \<and> p r"
  by (auto simp: find_row_def find_Some_iff)

lemma find_row_None [table_simps]: "find_row p t = None \<longleftrightarrow> (\<forall>r \<in> set t. \<not> p r)"
  by (auto simp: find_row_def find_None_iff)

lemma find_row_cong: "(\<And>r. r \<in> set t \<Longrightarrow> p r = q r) \<Longrightarrow> find_row p t = find_row q t"
  by (induction t) (auto simp: find_row_def)

lemma find_row_unique:
  "r \<in> set t \<Longrightarrow> p r \<Longrightarrow> (\<And>r'. r' \<in> set t \<Longrightarrow> p r' \<Longrightarrow> r' = r) \<Longrightarrow> find_row p t = Some r"
  by (metis find_row_None find_row_Some not_None_eq)

lemma count_where_0 [table_simps]: "count_where p t = 0 \<longleftrightarrow> (\<forall>r \<in> set t. \<not> p r)"
  by (auto simp: count_where_def filter_empty_conv)

lemma count_where_pos [table_simps]: "0 < count_where p t \<longleftrightarrow> (\<exists>r \<in> set t. p r)"
  by (auto simp: count_where_def filter_empty_conv)

lemma count_where_append [table_simps]: "count_where p (t @ u) = count_where p t + count_where p u"
  by (simp add: count_where_def)

lemma count_where_Nil [simp]: "count_where p [] = 0"
  by (simp add: count_where_def)

lemma count_where_Cons [simp]: "count_where p (r # t) = (if p r then 1 else 0) + count_where p t"
  by (simp add: count_where_def)

lemma count_where_mono: "(\<And>r. r \<in> set t \<Longrightarrow> p r \<Longrightarrow> q r) \<Longrightarrow> count_where p t \<le> count_where q t"
  by (induction t) (auto simp: le_SucI)

lemma count_where_delete: "count_where p (delete_where q t) = count_where (\<lambda>r. p r \<and> \<not> q r) t"
  by (simp add: count_where_def delete_where_def conj_commute)

lemma set_update_where [table_simps]:
  "set (update_where p f t) = {if p r then f r else r | r. r \<in> set t}"
  by (auto simp: update_where_def)

lemma set_delete_where [table_simps]: "set (delete_where p t) = {r \<in> set t. \<not> p r}"
  by (auto simp: delete_where_def)

lemma set_select_where [table_simps]: "set (select_where p t) = {r \<in> set t. p r}"
  by (auto simp: select_where_def)

lemma latest_by_None [table_simps]: "latest_by key t = None \<longleftrightarrow> t = []"
  by (auto simp: latest_by_def split: list.splits dest: arg_cong [where f = length])

lemma latest_by_Some:
  assumes "latest_by key t = Some r"
  shows "r \<in> set t" and "\<And>x. x \<in> set t \<Longrightarrow> key x \<le> key r"
proof -
  from assms obtain rs where s: "sort_key (\<lambda>r. - key r) t = r # rs"
    by (auto simp: latest_by_def split: list.splits)
  have set_eq: "set t = set (r # rs)"
    by (metis s set_sort)
  then show "r \<in> set t" by simp
  have "sorted (map (\<lambda>r. - key r) (r # rs))"
    by (metis s sorted_sort_key)
  then show "\<And>x. x \<in> set t \<Longrightarrow> key x \<le> key r"
    using set_eq by auto
qed

text \<open>
  A statement that leaves the key column alone keeps every row's identity.
\<close>

locale key_preserving =
  fixes key :: "'r \<Rightarrow> 'k" and change :: "'r \<Rightarrow> 'r"
  assumes key_change: "key (change r) = key r"
begin

lemma keys_update_where: "map key (update_where p change t) = map key t"
  by (induction t) (auto simp: update_where_def key_change)

lemma key_image_update: "key ` set (update_where p change t) = key ` set t"
  using arg_cong [OF keys_update_where [of p t], of set] by simp

lemma find_key_update:
  "find_row (\<lambda>r. key r = k) (update_where p change t)
     = map_option (\<lambda>r. if p r then change r else r) (find_row (\<lambda>r. key r = k) t)"
  by (induction t) (auto simp: find_row_def update_where_def key_change)

lemma distinct_update: "distinct (map key t) \<Longrightarrow> distinct (map key (update_where p change t))"
  by (simp add: keys_update_where)

end

lemma distinct_key_unique:
  "distinct (map key t) \<Longrightarrow> r \<in> set t \<Longrightarrow> r' \<in> set t \<Longrightarrow> key r = key r' \<Longrightarrow> r = r'"
  by (metis distinct_map inj_onD)

lemma distinct_key_find:
  "distinct (map key t) \<Longrightarrow> r \<in> set t \<Longrightarrow> find_row (\<lambda>r'. key r' = key r) t = Some r"
  by (rule find_row_unique) (auto dest: distinct_key_unique)

lemma distinct_key_delete: "distinct (map key t) \<Longrightarrow> distinct (map key (delete_where p t))"
  by (simp add: delete_where_def distinct_map_filter)

lemma distinct_key_const:
  "distinct (map key t) \<Longrightarrow> (\<And>r. r \<in> set t \<Longrightarrow> key r = k) \<Longrightarrow> length t \<le> 1"
proof -
  assume d: "distinct (map key t)" and "\<And>r. r \<in> set t \<Longrightarrow> key r = k"
  then have "set (map key t) \<subseteq> {k}" by auto
  then have "card (set (map key t)) \<le> card {k}" by (intro card_mono) auto
  then show ?thesis using distinct_card [OF d] by simp
qed

lemma find_key_update_on:
  "(\<And>r. p r \<Longrightarrow> key (f r) = key r) \<Longrightarrow>
     find_row (\<lambda>r. key r = k) (update_where p f t)
       = map_option (\<lambda>r. if p r then f r else r) (find_row (\<lambda>r. key r = k) t)"
  by (induction t) (auto simp: find_row_def update_where_def)

lemma find_row_append: "find_row p (t @ u) = (case find_row p t of None \<Rightarrow> find_row p u | Some r \<Rightarrow> Some r)"
  by (induction t) (auto simp: find_row_def)

lemma count_update_le:
  "(\<And>r. r \<in> set t \<Longrightarrow> p r \<Longrightarrow> q (f r) \<Longrightarrow> q r) \<Longrightarrow> count_where q (update_where p f t) \<le> count_where q t"
  by (induction t) (auto simp: update_where_def le_SucI)

lemma count_update_add:
  "count_where q (update_where p f t) \<le> count_where (\<lambda>r. q r \<and> \<not> p r) t + count_where p t"
  by (induction t) (auto simp: update_where_def)

end
