(* ===== verification/Yor_Error.thy ===== *)
theory Yor_Error
  imports Yor_Prelude
begin

text \<open>
  \<open>src/error.rs\<close>: the application error, its machine-readable code and its HTTP status.
  A message is represented by the source's text up to the values interpolated into it: where the
  source calls \<open>format!\<close>, the model keeps the format string with \<open>{}\<close> for each argument, without
  the quotation marks around it.
  Hints, and the \<open>expected\<close> and \<open>actual\<close> texts of a validation detail, are left out.
\<close>

datatype validation_error_code =
    TypeMismatch | EmptyRequired | DepthExceeded | NumericOnNonNumeric
  | StringConstraintOnNonString | ArrayConstraintOnNonArray | InvalidArrayItemType
  | EmptyObjectProperties | MinExceedsMax | InvalidPattern | UnsupportedFormat
  | UndefinedEntityType | OtherCode

record validation_detail =
  vd_field :: string
  vd_problem :: string
  vd_code :: validation_error_code

datatype yorishiro_error =
    ValidationFailed string "validation_detail list"
  | NotFound string
  | ScopeInsufficient string
  | Conflict string
  | RelationTypeMismatch string
  | Unauthenticated
  | Maintenance string bool nat
  | ProviderBusy string nat
  | ProviderUnreachable string string
  | BackendUnsupported string
  | BackendUnavailable string
  | Internal string

type_synonym 'a result = "yorishiro_error + 'a"

datatype yorishiro_error_code =
    CValidationFailed | CNotFound | CScopeInsufficient | CConflict | CRelationTypeMismatch
  | CUnauthenticated | CMaintenanceReadOnly | CMaintenanceFullLock | CProviderBusy
  | CProviderUnreachable | CBackendUnsupported | CBackendUnavailable

fun error_code_as_str :: "yorishiro_error_code \<Rightarrow> string" where
  "error_code_as_str CValidationFailed = ''validation_failed''"
| "error_code_as_str CNotFound = ''not_found''"
| "error_code_as_str CScopeInsufficient = ''scope_insufficient''"
| "error_code_as_str CConflict = ''conflict''"
| "error_code_as_str CRelationTypeMismatch = ''relation_type_mismatch''"
| "error_code_as_str CUnauthenticated = ''unauthenticated''"
| "error_code_as_str CMaintenanceReadOnly = ''maintenance_read_only''"
| "error_code_as_str CMaintenanceFullLock = ''maintenance_full_lock''"
| "error_code_as_str CProviderBusy = ''provider_busy''"
| "error_code_as_str CProviderUnreachable = ''provider_unreachable''"
| "error_code_as_str CBackendUnsupported = ''backend_unsupported''"
| "error_code_as_str CBackendUnavailable = ''backend_unavailable''"

fun http_status :: "yorishiro_error_code \<Rightarrow> nat" where
  "http_status CValidationFailed = 422"
| "http_status CNotFound = 404"
| "http_status CScopeInsufficient = 403"
| "http_status CConflict = 409"
| "http_status CRelationTypeMismatch = 422"
| "http_status CUnauthenticated = 401"
| "http_status CMaintenanceReadOnly = 423"
| "http_status CMaintenanceFullLock = 503"
| "http_status CProviderBusy = 503"
| "http_status CProviderUnreachable = 502"
| "http_status CBackendUnsupported = 501"
| "http_status CBackendUnavailable = 503"

fun error_code :: "yorishiro_error \<Rightarrow> yorishiro_error_code option" where
  "error_code (ValidationFailed _ _) = Some CValidationFailed"
| "error_code (NotFound _) = Some CNotFound"
| "error_code (ScopeInsufficient _) = Some CScopeInsufficient"
| "error_code (Conflict _) = Some CConflict"
| "error_code (RelationTypeMismatch _) = Some CRelationTypeMismatch"
| "error_code Unauthenticated = Some CUnauthenticated"
| "error_code (Maintenance _ read_only _) =
     (if read_only then Some CMaintenanceReadOnly else Some CMaintenanceFullLock)"
| "error_code (ProviderBusy _ _) = Some CProviderBusy"
| "error_code (ProviderUnreachable _ _) = Some CProviderUnreachable"
| "error_code (BackendUnsupported _) = Some CBackendUnsupported"
| "error_code (BackendUnavailable _) = Some CBackendUnavailable"
| "error_code (Internal _) = None"

text \<open>The response: the status, and the \<open>code\<close> and \<open>message\<close> members of the error body.\<close>

fun into_http_parts :: "yorishiro_error \<Rightarrow> nat \<times> string \<times> string" where
  "into_http_parts (ValidationFailed m _) =
     (http_status CValidationFailed, error_code_as_str CValidationFailed, m)"
| "into_http_parts (NotFound m) = (http_status CNotFound, error_code_as_str CNotFound, m)"
| "into_http_parts (ScopeInsufficient m) =
     (http_status CScopeInsufficient, error_code_as_str CScopeInsufficient, m)"
| "into_http_parts (Conflict m) = (http_status CConflict, error_code_as_str CConflict, m)"
| "into_http_parts (RelationTypeMismatch m) =
     (http_status CRelationTypeMismatch, error_code_as_str CRelationTypeMismatch, m)"
| "into_http_parts Unauthenticated =
     (http_status CUnauthenticated, error_code_as_str CUnauthenticated, ''authentication required'')"
| "into_http_parts (Maintenance m read_only _) =
     (let code = (if read_only then CMaintenanceReadOnly else CMaintenanceFullLock)
      in (http_status code, error_code_as_str code, m))"
| "into_http_parts (ProviderBusy m _) =
     (http_status CProviderBusy, error_code_as_str CProviderBusy, m)"
| "into_http_parts (ProviderUnreachable url m) =
     (http_status CProviderUnreachable, error_code_as_str CProviderUnreachable,
      ''the embedding provider at '' @ url @ '' could not be reached: '' @ m)"
| "into_http_parts (BackendUnsupported m) =
     (http_status CBackendUnsupported, error_code_as_str CBackendUnsupported, m)"
| "into_http_parts (BackendUnavailable m) =
     (http_status CBackendUnavailable, error_code_as_str CBackendUnavailable, m)"
| "into_http_parts (Internal _) = (500, ''internal'', ''internal server error'')"

end
