(* ===== verification/Metaschema_Types.thy ===== *)
theory Metaschema_Types
  imports Yor_Error Complex_Main
begin

text \<open>
  \<open>src/models/schema_schemas/metaschema/types.rs\<close>: the metaschema, and the JSON values
  (\<open>serde_json::Value\<close>) it talks about.

  A JSON number is an integer or a double, which \<open>serde_json\<close> keeps apart; a double read from
  JSON is never NaN or infinite, so its exact value is a rational.  Objects and maps are ordered
  maps.  The \<open>u64\<close> length bounds are only compared, never computed with, and are naturals.
\<close>

datatype json =
    JNull
  | JBool bool
  | JInt int
  | JFloat rat
  | JStr string
  | JArr "json list"
  | JObj "(string \<times> json) list"

datatype field_type_name = FString | FNumber | FInteger | FBoolean | FArray | FObject

datatype array_item_type = AString | AObject

datatype field_def =
  FieldDef
    (fd_type: field_type_name)
    (fd_required: bool)
    (fd_description: "string option")
    (fd_enum_values: "string list option")
    (fd_format: "string option")
    (fd_minimum: "rat option")
    (fd_maximum: "rat option")
    (fd_min_length: "nat option")
    (fd_max_length: "nat option")
    (fd_pattern: "string option")
    (fd_min_items: "nat option")
    (fd_max_items: "nat option")
    (fd_unique_items: bool)
    (fd_default: "json option")
    (fd_items: "(array_item_type \<times> (string \<times> field_def) list option) option")
    (fd_properties: "(string \<times> field_def) list option")
    (fd_x_embed: bool)
    (fd_x_ui: "json option")
    (fd_extra: "(string \<times> json) list")

type_synonym fields = "field_def btree_map"
type_synonym array_items = "array_item_type \<times> fields option"

abbreviation ai_type :: "array_items \<Rightarrow> array_item_type" where
  "ai_type \<equiv> fst"

abbreviation ai_properties :: "array_items \<Rightarrow> fields option" where
  "ai_properties \<equiv> snd"

record entity_type_def =
  et_description :: "string option"
  et_fields :: fields

record relation_type_def =
  rt_source :: string
  rt_target :: string
  rt_description :: "string option"

record metaschema_definition =
  md_name :: string
  md_description :: "string option"
  md_entity_types :: "entity_type_def btree_map"
  md_relation_types :: "relation_type_def btree_map"

text \<open>\<open>Display\<close> of the array item type and \<open>Debug\<close> of the field type.\<close>

fun array_item_type_display :: "array_item_type \<Rightarrow> string" where
  "array_item_type_display AString = ''string''"
| "array_item_type_display AObject = ''object''"

fun field_type_debug :: "field_type_name \<Rightarrow> string" where
  "field_type_debug FString = ''String''"
| "field_type_debug FNumber = ''Number''"
| "field_type_debug FInteger = ''Integer''"
| "field_type_debug FBoolean = ''Boolean''"
| "field_type_debug FArray = ''Array''"
| "field_type_debug FObject = ''Object''"

text \<open>A field with every optional attribute absent, as deserializing \<open>{"type": t}\<close> gives.\<close>

definition plain_field :: "field_type_name \<Rightarrow> field_def" where
  "plain_field t = FieldDef t False None None None None None None None None None None False
                     None None None False None []"

lemma plain_field_sel [simp]:
  "fd_type (plain_field t) = t" "fd_required (plain_field t) = False"
  "fd_enum_values (plain_field t) = None" "fd_format (plain_field t) = None"
  "fd_minimum (plain_field t) = None" "fd_maximum (plain_field t) = None"
  "fd_min_length (plain_field t) = None" "fd_max_length (plain_field t) = None"
  "fd_pattern (plain_field t) = None" "fd_min_items (plain_field t) = None"
  "fd_max_items (plain_field t) = None" "\<not> fd_unique_items (plain_field t)"
  "fd_default (plain_field t) = None" "fd_items (plain_field t) = None"
  "fd_properties (plain_field t) = None" "\<not> fd_x_embed (plain_field t)"
  by (simp_all add: plain_field_def)

text \<open>Recursion into nested field maps goes to smaller definitions.\<close>

definition fields_size :: "fields \<Rightarrow> nat" where
  "fields_size fs = size_list (\<lambda>(_, f). size f) fs"

lemma fields_size_simps [simp]:
  "fields_size [] = 0"
  "fields_size (e # fs) = Suc (size (snd e) + fields_size fs)"
  by (simp_all add: fields_size_def split: prod.splits)

lemma fields_size_le: "fields_size ps \<le> size_list (size_prod (\<lambda>_. 0) size) ps"
  by (induction ps) (auto split: prod.splits)

lemma fields_size_properties [termination_simp]:
  "fd_properties f = Some ps \<Longrightarrow> fields_size ps < size f"
  using fields_size_le [of ps] by (cases f) simp

lemma fields_size_items [termination_simp]:
  "fd_items f = Some it \<Longrightarrow> ai_properties it = Some ps \<Longrightarrow> fields_size ps < size f"
  using fields_size_le [of ps] by (cases f; cases it) simp

end
