(* ===== verification/Metaschema_Validate.thy ===== *)
theory Metaschema_Validate
  imports Metaschema_Types
begin

text \<open>
  \<open>src/models/schema_schemas/metaschema/validate.rs\<close>: validation of a metaschema definition.
  Details are accumulated in the source's order.  Whether a pattern is a regular expression the
  \<open>jsonschema\<close> crate can compile is the parameter \<open>pattern_ok\<close>.

  The lemmas show that the accumulating checker decides the declarative predicate
  \<open>wf_definition\<close>, that accepted definitions are bounded in nesting depth, and that the JSON
  Pointer escaping of names can be undone.
\<close>

definition MAX_OBJECT_DEPTH :: nat where
  "MAX_OBJECT_DEPTH = 5"

definition escape_pointer_segment :: "string \<Rightarrow> string" where
  "escape_pointer_segment s = replace_char (CHR ''/'') ''~1'' (replace_char (CHR ''~'') ''~0'' s)"

definition detail :: "string \<Rightarrow> string \<Rightarrow> validation_error_code \<Rightarrow> validation_detail" where
  "detail path problem code = \<lparr>vd_field = path, vd_problem = problem, vd_code = code\<rparr>"

definition supported_formats :: "string list" where
  "supported_formats = [''date'', ''date-time'', ''uri'', ''email'', ''uuid'']"

definition exceeds :: "'a::linorder option \<Rightarrow> 'a option \<Rightarrow> bool" where
  "exceeds lo hi = (case (lo, hi) of (Some a, Some b) \<Rightarrow> b < a | _ \<Rightarrow> False)"

text \<open>The checks on one field that do not recurse, in the source's order.\<close>

definition validate_format :: "field_def \<Rightarrow> string \<Rightarrow> validation_detail list" where
  "validate_format f path = (case fd_format f of
       None \<Rightarrow> []
     | Some fmt \<Rightarrow>
         if fd_type f \<noteq> FString
         then [detail (path @ ''/format'')
                 ''format is only valid for string fields, but field type is {}'' TypeMismatch]
         else if fmt \<notin> set supported_formats
         then [detail (path @ ''/format'')
                 ''unsupported string format {} (expected date / date-time / uri / email / uuid)''
                 UnsupportedFormat]
         else [])"

definition validate_numeric :: "field_def \<Rightarrow> string \<Rightarrow> validation_detail list" where
  "validate_numeric f path =
     (if fd_type f \<notin> {FNumber, FInteger} \<and> (fd_minimum f \<noteq> None \<or> fd_maximum f \<noteq> None)
      then [detail path
              ''minimum/maximum are only valid for number/integer fields, but field type is {}''
              NumericOnNonNumeric] else [])
     @ (if exceeds (fd_minimum f) (fd_maximum f)
        then [detail path ''minimum ({}) must not exceed maximum ({})'' MinExceedsMax] else [])"

definition validate_text ::
  "(string \<Rightarrow> bool) \<Rightarrow> field_def \<Rightarrow> string \<Rightarrow> validation_detail list" where
  "validate_text pattern_ok f path =
     (if fd_type f \<noteq> FString \<and>
         (fd_min_length f \<noteq> None \<or> fd_max_length f \<noteq> None \<or> fd_pattern f \<noteq> None)
      then [detail path
              ''minLength/maxLength/pattern are only valid for string fields, but field type is {}''
              StringConstraintOnNonString] else [])
     @ (if exceeds (fd_min_length f) (fd_max_length f)
        then [detail path ''minLength ({}) must not exceed maxLength ({})'' MinExceedsMax] else [])
     @ (case fd_pattern f of
          None \<Rightarrow> []
        | Some p \<Rightarrow> if pattern_ok p then []
            else [detail (path @ ''/pattern'') ''invalid regular expression: {}'' InvalidPattern])"

definition validate_array :: "field_def \<Rightarrow> string \<Rightarrow> validation_detail list" where
  "validate_array f path =
     (if fd_type f \<noteq> FArray \<and>
         (fd_min_items f \<noteq> None \<or> fd_max_items f \<noteq> None \<or> fd_unique_items f)
      then [detail path
              ''minItems/maxItems/uniqueItems are only valid for array fields, but field type is {}''
              ArrayConstraintOnNonArray] else [])
     @ (if exceeds (fd_min_items f) (fd_max_items f)
        then [detail path ''minItems ({}) must not exceed maxItems ({})'' MinExceedsMax] else [])"

definition validate_constraints ::
  "(string \<Rightarrow> bool) \<Rightarrow> field_def \<Rightarrow> string \<Rightarrow> validation_detail list" where
  "validate_constraints pattern_ok f path =
     validate_format f path @ validate_numeric f path @ validate_text pattern_ok f path
     @ validate_array f path"

text \<open>\<open>validate_field\<close>, and its loop over the children of an object.\<close>

function validate_field ::
    "(string \<Rightarrow> bool) \<Rightarrow> field_def \<Rightarrow> string \<Rightarrow> nat \<Rightarrow> validation_detail list"
  and validate_children ::
    "(string \<Rightarrow> bool) \<Rightarrow> fields \<Rightarrow> string \<Rightarrow> nat \<Rightarrow> validation_detail list" where
  "validate_field pattern_ok f path depth =
     (if fd_type f = FArray then
        (case fd_items f of
           Some it \<Rightarrow>
             (case ai_type it of
                AString \<Rightarrow> []
              | AObject \<Rightarrow>
                  (case ai_properties it of
                     Some ps \<Rightarrow>
                       if ps \<noteq> [] then
                         (if depth \<ge> MAX_OBJECT_DEPTH
                          then [detail (path @ ''/items/properties'')
                                  ''object nesting exceeds max depth of {}'' DepthExceeded]
                          else validate_children pattern_ok ps (path @ ''/items/properties'')
                                 (depth + 1))
                       else [detail (path @ ''/items/properties'')
                               ''array items.type = object requires non-empty properties''
                               EmptyObjectProperties]
                   | None \<Rightarrow> [detail (path @ ''/items/properties'')
                               ''array items.type = object requires non-empty properties''
                               EmptyObjectProperties]))
         | None \<Rightarrow> [detail (path @ ''/items'')
                      ''array field requires items.type = string or object'' EmptyRequired])
      else [])
     @ (if fd_type f = FObject then
          (case fd_properties f of
             Some ps \<Rightarrow>
               if ps \<noteq> [] then
                 (if depth \<ge> MAX_OBJECT_DEPTH
                  then [detail (path @ ''/properties'')
                          ''object nesting exceeds max depth of {}'' DepthExceeded]
                  else validate_children pattern_ok ps (path @ ''/properties'') (depth + 1))
               else [detail path ''object field requires non-empty properties''
                       EmptyObjectProperties]
           | None \<Rightarrow> [detail path ''object field requires non-empty properties''
                        EmptyObjectProperties])
        else [])
     @ validate_constraints pattern_ok f path"
| "validate_children pattern_ok [] prefix depth = []"
| "validate_children pattern_ok (e # es) prefix depth =
     validate_field pattern_ok (snd e) (prefix @ ''/'' @ escape_pointer_segment (fst e)) depth
     @ validate_children pattern_ok es prefix depth"
  by pat_completeness auto
termination
  by (relation "measure (\<lambda>x. case x of Inl (_, f, _, _) \<Rightarrow> 2 * size f
                                     | Inr (_, fs, _, _) \<Rightarrow> 2 * fields_size fs + 1)")
    (auto dest: fields_size_properties fields_size_items)

declare validate_field.simps [simp del]

definition validate_relation ::
  "metaschema_definition \<Rightarrow> string \<times> relation_type_def \<Rightarrow> validation_detail list" where
  "validate_relation d e =
     (let path = ''/relation_types/'' @ escape_pointer_segment (fst e) in
      (if bt_get (md_entity_types d) (rt_source (snd e)) = None
       then [detail (path @ ''/source'')
               ''source entity type {} is not defined in entity_types'' UndefinedEntityType]
       else [])
      @ (if bt_get (md_entity_types d) (rt_target (snd e)) = None
         then [detail (path @ ''/target'')
                 ''target entity type {} is not defined in entity_types'' UndefinedEntityType]
         else []))"

definition definition_details ::
  "(string \<Rightarrow> bool) \<Rightarrow> metaschema_definition \<Rightarrow> validation_detail list" where
  "definition_details pattern_ok d =
     (if trim (md_name d) = [] then [detail ''/name'' ''name must not be empty'' EmptyRequired]
      else [])
     @ (if md_entity_types d = []
        then [detail ''/entity_types'' ''at least one entity type is required'' EmptyRequired]
        else [])
     @ concat (map (\<lambda>(type_name, et).
         validate_children pattern_ok (et_fields et)
           (''/entity_types/'' @ escape_pointer_segment type_name @ ''/fields'') 1)
         (md_entity_types d))
     @ concat (map (validate_relation d) (md_relation_types d))"

definition validate_definition ::
  "(string \<Rightarrow> bool) \<Rightarrow> metaschema_definition \<Rightarrow> unit result" where
  "validate_definition pattern_ok d =
     (let details = definition_details pattern_ok d in
      if details = [] then Inr ()
      else Inl (ValidationFailed ''metaschema definition {} is invalid'' details))"

section \<open>What an accepted definition satisfies\<close>

text \<open>
  The declarative counterpart: \<open>field_ok pattern_ok n f\<close> says that a field may be nested with
  \<open>n\<close> levels of objects still allowed below it.
\<close>

definition constraints_ok :: "(string \<Rightarrow> bool) \<Rightarrow> field_def \<Rightarrow> bool" where
  "constraints_ok pattern_ok f \<longleftrightarrow>
     (\<forall>fmt. fd_format f = Some fmt \<longrightarrow> fd_type f = FString \<and> fmt \<in> set supported_formats) \<and>
     (fd_type f \<notin> {FNumber, FInteger} \<longrightarrow> fd_minimum f = None \<and> fd_maximum f = None) \<and>
     (\<forall>a b. fd_minimum f = Some a \<longrightarrow> fd_maximum f = Some b \<longrightarrow> a \<le> b) \<and>
     (fd_type f \<noteq> FString \<longrightarrow>
        fd_min_length f = None \<and> fd_max_length f = None \<and> fd_pattern f = None) \<and>
     (\<forall>a b. fd_min_length f = Some a \<longrightarrow> fd_max_length f = Some b \<longrightarrow> a \<le> b) \<and>
     (\<forall>p. fd_pattern f = Some p \<longrightarrow> pattern_ok p) \<and>
     (fd_type f \<noteq> FArray \<longrightarrow>
        fd_min_items f = None \<and> fd_max_items f = None \<and> \<not> fd_unique_items f) \<and>
     (\<forall>a b. fd_min_items f = Some a \<longrightarrow> fd_max_items f = Some b \<longrightarrow> a \<le> b)"

text \<open>The field maps a field's type makes part of the definition.\<close>

definition object_children :: "field_def \<Rightarrow> fields option" where
  "object_children f =
     (case fd_type f of
        FObject \<Rightarrow> Some (case fd_properties f of None \<Rightarrow> [] | Some ps \<Rightarrow> ps)
      | FArray \<Rightarrow> (case fd_items f of
          Some (AObject, ps) \<Rightarrow> Some (case ps of None \<Rightarrow> [] | Some ps \<Rightarrow> ps)
        | _ \<Rightarrow> None)
      | _ \<Rightarrow> None)"

lemma object_children_size [termination_simp]:
  "object_children f = Some ps \<Longrightarrow> (k, g) \<in> set ps \<Longrightarrow> size g < size f"
proof -
  assume ch: "object_children f = Some ps" and mem: "(k, g) \<in> set ps"
  have "size g < fields_size ps"
    using mem by (induction ps) (auto simp: less_Suc_eq_le trans_le_add2)
  moreover have "fields_size ps \<le> size f"
    using ch fields_size_properties [of f ps]
      fields_size_items [of f _ ps]
    by (cases f) (auto simp: object_children_def less_imp_le
        split: field_type_name.splits option.splits array_item_type.splits)
  ultimately show "size g < size f" by simp
qed

fun field_ok :: "(string \<Rightarrow> bool) \<Rightarrow> nat \<Rightarrow> field_def \<Rightarrow> bool" where
  "field_ok pattern_ok n f \<longleftrightarrow>
     constraints_ok pattern_ok f \<and>
     (fd_type f = FArray \<longrightarrow> fd_items f \<noteq> None) \<and>
     (case object_children f of
        None \<Rightarrow> True
      | Some ps \<Rightarrow> ps \<noteq> [] \<and> 0 < n \<and> (\<forall>(k, g) \<in> set ps. field_ok pattern_ok (n - 1) g))"

declare field_ok.simps [simp del]

definition wf_definition :: "(string \<Rightarrow> bool) \<Rightarrow> metaschema_definition \<Rightarrow> bool" where
  "wf_definition pattern_ok d \<longleftrightarrow>
     trim (md_name d) \<noteq> [] \<and> md_entity_types d \<noteq> [] \<and>
     (\<forall>(t, et) \<in> set (md_entity_types d). \<forall>(k, f) \<in> set (et_fields et).
        field_ok pattern_ok (MAX_OBJECT_DEPTH - 1) f) \<and>
     (\<forall>(k, r) \<in> set (md_relation_types d).
        bt_get (md_entity_types d) (rt_source r) \<noteq> None \<and>
        bt_get (md_entity_types d) (rt_target r) \<noteq> None)"

text \<open>How many objects deep a field's definition goes, the field itself included.\<close>

fun object_depth :: "field_def \<Rightarrow> nat" where
  "object_depth f = Suc (case object_children f of
       None \<Rightarrow> 0
     | Some ps \<Rightarrow> foldr max (map (\<lambda>(k, g). object_depth g) ps) 0)"

declare object_depth.simps [simp del]

lemma exceeds_iff: "\<not> exceeds lo hi \<longleftrightarrow> (\<forall>a b. lo = Some a \<longrightarrow> hi = Some b \<longrightarrow> a \<le> b)"
  by (auto simp: exceeds_def split: option.splits)

lemma validate_format_Nil:
  "validate_format f path = [] \<longleftrightarrow>
     (\<forall>fmt. fd_format f = Some fmt \<longrightarrow> fd_type f = FString \<and> fmt \<in> set supported_formats)"
  by (auto simp: validate_format_def split: option.split)

lemma validate_numeric_Nil:
  "validate_numeric f path = [] \<longleftrightarrow>
     (fd_type f \<notin> {FNumber, FInteger} \<longrightarrow> fd_minimum f = None \<and> fd_maximum f = None) \<and>
     \<not> exceeds (fd_minimum f) (fd_maximum f)"
  by (auto simp: validate_numeric_def)

lemma validate_text_Nil:
  "validate_text pattern_ok f path = [] \<longleftrightarrow>
     (fd_type f \<noteq> FString \<longrightarrow>
        fd_min_length f = None \<and> fd_max_length f = None \<and> fd_pattern f = None) \<and>
     \<not> exceeds (fd_min_length f) (fd_max_length f) \<and>
     (\<forall>p. fd_pattern f = Some p \<longrightarrow> pattern_ok p)"
  by (auto simp: validate_text_def split: option.split)

lemma validate_array_Nil:
  "validate_array f path = [] \<longleftrightarrow>
     (fd_type f \<noteq> FArray \<longrightarrow>
        fd_min_items f = None \<and> fd_max_items f = None \<and> \<not> fd_unique_items f) \<and>
     \<not> exceeds (fd_min_items f) (fd_max_items f)"
  by (auto simp: validate_array_def)

lemma validate_constraints_Nil:
  "validate_constraints pattern_ok f path = [] \<longleftrightarrow> constraints_ok pattern_ok f"
  unfolding validate_constraints_def constraints_ok_def append_is_Nil_conv validate_format_Nil
    validate_numeric_Nil validate_text_Nil validate_array_Nil exceeds_iff
  by (simp only: conj_assoc)

lemma validate_children_Nil:
  "validate_children pattern_ok es prefix depth = [] \<longleftrightarrow>
     (\<forall>e \<in> set es. validate_field pattern_ok (snd e)
        (prefix @ ''/'' @ escape_pointer_segment (fst e)) depth = [])"
  by (induction es) auto

lemma validate_field_Nil_step:
  "validate_field pattern_ok f path depth = [] \<longleftrightarrow>
     constraints_ok pattern_ok f \<and>
     (fd_type f = FArray \<longrightarrow> fd_items f \<noteq> None) \<and>
     (case object_children f of
        None \<Rightarrow> True
      | Some ps \<Rightarrow> ps \<noteq> [] \<and> depth < MAX_OBJECT_DEPTH \<and>
          validate_children pattern_ok ps
            (path @ (if fd_type f = FArray then ''/items/properties'' else ''/properties''))
            (depth + 1) = [])"
  by (subst validate_field.simps)
    (auto simp: object_children_def validate_constraints_Nil
      split: field_type_name.splits option.splits array_item_type.splits)

lemma validate_field_iff:
  "depth \<le> MAX_OBJECT_DEPTH \<Longrightarrow>
   validate_field pattern_ok f path depth = [] \<longleftrightarrow> field_ok pattern_ok (MAX_OBJECT_DEPTH - depth) f"
proof (induction "size f" arbitrary: f path depth rule: less_induct)
  case less
  show ?case
  proof (cases "object_children f")
    case None
    then show ?thesis
      by (simp add: validate_field_Nil_step field_ok.simps [of _ _ f])
  next
    case (Some ps)
    have "validate_children pattern_ok ps prefix (depth + 1) = [] \<longleftrightarrow>
          (\<forall>(k, g) \<in> set ps. field_ok pattern_ok (MAX_OBJECT_DEPTH - depth - 1) g)"
      if "depth < MAX_OBJECT_DEPTH" for prefix
    proof -
      have "validate_field pattern_ok g q (depth + 1) = [] \<longleftrightarrow>
            field_ok pattern_ok (MAX_OBJECT_DEPTH - depth - 1) g" if "(k, g) \<in> set ps" for k g q
        using less.hyps [OF object_children_size [OF Some that], of "depth + 1"]
          \<open>depth < MAX_OBJECT_DEPTH\<close> by simp
      then show ?thesis
        by (fastforce simp: validate_children_Nil)
    qed
    then show ?thesis
      using Some less.prems
      by (auto simp: validate_field_Nil_step field_ok.simps [of _ _ f])
  qed
qed

lemma validate_relation_Nil:
  "validate_relation d e = [] \<longleftrightarrow>
     bt_get (md_entity_types d) (rt_source (snd e)) \<noteq> None \<and>
     bt_get (md_entity_types d) (rt_target (snd e)) \<noteq> None"
  by (simp add: validate_relation_def Let_def)

lemma definition_details_Nil: "definition_details pattern_ok d = [] \<longleftrightarrow> wf_definition pattern_ok d"
proof -
  have "Suc 0 \<le> MAX_OBJECT_DEPTH" by (simp add: MAX_OBJECT_DEPTH_def)
  note field = validate_field_iff [OF this]
  show ?thesis
    unfolding definition_details_def wf_definition_def
    by (simp add: validate_children_Nil validate_relation_Nil field case_prod_beta')
qed

lemma foldr_max_le: "foldr max xs (0::nat) \<le> n \<longleftrightarrow> (\<forall>x \<in> set xs. x \<le> n)"
  by (induction xs) auto

lemma field_ok_depth: "field_ok pattern_ok n f \<Longrightarrow> object_depth f \<le> Suc n"
proof (induction pattern_ok n f rule: field_ok.induct)
  case (1 pattern_ok n f)
  show ?case
  proof (cases "object_children f")
    case None
    then show ?thesis by (simp add: object_depth.simps)
  next
    case (Some ps)
    have ok: "0 < n" "\<And>k g. (k, g) \<in> set ps \<Longrightarrow> field_ok pattern_ok (n - 1) g"
      using "1.prems" Some by (auto simp: field_ok.simps [of _ n f])
    have "object_depth g \<le> n" if "(k, g) \<in> set ps" for k g
      using "1.IH" [OF Some that refl ok(2) [OF that]] ok(1) by simp
    then show ?thesis
      using Some by (auto simp: object_depth.simps [of f] foldr_max_le)
  qed
qed

section \<open>JSON Pointer escaping\<close>

text \<open>Decoding a segment as RFC 6901 prescribes.\<close>

fun unescape_pointer_segment :: "string \<Rightarrow> string" where
  "unescape_pointer_segment [] = []"
| "unescape_pointer_segment [c] = [c]"
| "unescape_pointer_segment (a # b # s) =
     (if a = CHR ''~'' \<and> b = CHR ''1'' then CHR ''/'' # unescape_pointer_segment s
      else if a = CHR ''~'' \<and> b = CHR ''0'' then CHR ''~'' # unescape_pointer_segment s
      else a # unescape_pointer_segment (b # s))"

lemma escape_Cons:
  "escape_pointer_segment (c # s) =
     (if c = CHR ''~'' then ''~0'' else if c = CHR ''/'' then ''~1'' else [c])
     @ escape_pointer_segment s"
  by (simp add: escape_pointer_segment_def replace_char_def)

lemma escape_Nil [simp]: "escape_pointer_segment [] = []"
  by (simp add: escape_pointer_segment_def)

lemma unescape_plain:
  "c \<noteq> CHR ''~'' \<Longrightarrow> unescape_pointer_segment (c # s) = c # unescape_pointer_segment s"
  by (cases s) auto

lemma unescape_escape: "unescape_pointer_segment (escape_pointer_segment s) = s"
  by (induction s) (auto simp: escape_Cons unescape_plain)

lemma escape_no_slash: "CHR ''/'' \<notin> set (escape_pointer_segment s)"
  by (induction s) (auto simp: escape_Cons)

section \<open>Properties\<close>

text \<open>A definition used by the witnesses: one entity type with a nested object, one relation.\<close>

definition sample_fields :: fields where
  "sample_fields =
     [(''author'', (plain_field FObject)),
      (''title'', FieldDef FString True None None None None None (Some 1) (Some 80) None None None
                    False None None None True None [])]"

definition sample_author :: field_def where
  "sample_author = FieldDef FObject False None None None None None None None None None None False None
     None (Some [(''name'', plain_field FString)]) False None []"

definition sample_definition :: metaschema_definition where
  "sample_definition = \<lparr>md_name = ''library'', md_description = None,
     md_entity_types = [(''book'', \<lparr>et_description = None,
        et_fields = bt_insert ''author'' sample_author sample_fields\<rparr>)],
     md_relation_types = [(''cites'', \<lparr>rt_source = ''book'', rt_target = ''book'',
        rt_description = None\<rparr>)]\<rparr>"

lemma trim_library: "trim ''library'' \<noteq> []"
  by code_simp

lemma sample_definition_wf: "wf_definition (\<lambda>_. True) sample_definition"
  using trim_library
  by (simp add: wf_definition_def sample_definition_def sample_fields_def sample_author_def
      field_ok.simps constraints_ok_def object_children_def MAX_OBJECT_DEPTH_def
      supported_formats_def)

text \<open>
  Property C3. \<open>validate_definition\<close> decides the declarative well-formedness predicate: it
  succeeds exactly on the well-formed definitions, and otherwise reports a non-empty list of
  problems, so it never rejects without a reason.
\<close>

theorem validate_definition_decides:
  "validate_definition pattern_ok d =
     (if wf_definition pattern_ok d then Inr ()
      else Inl (ValidationFailed ''metaschema definition {} is invalid''
                  (definition_details pattern_ok d))) \<and>
   (definition_details pattern_ok d = [] \<longleftrightarrow> wf_definition pattern_ok d)"
  by (simp add: validate_definition_def definition_details_Nil)

text \<open>
  In an accepted definition no field nests objects (directly or as array items) deeper
  than \<open>MAX_OBJECT_DEPTH\<close>, so the recursions over accepted definitions are bounded.
\<close>

theorem accepted_depth_bounded:
  assumes "validate_definition pattern_ok d = Inr ()"
    and "(t, et) \<in> set (md_entity_types d)" and "(k, f) \<in> set (et_fields et)"
  shows "object_depth f \<le> MAX_OBJECT_DEPTH"
proof -
  have "field_ok pattern_ok (MAX_OBJECT_DEPTH - 1) f"
    using assms by (auto simp: validate_definition_def Let_def definition_details_Nil
        wf_definition_def split: if_splits)
  then show ?thesis
    using field_ok_depth by (fastforce simp: MAX_OBJECT_DEPTH_def)
qed

theorem accepted_depth_bounded_witness: "object_depth sample_author \<le> MAX_OBJECT_DEPTH"
  using accepted_depth_bounded [of "\<lambda>_. True" sample_definition "''book''"
      "\<lparr>et_description = None, et_fields = bt_insert ''author'' sample_author sample_fields\<rparr>"
      "''author''" sample_author] sample_definition_wf
  by (simp add: validate_definition_def definition_details_Nil)
    (simp add: sample_definition_def sample_fields_def)

text \<open>
  JSON Pointer segments built by \<open>escape_pointer_segment\<close> never contain a slash and
  decode to the name they were built from, so distinct names give distinct paths.
\<close>

theorem escape_pointer_roundtrip:
  "unescape_pointer_segment (escape_pointer_segment s) = s \<and>
   CHR ''/'' \<notin> set (escape_pointer_segment s) \<and> inj escape_pointer_segment"
  by (metis unescape_escape escape_no_slash injI)

end
