(* ===== verification/Metaschema_Versioning.thy ===== *)
theory Metaschema_Versioning
  imports Metaschema_Validate
begin

text \<open>
  \<open>src/models/schema_schemas/metaschema/versioning.rs\<close>: the comparison of two definitions that
  decides whether a change is breaking, with its human-readable reasons rendered as in the source.

  The second half states what "not breaking" is for: an abstract semantics of field definitions
  (which JSON data a definition admits, from the JSON Schema keywords a definition is projected
  to) and the proof that a change without reasons keeps stored data valid, under the two
  conditions the comparison does not check.
\<close>

record versioning_diff =
  is_breaking :: bool
  reasons :: "string list"

definition lowered_ceiling :: "'a::linorder option \<Rightarrow> 'a option \<Rightarrow> bool" where
  "lowered_ceiling old new = (case (old, new) of
       (None, Some _) \<Rightarrow> True
     | (Some _, None) \<Rightarrow> False
     | (Some o', Some n) \<Rightarrow> n < o'
     | (None, None) \<Rightarrow> False)"

definition raised_floor :: "'a::linorder option \<Rightarrow> 'a option \<Rightarrow> bool" where
  "raised_floor old new = (case (old, new) of
       (None, Some _) \<Rightarrow> True
     | (Some _, None) \<Rightarrow> False
     | (Some o', Some n) \<Rightarrow> n > o'
     | (None, None) \<Rightarrow> False)"

definition quoted :: "string \<Rightarrow> string" where
  "quoted s = CHR 0x27 # s @ [CHR 0x27]"

text \<open>The scalar constraints of one field, compared in the source's order.\<close>

definition diff_enum :: "string \<Rightarrow> field_def \<Rightarrow> field_def \<Rightarrow> string list" where
  "diff_enum fp old new = (case (fd_enum_values old, fd_enum_values new) of
       (Some old_enum, Some new_enum) \<Rightarrow>
         concat (map (\<lambda>v. if v \<notin> set new_enum
                          then [''field '' @ fp @ '' enum value '' @ quoted v @ '' was removed'']
                          else []) old_enum)
     | _ \<Rightarrow> [])"

definition diff_constraints :: "string \<Rightarrow> field_def \<Rightarrow> field_def \<Rightarrow> string list" where
  "diff_constraints fp old new =
     (let say = (\<lambda>attr. [''field '' @ fp @ '' '' @ attr]) in
      (if fd_format old = None \<and> fd_format new \<noteq> None then say ''added a format constraint''
       else if fd_format old \<noteq> fd_format new \<and> fd_format old \<noteq> None \<and> fd_format new \<noteq> None
       then say ''changed its format constraint'' else [])
      @ (if raised_floor (fd_minimum old) (fd_minimum new) then say ''raised its minimum'' else [])
      @ (if lowered_ceiling (fd_maximum old) (fd_maximum new) then say ''lowered its maximum''
         else [])
      @ (if raised_floor (fd_min_length old) (fd_min_length new) then say ''raised its minLength''
         else [])
      @ (if lowered_ceiling (fd_max_length old) (fd_max_length new)
         then say ''lowered its maxLength'' else [])
      @ (if fd_pattern old = None \<and> fd_pattern new \<noteq> None then say ''added a pattern constraint''
         else if fd_pattern old \<noteq> fd_pattern new \<and> fd_pattern old \<noteq> None \<and> fd_pattern new \<noteq> None
         then say ''changed its pattern constraint'' else [])
      @ (if raised_floor (fd_min_items old) (fd_min_items new) then say ''raised its minItems''
         else [])
      @ (if lowered_ceiling (fd_max_items old) (fd_max_items new) then say ''lowered its maxItems''
         else [])
      @ (if \<not> fd_unique_items old \<and> fd_unique_items new then say ''added uniqueItems constraint''
         else []))"

definition diff_added :: "string \<Rightarrow> fields \<Rightarrow> fields \<Rightarrow> string list" where
  "diff_added path old new =
     concat (map (\<lambda>(name, f). if bt_get old name = None \<and> fd_required f
        then [''new field '' @ quoted (path @ ''.'' @ name) @ '' was added as required''] else [])
       new)"

function diff_fields :: "string \<Rightarrow> fields \<Rightarrow> fields \<Rightarrow> string list"
  and diff_loop :: "string \<Rightarrow> fields \<Rightarrow> fields \<Rightarrow> string list"
  and diff_field :: "string \<Rightarrow> string \<Rightarrow> field_def \<Rightarrow> field_def option \<Rightarrow> string list" where
  "diff_fields path old new = diff_loop path old new @ diff_added path old new"
| "diff_loop path [] new = []"
| "diff_loop path (e # es) new =
     diff_field path (fst e) (snd e) (bt_get new (fst e)) @ diff_loop path es new"
| "diff_field path name old None =
     [''field '' @ quoted name @ '' was removed from '' @ quoted path @ '' (or renamed)'']"
| "diff_field path name old (Some new) =
     (let fp = quoted (path @ ''.'' @ name) in
      (if fd_type old \<noteq> fd_type new
       then [''field '' @ fp @ '' changed type from '' @ field_type_debug (fd_type old)
             @ '' to '' @ field_type_debug (fd_type new)] else [])
      @ (if \<not> fd_required old \<and> fd_required new then [''field '' @ fp @ '' became required''] else [])
      @ (case (fd_items old, fd_items new) of
           (Some oi, Some ni) \<Rightarrow>
             if ai_type oi \<noteq> ai_type ni
             then [''field '' @ fp @ '' array items type changed from ''
                   @ quoted (array_item_type_display (ai_type oi)) @ '' to ''
                   @ quoted (array_item_type_display (ai_type ni))]
             else if ai_type oi = AObject
             then (case ai_properties oi of
                     None \<Rightarrow> diff_added (path @ ''.'' @ name @ ''[]'') []
                               (case ai_properties ni of None \<Rightarrow> [] | Some np \<Rightarrow> np)
                   | Some op \<Rightarrow> diff_fields (path @ ''.'' @ name @ ''[]'') op
                               (case ai_properties ni of None \<Rightarrow> [] | Some np \<Rightarrow> np))
             else []
         | _ \<Rightarrow> [])
      @ (case (fd_properties old, fd_properties new) of
           (Some op, Some np) \<Rightarrow> diff_fields (path @ ''.'' @ name) op np
         | _ \<Rightarrow> [])
      @ diff_enum fp old new @ diff_constraints fp old new)"
  by pat_completeness auto
termination
  by (relation "measure (\<lambda>x. case x of
          Inl (_, old, _) \<Rightarrow> 3 * fields_size old + 2
        | Inr (Inl (_, old, _)) \<Rightarrow> 3 * fields_size old + 1
        | Inr (Inr (_, _, old, _)) \<Rightarrow> 3 * size old)")
    (auto dest!: fields_size_properties [OF sym] fields_size_items [OF sym])

declare diff_fields.simps [simp del] diff_field.simps [simp del]

definition diff_relation ::
  "relation_type_def btree_map \<Rightarrow> string \<times> relation_type_def \<Rightarrow> string list" where
  "diff_relation new e = (case bt_get new (fst e) of
       None \<Rightarrow> [''relation_type '' @ quoted (fst e) @ '' was removed'']
     | Some r \<Rightarrow>
         if rt_source (snd e) \<noteq> rt_source r \<or> rt_target (snd e) \<noteq> rt_target r
         then [''relation_type '' @ quoted (fst e) @ '' source/target changed''] else [])"

definition diff_entity_type ::
  "entity_type_def btree_map \<Rightarrow> string \<times> entity_type_def \<Rightarrow> string list" where
  "diff_entity_type new e = (case bt_get new (fst e) of
       None \<Rightarrow> [''entity_type '' @ quoted (fst e) @ '' was removed'']
     | Some et \<Rightarrow> diff_fields (fst e) (et_fields (snd e)) (et_fields et))"

definition diff :: "metaschema_definition \<Rightarrow> metaschema_definition \<Rightarrow> versioning_diff" where
  "diff old new =
     (let rs = concat (map (diff_entity_type (md_entity_types new)) (md_entity_types old))
             @ concat (map (diff_relation (md_relation_types new)) (md_relation_types old))
      in \<lparr>is_breaking = (rs \<noteq> []), reasons = rs\<rparr>)"

section \<open>Which data a definition admits\<close>

text \<open>
  The abstract semantics.  The string-format, pattern and uniqueness checks of the JSON Schema
  validator are parameters: \<open>fmt format s\<close>, \<open>pat pattern s\<close>, \<open>uniq xs\<close>.
\<close>

record schema_checks =
  fmt :: "string \<Rightarrow> string \<Rightarrow> bool"
  pat :: "string \<Rightarrow> string \<Rightarrow> bool"
  uniq :: "json list \<Rightarrow> bool"

definition json_number :: "json \<Rightarrow> rat option" where
  "json_number v = (case v of JInt i \<Rightarrow> Some (of_int i) | JFloat q \<Rightarrow> Some q | _ \<Rightarrow> None)"

definition has_type :: "field_type_name \<Rightarrow> json \<Rightarrow> bool" where
  "has_type t v = (case t of
       FString \<Rightarrow> (case v of JStr _ \<Rightarrow> True | _ \<Rightarrow> False)
     | FNumber \<Rightarrow> json_number v \<noteq> None
     | FInteger \<Rightarrow> (case json_number v of None \<Rightarrow> False | Some q \<Rightarrow> snd (quotient_of q) = 1)
     | FBoolean \<Rightarrow> (case v of JBool _ \<Rightarrow> True | _ \<Rightarrow> False)
     | FArray \<Rightarrow> (case v of JArr _ \<Rightarrow> True | _ \<Rightarrow> False)
     | FObject \<Rightarrow> (case v of JObj _ \<Rightarrow> True | _ \<Rightarrow> False))"

definition in_bounds :: "'a::linorder option \<Rightarrow> 'a option \<Rightarrow> 'a \<Rightarrow> bool" where
  "in_bounds lo hi x \<longleftrightarrow> (\<forall>a. lo = Some a \<longrightarrow> a \<le> x) \<and> (\<forall>b. hi = Some b \<longrightarrow> x \<le> b)"

definition scalar_conforms :: "schema_checks \<Rightarrow> field_def \<Rightarrow> json \<Rightarrow> bool" where
  "scalar_conforms c f v \<longleftrightarrow>
     has_type (fd_type f) v \<and>
     (\<forall>vs. fd_enum_values f = Some vs \<longrightarrow> (\<exists>s \<in> set vs. v = JStr s)) \<and>
     (\<forall>q. json_number v = Some q \<longrightarrow> in_bounds (fd_minimum f) (fd_maximum f) q) \<and>
     (\<forall>s. v = JStr s \<longrightarrow>
        (\<forall>k. fd_format f = Some k \<longrightarrow> fmt c k s) \<and>
        in_bounds (fd_min_length f) (fd_max_length f) (char_count s) \<and>
        (\<forall>p. fd_pattern f = Some p \<longrightarrow> pat c p s)) \<and>
     (\<forall>xs. v = JArr xs \<longrightarrow>
        in_bounds (fd_min_items f) (fd_max_items f) (length xs) \<and>
        (fd_unique_items f \<longrightarrow> uniq c xs) \<and>
        (fd_type f = FArray \<longrightarrow> (\<forall>ps. fd_items f = Some (AString, ps) \<longrightarrow>
           (\<forall>x \<in> set xs. has_type FString x))))"

text \<open>The object values that a field's nested definition applies to.\<close>

definition nested_values :: "field_def \<Rightarrow> json \<Rightarrow> json list" where
  "nested_values f v = (case fd_type f of
       FObject \<Rightarrow> [v]
     | FArray \<Rightarrow> (case v of JArr xs \<Rightarrow> xs | _ \<Rightarrow> [])
     | _ \<Rightarrow> [])"

fun conforms :: "schema_checks \<Rightarrow> field_def \<Rightarrow> json \<Rightarrow> bool" where
  "conforms c f v \<longleftrightarrow>
     scalar_conforms c f v \<and>
     (case object_children f of
        None \<Rightarrow> True
      | Some ps \<Rightarrow> (\<forall>x \<in> set (nested_values f v). case x of
          JObj kvs \<Rightarrow> (\<forall>(k, g) \<in> set ps. case bt_get kvs k of
              None \<Rightarrow> \<not> fd_required g
            | Some y \<Rightarrow> conforms c g y)
        | _ \<Rightarrow> False))"

declare conforms.simps [simp del]

definition conforms_object :: "schema_checks \<Rightarrow> fields \<Rightarrow> json \<Rightarrow> bool" where
  "conforms_object c ps x \<longleftrightarrow> (case x of
       JObj kvs \<Rightarrow> (\<forall>(k, g) \<in> set ps. case bt_get kvs k of
           None \<Rightarrow> \<not> fd_required g
         | Some y \<Rightarrow> conforms c g y)
     | _ \<Rightarrow> False)"

lemma conforms_unfold:
  "conforms c f v \<longleftrightarrow> scalar_conforms c f v \<and>
     (\<forall>ps. object_children f = Some ps \<longrightarrow> (\<forall>x \<in> set (nested_values f v). conforms_object c ps x))"
  by (subst conforms.simps) (auto simp: conforms_object_def split: option.splits)

text \<open>
  Data that uses only declared keys.  A projected schema has no \<open>additionalProperties\<close> keyword, so
  data may hold others.
\<close>

fun declared :: "field_def \<Rightarrow> json \<Rightarrow> bool" where
  "declared f v \<longleftrightarrow>
     (case object_children f of
        None \<Rightarrow> True
      | Some ps \<Rightarrow> (\<forall>x \<in> set (nested_values f v). case x of
          JObj kvs \<Rightarrow> (\<forall>(k, y) \<in> set kvs. k \<in> fst ` set ps) \<and>
            (\<forall>(k, g) \<in> set ps. case bt_get kvs k of None \<Rightarrow> True | Some y \<Rightarrow> declared g y)
        | _ \<Rightarrow> True))"

declare declared.simps [simp del]

definition declared_object :: "fields \<Rightarrow> json \<Rightarrow> bool" where
  "declared_object ps x \<longleftrightarrow> (case x of
       JObj kvs \<Rightarrow> (\<forall>(k, y) \<in> set kvs. k \<in> fst ` set ps) \<and>
         (\<forall>(k, g) \<in> set ps. case bt_get kvs k of None \<Rightarrow> True | Some y \<Rightarrow> declared g y)
     | _ \<Rightarrow> True)"

lemma declared_unfold:
  "declared f v \<longleftrightarrow>
     (\<forall>ps. object_children f = Some ps \<longrightarrow> (\<forall>x \<in> set (nested_values f v). declared_object ps x))"
  by (subst declared.simps) (auto simp: declared_object_def split: option.splits)

text \<open>No field that had no enumeration gains one, at any level of nesting.\<close>

fun enum_kept :: "field_def \<Rightarrow> field_def \<Rightarrow> bool" where
  "enum_kept f g \<longleftrightarrow>
     (fd_enum_values f = None \<longrightarrow> fd_enum_values g = None) \<and>
     (case object_children f of
        None \<Rightarrow> True
      | Some ps \<Rightarrow> (\<forall>(k, f') \<in> set ps. \<forall>qs g'.
          object_children g = Some qs \<and> bt_get qs k = Some g' \<longrightarrow> enum_kept f' g'))"

declare enum_kept.simps [simp del]

definition enum_kept_object :: "fields \<Rightarrow> fields \<Rightarrow> bool" where
  "enum_kept_object ps qs \<longleftrightarrow>
     (\<forall>(k, f) \<in> set ps. \<forall>g. bt_get qs k = Some g \<longrightarrow> enum_kept f g)"

lemma enum_kept_unfold:
  "enum_kept f g \<longleftrightarrow> (fd_enum_values f = None \<longrightarrow> fd_enum_values g = None) \<and>
     (\<forall>ps qs. object_children f = Some ps \<longrightarrow> object_children g = Some qs \<longrightarrow> enum_kept_object ps qs)"
  by (subst enum_kept.simps) (fastforce simp: enum_kept_object_def split: option.splits)

section \<open>A change without reasons keeps data valid\<close>

lemma raised_floor_within:
  "\<not> raised_floor lo lo' \<Longrightarrow> \<not> lowered_ceiling hi hi' \<Longrightarrow> in_bounds lo hi x \<Longrightarrow> in_bounds lo' hi' x"
  by (fastforce simp: raised_floor_def lowered_ceiling_def in_bounds_def split: option.splits)

lemma diff_constraints_Nil:
  "diff_constraints fp old new = [] \<longleftrightarrow>
     (\<forall>k. fd_format new = Some k \<longrightarrow> fd_format old = Some k) \<and>
     \<not> raised_floor (fd_minimum old) (fd_minimum new) \<and>
     \<not> lowered_ceiling (fd_maximum old) (fd_maximum new) \<and>
     \<not> raised_floor (fd_min_length old) (fd_min_length new) \<and>
     \<not> lowered_ceiling (fd_max_length old) (fd_max_length new) \<and>
     (\<forall>p. fd_pattern new = Some p \<longrightarrow> fd_pattern old = Some p) \<and>
     \<not> raised_floor (fd_min_items old) (fd_min_items new) \<and>
     \<not> lowered_ceiling (fd_max_items old) (fd_max_items new) \<and>
     (fd_unique_items new \<longrightarrow> fd_unique_items old)"
  by (simp add: diff_constraints_def Let_def)
    (cases "fd_format old"; cases "fd_format new"; cases "fd_pattern old"; cases "fd_pattern new";
     auto)

lemma diff_enum_Nil:
  "diff_enum fp old new = [] \<longleftrightarrow>
     (\<forall>vs ws. fd_enum_values old = Some vs \<longrightarrow> fd_enum_values new = Some ws \<longrightarrow> set vs \<subseteq> set ws)"
  by (auto simp: diff_enum_def split: option.splits if_splits)

lemma diff_added_Nil:
  "diff_added path old new = [] \<longleftrightarrow>
     (\<forall>(k, g) \<in> set new. bt_get old k = None \<longrightarrow> \<not> fd_required g)"
  by (auto simp: diff_added_def split: if_splits)

lemma diff_loop_Nil:
  "diff_loop path old new = [] \<longleftrightarrow>
     (\<forall>(k, f) \<in> set old. diff_field path k f (bt_get new k) = [])"
  by (induction old) auto

lemma diff_field_None: "diff_field path name old None \<noteq> []"
  by (simp add: diff_field.simps)

lemma diff_field_opt:
  "diff_field path k f x = [] \<longleftrightarrow> (\<exists>g. x = Some g \<and> diff_field path k f (Some g) = [])"
  by (cases x) (auto simp: diff_field_None)

lemma diff_fields_Nil:
  "diff_fields path old new = [] \<longleftrightarrow>
     (\<forall>(k, f) \<in> set old. \<exists>g. bt_get new k = Some g \<and> diff_field path k f (Some g) = []) \<and>
     (\<forall>(k, g) \<in> set new. bt_get old k = None \<longrightarrow> \<not> fd_required g)"
  unfolding diff_fields.simps append_is_Nil_conv diff_loop_Nil diff_added_Nil
  by (subst diff_field_opt) (rule refl)

lemma diff_fields_old_Nil: "diff_fields path [] new = diff_added path [] new"
  by (simp add: diff_fields.simps)

definition items_fields :: "array_items \<Rightarrow> fields" where
  "items_fields it = (case ai_properties it of None \<Rightarrow> [] | Some ps \<Rightarrow> ps)"

lemma diff_field_Some_Nil:
  "diff_field path name f (Some g) = [] \<longleftrightarrow>
     fd_type f = fd_type g \<and> (fd_required g \<longrightarrow> fd_required f) \<and>
     (\<forall>oi ni. fd_items f = Some oi \<longrightarrow> fd_items g = Some ni \<longrightarrow> ai_type oi = ai_type ni \<and>
        (ai_type oi = AObject \<longrightarrow>
           diff_fields (path @ ''.'' @ name @ ''[]'') (items_fields oi) (items_fields ni) = [])) \<and>
     (\<forall>op np. fd_properties f = Some op \<longrightarrow> fd_properties g = Some np \<longrightarrow>
        diff_fields (path @ ''.'' @ name) op np = []) \<and>
     diff_enum (quoted (path @ ''.'' @ name)) f g = [] \<and>
     diff_constraints (quoted (path @ ''.'' @ name)) f g = []"
proof -
  have items: "(case (fd_items f, fd_items g) of
           (Some oi, Some ni) \<Rightarrow>
             if ai_type oi \<noteq> ai_type ni then [m oi ni]
             else if ai_type oi = AObject
             then (case ai_properties oi of
                     None \<Rightarrow> diff_added p [] (case ai_properties ni of None \<Rightarrow> [] | Some np \<Rightarrow> np)
                   | Some op \<Rightarrow> diff_fields p op (case ai_properties ni of None \<Rightarrow> [] | Some np \<Rightarrow> np))
             else []
         | _ \<Rightarrow> []) = [] \<longleftrightarrow>
     (\<forall>oi ni. fd_items f = Some oi \<longrightarrow> fd_items g = Some ni \<longrightarrow> ai_type oi = ai_type ni \<and>
        (ai_type oi = AObject \<longrightarrow> diff_fields p (items_fields oi) (items_fields ni) = []))" for m p
    by (cases "fd_items f"; cases "fd_items g")
      (auto simp: items_fields_def diff_fields_old_Nil split: option.split)
  have props: "(case (fd_properties f, fd_properties g) of
           (Some op, Some np) \<Rightarrow> diff_fields p op np | _ \<Rightarrow> []) = [] \<longleftrightarrow>
     (\<forall>op np. fd_properties f = Some op \<longrightarrow> fd_properties g = Some np \<longrightarrow> diff_fields p op np = [])" for p
    by (auto split: option.split)
  show ?thesis
    unfolding diff_field.simps Let_def append_is_Nil_conv items props by auto
qed

lemma object_children_iff:
  "object_children f = Some ps \<longleftrightarrow>
     fd_type f = FObject \<and> ps = (case fd_properties f of None \<Rightarrow> [] | Some ps \<Rightarrow> ps) \<or>
     fd_type f = FArray \<and> (\<exists>it. fd_items f = Some it \<and> ai_type it = AObject \<and> ps = items_fields it)"
  by (auto simp: object_children_def items_fields_def
      split: field_type_name.splits option.splits array_item_type.splits)

text \<open>One field that raised no reason, between two accepted definitions.\<close>

lemma field_ok_items: "field_ok pattern_ok n f \<Longrightarrow> fd_type f = FArray \<Longrightarrow> \<exists>it. fd_items f = Some it"
  by (auto simp: field_ok.simps [of _ n f])

lemma field_ok_children:
  "field_ok pattern_ok n f \<Longrightarrow> object_children f = Some ps \<Longrightarrow>
     ps \<noteq> [] \<and> (\<forall>(k, g) \<in> set ps. field_ok pattern_ok (n - 1) g)"
  by (simp add: field_ok.simps [of _ n f])

lemma diff_field_items:
  assumes "diff_field path name f (Some g) = []"
    and "field_ok pattern_ok n f" and "field_ok pattern_ok' m g" and "fd_type f = FArray"
  shows "map_option ai_type (fd_items f) = map_option ai_type (fd_items g)"
proof -
  have "fd_type g = FArray" using assms(1,4) by (simp add: diff_field_Some_Nil)
  then obtain it it' where "fd_items f = Some it" "fd_items g = Some it'"
    using field_ok_items assms(2-4) by metis
  then show ?thesis using assms(1) by (simp add: diff_field_Some_Nil)
qed

lemma diff_field_children:
  assumes diff: "diff_field path name f (Some g) = []"
    and okf: "field_ok pattern_ok n f" and okg: "field_ok pattern_ok' m g"
    and qs: "object_children g = Some qs"
  shows "\<exists>ps path'. object_children f = Some ps \<and> diff_fields path' ps qs = []"
proof -
  have ty: "fd_type f = fd_type g" using diff by (simp add: diff_field_Some_Nil)
  from qs consider "fd_type g = FObject" | "fd_type g = FArray"
    by (auto simp: object_children_iff)
  then show ?thesis
  proof cases
    case 1
    with ty have ch: "object_children f = Some (case fd_properties f of None \<Rightarrow> [] | Some ps \<Rightarrow> ps)"
      by (simp add: object_children_iff)
    then obtain op where op: "fd_properties f = Some op"
      using field_ok_children [OF okf ch] by (cases "fd_properties f") auto
    obtain np where "fd_properties g = Some np" "qs = np"
      using field_ok_children [OF okg qs] qs 1 by (cases "fd_properties g") (auto simp: object_children_iff)
    then show ?thesis using diff op ch by (auto simp: diff_field_Some_Nil)
  next
    case 2
    with qs obtain ni where ni: "fd_items g = Some ni" "ai_type ni = AObject" "qs = items_fields ni"
      by (auto simp: object_children_iff)
    moreover from 2 ty obtain oi where oi: "fd_items f = Some oi"
      using field_ok_items [OF okf] by auto
    ultimately have "ai_type oi = AObject"
      "diff_fields (path @ ''.'' @ name @ ''[]'') (items_fields oi) qs = []"
      using diff by (auto simp: diff_field_Some_Nil)
    then show ?thesis using oi 2 ty by (auto simp: object_children_iff)
  qed
qed

lemma scalar_conforms_compatible:
  assumes ty: "fd_type f = fd_type g"
    and enum: "diff_enum fp f g = []" and constr: "diff_constraints fp f g = []"
    and kept: "fd_enum_values f = None \<longrightarrow> fd_enum_values g = None"
    and items: "fd_type f = FArray \<Longrightarrow> map_option ai_type (fd_items f) = map_option ai_type (fd_items g)"
    and conf: "scalar_conforms c f v"
  shows "scalar_conforms c g v"
proof -
  note constr' = diff_constraints_Nil [THEN iffD1, OF constr]
  have "\<exists>s \<in> set ws. v = JStr s" if "fd_enum_values g = Some ws" for ws
    using enum kept conf that by (cases "fd_enum_values f") (auto simp: scalar_conforms_def diff_enum_Nil)
  moreover have "in_bounds (fd_minimum g) (fd_maximum g) q" if "json_number v = Some q" for q
    using conf constr' that by (auto simp: scalar_conforms_def intro: raised_floor_within)
  moreover have "(\<forall>k. fd_format g = Some k \<longrightarrow> fmt c k s) \<and>
      in_bounds (fd_min_length g) (fd_max_length g) (char_count s) \<and>
      (\<forall>p. fd_pattern g = Some p \<longrightarrow> pat c p s)" if "v = JStr s" for s
    using conf constr' that by (auto simp: scalar_conforms_def intro: raised_floor_within)
  moreover have "in_bounds (fd_min_items g) (fd_max_items g) (length xs) \<and> (fd_unique_items g \<longrightarrow> uniq c xs)"
    if "v = JArr xs" for xs
    using conf constr' that by (auto simp: scalar_conforms_def intro: raised_floor_within)
  moreover have "has_type FString x"
    if v: "v = JArr xs" and g: "fd_type g = FArray" "fd_items g = Some (AString, qs)"
      and x: "x \<in> set xs" for xs qs x
  proof -
    obtain ps where "fd_items f = Some (AString, ps)"
      using ty items g by (cases "fd_items f") auto
    then show ?thesis using conf v g(1) ty x by (auto simp: scalar_conforms_def)
  qed
  moreover have "has_type (fd_type g) v" using conf ty by (simp add: scalar_conforms_def)
  ultimately show ?thesis
    unfolding scalar_conforms_def by blast
qed

lemma conforms_object_compatible:
  assumes fields: "diff_fields path ps qs = []" and wf: "bt_wf ps"
    and enum: "enum_kept_object ps qs"
    and conf: "conforms_object c ps x" and decl: "declared_object ps x"
    and IH: "\<And>k f g v path. (k, f) \<in> set ps \<Longrightarrow> bt_get qs k = Some g \<Longrightarrow>
      diff_field path k f (Some g) = [] \<Longrightarrow> enum_kept f g \<Longrightarrow> conforms c f v \<Longrightarrow> declared f v \<Longrightarrow>
      conforms c g v"
    and wf': "bt_wf qs"
  shows "conforms_object c qs x"
proof -
  from conf obtain kvs where x: "x = JObj kvs"
    by (auto simp: conforms_object_def split: json.splits)
  have "case bt_get kvs k of None \<Rightarrow> \<not> fd_required g | Some y \<Rightarrow> conforms c g y"
    if "(k, g) \<in> set qs" for k g
  proof (cases "bt_get ps k")
    case None
    then have "\<not> fd_required g" using fields that by (auto simp: diff_fields_Nil)
    moreover have "bt_get kvs k = None"
      using None decl x unfolding declared_object_def bt_get_eq_None by (force simp del: split_paired_Ex)
    ultimately show ?thesis by simp
  next
    case (Some f)
    then have mem: "(k, f) \<in> set ps" and g: "bt_get qs k = Some g"
      using that wf' by (auto dest: bt_get_mem bt_mem_get)
    then have diff: "diff_field path k f (Some g) = []"
      using fields by (auto simp: diff_fields_Nil)
    have "\<not> fd_required f \<Longrightarrow> \<not> fd_required g"
      using diff by (simp add: diff_field_Some_Nil)
    moreover have "conforms c g y" if "bt_get kvs k = Some y" for y
      using IH [OF mem g diff] that mem g conf decl enum x
      by (fastforce simp: conforms_object_def declared_object_def enum_kept_object_def)
    ultimately show ?thesis
      using conf mem x by (fastforce simp: conforms_object_def split: option.splits)
  qed
  then show ?thesis
    using x by (auto simp: conforms_object_def)
qed

text \<open>Field maps are ordered maps at every level the definition uses.\<close>

fun field_wf :: "field_def \<Rightarrow> bool" where
  "field_wf f \<longleftrightarrow> (case object_children f of
       None \<Rightarrow> True
     | Some ps \<Rightarrow> bt_wf ps \<and> (\<forall>(k, g) \<in> set ps. field_wf g))"

declare field_wf.simps [simp del]

definition definition_wf :: "metaschema_definition \<Rightarrow> bool" where
  "definition_wf d \<longleftrightarrow> bt_wf (md_entity_types d) \<and> bt_wf (md_relation_types d) \<and>
     (\<forall>(t, et) \<in> set (md_entity_types d). bt_wf (et_fields et) \<and>
        (\<forall>(k, f) \<in> set (et_fields et). field_wf f))"

lemma conforms_compatible:
  assumes "diff_field path name f (Some g) = []" and "enum_kept f g"
    and "field_ok pattern_ok n f" and "field_ok pattern_ok' m g" and "field_wf f" and "field_wf g"
    and "conforms c f v" and "declared f v"
  shows "conforms c g v"
  using assms
proof (induction "size f" arbitrary: f g v path name n m rule: less_induct)
  case less
  note diff = diff_field_Some_Nil [THEN iffD1, OF less.prems(1)]
  have en: "fd_enum_values f = None \<longrightarrow> fd_enum_values g = None"
    using less.prems(2) by (simp add: enum_kept_unfold)
  have sc: "scalar_conforms c f v"
    using less.prems(7) by (simp add: conforms_unfold)
  have "scalar_conforms c g v"
    by (rule scalar_conforms_compatible [OF _ _ _ en _ sc])
      (use diff diff_field_items [OF less.prems(1) less.prems(3,4)] in blast)+
  moreover have "conforms_object c qs x"
    if qs: "object_children g = Some qs" and x: "x \<in> set (nested_values g v)" for qs x
  proof -
    obtain ps path' where ps: "object_children f = Some ps" and path': "diff_fields path' ps qs = []"
      using diff_field_children [OF less.prems(1) less.prems(3,4) qs] by blast
    have x': "x \<in> set (nested_values f v)"
      using x diff by (simp add: nested_values_def)
    have wfs: "bt_wf ps" "bt_wf qs" "\<And>k f'. (k, f') \<in> set ps \<Longrightarrow> field_wf f'"
      "\<And>k g'. (k, g') \<in> set qs \<Longrightarrow> field_wf g'"
      using less.prems(5,6) ps qs by (auto simp: field_wf.simps [of f] field_wf.simps [of g])
    have oks: "\<And>k f'. (k, f') \<in> set ps \<Longrightarrow> field_ok pattern_ok (n - 1) f'"
      "\<And>k g'. (k, g') \<in> set qs \<Longrightarrow> field_ok pattern_ok' (m - 1) g'"
      using field_ok_children [OF less.prems(3) ps] field_ok_children [OF less.prems(4) qs] by auto
    show ?thesis
    proof (rule conforms_object_compatible [OF path' wfs(1)])
      show "enum_kept_object ps qs" "conforms_object c ps x" "declared_object ps x"
        using less.prems ps qs x' by (auto simp: enum_kept_unfold conforms_unfold declared_unfold)
      show "conforms c g' y" if "(k, f') \<in> set ps" "bt_get qs k = Some g'"
        "diff_field p k f' (Some g') = []" "enum_kept f' g'" "conforms c f' y" "declared f' y"
        for k f' g' y p
        using less.hyps [OF object_children_size [OF ps that(1)] that(3,4)] oks wfs that
        by (blast dest: bt_get_mem)
    qed (rule wfs(2))
  qed
  ultimately show ?case
    by (simp add: conforms_unfold)
qed

lemma diff_not_breaking:
  "\<not> is_breaking (diff old new) \<longleftrightarrow>
     (\<forall>e \<in> set (md_entity_types old). diff_entity_type (md_entity_types new) e = []) \<and>
     (\<forall>e \<in> set (md_relation_types old). diff_relation (md_relation_types new) e = [])"
  by (auto simp: diff_def Let_def)

end
