(* ===== verification/Metaschema_Projection.thy ===== *)
theory Metaschema_Projection
  imports Metaschema_Versioning
begin

text \<open>
  \<open>src/models/schema_schemas/metaschema/projection.rs\<close>: the JSON Schema generated from an entity
  type, used to validate entity data and as the MCP input schema; and
  \<open>src/models/entity_entities/validation.rs\<close>, which runs the validator on it.

  The abstract side is \<open>js_valid\<close>: what JSON Schema (draft 2020-12) says of the keywords the
  projection emits.  The refinement lemma shows that the generated schema admits exactly the data
  the definition admits.
\<close>

definition ins_opt :: "string \<Rightarrow> ('a \<Rightarrow> json) \<Rightarrow> 'a option \<Rightarrow> json btree_map \<Rightarrow> json btree_map" where
  "ins_opt k to_json x m = (case x of None \<Rightarrow> m | Some a \<Rightarrow> bt_insert k (to_json a) m)"

fun field_type_str :: "field_type_name \<Rightarrow> string" where
  "field_type_str FString = ''string''"
| "field_type_str FNumber = ''number''"
| "field_type_str FInteger = ''integer''"
| "field_type_str FBoolean = ''boolean''"
| "field_type_str FArray = ''array''"
| "field_type_str FObject = ''object''"

definition nat_json :: "nat \<Rightarrow> json" where
  "nat_json n = JInt (int n)"

text \<open>The keywords that do not depend on nested definitions.\<close>

definition scalar_keywords :: "field_def \<Rightarrow> json btree_map" where
  "scalar_keywords f =
     ins_opt ''default'' id (fd_default f)
     ((\<lambda>m. if fd_unique_items f then bt_insert ''uniqueItems'' (JBool True) m else m)
     (ins_opt ''maxItems'' nat_json (fd_max_items f)
     (ins_opt ''minItems'' nat_json (fd_min_items f)
     (ins_opt ''pattern'' JStr (fd_pattern f)
     (ins_opt ''maxLength'' nat_json (fd_max_length f)
     (ins_opt ''minLength'' nat_json (fd_min_length f)
     (ins_opt ''maximum'' JFloat (fd_maximum f)
     (ins_opt ''minimum'' JFloat (fd_minimum f)
     (ins_opt ''format'' JStr (fd_format f)
     (ins_opt ''enum'' (\<lambda>vs. JArr (map JStr vs)) (fd_enum_values f)
     (ins_opt ''description'' JStr (fd_description f)
     (bt_insert ''type'' (JStr (field_type_str (fd_type f))) []))))))))))))"

definition required_names :: "fields \<Rightarrow> json list" where
  "required_names fs = map (\<lambda>(k, f). JStr k) (filter (\<lambda>(k, f). fd_required f) fs)"

definition object_schema :: "json btree_map \<Rightarrow> fields \<Rightarrow> json btree_map" where
  "object_schema properties fs =
     (let schema = bt_insert ''properties'' (JObj properties)
                     (bt_insert ''type'' (JStr ''object'') []);
          required = required_names fs
      in if required \<noteq> [] then bt_insert ''required'' (JArr required) schema else schema)"

function properties_to_json_schema :: "fields \<Rightarrow> json btree_map"
  and properties_loop :: "fields \<Rightarrow> json btree_map \<Rightarrow> json btree_map"
  and field_to_json_schema :: "field_def \<Rightarrow> json btree_map" where
  "properties_to_json_schema fs = object_schema (properties_loop fs []) fs"
| "properties_loop [] acc = acc"
| "properties_loop (e # es) acc =
     properties_loop es (bt_insert (fst e) (JObj (field_to_json_schema (snd e))) acc)"
| "field_to_json_schema f =
     (let schema = scalar_keywords f;
          schema = (if fd_type f = FArray then
             (case fd_items f of
                None \<Rightarrow> schema
              | Some it \<Rightarrow> bt_insert ''items''
                  (JObj (if ai_type it = AObject
                    then bt_insert ''type'' (JStr ''object'')
                           (case ai_properties it of
                              None \<Rightarrow> object_schema [] []
                            | Some ps \<Rightarrow> properties_to_json_schema ps)
                    else bt_insert ''type'' (JStr (array_item_type_display (ai_type it))) [])) schema)
             else schema)
      in if fd_type f = FObject then
           (case fd_properties f of
              None \<Rightarrow> schema
            | Some ps \<Rightarrow>
                (let nested = properties_to_json_schema ps;
                     schema = bt_insert ''properties''
                       (case bt_get nested ''properties'' of None \<Rightarrow> JNull | Some p \<Rightarrow> p) schema
                 in (case bt_get nested ''required'' of
                       None \<Rightarrow> schema
                     | Some r \<Rightarrow> bt_insert ''required'' r schema)))
         else schema)"
  by pat_completeness auto
termination
  by (relation "measure (\<lambda>x. case x of
          Inl fs \<Rightarrow> 3 * fields_size fs + 2
        | Inr (Inl (fs, _)) \<Rightarrow> 3 * fields_size fs + 1
        | Inr (Inr f) \<Rightarrow> 3 * size f)")
    (auto dest!: fields_size_properties fields_size_items)

declare properties_to_json_schema.simps [simp del] field_to_json_schema.simps [simp del]

definition entity_type_to_json_schema :: "entity_type_def \<Rightarrow> json" where
  "entity_type_to_json_schema et = JObj (properties_to_json_schema (et_fields et))"

text \<open>
  \<open>validate_data\<close>: the \<open>jsonschema\<close> crate is the parameter \<open>errors_of\<close>, the violations it reports
  for data against a schema, \<open>None\<close> when the schema does not compile.  A violation has its instance
  path, the missing property when it is of the \<open>Required\<close> kind, and its message.
\<close>

record schema_violation =
  sv_instance_path :: string
  sv_required :: "json option"
  sv_message :: string

type_synonym schema_validator = "json \<Rightarrow> json \<Rightarrow> schema_violation list option"

definition error_field_pointer :: "schema_violation \<Rightarrow> string" where
  "error_field_pointer err =
     (case sv_required err of
        Some (JStr name) \<Rightarrow> sv_instance_path err @ ''/'' @ escape_pointer_segment name
      | _ \<Rightarrow> sv_instance_path err)"

definition validate_data :: "schema_validator \<Rightarrow> entity_type_def \<Rightarrow> json \<Rightarrow> unit result" where
  "validate_data errors_of et data =
     (let schema = entity_type_to_json_schema et in
      rbind (ok_or (errors_of schema data) (Internal ''invalid JSON Schema''))
       (\<lambda>errors.
         let details = map (\<lambda>err. detail (error_field_pointer err) (sv_message err) OtherCode) errors
         in if details = [] then Inr ()
            else Inl (ValidationFailed ''entity data does not conform to its schema'' details)))"

definition resolve_entity_type ::
  "metaschema_definition \<Rightarrow> string \<Rightarrow> entity_type_def result" where
  "resolve_entity_type d entity_type =
     ok_or (bt_get (md_entity_types d) entity_type)
       (NotFound ''entity_type {} is not defined in schema {}'')"

section \<open>JSON Schema semantics of the emitted keywords\<close>

definition js_type :: "string \<Rightarrow> json \<Rightarrow> bool" where
  "js_type t v \<longleftrightarrow> (\<exists>ft. t = field_type_str ft \<and> has_type ft v)"

definition js_upper :: "json option \<Rightarrow> rat \<Rightarrow> bool" where
  "js_upper a x \<longleftrightarrow> (\<forall>k b. a = Some k \<longrightarrow> json_number k = Some b \<longrightarrow> x \<le> b)"

definition js_lower :: "json option \<Rightarrow> rat \<Rightarrow> bool" where
  "js_lower a x \<longleftrightarrow> (\<forall>k b. a = Some k \<longrightarrow> json_number k = Some b \<longrightarrow> b \<le> x)"

definition js_scalar :: "schema_checks \<Rightarrow> json btree_map \<Rightarrow> json \<Rightarrow> bool" where
  "js_scalar c kw v \<longleftrightarrow>
     (\<forall>t. bt_get kw ''type'' = Some (JStr t) \<longrightarrow> js_type t v) \<and>
     (\<forall>vs. bt_get kw ''enum'' = Some (JArr vs) \<longrightarrow> v \<in> set vs) \<and>
     (\<forall>q. json_number v = Some q \<longrightarrow>
        js_lower (bt_get kw ''minimum'') q \<and> js_upper (bt_get kw ''maximum'') q) \<and>
     (\<forall>s. v = JStr s \<longrightarrow>
        (\<forall>k. bt_get kw ''format'' = Some (JStr k) \<longrightarrow> fmt c k s) \<and>
        js_lower (bt_get kw ''minLength'') (of_nat (char_count s)) \<and>
        js_upper (bt_get kw ''maxLength'') (of_nat (char_count s)) \<and>
        (\<forall>p. bt_get kw ''pattern'' = Some (JStr p) \<longrightarrow> pat c p s)) \<and>
     (\<forall>xs. v = JArr xs \<longrightarrow>
        js_lower (bt_get kw ''minItems'') (of_nat (length xs)) \<and>
        js_upper (bt_get kw ''maxItems'') (of_nat (length xs)) \<and>
        (bt_get kw ''uniqueItems'' = Some (JBool True) \<longrightarrow> uniq c xs)) \<and>
     (\<forall>kvs ns. v = JObj kvs \<longrightarrow> bt_get kw ''required'' = Some (JArr ns) \<longrightarrow>
        (\<forall>n. JStr n \<in> set ns \<longrightarrow> bt_get kvs n \<noteq> None))"

lemma bt_get_size [termination_simp]: "bt_get kw k = Some a \<Longrightarrow> size a < size (JObj kw)"
proof -
  assume "bt_get kw k = Some a"
  then have "(k, a) \<in> set kw" by (rule bt_get_mem)
  then have "size_prod (\<lambda>_. 0) size (k, a) \<le> size_list (size_prod (\<lambda>_. 0) size) kw"
    by (rule size_list_estimation') simp
  then show ?thesis by simp
qed

lemma bt_get_size_nested:
  "bt_get kw k = Some (JObj subs) \<Longrightarrow> (k', sub) \<in> set subs \<Longrightarrow> size sub < size (JObj kw)"
proof -
  assume get: "bt_get kw k = Some (JObj subs)" and mem: "(k', sub) \<in> set subs"
  have "size_prod (\<lambda>_. 0) size (k', sub) \<le> size_list (size_prod (\<lambda>_. 0) size) subs"
    using mem by (rule size_list_estimation') simp
  then have "size sub < size (JObj subs)" by simp
  also have "\<dots> < size (JObj kw)" by (rule bt_get_size [OF get])
  finally show ?thesis .
qed

text \<open>A schema that is not an object places no constraint.\<close>

function js_valid :: "schema_checks \<Rightarrow> json \<Rightarrow> json \<Rightarrow> bool" where
  "js_valid c schema v = (case schema of
       JObj kw \<Rightarrow>
         js_scalar c kw v \<and>
         (case (bt_get kw ''items'', v) of
            (Some sub, JArr xs) \<Rightarrow> (\<forall>x \<in> set xs. js_valid c sub x)
          | _ \<Rightarrow> True) \<and>
         (case (bt_get kw ''properties'', v) of
            (Some (JObj subs), JObj kvs) \<Rightarrow>
              (\<forall>(k, sub) \<in> set subs. case bt_get kvs k of None \<Rightarrow> True | Some y \<Rightarrow> js_valid c sub y)
          | _ \<Rightarrow> True)
     | _ \<Rightarrow> True)"
  by pat_completeness auto
termination
  by (relation "measure (\<lambda>(c, schema, v). size schema)")
    (auto simp del: json.size intro: bt_get_size bt_get_size [OF sym]
       bt_get_size_nested bt_get_size_nested [OF sym])

declare js_valid.simps [simp del]

section \<open>The generated schema admits exactly the data the definition admits\<close>

lemma bt_get_ins_opt:
  "bt_get (ins_opt k to_json x m) k' =
     (if k' = k then (case x of None \<Rightarrow> bt_get m k' | Some a \<Rightarrow> Some (to_json a)) else bt_get m k')"
  by (simp add: ins_opt_def bt_get_insert split: option.split)

lemma scalar_keywords_get:
  "bt_get (scalar_keywords f) ''type'' = Some (JStr (field_type_str (fd_type f)))"
  "bt_get (scalar_keywords f) ''enum'' = map_option (\<lambda>vs. JArr (map JStr vs)) (fd_enum_values f)"
  "bt_get (scalar_keywords f) ''format'' = map_option JStr (fd_format f)"
  "bt_get (scalar_keywords f) ''minimum'' = map_option JFloat (fd_minimum f)"
  "bt_get (scalar_keywords f) ''maximum'' = map_option JFloat (fd_maximum f)"
  "bt_get (scalar_keywords f) ''minLength'' = map_option nat_json (fd_min_length f)"
  "bt_get (scalar_keywords f) ''maxLength'' = map_option nat_json (fd_max_length f)"
  "bt_get (scalar_keywords f) ''pattern'' = map_option JStr (fd_pattern f)"
  "bt_get (scalar_keywords f) ''minItems'' = map_option nat_json (fd_min_items f)"
  "bt_get (scalar_keywords f) ''maxItems'' = map_option nat_json (fd_max_items f)"
  "bt_get (scalar_keywords f) ''uniqueItems'' = (if fd_unique_items f then Some (JBool True) else None)"
  "bt_get (scalar_keywords f) ''items'' = None"
  "bt_get (scalar_keywords f) ''properties'' = None"
  "bt_get (scalar_keywords f) ''required'' = None"
  by (simp_all add: scalar_keywords_def bt_get_ins_opt bt_get_insert split: option.split)

lemma object_schema_get:
  "bt_get (object_schema ps fs) ''type'' = Some (JStr ''object'')"
  "bt_get (object_schema ps fs) ''properties'' = Some (JObj ps)"
  "bt_get (object_schema ps fs) ''required'' =
     (if required_names fs = [] then None else Some (JArr (required_names fs)))"
  "k \<notin> {''type'', ''properties'', ''required''} \<Longrightarrow> bt_get (object_schema ps fs) k = None"
  by (auto simp: object_schema_def Let_def bt_get_insert)

definition project_fields :: "fields \<Rightarrow> json btree_map" where
  "project_fields fs = properties_loop fs []"

lemma properties_loop_get:
  "bt_wf fs \<Longrightarrow> bt_get (properties_loop fs acc) k =
     (case bt_get fs k of None \<Rightarrow> bt_get acc k | Some f \<Rightarrow> Some (JObj (field_to_json_schema f)))"
proof (induction fs arbitrary: acc)
  case Nil
  then show ?case by simp
next
  case (Cons e es)
  then have "bt_get es (fst e) = None"
    by (auto simp: bt_wf_Cons bt_get_eq_None)
  with Cons show ?case
    by (auto simp: bt_wf_Cons bt_get_insert split: option.split)
qed

lemma properties_loop_wf: "bt_wf acc \<Longrightarrow> bt_wf (properties_loop fs acc)"
  by (induction fs arbitrary: acc) (simp_all add: bt_wf_insert)

lemma project_fields_get:
  "bt_wf fs \<Longrightarrow> bt_get (project_fields fs) k = map_option (\<lambda>f. JObj (field_to_json_schema f)) (bt_get fs k)"
  by (simp add: project_fields_def properties_loop_get option.map_id0 split: option.split)

lemma project_fields_mem:
  assumes "bt_wf fs"
  shows "(\<forall>(k, sub) \<in> set (project_fields fs). P k sub) \<longleftrightarrow>
         (\<forall>(k, f) \<in> set fs. P k (JObj (field_to_json_schema f)))"
proof -
  have wf: "bt_wf (project_fields fs)" by (simp add: project_fields_def properties_loop_wf)
  have mem: "(k, x) \<in> set m \<longleftrightarrow> bt_get m k = Some x" if "bt_wf m" for m :: "'x btree_map" and k x
    using that by (auto dest: bt_get_mem bt_mem_get)
  have "set (project_fields fs) = (\<lambda>(k, f). (k, JObj (field_to_json_schema f))) ` set fs"
  proof (rule set_eqI)
    fix e :: "string \<times> json"
    obtain k x where e: "e = (k, x)" by (cases e)
    have "e \<in> set (project_fields fs) \<longleftrightarrow>
        (\<exists>f. (k, f) \<in> set fs \<and> x = JObj (field_to_json_schema f))"
      unfolding e mem [OF wf] project_fields_get [OF assms] mem [OF assms] by auto
    also have "\<dots> \<longleftrightarrow> e \<in> (\<lambda>(k, f). (k, JObj (field_to_json_schema f))) ` set fs"
      by (force simp: e)
    finally show "e \<in> set (project_fields fs) \<longleftrightarrow>
        e \<in> (\<lambda>(k, f). (k, JObj (field_to_json_schema f))) ` set fs" .
  qed
  then show ?thesis by (simp add: case_prod_beta')
qed

lemma required_names_mem:
  "JStr n \<in> set (required_names fs) \<longleftrightarrow> (\<exists>f. (n, f) \<in> set fs \<and> fd_required f)"
  by (force simp: required_names_def)

text \<open>The part of a field's schema that comes from its nested definition.\<close>

lemma field_schema_get:
  "k \<notin> {''items'', ''properties'', ''required''} \<Longrightarrow>
     bt_get (field_to_json_schema f) k = bt_get (scalar_keywords f) k"
  "bt_get (field_to_json_schema f) ''items'' =
     (if fd_type f = FArray then map_option (\<lambda>it. JObj
        (if ai_type it = AObject
         then bt_insert ''type'' (JStr ''object'') (properties_to_json_schema (items_fields it))
         else [(''type'', JStr ''string'')])) (fd_items f) else None)"
  "bt_get (field_to_json_schema f) ''properties'' =
     (if fd_type f = FObject then map_option (\<lambda>ps. JObj (project_fields ps)) (fd_properties f)
      else None)"
  "bt_get (field_to_json_schema f) ''required'' =
     (if fd_type f = FObject then (case fd_properties f of None \<Rightarrow> None
        | Some ps \<Rightarrow> if required_names ps = [] then None else Some (JArr (required_names ps)))
      else None)"
proof -
  have empty: "properties_to_json_schema [] = object_schema [] []"
    by (simp add: properties_to_json_schema.simps)
  have display: "t \<noteq> AObject \<Longrightarrow> array_item_type_display t = ''string''" for t
    by (cases t) simp_all
  note defs = field_to_json_schema.simps [of f] Let_def bt_get_insert scalar_keywords_get
    properties_to_json_schema.simps object_schema_get project_fields_def
  show "k \<notin> {''items'', ''properties'', ''required''} \<Longrightarrow>
     bt_get (field_to_json_schema f) k = bt_get (scalar_keywords f) k"
    by (simp add: field_to_json_schema.simps [of f] Let_def bt_get_insert split: option.split)
  show "bt_get (field_to_json_schema f) ''items'' =
     (if fd_type f = FArray then map_option (\<lambda>it. JObj
        (if ai_type it = AObject
         then bt_insert ''type'' (JStr ''object'') (properties_to_json_schema (items_fields it))
         else [(''type'', JStr ''string'')])) (fd_items f) else None)"
    by (simp add: field_to_json_schema.simps [of f] Let_def bt_get_insert scalar_keywords_get
        items_fields_def empty display split: option.split)
  show "bt_get (field_to_json_schema f) ''properties'' =
     (if fd_type f = FObject then map_option (\<lambda>ps. JObj (project_fields ps)) (fd_properties f)
      else None)"
    by (simp add: defs split: option.split)
  show "bt_get (field_to_json_schema f) ''required'' =
     (if fd_type f = FObject then (case fd_properties f of None \<Rightarrow> None
        | Some ps \<Rightarrow> if required_names ps = [] then None else Some (JArr (required_names ps)))
      else None)"
    by (simp add: defs split: option.split)
qed

lemma js_type_str: "js_type (field_type_str t) v \<longleftrightarrow> has_type t v"
proof -
  have "field_type_str t = field_type_str t' \<longleftrightarrow> t = t'" for t'
    by (cases t; cases t') simp_all
  then show ?thesis by (simp add: js_type_def)
qed

lemma js_bounds:
  "js_lower (map_option JFloat a) q \<and> js_upper (map_option JFloat b) q \<longleftrightarrow> in_bounds a b q"
  "js_lower (map_option nat_json n) (of_nat k) \<and> js_upper (map_option nat_json m) (of_nat k) \<longleftrightarrow>
     in_bounds n m k"
  by (auto simp: js_lower_def js_upper_def in_bounds_def json_number_def nat_json_def)

lemma js_bounds_conj:
  "js_lower (map_option nat_json n) (of_nat k) \<and> js_upper (map_option nat_json m) (of_nat k) \<and> R \<longleftrightarrow>
     in_bounds n m k \<and> R"
  using js_bounds(2) [of n k m] by blast

text \<open>Only strings are admitted by \<open>{"type": "string"}\<close>, and only objects by an object schema.\<close>

lemma js_valid_string: "js_valid c (JObj [(''type'', JStr ''string'')]) x \<longleftrightarrow> has_type FString x"
  using js_type_str [of FString x]
  by (subst js_valid.simps) (auto simp: js_scalar_def js_lower_def js_upper_def)

lemma js_required:
  "(\<forall>kvs ns. v = JObj kvs \<longrightarrow>
      (if required_names fs = [] then None else Some (JArr (required_names fs))) = Some (JArr ns) \<longrightarrow>
      (\<forall>n. JStr n \<in> set ns \<longrightarrow> bt_get kvs n \<noteq> None)) \<longleftrightarrow>
   (\<forall>kvs. v = JObj kvs \<longrightarrow> (\<forall>(k, f) \<in> set fs. fd_required f \<longrightarrow> bt_get kvs k \<noteq> None))"
proof -
  have "(\<forall>n. JStr n \<in> set (required_names fs) \<longrightarrow> bt_get kvs n \<noteq> None) \<longleftrightarrow>
        (\<forall>(k, f) \<in> set fs. fd_required f \<longrightarrow> bt_get kvs k \<noteq> None)" for kvs :: "json btree_map"
    by (auto simp: required_names_mem)
  moreover have "required_names fs = [] \<Longrightarrow> (\<forall>(k, f) \<in> set fs. \<not> fd_required f)"
    by (auto simp: required_names_def filter_empty_conv)
  ultimately show ?thesis by (cases "required_names fs = []") auto
qed

lemma js_valid_object:
  assumes wf: "bt_wf fs"
    and IH: "\<And>k f y. (k, f) \<in> set fs \<Longrightarrow> js_valid c (JObj (field_to_json_schema f)) y \<longleftrightarrow> conforms c f y"
    and get: "bt_get kw ''type'' = Some (JStr ''object'')"
      "bt_get kw ''properties'' = Some (JObj (project_fields fs))"
      "bt_get kw ''required'' =
         (if required_names fs = [] then None else Some (JArr (required_names fs)))"
      "\<And>k. k \<notin> {''type'', ''properties'', ''required'', ''description''} \<Longrightarrow> bt_get kw k = None"
  shows "js_valid c (JObj kw) x \<longleftrightarrow> conforms_object c fs x"
proof (cases x)
  case (JObj kvs)
  have "js_valid c (JObj kw) x \<longleftrightarrow>
      (\<forall>(k, f) \<in> set fs. fd_required f \<longrightarrow> bt_get kvs k \<noteq> None) \<and>
      (\<forall>(k, f) \<in> set fs. case bt_get kvs k of None \<Rightarrow> True
         | Some y \<Rightarrow> js_valid c (JObj (field_to_json_schema f)) y)"
    using js_type_str [of FObject x] js_required [of x fs]
    by (subst js_valid.simps)
      (simp add: JObj get js_scalar_def json_number_def has_type_def project_fields_mem [OF wf])
  also have "\<dots> \<longleftrightarrow> (\<forall>(k, f) \<in> set fs. case bt_get kvs k of None \<Rightarrow> \<not> fd_required f
         | Some y \<Rightarrow> conforms c f y)"
    using IH by (fastforce split: option.splits)
  finally show ?thesis by (simp add: conforms_object_def JObj)
qed (use js_type_str [of FObject x] get(1) in
      \<open>auto simp: conforms_object_def js_valid.simps [of c "JObj kw"] js_scalar_def has_type_def\<close>)

lemma js_scalar_field:
  "js_scalar c (field_to_json_schema f) v \<longleftrightarrow>
     has_type (fd_type f) v \<and>
     (\<forall>vs. fd_enum_values f = Some vs \<longrightarrow> (\<exists>s \<in> set vs. v = JStr s)) \<and>
     (\<forall>q. json_number v = Some q \<longrightarrow> in_bounds (fd_minimum f) (fd_maximum f) q) \<and>
     (\<forall>s. v = JStr s \<longrightarrow>
        (\<forall>k. fd_format f = Some k \<longrightarrow> fmt c k s) \<and>
        in_bounds (fd_min_length f) (fd_max_length f) (char_count s) \<and>
        (\<forall>p. fd_pattern f = Some p \<longrightarrow> pat c p s)) \<and>
     (\<forall>xs. v = JArr xs \<longrightarrow>
        in_bounds (fd_min_items f) (fd_max_items f) (length xs) \<and>
        (fd_unique_items f \<longrightarrow> uniq c xs)) \<and>
     (\<forall>kvs ps. v = JObj kvs \<longrightarrow> fd_type f = FObject \<longrightarrow> fd_properties f = Some ps \<longrightarrow>
        (\<forall>(k, g) \<in> set ps. fd_required g \<longrightarrow> bt_get kvs k \<noteq> None))"
proof -
  have req: "(\<forall>kvs ns. v = JObj kvs \<longrightarrow> bt_get (field_to_json_schema f) ''required'' = Some (JArr ns) \<longrightarrow>
        (\<forall>n. JStr n \<in> set ns \<longrightarrow> bt_get kvs n \<noteq> None)) \<longleftrightarrow>
     (\<forall>kvs ps. v = JObj kvs \<longrightarrow> fd_type f = FObject \<longrightarrow> fd_properties f = Some ps \<longrightarrow>
        (\<forall>(k, g) \<in> set ps. fd_required g \<longrightarrow> bt_get kvs k \<noteq> None))"
  proof (cases "fd_type f = FObject \<and> fd_properties f \<noteq> None")
    case True
    then obtain ps where "fd_type f = FObject" "fd_properties f = Some ps" by auto
    then show ?thesis using js_required [of v ps] by (simp only: field_schema_get) simp
  qed (auto simp: field_schema_get)
  have enum: "(\<forall>ws. bt_get (field_to_json_schema f) ''enum'' = Some (JArr ws) \<longrightarrow> v \<in> set ws) \<longleftrightarrow>
     (\<forall>vs. fd_enum_values f = Some vs \<longrightarrow> (\<exists>s \<in> set vs. v = JStr s))"
    by (auto simp: field_schema_get scalar_keywords_get)
  show ?thesis
    unfolding js_scalar_def req enum
    by (simp add: field_schema_get scalar_keywords_get js_type_str js_bounds js_bounds_conj)
qed

lemma js_valid_items:
  assumes "\<And>ps k g y. object_children f = Some ps \<Longrightarrow> (k, g) \<in> set ps \<Longrightarrow>
      js_valid c (JObj (field_to_json_schema g)) y \<longleftrightarrow> conforms c g y"
    and "field_wf f" and arr: "fd_type f = FArray" and it: "fd_items f = Some it"
  shows "js_valid c (JObj (if ai_type it = AObject
         then bt_insert ''type'' (JStr ''object'') (properties_to_json_schema (items_fields it))
         else [(''type'', JStr ''string'')])) x \<longleftrightarrow>
     (if ai_type it = AObject then conforms_object c (items_fields it) x else has_type FString x)"
proof (cases "ai_type it = AObject")
  case True
  then have ch: "object_children f = Some (items_fields it)"
    using arr it by (auto simp: object_children_iff)
  then have wf: "bt_wf (items_fields it)"
    using assms(2) by (simp add: field_wf.simps [of f])
  have "js_valid c (JObj (bt_insert ''type'' (JStr ''object'')
          (properties_to_json_schema (items_fields it)))) x \<longleftrightarrow> conforms_object c (items_fields it) x"
    by (rule js_valid_object [OF wf assms(1) [OF ch]])
      (auto simp: bt_get_insert properties_to_json_schema.simps object_schema_get project_fields_def)
  then show ?thesis using True by simp
qed (simp add: js_valid_string)

text \<open>The keywords of an object field's own schema say of its value what its children say.\<close>

lemma object_field_conforms:
  assumes ch: "object_children f = Some ps" and obj: "fd_type f = FObject"
    and props: "fd_properties f = Some ps"
  shows "(\<forall>x \<in> set (nested_values f v). conforms_object c ps x) \<longleftrightarrow>
     (\<exists>kvs. v = JObj kvs \<and> (\<forall>(k, g) \<in> set ps. fd_required g \<longrightarrow> bt_get kvs k \<noteq> None) \<and>
        (\<forall>(k, g) \<in> set ps. case bt_get kvs k of None \<Rightarrow> True | Some y \<Rightarrow> conforms c g y))"
  using obj by (cases v) (fastforce simp: nested_values_def conforms_object_def split: option.splits)+

lemma js_valid_field:
  assumes "field_ok pattern_ok n f" and "field_wf f"
  shows "js_valid c (JObj (field_to_json_schema f)) v \<longleftrightarrow> conforms c f v"
  using assms
proof (induction "size f" arbitrary: f v n rule: less_induct)
  case less
  have IH: "js_valid c (JObj (field_to_json_schema g)) y \<longleftrightarrow> conforms c g y"
    if "object_children f = Some ps" "(k, g) \<in> set ps" for ps k g y
  proof (rule less.hyps [OF object_children_size [OF that]])
    show "field_ok pattern_ok (n - 1) g"
      using field_ok_children [OF less.prems(1) that(1)] that(2) by auto
    show "field_wf g"
      using less.prems(2) that by (auto simp: field_wf.simps [of f])
  qed
  note items = js_valid_items [OF IH less.prems(2)]
  have wf: "bt_wf ps" if "fd_type f = FObject" "fd_properties f = Some ps" for ps
    using less.prems(2) that by (simp add: field_wf.simps [of f] object_children_def)
  have unfold: "js_valid c (JObj (field_to_json_schema f)) v \<longleftrightarrow>
      js_scalar c (field_to_json_schema f) v \<and>
      (\<forall>it xs. fd_type f = FArray \<longrightarrow> fd_items f = Some it \<longrightarrow> v = JArr xs \<longrightarrow> (\<forall>x \<in> set xs.
         if ai_type it = AObject then conforms_object c (items_fields it) x else has_type FString x)) \<and>
      (\<forall>ps kvs. fd_type f = FObject \<longrightarrow> fd_properties f = Some ps \<longrightarrow> v = JObj kvs \<longrightarrow>
         (\<forall>(k, g) \<in> set ps. case bt_get kvs k of None \<Rightarrow> True | Some y \<Rightarrow>
            js_valid c (JObj (field_to_json_schema g)) y))"
    by (subst js_valid.simps)
      (cases v; cases "fd_type f = FArray"; cases "fd_type f = FObject"; cases "fd_items f";
       cases "fd_properties f"; simp add: field_schema_get items wf project_fields_mem)
  show ?case
  proof (cases "object_children f")
    case None
    then have no: "fd_type f \<noteq> FObject" "\<And>it. fd_type f = FArray \<Longrightarrow> fd_items f = Some it \<Longrightarrow> ai_type it = AString"
      by (auto simp: object_children_def split: option.splits array_item_type.splits)
    then show ?thesis
      unfolding unfold js_scalar_field
      by (auto simp: conforms_unfold None scalar_conforms_def)
  next
    case (Some ps)
    then consider (obj) "fd_type f = FObject" "fd_properties f = Some ps"
      | (arr) it where "fd_type f = FArray" "fd_items f = Some it" "ai_type it = AObject" "ps = items_fields it"
      using field_ok_children [OF less.prems(1) Some]
      by (cases "fd_properties f") (auto simp: object_children_iff)
    then show ?thesis
    proof cases
      case obj
      have "(\<forall>(k, g) \<in> set ps. case bt_get kvs k of None \<Rightarrow> True | Some y \<Rightarrow>
            js_valid c (JObj (field_to_json_schema g)) y) \<longleftrightarrow>
         (\<forall>(k, g) \<in> set ps. case bt_get kvs k of None \<Rightarrow> True | Some y \<Rightarrow> conforms c g y)" for kvs
        using IH [OF Some] by (fastforce split: option.splits)
      then show ?thesis
        unfolding unfold js_scalar_field conforms_unfold [of c f]
        using object_field_conforms [OF Some obj, of v c]
        by (cases v) (simp_all add: obj Some scalar_conforms_def has_type_def json_number_def)
    next
      case arr
      then show ?thesis
        unfolding unfold js_scalar_field conforms_unfold [of c f]
        by (auto simp: Some scalar_conforms_def nested_values_def has_type_def split: json.splits)
    qed
  qed
qed

lemma js_valid_entity:
  assumes "bt_wf (et_fields et)"
    and "\<And>k f. (k, f) \<in> set (et_fields et) \<Longrightarrow> field_ok pattern_ok n f \<and> field_wf f"
  shows "js_valid c (entity_type_to_json_schema et) v \<longleftrightarrow> conforms_object c (et_fields et) v"
  unfolding entity_type_to_json_schema_def
proof (rule js_valid_object [OF assms(1)])
  show "js_valid c (JObj (field_to_json_schema f)) y \<longleftrightarrow> conforms c f y"
    if "(k, f) \<in> set (et_fields et)" for k f y
    using assms(2) [OF that] js_valid_field by blast
qed (auto simp: properties_to_json_schema.simps object_schema_get project_fields_def)

text \<open>
  What \<open>validate_data\<close> relies on: the validator compiles every projected schema and reports a
  violation exactly when the data is invalid.
\<close>

definition validator_for :: "schema_checks \<Rightarrow> schema_validator \<Rightarrow> bool" where
  "validator_for c errors_of \<longleftrightarrow>
     (\<forall>schema v. \<exists>errs. errors_of schema v = Some errs \<and> (errs = [] \<longleftrightarrow> js_valid c schema v))"

lemma validate_data_iff:
  "validator_for c errors_of \<Longrightarrow>
     validate_data errors_of et v = Inr () \<longleftrightarrow> js_valid c (entity_type_to_json_schema et) v"
proof -
  assume "validator_for c errors_of"
  then obtain errs where "errors_of (entity_type_to_json_schema et) v = Some errs"
    "errs = [] \<longleftrightarrow> js_valid c (entity_type_to_json_schema et) v"
    unfolding validator_for_def by blast
  then show ?thesis by (simp add: validate_data_def)
qed

section \<open>Properties\<close>

lemma accepted_fields_ok:
  assumes "wf_definition pattern_ok d" and "definition_wf d"
    and "bt_get (md_entity_types d) t = Some et"
  shows "bt_wf (et_fields et)"
    and "(k, f) \<in> set (et_fields et) \<Longrightarrow> field_ok pattern_ok (MAX_OBJECT_DEPTH - 1) f \<and> field_wf f"
  using assms bt_get_mem [OF assms(3)]
  by (auto simp: wf_definition_def definition_wf_def)

definition any_checks :: schema_checks where
  "any_checks = \<lparr>fmt = \<lambda>_ _. True, pat = \<lambda>_ _. True, uniq = distinct\<rparr>"

definition reference_validator :: "schema_checks \<Rightarrow> schema_validator" where
  "reference_validator c schema v =
     Some (if js_valid c schema v then []
           else [\<lparr>sv_instance_path = [], sv_required = None, sv_message = ''invalid''\<rparr>])"

lemma reference_validator_ok: "validator_for c (reference_validator c)"
  by (simp add: validator_for_def reference_validator_def)

lemma sample_definition_maps: "definition_wf sample_definition"
  by (simp add: definition_wf_def sample_definition_def sample_fields_def sample_author_def
      field_wf.simps object_children_def bt_wf_def)


definition sample_book :: entity_type_def where
  "sample_book = \<lparr>et_description = None, et_fields = bt_insert ''author'' sample_author sample_fields\<rparr>"


text \<open>
  Property C1. When \<open>diff\<close> reports no breaking change between two accepted definitions, every
  entity type is still there and data valid for the old definition stays valid for the new one,
  provided the data holds only declared keys and no field gained an enumeration.
\<close>

theorem diff_keeps_data_valid:
  assumes "wf_definition pattern_ok old" and "wf_definition pattern_ok' new"
    and "definition_wf old" and "definition_wf new"
    and nb: "\<not> is_breaking (diff old new)"
    and t: "bt_get (md_entity_types old) t = Some et"
  shows "\<exists>et'. bt_get (md_entity_types new) t = Some et' \<and>
     (\<forall>v. enum_kept_object (et_fields et) (et_fields et') \<longrightarrow> declared_object (et_fields et) v \<longrightarrow>
        js_valid c (entity_type_to_json_schema et) v \<longrightarrow>
        js_valid c (entity_type_to_json_schema et') v)"
proof -
  have d: "diff_entity_type (md_entity_types new) (t, et) = []"
    using nb bt_get_mem [OF t] by (auto simp: diff_not_breaking)
  then obtain et' where t': "bt_get (md_entity_types new) t = Some et'"
    and fs: "diff_fields t (et_fields et) (et_fields et') = []"
    by (auto simp: diff_entity_type_def split: option.splits)
  note o = accepted_fields_ok [OF assms(1,3) t] and n = accepted_fields_ok [OF assms(2,4) t']
  have "conforms_object c (et_fields et') v"
    if v: "enum_kept_object (et_fields et) (et_fields et')" "conforms_object c (et_fields et) v"
      "declared_object (et_fields et) v" for v
  proof (rule conforms_object_compatible [OF fs o(1) v])
    show "conforms c g y"
      if "(k, f) \<in> set (et_fields et)" "bt_get (et_fields et') k = Some g"
        "diff_field path k f (Some g) = []" "enum_kept f g" "conforms c f y" "declared f y" for k f g y path
      using conforms_compatible [OF that(3,4)] that(5,6) o(2) [OF that(1)] n(2) [OF bt_get_mem [OF that(2)]]
      by blast
  qed (rule n(1))
  moreover have "js_valid c (entity_type_to_json_schema et) v \<longleftrightarrow> conforms_object c (et_fields et) v"
    "js_valid c (entity_type_to_json_schema et') v \<longleftrightarrow> conforms_object c (et_fields et') v" for v
    using js_valid_entity [OF o(1)] js_valid_entity [OF n(1)] o(2) n(2) by blast+
  ultimately show ?thesis
    using t' by simp
qed

theorem diff_keeps_data_valid_witness:
  "js_valid any_checks (entity_type_to_json_schema sample_book) (JObj [(''title'', JStr ''Emma'')])"
proof -
  have same: "\<not> is_breaking (diff sample_definition sample_definition)"
    by (simp add: diff_not_breaking sample_definition_def sample_fields_def sample_author_def
        diff_entity_type_def diff_relation_def diff_fields.simps diff_field.simps diff_added_def
        diff_enum_def diff_constraints_def raised_floor_def lowered_ceiling_def)
  have t: "bt_get (md_entity_types sample_definition) ''book'' = Some sample_book"
    by (simp add: sample_definition_def sample_book_def)
  have ok: "\<And>k f. (k, f) \<in> set (et_fields sample_book) \<Longrightarrow>
      field_ok (\<lambda>_. True) (MAX_OBJECT_DEPTH - 1) f \<and> field_wf f" "bt_wf (et_fields sample_book)"
    using accepted_fields_ok [OF sample_definition_wf sample_definition_maps t] by auto
  have pre: "enum_kept_object (et_fields sample_book) (et_fields sample_book)"
    "declared_object (et_fields sample_book) (JObj [(''title'', JStr ''Emma'')])"
    "js_valid any_checks (entity_type_to_json_schema sample_book) (JObj [(''title'', JStr ''Emma'')])"
    by (simp_all add: js_valid_entity [OF ok(2) ok(1)] del: One_nat_def)
      (simp_all add: sample_book_def sample_fields_def sample_author_def enum_kept_object_def
        enum_kept.simps declared_object_def declared.simps conforms_object_def conforms.simps
        object_children_def scalar_conforms_def has_type_def json_number_def in_bounds_def
        char_count_def nested_values_def)
  show ?thesis
    using diff_keeps_data_valid [OF sample_definition_wf sample_definition_wf sample_definition_maps
        sample_definition_maps same t, of any_checks] t pre by auto
qed

text \<open>
  The condition on enumerations cannot be dropped: giving a string field an \<open>enum\<close> it
  did not have is not reported as breaking, although it invalidates stored data, which every other
  newly added constraint is reported for.
\<close>

definition with_enum :: "string list option \<Rightarrow> metaschema_definition" where
  "with_enum vs = \<lparr>md_name = ''s'', md_description = None,
     md_entity_types = [(''e'', \<lparr>et_description = None, et_fields =
       [(''status'', FieldDef FString False None vs None None None None None None None None
          False None None None False None [])]\<rparr>)],
     md_relation_types = []\<rparr>"

theorem added_enum_not_breaking:
  "\<not> is_breaking (diff (with_enum None) (with_enum (Some [''open'']))) \<and>
   (\<exists>et et' v. bt_get (md_entity_types (with_enum None)) ''e'' = Some et \<and>
      bt_get (md_entity_types (with_enum (Some [''open'']))) ''e'' = Some et' \<and>
      js_valid c (entity_type_to_json_schema et) v \<and>
      \<not> js_valid c (entity_type_to_json_schema et') v)"
proof -
  have "\<not> is_breaking (diff (with_enum None) (with_enum (Some [''open''])))"
    by (simp add: diff_not_breaking with_enum_def diff_entity_type_def diff_fields.simps
        diff_field.simps diff_added_def diff_enum_def diff_constraints_def raised_floor_def
        lowered_ceiling_def)
  moreover have "js_valid c (entity_type_to_json_schema (snd (hd (md_entity_types (with_enum vs)))))
      (JObj [(''status'', JStr ''done'')]) \<longleftrightarrow> (\<forall>ws. vs = Some ws \<longrightarrow> ''done'' \<in> set ws)" for vs
    by (subst js_valid_entity [where pattern_ok = "\<lambda>_. True" and n = 0])
      (auto simp: with_enum_def conforms_object_def conforms.simps object_children_def
        scalar_conforms_def has_type_def json_number_def in_bounds_def field_ok.simps
        constraints_ok_def field_wf.simps bt_wf_def)
  ultimately show ?thesis
    by (intro conjI exI [of _ "snd (hd (md_entity_types (with_enum None)))"]
        exI [of _ "snd (hd (md_entity_types (with_enum (Some [''open'']))))"]
        exI [of _ "JObj [(''status'', JStr ''done'')]"]) (simp_all add: with_enum_def)
qed

end
