(* ===== verification/Yor_Tables.thy ===== *)
theory Yor_Tables
  imports Metaschema_Projection
begin

text \<open>
  The rows of the tables the store components share (the structs \<open>Model\<close> under
  \<open>src/models/_entities\<close>), and the database record that holds them.

  An enumeration column is its Rust enumeration rather than the string it is stored as: the
  database's CHECK constraints admit no other string.  A JSON column that holds a definition is the
  parsed definition.  The columns that only the embedding services read (revision counters,
  vectors) are left out.  Every operation runs in one transaction: an error returns no database, so
  nothing is written.  The advisory locks the sources take serialise the transactions that use the
  same key; the model runs transactions one after the other.
\<close>

datatype backend = Postgres | Sqlite

datatype schema_status = SchemaActive | SchemaArchived

datatype schema_origin_status = Linked | Detached

record schema_row =
  sc_id :: uuid
  sc_tenant_id :: uuid
  sc_workspace_id :: uuid
  sc_name :: string
  sc_version :: int
  sc_definition :: metaschema_definition
  sc_status :: schema_status
  sc_origin_template_id :: "uuid option"
  sc_origin_status :: schema_origin_status
  sc_origin_snapshot :: "metaschema_definition option"
  sc_origin_updated_at :: "instant option"
  sc_created_at :: instant
  sc_updated_at :: "instant option"

datatype workspace_status = SchemaPending | WorkspaceActive

record workspace_row =
  wk_id :: uuid
  wk_tenant_id :: uuid
  wk_name :: string
  wk_max_entities :: "int option"
  wk_status :: workspace_status
  wk_schema_id :: "uuid option"
  wk_created_at :: instant

record entity_row =
  en_id :: uuid
  en_embedding_sync_token :: string
  en_workspace_id :: uuid
  en_schema_id :: uuid
  en_schema_version :: int
  en_entity_type :: string
  en_data :: json
  en_created_by :: "uuid option"
  en_updated_by :: "uuid option"
  en_created_at :: instant
  en_updated_at :: instant

datatype relation_status = RelActive | RelDeprecated | RelArchived

record relation_row =
  re_id :: uuid
  re_workspace_id :: uuid
  re_source_id :: uuid
  re_target_id :: uuid
  re_relation_type :: string
  re_properties :: json
  re_status :: relation_status
  re_created_at :: instant

record snapshot_row =
  sn_id :: uuid
  sn_job_id :: uuid
  sn_workspace_id :: uuid
  sn_entity_id :: uuid
  sn_schema_id :: uuid
  sn_schema_version :: int
  sn_data :: json
  sn_created_at :: instant

datatype proposal_status = Pending | Confirmed | Rejected | Discarded | Stale | Invalid

record proposal_row =
  pr_id :: uuid
  pr_job_id :: uuid
  pr_workspace_id :: uuid
  pr_entity_id :: uuid
  pr_schema_id :: uuid
  pr_schema_version :: int
  pr_source_field :: string
  pr_proposed :: json
  pr_status :: proposal_status
  pr_created_at :: instant
  pr_updated_at :: instant

record fork_row =
  fk_id :: uuid
  fk_tenant_id :: uuid
  fk_workspace_id :: uuid
  fk_source_workspace_id :: uuid
  fk_source_schema_id :: uuid
  fk_source_schema_version :: int
  fk_source_schema_name :: string
  fk_fork_schema_id :: uuid
  fk_customized :: bool
  fk_created_at :: instant
  fk_updated_at :: instant

record fork_head_row =
  fh_id :: uuid
  fh_tenant_id :: uuid
  fh_workspace_id :: uuid
  fh_fork_id :: uuid
  fh_schema_id :: uuid
  fh_created_at :: instant

record db =
  db_workspaces :: "workspace_row list"
  db_schemas :: "schema_row list"
  db_entities :: "entity_row list"
  db_relations :: "relation_row list"
  db_snapshots :: "snapshot_row list"
  db_proposals :: "proposal_row list"
  db_forks :: "fork_row list"
  db_fork_heads :: "fork_head_row list"

definition empty_db :: db where
  "empty_db = \<lparr>db_workspaces = [], db_schemas = [], db_entities = [], db_relations = [],
     db_snapshots = [], db_proposals = [], db_forks = [], db_fork_heads = []\<rparr>"

text \<open>Addition on \<open>i32\<close>, which wraps in a release build.\<close>

definition wrap32 :: "int \<Rightarrow> int" where
  "wrap32 x = (x + 2147483648) mod 4294967296 - 2147483648"

lemma wrap32_id: "- 2147483648 \<le> x \<Longrightarrow> x < 2147483648 \<Longrightarrow> wrap32 x = x"
  by (simp add: wrap32_def)

lemma wrap32_range: "- 2147483648 \<le> wrap32 x \<and> wrap32 x < 2147483648"
  using pos_mod_sign [of 4294967296 "x + 2147483648"] pos_mod_bound [of 4294967296 "x + 2147483648"]
  by (simp add: wrap32_def)

section \<open>Integrity of the tables\<close>

text \<open>The unique keys of the tables, and the references that deleting a schema must not break.\<close>

definition schema_key :: "schema_row \<Rightarrow> uuid \<times> string \<times> int" where
  "schema_key s = (sc_workspace_id s, sc_name s, sc_version s)"

definition relation_key :: "relation_row \<Rightarrow> uuid \<times> uuid \<times> uuid \<times> string" where
  "relation_key r = (re_workspace_id r, re_source_id r, re_target_id r, re_relation_type r)"

definition keys_ok :: "db \<Rightarrow> bool" where
  "keys_ok d \<longleftrightarrow>
     distinct (map wk_id (db_workspaces d)) \<and>
     distinct (map sc_id (db_schemas d)) \<and> distinct (map schema_key (db_schemas d)) \<and>
     distinct (map en_id (db_entities d)) \<and>
     distinct (map re_id (db_relations d)) \<and> distinct (map relation_key (db_relations d)) \<and>
     distinct (map sn_id (db_snapshots d))"

definition owned_schema :: "db \<Rightarrow> uuid \<Rightarrow> uuid \<Rightarrow> bool" where
  "owned_schema d workspace_id schema_id \<longleftrightarrow>
     (\<exists>s \<in> set (db_schemas d). sc_id s = schema_id \<and> sc_workspace_id s = workspace_id)"

definition refs_ok :: "db \<Rightarrow> bool" where
  "refs_ok d \<longleftrightarrow>
     (\<forall>e \<in> set (db_entities d). owned_schema d (en_workspace_id e) (en_schema_id e)) \<and>
     (\<forall>n \<in> set (db_snapshots d). owned_schema d (sn_workspace_id n) (sn_schema_id n)) \<and>
     (\<forall>w \<in> set (db_workspaces d). \<forall>i. wk_schema_id w = Some i \<longrightarrow> owned_schema d (wk_id w) i)"

lemma owned_schema_mono:
  "owned_schema d w i \<Longrightarrow>
   (\<And>s. s \<in> set (db_schemas d) \<Longrightarrow> \<exists>s' \<in> set (db_schemas d'). sc_id s' = sc_id s \<and> sc_workspace_id s' = sc_workspace_id s) \<Longrightarrow>
   owned_schema d' w i"
  by (fastforce simp: owned_schema_def)

end
