(* ===== verification/Pagination.thy ===== *)
theory Pagination
  imports Yor_Error
begin

text \<open>
  \<open>src/models/pagination.rs\<close>: the page of a listing.  \<open>limit\<close> and \<open>offset\<close> are \<open>i64\<close> values and
  \<open>page\<close> and \<open>page_size\<close> are \<open>u64\<close> values; the ranges are stated where an operation depends on them.
\<close>

definition i64_max :: int where
  "i64_max = 9223372036854775807"

definition DEFAULT_LIST_LIMIT :: int where
  "DEFAULT_LIST_LIMIT = 50"

definition MAX_LIST_LIMIT :: int where
  "MAX_LIST_LIMIT = 200"

record list_params =
  lp_limit :: int
  lp_offset :: int

definition list_params_new :: "int option \<Rightarrow> int option \<Rightarrow> list_params" where
  "list_params_new limit offset =
     \<lparr>lp_limit = (case limit of None \<Rightarrow> DEFAULT_LIST_LIMIT | Some l \<Rightarrow> l),
      lp_offset = (case offset of None \<Rightarrow> 0 | Some n \<Rightarrow> n)\<rparr>"

definition list_params_default :: list_params where
  "list_params_default = \<lparr>lp_limit = DEFAULT_LIST_LIMIT, lp_offset = 0\<rparr>"

definition params_limit :: "list_params \<Rightarrow> int" where
  "params_limit p = max 1 (min (lp_limit p) MAX_LIST_LIMIT)"

definition params_offset :: "list_params \<Rightarrow> int" where
  "params_offset p = max (lp_offset p) 0"

text \<open>\<open>i64::try_from\<close> of a \<open>u64\<close>, and \<open>i64::checked_mul\<close>.\<close>

definition i64_try_from :: "nat \<Rightarrow> int option" where
  "i64_try_from n = (if int n \<le> i64_max then Some (int n) else None)"

definition checked_mul :: "int \<Rightarrow> int \<Rightarrow> int option" where
  "checked_mul a b = (if - i64_max - 1 \<le> a * b \<and> a * b \<le> i64_max then Some (a * b) else None)"

definition from_pagination_query :: "nat \<Rightarrow> nat \<Rightarrow> list_params result" where
  "from_pagination_query page page_size =
     (let page_size = int (max 1 (min page_size (nat MAX_LIST_LIMIT))) in
      rbind (ok_or (Option.bind (i64_try_from (max page 1 - 1)) (\<lambda>page. checked_mul page page_size))
               (ValidationFailed ''pagination offset is too large'' []))
        (\<lambda>offset. Inr \<lparr>lp_limit = page_size, lp_offset = offset\<rparr>))"

text \<open>\<open>.limit(..).offset(..)\<close> of a query.\<close>

definition page_of :: "list_params \<Rightarrow> 'a list \<Rightarrow> 'a list" where
  "page_of p rows = take (nat (params_limit p)) (drop (nat (params_offset p)) rows)"

lemma params_limit_range: "1 \<le> params_limit p \<and> params_limit p \<le> MAX_LIST_LIMIT"
  by (auto simp: params_limit_def MAX_LIST_LIMIT_def)

lemma page_of_length: "length (page_of p rows) \<le> 200"
proof -
  have "nat (params_limit p) \<le> 200"
    using params_limit_range [of p] by (simp add: MAX_LIST_LIMIT_def nat_le_iff)
  then show ?thesis by (simp add: page_of_def min_le_iff_disj)
qed

lemma page_of_subset: "set (page_of p rows) \<subseteq> set rows"
  by (auto simp: page_of_def dest: in_set_takeD in_set_dropD)

text \<open>The page size a query asks for, brought into range.\<close>

definition clamped_size :: "nat \<Rightarrow> int" where
  "clamped_size n = int (max 1 (min n 200))"

text \<open>
  \<open>from_pagination_query\<close> turns a 1-based page into an offset without overflow: it fails
  exactly when the offset of the page does not fit an \<open>i64\<close>, and otherwise the parameters it returns
  pass through the clamps of \<open>limit()\<close> and \<open>offset()\<close> unchanged, so consecutive pages of a listing
  are disjoint and adjacent.
\<close>

theorem pagination_query_exact:
  "(case from_pagination_query page page_size of
      Inl e \<Rightarrow> i64_max < (int (max page 1) - 1) * clamped_size page_size
    | Inr p \<Rightarrow> (int (max page 1) - 1) * clamped_size page_size \<le> i64_max \<and>
        params_limit p = clamped_size page_size \<and>
        params_offset p = (int (max page 1) - 1) * clamped_size page_size)"
proof -
  let ?k = "int (max page 1) - 1"
  have size: "1 \<le> clamped_size page_size" "clamped_size page_size \<le> 200" by (auto simp: clamped_size_def)
  have k: "0 \<le> ?k" "int (max page 1 - 1) = ?k" by auto
  have le: "?k \<le> ?k * clamped_size page_size" and nonneg: "0 \<le> ?k * clamped_size page_size"
    using mult_left_mono [OF size(1) k(1)] mult_nonneg_nonneg [OF k(1)] size by auto
  have low: "- i64_max - 1 \<le> ?k * clamped_size page_size" using nonneg by (simp add: i64_max_def)
  have sz: "int (max 1 (min page_size (nat MAX_LIST_LIMIT))) = clamped_size page_size"
    by (simp add: clamped_size_def MAX_LIST_LIMIT_def)
  show ?thesis
  proof (cases "?k * clamped_size page_size \<le> i64_max")
    case True
    then have "from_pagination_query page page_size =
        Inr \<lparr>lp_limit = clamped_size page_size, lp_offset = ?k * clamped_size page_size\<rparr>"
      unfolding from_pagination_query_def Let_def sz i64_try_from_def k(2) checked_mul_def
      using le low by simp
    then show ?thesis
      using True size nonneg by (simp add: params_limit_def params_offset_def MAX_LIST_LIMIT_def)
  next
    case False
    then have "from_pagination_query page page_size =
        Inl (ValidationFailed ''pagination offset is too large'' [])"
      unfolding from_pagination_query_def Let_def sz i64_try_from_def k(2) checked_mul_def
      by (simp add: Option.bind_def)
    then show ?thesis using False by simp
  qed
qed

end
