(* ===== verification/Schema_Store.thy ===== *)
theory Schema_Store
  imports Yor_Tables Pagination
begin

text \<open>
  \<open>src/models/schema_schemas.rs\<close>, with the two workspace operations it shares with
  \<open>src/models/workspace_workspaces.rs\<close> and the deletion of a workspace
  (\<open>workspace_workspaces/tenancy.rs\<close>): versions of a workspace's schemas, their activation,
  archival and deletion.

  The lemmas show that each operation keeps the unique keys, that a name has at most one active
  version and that it is the newest, and that deletion leaves no dangling reference.
\<close>

section \<open>Workspaces\<close>

definition get_workspace :: "db \<Rightarrow> uuid \<Rightarrow> workspace_row result" where
  "get_workspace d workspace_id =
     ok_or (find_row (\<lambda>w. wk_id w = workspace_id) (db_workspaces d))
       (NotFound ''workspace {} was not found'')"

definition get_workspace_tenant :: "db \<Rightarrow> uuid \<Rightarrow> uuid result" where
  "get_workspace_tenant d workspace_id =
     ok_or (map_option wk_tenant_id (find_row (\<lambda>w. wk_id w = workspace_id) (db_workspaces d)))
       (NotFound ''workspace not found'')"

definition is_schema_pending :: "db \<Rightarrow> uuid \<Rightarrow> bool" where
  "is_schema_pending d workspace_id =
     (case map_option wk_status (find_row (\<lambda>w. wk_id w = workspace_id) (db_workspaces d)) of
        None \<Rightarrow> False
      | Some s \<Rightarrow> s = SchemaPending)"

definition activate :: "uuid \<Rightarrow> workspace_row \<Rightarrow> workspace_row" where
  "activate schema_id w =
     w\<lparr>wk_status := WorkspaceActive,
       wk_schema_id := (case wk_schema_id w of None \<Rightarrow> Some schema_id | Some i \<Rightarrow> Some i)\<rparr>"

definition mark_active :: "db \<Rightarrow> uuid \<Rightarrow> uuid \<Rightarrow> db" where
  "mark_active d workspace_id schema_id =
     d\<lparr>db_workspaces := update_where (\<lambda>w. wk_id w = workspace_id) (activate schema_id)
                         (db_workspaces d)\<rparr>"

text \<open>
  Deleting a workspace cascades to the rows it owns.  Whether a foreign key of a fork restricts the
  deletion is the database's answer \<open>restricts\<close>, which the source maps to a conflict.
\<close>

definition delete_workspace :: "(db \<Rightarrow> uuid \<Rightarrow> bool) \<Rightarrow> db \<Rightarrow> uuid \<Rightarrow> db result" where
  "delete_workspace restricts d workspace_id =
     rbind (ok_or (find_row (\<lambda>w. wk_id w = workspace_id) (db_workspaces d))
              (NotFound ''workspace {} was not found''))
      (\<lambda>workspace.
        let remaining = count_where (\<lambda>w. wk_tenant_id w = wk_tenant_id workspace) (db_workspaces d);
            gone = map fk_id (select_where (\<lambda>f. fk_workspace_id f = workspace_id) (db_forks d))
        in if remaining \<le> 1
           then Inl (Conflict ''cannot delete the only remaining workspace of a tenant'')
           else if restricts d workspace_id
           then Inl (Conflict ''workspace is still referenced by schema forks; remove those forks before deleting it'')
           else Inr (d\<lparr>db_workspaces := delete_where (\<lambda>w. wk_id w = workspace_id) (db_workspaces d),
                       db_schemas := delete_where (\<lambda>s. sc_workspace_id s = workspace_id) (db_schemas d),
                       db_entities := delete_where (\<lambda>e. en_workspace_id e = workspace_id) (db_entities d),
                       db_relations := delete_where (\<lambda>r. re_workspace_id r = workspace_id) (db_relations d),
                       db_snapshots := delete_where (\<lambda>n. sn_workspace_id n = workspace_id) (db_snapshots d),
                       db_proposals := delete_where (\<lambda>p. pr_workspace_id p = workspace_id) (db_proposals d),
                       db_forks := delete_where (\<lambda>f. fk_workspace_id f = workspace_id) (db_forks d),
                       db_fork_heads := delete_where (\<lambda>h. fh_fork_id h \<in> set gone) (db_fork_heads d)\<rparr>))"

section \<open>Schemas\<close>

definition get_by_id :: "db \<Rightarrow> uuid \<Rightarrow> uuid \<Rightarrow> schema_row result" where
  "get_by_id d workspace_id schema_id =
     ok_or (find_row (\<lambda>s. sc_workspace_id s = workspace_id \<and> sc_id s = schema_id) (db_schemas d))
       (NotFound ''schema {} was not found'')"

definition active_versions :: "db \<Rightarrow> uuid \<Rightarrow> string \<Rightarrow> schema_row list" where
  "active_versions d workspace_id name =
     select_where (\<lambda>s. sc_workspace_id s = workspace_id \<and> sc_name s = name
                       \<and> sc_status s = SchemaActive) (db_schemas d)"

definition get_active_schema :: "db \<Rightarrow> uuid \<Rightarrow> string \<Rightarrow> schema_row result" where
  "get_active_schema d workspace_id name =
     ok_or (latest_by sc_version (active_versions d workspace_id name))
       (NotFound ''no active schema named {}'')"

definition count_active :: "db \<Rightarrow> uuid \<Rightarrow> nat" where
  "count_active d workspace_id =
     count_where (\<lambda>s. sc_workspace_id s = workspace_id \<and> sc_status s = SchemaActive) (db_schemas d)"

definition retire :: "instant \<Rightarrow> schema_row \<Rightarrow> schema_row" where
  "retire now s = s\<lparr>sc_status := SchemaArchived, sc_updated_at := Some now\<rparr>"

definition archive :: "instant \<Rightarrow> db \<Rightarrow> uuid \<Rightarrow> uuid \<Rightarrow> (schema_row \<times> db) result" where
  "archive now d workspace_id schema_id =
     rbind (get_by_id d workspace_id schema_id) (\<lambda>_.
      let d' = d\<lparr>db_schemas := update_where
            (\<lambda>s. sc_workspace_id s = workspace_id \<and> sc_id s = schema_id \<and> sc_status s = SchemaActive)
            (retire now) (db_schemas d)\<rparr>
      in rbind (get_by_id d' workspace_id schema_id) (\<lambda>s. Inr (s, d')))"

text \<open>
  The fork counts: on PostgreSQL a function that sees the whole tenant, on SQLite plain counts.
\<close>

definition fork_reference_counts :: "backend \<Rightarrow> db \<Rightarrow> schema_row \<Rightarrow> nat \<times> nat" where
  "fork_reference_counts b d s =
     (let in_tenant = (\<lambda>t. b = Sqlite \<or> t = sc_tenant_id s) in
      (count_where (\<lambda>f. in_tenant (fk_tenant_id f)
          \<and> (fk_source_schema_id f = sc_id s \<or> fk_fork_schema_id f = sc_id s)) (db_forks d),
       count_where (\<lambda>h. in_tenant (fh_tenant_id h) \<and> fh_schema_id h = sc_id s) (db_fork_heads d)))"

definition schema_blockers :: "backend \<Rightarrow> db \<Rightarrow> schema_row \<Rightarrow> string list" where
  "schema_blockers b d s =
     (let (forks, fork_heads) = fork_reference_counts b d s in
      (if count_where (\<lambda>e. en_schema_id e = sc_id s) (db_entities d) > 0 then [''entities''] else [])
      @ (if count_where (\<lambda>n. sn_schema_id n = sc_id s) (db_snapshots d) > 0
         then [''entity snapshots''] else [])
      @ (if count_where (\<lambda>p. pr_schema_id p = sc_id s) (db_proposals d) > 0
         then [''inference proposals''] else [])
      @ (if count_where (\<lambda>w. wk_schema_id w = Some (sc_id s)) (db_workspaces d) > 0
         then [''workspaces''] else [])
      @ (if forks > 0 then [''schema forks''] else [])
      @ (if fork_heads > 0 then [''schema fork heads''] else []))"

definition delete_schema :: "backend \<Rightarrow> db \<Rightarrow> uuid \<Rightarrow> uuid \<Rightarrow> db result" where
  "delete_schema b d workspace_id schema_id =
     rbind (get_by_id d workspace_id schema_id) (\<lambda>_.
     rbind (ok_or (find_row (\<lambda>s. sc_id s = schema_id \<and> sc_workspace_id s = workspace_id) (db_schemas d))
              (NotFound ''schema {} was not found'')) (\<lambda>schema.
     if sc_status schema \<noteq> SchemaArchived
     then Inl (Conflict ''schema {} version {} is still active; archive it before deleting'')
     else if schema_blockers b d schema \<noteq> []
     then Inl (Conflict ''schema {} version {} is still referenced by: {}'')
     else if count_where (\<lambda>s. sc_id s = schema_id) (db_schemas d) = 0
     then Inl (NotFound ''schema {} was not found'')
     else Inr (d\<lparr>db_schemas := delete_where (\<lambda>s. sc_id s = schema_id) (db_schemas d)\<rparr>)))"

definition list_schemas :: "db \<Rightarrow> uuid \<Rightarrow> list_params \<Rightarrow> schema_row list" where
  "list_schemas d workspace_id page =
     page_of page (sort_key sc_name (sort_key sc_version
       (select_where (\<lambda>s. sc_workspace_id s = workspace_id) (db_schemas d))))"

definition notify_upstream_change :: "db \<Rightarrow> uuid \<Rightarrow> nat \<times> db" where
  "notify_upstream_change d template_id =
     (let follows = (\<lambda>s. sc_origin_template_id s = Some template_id \<and> sc_origin_status s = Linked) in
      (count_where follows (db_schemas d),
       d\<lparr>db_schemas := update_where follows (\<lambda>s. s\<lparr>sc_origin_updated_at := None\<rparr>) (db_schemas d)\<rparr>))"

text \<open>
  \<open>create_schema\<close>: the origin a new version carries, its number, and the whole operation.  The id
  and the clock are arguments.  A duplicate key of the insert is the conflict the source reports; a
  missing workspace is the foreign-key error it reports as internal.
\<close>

definition inherited_origin ::
  "instant \<Rightarrow> schema_row option \<Rightarrow> uuid option \<Rightarrow> metaschema_definition option \<Rightarrow>
   uuid option \<times> metaschema_definition option \<times> instant option" where
  "inherited_origin now previous origin_template_id origin_snapshot =
     (case previous of
        Some p \<Rightarrow>
          if origin_template_id = None
          then (sc_origin_template_id p, sc_origin_snapshot p, sc_origin_updated_at p)
          else (origin_template_id, origin_snapshot, if origin_template_id \<noteq> None then Some now else None)
      | None \<Rightarrow> (origin_template_id, origin_snapshot,
                 if origin_template_id \<noteq> None then Some now else None))"

definition latest_version :: "db \<Rightarrow> uuid \<Rightarrow> string \<Rightarrow> int" where
  "latest_version d workspace_id name =
     (case latest_by sc_version
         (select_where (\<lambda>s. sc_workspace_id s = workspace_id \<and> sc_name s = name) (db_schemas d)) of
        None \<Rightarrow> 0
      | Some s \<Rightarrow> sc_version s)"

definition insert_schema :: "db \<Rightarrow> schema_row \<Rightarrow> db result" where
  "insert_schema d row =
     (if sc_id row \<in> sc_id ` set (db_schemas d) \<or> schema_key row \<in> schema_key ` set (db_schemas d)
      then Inl (Conflict ''schema {} version {} already exists (concurrent create?)'')
      else if sc_workspace_id row \<notin> wk_id ` set (db_workspaces d) then Inl (Internal ''foreign key'')
      else Inr (d\<lparr>db_schemas := db_schemas d @ [row]\<rparr>))"

definition create_schema ::
  "(string \<Rightarrow> bool) \<Rightarrow> uuid \<Rightarrow> instant \<Rightarrow> db \<Rightarrow> uuid \<Rightarrow> uuid \<Rightarrow> metaschema_definition \<Rightarrow>
   uuid option \<Rightarrow> metaschema_definition option \<Rightarrow> ((schema_row \<times> versioning_diff) \<times> db) result" where
  "create_schema pattern_ok new_id now d tenant_id workspace_id definition origin_template_id
      origin_snapshot =
     rbind (validate_definition pattern_ok definition) (\<lambda>_.
     let name = md_name definition;
         previous = latest_by sc_version (active_versions d workspace_id name);
         (template, snapshot, updated) = inherited_origin now previous origin_template_id origin_snapshot;
         next_version = wrap32 (latest_version d workspace_id name + 1);
         difference = (case previous of
             Some p \<Rightarrow> diff (sc_definition p) definition
           | None \<Rightarrow> \<lparr>is_breaking = False, reasons = []\<rparr>);
         d1 = (if previous \<noteq> None
               then d\<lparr>db_schemas := update_where
                   (\<lambda>s. sc_workspace_id s = workspace_id \<and> sc_name s = name \<and> sc_status s = SchemaActive)
                   (retire now) (db_schemas d)\<rparr>
               else d);
         row = \<lparr>sc_id = new_id, sc_tenant_id = tenant_id, sc_workspace_id = workspace_id,
                sc_name = name, sc_version = next_version, sc_definition = definition,
                sc_status = SchemaActive, sc_origin_template_id = template,
                sc_origin_status = (if template \<noteq> None then Linked else Detached),
                sc_origin_snapshot = snapshot, sc_origin_updated_at = updated,
                sc_created_at = now, sc_updated_at = Some now\<rparr>
     in rbind (insert_schema d1 row) (\<lambda>d2.
          Inr ((row, difference), mark_active d2 workspace_id new_id)))"

section \<open>Invariant\<close>

text \<open>An active version is newer than every other version of its name.\<close>

definition newest_active :: "schema_row list \<Rightarrow> bool" where
  "newest_active t \<longleftrightarrow>
     (\<forall>s \<in> set t. sc_status s = SchemaActive \<longrightarrow>
        (\<forall>s' \<in> set t. sc_workspace_id s' = sc_workspace_id s \<and> sc_name s' = sc_name s \<longrightarrow>
           s' = s \<or> sc_version s' < sc_version s))"

definition schema_inv :: "db \<Rightarrow> bool" where
  "schema_inv d \<longleftrightarrow>
     distinct (map wk_id (db_workspaces d)) \<and> distinct (map sc_id (db_schemas d)) \<and>
     distinct (map schema_key (db_schemas d)) \<and> newest_active (db_schemas d) \<and>
     (\<forall>s \<in> set (db_schemas d). 1 \<le> sc_version s) \<and> refs_ok d"

interpretation activate_id: key_preserving wk_id "activate schema_id" for schema_id
  by unfold_locales (simp add: activate_def)

lemma retire_sel [simp]:
  "sc_id (retire now s) = sc_id s" "sc_workspace_id (retire now s) = sc_workspace_id s"
  "sc_name (retire now s) = sc_name s" "sc_version (retire now s) = sc_version s"
  "sc_status (retire now s) = SchemaArchived" "sc_definition (retire now s) = sc_definition s"
  by (simp_all add: retire_def)

lemma newest_active_delete: "newest_active t \<Longrightarrow> newest_active (delete_where p t)"
  by (auto simp: newest_active_def table_simps)

lemma refs_ok_schemas:
  assumes "refs_ok d"
    and "\<And>s. s \<in> set (db_schemas d) \<Longrightarrow>
      \<exists>s' \<in> set t. sc_id s' = sc_id s \<and> sc_workspace_id s' = sc_workspace_id s"
  shows "refs_ok (d\<lparr>db_schemas := t\<rparr>)"
  using assms owned_schema_mono [of d _ _ "d\<lparr>db_schemas := t\<rparr>"]
  by (simp add: refs_ok_def)

text \<open>
  The interface of a statement that changes no row's identity or version and activates none: it
  keeps the invariant, whatever rows it selects.
\<close>

locale version_preserving =
  id: key_preserving sc_id change + version: key_preserving schema_key change
  for change :: "schema_row \<Rightarrow> schema_row" +
  assumes no_activation: "sc_status (change s) = SchemaActive \<Longrightarrow> sc_status s = SchemaActive"
begin

lemma change_sel:
  "sc_workspace_id (change s) = sc_workspace_id s" "sc_name (change s) = sc_name s"
  "sc_version (change s) = sc_version s"
  using version.key_change [of s] by (simp_all add: schema_key_def)

lemma newest_active_update: "newest_active t \<Longrightarrow> newest_active (update_where p change t)"
  unfolding newest_active_def
proof (intro ballI impI)
  fix u u'
  assume inv: "\<forall>s\<in>set t. sc_status s = SchemaActive \<longrightarrow>
      (\<forall>s'\<in>set t. sc_workspace_id s' = sc_workspace_id s \<and> sc_name s' = sc_name s \<longrightarrow>
         s' = s \<or> sc_version s' < sc_version s)"
    and "u \<in> set (update_where p change t)" "u' \<in> set (update_where p change t)"
    and active: "sc_status u = SchemaActive"
    and same: "sc_workspace_id u' = sc_workspace_id u \<and> sc_name u' = sc_name u"
  then obtain s s' where s: "s \<in> set t" "u = (if p s then change s else s)"
    and s': "s' \<in> set t" "u' = (if p s' then change s' else s')"
    by (auto simp: table_simps)
  have same_sel: "sc_version u = sc_version s" "sc_version u' = sc_version s'"
    "sc_workspace_id s' = sc_workspace_id s" "sc_name s' = sc_name s"
    using s s' same by (auto simp: change_sel split: if_splits)
  moreover have "sc_status s = SchemaActive"
    using s active no_activation by (auto split: if_splits)
  ultimately have "s' = s \<or> sc_version s' < sc_version s"
    using inv s s' by auto
  then show "u' = u \<or> sc_version u' < sc_version u"
    using s s' same_sel by auto
qed

lemma refs_ok_update:
  assumes "refs_ok d"
  shows "refs_ok (d\<lparr>db_schemas := update_where p change (db_schemas d)\<rparr>)"
  using assms
proof (rule refs_ok_schemas)
  fix s
  assume "s \<in> set (db_schemas d)"
  then show "\<exists>s' \<in> set (update_where p change (db_schemas d)).
      sc_id s' = sc_id s \<and> sc_workspace_id s' = sc_workspace_id s"
    by (intro bexI [of _ "if p s then change s else s"])
      (auto simp: table_simps id.key_change change_sel)
qed

lemma inv_update: "schema_inv d \<Longrightarrow> schema_inv (d\<lparr>db_schemas := update_where p change (db_schemas d)\<rparr>)"
  by (auto simp: schema_inv_def newest_active_update refs_ok_update id.keys_update_where
      version.keys_update_where table_simps change_sel)

end

interpretation retire: version_preserving "retire now" for now
  by unfold_locales (simp_all add: retire_def schema_key_def)

interpretation unacknowledge: version_preserving "\<lambda>s. s\<lparr>sc_origin_updated_at := None\<rparr>"
  by unfold_locales (simp_all add: schema_key_def)

section \<open>Every operation keeps the invariant\<close>

lemma get_by_id_Inr:
  "get_by_id d w i = Inr s \<Longrightarrow> s \<in> set (db_schemas d) \<and> sc_workspace_id s = w \<and> sc_id s = i"
  by (auto simp: get_by_id_def res_simps dest: find_row_Some)

lemma archive_inv: "schema_inv d \<Longrightarrow> archive now d w i = Inr (s, d') \<Longrightarrow> schema_inv d'"
  by (auto simp: archive_def Let_def res_simps retire.inv_update)

lemma notify_inv: "schema_inv d \<Longrightarrow> schema_inv (snd (notify_upstream_change d t))"
  by (simp add: notify_upstream_change_def Let_def unacknowledge.inv_update)

lemma schema_blockers_Nil:
  "schema_blockers b d s = [] \<Longrightarrow>
     (\<forall>e \<in> set (db_entities d). en_schema_id e \<noteq> sc_id s) \<and>
     (\<forall>n \<in> set (db_snapshots d). sn_schema_id n \<noteq> sc_id s) \<and>
     (\<forall>w \<in> set (db_workspaces d). wk_schema_id w \<noteq> Some (sc_id s))"
  by (auto simp: schema_blockers_def Let_def table_simps split: prod.splits if_splits)

lemma delete_schema_Inr:
  assumes "delete_schema b d w i = Inr d'"
  obtains s where "s \<in> set (db_schemas d)" "sc_id s = i" "sc_workspace_id s = w"
    "sc_status s = SchemaArchived" "schema_blockers b d s = []"
    "d' = d\<lparr>db_schemas := delete_where (\<lambda>s. sc_id s = i) (db_schemas d)\<rparr>"
  using assms
  by (auto simp: delete_schema_def res_simps dest!: find_row_Some split: if_splits)

lemma delete_schema_inv:
  assumes "schema_inv d" and "delete_schema b d w i = Inr d'"
  shows "schema_inv d'"
proof -
  obtain s where s: "sc_id s = i" "schema_blockers b d s = []"
    "d' = d\<lparr>db_schemas := delete_where (\<lambda>s. sc_id s = i) (db_schemas d)\<rparr>"
    using assms(2) by (rule delete_schema_Inr)
  have "owned_schema d w j \<Longrightarrow> j \<noteq> i \<Longrightarrow> owned_schema d' w j" for w j
    by (auto simp: owned_schema_def s(3) table_simps)
  then have "refs_ok d'"
    using assms(1) schema_blockers_Nil [OF s(2)] unfolding refs_ok_def schema_inv_def s(1)
    by (auto simp: s(3))
  then show ?thesis
    using assms(1) by (simp add: schema_inv_def s(3) distinct_key_delete newest_active_delete table_simps)
qed

lemma delete_workspace_inv:
  assumes "schema_inv d" and "delete_workspace restricts d i = Inr d'"
  shows "schema_inv d'"
proof -
  have tables: "db_workspaces d' = delete_where (\<lambda>w. wk_id w = i) (db_workspaces d)"
    "db_schemas d' = delete_where (\<lambda>s. sc_workspace_id s = i) (db_schemas d)"
    "db_entities d' = delete_where (\<lambda>e. en_workspace_id e = i) (db_entities d)"
    "db_snapshots d' = delete_where (\<lambda>n. sn_workspace_id n = i) (db_snapshots d)"
    using assms(2) by (auto simp: delete_workspace_def Let_def res_simps split: if_splits)
  have "owned_schema d w j \<Longrightarrow> w \<noteq> i \<Longrightarrow> owned_schema d' w j" for w j
    by (auto simp: owned_schema_def tables table_simps)
  then have "refs_ok d'"
    using assms(1) by (simp add: refs_ok_def schema_inv_def tables table_simps)
  then show ?thesis
    using assms(1) by (simp add: schema_inv_def tables distinct_key_delete newest_active_delete table_simps)
qed

text \<open>The selection of \<open>create_schema\<close>: the active versions of the name.\<close>

definition of_name :: "uuid \<Rightarrow> string \<Rightarrow> schema_row \<Rightarrow> bool" where
  "of_name w name s \<longleftrightarrow> sc_workspace_id s = w \<and> sc_name s = name"

lemma update_where_none: "(\<And>r. r \<in> set t \<Longrightarrow> \<not> p r) \<Longrightarrow> update_where p f t = t"
  by (simp add: update_where_def map_idI)

lemma latest_version_bound:
  "s \<in> set (db_schemas d) \<Longrightarrow> of_name w name s \<Longrightarrow> sc_version s \<le> latest_version d w name"
  by (auto simp: latest_version_def of_name_def table_simps split: option.split
      dest: latest_by_Some(2) [of sc_version _ _ s])
    (metis (mono_tags, lifting) filter_empty_conv select_where_def)

lemma latest_version_nonneg: "schema_inv d \<Longrightarrow> 0 \<le> latest_version d w name"
  by (fastforce simp: latest_version_def schema_inv_def table_simps split: option.split
      dest: latest_by_Some(1))

lemma create_schema_Inr:
  assumes "create_schema p i now d t w def tmpl snap = Inr ((row, dd), d')"
  shows "validate_definition p def = Inr ()"
    and "sc_id row = i" and "sc_workspace_id row = w" and "sc_name row = md_name def"
    and "sc_version row = wrap32 (latest_version d w (md_name def) + 1)"
    and "sc_status row = SchemaActive" and "sc_definition row = def"
    and "db_schemas d' = update_where (\<lambda>s. sc_workspace_id s = w \<and> sc_name s = md_name def
           \<and> sc_status s = SchemaActive) (retire now) (db_schemas d) @ [row]"
    and "i \<notin> sc_id ` set (db_schemas d)" and "schema_key row \<notin> schema_key ` set (db_schemas d)"
    and "db_workspaces d' = update_where (\<lambda>k. wk_id k = w) (activate i) (db_workspaces d)"
    and "w \<in> wk_id ` set (db_workspaces d)"
    and "db_entities d' = db_entities d" and "db_snapshots d' = db_snapshots d"
    and "dd = (case latest_by sc_version (active_versions d w (md_name def)) of
           Some s \<Rightarrow> diff (sc_definition s) def | None \<Rightarrow> \<lparr>is_breaking = False, reasons = []\<rparr>)"
    and "db_proposals d' = db_proposals d"
proof -
  let ?p = "\<lambda>s. sc_workspace_id s = w \<and> sc_name s = md_name def \<and> sc_status s = SchemaActive"
  let ?d1 = "d\<lparr>db_schemas := update_where ?p (retire now) (db_schemas d)\<rparr>"
  have none: "latest_by sc_version (active_versions d w (md_name def)) = None \<Longrightarrow>
      update_where ?p (retire now) (db_schemas d) = db_schemas d"
    by (rule update_where_none) (auto simp: table_simps active_versions_def select_where_def filter_empty_conv)
  have d1: "(if latest_by sc_version (active_versions d w (md_name def)) \<noteq> None then ?d1 else d) = ?d1"
    using none by auto
  have keys: "sc_id ` set (update_where ?p (retire now) (db_schemas d)) = sc_id ` set (db_schemas d)"
    "schema_key ` set (update_where ?p (retire now) (db_schemas d)) = schema_key ` set (db_schemas d)"
    by (rule retire.id.key_image_update, rule retire.version.key_image_update)
  obtain tpl sn up where o:
    "inherited_origin now (latest_by sc_version (active_versions d w (md_name def))) tmpl snap = (tpl, sn, up)"
    by (rule prod_cases3)
  obtain u d2 where v: "validate_definition p def = Inr u" and d2: "insert_schema ?d1 row = Inr d2"
    and d': "d' = mark_active d2 w i"
    and row: "row = \<lparr>sc_id = i, sc_tenant_id = t, sc_workspace_id = w, sc_name = md_name def,
        sc_version = wrap32 (latest_version d w (md_name def) + 1), sc_definition = def,
        sc_status = SchemaActive, sc_origin_template_id = tpl,
        sc_origin_status = (if tpl \<noteq> None then Linked else Detached),
        sc_origin_snapshot = sn, sc_origin_updated_at = up, sc_created_at = now, sc_updated_at = Some now\<rparr>"
    and dd: "dd = (case latest_by sc_version (active_versions d w (md_name def)) of
           Some s \<Rightarrow> diff (sc_definition s) def | None \<Rightarrow> \<lparr>is_breaking = False, reasons = []\<rparr>)"
    using assms unfolding create_schema_def Let_def o prod.case d1
    by (simp only: res_simps sum.inject prod.inject) blast
  have ins: "sc_id row \<notin> sc_id ` set (db_schemas d)" "schema_key row \<notin> schema_key ` set (db_schemas d)"
    "sc_workspace_id row \<in> wk_id ` set (db_workspaces d)" "d2 = ?d1\<lparr>db_schemas := db_schemas ?d1 @ [row]\<rparr>"
    using d2 unfolding insert_schema_def by (simp_all add: keys split: if_splits)
  show "validate_definition p def = Inr ()" using v by simp
  show "sc_id row = i" "sc_workspace_id row = w"
    "sc_name row = md_name def" "sc_version row = wrap32 (latest_version d w (md_name def) + 1)"
    "sc_status row = SchemaActive" "sc_definition row = def"
    by (simp_all add: row)
  then show "db_schemas d' = update_where ?p (retire now) (db_schemas d) @ [row]"
    "i \<notin> sc_id ` set (db_schemas d)" "schema_key row \<notin> schema_key ` set (db_schemas d)"
    "db_workspaces d' = update_where (\<lambda>k. wk_id k = w) (activate i) (db_workspaces d)"
    "w \<in> wk_id ` set (db_workspaces d)"
    "db_entities d' = db_entities d" "db_snapshots d' = db_snapshots d" "db_proposals d' = db_proposals d"
    using ins by (simp_all add: d' mark_active_def)
  show "dd = (case latest_by sc_version (active_versions d w (md_name def)) of
      Some s \<Rightarrow> diff (sc_definition s) def | None \<Rightarrow> \<lparr>is_breaking = False, reasons = []\<rparr>)"
    by (rule dd)
qed

lemma create_schema_inv:
  assumes inv: "schema_inv d"
    and create: "create_schema p i now d t w def tmpl snap = Inr ((row, dd), d')"
    and room: "latest_version d w (md_name def) < 2147483647"
  shows "schema_inv d'"
proof -
  have nonneg: "0 \<le> latest_version d w (md_name def)"
    using inv by (rule latest_version_nonneg)
  note c = create_schema_Inr [OF create]
  let ?p = "\<lambda>s. sc_workspace_id s = w \<and> sc_name s = md_name def \<and> sc_status s = SchemaActive"
  let ?t = "update_where ?p (retire now) (db_schemas d)"
  have version: "sc_version row = latest_version d w (md_name def) + 1"
    using c(5) room nonneg by (simp add: wrap32_id)
  have retired: "sc_status s = SchemaArchived \<and> sc_version s < sc_version row"
    if s: "s \<in> set ?t" "of_name w (md_name def) s" for s
  proof -
    from s obtain r where r: "r \<in> set (db_schemas d)" "s = (if ?p r then retire now r else r)"
      by (auto simp: table_simps)
    then have "of_name w (md_name def) r" "sc_version s = sc_version r"
      using s(2) by (auto simp: of_name_def split: if_splits)
    then show ?thesis
      using r s(2) latest_version_bound [of r d w "md_name def"] version
      by (cases "sc_status r") (auto simp: of_name_def)
  qed
  have "newest_active ?t" using inv by (simp add: schema_inv_def retire.newest_active_update)
  then have "newest_active (?t @ [row])"
    using retired c(3,4) unfolding newest_active_def of_name_def by fastforce
  moreover have "refs_ok d'"
  proof -
    have old: "owned_schema d k j \<Longrightarrow> owned_schema d' k j" for k j
    proof (rule owned_schema_mono)
      show "\<exists>s' \<in> set (db_schemas d'). sc_id s' = sc_id s \<and> sc_workspace_id s' = sc_workspace_id s"
        if "s \<in> set (db_schemas d)" for s
        using that by (intro bexI [of _ "if ?p s then retire now s else s"]) (auto simp: c(8) table_simps)
    qed
    moreover have "owned_schema d' w i"
      using c(2,3,8) by (auto simp: owned_schema_def)
    ultimately show ?thesis
      using inv by (auto simp: refs_ok_def schema_inv_def c(11,13,14) table_simps activate_def
          split: option.splits)
  qed
  ultimately show ?thesis
    using inv c(2,9,10) version nonneg
    by (auto simp: schema_inv_def c(8,11) table_simps activate_id.keys_update_where retire.id.keys_update_where
        retire.version.keys_update_where retire.id.key_image_update retire.version.key_image_update)
qed

section \<open>Properties\<close>

text \<open>
  The histories of the store.  A version number is an \<open>i32\<close>; a step that creates a version has room
  for the next number.
\<close>

inductive schema_step :: "db \<Rightarrow> db \<Rightarrow> bool" where
  create: "create_schema p i now d t w def tmpl snap = Inr (r, d') \<Longrightarrow>
     latest_version d w (md_name def) < 2147483647 \<Longrightarrow> schema_step d d'"
| archive: "archive now d w i = Inr (s, d') \<Longrightarrow> schema_step d d'"
| delete: "delete_schema b d w i = Inr d' \<Longrightarrow> schema_step d d'"
| notify: "schema_step d (snd (notify_upstream_change d tmpl))"
| drop_workspace: "delete_workspace restricts d w = Inr d' \<Longrightarrow> schema_step d d'"

inductive_cases schema_stepE: "schema_step d d'"

lemma schema_step_inv: "schema_step d d' \<Longrightarrow> schema_inv d \<Longrightarrow> schema_inv d'"
  by (induction rule: schema_step.induct)
    (auto intro: create_schema_inv archive_inv delete_schema_inv notify_inv delete_workspace_inv)

lemma newest_active_unique:
  "newest_active t \<Longrightarrow> s \<in> set t \<Longrightarrow> s' \<in> set t \<Longrightarrow> sc_status s = SchemaActive \<Longrightarrow>
   sc_status s' = SchemaActive \<Longrightarrow> sc_workspace_id s' = sc_workspace_id s \<Longrightarrow> sc_name s' = sc_name s \<Longrightarrow> s' = s"
  by (auto simp: newest_active_def) (metis less_asym)

definition one_workspace :: db where
  "one_workspace = empty_db\<lparr>db_workspaces :=
     [\<lparr>wk_id = 3, wk_tenant_id = 9, wk_name = ''w'', wk_max_entities = Some 1,
       wk_status = SchemaPending, wk_schema_id = None, wk_created_at = 0\<rparr>]\<rparr>"

lemma one_workspace_inv: "schema_inv one_workspace"
  by (simp add: one_workspace_def empty_db_def schema_inv_def newest_active_def refs_ok_def)


text \<open>Two versions of a schema created one after the other.\<close>

definition first_version :: "((schema_row \<times> versioning_diff) \<times> db) result" where
  "first_version = create_schema (\<lambda>_. True) 10 100 one_workspace 9 3 sample_definition None None"

lemma first_version_Inr:
  "\<exists>r d'. first_version = Inr (r, d') \<and> length (db_schemas d') = 1"
  using sample_definition_wf
  by (simp add: first_version_def create_schema_def validate_definition_def definition_details_Nil
      Let_def insert_schema_def one_workspace_def empty_db_def inherited_origin_def mark_active_def
      active_versions_def select_where_def latest_by_def)


lemma latest_by_top:
  "s \<in> set t \<Longrightarrow> (\<And>x. x \<in> set t \<Longrightarrow> x = s \<or> key x < key s) \<Longrightarrow> latest_by key t = Some s"
  by (cases "latest_by key t") (auto simp: table_simps dest: latest_by_Some, metis latest_by_Some leD)

lemma get_active_iff:
  assumes "schema_inv d"
  shows "get_active_schema d w name = Inr s \<longleftrightarrow>
    s \<in> set (db_schemas d) \<and> of_name w name s \<and> sc_status s = SchemaActive"
proof
  assume "get_active_schema d w name = Inr s"
  then show "s \<in> set (db_schemas d) \<and> of_name w name s \<and> sc_status s = SchemaActive"
    by (auto simp: get_active_schema_def res_simps of_name_def active_versions_def table_simps
        dest!: latest_by_Some(1))
next
  assume s: "s \<in> set (db_schemas d) \<and> of_name w name s \<and> sc_status s = SchemaActive"
  then have "latest_by sc_version (active_versions d w name) = Some s"
    using assms by (intro latest_by_top)
      (auto simp: active_versions_def table_simps of_name_def schema_inv_def newest_active_def)
  then show "get_active_schema d w name = Inr s"
    by (simp add: get_active_schema_def)
qed

lemma latest_version_active:
  assumes "schema_inv d" and "get_active_schema d w name = Inr s"
  shows "latest_version d w name = sc_version s"
proof -
  have "latest_by sc_version (select_where (\<lambda>s. sc_workspace_id s = w \<and> sc_name s = name) (db_schemas d)) = Some s"
    using assms get_active_iff [OF assms(1)]
    by (intro latest_by_top) (auto simp: table_simps of_name_def schema_inv_def newest_active_def)
  then show ?thesis by (simp add: latest_version_def)
qed

lemma get_by_id_iff:
  "schema_inv d \<Longrightarrow> get_by_id d w i = Inr s \<longleftrightarrow>
     s \<in> set (db_schemas d) \<and> sc_workspace_id s = w \<and> sc_id s = i"
  by (auto simp: get_by_id_Inr) 
    (auto simp: get_by_id_def res_simps schema_inv_def intro!: find_row_unique dest: distinct_key_unique)

text \<open>
  A successful \<open>create_schema\<close> makes the new row the active schema of its name, numbered
  one above every earlier version, archives the version it replaces, reports the difference to that
  version, activates the workspace, and keeps the first schema the workspace recorded.
\<close>

theorem create_schema_activates:
  assumes "schema_inv d" and "latest_version d w (md_name def) < 2147483647"
    and "create_schema p i now d t w def tmpl snap = Inr ((row, dd), d')"
  shows "get_active_schema d' w (md_name def) = Inr row \<and>
    sc_version row = latest_version d w (md_name def) + 1 \<and>
    latest_version d' w (md_name def) = sc_version row \<and>
    (\<forall>s. get_active_schema d w (md_name def) = Inr s \<longrightarrow>
       dd = diff (sc_definition s) def \<and> get_by_id d' w (sc_id s) = Inr (retire now s)) \<and>
    \<not> is_schema_pending d' w \<and>
    (\<forall>k j. get_workspace d w = Inr k \<and> wk_schema_id k = Some j \<longrightarrow>
       map_option wk_schema_id (find_row (\<lambda>k. wk_id k = w) (db_workspaces d')) = Some (Some j))"
proof -
  note c = create_schema_Inr [OF assms(3)]
  have inv': "schema_inv d'" by (rule create_schema_inv [OF assms(1,3,2)])
  have active: "get_active_schema d' w (md_name def) = Inr row"
    using c(3,4,6) by (simp add: get_active_iff [OF inv'] c(8) of_name_def)
  have version: "sc_version row = latest_version d w (md_name def) + 1"
    using c(5) assms(2) latest_version_nonneg [OF assms(1)] by (simp add: wrap32_id)
  have previous: "dd = diff (sc_definition s) def \<and> get_by_id d' w (sc_id s) = Inr (retire now s)"
    if s: "get_active_schema d w (md_name def) = Inr s" for s
  proof -
    have "s \<in> set (db_schemas d)" "of_name w (md_name def) s" "sc_status s = SchemaActive"
      using s by (simp_all add: get_active_iff [OF assms(1)])
    then have "retire now s \<in> set (db_schemas d')"
      by (auto simp: c(8) table_simps of_name_def)
    then show ?thesis
      using s c(15) \<open>of_name w (md_name def) s\<close>
      by (simp add: get_by_id_iff [OF inv'] of_name_def get_active_schema_def res_simps)
  qed
  have "find_row (\<lambda>k. wk_id k = w) (db_workspaces d') =
      map_option (activate i) (find_row (\<lambda>k. wk_id k = w) (db_workspaces d))"
    unfolding c(11) activate_id.find_key_update
    by (cases "find_row (\<lambda>k. wk_id k = w) (db_workspaces d)") (auto dest: find_row_Some)
  then have "\<not> is_schema_pending d' w"
    "\<forall>k j. get_workspace d w = Inr k \<and> wk_schema_id k = Some j \<longrightarrow>
       map_option wk_schema_id (find_row (\<lambda>k. wk_id k = w) (db_workspaces d')) = Some (Some j)"
    unfolding is_schema_pending_def get_workspace_def
    by (cases "find_row (\<lambda>k. wk_id k = w) (db_workspaces d)"; simp add: activate_def)+
  with active version previous latest_version_active [OF inv' active] show ?thesis by blast
qed

theorem create_schema_activates_witness:
  "\<exists>row dd d'. first_version = Inr ((row, dd), d') \<and> sc_version row = 1 \<and>
     get_active_schema d' 3 (md_name sample_definition) = Inr row"
proof -
  have latest: "latest_version one_workspace 3 (md_name sample_definition) = 0"
    by (simp add: latest_version_def one_workspace_def empty_db_def select_where_def latest_by_def)
  obtain r d' where step: "first_version = Inr (r, d')" using first_version_Inr by auto
  obtain row dd where r: "r = (row, dd)" by (cases r)
  have create: "create_schema (\<lambda>_. True) 10 100 one_workspace 9 3 sample_definition None None = Inr ((row, dd), d')"
    using step by (simp add: first_version_def r)
  show ?thesis
    using create_schema_activates [OF one_workspace_inv _ create] latest step r by auto
qed

text \<open>
  \<open>delete\<close> on a schema version removes exactly the archived, unreferenced version it was
  asked for.  An active version and a referenced one are refused as conflicts, an unknown one as not
  found, and in those cases nothing is written.
\<close>

theorem delete_schema_exact:
  assumes "schema_inv d"
  shows "delete_schema b d w i =
    (case find_row (\<lambda>s. sc_workspace_id s = w \<and> sc_id s = i) (db_schemas d) of
       None \<Rightarrow> Inl (NotFound ''schema {} was not found'')
     | Some s \<Rightarrow>
         if sc_status s = SchemaActive
         then Inl (Conflict ''schema {} version {} is still active; archive it before deleting'')
         else if (\<exists>e \<in> set (db_entities d). en_schema_id e = i) \<or>
                 (\<exists>n \<in> set (db_snapshots d). sn_schema_id n = i) \<or>
                 (\<exists>p \<in> set (db_proposals d). pr_schema_id p = i) \<or>
                 (\<exists>k \<in> set (db_workspaces d). wk_schema_id k = Some i) \<or>
                 (\<exists>f \<in> set (db_forks d). (b = Postgres \<longrightarrow> fk_tenant_id f = sc_tenant_id s) \<and>
                    (fk_source_schema_id f = i \<or> fk_fork_schema_id f = i)) \<or>
                 (\<exists>h \<in> set (db_fork_heads d). (b = Postgres \<longrightarrow> fh_tenant_id h = sc_tenant_id s) \<and>
                    fh_schema_id h = i)
         then Inl (Conflict ''schema {} version {} is still referenced by: {}'')
         else Inr (d\<lparr>db_schemas := delete_where (\<lambda>s. sc_id s = i) (db_schemas d)\<rparr>))"
proof (cases "find_row (\<lambda>s. sc_workspace_id s = w \<and> sc_id s = i) (db_schemas d)")
  case None
  then show ?thesis by (simp add: delete_schema_def get_by_id_def)
next
  case (Some s)
  have comm: "find_row (\<lambda>s. sc_id s = i \<and> sc_workspace_id s = w) (db_schemas d) = Some s"
    using Some by (simp add: conj_commute)
  have s: "s \<in> set (db_schemas d)" "sc_id s = i"
    using find_row_Some [OF Some] by auto
  have present: "count_where (\<lambda>s. sc_id s = i) (db_schemas d) \<noteq> 0"
    using s by (auto simp: table_simps)
  have backend: "b = Sqlite \<or> x \<longleftrightarrow> (b = Postgres \<longrightarrow> x)" for x
    by (cases b) auto
  have blockers: "schema_blockers b d s = [] \<longleftrightarrow> \<not> ((\<exists>e \<in> set (db_entities d). en_schema_id e = i) \<or>
      (\<exists>n \<in> set (db_snapshots d). sn_schema_id n = i) \<or>
      (\<exists>p \<in> set (db_proposals d). pr_schema_id p = i) \<or>
      (\<exists>k \<in> set (db_workspaces d). wk_schema_id k = Some i) \<or>
      (\<exists>f \<in> set (db_forks d). (b = Postgres \<longrightarrow> fk_tenant_id f = sc_tenant_id s) \<and>
         (fk_source_schema_id f = i \<or> fk_fork_schema_id f = i)) \<or>
      (\<exists>h \<in> set (db_fork_heads d). (b = Postgres \<longrightarrow> fh_tenant_id h = sc_tenant_id s) \<and> fh_schema_id h = i))"
    unfolding schema_blockers_def fork_reference_counts_def Let_def prod.case s(2) append_is_Nil_conv
    by (simp add: table_simps backend)
  show ?thesis
    unfolding delete_schema_def get_by_id_def Some comm
    using present blockers by (cases "sc_status s") simp_all
qed

theorem delete_schema_exact_witness:
  "delete_schema Sqlite one_workspace 3 10 = Inl (NotFound ''schema {} was not found'')"
  using delete_schema_exact [OF one_workspace_inv, of Sqlite 3 10]
  by (simp add: one_workspace_def empty_db_def find_row_def)

text \<open>A workspace whose schema follows a template and has a pending upstream notification.\<close>

definition followed_schema :: schema_row where
  "followed_schema = \<lparr>sc_id = 10, sc_tenant_id = 9, sc_workspace_id = 3, sc_name = ''library'',
     sc_version = 1, sc_definition = sample_definition, sc_status = SchemaActive,
     sc_origin_template_id = Some 77, sc_origin_status = Linked, sc_origin_snapshot = Some sample_definition,
     sc_origin_updated_at = None, sc_created_at = 0, sc_updated_at = Some 0\<rparr>"

definition one_schema :: db where
  "one_schema = empty_db\<lparr>db_workspaces :=
     [\<lparr>wk_id = 3, wk_tenant_id = 9, wk_name = ''w'', wk_max_entities = Some 1,
       wk_status = WorkspaceActive, wk_schema_id = Some 10, wk_created_at = 0\<rparr>],
     db_schemas := [followed_schema]\<rparr>"

lemma one_schema_inv: "schema_inv one_schema"
  by (simp add: one_schema_def followed_schema_def empty_db_def schema_inv_def newest_active_def
      refs_ok_def owned_schema_def)

lemma one_schema_active: "get_active_schema one_schema 3 ''library'' = Inr followed_schema"
  by (simp add: get_active_iff [OF one_schema_inv]) (simp add: one_schema_def followed_schema_def of_name_def)

lemma sample_name: "md_name sample_definition = ''library''"
  by (simp add: sample_definition_def)

text \<open>
  A version created locally, without naming a template, inherits the complete origin of
  the version it replaces, a pending upstream notification included: a local edit never acknowledges
  an upstream change.
\<close>

theorem origin_inherited:
  assumes "schema_inv d" and "get_active_schema d w (md_name def) = Inr prev"
    and "create_schema p i now d t w def None snap = Inr ((row, dd), d')"
  shows "sc_origin_template_id row = sc_origin_template_id prev \<and>
    sc_origin_snapshot row = sc_origin_snapshot prev \<and>
    sc_origin_updated_at row = sc_origin_updated_at prev \<and>
    (sc_origin_status row = Linked \<longleftrightarrow> sc_origin_template_id prev \<noteq> None)"
proof -
  have "latest_by sc_version (active_versions d w (md_name def)) = Some prev"
    using assms(2) by (simp add: get_active_schema_def res_simps)
  then show ?thesis
    using assms(3)
    by (auto simp: create_schema_def Let_def inherited_origin_def rbind_Inr_iff split: if_splits)
qed

theorem origin_inherited_witness:
  "\<exists>row dd d'. create_schema (\<lambda>_. True) 11 200 one_schema 9 3 sample_definition None None
      = Inr ((row, dd), d') \<and>
     sc_origin_template_id row = Some 77 \<and> sc_origin_updated_at row = None \<and> sc_version row = 2"
proof -
  obtain row dd d' where
    create: "create_schema (\<lambda>_. True) 11 200 one_schema 9 3 sample_definition None None = Inr ((row, dd), d')"
    and version: "sc_version row = 2"
    using sample_definition_wf
    by (simp add: create_schema_def validate_definition_def definition_details_Nil Let_def sample_name
        insert_schema_def one_schema_def followed_schema_def empty_db_def inherited_origin_def
        mark_active_def active_versions_def select_where_def latest_by_def latest_version_def
        update_where_def retire_def wrap32_def schema_key_def)
  from origin_inherited [OF one_schema_inv _ create] one_schema_active
  have "sc_origin_template_id row = Some 77 \<and> sc_origin_updated_at row = None"
    by (simp add: sample_name followed_schema_def)
  with create version show ?thesis by blast
qed


definition two_workspaces :: db where
  "two_workspaces = one_workspace\<lparr>db_workspaces := db_workspaces one_workspace @
     [\<lparr>wk_id = 4, wk_tenant_id = 9, wk_name = ''v'', wk_max_entities = None,
       wk_status = SchemaPending, wk_schema_id = None, wk_created_at = 0\<rparr>]\<rparr>"


end
