(* ===== verification/Entity_Store.thy ===== *)
theory Entity_Store
  imports Schema_Store
begin

text \<open>
  \<open>src/models/entity_entities\<close> (crud.rs, migration.rs, snapshots.rs, backend.rs) and
  \<open>src/data/quotas.rs\<close>: entities validated against a schema version, the entity quota, optimistic
  concurrency, lazy migration by filling defaults, and snapshots with their undo.

  The database gives an updated row a new embedding-sync token (a trigger); the token, like the
  clock and new identifiers, is an argument.
\<close>

section \<open>Create, read, update, delete\<close>

definition effective_limit :: "int option \<Rightarrow> int option \<Rightarrow> int option" where
  "effective_limit manual policy =
     (case (manual, policy) of
        (Some m, Some p) \<Rightarrow> Some (min m p)
      | (None, p) \<Rightarrow> p
      | (m, None) \<Rightarrow> m)"

definition entity_count :: "db \<Rightarrow> uuid \<Rightarrow> nat" where
  "entity_count d workspace_id = count_where (\<lambda>e. en_workspace_id e = workspace_id) (db_entities d)"

definition workspace_max_entities :: "db \<Rightarrow> uuid \<Rightarrow> int option" where
  "workspace_max_entities d workspace_id =
     Option.bind (find_row (\<lambda>w. wk_id w = workspace_id) (db_workspaces d)) wk_max_entities"

definition check_entity_quota :: "db \<Rightarrow> uuid \<Rightarrow> int option \<Rightarrow> unit result" where
  "check_entity_quota d workspace_id quota =
     (case effective_limit (workspace_max_entities d workspace_id) quota of
        None \<Rightarrow> Inr ()
      | Some m \<Rightarrow>
          if int (entity_count d workspace_id) \<ge> m
          then Inl (Conflict ''workspace {} has reached its entity limit ({}); raise max_entities or delete existing entities'')
          else Inr ())"

record create_entity_input =
  ci_schema_name :: string
  ci_entity_type :: string
  ci_data :: json

text \<open>The insert: a duplicate id or a missing workspace or schema is the database error it maps to.\<close>

definition insert_entity :: "db \<Rightarrow> entity_row \<Rightarrow> db result" where
  "insert_entity d row =
     (if en_id row \<in> en_id ` set (db_entities d)
         \<or> en_workspace_id row \<notin> wk_id ` set (db_workspaces d)
         \<or> en_schema_id row \<notin> sc_id ` set (db_schemas d)
      then Inl (Internal ''constraint'')
      else Inr (d\<lparr>db_entities := db_entities d @ [row]\<rparr>))"

definition create_with_quota ::
  "schema_validator \<Rightarrow> uuid \<Rightarrow> string \<Rightarrow> instant \<Rightarrow> db \<Rightarrow> uuid \<Rightarrow> create_entity_input \<Rightarrow> uuid option \<Rightarrow>
   int option \<Rightarrow> (entity_row \<times> db) result" where
  "create_with_quota errors_of new_id token now d workspace_id input created_by quota =
     rbind (check_entity_quota d workspace_id quota) (\<lambda>_.
     if is_schema_pending d workspace_id
     then Inl (ValidationFailed ''workspace {} has no schema yet, so there is nothing to validate this entity against'' [])
     else
     rbind (get_active_schema d workspace_id (ci_schema_name input)) (\<lambda>schema.
     rbind (resolve_entity_type (sc_definition schema) (ci_entity_type input)) (\<lambda>et.
     rbind (validate_data errors_of et (ci_data input)) (\<lambda>_.
     let row = \<lparr>en_id = new_id, en_embedding_sync_token = token, en_workspace_id = workspace_id,
                en_schema_id = sc_id schema, en_schema_version = sc_version schema,
                en_entity_type = ci_entity_type input, en_data = ci_data input,
                en_created_by = created_by, en_updated_by = None,
                en_created_at = now, en_updated_at = now\<rparr>
     in rbind (insert_entity d row) (\<lambda>d'. Inr (row, d'))))))"

definition create_entity ::
  "schema_validator \<Rightarrow> uuid \<Rightarrow> string \<Rightarrow> instant \<Rightarrow> db \<Rightarrow> uuid \<Rightarrow> create_entity_input \<Rightarrow> uuid option \<Rightarrow>
   (entity_row \<times> db) result" where
  "create_entity errors_of new_id token now d workspace_id input created_by =
     create_with_quota errors_of new_id token now d workspace_id input created_by None"

definition get_entity :: "db \<Rightarrow> uuid \<Rightarrow> uuid \<Rightarrow> entity_row result" where
  "get_entity d workspace_id i =
     ok_or (find_row (\<lambda>e. en_workspace_id e = workspace_id \<and> en_id e = i) (db_entities d))
       (NotFound ''entity {} was not found'')"

record update_entity_input =
  ui_id :: uuid
  ui_data :: json
  ui_updated_by :: "uuid option"
  ui_expected_updated_at :: "instant option"

definition write_entity :: "json \<Rightarrow> uuid option \<Rightarrow> string \<Rightarrow> instant \<Rightarrow> entity_row \<Rightarrow> entity_row" where
  "write_entity data updated_by token now e =
     e\<lparr>en_data := data, en_updated_by := updated_by, en_embedding_sync_token := token,
       en_updated_at := now\<rparr>"

text \<open>
  The rows the write selects: with an expected timestamp, the row only while it still carries the
  token that was read; otherwise the row by its primary key.
\<close>

definition update_filter :: "uuid \<Rightarrow> update_entity_input \<Rightarrow> entity_row \<Rightarrow> entity_row \<Rightarrow> bool" where
  "update_filter workspace_id input existing e =
     (if ui_expected_updated_at input \<noteq> None
      then en_workspace_id e = workspace_id \<and> en_id e = ui_id input \<and>
           en_embedding_sync_token e = en_embedding_sync_token existing
      else en_id e = ui_id input)"

definition save_entity ::
  "string \<Rightarrow> instant \<Rightarrow> db \<Rightarrow> uuid \<Rightarrow> update_entity_input \<Rightarrow> entity_row \<Rightarrow> (entity_row \<times> db) result" where
  "save_entity token now d workspace_id input existing =
     (let change = write_entity (ui_data input) (ui_updated_by input) token now;
          sel = update_filter workspace_id input existing
      in case find_row sel (db_entities d) of
           Some e \<Rightarrow> Inr (change e, d\<lparr>db_entities := update_where sel change (db_entities d)\<rparr>)
         | None \<Rightarrow> if ui_expected_updated_at input \<noteq> None
             then Inl (Conflict ''entity {} changed while it was being edited; re-read it and retry'')
             else Inl (Internal ''record not updated''))"

definition update_entity ::
  "schema_validator \<Rightarrow> string \<Rightarrow> instant \<Rightarrow> db \<Rightarrow> uuid \<Rightarrow> update_entity_input \<Rightarrow>
   (entity_row \<times> db) result" where
  "update_entity errors_of token now d workspace_id input =
     rbind (ok_or (find_row (\<lambda>e. en_id e = ui_id input \<and> en_workspace_id e = workspace_id) (db_entities d))
              (NotFound ''entity {} was not found'')) (\<lambda>existing.
     if (case ui_expected_updated_at input of None \<Rightarrow> False | Some t \<Rightarrow> en_updated_at existing \<noteq> t)
     then Inl (Conflict ''entity {} changed while it was being edited (it is now {}); re-read it and retry'')
     else
     rbind (get_by_id d workspace_id (en_schema_id existing)) (\<lambda>schema.
     rbind (resolve_entity_type (sc_definition schema) (en_entity_type existing)) (\<lambda>et.
     rbind (validate_data errors_of et (ui_data input)) (\<lambda>_.
     save_entity token now d workspace_id input existing))))"

text \<open>Deleting an entity cascades to the relations that have it as an end.\<close>

definition delete_entity :: "db \<Rightarrow> uuid \<Rightarrow> uuid \<Rightarrow> db result" where
  "delete_entity d workspace_id i =
     (let sel = (\<lambda>e. en_workspace_id e = workspace_id \<and> en_id e = i) in
      if count_where sel (db_entities d) = 0 then Inl (NotFound ''entity {} was not found'')
      else Inr (d\<lparr>db_entities := delete_where sel (db_entities d),
                  db_relations := delete_where (\<lambda>r. re_source_id r = i \<or> re_target_id r = i)
                                    (db_relations d)\<rparr>))"

record list_entities_query =
  lq_entity_type :: "string option"
  lq_filter :: "json option"
  lq_schema_version :: "int option"
  lq_page :: list_params

text \<open>\<open>data @> filter\<close> is PostgreSQL's JSONB containment, the parameter \<open>contains\<close>.\<close>

definition list_entities ::
  "(json \<Rightarrow> json \<Rightarrow> bool) \<Rightarrow> backend \<Rightarrow> db \<Rightarrow> uuid \<Rightarrow> list_entities_query \<Rightarrow> entity_row list result" where
  "list_entities contains b d workspace_id q =
     (if lq_filter q \<noteq> None \<and> b = Sqlite
      then Inl (BackendUnsupported ''entity filter (JSONB containment) is not supported on SQLite'')
      else Inr (page_of (lq_page q) (sort_key (\<lambda>e. - en_created_at e) (select_where (\<lambda>e.
          en_workspace_id e = workspace_id \<and>
          (case lq_entity_type q of None \<Rightarrow> True | Some t \<Rightarrow> en_entity_type e = t) \<and>
          (case lq_filter q of None \<Rightarrow> True | Some f \<Rightarrow> contains (en_data e) f) \<and>
          (case lq_schema_version q of None \<Rightarrow> True | Some v \<Rightarrow> en_schema_version e = v))
        (db_entities d)))))"

section \<open>Migration\<close>

record drift_field =
  df_name :: string
  df_type :: field_type_name
  df_required :: bool

function missing_fields_in_value :: "json \<Rightarrow> fields \<Rightarrow> string \<Rightarrow> drift_field list"
  and missing_loop :: "json btree_map \<Rightarrow> fields \<Rightarrow> string \<Rightarrow> drift_field list" where
  "missing_fields_in_value v fs parent =
     (case v of JObj kvs \<Rightarrow> missing_loop kvs fs parent | _ \<Rightarrow> [])"
| "missing_loop kvs [] parent = []"
| "missing_loop kvs (e # es) parent =
     (let pointer = parent @ ''/'' @ escape_pointer_segment (fst e) in
      case bt_get kvs (fst e) of
        None \<Rightarrow> [\<lparr>df_name = (if parent = [] then fst e else pointer),
                 df_type = fd_type (snd e), df_required = fd_required (snd e)\<rparr>]
      | Some v \<Rightarrow> (case fd_properties (snd e) of
                     None \<Rightarrow> []
                   | Some ps \<Rightarrow> missing_fields_in_value v ps pointer))
     @ missing_loop kvs es parent"
  by pat_completeness auto
termination
  by (relation "measure (\<lambda>x. case x of
          Inl (_, fs, _) \<Rightarrow> 2 * fields_size fs + 1
        | Inr (_, fs, _) \<Rightarrow> 2 * fields_size fs)")
    (auto dest: fields_size_properties)

declare missing_fields_in_value.simps [simp del]

fun empty_value_for_type :: "field_type_name \<Rightarrow> json" where
  "empty_value_for_type FBoolean = JBool False"
| "empty_value_for_type FInteger = JInt 0"
| "empty_value_for_type FNumber = JInt 0"
| "empty_value_for_type FString = JStr []"
| "empty_value_for_type FObject = JObj []"
| "empty_value_for_type FArray = JArr []"

definition fill_value :: "field_def \<Rightarrow> json" where
  "fill_value f = (case fd_default f of Some v \<Rightarrow> v | None \<Rightarrow> empty_value_for_type (fd_type f))"

function fill_fields_in_value :: "json \<Rightarrow> fields \<Rightarrow> json \<times> nat"
  and fill_loop :: "json btree_map \<Rightarrow> fields \<Rightarrow> json btree_map \<times> nat" where
  "fill_fields_in_value v fs =
     (case v of JObj kvs \<Rightarrow> (let (kvs', n) = fill_loop kvs fs in (JObj kvs', n)) | _ \<Rightarrow> (v, 0))"
| "fill_loop kvs [] = (kvs, 0)"
| "fill_loop kvs (e # es) =
     (let (kvs1, n1) =
        (case bt_get kvs (fst e) of
           Some child \<Rightarrow> (case fd_properties (snd e) of
               None \<Rightarrow> (kvs, 0)
             | Some ps \<Rightarrow> (let (child', n) = fill_fields_in_value child ps
                           in (bt_insert (fst e) child' kvs, n)))
         | None \<Rightarrow> if fd_required (snd e) then (bt_insert (fst e) (fill_value (snd e)) kvs, 1)
                  else (kvs, 0));
      (kvs2, n2) = fill_loop kvs1 es
      in (kvs2, n1 + n2))"
  by pat_completeness auto
termination
  by (relation "measure (\<lambda>x. case x of
          Inl (_, fs) \<Rightarrow> 2 * fields_size fs + 1
        | Inr (_, fs) \<Rightarrow> 2 * fields_size fs)")
    (auto dest: fields_size_properties)

declare fill_fields_in_value.simps [simp del]

record entity_drift =
  ed_entity_id :: uuid
  ed_entity_type :: string
  ed_schema_version :: int
  ed_active_schema_version :: int
  ed_missing_fields :: "drift_field list"

definition drift :: "db \<Rightarrow> uuid \<Rightarrow> uuid \<Rightarrow> entity_drift result" where
  "drift d workspace_id entity_id =
     rbind (get_entity d workspace_id entity_id) (\<lambda>entity.
     rbind (get_by_id d workspace_id (en_schema_id entity)) (\<lambda>own.
     rbind (get_active_schema d workspace_id (sc_name own)) (\<lambda>active.
     let active_fields = map_option et_fields
           (bt_get (md_entity_types (sc_definition active)) (en_entity_type entity))
     in Inr \<lparr>ed_entity_id = en_id entity, ed_entity_type = en_entity_type entity,
             ed_schema_version = en_schema_version entity,
             ed_active_schema_version = sc_version active,
             ed_missing_fields = (case active_fields of
                 None \<Rightarrow> [] | Some fs \<Rightarrow> missing_fields_in_value (en_data entity) fs [])\<rparr>)))"

text \<open>The entities of a schema name: the join of entities with their schema.\<close>

definition entities_of_schema :: "db \<Rightarrow> uuid \<Rightarrow> string \<Rightarrow> entity_row list" where
  "entities_of_schema d workspace_id schema_name =
     select_where (\<lambda>e. en_workspace_id e = workspace_id \<and>
       (\<exists>s \<in> set (db_schemas d). sc_id s = en_schema_id e \<and> sc_name s = schema_name)) (db_entities d)"

record dry_run_by_type =
  dt_entity_type :: string
  dt_behind :: nat
  dt_needs_values :: nat
  dt_missing_required :: "string list"

record dry_run_counts =
  dc_total :: nat
  dc_current :: nat
  dc_behind_valid :: nat
  dc_needs_values :: nat
  dc_by_type :: "dry_run_by_type btree_map"

definition missing_required :: "schema_row \<Rightarrow> entity_row \<Rightarrow> string list" where
  "missing_required active row =
     (case bt_get (md_entity_types (sc_definition active)) (en_entity_type row) of
        None \<Rightarrow> []
      | Some et \<Rightarrow> map df_name (filter df_required
                     (missing_fields_in_value (en_data row) (et_fields et) [])))"

fun push_new :: "string list \<Rightarrow> string list \<Rightarrow> string list" where
  "push_new acc [] = acc"
| "push_new acc (x # xs) = push_new (if x \<in> set acc then acc else acc @ [x]) xs"

definition dry_run_row :: "schema_row \<Rightarrow> dry_run_counts \<Rightarrow> entity_row \<Rightarrow> dry_run_counts" where
  "dry_run_row active c row =
     (let c = c\<lparr>dc_total := dc_total c + 1\<rparr> in
      if en_schema_id row = sc_id active then c\<lparr>dc_current := dc_current c + 1\<rparr>
      else
        let missing = missing_required active row;
            entry = (case bt_get (dc_by_type c) (en_entity_type row) of
                Some t \<Rightarrow> t
              | None \<Rightarrow> \<lparr>dt_entity_type = en_entity_type row, dt_behind = 0, dt_needs_values = 0,
                        dt_missing_required = []\<rparr>);
            entry = entry\<lparr>dt_behind := dt_behind entry + 1\<rparr>
        in if missing = []
           then c\<lparr>dc_behind_valid := dc_behind_valid c + 1,
                  dc_by_type := bt_insert (en_entity_type row) entry (dc_by_type c)\<rparr>
           else c\<lparr>dc_needs_values := dc_needs_values c + 1,
                  dc_by_type := bt_insert (en_entity_type row)
                    (entry\<lparr>dt_needs_values := dt_needs_values entry + 1,
                           dt_missing_required := push_new (dt_missing_required entry) missing\<rparr>)
                    (dc_by_type c)\<rparr>)"

record migration_dry_run_report =
  mr_schema_name :: string
  mr_active_version :: int
  mr_total_entities :: nat
  mr_current :: nat
  mr_behind_but_valid :: nat
  mr_needs_values :: nat
  mr_by_entity_type :: "dry_run_by_type list"

definition migration_dry_run :: "db \<Rightarrow> uuid \<Rightarrow> string \<Rightarrow> migration_dry_run_report result" where
  "migration_dry_run d workspace_id schema_name =
     rbind (get_active_schema d workspace_id schema_name) (\<lambda>active.
     let rows = sort_key en_id (entities_of_schema d workspace_id schema_name);
         c = foldl (dry_run_row active) \<lparr>dc_total = 0, dc_current = 0, dc_behind_valid = 0,
               dc_needs_values = 0, dc_by_type = []\<rparr> rows
     in Inr \<lparr>mr_schema_name = schema_name, mr_active_version = sc_version active,
             mr_total_entities = dc_total c, mr_current = dc_current c,
             mr_behind_but_valid = dc_behind_valid c, mr_needs_values = dc_needs_values c,
             mr_by_entity_type = map (\<lambda>(_, t). t\<lparr>dt_missing_required := sort (dt_missing_required t)\<rparr>)
                                   (dc_by_type c)\<rparr>)"

section \<open>Snapshots\<close>

definition require_job_snapshots :: "db \<Rightarrow> uuid \<Rightarrow> uuid \<Rightarrow> unit result" where
  "require_job_snapshots d workspace_id job_id =
     (if \<not> (\<exists>n \<in> set (db_snapshots d). sn_workspace_id n = workspace_id \<and> sn_job_id n = job_id)
      then Inl (NotFound ''no snapshots for job {}'') else Inr ())"

definition snapshot_of :: "uuid \<Rightarrow> instant \<Rightarrow> uuid \<Rightarrow> entity_row \<Rightarrow> snapshot_row" where
  "snapshot_of new_id now job_id e =
     \<lparr>sn_id = new_id, sn_job_id = job_id, sn_workspace_id = en_workspace_id e, sn_entity_id = en_id e,
      sn_schema_id = en_schema_id e, sn_schema_version = en_schema_version e, sn_data = en_data e,
      sn_created_at = now\<rparr>"

text \<open>\<open>INSERT ... SELECT\<close> of one entity, with the number of rows it inserted.\<close>

definition insert_snapshot :: "uuid \<Rightarrow> instant \<Rightarrow> db \<Rightarrow> uuid \<Rightarrow> uuid \<Rightarrow> uuid \<Rightarrow> (nat \<times> db) result" where
  "insert_snapshot new_id now d workspace_id entity_id job_id =
     (let source = select_where (\<lambda>e. en_workspace_id e = workspace_id \<and> en_id e = entity_id) (db_entities d) in
      if source \<noteq> [] \<and> new_id \<in> sn_id ` set (db_snapshots d) then Inl (Internal ''constraint'')
      else Inr (length source,
        d\<lparr>db_snapshots := db_snapshots d @ map (snapshot_of new_id now job_id) source\<rparr>))"

definition snapshot :: "uuid \<Rightarrow> instant \<Rightarrow> db \<Rightarrow> uuid \<Rightarrow> uuid \<Rightarrow> uuid \<Rightarrow> db result" where
  "snapshot new_id now d workspace_id entity_id job_id =
     rbind (insert_snapshot new_id now d workspace_id entity_id job_id) (\<lambda>(rows_affected, d').
       if rows_affected = 0 then Inl (NotFound ''entity {} was not found'') else Inr d')"

definition delete_snapshot :: "db \<Rightarrow> uuid \<Rightarrow> uuid \<Rightarrow> uuid \<Rightarrow> db" where
  "delete_snapshot d workspace_id entity_id job_id =
     d\<lparr>db_snapshots := delete_where (\<lambda>n. sn_workspace_id n = workspace_id \<and>
         sn_entity_id n = entity_id \<and> sn_job_id n = job_id) (db_snapshots d)\<rparr>"

definition restore :: "snapshot_row \<Rightarrow> string \<Rightarrow> instant \<Rightarrow> entity_row \<Rightarrow> entity_row" where
  "restore n token now e =
     e\<lparr>en_data := sn_data n, en_schema_id := sn_schema_id n, en_schema_version := sn_schema_version n,
       en_embedding_sync_token := token, en_updated_at := now\<rparr>"

definition undo_one :: "(uuid \<Rightarrow> string) \<Rightarrow> instant \<Rightarrow> snapshot_row \<Rightarrow> db \<times> nat \<times> nat \<Rightarrow> db \<times> nat \<times> nat" where
  "undo_one tokens now n s =
     (case s of (d, restored, missing) \<Rightarrow>
        if sn_entity_id n \<in> en_id ` set (db_entities d)
        then (d\<lparr>db_entities := update_where (\<lambda>e. en_id e = sn_entity_id n) (restore n (tokens (sn_entity_id n)) now)
                 (db_entities d)\<rparr>, restored + 1, missing)
        else (d, restored, missing + 1))"

definition job_snapshots :: "db \<Rightarrow> uuid \<Rightarrow> uuid \<Rightarrow> snapshot_row list" where
  "job_snapshots d workspace_id job_id =
     sort_key sn_created_at (sort_key sn_id
       (select_where (\<lambda>n. sn_workspace_id n = workspace_id \<and> sn_job_id n = job_id) (db_snapshots d)))"

definition undo_job :: "(uuid \<Rightarrow> string) \<Rightarrow> instant \<Rightarrow> db \<Rightarrow> uuid \<Rightarrow> uuid \<Rightarrow> ((nat \<times> nat) \<times> db) result" where
  "undo_job tokens now d workspace_id job_id =
     (let snapshots = job_snapshots d workspace_id job_id in
      if snapshots = [] then Inl (NotFound ''no snapshots for job {}'')
      else let (d', restored, missing) = fold (undo_one tokens now) snapshots (d, 0, 0)
           in Inr ((restored, missing), d'))"

section \<open>Filling defaults\<close>

text \<open>
  One iteration of the loop of \<open>fill_defaults\<close>: a snapshot, then the write.  The state is the
  database with the two counters; \<open>ids\<close> supplies the snapshot ids and \<open>tokens\<close> the new
  embedding-sync tokens.
\<close>

definition fill_one ::
  "(uuid \<Rightarrow> uuid) \<Rightarrow> (uuid \<Rightarrow> string) \<Rightarrow> instant \<Rightarrow> schema_row \<Rightarrow> uuid \<Rightarrow> uuid \<Rightarrow> uuid option \<Rightarrow> entity_row \<Rightarrow>
   db \<times> nat \<times> nat \<Rightarrow> (db \<times> nat \<times> nat) result" where
  "fill_one ids tokens now active workspace_id job_id updated_by record s =
     (case s of (d, updated, filled) \<Rightarrow>
      (case bt_get (md_entity_types (sc_definition active)) (en_entity_type record) of
         None \<Rightarrow> Inr s
       | Some et \<Rightarrow>
           (case snapshot (ids (en_id record)) now d workspace_id (en_id record) job_id of
              Inl e \<Rightarrow> (case e of NotFound _ \<Rightarrow> Inr s | _ \<Rightarrow> Inl e)
            | Inr d1 \<Rightarrow>
                (let (data, n) = fill_fields_in_value (en_data record) (et_fields et) in
                 if n > 0 \<and> en_id record \<in> en_id ` set (db_entities d1)
                 then Inr (d1\<lparr>db_entities := update_where (\<lambda>e. en_id e = en_id record)
                             (write_entity data updated_by (tokens (en_id record)) now) (db_entities d1)\<rparr>,
                           updated + 1, filled + n)
                 else Inr (d1, updated, filled)))))"

fun fill_rows ::
  "(uuid \<Rightarrow> uuid) \<Rightarrow> (uuid \<Rightarrow> string) \<Rightarrow> instant \<Rightarrow> schema_row \<Rightarrow> uuid \<Rightarrow> uuid \<Rightarrow> uuid option \<Rightarrow> entity_row list \<Rightarrow>
   db \<times> nat \<times> nat \<Rightarrow> (db \<times> nat \<times> nat) result" where
  "fill_rows ids tokens now active w job by [] s = Inr s"
| "fill_rows ids tokens now active w job by (r # rs) s =
     rbind (fill_one ids tokens now active w job by r s) (fill_rows ids tokens now active w job by rs)"

record fill_defaults_report =
  fr_schema_name :: string
  fr_job_id :: uuid
  fr_entities_updated :: nat
  fr_fields_filled :: nat

definition fill_defaults ::
  "(uuid \<Rightarrow> uuid) \<Rightarrow> (uuid \<Rightarrow> string) \<Rightarrow> instant \<Rightarrow> db \<Rightarrow> uuid \<Rightarrow> string \<Rightarrow> uuid \<Rightarrow> uuid option \<Rightarrow>
   (fill_defaults_report \<times> db) result" where
  "fill_defaults ids tokens now d workspace_id schema_name job_id updated_by =
     rbind (get_active_schema d workspace_id schema_name) (\<lambda>active.
     let rows = select_where (\<lambda>e. en_schema_id e \<noteq> sc_id active) (entities_of_schema d workspace_id schema_name)
     in if rows = []
        then Inr (\<lparr>fr_schema_name = schema_name, fr_job_id = job_id, fr_entities_updated = 0,
                   fr_fields_filled = 0\<rparr>, d)
        else rbind (fill_rows ids tokens now active workspace_id job_id updated_by rows (d, 0, 0))
          (\<lambda>(d', updated, filled).
             Inr (\<lparr>fr_schema_name = schema_name, fr_job_id = job_id, fr_entities_updated = updated,
                    fr_fields_filled = filled\<rparr>, d')))"

section \<open>What filling does\<close>

text \<open>A \<open>BTreeMap\<close> has strictly increasing keys, at every level of nested properties.\<close>

function fields_wf :: "fields \<Rightarrow> bool" where
  "fields_wf fs \<longleftrightarrow> bt_wf fs \<and>
     (\<forall>(k, f) \<in> set fs. case fd_properties f of None \<Rightarrow> True | Some ps \<Rightarrow> fields_wf ps)"
  by pat_completeness auto
termination
proof (relation "measure fields_size")
  fix fs :: fields and e k f ps
  assume "e \<in> set fs" "(k, f) = e" "fd_properties f = Some ps"
  then have "size f < fields_size fs" by (induction fs) (auto simp: less_Suc_eq_le trans_le_add2)
  then show "(ps, fs) \<in> measure fields_size"
    using fields_size_properties [OF \<open>fd_properties f = Some ps\<close>] by simp
qed simp

declare fields_wf.simps [simp del]

lemma fields_wf_Cons:
  "fields_wf (e # es) \<Longrightarrow> fields_wf es \<and> bt_get es (fst e) = None \<and>
     (\<forall>ps. fd_properties (snd e) = Some ps \<longrightarrow> fields_wf ps)"
  by (subst (asm) fields_wf.simps, subst fields_wf.simps)
    (auto simp: bt_wf_Cons bt_get_eq_None split: option.splits prod.splits)

text \<open>What happens to one field.\<close>

definition fill_entry :: "field_def \<Rightarrow> json option \<Rightarrow> json option" where
  "fill_entry f x = (case x of
       Some child \<Rightarrow> Some (case fd_properties f of
           None \<Rightarrow> child | Some ps \<Rightarrow> fst (fill_fields_in_value child ps))
     | None \<Rightarrow> if fd_required f then Some (fill_value f) else None)"

definition fill_step :: "json btree_map \<Rightarrow> string \<times> field_def \<Rightarrow> json btree_map \<times> nat" where
  "fill_step kvs e =
     (case bt_get kvs (fst e) of
        Some child \<Rightarrow> (case fd_properties (snd e) of
            None \<Rightarrow> (kvs, 0)
          | Some ps \<Rightarrow> (let (child', n) = fill_fields_in_value child ps
                        in (bt_insert (fst e) child' kvs, n)))
      | None \<Rightarrow> if fd_required (snd e) then (bt_insert (fst e) (fill_value (snd e)) kvs, 1)
               else (kvs, 0))"

lemma fill_loop_step:
  "fill_loop kvs (e # es) =
     (fst (fill_loop (fst (fill_step kvs e)) es), snd (fill_step kvs e) + snd (fill_loop (fst (fill_step kvs e)) es))"
  by (simp add: fill_step_def [symmetric] split_beta)

lemma fill_step_get:
  "bt_get (fst (fill_step kvs e)) k =
     (if k = fst e then fill_entry (snd e) (bt_get kvs k) else bt_get kvs k)"
  by (auto simp: fill_step_def fill_entry_def bt_get_insert split_beta split: option.split)

lemma fill_loop_get:
  "bt_wf fs \<Longrightarrow> bt_get (fst (fill_loop kvs fs)) k =
     (case bt_get fs k of None \<Rightarrow> bt_get kvs k | Some f \<Rightarrow> fill_entry f (bt_get kvs k))"
proof (induction fs arbitrary: kvs)
  case Nil
  then show ?case by simp
next
  case (Cons e es)
  have "bt_get es (fst e) = None" "bt_wf es"
    using Cons.prems by (auto simp: bt_wf_Cons bt_get_eq_None)
  then show ?case
    using Cons.IH [of "fst (fill_step kvs e)"]
    by (cases "k = fst e")
      (simp_all del: fill_loop.simps add: fill_loop_step fill_step_get split: option.split)
qed

definition missing_step :: "json btree_map \<Rightarrow> string \<times> field_def \<Rightarrow> string \<Rightarrow> drift_field list" where
  "missing_step kvs e parent =
     (let pointer = parent @ ''/'' @ escape_pointer_segment (fst e) in
      case bt_get kvs (fst e) of
        None \<Rightarrow> [\<lparr>df_name = (if parent = [] then fst e else pointer),
                 df_type = fd_type (snd e), df_required = fd_required (snd e)\<rparr>]
      | Some v \<Rightarrow> (case fd_properties (snd e) of
                     None \<Rightarrow> []
                   | Some ps \<Rightarrow> missing_fields_in_value v ps pointer))"

lemma missing_loop_step:
  "missing_loop kvs (e # es) p = missing_step kvs e p @ missing_loop kvs es p"
  by (simp add: missing_step_def)

lemma missing_loop_cong:
  "(\<And>k. k \<in> fst ` set fs \<Longrightarrow> bt_get kvs k = bt_get kvs' k) \<Longrightarrow>
     missing_loop kvs fs p = missing_loop kvs' fs p"
  by (induction fs) (auto split: option.splits)

text \<open>The count that filling returns is the number of required fields the drift report names.\<close>

lemma fill_count:
  "fields_wf fs \<Longrightarrow> snd (fill_fields_in_value v fs) = length (filter df_required (missing_fields_in_value v fs p))"
proof (induction "fields_size fs" arbitrary: v fs p rule: less_induct)
  case less
  have step: "snd (fill_step kvs e) = length (filter df_required (missing_step kvs e p))"
    if "e \<in> set fs" for kvs e
  proof -
    have sub: "fields_wf ps \<and> fields_size ps < fields_size fs" if ps: "fd_properties (snd e) = Some ps" for ps
    proof -
      have "size (snd e) < fields_size fs"
        using \<open>e \<in> set fs\<close> by (induction fs) (auto simp: less_Suc_eq_le trans_le_add2)
      moreover have "fields_wf ps"
        using less.prems that ps by (auto simp: fields_wf.simps [of fs] \<open>e \<in> set fs\<close> split: option.splits
            dest!: bspec [OF _ \<open>e \<in> set fs\<close>])
      ultimately show ?thesis using fields_size_properties [OF ps] by simp
    qed
    then show ?thesis
      using less.hyps
      by (cases "fd_properties (snd e)")
        (auto simp: fill_step_def missing_step_def Let_def split_beta split: option.split)
  qed
  have loop: "snd (fill_loop kvs gs) = length (filter df_required (missing_loop kvs gs p))"
    if "set gs \<subseteq> set fs" "bt_wf gs" for kvs gs
    using that
  proof (induction gs arbitrary: kvs)
    case Nil
    then show ?case by simp
  next
    case (Cons e es)
    have "missing_loop (fst (fill_step kvs e)) es p = missing_loop kvs es p"
      using Cons.prems by (intro missing_loop_cong) (auto simp: fill_step_get bt_wf_Cons)
    then show ?case
      using Cons.IH [of "fst (fill_step kvs e)"] Cons.prems step [of e kvs]
      by (simp add: fill_loop_step missing_loop_step bt_wf_Cons del: fill_loop.simps missing_loop.simps)
  qed
  have "bt_wf fs" using less.prems by (simp add: fields_wf.simps [of fs])
  then show ?case
    using loop [of fs]
    by (cases v) (simp_all add: fill_fields_in_value.simps missing_fields_in_value.simps split_beta)
qed

section \<open>Filling and undoing\<close>

text \<open>What a snapshot keeps of an entity, and the part of an entity that no job touches.\<close>

definition content :: "entity_row \<Rightarrow> uuid \<times> int \<times> json" where
  "content e = (en_schema_id e, en_schema_version e, en_data e)"

definition frame :: "entity_row \<Rightarrow> uuid \<times> uuid \<times> string \<times> uuid option \<times> instant" where
  "frame e = (en_id e, en_workspace_id e, en_entity_type e, en_created_by e, en_created_at e)"

definition image_of :: "snapshot_row \<Rightarrow> entity_row \<Rightarrow> bool" where
  "image_of n e \<longleftrightarrow> sn_entity_id n = en_id e \<and> sn_schema_id n = en_schema_id e \<and>
     sn_schema_version n = en_schema_version e \<and> sn_data n = en_data e"

text \<open>
  \<open>tracked d w job S d'\<close>: \<open>d'\<close> came from \<open>d\<close> by adding the snapshots \<open>S\<close> of a job and changing the data
  of entities that have one of them, and each of them is an image of the entity as \<open>d\<close> had it.
\<close>

definition tracked :: "db \<Rightarrow> uuid \<Rightarrow> uuid \<Rightarrow> snapshot_row list \<Rightarrow> db \<Rightarrow> bool" where
  "tracked d w job S d' \<longleftrightarrow>
     db_schemas d' = db_schemas d \<and> db_workspaces d' = db_workspaces d \<and>
     db_snapshots d' = db_snapshots d @ S \<and>
     list_all2 (\<lambda>e e'. frame e' = frame e \<and>
        (content e' = content e \<or> en_id e \<in> sn_entity_id ` set S)) (db_entities d) (db_entities d') \<and>
     (\<forall>n \<in> set S. sn_job_id n = job \<and> sn_workspace_id n = w \<and>
        (\<exists>e \<in> set (db_entities d). image_of n e))"

lemma tracked_refl: "tracked d w job [] d"
  by (simp add: tracked_def list_all2_same)

lemma tracked_ids: "tracked d w job S d' \<Longrightarrow> map en_id (db_entities d') = map en_id (db_entities d)"
  by (auto simp: tracked_def list_all2_conv_all_nth frame_def intro!: nth_equalityI)

lemma tracked_current:
  assumes "tracked d w job S d'" and "distinct (map en_id (db_entities d))"
    and "r \<in> set (db_entities d)" and "e' \<in> set (db_entities d')" and "en_id e' = en_id r"
  shows "frame e' = frame r \<and> (content e' = content r \<or> en_id r \<in> sn_entity_id ` set S)"
proof -
  obtain k where k: "k < length (db_entities d')" "db_entities d' ! k = e'"
    using assms(4) by (auto simp: in_set_conv_nth)
  have all: "list_all2 (\<lambda>e e'. frame e' = frame e \<and>
      (content e' = content e \<or> en_id e \<in> sn_entity_id ` set S)) (db_entities d) (db_entities d')"
    using assms(1) by (simp add: tracked_def)
  have here: "frame e' = frame (db_entities d ! k) \<and>
      (content e' = content (db_entities d ! k) \<or> en_id (db_entities d ! k) \<in> sn_entity_id ` set S)"
    and len: "k < length (db_entities d)"
    using list_all2_nthD [OF all] list_all2_lengthD [OF all] k by auto
  then have "en_id (db_entities d ! k) = en_id r" using assms(5) by (simp add: frame_def)
  then have "db_entities d ! k = r"
    using distinct_key_unique [OF assms(2) _ assms(3)] len by simp
  with here show ?thesis by simp
qed

lemma tracked_snapshot:
  assumes "tracked d w job S d'" and "distinct (map en_id (db_entities d))"
    and r: "r \<in> set (db_entities d)" "en_id r \<notin> sn_entity_id ` set S"
    and snap: "snapshot i now d' w (en_id r) job = Inr d1"
  shows "tracked d w job (S @ [snapshot_of i now job r]) d1 \<and> en_workspace_id r = w \<and>
    db_entities d1 = db_entities d'"
proof -
  let ?src = "filter (\<lambda>e. en_workspace_id e = w \<and> en_id e = en_id r) (db_entities d')"
  have ne: "?src \<noteq> []" and d1: "d1 = d'\<lparr>db_snapshots := db_snapshots d' @ map (snapshot_of i now job) ?src\<rparr>"
    using snap by (auto simp: snapshot_def insert_snapshot_def select_where_def Let_def res_simps
        split: if_splits)
  have "distinct (map en_id ?src)"
    using assms(2) tracked_ids [OF assms(1)] by (simp add: distinct_map_filter)
  then have "length ?src \<le> 1" by (rule distinct_key_const [where k = "en_id r"]) auto
  with ne obtain e' where src: "?src = [e']"
    by (cases ?src) auto
  then have "e' \<in> set ?src" by (simp only: list.set_intros)
  then have e': "e' \<in> set (db_entities d')" "en_id e' = en_id r" "en_workspace_id e' = w"
    by auto
  have cur: "frame e' = frame r" "content e' = content r"
    using tracked_current [OF assms(1,2) r(1) e'(1,2)] r(2) by auto
  have "snapshot_of i now job e' = snapshot_of i now job r"
    using cur by (simp add: snapshot_of_def frame_def content_def)
  then have d1': "d1 = d'\<lparr>db_snapshots := db_snapshots d' @ [snapshot_of i now job r]\<rparr>"
    by (simp add: d1 src)
  have ws: "en_workspace_id r = w" using cur e' by (simp add: frame_def)
  have "image_of (snapshot_of i now job r) r" by (simp add: image_of_def snapshot_of_def)
  then show ?thesis
    using assms(1) r(1) ws unfolding tracked_def
    by (auto simp: d1' snapshot_of_def elim!: list_all2_mono)
qed

lemma tracked_write:
  assumes "tracked d w job S d'" and "en_id r \<in> sn_entity_id ` set S" and "\<And>e. frame (change e) = frame e"
  shows "tracked d w job S (d'\<lparr>db_entities := update_where (\<lambda>e. en_id e = en_id r)
     change (db_entities d')\<rparr>)"
proof -
  have "list_all2 (\<lambda>e e'. frame e' = frame e \<and> (content e' = content e \<or> en_id e \<in> sn_entity_id ` set S))
      (db_entities d) (update_where (\<lambda>e. en_id e = en_id r) change (db_entities d'))"
    unfolding update_where_def list_all2_map2
  proof (rule list_all2_mono)
    show "list_all2 (\<lambda>e e'. frame e' = frame e \<and> (content e' = content e \<or> en_id e \<in> sn_entity_id ` set S))
        (db_entities d) (db_entities d')"
      using assms(1) by (simp add: tracked_def)
    show "frame (if en_id e' = en_id r then change e' else e') = frame e \<and>
        (content (if en_id e' = en_id r then change e' else e') = content e \<or>
         en_id e \<in> sn_entity_id ` set S)"
      if "frame e' = frame e \<and> (content e' = content e \<or> en_id e \<in> sn_entity_id ` set S)" for e e'
      using that assms(2,3) by (simp add: frame_def)
  qed
  then show ?thesis using assms(1) by (simp add: tracked_def)
qed

lemma frame_write: "frame (write_entity data user token now e) = frame e"
  by (simp add: frame_def write_entity_def)

lemma fill_one_tracked:
  assumes "tracked d w job S d1" and "distinct (map en_id (db_entities d))"
    and "r \<in> set (db_entities d)" "en_id r \<notin> sn_entity_id ` set S" "en_workspace_id r = w"
    and "fill_one ids tokens now active w job user r (d1, u, f) = Inr (d2, u', f')"
  shows "\<exists>S'. tracked d w job S' d2 \<and> sn_entity_id ` set S' \<subseteq> insert (en_id r) (sn_entity_id ` set S)"
proof (cases "bt_get (md_entity_types (sc_definition active)) (en_entity_type r)")
  case None
  then have "d2 = d1" using assms(6) by (simp add: fill_one_def)
  then show ?thesis using assms(1) by blast
next
  case (Some et)
  show ?thesis
  proof (cases "snapshot (ids (en_id r)) now d1 w (en_id r) job")
    case (Inl e)
    then have "d2 = d1" using assms(6) Some by (simp add: fill_one_def split: yorishiro_error.splits)
    then show ?thesis using assms(1) by blast
  next
    case (Inr d1')
    let ?S = "S @ [snapshot_of (ids (en_id r)) now job r]"
    have t: "tracked d w job ?S d1'"
      using tracked_snapshot [OF assms(1-4) Inr] by simp
    have mem: "en_id r \<in> sn_entity_id ` set ?S" by (simp add: snapshot_of_def)
    have "tracked d w job ?S d2"
      using assms(6) Some Inr t tracked_write [OF t mem frame_write]
      by (auto simp: fill_one_def split_beta split: if_splits)
    then show ?thesis by (intro exI [of _ ?S]) (auto simp: snapshot_of_def)
  qed
qed

lemma rows_apart:
  assumes "sn_entity_id ` set S' \<subseteq> insert (en_id r) (sn_entity_id ` set S)"
    and "distinct (map en_id (r # rs))"
    and "\<forall>x \<in> set (r # rs). en_id x \<notin> sn_entity_id ` set S \<and> en_workspace_id x = w"
  shows "\<forall>x \<in> set rs. en_id x \<notin> sn_entity_id ` set S' \<and> en_workspace_id x = w"
proof
  fix x
  assume x: "x \<in> set rs"
  then have "en_id x \<noteq> en_id r" using assms(2) by (auto simp: image_iff)
  moreover have "en_id x \<notin> sn_entity_id ` set S" "en_workspace_id x = w" using assms(3) x by auto
  ultimately show "en_id x \<notin> sn_entity_id ` set S' \<and> en_workspace_id x = w" using assms(1) by blast
qed

lemma fill_rows_tracked:
  assumes "tracked d w job S d1" and "distinct (map en_id (db_entities d))"
    and "set rs \<subseteq> set (db_entities d)" and "distinct (map en_id rs)"
    and "\<forall>r \<in> set rs. en_id r \<notin> sn_entity_id ` set S \<and> en_workspace_id r = w"
    and "fill_rows ids tokens now active w job user rs (d1, u, f) = Inr (d2, u', f')"
  shows "\<exists>S'. tracked d w job S' d2"
  using assms
proof (induction rs arbitrary: S d1 u f)
  case Nil
  then show ?case by auto
next
  case (Cons r rs)
  then obtain d1' u1 f1 where one: "fill_one ids tokens now active w job user r (d1, u, f) = Inr (d1', u1, f1)"
    and rest: "fill_rows ids tokens now active w job user rs (d1', u1, f1) = Inr (d2, u', f')"
    by (auto simp: res_simps)
  obtain S' where S': "tracked d w job S' d1'" "sn_entity_id ` set S' \<subseteq> insert (en_id r) (sn_entity_id ` set S)"
    using fill_one_tracked [OF Cons.prems(1,2) _ _ _ one] Cons.prems by auto
  from rows_apart [OF S'(2) Cons.prems(4,5)]
  show ?case
    using Cons.IH [OF S'(1) Cons.prems(2) _ _ _ rest] Cons.prems by auto
qed

text \<open>Undoing, in any order, the snapshots a job took restores the entities they are images of.\<close>

definition pending_restore :: "db \<Rightarrow> snapshot_row list \<Rightarrow> db \<Rightarrow> bool" where
  "pending_restore d S d' \<longleftrightarrow>
     list_all2 (\<lambda>e e'. frame e' = frame e \<and>
        (content e' = content e \<or> en_id e \<in> sn_entity_id ` set S)) (db_entities d) (db_entities d')"

lemma undo_one_restores:
  assumes "pending_restore d (n # S) d1" and "distinct (map en_id (db_entities d))"
    and "e \<in> set (db_entities d)" "image_of n e"
  shows "\<exists>d2. undo_one tokens now n (d1, a, b) = (d2, a + 1, b) \<and> pending_restore d S d2"
proof -
  have ids: "map en_id (db_entities d1) = map en_id (db_entities d)"
    using assms(1) by (auto simp: pending_restore_def list_all2_conv_all_nth frame_def intro!: nth_equalityI)
  have present: "sn_entity_id n \<in> en_id ` set (db_entities d1)"
    using assms(3,4) arg_cong [OF ids, of set] by (auto simp: image_of_def)
  have "list_all2 (\<lambda>x x'. frame x' = frame x \<and> (content x' = content x \<or> en_id x \<in> sn_entity_id ` set S))
     (db_entities d) (update_where (\<lambda>x. en_id x = sn_entity_id n) (restore n t now) (db_entities d1))" for t
    unfolding update_where_def list_all2_map2
  proof (rule list.rel_mono_strong)
    show "list_all2 (\<lambda>x x'. frame x' = frame x \<and> (content x' = content x \<or> en_id x \<in> sn_entity_id ` set (n # S)))
       (db_entities d) (db_entities d1)"
      using assms(1) by (simp add: pending_restore_def)
    fix x x'
    assume x: "x \<in> set (db_entities d)"
      and rel: "frame x' = frame x \<and> (content x' = content x \<or> en_id x \<in> sn_entity_id ` set (n # S))"
    have "en_id x = sn_entity_id n \<Longrightarrow> x = e"
      using distinct_key_unique [OF assms(2) x assms(3)] assms(4) by (simp add: image_of_def)
    then show "frame (if en_id x' = sn_entity_id n then restore n t now x' else x') = frame x \<and>
        (content (if en_id x' = sn_entity_id n then restore n t now x' else x') = content x \<or>
         en_id x \<in> sn_entity_id ` set S)"
      using rel assms(4) by (auto simp: frame_def content_def restore_def image_of_def)
  qed
  then show ?thesis using present by (simp add: undo_one_def pending_restore_def)
qed

lemma undo_fold_restores:
  assumes "pending_restore d S d1" and "distinct (map en_id (db_entities d))"
    and "\<forall>n \<in> set S. \<exists>e \<in> set (db_entities d). image_of n e"
  shows "\<exists>d2. fold (undo_one tokens now) S (d1, a, b) = (d2, a + length S, b) \<and> pending_restore d [] d2"
  using assms
proof (induction S arbitrary: d1 a)
  case Nil
  then show ?case by simp
next
  case (Cons n S)
  then obtain e where e: "e \<in> set (db_entities d)" "image_of n e" by auto
  obtain d1' where one: "undo_one tokens now n (d1, a, b) = (d1', a + 1, b)" "pending_restore d S d1'"
    using undo_one_restores [OF Cons.prems(1,2) e] by blast
  have "\<exists>d2. fold (undo_one tokens now) S (d1', a + 1, b) = (d2, a + 1 + length S, b) \<and> pending_restore d [] d2"
    by (rule Cons.IH [OF one(2) Cons.prems(2)]) (use Cons.prems(3) in auto)
  then show ?case using one(1) by simp
qed

section \<open>The dry run predicts the fill\<close>

lemma dry_run_counts:
  "dc_total (foldl (dry_run_row active) c rows) = dc_total c + length rows \<and>
   dc_current (foldl (dry_run_row active) c rows)
     = dc_current c + length (filter (\<lambda>r. en_schema_id r = sc_id active) rows) \<and>
   dc_behind_valid (foldl (dry_run_row active) c rows)
     = dc_behind_valid c + length (filter (\<lambda>r. en_schema_id r \<noteq> sc_id active \<and> missing_required active r = []) rows) \<and>
   dc_needs_values (foldl (dry_run_row active) c rows)
     = dc_needs_values c + length (filter (\<lambda>r. en_schema_id r \<noteq> sc_id active \<and> missing_required active r \<noteq> []) rows)"
proof (induction rows arbitrary: c)
  case Nil
  then show ?case by simp
next
  case (Cons r rs)
  then show ?case by (simp add: dry_run_row_def Let_def)
qed

lemma length_filter_sort: "length (filter P (sort_key f xs)) = length (filter P xs)"
  by (simp add: filter_sort)

lemma fill_one_counts:
  assumes "tracked d w job S d1" and "distinct (map en_id (db_entities d))"
    and r: "r \<in> set (db_entities d)" "en_id r \<notin> sn_entity_id ` set S" "en_workspace_id r = w"
    and wf: "\<And>t et. bt_get (md_entity_types (sc_definition active)) t = Some et \<Longrightarrow> fields_wf (et_fields et)"
    and one: "fill_one ids tokens now active w job user r (d1, u, f) = Inr (d2, u', f')"
  shows "u' = u + (if missing_required active r = [] then 0 else 1) \<and>
    f' = f + length (missing_required active r)"
proof (cases "bt_get (md_entity_types (sc_definition active)) (en_entity_type r)")
  case None
  then show ?thesis using one by (simp add: fill_one_def missing_required_def)
next
  case (Some et)
  have count: "snd (fill_fields_in_value (en_data r) (et_fields et)) = length (missing_required active r)"
    using fill_count [OF wf [OF Some]] by (simp add: missing_required_def Some)
  have ids: "en_id ` set (db_entities d1) = en_id ` set (db_entities d)"
    using arg_cong [OF tracked_ids [OF assms(1)], of set] by simp
  obtain e' where e': "e' \<in> set (db_entities d1)" "en_id e' = en_id r"
    using ids r(1) by (metis imageE imageI)
  then have "en_workspace_id e' = w"
    using tracked_current [OF assms(1,2) r(1) e'] r(3) by (simp add: frame_def)
  then have src: "filter (\<lambda>e. en_workspace_id e = w \<and> en_id e = en_id r) (db_entities d1) \<noteq> []"
    using e' by (auto simp: filter_empty_conv)
  show ?thesis
  proof (cases "snapshot (ids (en_id r)) now d1 w (en_id r) job")
    case (Inl e)
    then have "e = Internal ''constraint''"
      using src by (auto simp: snapshot_def insert_snapshot_def select_where_def rbind_Inl_iff Let_def
          split: if_splits)
    then show ?thesis using one Some Inl by (simp add: fill_one_def)
  next
    case (Inr d1')
    then have "db_entities d1' = db_entities d1"
      using tracked_snapshot [OF assms(1,2) r(1,2) Inr] by simp
    then have "en_id r \<in> en_id ` set (db_entities d1')" using ids r(1) by simp
    then show ?thesis
      using one Some Inr count by (auto simp: fill_one_def split_beta split: if_splits)
  qed
qed

lemma fill_rows_counts:
  assumes "tracked d w job S d1" and "distinct (map en_id (db_entities d))"
    and "set rs \<subseteq> set (db_entities d)" and "distinct (map en_id rs)"
    and "\<forall>r \<in> set rs. en_id r \<notin> sn_entity_id ` set S \<and> en_workspace_id r = w"
    and wf: "\<And>t et. bt_get (md_entity_types (sc_definition active)) t = Some et \<Longrightarrow> fields_wf (et_fields et)"
    and "fill_rows ids tokens now active w job user rs (d1, u, f) = Inr (d2, u', f')"
  shows "u' = u + length (filter (\<lambda>r. missing_required active r \<noteq> []) rs) \<and>
    f' = f + sum_list (map (\<lambda>r. length (missing_required active r)) rs)"
  using assms(1-5,7)
proof (induction rs arbitrary: S d1 u f)
  case Nil
  then show ?case by simp
next
  case (Cons r rs)
  then obtain d1' u1 f1 where one: "fill_one ids tokens now active w job user r (d1, u, f) = Inr (d1', u1, f1)"
    and rest: "fill_rows ids tokens now active w job user rs (d1', u1, f1) = Inr (d2, u', f')"
    by (auto simp: res_simps)
  have r: "r \<in> set (db_entities d)" "en_id r \<notin> sn_entity_id ` set S" "en_workspace_id r = w"
    using Cons.prems by auto
  obtain S' where S': "tracked d w job S' d1'" "sn_entity_id ` set S' \<subseteq> insert (en_id r) (sn_entity_id ` set S)"
    using fill_one_tracked [OF Cons.prems(1,2) r one] by blast
  have apart: "\<forall>x \<in> set rs. en_id x \<notin> sn_entity_id ` set S' \<and> en_workspace_id x = w"
    by (rule rows_apart [OF S'(2) Cons.prems(4,5)])
  show ?case
    using Cons.IH [OF S'(1) Cons.prems(2) _ _ apart rest] Cons.prems(3,4)
      fill_one_counts [OF Cons.prems(1,2) r wf one] by auto
qed

lemma fill_defaults_Inr:
  assumes ids: "distinct (map en_id (db_entities d))"
    and fill: "fill_defaults ids tokens now d w name job user = Inr (rep, d')"
  obtains active S where "get_active_schema d w name = Inr active" "tracked d w job S d'"
    "(\<And>t et. bt_get (md_entity_types (sc_definition active)) t = Some et \<Longrightarrow> fields_wf (et_fields et)) \<Longrightarrow>
      fr_entities_updated rep = length (filter (\<lambda>r. missing_required active r \<noteq> [])
        (select_where (\<lambda>e. en_schema_id e \<noteq> sc_id active) (entities_of_schema d w name)))"
proof -
  obtain active where active: "get_active_schema d w name = Inr active"
    using fill by (auto simp: fill_defaults_def res_simps)
  let ?rows = "select_where (\<lambda>e. en_schema_id e \<noteq> sc_id active) (entities_of_schema d w name)"
  have rows: "set ?rows \<subseteq> set (db_entities d)" "distinct (map en_id ?rows)"
    "\<forall>r \<in> set ?rows. en_id r \<notin> sn_entity_id ` set [] \<and> en_workspace_id r = w"
    using ids by (auto simp: entities_of_schema_def table_simps)
      (simp add: select_where_def distinct_map_filter)
  show ?thesis
  proof (cases "?rows = []")
    case True
    then have "d' = d" "fr_entities_updated rep = 0"
      using fill active by (auto simp: fill_defaults_def)
    then show ?thesis using that [OF active, of "[]"] True tracked_refl by simp
  next
    case False
    then obtain u f where run: "fill_rows ids tokens now active w job user ?rows (d, 0, 0) = Inr (d', u, f)"
      and rep: "fr_entities_updated rep = u"
      using fill active by (auto simp: fill_defaults_def res_simps)
    obtain S where "tracked d w job S d'"
      using fill_rows_tracked [OF tracked_refl ids rows run] by blast
    then show ?thesis
      using that [OF active] fill_rows_counts [OF tracked_refl ids rows _ run] rep by auto
  qed
qed

section \<open>Validity of stored data\<close>

text \<open>Data is valid for the schema version it names, in the workspace it belongs to.\<close>

definition valid_for :: "schema_validator \<Rightarrow> db \<Rightarrow> uuid \<Rightarrow> uuid \<Rightarrow> int \<Rightarrow> string \<Rightarrow> json \<Rightarrow> bool" where
  "valid_for errors_of d w i version t data \<longleftrightarrow>
     (\<exists>s \<in> set (db_schemas d). sc_id s = i \<and> sc_workspace_id s = w \<and> sc_version s = version \<and>
        (\<exists>et. resolve_entity_type (sc_definition s) t = Inr et \<and> validate_data errors_of et data = Inr ()))"

definition image_valid :: "schema_validator \<Rightarrow> db \<Rightarrow> snapshot_row \<Rightarrow> uuid \<Rightarrow> string \<Rightarrow> bool" where
  "image_valid errors_of d n w t \<longleftrightarrow> sn_workspace_id n = w \<and>
     valid_for errors_of d w (sn_schema_id n) (sn_schema_version n) t (sn_data n)"

definition entity_inv :: "schema_validator \<Rightarrow> db \<Rightarrow> bool" where
  "entity_inv errors_of d \<longleftrightarrow>
     schema_inv d \<and> distinct (map en_id (db_entities d)) \<and>
     (\<forall>e \<in> set (db_entities d). valid_for errors_of d (en_workspace_id e) (en_schema_id e)
        (en_schema_version e) (en_entity_type e) (en_data e)) \<and>
     (\<forall>n \<in> set (db_snapshots d). \<forall>e \<in> set (db_entities d). sn_entity_id n = en_id e \<longrightarrow>
        image_valid errors_of d n (en_workspace_id e) (en_entity_type e))"

lemma valid_for_schemas:
  "db_schemas d' = db_schemas d \<Longrightarrow> valid_for errors_of d' = valid_for errors_of d"
  "db_schemas d' = db_schemas d \<Longrightarrow> image_valid errors_of d' = image_valid errors_of d"
  by (simp_all add: valid_for_def image_valid_def fun_eq_iff)

lemma valid_for_owned: "valid_for errors_of d w i v t data \<Longrightarrow> owned_schema d w i"
  by (auto simp: valid_for_def owned_schema_def)

text \<open>A schema row keeps its definition and number as long as it exists.\<close>

lemma schema_step_keeps:
  assumes "schema_step d d'" and "schema_inv d" and "s \<in> set (db_schemas d)"
    and "owned_schema d' (sc_workspace_id s) (sc_id s)"
  shows "\<exists>s' \<in> set (db_schemas d'). sc_id s' = sc_id s \<and> sc_workspace_id s' = sc_workspace_id s \<and>
    sc_version s' = sc_version s \<and> sc_definition s' = sc_definition s"
proof -
  have upd: "\<exists>s' \<in> set (update_where p f (db_schemas d)). sc_id s' = sc_id s \<and>
      sc_workspace_id s' = sc_workspace_id s \<and> sc_version s' = sc_version s \<and> sc_definition s' = sc_definition s"
    if "\<And>s. sc_id (f s) = sc_id s \<and> sc_workspace_id (f s) = sc_workspace_id s \<and> sc_version (f s) = sc_version s \<and>
      sc_definition (f s) = sc_definition s" for p f
    using that assms(3) by (intro bexI [of _ "if p s then f s else s"]) (auto simp: table_simps)
  from assms(1) show ?thesis
  proof cases
    case (create p i now t w def tmpl snap r)
    obtain row dd where r: "r = (row, dd)" by (cases r)
    note c = create_schema_Inr [OF create(1) [unfolded r]]
    show ?thesis
      using upd [of "retire now" "\<lambda>s. sc_workspace_id s = w \<and> sc_name s = md_name def \<and> sc_status s = SchemaActive"]
      unfolding c(8) by auto
  next
    case (archive now w i r)
    then show ?thesis
      using upd [of "retire now"] by (auto simp: archive_def Let_def res_simps)
  next
    case (delete b w i)
    then show ?thesis
      using assms(3,4) by (auto simp: owned_schema_def table_simps elim!: delete_schema_Inr)
  next
    case (notify tmpl)
    then show ?thesis
      using upd [of "\<lambda>s. s\<lparr>sc_origin_updated_at := None\<rparr>"] by (simp add: notify_upstream_change_def Let_def)
  next
    case (drop_workspace restricts w)
    then have "db_schemas d' = delete_where (\<lambda>s. sc_workspace_id s = w) (db_schemas d)"
      by (auto simp: delete_workspace_def Let_def res_simps split: if_splits)
    then show ?thesis using assms(3,4) by (auto simp: owned_schema_def table_simps)
  qed
qed

lemma schema_step_subset:
  assumes "schema_step d d'"
  shows "set (db_entities d') \<subseteq> set (db_entities d)" and "set (db_snapshots d') \<subseteq> set (db_snapshots d)"
    and "distinct (map en_id (db_entities d)) \<Longrightarrow> distinct (map en_id (db_entities d'))"
proof -
  have "\<exists>p q. db_entities d' = delete_where p (db_entities d) \<and> db_snapshots d' = delete_where q (db_snapshots d)"
    using assms
  proof cases
    case (create p i now t w def tmpl snap r)
    obtain row dd where r: "r = (row, dd)" by (cases r)
    note c = create_schema_Inr [OF create(1) [unfolded r]]
    show ?thesis
      by (intro exI [of _ "\<lambda>_. False"]) (simp add: c(13,14) delete_where_def)
  next
    case (drop_workspace restricts w)
    then show ?thesis
      by (intro exI [of _ "\<lambda>e. en_workspace_id e = w"] exI [of _ "\<lambda>n. sn_workspace_id n = w"])
        (auto simp: delete_workspace_def Let_def res_simps split: if_splits)
  qed (intro exI [of _ "\<lambda>_. False"],
       auto simp: delete_where_def archive_def notify_upstream_change_def Let_def res_simps
         elim!: delete_schema_Inr)+
  then show "set (db_entities d') \<subseteq> set (db_entities d)" "set (db_snapshots d') \<subseteq> set (db_snapshots d)"
    "distinct (map en_id (db_entities d)) \<Longrightarrow> distinct (map en_id (db_entities d'))"
    by (auto simp: table_simps distinct_key_delete)
qed

lemma valid_for_step:
  assumes "schema_step d d'" and "schema_inv d" and "valid_for errors_of d w i v t data"
    and "owned_schema d' w i"
  shows "valid_for errors_of d' w i v t data"
proof -
  obtain s where s: "s \<in> set (db_schemas d)" "sc_id s = i" "sc_workspace_id s = w" "sc_version s = v"
    "\<exists>et. resolve_entity_type (sc_definition s) t = Inr et \<and> validate_data errors_of et data = Inr ()"
    using assms(3) by (auto simp: valid_for_def)
  then have "owned_schema d' (sc_workspace_id s) (sc_id s)" using assms(4) by simp
  from schema_step_keeps [OF assms(1,2) s(1) this] show ?thesis
    using s unfolding valid_for_def by metis
qed

lemma entity_inv_schema_step:
  assumes step: "schema_step d d'" and inv: "entity_inv errors_of d"
  shows "entity_inv errors_of d'"
proof -
  have sinv: "schema_inv d" and sinv': "schema_inv d'"
    using inv schema_step_inv [OF step] by (auto simp: entity_inv_def)
  note sub = schema_step_subset [OF step]
  have "valid_for errors_of d' (en_workspace_id e) (en_schema_id e) (en_schema_version e) (en_entity_type e) (en_data e)"
    if "e \<in> set (db_entities d')" for e
    using valid_for_step [OF step sinv] that sub(1) inv sinv'
    by (auto simp: entity_inv_def schema_inv_def refs_ok_def)
  moreover have "image_valid errors_of d' n (en_workspace_id e) (en_entity_type e)"
    if "n \<in> set (db_snapshots d')" "e \<in> set (db_entities d')" "sn_entity_id n = en_id e" for n e
  proof -
    have "owned_schema d' (sn_workspace_id n) (sn_schema_id n)"
      using sinv' that(1) by (simp add: schema_inv_def refs_ok_def)
    moreover have "n \<in> set (db_snapshots d)" "e \<in> set (db_entities d)" using that sub by auto
    ultimately have "image_valid errors_of d n (en_workspace_id e) (en_entity_type e)"
      "owned_schema d' (sn_workspace_id n) (sn_schema_id n)"
      using inv that(3) by (simp_all add: entity_inv_def)
    then show ?thesis
      using valid_for_step [OF step sinv] by (auto simp: image_valid_def)
  qed
  moreover have "distinct (map en_id (db_entities d'))"
    using sub(3) inv by (simp add: entity_inv_def)
  ultimately show ?thesis
    using sinv' unfolding entity_inv_def by blast
qed

text \<open>
  The interface of a statement that rewrites entities in place: it keeps an entity's identity,
  workspace and type.  When it writes data valid for the version it records, it keeps the invariant.
\<close>

locale entity_preserving = key_preserving en_id change for change :: "entity_row \<Rightarrow> entity_row" +
  assumes workspace_change: "en_workspace_id (change e) = en_workspace_id e"
    and type_change: "en_entity_type (change e) = en_entity_type e"
begin

lemma inv_update:
  assumes inv: "entity_inv errors_of d"
    and valid: "\<And>e. e \<in> set (db_entities d) \<Longrightarrow> p e \<Longrightarrow>
      valid_for errors_of d (en_workspace_id e) (en_schema_id (change e)) (en_schema_version (change e))
        (en_entity_type e) (en_data (change e))"
  shows "entity_inv errors_of (d\<lparr>db_entities := update_where p change (db_entities d)\<rparr>)"
    (is "entity_inv errors_of ?d'")
proof -
  have vf: "valid_for errors_of ?d' = valid_for errors_of d" "image_valid errors_of ?d' = image_valid errors_of d"
    by (rule valid_for_schemas; simp)+
  have all: "valid_for errors_of d (en_workspace_id e) (en_schema_id e) (en_schema_version e) (en_entity_type e) (en_data e)"
    if "e \<in> set (update_where p change (db_entities d))" for e
    using that inv valid by (auto simp: table_simps entity_inv_def workspace_change type_change)
  then have "\<forall>e \<in> set (update_where p change (db_entities d)). owned_schema d (en_workspace_id e) (en_schema_id e)"
    using valid_for_owned by blast
  then have "schema_inv ?d'"
    using inv by (simp add: entity_inv_def schema_inv_def refs_ok_def owned_schema_def)
  moreover have "\<forall>n \<in> set (db_snapshots d). \<forall>e \<in> set (update_where p change (db_entities d)).
      sn_entity_id n = en_id e \<longrightarrow> image_valid errors_of d n (en_workspace_id e) (en_entity_type e)"
    using inv by (auto simp: table_simps entity_inv_def key_change workspace_change type_change)
  ultimately show ?thesis
    using all inv unfolding entity_inv_def vf by (simp add: keys_update_where)
qed

end

interpretation writing: entity_preserving "write_entity data user token now" for data user token now
  by unfold_locales (simp_all add: write_entity_def)

interpretation restoring: entity_preserving "restore n token now" for n token now
  by unfold_locales (simp_all add: restore_def)

lemma create_entity_inv:
  assumes inv: "entity_inv errors_of d" and fresh: "\<forall>n \<in> set (db_snapshots d). sn_entity_id n \<noteq> i"
    and create: "create_with_quota errors_of i token now d w input user quota = Inr (row, d')"
  shows "entity_inv errors_of d' \<and> db_entities d' = db_entities d @ [row] \<and> en_workspace_id row = w"
proof -
  obtain s et where s: "get_active_schema d w (ci_schema_name input) = Inr s"
    and et: "resolve_entity_type (sc_definition s) (ci_entity_type input) = Inr et"
    and ok: "validate_data errors_of et (ci_data input) = Inr ()"
    and ins: "insert_entity d row = Inr d'"
    and row: "en_id row = i" "en_workspace_id row = w" "en_schema_id row = sc_id s"
      "en_schema_version row = sc_version s" "en_entity_type row = ci_entity_type input" "en_data row = ci_data input"
    using create by (auto simp: create_with_quota_def Let_def res_simps split: if_splits)
  have sinv: "schema_inv d" using inv by (simp add: entity_inv_def)
  have d': "d' = d\<lparr>db_entities := db_entities d @ [row]\<rparr>" and new: "i \<notin> en_id ` set (db_entities d)"
    using ins row(1) by (auto simp: insert_entity_def split: if_splits)
  have valid: "valid_for errors_of d (en_workspace_id row) (en_schema_id row) (en_schema_version row)
      (en_entity_type row) (en_data row)"
    using s et ok by (auto simp: valid_for_def get_active_iff [OF sinv] of_name_def row)
  have vf: "valid_for errors_of d' = valid_for errors_of d" "image_valid errors_of d' = image_valid errors_of d"
    by (rule valid_for_schemas; simp add: d')+
  have "schema_inv d'"
    using sinv valid_for_owned [OF valid] by (simp add: schema_inv_def refs_ok_def owned_schema_def d')
  then show ?thesis
    using inv valid new fresh row(1,2) unfolding entity_inv_def vf by (auto simp: d')
qed

lemma update_entity_inv:
  assumes inv: "entity_inv errors_of d" and upd: "update_entity errors_of token now d w input = Inr (row, d')"
  shows "entity_inv errors_of d'"
proof -
  obtain e s et where found: "find_row (\<lambda>e. en_id e = ui_id input \<and> en_workspace_id e = w) (db_entities d) = Some e"
    and s: "get_by_id d w (en_schema_id e) = Inr s"
    and et: "resolve_entity_type (sc_definition s) (en_entity_type e) = Inr et"
    and ok: "validate_data errors_of et (ui_data input) = Inr ()"
    and save: "save_entity token now d w input e = Inr (row, d')"
    using upd by (auto simp: update_entity_def res_simps split: if_splits)
  let ?sel = "update_filter w input e"
  have d': "d' = d\<lparr>db_entities := update_where ?sel
      (write_entity (ui_data input) (ui_updated_by input) token now) (db_entities d)\<rparr>"
    using save by (auto simp: save_entity_def Let_def split: option.splits if_splits)
  have sel: "?sel x \<Longrightarrow> en_id x = ui_id input" for x
    by (simp add: update_filter_def split: if_splits)
  have e: "e \<in> set (db_entities d)" "en_id e = ui_id input" "en_workspace_id e = w"
    using find_row_Some [OF found] by auto
  have sinv: "schema_inv d" and ids: "distinct (map en_id (db_entities d))" using inv by (auto simp: entity_inv_def)
  have s': "s \<in> set (db_schemas d)" "sc_workspace_id s = w" "sc_id s = en_schema_id e"
    using s by (auto simp: get_by_id_iff [OF sinv])
  have version: "sc_version s = en_schema_version e"
  proof -
    obtain s2 where "s2 \<in> set (db_schemas d)" "sc_id s2 = en_schema_id e" "sc_version s2 = en_schema_version e"
      using inv e(1) by (auto simp: entity_inv_def valid_for_def)
    moreover have "distinct (map sc_id (db_schemas d))" using sinv by (simp add: schema_inv_def)
    ultimately show ?thesis using distinct_key_unique [of sc_id "db_schemas d" s s2] s' by simp
  qed
  show ?thesis
    unfolding d'
  proof (rule writing.inv_update [OF inv])
    fix x
    assume "x \<in> set (db_entities d)" "?sel x"
    then have "x = e" using distinct_key_unique [OF ids _ e(1)] sel e(2) by simp
    then show "valid_for errors_of d (en_workspace_id x)
        (en_schema_id (write_entity (ui_data input) (ui_updated_by input) token now x))
        (en_schema_version (write_entity (ui_data input) (ui_updated_by input) token now x))
        (en_entity_type x) (en_data (write_entity (ui_data input) (ui_updated_by input) token now x))"
      using s' e version et ok by (auto simp: valid_for_def write_entity_def)
  qed
qed

lemma delete_entity_inv:
  assumes "entity_inv errors_of d" and "delete_entity d w i = Inr d'"
  shows "entity_inv errors_of d'"
proof -
  have d': "d' = d\<lparr>db_entities := delete_where (\<lambda>e. en_workspace_id e = w \<and> en_id e = i) (db_entities d),
      db_relations := delete_where (\<lambda>r. re_source_id r = i \<or> re_target_id r = i) (db_relations d)\<rparr>"
    using assms(2) by (simp add: delete_entity_def Let_def split: if_splits)
  have vf: "valid_for errors_of d' = valid_for errors_of d" "image_valid errors_of d' = image_valid errors_of d"
    by (rule valid_for_schemas; simp add: d')+
  show ?thesis
    using assms(1) unfolding entity_inv_def vf
    by (auto simp: d' table_simps distinct_key_delete schema_inv_def refs_ok_def owned_schema_def)
qed

lemma snapshot_inv:
  assumes inv: "entity_inv errors_of d" and snap: "snapshot i now d w e job = Inr d'"
  shows "entity_inv errors_of d'"
proof -
  have d': "d' = d\<lparr>db_snapshots := db_snapshots d @ map (snapshot_of i now job)
      (filter (\<lambda>x. en_workspace_id x = w \<and> en_id x = e) (db_entities d))\<rparr>"
    using snap by (auto simp: snapshot_def insert_snapshot_def select_where_def Let_def res_simps split: if_splits)
  have vf: "valid_for errors_of d' = valid_for errors_of d" "image_valid errors_of d' = image_valid errors_of d"
    by (rule valid_for_schemas; simp add: d')+
  have new: "image_valid errors_of d (snapshot_of i now job x) (en_workspace_id y) (en_entity_type y)"
    if "x \<in> set (db_entities d)" "y \<in> set (db_entities d)" "en_id x = en_id y" for x y
    using inv that distinct_key_unique [of en_id "db_entities d" x y]
    by (auto simp: entity_inv_def image_valid_def snapshot_of_def)
  have "schema_inv d'"
    using inv valid_for_owned
    by (fastforce simp: entity_inv_def schema_inv_def refs_ok_def owned_schema_def d' snapshot_of_def)
  then show ?thesis
    using inv new unfolding entity_inv_def vf by (auto simp: d' snapshot_of_def)
qed

lemma delete_snapshot_inv: "entity_inv errors_of d \<Longrightarrow> entity_inv errors_of (delete_snapshot d w e job)"
  by (auto simp: entity_inv_def delete_snapshot_def table_simps valid_for_def image_valid_def
      schema_inv_def refs_ok_def owned_schema_def)

lemma undo_one_inv:
  assumes inv: "entity_inv errors_of d" and n: "n \<in> set (db_snapshots d)"
    and step: "undo_one tokens now n (d, a, b) = (d', a', b')"
  shows "entity_inv errors_of d' \<and> db_snapshots d' = db_snapshots d"
proof (cases "sn_entity_id n \<in> en_id ` set (db_entities d)")
  case True
  let ?d' = "d\<lparr>db_entities := update_where (\<lambda>e. en_id e = sn_entity_id n)
      (restore n (tokens (sn_entity_id n)) now) (db_entities d)\<rparr>"
  have "entity_inv errors_of ?d'"
    by (rule restoring.inv_update [OF inv])
      (use inv n in \<open>auto simp: entity_inv_def image_valid_def restore_def\<close>)
  then show ?thesis using step True by (simp add: undo_one_def) auto
qed (use inv step in \<open>auto simp: undo_one_def\<close>)

lemma undo_fold_inv:
  "entity_inv errors_of d \<Longrightarrow> set S \<subseteq> set (db_snapshots d) \<Longrightarrow>
   fold (undo_one tokens now) S (d, a, b) = (d', a', b') \<Longrightarrow> entity_inv errors_of d'"
proof (induction S arbitrary: d a b)
  case (Cons n S)
  obtain d1 a1 b1 where one: "undo_one tokens now n (d, a, b) = (d1, a1, b1)" by (rule prod_cases3)
  have "entity_inv errors_of d1" "db_snapshots d1 = db_snapshots d"
    using undo_one_inv [OF Cons.prems(1) _ one] Cons.prems(2) by auto
  then show ?case
    using Cons.IH [of d1 a1 b1] Cons.prems one by simp
qed simp

lemma undo_job_inv:
  assumes "entity_inv errors_of d" and "undo_job tokens now d w job = Inr (r, d')"
  shows "entity_inv errors_of d'"
proof -
  obtain a b where run: "fold (undo_one tokens now) (job_snapshots d w job) (d, 0, 0) = (d', a, b)"
    using assms(2) by (cases r) (auto simp: undo_job_def Let_def split: if_splits prod.splits)
  show ?thesis
    by (rule undo_fold_inv [OF assms(1) _ run]) (auto simp: job_snapshots_def table_simps)
qed

section \<open>Properties\<close>

text \<open>
  The histories of a workspace's data.  New identifiers are fresh: the id of a new entity is not the
  id of an entity a snapshot was taken of.
\<close>

inductive entity_step :: "schema_validator \<Rightarrow> db \<Rightarrow> db \<Rightarrow> bool" for errors_of where
  schema: "schema_step d d' \<Longrightarrow> entity_step errors_of d d'"
| create: "create_with_quota errors_of i token now d w input user quota = Inr (row, d') \<Longrightarrow>
     \<forall>n \<in> set (db_snapshots d). sn_entity_id n \<noteq> i \<Longrightarrow> entity_step errors_of d d'"
| update: "update_entity errors_of token now d w uinput = Inr (row, d') \<Longrightarrow> entity_step errors_of d d'"
| delete: "delete_entity d w i = Inr d' \<Longrightarrow> entity_step errors_of d d'"
| snapshot: "snapshot i now d w e job = Inr d' \<Longrightarrow> entity_step errors_of d d'"
| drop_snapshot: "entity_step errors_of d (delete_snapshot d w e job)"
| undo: "undo_job tokens now d w job = Inr (r, d') \<Longrightarrow> entity_step errors_of d d'"

lemma entity_step_inv: "entity_step errors_of d d' \<Longrightarrow> entity_inv errors_of d \<Longrightarrow> entity_inv errors_of d'"
  by (induction rule: entity_step.induct)
    (auto intro: entity_inv_schema_step update_entity_inv delete_entity_inv snapshot_inv
      delete_snapshot_inv undo_job_inv dest: create_entity_inv)


definition sample_input :: create_entity_input where
  "sample_input = \<lparr>ci_schema_name = ''library'', ci_entity_type = ''book'',
     ci_data = JObj [(''title'', JStr ''Emma'')]\<rparr>"

definition accept_all :: schema_validator where
  "accept_all schema v = Some []"

lemma accept_all_ok: "validate_data accept_all et v = Inr ()"
  by (simp add: validate_data_def accept_all_def)

lemma one_schema_entity_inv: "entity_inv accept_all one_schema"
  using one_schema_inv by (simp add: entity_inv_def) (simp add: one_schema_def empty_db_def)

lemma one_schema_create:
  "create_with_quota accept_all 50 ''t0'' 5 one_schema 3 sample_input None None =
     Inr (\<lparr>en_id = 50, en_embedding_sync_token = ''t0'', en_workspace_id = 3, en_schema_id = 10,
       en_schema_version = 1, en_entity_type = ''book'', en_data = JObj [(''title'', JStr ''Emma'')],
       en_created_by = None, en_updated_by = None, en_created_at = 5, en_updated_at = 5\<rparr>,
      one_schema\<lparr>db_entities := [\<lparr>en_id = 50, en_embedding_sync_token = ''t0'', en_workspace_id = 3,
       en_schema_id = 10, en_schema_version = 1, en_entity_type = ''book'',
       en_data = JObj [(''title'', JStr ''Emma'')],
       en_created_by = None, en_updated_by = None, en_created_at = 5, en_updated_at = 5\<rparr>]\<rparr>)"
proof -
  have "check_entity_quota one_schema 3 None = Inr ()" "\<not> is_schema_pending one_schema 3"
    by (simp_all add: check_entity_quota_def effective_limit_def workspace_max_entities_def
        entity_count_def is_schema_pending_def one_schema_def empty_db_def find_row_def)
  moreover have "resolve_entity_type (sc_definition followed_schema) ''book'' = Inr sample_book"
    by (simp add: resolve_entity_type_def followed_schema_def sample_definition_def sample_book_def)
  moreover have "sc_id followed_schema = 10" "sc_version followed_schema = 1"
    by (simp_all add: followed_schema_def)
  moreover have "insert_entity one_schema e = Inr (one_schema\<lparr>db_entities := [e]\<rparr>)"
    if "en_workspace_id e = 3" "en_schema_id e = 10" for e
    using that by (simp add: insert_entity_def one_schema_def empty_db_def followed_schema_def)
  ultimately show ?thesis
    by (simp add: create_with_quota_def sample_input_def one_schema_active validate_data_def accept_all_def
        Let_def)
qed


text \<open>
  Property C7. An entity is never created beyond the effective entity limit of its workspace (the
  smaller of the manual limit and the plan's): with a limit \<open>m\<close> a creation succeeds only below it, so
  the workspace then holds at most \<open>m\<close> entities; at the limit the creation is a conflict.
\<close>

theorem entity_quota_respected:
  assumes "effective_limit (workspace_max_entities d w) quota = Some m"
  shows "(\<forall>row d'. create_with_quota errors_of i token now d w input user quota = Inr (row, d') \<longrightarrow>
      entity_count d' w = entity_count d w + 1 \<and> int (entity_count d' w) \<le> m) \<and>
    (m \<le> int (entity_count d w) \<longrightarrow>
      (\<exists>msg. create_with_quota errors_of i token now d w input user quota = Inl (Conflict msg)))"
proof (intro conjI allI impI)
  show "\<exists>msg. create_with_quota errors_of i token now d w input user quota = Inl (Conflict msg)"
    if "m \<le> int (entity_count d w)"
    using that assms by (simp add: create_with_quota_def check_entity_quota_def)
  fix row d'
  assume "create_with_quota errors_of i token now d w input user quota = Inr (row, d')"
  then have "int (entity_count d w) < m" "insert_entity d row = Inr d'" "en_workspace_id row = w"
    using assms
    by (auto simp: create_with_quota_def check_entity_quota_def Let_def res_simps split: if_splits)
  then show "entity_count d' w = entity_count d w + 1" "int (entity_count d' w) \<le> m"
    by (auto simp: insert_entity_def entity_count_def table_simps split: if_splits)
qed

theorem entity_quota_respected_witness:
  "\<exists>row d'. create_with_quota accept_all 50 ''t0'' 5 one_schema 3 sample_input None None = Inr (row, d') \<and>
     entity_count d' 3 = 1 \<and>
     (\<exists>msg. create_with_quota accept_all 51 ''t1'' 6 d' 3 sample_input None None = Inl (Conflict msg))"
proof -
  obtain row d' where c: "create_with_quota accept_all 50 ''t0'' 5 one_schema 3 sample_input None None = Inr (row, d')"
    and d': "db_workspaces d' = db_workspaces one_schema"
    using one_schema_create by simp
  have lim: "effective_limit (workspace_max_entities one_schema 3) None = Some 1"
    "effective_limit (workspace_max_entities d' 3) None = Some 1"
    by (simp_all add: effective_limit_def workspace_max_entities_def d')
      (simp_all add: one_schema_def find_row_def)
  have "entity_count one_schema 3 = 0" by (simp add: entity_count_def one_schema_def empty_db_def)
  then have "entity_count d' 3 = 1" using entity_quota_respected [OF lim(1)] c by force
  moreover have "\<exists>msg. create_with_quota accept_all 51 ''t1'' 6 d' 3 sample_input None None = Inl (Conflict msg)"
    using entity_quota_respected [OF lim(2)] \<open>entity_count d' 3 = 1\<close> by auto
  ultimately show ?thesis using c by blast
qed


text \<open>An entity stored under the first version of a schema whose second version requires a title.\<close>

definition emma :: entity_row where
  "emma = \<lparr>en_id = 50, en_embedding_sync_token = ''t0'', en_workspace_id = 3, en_schema_id = 10,
     en_schema_version = 1, en_entity_type = ''book'', en_data = JObj [], en_created_by = None,
     en_updated_by = None, en_created_at = 5, en_updated_at = 5\<rparr>"

definition with_entity :: db where
  "with_entity = one_schema\<lparr>db_entities := [emma]\<rparr>"

definition newer_schema :: schema_row where
  "newer_schema = followed_schema\<lparr>sc_id := 11, sc_version := 2\<rparr>"

definition older_version :: db where
  "older_version = with_entity\<lparr>db_schemas := [retire 1 followed_schema, newer_schema]\<rparr>"


lemma undo_tracked:
  assumes t: "tracked d w job S d'" and "distinct (map en_id (db_entities d))"
    and "\<forall>n \<in> set (db_snapshots d). \<not> (sn_workspace_id n = w \<and> sn_job_id n = job)"
  shows "case undo_job tokens' now' d' w job of
      Inl e \<Rightarrow> map (\<lambda>e. (frame e, content e)) (db_entities d') = map (\<lambda>e. (frame e, content e)) (db_entities d)
    | Inr ((restored, missing), d'') \<Rightarrow> missing = 0 \<and> restored = length (job_snapshots d' w job) \<and>
        map (\<lambda>e. (frame e, content e)) (db_entities d'') = map (\<lambda>e. (frame e, content e)) (db_entities d)"
proof -
  have snaps: "select_where (\<lambda>n. sn_workspace_id n = w \<and> sn_job_id n = job) (db_snapshots d') = S"
    using t assms(3) by (auto simp: tracked_def select_where_def filter_empty_conv filter_id_conv)
  have jobs: "set (job_snapshots d' w job) = set S"
    by (simp add: job_snapshots_def snaps)
  have pending: "pending_restore d (job_snapshots d' w job) d'"
    using t by (simp add: tracked_def pending_restore_def jobs)
  have images: "\<forall>n \<in> set (job_snapshots d' w job). \<exists>e \<in> set (db_entities d). image_of n e"
    using t jobs by (auto simp: tracked_def)
  have same: "map (\<lambda>e. (frame e, content e)) (db_entities x) = map (\<lambda>e. (frame e, content e)) (db_entities d)"
    if "pending_restore d [] x" for x
    using that by (auto simp: pending_restore_def list_all2_conv_all_nth intro!: nth_equalityI)
  obtain d'' where undo: "fold (undo_one tokens' now') (job_snapshots d' w job) (d', 0, 0)
      = (d'', length (job_snapshots d' w job), 0)" and done': "pending_restore d [] d''"
    using undo_fold_restores [OF pending assms(2) images, of tokens' now' 0 0] by auto
  show ?thesis
  proof (cases "job_snapshots d' w job = []")
    case True
    then show ?thesis using same [of d'] pending by (simp add: undo_job_def)
  next
    case False
    then show ?thesis using undo same [OF done'] by (simp add: undo_job_def Let_def)
  qed
qed

text \<open>
  Property C9. Undoing a \<open>fill_defaults\<close> job puts back exactly what the job changed: after the fill and
  the undo every entity has the data, schema and version it had before, and no snapshot is reported
  missing.  When the fill took no snapshot, the undo is refused and the data is already unchanged.
\<close>

theorem undo_reverts_fill:
  assumes "distinct (map en_id (db_entities d))"
    and "\<forall>n \<in> set (db_snapshots d). \<not> (sn_workspace_id n = w \<and> sn_job_id n = job)"
    and "fill_defaults ids tokens now d w name job user = Inr (rep, d')"
  shows "case undo_job tokens' now' d' w job of
      Inl e \<Rightarrow> map (\<lambda>e. (frame e, content e)) (db_entities d') = map (\<lambda>e. (frame e, content e)) (db_entities d)
    | Inr ((restored, missing), d'') \<Rightarrow> missing = 0 \<and> restored = length (job_snapshots d' w job) \<and>
        map (\<lambda>e. (frame e, content e)) (db_entities d'') = map (\<lambda>e. (frame e, content e)) (db_entities d)"
proof -
  obtain S where "tracked d w job S d'"
    using fill_defaults_Inr [OF assms(1,3)] by metis
  then show ?thesis using assms(1,2) by (rule undo_tracked)
qed

lemma older_version_active: "get_active_schema older_version 3 ''library'' = Inr newer_schema"
  by (simp add: get_active_schema_def active_versions_def select_where_def older_version_def
      followed_schema_def newer_schema_def retire_def latest_by_def)

lemma older_version_fill:
  "\<exists>rep d'. fill_defaults (\<lambda>i. i + 100) (\<lambda>_. ''t1'') 9 older_version 3 ''library'' 70 None = Inr (rep, d') \<and>
     fr_entities_updated rep = 1 \<and> length (db_snapshots d') = 1 \<and>
     map en_data (db_entities d') = [JObj [(''title'', JStr [])]]"
proof -
  have rows: "select_where (\<lambda>e. en_schema_id e \<noteq> sc_id newer_schema)
      (entities_of_schema older_version 3 ''library'') = [emma]"
    by (simp add: entities_of_schema_def select_where_def older_version_def with_entity_def emma_def
        followed_schema_def newer_schema_def)
  have ty: "bt_get (md_entity_types (sc_definition newer_schema)) (en_entity_type emma) = Some sample_book"
    by (simp add: newer_schema_def followed_schema_def sample_definition_def sample_book_def emma_def)
  have fill: "fill_fields_in_value (en_data emma) (et_fields sample_book) = (JObj [(''title'', JStr [])], 1)"
    by (simp add: emma_def sample_book_def sample_fields_def sample_author_def fill_fields_in_value.simps
        fill_value_def)
  have snap: "snapshot 150 9 older_version 3 (en_id emma) 70 =
      Inr (older_version\<lparr>db_snapshots := [snapshot_of 150 9 70 emma]\<rparr>)"
    by (simp add: snapshot_def insert_snapshot_def select_where_def older_version_def with_entity_def
        one_schema_def empty_db_def emma_def)
  show ?thesis
    using snap by (simp add: fill_defaults_def older_version_active rows fill_one_def ty fill emma_def [THEN arg_cong, of en_id])
      (simp add: older_version_def with_entity_def emma_def update_where_def write_entity_def)
qed

theorem undo_reverts_fill_witness:
  "\<exists>rep d' r d''. fill_defaults (\<lambda>i. i + 100) (\<lambda>_. ''t1'') 9 older_version 3 ''library'' 70 None = Inr (rep, d') \<and>
     fr_entities_updated rep = 1 \<and> undo_job (\<lambda>_. ''t2'') 10 d' 3 70 = Inr (r, d'') \<and>
     map en_data (db_entities d'') = [JObj []]"
proof -
  obtain rep d' where fill: "fill_defaults (\<lambda>i. i + 100) (\<lambda>_. ''t1'') 9 older_version 3 ''library'' 70 None = Inr (rep, d')"
    and upd: "fr_entities_updated rep = 1" "map en_data (db_entities d') = [JObj [(''title'', JStr [])]]"
    using older_version_fill by (elim exE conjE)
  have ents: "db_entities older_version = [emma]" by (simp add: older_version_def with_entity_def)
  have ids: "distinct (map en_id (db_entities older_version))" by (simp add: ents)
  have none: "\<forall>n \<in> set (db_snapshots older_version). \<not> (sn_workspace_id n = 3 \<and> sn_job_id n = 70)"
    by (simp add: older_version_def with_entity_def one_schema_def empty_db_def)
  have ne: "map (\<lambda>e. (frame e, content e)) (db_entities d') \<noteq> map (\<lambda>e. (frame e, content e)) [emma]"
    using upd(2) by (auto simp: emma_def content_def)
  show ?thesis
    using undo_reverts_fill [OF ids none fill, of "\<lambda>_. ''t2''" 10] fill upd(1) ne
    by (cases "undo_job (\<lambda>_. ''t2'') 10 d' 3 70") (auto simp: ents emma_def content_def split: prod.splits)
qed

text \<open>
  Filling adds what is missing and changes nothing else: every required field of the
  active version is then present, an absent one with its default (or the empty value of its type), a
  present value without nested properties is untouched, no key disappears and no undeclared key
  appears, and the number of fields filled is the number of required fields the drift report names.
\<close>

theorem fill_completes:
  assumes "fields_wf fs" and "fill_fields_in_value (JObj kvs) fs = (v', n)"
  shows "\<exists>kvs'. v' = JObj kvs' \<and>
    (\<forall>k f. bt_get fs k = Some f \<longrightarrow> fd_required f \<longrightarrow> bt_get kvs' k \<noteq> None) \<and>
    (\<forall>k f. bt_get fs k = Some f \<and> fd_required f \<and> bt_get kvs k = None \<longrightarrow>
       bt_get kvs' k = Some (fill_value f)) \<and>
    (\<forall>k x. bt_get kvs k = Some x \<longrightarrow> bt_get kvs' k \<noteq> None \<and>
       ((\<forall>f. bt_get fs k = Some f \<longrightarrow> fd_properties f = None) \<longrightarrow> bt_get kvs' k = Some x)) \<and>
    (\<forall>k. bt_get fs k = None \<longrightarrow> bt_get kvs' k = bt_get kvs k) \<and>
    n = length (filter df_required (missing_fields_in_value (JObj kvs) fs []))"
proof -
  obtain kvs' m where loop: "fill_loop kvs fs = (kvs', m)" by fastforce
  then have v': "v' = JObj kvs'" using assms(2) by (simp add: fill_fields_in_value.simps)
  have wf: "bt_wf fs" using assms(1) by (simp add: fields_wf.simps [of fs])
  have get: "bt_get kvs' k = (case bt_get fs k of None \<Rightarrow> bt_get kvs k | Some f \<Rightarrow> fill_entry f (bt_get kvs k))" for k
    using fill_loop_get [OF wf, of kvs k] loop by simp
  have n: "n = length (filter df_required (missing_fields_in_value (JObj kvs) fs []))"
    using fill_count [OF assms(1), of "JObj kvs" "[]"] assms(2) by simp
  show ?thesis
    using v' n by (intro exI [of _ kvs']) (auto simp: get fill_entry_def split: option.splits)
qed

theorem fill_completes_witness:
  "fields_wf (et_fields sample_book) \<and>
   fill_fields_in_value (JObj []) (et_fields sample_book) = (JObj [(''title'', JStr [])], 1) \<and>
   length (filter df_required (missing_fields_in_value (JObj []) (et_fields sample_book) [])) = 1"
proof -
  have wf: "fields_wf (et_fields sample_book)"
    by (simp add: sample_book_def sample_fields_def sample_author_def fields_wf.simps bt_wf_def)
  have run: "fill_fields_in_value (JObj []) (et_fields sample_book) = (JObj [(''title'', JStr [])], 1)"
    by (simp add: sample_book_def sample_fields_def sample_author_def fill_fields_in_value.simps fill_value_def)
  show ?thesis using fill_completes [OF wf run] wf run by auto
qed

text \<open>
  The dry run predicts the migration: it accounts for every entity of the schema exactly
  once, and the number of entities it says need values is the number \<open>fill_defaults\<close> then updates.
\<close>

theorem dry_run_predicts_fill:
  assumes "distinct (map en_id (db_entities d))"
    and "\<And>s t et. s \<in> set (db_schemas d) \<Longrightarrow> bt_get (md_entity_types (sc_definition s)) t = Some et \<Longrightarrow>
           fields_wf (et_fields et)"
    and "migration_dry_run d w name = Inr mr"
    and "fill_defaults ids tokens now d w name job user = Inr (rep, d')"
  shows "fr_entities_updated rep = mr_needs_values mr \<and>
    mr_total_entities mr = length (entities_of_schema d w name) \<and>
    mr_total_entities mr = mr_current mr + mr_behind_but_valid mr + mr_needs_values mr"
proof -
  obtain active S where active: "get_active_schema d w name = Inr active"
    and upd: "(\<And>t et. bt_get (md_entity_types (sc_definition active)) t = Some et \<Longrightarrow> fields_wf (et_fields et)) \<Longrightarrow>
      fr_entities_updated rep = length (filter (\<lambda>r. missing_required active r \<noteq> [])
        (select_where (\<lambda>e. en_schema_id e \<noteq> sc_id active) (entities_of_schema d w name)))"
    using fill_defaults_Inr [OF assms(1,4)] by metis
  let ?rows = "entities_of_schema d w name"
  let ?c = "foldl (dry_run_row active) \<lparr>dc_total = 0, dc_current = 0, dc_behind_valid = 0,
               dc_needs_values = 0, dc_by_type = []\<rparr> (sort_key en_id ?rows)"
  have mem: "active \<in> set (db_schemas d)"
    using active by (auto simp: get_active_schema_def res_simps active_versions_def table_simps
        dest!: latest_by_Some(1))
  have mr: "mr_needs_values mr = dc_needs_values ?c" "mr_total_entities mr = dc_total ?c"
    "mr_current mr = dc_current ?c" "mr_behind_but_valid mr = dc_behind_valid ?c"
    using assms(3) active by (auto simp: migration_dry_run_def Let_def)
  note counts = dry_run_counts [of active "\<lparr>dc_total = 0, dc_current = 0, dc_behind_valid = 0,
               dc_needs_values = 0, dc_by_type = []\<rparr>" "sort_key en_id ?rows", simplified length_filter_sort]
  have split: "length xs = length (filter (\<lambda>r. en_schema_id r = sc_id active) xs)
      + length (filter (\<lambda>r. en_schema_id r \<noteq> sc_id active \<and> missing_required active r = []) xs)
      + length (filter (\<lambda>r. en_schema_id r \<noteq> sc_id active \<and> missing_required active r \<noteq> []) xs)" for xs
    by (induction xs) auto
  have "fr_entities_updated rep = length (filter (\<lambda>r. en_schema_id r \<noteq> sc_id active \<and> missing_required active r \<noteq> []) ?rows)"
    using upd assms(2) [OF mem] by (simp add: select_where_def conj_commute)
  then show ?thesis
    using counts split [of ?rows] by (simp add: mr length_filter_sort)
qed

theorem dry_run_predicts_fill_witness:
  "\<exists>mr. migration_dry_run older_version 3 ''library'' = Inr mr \<and> mr_needs_values mr = 1"
proof -
  obtain rep d' where fill: "fill_defaults (\<lambda>i. i + 100) (\<lambda>_. ''t1'') 9 older_version 3 ''library'' 70 None = Inr (rep, d')"
    and upd: "fr_entities_updated rep = 1"
    using older_version_fill by (elim exE conjE)
  obtain mr where mr: "migration_dry_run older_version 3 ''library'' = Inr mr"
    by (simp add: migration_dry_run_def older_version_active Let_def)
  have ids: "distinct (map en_id (db_entities older_version))"
    by (simp add: older_version_def with_entity_def)
  have wf: "fields_wf (et_fields et)" if "s \<in> set (db_schemas older_version)"
    "bt_get (md_entity_types (sc_definition s)) t = Some et" for s t et
    using that by (auto simp: older_version_def followed_schema_def newer_schema_def retire_def
        sample_definition_def sample_fields_def sample_author_def fields_wf.simps bt_wf_def split: if_splits)
  have "fr_entities_updated rep = mr_needs_values mr"
    using dry_run_predicts_fill [OF ids _ mr fill] wf by blast
  then show ?thesis using mr upd by simp
qed

text \<open>
  One fill is not always enough: a required object that was absent is filled with an empty
  object (or its default) whose own required fields are not filled, so the drift report still names
  required fields afterwards.
\<close>

definition nested_required :: fields where
  "nested_required =
     [(''address'', FieldDef FObject True None None None None None None None None None None False None
        None (Some [(''city'', FieldDef FString True None None None None None None None None None None
           False None None None False None [])]) False None [])]"

theorem fill_leaves_nested_gap:
  "fill_fields_in_value (JObj []) nested_required = (JObj [(''address'', JObj [])], 1) \<and>
   map df_name (filter df_required (missing_fields_in_value (JObj [(''address'', JObj [])]) nested_required []))
     = [''/address/city'']"
  by (simp add: nested_required_def fill_fields_in_value.simps missing_fields_in_value.simps fill_value_def
      escape_Cons)

end
