(* ===== verification/Relation_Store.thy ===== *)
theory Relation_Store
  imports Entity_Store
begin

text \<open>
  \<open>src/models/entity_relations.rs\<close>: typed relations between entities and the batched neighbour
  lookup.  Rows with equal timestamps come in table order here; SQL leaves their order open.

  The lemmas show that a relation is only created between entities of its workspace whose types the
  schema of the source admits, and that through every history both ends of a stored relation exist.
\<close>

record create_relation_input =
  cr_source_id :: uuid
  cr_target_id :: uuid
  cr_relation_type :: string
  cr_properties :: json

definition validate_relation_type ::
  "db \<Rightarrow> uuid \<Rightarrow> entity_row \<Rightarrow> entity_row \<Rightarrow> string \<Rightarrow> unit result" where
  "validate_relation_type d workspace_id src tgt relation_type =
     rbind (get_by_id d workspace_id (en_schema_id src)) (\<lambda>schema.
     rbind (ok_or (bt_get (md_relation_types (sc_definition schema)) relation_type)
              (NotFound ''relation_type {} is not defined in schema {}'')) (\<lambda>def.
     if rt_source def \<noteq> en_entity_type src \<or> rt_target def \<noteq> en_entity_type tgt
     then Inl (RelationTypeMismatch
       ''relation_type {} expects source={} target={}, but got source={} target={}'')
     else Inr ()))"

text \<open>The insert, with the two constraint violations the source distinguishes.\<close>

definition insert_relation :: "db \<Rightarrow> relation_row \<Rightarrow> db result" where
  "insert_relation d row =
     (if re_id row \<in> re_id ` set (db_relations d) \<or> relation_key row \<in> relation_key ` set (db_relations d)
      then Inl (Conflict ''relation {} between {} and {} already exists'')
      else if re_source_id row \<notin> en_id ` set (db_entities d) \<or> re_target_id row \<notin> en_id ` set (db_entities d)
      then Inl (NotFound ''source {} or target {} no longer exists'')
      else Inr (d\<lparr>db_relations := db_relations d @ [row]\<rparr>))"

definition create_relation ::
  "uuid \<Rightarrow> instant \<Rightarrow> db \<Rightarrow> uuid \<Rightarrow> create_relation_input \<Rightarrow> (relation_row \<times> db) result" where
  "create_relation new_id now d workspace_id input =
     rbind (get_entity d workspace_id (cr_source_id input)) (\<lambda>src.
     rbind (get_entity d workspace_id (cr_target_id input)) (\<lambda>tgt.
     rbind (validate_relation_type d workspace_id src tgt (cr_relation_type input)) (\<lambda>_.
     let row = \<lparr>re_id = new_id, re_workspace_id = workspace_id, re_source_id = cr_source_id input,
                re_target_id = cr_target_id input, re_relation_type = cr_relation_type input,
                re_properties = (if cr_properties input = JNull then JObj [] else cr_properties input),
                re_status = RelActive, re_created_at = now\<rparr>
     in rbind (insert_relation d row) (\<lambda>d'. Inr (row, d')))))"

definition get_relation :: "db \<Rightarrow> uuid \<Rightarrow> uuid \<Rightarrow> relation_row result" where
  "get_relation d workspace_id i =
     ok_or (find_row (\<lambda>r. re_workspace_id r = workspace_id \<and> re_id r = i) (db_relations d))
       (NotFound ''relation {} was not found'')"

definition set_status :: "db \<Rightarrow> uuid \<Rightarrow> uuid \<Rightarrow> relation_status \<Rightarrow> (relation_row \<times> db) result" where
  "set_status d workspace_id i status =
     rbind (get_relation d workspace_id i) (\<lambda>existing.
     let d' = d\<lparr>db_relations := update_where (\<lambda>r. re_id r = re_id existing)
                 (\<lambda>r. r\<lparr>re_status := status\<rparr>) (db_relations d)\<rparr>
     in case find_row (\<lambda>r. re_id r = re_id existing) (db_relations d') of
          Some r \<Rightarrow> Inr (r, d')
        | None \<Rightarrow> Inl (NotFound ''relation {} was not found''))"

definition delete_relation :: "db \<Rightarrow> uuid \<Rightarrow> uuid \<Rightarrow> db result" where
  "delete_relation d workspace_id i =
     (let sel = (\<lambda>r. re_workspace_id r = workspace_id \<and> re_id r = i) in
      if count_where sel (db_relations d) = 0 then Inl (NotFound ''relation {} was not found'')
      else Inr (d\<lparr>db_relations := delete_where sel (db_relations d)\<rparr>))"

record list_relations_query =
  rq_source_id :: "uuid option"
  rq_target_id :: "uuid option"
  rq_relation_type :: "string option"
  rq_status :: "relation_status option"
  rq_page :: list_params

definition matches :: "'a option \<Rightarrow> 'a \<Rightarrow> bool" where
  "matches f x = (case f of None \<Rightarrow> True | Some y \<Rightarrow> x = y)"

definition list_relations :: "db \<Rightarrow> uuid \<Rightarrow> list_relations_query \<Rightarrow> relation_row list" where
  "list_relations d workspace_id q =
     page_of (rq_page q) (sort_key (\<lambda>r. - re_created_at r) (select_where (\<lambda>r.
       re_workspace_id r = workspace_id \<and> matches (rq_source_id q) (re_source_id r) \<and>
       matches (rq_target_id q) (re_target_id r) \<and> matches (rq_relation_type q) (re_relation_type r) \<and>
       matches (rq_status q) (re_status r)) (db_relations d)))"

definition relation_count :: "db \<Rightarrow> uuid \<Rightarrow> nat" where
  "relation_count d workspace_id = count_where (\<lambda>r. re_workspace_id r = workspace_id) (db_relations d)"

fun relation_status_as_db_str :: "relation_status \<Rightarrow> string" where
  "relation_status_as_db_str RelActive = ''active''"
| "relation_status_as_db_str RelDeprecated = ''deprecated''"
| "relation_status_as_db_str RelArchived = ''archived''"

definition parse_relation_status :: "string \<Rightarrow> relation_status result" where
  "parse_relation_status value =
     ok_or (List.find (\<lambda>s. relation_status_as_db_str s = value) [RelActive, RelDeprecated, RelArchived])
       (ValidationFailed ''{} is not a relation status''
          [detail ''/status'' ''expected active, deprecated, or archived'' OtherCode])"

section \<open>Neighbours\<close>

definition MIN_NEIGHBORS_LIMIT :: int where "MIN_NEIGHBORS_LIMIT = 1"
definition MAX_NEIGHBORS_LIMIT :: int where "MAX_NEIGHBORS_LIMIT = 200"
definition DEFAULT_NEIGHBORS_LIMIT :: int where "DEFAULT_NEIGHBORS_LIMIT = 20"

record neighbor =
  nb_relation_id :: uuid
  nb_relation_type :: string
  nb_direction :: string
  nb_properties :: json
  nb_created_at :: instant
  nb_entity :: entity_row

text \<open>One branch of the union: the active relations with a given end, joined with the other end.\<close>

definition neighbor_branch ::
  "db \<Rightarrow> uuid \<Rightarrow> uuid \<Rightarrow> (relation_row \<Rightarrow> uuid) \<Rightarrow> (relation_row \<Rightarrow> uuid) \<Rightarrow> string \<Rightarrow> neighbor list" where
  "neighbor_branch d workspace_id pivot_id pivot other direction =
     concat (map (\<lambda>r.
       map (\<lambda>e. \<lparr>nb_relation_id = re_id r, nb_relation_type = re_relation_type r,
                 nb_direction = direction, nb_properties = re_properties r,
                 nb_created_at = re_created_at r, nb_entity = e\<rparr>)
         (select_where (\<lambda>e. en_id e = other r \<and> en_workspace_id e = re_workspace_id r) (db_entities d)))
       (select_where (\<lambda>r. re_workspace_id r = workspace_id \<and> pivot r = pivot_id \<and> re_status r = RelActive)
          (db_relations d)))"

text \<open>Every neighbour of one pivot, newest relation first; \<open>neighbor_rows\<close> keeps the first \<open>limit\<close>.\<close>

definition all_neighbors :: "db \<Rightarrow> uuid \<Rightarrow> uuid \<Rightarrow> neighbor list" where
  "all_neighbors d workspace_id pivot_id =
     sort_key (\<lambda>n. - nb_created_at n)
       (neighbor_branch d workspace_id pivot_id re_source_id re_target_id ''out''
        @ neighbor_branch d workspace_id pivot_id re_target_id re_source_id ''in'')"

definition neighbor_rows :: "db \<Rightarrow> uuid \<Rightarrow> uuid list \<Rightarrow> int \<Rightarrow> (uuid \<times> neighbor) list" where
  "neighbor_rows d workspace_id pivot_ids limit =
     concat (map (\<lambda>p. map (Pair p) (take (nat limit) (all_neighbors d workspace_id p))) (sort pivot_ids))"

text \<open>The map from a pivot to its neighbours, grouped in row order; an absent pivot has none.\<close>

definition neighbors_batch :: "db \<Rightarrow> uuid \<Rightarrow> uuid list \<Rightarrow> int \<Rightarrow> uuid \<Rightarrow> neighbor list option" where
  "neighbors_batch d workspace_id pivot_ids limit =
     (let limit = max MIN_NEIGHBORS_LIMIT (min limit MAX_NEIGHBORS_LIMIT);
          rows = neighbor_rows d workspace_id (remdups pivot_ids) limit
      in (\<lambda>p. case map snd (filter (\<lambda>r. fst r = p) rows) of [] \<Rightarrow> None | ns \<Rightarrow> Some ns))"

lemma neighbors_batch_get:
  "neighbors_batch d w ps limit p =
     (let ns = take (nat (max MIN_NEIGHBORS_LIMIT (min limit MAX_NEIGHBORS_LIMIT))) (all_neighbors d w p)
      in if p \<in> set ps \<and> ns \<noteq> [] then Some ns else None)"
proof -
  have rows: "map snd (filter (\<lambda>r. fst r = p) (concat (map (\<lambda>q. map (Pair q) (f q)) qs)))
      = (if p \<in> set qs then f p else [])" if "distinct qs" for f :: "uuid \<Rightarrow> neighbor list" and qs
    using that by (induction qs) (auto simp: filter_map comp_def filter_empty_conv)
  have "distinct (sort (remdups ps))" "set (sort (remdups ps)) = set ps" by simp_all
  then show ?thesis
    by (auto simp: neighbors_batch_def neighbor_rows_def Let_def rows split: list.splits)
qed

section \<open>Referential integrity\<close>

text \<open>The identities of the entities, which is all that relations refer to.\<close>

definition entity_keys :: "db \<Rightarrow> (uuid \<times> uuid) set" where
  "entity_keys d = (\<lambda>e. (en_id e, en_workspace_id e)) ` set (db_entities d)"

definition relation_inv :: "db \<Rightarrow> bool" where
  "relation_inv d \<longleftrightarrow>
     distinct (map re_id (db_relations d)) \<and> distinct (map relation_key (db_relations d)) \<and>
     (\<forall>r \<in> set (db_relations d). (re_source_id r, re_workspace_id r) \<in> entity_keys d \<and>
        (re_target_id r, re_workspace_id r) \<in> entity_keys d)"

interpretation status_id: key_preserving re_id "\<lambda>r. r\<lparr>re_status := status\<rparr>" for status
  by unfold_locales simp

interpretation status_key: key_preserving relation_key "\<lambda>r. r\<lparr>re_status := status\<rparr>" for status
  by unfold_locales (simp add: relation_key_def)

lemma relation_inv_mono:
  "relation_inv d \<Longrightarrow> db_relations d' = db_relations d \<Longrightarrow> entity_keys d \<subseteq> entity_keys d' \<Longrightarrow> relation_inv d'"
  unfolding relation_inv_def by auto

lemma entity_keys_update:
  assumes "\<And>e. en_id (f e) = en_id e \<and> en_workspace_id (f e) = en_workspace_id e"
  shows "entity_keys (d\<lparr>db_entities := update_where p f (db_entities d)\<rparr>) = entity_keys d"
proof -
  let ?k = "\<lambda>e :: entity_row. (en_id e, en_workspace_id e)"
  have "map ?k (update_where p f (db_entities d)) = map ?k (db_entities d)"
    using assms by (simp add: update_where_def)
  then have "set (map ?k (update_where p f (db_entities d))) = set (map ?k (db_entities d))"
    by (rule arg_cong)
  then show ?thesis by (simp add: entity_keys_def)
qed

lemma entity_keys_cong: "db_entities d' = db_entities d \<Longrightarrow> entity_keys d' = entity_keys d"
  by (simp add: entity_keys_def)

lemma get_entity_key: "get_entity d w i = Inr e \<Longrightarrow> (i, w) \<in> entity_keys d"
  by (force simp: get_entity_def res_simps entity_keys_def dest: find_row_Some)

lemma get_entity_Inr: "get_entity d w i = Inr e \<Longrightarrow> e \<in> set (db_entities d) \<and> en_workspace_id e = w \<and> en_id e = i"
  by (auto simp: get_entity_def res_simps dest: find_row_Some)

lemma create_relation_Inr:
  assumes "create_relation i now d w input = Inr (row, d')"
  obtains src tgt schema def where "get_entity d w (cr_source_id input) = Inr src"
    "get_entity d w (cr_target_id input) = Inr tgt" "get_by_id d w (en_schema_id src) = Inr schema"
    "bt_get (md_relation_types (sc_definition schema)) (cr_relation_type input) = Some def"
    "rt_source def = en_entity_type src" "rt_target def = en_entity_type tgt"
    "re_id row = i" "re_workspace_id row = w" "re_source_id row = cr_source_id input"
    "re_target_id row = cr_target_id input" "re_relation_type row = cr_relation_type input"
    "re_status row = RelActive" "insert_relation d row = Inr d'"
proof -
  from assms obtain src tgt u where 1: "get_entity d w (cr_source_id input) = Inr src"
    "get_entity d w (cr_target_id input) = Inr tgt"
    "validate_relation_type d w src tgt (cr_relation_type input) = Inr u"
    and 2: "re_id row = i" "re_workspace_id row = w" "re_source_id row = cr_source_id input"
    "re_target_id row = cr_target_id input" "re_relation_type row = cr_relation_type input"
    "re_status row = RelActive" "insert_relation d row = Inr d'"
    by (auto simp: create_relation_def Let_def res_simps)
  from 1(3) obtain schema def where "get_by_id d w (en_schema_id src) = Inr schema"
    "bt_get (md_relation_types (sc_definition schema)) (cr_relation_type input) = Some def"
    "rt_source def = en_entity_type src" "rt_target def = en_entity_type tgt"
    by (auto simp: validate_relation_type_def res_simps split: if_splits)
  with 1 2 that show ?thesis by blast
qed

lemma create_relation_inv:
  assumes "relation_inv d" and create: "create_relation i now d w input = Inr (row, d')"
  shows "relation_inv d'"
proof -
  from create obtain src tgt where ends: "get_entity d w (cr_source_id input) = Inr src"
    "get_entity d w (cr_target_id input) = Inr tgt" and row: "re_workspace_id row = w"
    "re_source_id row = cr_source_id input" "re_target_id row = cr_target_id input"
    and ins: "insert_relation d row = Inr d'"
    by (rule create_relation_Inr)
  have "(re_source_id row, w) \<in> entity_keys d" "(re_target_id row, w) \<in> entity_keys d"
    using get_entity_key [OF ends(1)] get_entity_key [OF ends(2)] row by simp_all
  moreover have d': "d' = d\<lparr>db_relations := db_relations d @ [row]\<rparr>" "re_id row \<notin> re_id ` set (db_relations d)"
    "relation_key row \<notin> relation_key ` set (db_relations d)"
    using ins by (auto simp: insert_relation_def split: if_splits)
  moreover have "entity_keys d' = entity_keys d" by (rule entity_keys_cong) (simp add: d')
  ultimately show ?thesis
    using assms(1) row(1) unfolding relation_inv_def by auto
qed

lemma set_status_Inr:
  assumes "set_status d w i st = Inr (row, d')"
  obtains x where "get_relation d w i = Inr x"
    "d' = d\<lparr>db_relations := update_where (\<lambda>r. re_id r = re_id x) (\<lambda>r. r\<lparr>re_status := st\<rparr>) (db_relations d)\<rparr>"
    "find_row (\<lambda>r. re_id r = re_id x) (db_relations d') = Some row"
  using assms by (auto simp: set_status_def Let_def rbind_Inr_iff split: option.split_asm)

lemma set_status_inv:
  assumes "relation_inv d" and "set_status d w i st = Inr (row, d')"
  shows "relation_inv d'"
proof -
  obtain x :: relation_row where d': "d' = d\<lparr>db_relations := update_where (\<lambda>r. re_id r = re_id x) (\<lambda>r. r\<lparr>re_status := st\<rparr>)
      (db_relations d)\<rparr>"
    using assms(2) by (rule set_status_Inr) (rule that)
  have "entity_keys d' = entity_keys d" by (rule entity_keys_cong) (simp add: d')
  then show ?thesis
    using assms(1) unfolding relation_inv_def d'
    by (auto simp: status_id.keys_update_where status_key.keys_update_where table_simps)
qed

lemma delete_relation_inv:
  assumes "relation_inv d" and "delete_relation d w i = Inr d'"
  shows "relation_inv d'"
proof -
  have d': "d' = d\<lparr>db_relations := delete_where (\<lambda>r. re_workspace_id r = w \<and> re_id r = i) (db_relations d)\<rparr>"
    using assms(2) by (simp add: delete_relation_def Let_def split: if_splits)
  have "entity_keys d' = entity_keys d" by (rule entity_keys_cong) (simp add: d')
  then show ?thesis
    using assms(1) by (simp add: relation_inv_def d' table_simps distinct_key_delete)
qed

lemma delete_entity_relation_inv:
  assumes "relation_inv d" and "delete_entity d w i = Inr d'"
  shows "relation_inv d'"
proof -
  have d': "db_entities d' = delete_where (\<lambda>e. en_workspace_id e = w \<and> en_id e = i) (db_entities d)"
    "db_relations d' = delete_where (\<lambda>r. re_source_id r = i \<or> re_target_id r = i) (db_relations d)"
    using assms(2) by (auto simp: delete_entity_def Let_def split: if_splits)
  have "k \<in> entity_keys d'" if k: "k \<in> entity_keys d" "fst k \<noteq> i" for k
  proof -
    obtain e where e: "e \<in> set (db_entities d)" "k = (en_id e, en_workspace_id e)"
      using k(1) unfolding entity_keys_def by blast
    have "e \<in> set (db_entities d')" using k(2) e by (simp add: d'(1) table_simps)
    then show ?thesis unfolding entity_keys_def e(2) by (rule imageI)
  qed
  then have "(re_source_id r, re_workspace_id r) \<in> entity_keys d' \<and> (re_target_id r, re_workspace_id r) \<in> entity_keys d'"
    if "r \<in> set (db_relations d')" for r
    using that assms(1) unfolding relation_inv_def by (simp add: d'(2) table_simps)
  then show ?thesis
    using assms(1) unfolding relation_inv_def by (simp add: d'(2) distinct_key_delete)
qed

lemma undo_keys:
  "fold (undo_one tokens now) S (d, a, b) = (d', a', b') \<Longrightarrow>
     entity_keys d' = entity_keys d \<and> db_relations d' = db_relations d"
proof (induction S arbitrary: d a b)
  case (Cons n S)
  obtain d1 a1 b1 where one: "undo_one tokens now n (d, a, b) = (d1, a1, b1)" by (rule prod_cases3)
  have "entity_keys d1 = entity_keys d \<and> db_relations d1 = db_relations d"
    using one entity_keys_update [of "restore n (tokens (sn_entity_id n)) now" _ d]
    by (auto simp: undo_one_def restore_def split: if_splits)
  then show ?case using Cons one by auto
qed simp

lemma schema_step_relations:
  assumes "schema_step d d'" and "relation_inv d"
  shows "relation_inv d'"
  using assms(1)
proof cases
  case (create p i now t w def tmpl snap r)
  obtain row dd where r: "r = (row, dd)" by (cases r)
  have "db_relations d' = db_relations d" "db_entities d' = db_entities d"
    using create(1) by (auto simp: create_schema_def Let_def rbind_Inr_iff insert_schema_def mark_active_def
        split: prod.splits if_splits)
  then show ?thesis using relation_inv_mono [OF assms(2)] entity_keys_cong [of d' d] by simp
next
  case (archive now w i s)
  then have "db_relations d' = db_relations d" "db_entities d' = db_entities d"
    by (auto simp: archive_def Let_def res_simps)
  then show ?thesis using relation_inv_mono [OF assms(2)] entity_keys_cong [of d' d] by simp
next
  case (delete b w i)
  then have "db_relations d' = db_relations d" "db_entities d' = db_entities d"
    by (auto elim!: delete_schema_Inr)
  then show ?thesis using relation_inv_mono [OF assms(2)] entity_keys_cong [of d' d] by simp
next
  case (notify tmpl)
  then have "db_relations d' = db_relations d" "db_entities d' = db_entities d"
    by (simp_all add: notify_upstream_change_def Let_def)
  then show ?thesis using relation_inv_mono [OF assms(2)] entity_keys_cong [of d' d] by simp
next
  case (drop_workspace restricts w)
  then have tables: "db_relations d' = delete_where (\<lambda>r. re_workspace_id r = w) (db_relations d)"
    "db_entities d' = delete_where (\<lambda>e. en_workspace_id e = w) (db_entities d)"
    by (auto simp: delete_workspace_def Let_def res_simps split: if_splits)
  have "entity_keys d' = {k \<in> entity_keys d. snd k \<noteq> w}"
    by (auto simp: entity_keys_def tables(2) table_simps)
  then show ?thesis
    using assms(2) unfolding relation_inv_def by (simp add: tables(1) table_simps distinct_key_delete)
qed

lemma entity_step_relations:
  assumes "entity_step errors_of d d'" and "relation_inv d"
  shows "relation_inv d'"
  using assms(1)
proof cases
  case schema
  then show ?thesis using assms(2) by (rule schema_step_relations)
next
  case (create i token now w input user quota row)
  then have "insert_entity d row = Inr d'"
    by (auto simp: create_with_quota_def Let_def res_simps split: if_splits)
  then have "d' = d\<lparr>db_entities := db_entities d @ [row]\<rparr>"
    by (simp add: insert_entity_def split: if_splits)
  then show ?thesis
    using relation_inv_mono [OF assms(2), of d'] by (auto simp: entity_keys_def)
next
  case (update token now w uinput row)
  then obtain e where "save_entity token now d w uinput e = Inr (row, d')"
    by (auto simp: update_entity_def res_simps split: if_splits)
  then have "d' = d\<lparr>db_entities := update_where (update_filter w uinput e)
      (write_entity (ui_data uinput) (ui_updated_by uinput) token now) (db_entities d)\<rparr>"
    by (auto simp: save_entity_def Let_def split: option.splits if_splits)
  then show ?thesis
    using relation_inv_mono [OF assms(2), of d']
      entity_keys_update [of "write_entity (ui_data uinput) (ui_updated_by uinput) token now"]
    by (simp add: write_entity_def)
next
  case (delete w i)
  then show ?thesis using delete_entity_relation_inv [OF assms(2)] by blast
next
  case (snapshot i now w e job)
  then have "db_relations d' = db_relations d" "db_entities d' = db_entities d"
    by (auto simp: snapshot_def insert_snapshot_def Let_def res_simps split: if_splits)
  then show ?thesis using relation_inv_mono [OF assms(2)] entity_keys_cong [of d' d] by simp
next
  case (drop_snapshot w e job)
  then have "db_relations d' = db_relations d" "db_entities d' = db_entities d"
    by (simp_all add: delete_snapshot_def)
  then show ?thesis using relation_inv_mono [OF assms(2)] entity_keys_cong [of d' d] by simp
next
  case (undo tokens now w job r)
  then obtain a b where "fold (undo_one tokens now) (job_snapshots d w job) (d, 0, 0) = (d', a, b)"
    by (cases r) (auto simp: undo_job_def Let_def split: if_splits prod.splits)
  then show ?thesis using relation_inv_mono [OF assms(2), of d'] undo_keys by simp
qed

section \<open>Properties\<close>

text \<open>The histories of entities and relations together.\<close>

inductive graph_step :: "schema_validator \<Rightarrow> db \<Rightarrow> db \<Rightarrow> bool" for errors_of where
  entity: "entity_step errors_of d d' \<Longrightarrow> graph_step errors_of d d'"
| relate: "create_relation i now d w input = Inr (row, d') \<Longrightarrow> graph_step errors_of d d'"
| set_status: "set_status d w i st = Inr (row, d') \<Longrightarrow> graph_step errors_of d d'"
| unrelate: "delete_relation d w i = Inr d' \<Longrightarrow> graph_step errors_of d d'"

lemma graph_step_inv: "graph_step errors_of d d' \<Longrightarrow> relation_inv d \<Longrightarrow> relation_inv d'"
  by (induction rule: graph_step.induct)
    (auto intro: entity_step_relations create_relation_inv set_status_inv delete_relation_inv)

text \<open>
  Property C10. Through every history of schema, entity and relation operations, both ends of every
  stored relation exist and lie in the relation's workspace, and no two relations have the same
  source, target and type: deleting an entity or a workspace takes its relations along.
\<close>

theorem relations_never_dangle:
  assumes "(graph_step errors_of)\<^sup>*\<^sup>* d d'" and "relation_inv d" and "r \<in> set (db_relations d')"
  shows "(\<exists>e \<in> set (db_entities d'). en_id e = re_source_id r \<and> en_workspace_id e = re_workspace_id r) \<and>
    (\<exists>e \<in> set (db_entities d'). en_id e = re_target_id r \<and> en_workspace_id e = re_workspace_id r) \<and>
    (\<forall>r' \<in> set (db_relations d'). relation_key r' = relation_key r \<longrightarrow> r' = r)"
proof -
  have inv: "relation_inv d'"
    using assms(1,2) by (induction rule: rtranclp_induct) (auto intro: graph_step_inv)
  then have "\<forall>r' \<in> set (db_relations d'). relation_key r' = relation_key r \<longrightarrow> r' = r"
    using distinct_key_unique [of relation_key "db_relations d'"] assms(3) by (auto simp: relation_inv_def)
  moreover have "(re_source_id r, re_workspace_id r) \<in> entity_keys d'" "(re_target_id r, re_workspace_id r) \<in> entity_keys d'"
    using inv assms(3) by (auto simp: relation_inv_def)
  ultimately show ?thesis by (auto simp: entity_keys_def)
qed

text \<open>Two books, the first citing the second.\<close>

definition two_books :: db where
  "two_books = one_schema\<lparr>db_entities := [emma, emma\<lparr>en_id := 51\<rparr>]\<rparr>"

definition cite :: create_relation_input where
  "cite = \<lparr>cr_source_id = 50, cr_target_id = 51, cr_relation_type = ''cites'', cr_properties = JNull\<rparr>"

definition citation :: relation_row where
  "citation = \<lparr>re_id = 60, re_workspace_id = 3, re_source_id = 50, re_target_id = 51,
     re_relation_type = ''cites'', re_properties = JObj [], re_status = RelActive, re_created_at = 8\<rparr>"

lemma two_books_cite:
  "create_relation 60 8 two_books 3 cite = Inr (citation, two_books\<lparr>db_relations := [citation]\<rparr>)"
proof -
  have "get_entity two_books 3 50 = Inr emma" "get_entity two_books 3 51 = Inr (emma\<lparr>en_id := 51\<rparr>)"
    by (simp_all add: get_entity_def two_books_def emma_def find_row_def)
  moreover have "get_by_id two_books 3 (en_schema_id emma) = Inr followed_schema"
    by (simp add: get_by_id_def two_books_def one_schema_def followed_schema_def emma_def find_row_def)
  moreover have "bt_get (md_relation_types (sc_definition followed_schema)) ''cites'' =
      Some \<lparr>rt_source = ''book'', rt_target = ''book'', rt_description = None\<rparr>"
    by (simp add: followed_schema_def sample_definition_def)
  moreover have "insert_relation two_books citation = Inr (two_books\<lparr>db_relations := [citation]\<rparr>)"
    by (simp add: insert_relation_def two_books_def one_schema_def empty_db_def citation_def emma_def)
  moreover have "en_entity_type emma = ''book''" by (simp add: emma_def)
  ultimately show ?thesis
    by (simp add: create_relation_def validate_relation_type_def cite_def citation_def Let_def)
qed

lemma two_books_inv: "relation_inv two_books"
  by (simp add: relation_inv_def two_books_def one_schema_def empty_db_def)

theorem relations_never_dangle_witness:
  "\<exists>d'. (graph_step accept_all)\<^sup>*\<^sup>* two_books d' \<and> db_relations d' = [citation] \<and>
     (\<exists>e \<in> set (db_entities d'). en_id e = 51 \<and> en_workspace_id e = 3)"
proof -
  let ?d' = "two_books\<lparr>db_relations := [citation]\<rparr>"
  have path: "(graph_step accept_all)\<^sup>*\<^sup>* two_books ?d'"
    using graph_step.relate [OF two_books_cite] by blast
  show ?thesis
    using relations_never_dangle [OF path two_books_inv, of citation] path
    by (intro exI [of _ ?d']) (simp add: citation_def)
qed

text \<open>
  A relation is created only between two entities of the workspace whose types the
  source's schema version declares for that relation type; a mismatch and a duplicate are refused with
  their own errors.
\<close>

theorem create_relation_typed:
  assumes "get_entity d w (cr_source_id input) = Inr src" and "get_entity d w (cr_target_id input) = Inr tgt"
    and "get_by_id d w (en_schema_id src) = Inr schema"
  shows "(case bt_get (md_relation_types (sc_definition schema)) (cr_relation_type input) of
      None \<Rightarrow> \<exists>msg. create_relation i now d w input = Inl (NotFound msg)
    | Some def \<Rightarrow>
        if rt_source def \<noteq> en_entity_type src \<or> rt_target def \<noteq> en_entity_type tgt
        then \<exists>msg. create_relation i now d w input = Inl (RelationTypeMismatch msg)
        else if i \<in> re_id ` set (db_relations d) \<or>
          (\<exists>r \<in> set (db_relations d). re_workspace_id r = w \<and> re_source_id r = cr_source_id input \<and>
             re_target_id r = cr_target_id input \<and> re_relation_type r = cr_relation_type input)
        then \<exists>msg. create_relation i now d w input = Inl (Conflict msg)
        else \<exists>row. create_relation i now d w input = Inr (row, d\<lparr>db_relations := db_relations d @ [row]\<rparr>) \<and>
          re_status row = RelActive \<and> re_source_id row = cr_source_id input \<and>
          re_target_id row = cr_target_id input \<and> re_relation_type row = cr_relation_type input)"
proof -
  have ends: "cr_source_id input \<in> en_id ` set (db_entities d)" "cr_target_id input \<in> en_id ` set (db_entities d)"
    using get_entity_Inr [OF assms(1)] get_entity_Inr [OF assms(2)] by (metis imageI)+
  have dup: "(w, cr_source_id input, cr_target_id input, cr_relation_type input) \<in> relation_key ` set (db_relations d) \<longleftrightarrow>
      (\<exists>r \<in> set (db_relations d). re_workspace_id r = w \<and> re_source_id r = cr_source_id input \<and>
         re_target_id r = cr_target_id input \<and> re_relation_type r = cr_relation_type input)"
    by (auto simp: relation_key_def image_iff)
  show ?thesis
    using assms ends dup
    by (simp add: create_relation_def validate_relation_type_def insert_relation_def Let_def
        relation_key_def split: option.split) blast
qed

theorem create_relation_typed_witness:
  "create_relation 60 8 two_books 3 cite = Inr (citation, two_books\<lparr>db_relations := [citation]\<rparr>) \<and>
   (\<exists>msg. create_relation 61 9 (two_books\<lparr>db_relations := [citation]\<rparr>) 3 cite = Inl (Conflict msg))"
proof -
  let ?d = "two_books\<lparr>db_relations := [citation]\<rparr>"
  have e: "get_entity ?d 3 (cr_source_id cite) = Inr emma"
    "get_entity ?d 3 (cr_target_id cite) = Inr (emma\<lparr>en_id := 51\<rparr>)"
    by (simp_all add: get_entity_def two_books_def emma_def find_row_def cite_def)
  have s: "get_by_id ?d 3 (en_schema_id emma) = Inr followed_schema"
    by (simp add: get_by_id_def two_books_def one_schema_def followed_schema_def emma_def find_row_def)
  have "bt_get (md_relation_types (sc_definition followed_schema)) (cr_relation_type cite) =
      Some \<lparr>rt_source = ''book'', rt_target = ''book'', rt_description = None\<rparr>"
    by (simp add: followed_schema_def sample_definition_def cite_def)
  then show ?thesis
    using create_relation_typed [OF e s, of 61 9] two_books_cite
    by (simp add: emma_def cite_def citation_def)
qed

end
