(* ===== verification/Recall.thy ===== *)
theory Recall
  imports Relation_Store
begin

text \<open>
  \<open>src/models/recall.rs\<close>: the breadth-first traversal around an entity, hop by hop, with a limit on
  the neighbours taken of each node.

  The abstract side is the distance in the graph of active relations.  When no node on the way has
  more neighbours than the limit, the traversal reports exactly the entities within \<open>depth\<close> hops, each
  once and at its distance.
\<close>

definition MAX_RECALL_DEPTH :: int where "MAX_RECALL_DEPTH = 3"
definition DEFAULT_RECALL_DEPTH :: int where "DEFAULT_RECALL_DEPTH = 1"
definition DEFAULT_RECALL_LIMIT :: int where "DEFAULT_RECALL_LIMIT = DEFAULT_NEIGHBORS_LIMIT"

record recall_relation =
  rl_relation_type :: string
  rl_direction :: string
  rl_neighbor :: entity_row
  rl_hop_distance :: int

record recall_context_result =
  rc_entity :: entity_row
  rc_relations :: "recall_relation list"
  rc_truncated :: bool

record recall_query =
  rq_limit :: int
  rq_full :: bool
  rq_depth :: int

definition recall_query_default :: recall_query where
  "recall_query_default = \<lparr>rq_limit = DEFAULT_RECALL_LIMIT, rq_full = False, rq_depth = DEFAULT_RECALL_DEPTH\<rparr>"

fun shallow_fields :: "json btree_map \<Rightarrow> fields \<Rightarrow> json btree_map \<Rightarrow> json btree_map" where
  "shallow_fields data [] shallow = shallow"
| "shallow_fields data (e # es) shallow =
     shallow_fields data es
       (case bt_get data (fst e) of
          Some v \<Rightarrow> if fd_x_embed (snd e) then bt_insert (fst e) v shallow else shallow
        | None \<Rightarrow> shallow)"

definition shallow_copy :: "schema_row \<Rightarrow> entity_row \<Rightarrow> entity_row" where
  "shallow_copy schema entity =
     (let fields = map_option et_fields (bt_get (md_entity_types (sc_definition schema)) (en_entity_type entity));
          shallow = (case (fields, en_data entity) of
              (Some fs, JObj data) \<Rightarrow> shallow_fields data fs []
            | _ \<Rightarrow> [])
      in entity\<lparr>en_data := JObj shallow\<rparr>)"

text \<open>The state of the traversal: \<open>visited\<close>, the cache of schemas, the next frontier, the output.\<close>

record recall_state =
  rs_visited :: "uuid list"
  rs_cache :: "(uuid \<times> schema_row) list"
  rs_next :: "uuid list"
  rs_out :: "recall_relation list"
  rs_truncated :: bool

definition neighbor_body ::
  "db \<Rightarrow> uuid \<Rightarrow> bool \<Rightarrow> (uuid \<times> schema_row) list \<Rightarrow> entity_row \<Rightarrow>
   (entity_row \<times> (uuid \<times> schema_row) list) result" where
  "neighbor_body d workspace_id full cache entity =
     (if full then Inr (entity, cache)
      else (case map_of cache (en_schema_id entity) of
              Some schema \<Rightarrow> Inr (shallow_copy schema entity, cache)
            | None \<Rightarrow>
                rbind (get_by_id d workspace_id (en_schema_id entity)) (\<lambda>schema.
                  Inr (shallow_copy schema entity, (en_schema_id entity, schema) # cache))))"

definition recall_neighbor ::
  "db \<Rightarrow> uuid \<Rightarrow> bool \<Rightarrow> int \<Rightarrow> neighbor \<Rightarrow> recall_state \<Rightarrow> recall_state result" where
  "recall_neighbor d workspace_id full hop n s =
     (if en_id (nb_entity n) \<in> set (rs_visited s) then Inr s
      else rbind (neighbor_body d workspace_id full (rs_cache s) (nb_entity n)) (\<lambda>(body, cache).
        Inr (s\<lparr>rs_visited := en_id (nb_entity n) # rs_visited s, rs_cache := cache,
               rs_next := rs_next s @ [en_id (nb_entity n)],
               rs_out := rs_out s @ [\<lparr>rl_relation_type = nb_relation_type n,
                 rl_direction = nb_direction n, rl_neighbor = body, rl_hop_distance = hop\<rparr>]\<rparr>)))"

fun recall_neighbors ::
  "db \<Rightarrow> uuid \<Rightarrow> bool \<Rightarrow> int \<Rightarrow> neighbor list \<Rightarrow> recall_state \<Rightarrow> recall_state result" where
  "recall_neighbors d w full hop [] s = Inr s"
| "recall_neighbors d w full hop (n # ns) s =
     rbind (recall_neighbor d w full hop n s) (recall_neighbors d w full hop ns)"

fun recall_frontier ::
  "db \<Rightarrow> uuid \<Rightarrow> bool \<Rightarrow> int \<Rightarrow> int \<Rightarrow> (uuid \<Rightarrow> neighbor list option) \<Rightarrow> uuid list \<Rightarrow> recall_state \<Rightarrow>
   recall_state result" where
  "recall_frontier d w full limit hop by_pivot [] s = Inr s"
| "recall_frontier d w full limit hop by_pivot (p # ps) s =
     (case by_pivot p of
        None \<Rightarrow> recall_frontier d w full limit hop by_pivot ps s
      | Some ns \<Rightarrow>
          rbind (recall_neighbors d w full hop (take (nat limit) ns)
                   (s\<lparr>rs_truncated := rs_truncated s \<or> int (length ns) > limit\<rparr>))
            (recall_frontier d w full limit hop (by_pivot(p := None)) ps))"

text \<open>The loop over the hops that remain.\<close>

fun recall_hops ::
  "db \<Rightarrow> uuid \<Rightarrow> bool \<Rightarrow> int \<Rightarrow> nat \<Rightarrow> int \<Rightarrow> uuid list \<Rightarrow> recall_state \<Rightarrow> recall_state result" where
  "recall_hops d w full limit 0 hop frontier s = Inr s"
| "recall_hops d w full limit (Suc left) hop frontier s =
     rbind (recall_frontier d w full limit hop (neighbors_batch d w frontier (limit + 1)) frontier
              (s\<lparr>rs_next := []\<rparr>)) (\<lambda>s'.
       if rs_next s' = [] then Inr s'
       else recall_hops d w full limit left (hop + 1) (rs_next s') s')"

definition recall_context ::
  "db \<Rightarrow> uuid \<Rightarrow> uuid \<Rightarrow> recall_query \<Rightarrow> recall_context_result result" where
  "recall_context d workspace_id entity_id query =
     (let limit = max MIN_NEIGHBORS_LIMIT (min (rq_limit query) MAX_NEIGHBORS_LIMIT);
          depth = max 1 (min (rq_depth query) MAX_RECALL_DEPTH)
      in rbind (get_entity d workspace_id entity_id) (\<lambda>entity.
         rbind (recall_hops d workspace_id (rq_full query) limit (nat depth) 1 [entity_id]
                 \<lparr>rs_visited = [entity_id], rs_cache = [], rs_next = [], rs_out = [],
                  rs_truncated = False\<rparr>) (\<lambda>s.
         Inr \<lparr>rc_entity = entity, rc_relations = rs_out s, rc_truncated = rs_truncated s\<rparr>)))"

section \<open>Shallow copies\<close>

lemma shallow_fields_get:
  "bt_wf fs \<Longrightarrow> bt_get (shallow_fields data fs acc) k =
     (case bt_get fs k of
        None \<Rightarrow> bt_get acc k
      | Some f \<Rightarrow> if fd_x_embed f \<and> bt_get data k \<noteq> None then bt_get data k else bt_get acc k)"
proof (induction fs arbitrary: acc)
  case Nil
  then show ?case by simp
next
  case (Cons e es)
  have "bt_get es (fst e) = None" "bt_wf es"
    using Cons.prems by (auto simp: bt_wf_Cons bt_get_eq_None)
  then show ?case
    using Cons.IH by (auto simp: bt_get_insert split: option.splits)
qed

section \<open>Distances\<close>

definition neighbor_ids :: "db \<Rightarrow> uuid \<Rightarrow> uuid \<Rightarrow> uuid set" where
  "neighbor_ids d w x = (\<lambda>n. en_id (nb_entity n)) ` set (all_neighbors d w x)"

text \<open>The entities at most \<open>n\<close> hops away.\<close>

fun within_hops :: "db \<Rightarrow> uuid \<Rightarrow> uuid \<Rightarrow> nat \<Rightarrow> uuid set" where
  "within_hops d w x 0 = {x}"
| "within_hops d w x (Suc n) = within_hops d w x n \<union> (\<Union>y \<in> within_hops d w x n. neighbor_ids d w y)"

lemma within_hops_mono: "m \<le> n \<Longrightarrow> within_hops d w x m \<subseteq> within_hops d w x n"
  by (rule lift_Suc_mono_le) auto

text \<open>What the traversal keeps true: its output lists the visited nodes but the start, each once.\<close>

definition out_ids :: "recall_relation list \<Rightarrow> uuid list" where
  "out_ids rs = map (\<lambda>r. en_id (rl_neighbor r)) rs"

definition recall_ok :: "uuid \<Rightarrow> recall_state \<Rightarrow> bool" where
  "recall_ok x s \<longleftrightarrow> distinct (rs_visited s) \<and> rs_visited s = rev (x # out_ids (rs_out s))"

lemma shallow_copy_id [simp]: "en_id (shallow_copy s e) = en_id e"
  by (simp add: shallow_copy_def Let_def)

lemma neighbor_body_id: "neighbor_body d w full cache e = Inr (b, c) \<Longrightarrow> en_id b = en_id e"
  by (auto simp: neighbor_body_def res_simps split: if_splits option.splits)

lemma recall_neighbor_Inr:
  assumes "recall_neighbor d w full hop n s = Inr s'" and "recall_ok x s"
  shows "recall_ok x s' \<and> rs_truncated s' = rs_truncated s \<and>
    set (rs_visited s') = insert (en_id (nb_entity n)) (set (rs_visited s)) \<and>
    (\<exists>new. rs_out s' = rs_out s @ new \<and> rs_next s' = rs_next s @ out_ids new \<and>
       (\<forall>r \<in> set new. rl_hop_distance r = hop))"
proof (cases "en_id (nb_entity n) \<in> set (rs_visited s)")
  case True
  then have "s' = s" using assms(1) by (simp add: recall_neighbor_def)
  then show ?thesis using True assms(2) by (auto simp: out_ids_def insert_absorb)
next
  case False
  then obtain b c where "neighbor_body d w full (rs_cache s) (nb_entity n) = Inr (b, c)"
    and s': "s' = s\<lparr>rs_visited := en_id (nb_entity n) # rs_visited s, rs_cache := c,
               rs_next := rs_next s @ [en_id (nb_entity n)],
               rs_out := rs_out s @ [\<lparr>rl_relation_type = nb_relation_type n,
                 rl_direction = nb_direction n, rl_neighbor = b, rl_hop_distance = hop\<rparr>]\<rparr>"
    using assms(1) by (auto simp: recall_neighbor_def res_simps)
  then show ?thesis
    using False assms(2) neighbor_body_id by (auto simp: recall_ok_def out_ids_def)
qed

lemma recall_neighbors_Inr:
  assumes "recall_neighbors d w full hop ns s = Inr s'" and "recall_ok x s"
  shows "recall_ok x s' \<and> rs_truncated s' = rs_truncated s \<and>
    set (rs_visited s') = (\<lambda>n. en_id (nb_entity n)) ` set ns \<union> set (rs_visited s) \<and>
    (\<exists>new. rs_out s' = rs_out s @ new \<and> rs_next s' = rs_next s @ out_ids new \<and>
       (\<forall>r \<in> set new. rl_hop_distance r = hop))"
  using assms
proof (induction ns arbitrary: s)
  case Nil
  then show ?case by (auto simp: out_ids_def)
next
  case (Cons n ns)
  then obtain s1 where s1: "recall_neighbor d w full hop n s = Inr s1"
    and rest: "recall_neighbors d w full hop ns s1 = Inr s'"
    by (auto simp: res_simps)
  note one = recall_neighbor_Inr [OF s1 Cons.prems(2)]
  note more = Cons.IH [OF rest conjunct1 [OF one]]
  obtain new1 where new1: "rs_out s1 = rs_out s @ new1" "rs_next s1 = rs_next s @ out_ids new1"
    "\<forall>r \<in> set new1. rl_hop_distance r = hop" using one by blast
  obtain new2 where new2: "rs_out s' = rs_out s1 @ new2" "rs_next s' = rs_next s1 @ out_ids new2"
    "\<forall>r \<in> set new2. rl_hop_distance r = hop" using more by blast
  show ?case
    using one more new1 new2 by (intro conjI exI [of _ "new1 @ new2"]) (auto simp: out_ids_def)
qed

lemma recall_frontier_Inr:
  assumes "recall_frontier d w full limit hop by_pivot ps s = Inr s'" and "recall_ok x s" and "distinct ps"
    and "\<And>p. p \<in> set ps \<Longrightarrow> by_pivot p =
      (if all_neighbors d w p = [] then None else Some (all_neighbors d w p))"
    and "\<And>p. p \<in> set ps \<Longrightarrow> int (length (all_neighbors d w p)) \<le> limit"
  shows "recall_ok x s' \<and> rs_truncated s' = rs_truncated s \<and>
    set (rs_visited s') = (\<Union>p \<in> set ps. neighbor_ids d w p) \<union> set (rs_visited s) \<and>
    (\<exists>new. rs_out s' = rs_out s @ new \<and> rs_next s' = rs_next s @ out_ids new \<and>
       (\<forall>r \<in> set new. rl_hop_distance r = hop))"
  using assms
proof (induction ps arbitrary: s by_pivot)
  case Nil
  then show ?case by (auto simp: out_ids_def)
next
  case (Cons p ps)
  have pivots: "\<And>q. q \<in> set ps \<Longrightarrow> (by_pivot(p := None)) q =
      (if all_neighbors d w q = [] then None else Some (all_neighbors d w q))"
    using Cons.prems(3,4) by auto
  show ?case
  proof (cases "all_neighbors d w p = []")
    case True
    then have "recall_frontier d w full limit hop by_pivot ps s = Inr s'"
      using Cons.prems(1,4) by simp
    then have "recall_ok x s' \<and> rs_truncated s' = rs_truncated s \<and>
        set (rs_visited s') = (\<Union>p \<in> set ps. neighbor_ids d w p) \<union> set (rs_visited s) \<and>
        (\<exists>new. rs_out s' = rs_out s @ new \<and> rs_next s' = rs_next s @ out_ids new \<and>
           (\<forall>r \<in> set new. rl_hop_distance r = hop))"
      by (rule Cons.IH) (use Cons.prems in auto)
    then show ?thesis using True by (simp add: neighbor_ids_def)
  next
    case False
    let ?ns = "all_neighbors d w p"
    have len: "int (length ?ns) \<le> limit" using Cons.prems(5) by simp
    have start: "s\<lparr>rs_truncated := rs_truncated s \<or> int (length ?ns) > limit\<rparr> = s"
      using len by simp
    obtain s1 where s1: "recall_neighbors d w full hop ?ns s = Inr s1"
      and rest: "recall_frontier d w full limit hop (by_pivot(p := None)) ps s1 = Inr s'"
      using Cons.prems(1,4) False len start by (auto simp: res_simps nat_le_iff)
    note one = recall_neighbors_Inr [OF s1 Cons.prems(2)]
    have more: "recall_ok x s' \<and> rs_truncated s' = rs_truncated s1 \<and>
        set (rs_visited s') = (\<Union>p \<in> set ps. neighbor_ids d w p) \<union> set (rs_visited s1) \<and>
        (\<exists>new. rs_out s' = rs_out s1 @ new \<and> rs_next s' = rs_next s1 @ out_ids new \<and>
           (\<forall>r \<in> set new. rl_hop_distance r = hop))"
      by (rule Cons.IH [OF rest]) (use one Cons.prems(3,5) pivots in auto)
    obtain new1 where new1: "rs_out s1 = rs_out s @ new1" "rs_next s1 = rs_next s @ out_ids new1"
      "\<forall>r \<in> set new1. rl_hop_distance r = hop" using one by blast
    obtain new2 where new2: "rs_out s' = rs_out s1 @ new2" "rs_next s' = rs_next s1 @ out_ids new2"
      "\<forall>r \<in> set new2. rl_hop_distance r = hop" using more by blast
    show ?thesis
      using one more new1 new2
      by (intro conjI exI [of _ "new1 @ new2"]) (auto simp: out_ids_def neighbor_ids_def)
  qed
qed

text \<open>What each hop establishes: the visited nodes are those within the distance travelled.\<close>

definition level :: "db \<Rightarrow> uuid \<Rightarrow> uuid \<Rightarrow> nat \<Rightarrow> uuid set" where
  "level d w x h = (if h = 0 then {x} else within_hops d w x h - within_hops d w x (h - 1))"

definition hops_ok :: "db \<Rightarrow> uuid \<Rightarrow> uuid \<Rightarrow> nat \<Rightarrow> uuid list \<Rightarrow> recall_state \<Rightarrow> bool" where
  "hops_ok d w x k frontier s \<longleftrightarrow>
     recall_ok x s \<and> set (rs_visited s) = within_hops d w x k \<and> set frontier = level d w x k \<and> distinct frontier \<and>
     (\<forall>r \<in> set (rs_out s). \<exists>h. rl_hop_distance r = int h \<and> 1 \<le> h \<and> h \<le> k \<and>
        en_id (rl_neighbor r) \<in> level d w x h)"

lemma within_hops_step:
  "within_hops d w x (Suc k) = within_hops d w x k \<union> (\<Union>y \<in> level d w x k. neighbor_ids d w y)"
proof (cases k)
  case (Suc j)
  have "(\<Union>y \<in> within_hops d w x j. neighbor_ids d w y) \<subseteq> within_hops d w x k" by (auto simp: Suc)
  then show ?thesis by (auto simp: level_def Suc)
qed (simp add: level_def)

lemma hop_step:
  assumes ok: "hops_ok d w x k frontier s"
    and run: "recall_frontier d w full limit (int (Suc k)) (neighbors_batch d w frontier (limit + 1)) frontier
      (s\<lparr>rs_next := []\<rparr>) = Inr s'"
    and limit: "1 \<le> limit" "limit \<le> 200"
    and small: "\<And>y. y \<in> within_hops d w x k \<Longrightarrow> int (length (all_neighbors d w y)) \<le> limit"
  shows "hops_ok d w x (Suc k) (rs_next s') s' \<and> rs_truncated s' = rs_truncated s"
proof -
  have front: "y \<in> within_hops d w x k" if "y \<in> set frontier" for y
    using that ok by (auto simp: hops_ok_def level_def split: if_splits)
  have pivots: "neighbors_batch d w frontier (limit + 1) p =
      (if all_neighbors d w p = [] then None else Some (all_neighbors d w p))" if "p \<in> set frontier" for p
  proof -
    have "length (all_neighbors d w p) \<le> nat (max MIN_NEIGHBORS_LIMIT (min (limit + 1) MAX_NEIGHBORS_LIMIT))"
      using small [OF front [OF that]] limit by (simp add: MIN_NEIGHBORS_LIMIT_def MAX_NEIGHBORS_LIMIT_def)
    then show ?thesis using that by (simp add: neighbors_batch_get Let_def)
  qed
  have r: "recall_ok x s' \<and> rs_truncated s' = rs_truncated (s\<lparr>rs_next := []\<rparr>) \<and>
      set (rs_visited s') = (\<Union>p \<in> set frontier. neighbor_ids d w p) \<union> set (rs_visited (s\<lparr>rs_next := []\<rparr>)) \<and>
      (\<exists>new. rs_out s' = rs_out (s\<lparr>rs_next := []\<rparr>) @ new \<and> rs_next s' = rs_next (s\<lparr>rs_next := []\<rparr>) @ out_ids new \<and>
         (\<forall>r \<in> set new. rl_hop_distance r = int (Suc k)))"
    by (rule recall_frontier_Inr [OF run]) (use ok pivots small front in \<open>auto simp: hops_ok_def recall_ok_def\<close>)
  then obtain new where new: "rs_out s' = rs_out s @ new" "rs_next s' = out_ids new"
    "\<forall>r \<in> set new. rl_hop_distance r = int (Suc k)" by auto
  have visited: "set (rs_visited s') = within_hops d w x (Suc k)"
    using r ok by (auto simp: within_hops_step hops_ok_def simp del: within_hops.simps)
  have split: "rs_visited s' = rev (out_ids new) @ rs_visited s"
    using r ok new(1) by (simp add: hops_ok_def recall_ok_def out_ids_def)
  have "distinct (rs_visited s')" using r unfolding recall_ok_def by blast
  then have fresh: "set (out_ids new) = level d w x (Suc k)" "distinct (out_ids new)"
    using split visited ok unfolding level_def hops_ok_def
    by (auto simp del: within_hops.simps)
  have "\<forall>r \<in> set new. en_id (rl_neighbor r) \<in> level d w x (Suc k)"
    using fresh(1) by (auto simp: out_ids_def)
  then have outs: "\<forall>r \<in> set (rs_out s'). \<exists>h. rl_hop_distance r = int h \<and> 1 \<le> h \<and> h \<le> Suc k \<and>
      en_id (rl_neighbor r) \<in> level d w x h"
  proof (intro ballI)
    fix r
    assume "r \<in> set (rs_out s')" and new_ok: "\<forall>r \<in> set new. en_id (rl_neighbor r) \<in> level d w x (Suc k)"
    then consider "r \<in> set (rs_out s)" | "r \<in> set new" using new(1) by auto
    then show "\<exists>h. rl_hop_distance r = int h \<and> 1 \<le> h \<and> h \<le> Suc k \<and> en_id (rl_neighbor r) \<in> level d w x h"
    proof cases
      case 1
      then obtain h where "rl_hop_distance r = int h" "1 \<le> h" "h \<le> k" "en_id (rl_neighbor r) \<in> level d w x h"
        using ok unfolding hops_ok_def by blast
      then show ?thesis by (intro exI [of _ h]) simp
    next
      case 2
      then show ?thesis using new(3) new_ok by (intro exI [of _ "Suc k"]) simp
    qed
  qed
  show ?thesis
    using r visited fresh new(2) outs unfolding hops_ok_def by simp
qed

lemma level_empty:
  assumes "level d w x (Suc k) = {}"
  shows "within_hops d w x (k + n) = within_hops d w x k \<and> level d w x (Suc k + n) = {}"
proof (induction n)
  case (Suc n)
  have "within_hops d w x (Suc (k + n)) = within_hops d w x k"
  proof -
    have "level d w x (Suc (k + n)) = {}" using Suc by simp
    then have "within_hops d w x (Suc (k + n)) \<subseteq> within_hops d w x (k + n)" by (simp add: level_def)
    then show ?thesis using Suc within_hops_mono [of "k + n" "Suc (k + n)" d w x] by auto
  qed
  moreover have "within_hops d w x (Suc (Suc (k + n))) = within_hops d w x (Suc (k + n))"
    using within_hops_step [of d w x "Suc (k + n)"] Suc by simp
  ultimately show ?case by (simp add: level_def del: within_hops.simps)
qed (use assms in \<open>simp add: level_def\<close>)

lemma recall_hops_ok:
  assumes "hops_ok d w x k frontier s"
    and "recall_hops d w full limit n (int (Suc k)) frontier s = Inr s'"
    and "1 \<le> limit" "limit \<le> 200"
    and "\<And>y. y \<in> within_hops d w x (k + n) \<Longrightarrow> int (length (all_neighbors d w y)) \<le> limit"
  shows "(\<exists>f. hops_ok d w x (k + n) f s') \<and> rs_truncated s' = rs_truncated s"
  using assms(1,2,5)
proof (induction n arbitrary: k frontier s)
  case 0
  then show ?case by auto
next
  case (Suc n)
  obtain s1 where s1: "recall_frontier d w full limit (int (Suc k)) (neighbors_batch d w frontier (limit + 1)) frontier
      (s\<lparr>rs_next := []\<rparr>) = Inr s1"
    and rest: "(if rs_next s1 = [] then Inr s1 else recall_hops d w full limit n (int (Suc k) + 1) (rs_next s1) s1) = Inr s'"
    using Suc.prems(2) unfolding recall_hops.simps rbind_Inr_iff by blast
  have small: "int (length (all_neighbors d w y)) \<le> limit" if "y \<in> within_hops d w x k" for y
    by (rule Suc.prems(3)) (rule subsetD [OF within_hops_mono that], simp)
  have step: "hops_ok d w x (Suc k) (rs_next s1) s1" "rs_truncated s1 = rs_truncated s"
    using hop_step [OF Suc.prems(1) s1 assms(3,4)] small by auto
  show ?case
  proof (cases "rs_next s1 = []")
    case True
    then have empty: "level d w x (Suc k) = {}" using step(1) by (auto simp: hops_ok_def)
    have "s' = s1" using rest True by simp
    moreover have "hops_ok d w x (k + Suc n) [] s1"
      using step(1) level_empty [OF empty, of n] level_empty [OF empty, of "Suc n"] level_empty [OF empty, of 1]
      unfolding hops_ok_def by (fastforce simp del: within_hops.simps)
    ultimately show ?thesis using step(2) by blast
  next
    case False
    then have "recall_hops d w full limit n (int (Suc (Suc k))) (rs_next s1) s1 = Inr s'"
      using rest by (simp add: add.commute)
    then have "(\<exists>f. hops_ok d w x (Suc k + n) f s') \<and> rs_truncated s' = rs_truncated s1"
      by (rule Suc.IH [OF step(1)]) (use Suc.prems(3) in auto)
    then show ?thesis using step(2) by simp
  qed
qed

lemma initial_ok:
  "hops_ok d w x 0 [x] \<lparr>rs_visited = [x], rs_cache = [], rs_next = [], rs_out = [], rs_truncated = False\<rparr>"
  by (simp add: hops_ok_def recall_ok_def out_ids_def level_def)

section \<open>The traversal returns\<close>

lemma all_neighbors_entity:
  "n \<in> set (all_neighbors d w p) \<Longrightarrow> nb_entity n \<in> set (db_entities d) \<and> en_workspace_id (nb_entity n) = w"
  by (auto simp: all_neighbors_def neighbor_branch_def table_simps)

lemma recall_neighbors_returns:
  assumes "\<And>n. n \<in> set ns \<Longrightarrow> owned_schema d w (en_schema_id (nb_entity n))"
  shows "\<exists>s'. recall_neighbors d w full hop ns s = Inr s'"
  using assms
proof (induction ns arbitrary: s)
  case (Cons n ns)
  have "\<exists>sc. get_by_id d w (en_schema_id (nb_entity n)) = Inr sc"
    using Cons.prems [of n]
    by (cases "find_row (\<lambda>s. sc_workspace_id s = w \<and> sc_id s = en_schema_id (nb_entity n)) (db_schemas d)")
      (auto simp: get_by_id_def owned_schema_def table_simps)
  then have "\<exists>s1. recall_neighbor d w full hop n s = Inr s1"
    by (auto simp: recall_neighbor_def neighbor_body_def split: option.split)
  then show ?case using Cons by auto
qed simp

lemma recall_frontier_returns:
  assumes "\<And>p ns n. by_pivot p = Some ns \<Longrightarrow> n \<in> set ns \<Longrightarrow> owned_schema d w (en_schema_id (nb_entity n))"
  shows "\<exists>s'. recall_frontier d w full limit hop by_pivot ps s = Inr s'"
  using assms
proof (induction ps arbitrary: s by_pivot)
  case (Cons p ps)
  show ?case
  proof (cases "by_pivot p")
    case None
    then show ?thesis using Cons by simp
  next
    case (Some ns)
    obtain s1 where "recall_neighbors d w full hop (take (nat limit) ns)
        (s\<lparr>rs_truncated := rs_truncated s \<or> int (length ns) > limit\<rparr>) = Inr s1"
      using recall_neighbors_returns [of "take (nat limit) ns"] Cons.prems [OF Some] by (meson in_set_takeD)
    moreover have "\<exists>s'. recall_frontier d w full limit hop (by_pivot(p := None)) ps s1 = Inr s'"
      by (rule Cons.IH) (use Cons.prems in \<open>auto split: if_splits\<close>)
    ultimately show ?thesis using Some by auto
  qed
qed simp

lemma recall_hops_returns:
  assumes "\<And>e. e \<in> set (db_entities d) \<Longrightarrow> en_workspace_id e = w \<Longrightarrow> owned_schema d w (en_schema_id e)"
  shows "\<exists>s'. recall_hops d w full limit n hop frontier s = Inr s'"
proof (induction n arbitrary: hop frontier s)
  case (Suc n)
  have "\<exists>s1. recall_frontier d w full limit hop (neighbors_batch d w frontier (limit + 1)) frontier
      (s\<lparr>rs_next := []\<rparr>) = Inr s1"
    by (rule recall_frontier_returns)
      (use assms all_neighbors_entity in \<open>auto simp: neighbors_batch_get Let_def dest!: in_set_takeD split: if_splits\<close>)
  then show ?case using Suc by auto
qed simp

section \<open>Properties\<close>

definition recall_limit :: "recall_query \<Rightarrow> int" where
  "recall_limit q = max MIN_NEIGHBORS_LIMIT (min (rq_limit q) MAX_NEIGHBORS_LIMIT)"

definition recall_depth :: "recall_query \<Rightarrow> nat" where
  "recall_depth q = nat (max 1 (min (rq_depth q) MAX_RECALL_DEPTH))"

lemma recall_limit_range: "1 \<le> recall_limit q" "recall_limit q \<le> 200"
  by (simp_all add: recall_limit_def MIN_NEIGHBORS_LIMIT_def MAX_NEIGHBORS_LIMIT_def)

lemma recall_context_run:
  "recall_context d w x q = rbind (get_entity d w x) (\<lambda>entity.
     rbind (recall_hops d w (rq_full q) (recall_limit q) (recall_depth q) 1 [x]
              \<lparr>rs_visited = [x], rs_cache = [], rs_next = [], rs_out = [], rs_truncated = False\<rparr>) (\<lambda>s.
       Inr \<lparr>rc_entity = entity, rc_relations = rs_out s, rc_truncated = rs_truncated s\<rparr>))"
  by (simp add: recall_context_def recall_limit_def recall_depth_def Let_def)

text \<open>
  Property C11. When no entity within reach has more neighbours than the limit, \<open>recall_context\<close> returns
  (for every entity whose neighbours' schemas exist) and is an exact breadth-first search: it reports
  every entity at distance 1 up to the depth, each exactly once, tagged with its shortest distance, and
  nothing else; it is not marked truncated and cycles do not repeat an entity.
\<close>

theorem recall_is_breadth_first:
  assumes "get_entity d w x = Inr e"
    and "\<And>e. e \<in> set (db_entities d) \<Longrightarrow> en_workspace_id e = w \<Longrightarrow> owned_schema d w (en_schema_id e)"
    and "\<And>y. y \<in> within_hops d w x (recall_depth q) \<Longrightarrow> int (length (all_neighbors d w y)) \<le> recall_limit q"
  shows "\<exists>r. recall_context d w x q = Inr r \<and> rc_entity r = e \<and> \<not> rc_truncated r \<and>
    distinct (x # out_ids (rc_relations r)) \<and>
    set (out_ids (rc_relations r)) = within_hops d w x (recall_depth q) - {x} \<and>
    (\<forall>n \<in> set (rc_relations r). \<exists>h. rl_hop_distance n = int h \<and> 1 \<le> h \<and> h \<le> recall_depth q \<and>
       en_id (rl_neighbor n) \<in> within_hops d w x h - within_hops d w x (h - 1))"
proof -
  let ?s0 = "\<lparr>rs_visited = [x], rs_cache = [], rs_next = [], rs_out = [], rs_truncated = False\<rparr>"
  obtain s where s: "recall_hops d w (rq_full q) (recall_limit q) (recall_depth q) 1 [x] ?s0 = Inr s"
    using recall_hops_returns [of d w, OF assms(2)] by blast
  then have "recall_hops d w (rq_full q) (recall_limit q) (recall_depth q) (int (Suc 0)) [x] ?s0 = Inr s" by simp
  from recall_hops_ok [OF initial_ok this recall_limit_range] assms(3)
  obtain f where ok: "hops_ok d w x (recall_depth q) f s" and t: "rs_truncated s = False" by auto
  have visited: "rs_visited s = rev (x # out_ids (rs_out s))" "distinct (rs_visited s)"
    "set (rs_visited s) = within_hops d w x (recall_depth q)"
    using ok unfolding hops_ok_def recall_ok_def by auto
  have dist: "distinct (x # out_ids (rs_out s))" using visited(1,2) by simp
  have ids: "set (out_ids (rs_out s)) = within_hops d w x (recall_depth q) - {x}"
    using visited dist by auto
  have hops: "\<forall>n \<in> set (rs_out s). \<exists>h. rl_hop_distance n = int h \<and> 1 \<le> h \<and> h \<le> recall_depth q \<and>
       en_id (rl_neighbor n) \<in> within_hops d w x h - within_hops d w x (h - 1)"
    using ok unfolding hops_ok_def level_def by fastforce
  show ?thesis
    using s assms(1) t dist ids hops by (simp add: recall_context_run)
qed

definition citing_books :: db where
  "citing_books = two_books\<lparr>db_relations := [citation]\<rparr>"

lemma citing_neighbors:
  "map (\<lambda>n. en_id (nb_entity n)) (all_neighbors citing_books 3 y) = (if y = 50 then [51] else if y = 51 then [50] else [])"
  by (simp add: all_neighbors_def neighbor_branch_def select_where_def citing_books_def two_books_def
      citation_def emma_def)

theorem recall_is_breadth_first_witness:
  "\<exists>r. recall_context citing_books 3 50 recall_query_default = Inr r \<and> out_ids (rc_relations r) = [51]"
proof -
  have e: "get_entity citing_books 3 50 = Inr emma"
    by (simp add: get_entity_def citing_books_def two_books_def emma_def find_row_def)
  have own: "owned_schema citing_books 3 (en_schema_id e)" if "e \<in> set (db_entities citing_books)" for e
    using that by (auto simp: citing_books_def two_books_def one_schema_def owned_schema_def followed_schema_def emma_def)
  have len: "int (length (all_neighbors citing_books 3 y)) \<le> recall_limit recall_query_default" for y
    using arg_cong [OF citing_neighbors [of y], of length]
    by (simp add: recall_limit_def recall_query_default_def DEFAULT_RECALL_LIMIT_def
        DEFAULT_NEIGHBORS_LIMIT_def MIN_NEIGHBORS_LIMIT_def MAX_NEIGHBORS_LIMIT_def split: if_splits)
  have ids: "neighbor_ids citing_books 3 50 = {51}"
    using arg_cong [OF citing_neighbors [of 50], of set] by (simp add: neighbor_ids_def)
  have depth: "recall_depth recall_query_default = Suc 0"
    by (simp add: recall_depth_def recall_query_default_def DEFAULT_RECALL_DEPTH_def MAX_RECALL_DEPTH_def)
  have reach: "within_hops citing_books 3 50 (recall_depth recall_query_default) - {50} = {51}"
    using depth ids by auto
  obtain r where r: "recall_context citing_books 3 50 recall_query_default = Inr r"
    "distinct (50 # out_ids (rc_relations r))" "set (out_ids (rc_relations r)) = {51}"
    using recall_is_breadth_first [OF e own len] unfolding reach by blast
  then have "length (out_ids (rc_relations r)) = card {51 :: nat}"
    by (metis distinct.simps(2) distinct_card)
  then have "out_ids (rc_relations r) = [51]"
    using r(3) by (cases "out_ids (rc_relations r)") auto
  then show ?thesis using r(1) by blast
qed

section \<open>Truncation at the upper bound\<close>

lemma recall_neighbor_truncated:
  "recall_neighbor d w full hop n s = Inr s' \<Longrightarrow> rs_truncated s' = rs_truncated s"
  by (auto simp: recall_neighbor_def rbind_Inr_iff split: if_splits)

lemma recall_neighbors_truncated:
  "recall_neighbors d w full hop ns s = Inr s' \<Longrightarrow> rs_truncated s' = rs_truncated s"
  by (induction ns arbitrary: s) (auto simp: rbind_Inr_iff dest: recall_neighbor_truncated)

lemma recall_frontier_truncated:
  assumes "recall_frontier d w full limit hop by_pivot ps s = Inr s'"
    and "\<And>p ns. by_pivot p = Some ns \<Longrightarrow> int (length ns) \<le> limit"
  shows "rs_truncated s' = rs_truncated s"
  using assms
proof (induction ps arbitrary: s by_pivot)
  case (Cons p ps)
  show ?case
  proof (cases "by_pivot p")
    case None
    then show ?thesis using Cons by simp
  next
    case (Some ns)
    then obtain s1 where s1: "recall_neighbors d w full hop (take (nat limit) ns)
        (s\<lparr>rs_truncated := rs_truncated s \<or> int (length ns) > limit\<rparr>) = Inr s1"
      and rest: "recall_frontier d w full limit hop (by_pivot(p := None)) ps s1 = Inr s'"
      using Cons.prems(1) by (auto simp: rbind_Inr_iff)
    have "rs_truncated s' = rs_truncated s1"
      by (rule Cons.IH [OF rest]) (use Cons.prems(2) in \<open>auto split: if_splits\<close>)
    then show ?thesis
      using recall_neighbors_truncated [OF s1] Cons.prems(2) [OF Some] by simp
  qed
qed simp

lemma neighbors_batch_bounded:
  "neighbors_batch d w ps limit p = Some ns \<Longrightarrow> int (length ns) \<le> 200"
  by (auto simp: neighbors_batch_get Let_def MIN_NEIGHBORS_LIMIT_def MAX_NEIGHBORS_LIMIT_def split: if_splits)

lemma recall_hops_truncated:
  assumes "recall_hops d w full 200 n hop frontier s = Inr s'"
  shows "rs_truncated s' = rs_truncated s"
  using assms
proof (induction n arbitrary: hop frontier s)
  case (Suc n)
  from Suc.prems obtain s1 where s1: "recall_frontier d w full 200 hop (neighbors_batch d w frontier (200 + 1)) frontier
      (s\<lparr>rs_next := []\<rparr>) = Inr s1"
    and rest: "(if rs_next s1 = [] then Inr s1 else recall_hops d w full 200 n (hop + 1) (rs_next s1) s1) = Inr s'"
    unfolding recall_hops.simps rbind_Inr_iff by blast
  have "rs_truncated s1 = rs_truncated s"
    using recall_frontier_truncated [OF s1] neighbors_batch_bounded by auto
  then show ?case
    using rest Suc.IH [of "hop + 1" "rs_next s1" s1] by (auto split: if_splits)
qed simp

text \<open>
  With a limit at the upper bound (200 and above) a result is never marked truncated, however
  many neighbours an entity has: the row beyond the limit that would reveal the truncation is cut off by
  the clamp inside \<open>neighbors_batch\<close>.  Neighbours beyond the 200th are then dropped silently.
\<close>

theorem recall_truncation_silent:
  assumes "200 \<le> rq_limit q" and "recall_context d w x q = Inr r"
  shows "\<not> rc_truncated r"
proof -
  have "recall_limit q = 200"
    using assms(1) by (simp add: recall_limit_def MIN_NEIGHBORS_LIMIT_def MAX_NEIGHBORS_LIMIT_def)
  then show ?thesis
    using assms(2) by (auto simp: recall_context_run rbind_Inr_iff dest: recall_hops_truncated)
qed

theorem recall_truncation_silent_witness:
  "\<exists>r. recall_context citing_books 3 50 \<lparr>rq_limit = 500, rq_full = True, rq_depth = 2\<rparr> = Inr r \<and>
     \<not> rc_truncated r"
proof -
  let ?q = "\<lparr>rq_limit = 500, rq_full = True, rq_depth = 2\<rparr> :: recall_query"
  have "get_entity citing_books 3 50 = Inr emma"
    by (simp add: get_entity_def citing_books_def two_books_def emma_def find_row_def)
  moreover have "owned_schema citing_books 3 (en_schema_id e)" if "e \<in> set (db_entities citing_books)" for e
    using that by (auto simp: citing_books_def two_books_def one_schema_def owned_schema_def followed_schema_def emma_def)
  ultimately have "\<exists>r. recall_context citing_books 3 50 ?q = Inr r"
    unfolding recall_context_run rbind_Inr_iff using recall_hops_returns [of citing_books 3] by blast
  then obtain r where r: "recall_context citing_books 3 50 ?q = Inr r" ..
  then show ?thesis using recall_truncation_silent [OF _ r] by simp
qed

end
