(* ===== verification/Access.thy ===== *)
theory Access
  imports Entity_Store
begin

text \<open>
  \<open>src/models/access.rs\<close>, the decisions of \<open>src/models/api_keys.rs\<close> and \<open>tenant_memberships\<close>,
  and the workspace discovery of \<open>src/models/tenancy.rs\<close>: scopes, roles, what a credential may do now,
  and which workspaces a user can reach.

  The lemmas show that a role restricts a stored grant and never widens it, and that discovery lists
  exactly the workspaces the access decision admits.
\<close>

section \<open>Scopes\<close>

datatype api_key_scope = ScopeRead | ScopeWrite | ScopeSchema | ScopeMigration

primrec scope_rank :: "api_key_scope \<Rightarrow> nat" where
  "scope_rank ScopeRead = 0"
| "scope_rank ScopeWrite = 1"
| "scope_rank ScopeSchema = 2"
| "scope_rank ScopeMigration = 3"

text \<open>The order Rust derives from the order of declaration.\<close>

instantiation api_key_scope :: linorder
begin

definition less_eq_api_key_scope :: "api_key_scope \<Rightarrow> api_key_scope \<Rightarrow> bool" where
  "less_eq_api_key_scope a b \<longleftrightarrow> scope_rank a \<le> scope_rank b"

definition less_api_key_scope :: "api_key_scope \<Rightarrow> api_key_scope \<Rightarrow> bool" where
  "less_api_key_scope a b \<longleftrightarrow> scope_rank a < scope_rank b"

instance
proof
  fix a b :: api_key_scope
  show "a \<le> b \<Longrightarrow> b \<le> a \<Longrightarrow> a = b"
    by (cases a; cases b) (simp_all add: less_eq_api_key_scope_def)
qed (auto simp: less_eq_api_key_scope_def less_api_key_scope_def)

end

lemmas scope_order = less_eq_api_key_scope_def less_api_key_scope_def

definition satisfies :: "api_key_scope \<Rightarrow> api_key_scope \<Rightarrow> bool" where
  "satisfies s required \<longleftrightarrow> s \<ge> required"

datatype membership_role = RoleOwner | RoleAdmin | RoleMember | RoleViewer

fun role_max_scope :: "membership_role \<Rightarrow> api_key_scope" where
  "role_max_scope RoleOwner = ScopeMigration"
| "role_max_scope RoleAdmin = ScopeMigration"
| "role_max_scope RoleMember = ScopeWrite"
| "role_max_scope RoleViewer = ScopeRead"

definition administers_tenant :: "membership_role \<Rightarrow> bool" where
  "administers_tenant r \<longleftrightarrow> r \<in> {RoleOwner, RoleAdmin}"

datatype workspace_role = WsAdmin | WsMember | WsViewer

fun workspace_role_max_scope :: "workspace_role \<Rightarrow> api_key_scope" where
  "workspace_role_max_scope WsAdmin = ScopeMigration"
| "workspace_role_max_scope WsMember = ScopeWrite"
| "workspace_role_max_scope WsViewer = ScopeRead"

section \<open>State\<close>

record tenant_row =
  tn_id :: uuid
  tn_name :: string
  tn_max_workspaces :: "int option"
  tn_disabled_at :: "instant option"

record user_row =
  us_id :: uuid
  us_email :: string
  us_display_name :: "string option"

record membership_row =
  mb_tenant_id :: uuid
  mb_user_id :: uuid
  mb_role :: membership_role
  mb_created_at :: instant

record workspace_membership_row =
  wm_workspace_id :: uuid
  wm_user_id :: uuid
  wm_role :: workspace_role

record api_key_row =
  ak_id :: uuid
  ak_tenant_id :: uuid
  ak_workspace_id :: "uuid option"
  ak_user_id :: "uuid option"
  ak_key_hash :: string
  ak_key_prefix :: string
  ak_name :: string
  ak_scope :: api_key_scope
  ak_audit :: bool
  ak_expires_at :: "instant option"
  ak_revoked_at :: "instant option"
  ak_replaced_by_id :: "uuid option"
  ak_created_at :: instant

record identity_db =
  id_store :: db
  id_tenants :: "tenant_row list"
  id_users :: "user_row list"
  id_members :: "membership_row list"
  id_workspace_members :: "workspace_membership_row list"
  id_keys :: "api_key_row list"

section \<open>Decisions\<close>

definition require_active :: "identity_db \<Rightarrow> uuid \<Rightarrow> unit result" where
  "require_active s i =
     (case find_row (\<lambda>t. tn_id t = i) (id_tenants s) of
        Some t \<Rightarrow> if tn_disabled_at t = None then Inr () else Inl Unauthenticated
      | None \<Rightarrow> Inl Unauthenticated)"

definition get_membership_role :: "identity_db \<Rightarrow> uuid \<Rightarrow> uuid \<Rightarrow> membership_role option" where
  "get_membership_role s tenant_id user_id =
     map_option mb_role (find_row (\<lambda>m. mb_tenant_id m = tenant_id \<and> mb_user_id m = user_id) (id_members s))"

definition workspace_member_role :: "identity_db \<Rightarrow> uuid \<Rightarrow> uuid \<Rightarrow> workspace_role option" where
  "workspace_member_role s workspace_id user_id =
     map_option wm_role (find_row (\<lambda>m. wm_workspace_id m = workspace_id \<and> wm_user_id m = user_id)
       (id_workspace_members s))"

definition effective_scope :: "api_key_scope \<Rightarrow> membership_role \<Rightarrow> api_key_scope" where
  "effective_scope stored role = min stored (role_max_scope role)"

record workspace_access =
  wa_max_scope :: api_key_scope
  wa_source :: string
  wa_workspace_admin :: bool

definition workspace_access_for_role ::
  "identity_db \<Rightarrow> uuid \<Rightarrow> uuid \<Rightarrow> membership_role \<Rightarrow> workspace_access option" where
  "workspace_access_for_role s workspace_id user_id tenant_role =
     (if administers_tenant tenant_role
      then Some \<lparr>wa_max_scope = role_max_scope tenant_role, wa_source = ''tenant_role'', wa_workspace_admin = True\<rparr>
      else map_option (\<lambda>role.
        \<lparr>wa_max_scope = min (role_max_scope tenant_role) (workspace_role_max_scope role),
         wa_source = ''workspace_membership'', wa_workspace_admin = (role = WsAdmin)\<rparr>)
        (workspace_member_role s workspace_id user_id))"

definition workspace_access :: "identity_db \<Rightarrow> uuid \<Rightarrow> uuid \<Rightarrow> uuid \<Rightarrow> workspace_access option result" where
  "workspace_access s tenant_id workspace_id user_id =
     rbind (get_workspace_tenant (id_store s) workspace_id) (\<lambda>t.
     if t \<noteq> tenant_id then Inr None
     else rbind (require_active s tenant_id) (\<lambda>_.
       case get_membership_role s tenant_id user_id of
         None \<Rightarrow> Inr None
       | Some role \<Rightarrow> Inr (workspace_access_for_role s workspace_id user_id role)))"

record auth_context =
  au_api_key_id :: uuid
  au_workspace_id :: uuid
  au_tenant_id :: uuid
  au_scope :: api_key_scope
  au_user_id :: "uuid option"
  au_audit :: bool

definition with_current_membership :: "identity_db \<Rightarrow> auth_context \<Rightarrow> auth_context result" where
  "with_current_membership s ctx =
     rbind (require_active s (au_tenant_id ctx)) (\<lambda>_.
     case au_user_id ctx of
       None \<Rightarrow> Inr ctx
     | Some user_id \<Rightarrow>
         rbind (ok_or (get_membership_role s (au_tenant_id ctx) user_id) Unauthenticated) (\<lambda>_.
         rbind (workspace_access s (au_tenant_id ctx) (au_workspace_id ctx) user_id) (\<lambda>access.
         rbind (ok_or access (ScopeInsufficient ''this account has no access to the selected workspace'')) (\<lambda>a.
         Inr (ctx\<lparr>au_scope := min (au_scope ctx) (wa_max_scope a)\<rparr>)))))"

definition key_is_active :: "instant \<Rightarrow> api_key_row \<Rightarrow> bool" where
  "key_is_active now k \<longleftrightarrow> ak_revoked_at k = None \<and>
     (case ak_expires_at k of None \<Rightarrow> True | Some e \<Rightarrow> e > now)"

definition find_key :: "identity_db \<Rightarrow> uuid \<Rightarrow> api_key_row option" where
  "find_key s i = find_row (\<lambda>k. ak_id k = i) (id_keys s)"

definition context_of :: "api_key_row \<Rightarrow> uuid \<Rightarrow> auth_context" where
  "context_of k workspace_id =
     \<lparr>au_api_key_id = ak_id k, au_workspace_id = workspace_id, au_tenant_id = ak_tenant_id k,
      au_scope = ak_scope k, au_user_id = ak_user_id k, au_audit = ak_audit k\<rparr>"

definition current_context :: "instant \<Rightarrow> identity_db \<Rightarrow> auth_context \<Rightarrow> auth_context result" where
  "current_context now s presented =
     (case find_key s (au_api_key_id presented) of
        None \<Rightarrow> Inl Unauthenticated
      | Some key \<Rightarrow>
          if key_is_active now key \<and> ak_tenant_id key = au_tenant_id presented \<and>
             ak_user_id key = au_user_id presented \<and>
             (case ak_workspace_id key of None \<Rightarrow> True | Some w \<Rightarrow> w = au_workspace_id presented)
          then with_current_membership s (context_of key (au_workspace_id presented))
          else Inl Unauthenticated)"

definition require_scope :: "auth_context \<Rightarrow> api_key_scope \<Rightarrow> unit result" where
  "require_scope ctx required =
     ensure (satisfies (au_scope ctx) required)
       (ScopeInsufficient ''this operation requires {} scope but the API key has {} scope'')"

definition require_audit :: "auth_context \<Rightarrow> unit result" where
  "require_audit ctx =
     ensure (au_audit ctx)
       (ScopeInsufficient ''this operation requires the audit grant, which this API key does not hold'')"

definition require_tenant_admin :: "identity_db \<Rightarrow> uuid \<Rightarrow> uuid option \<Rightarrow> unit result" where
  "require_tenant_admin s tenant_id user_id =
     rbind (ok_or user_id Unauthenticated) (\<lambda>u.
     case get_membership_role s tenant_id u of
       Some role \<Rightarrow> ensure (administers_tenant role)
                     (ScopeInsufficient ''this operation is restricted to tenant owners/admins'')
     | None \<Rightarrow> Inl (ScopeInsufficient ''this operation is restricted to tenant owners/admins''))"

definition require_key_grant :: "identity_db \<Rightarrow> auth_context \<Rightarrow> api_key_scope \<Rightarrow> bool \<Rightarrow> unit result" where
  "require_key_grant s issuer scope audit =
     rbind (require_tenant_admin s (au_tenant_id issuer) (au_user_id issuer)) (\<lambda>_.
     rbind (require_scope issuer scope) (\<lambda>_.
     if audit then require_audit issuer else Inr ()))"

definition require_attributed_key_grant ::
  "identity_db \<Rightarrow> uuid \<Rightarrow> uuid option \<Rightarrow> api_key_scope \<Rightarrow> unit result" where
  "require_attributed_key_grant s tenant_id user_id scope =
     rbind (require_active s tenant_id) (\<lambda>_.
     case user_id of
       None \<Rightarrow> Inr ()
     | Some u \<Rightarrow>
         rbind (ok_or (get_membership_role s tenant_id u) Unauthenticated) (\<lambda>role.
         ensure (effective_scope scope role = scope)
           (ScopeInsufficient ''this users tenant role permits at most {} scope keys'')))"

definition require_current_tenant_admin :: "instant \<Rightarrow> identity_db \<Rightarrow> auth_context \<Rightarrow> unit result" where
  "require_current_tenant_admin now s actor =
     rbind (current_context now s actor) (\<lambda>current.
       require_tenant_admin s (au_tenant_id current) (au_user_id current))"

definition require_current_tenant_owner :: "instant \<Rightarrow> identity_db \<Rightarrow> auth_context \<Rightarrow> uuid result" where
  "require_current_tenant_owner now s actor =
     rbind (require_current_tenant_admin now s actor) (\<lambda>_.
     rbind (ok_or (au_user_id actor) Unauthenticated) (\<lambda>user_id.
     if get_membership_role s (au_tenant_id actor) user_id \<noteq> Some RoleOwner
     then Inl (ScopeInsufficient ''this operation requires a tenant owner'')
     else Inr user_id))"

definition require_current_workspace_admin ::
  "instant \<Rightarrow> identity_db \<Rightarrow> auth_context \<Rightarrow> uuid \<Rightarrow> unit result" where
  "require_current_workspace_admin now s actor workspace_id =
     rbind (current_context now s actor) (\<lambda>current.
     case au_user_id current of
       None \<Rightarrow> Inl (ScopeInsufficient ''workspace administration required'')
     | Some user_id \<Rightarrow>
         rbind (workspace_access s (au_tenant_id current) workspace_id user_id) (\<lambda>access.
         case access of
           Some a \<Rightarrow> ensure (wa_workspace_admin a) (ScopeInsufficient ''workspace administration required'')
         | None \<Rightarrow> Inl (ScopeInsufficient ''workspace administration required'')))"

definition require_job_actor ::
  "instant \<Rightarrow> identity_db \<Rightarrow> auth_context \<Rightarrow> api_key_scope \<Rightarrow> unit result" where
  "require_job_actor now s actor required =
     rbind (get_workspace_tenant (id_store s) (au_workspace_id actor)) (\<lambda>t.
     if t \<noteq> au_tenant_id actor then Inl Unauthenticated
     else rbind (current_context now s (actor\<lparr>au_scope := required, au_audit := False\<rparr>)) (\<lambda>current.
       require_scope current required))"

definition current_workspace_access :: "identity_db \<Rightarrow> auth_context \<Rightarrow> workspace_access result" where
  "current_workspace_access s current =
     (case au_user_id current of
        Some user_id \<Rightarrow>
          rbind (workspace_access s (au_tenant_id current) (au_workspace_id current) user_id) (\<lambda>a.
            ok_or a Unauthenticated)
      | None \<Rightarrow> Inr \<lparr>wa_max_scope = au_scope current, wa_source = ''service_key'', wa_workspace_admin = False\<rparr>)"

record access_capabilities =
  cb_scopes :: "api_key_scope list"
  cb_audit :: bool
  cb_tenant_admin :: bool
  cb_workspace_access :: workspace_access

definition capabilities :: "instant \<Rightarrow> identity_db \<Rightarrow> auth_context \<Rightarrow> access_capabilities result" where
  "capabilities now s actor =
     rbind (current_context now s actor) (\<lambda>current.
     let scopes = filter (\<lambda>sc. require_scope current sc = Inr ())
                    [ScopeRead, ScopeWrite, ScopeSchema, ScopeMigration] in
     rbind (case require_tenant_admin s (au_tenant_id current) (au_user_id current) of
              Inr _ \<Rightarrow> Inr True
            | Inl Unauthenticated \<Rightarrow> Inr False
            | Inl (ScopeInsufficient _) \<Rightarrow> Inr False
            | Inl e \<Rightarrow> Inl e) (\<lambda>tenant_admin.
     rbind (current_workspace_access s current) (\<lambda>access.
     Inr \<lparr>cb_scopes = scopes, cb_audit = (require_audit current = Inr ()), cb_tenant_admin = tenant_admin,
          cb_workspace_access = access\<rparr>)))"

section \<open>Workspace discovery\<close>

record login_membership =
  lm_tenant_id :: uuid
  lm_tenant_name :: string
  lm_role :: membership_role

record login_workspace =
  lw_workspace_id :: uuid
  lw_workspace_name :: string
  lw_tenant_id :: uuid
  lw_tenant_name :: string

primrec login_memberships :: "identity_db \<Rightarrow> membership_row list \<Rightarrow> login_membership list result" where
  "login_memberships s [] = Inr []"
| "login_memberships s (m # ms) =
     rbind (ok_or (find_row (\<lambda>t. tn_id t = mb_tenant_id m) (id_tenants s)) (Internal ''membership tenant missing'')) (\<lambda>t.
     rbind (login_memberships s ms) (\<lambda>rest.
     if tn_disabled_at t \<noteq> None then Inr rest
     else Inr (\<lparr>lm_tenant_id = tn_id t, lm_tenant_name = tn_name t, lm_role = mb_role m\<rparr> # rest)))"

primrec login_candidates ::
  "login_membership list \<Rightarrow> uuid list \<Rightarrow> workspace_row list \<Rightarrow> login_workspace list result" where
  "login_candidates ms grants [] = Inr []"
| "login_candidates ms grants (w # ws) =
     rbind (if wk_tenant_id w \<notin> lm_tenant_id ` {m \<in> set ms. administers_tenant (lm_role m)} \<and> wk_id w \<notin> set grants
            then Inr []
            else rbind (ok_or (map_of (map (\<lambda>m. (lm_tenant_id m, lm_tenant_name m)) ms) (wk_tenant_id w))
                          (Internal ''workspace membership missing'')) (\<lambda>name.
                 Inr [\<lparr>lw_workspace_id = wk_id w, lw_workspace_name = wk_name w,
                       lw_tenant_id = wk_tenant_id w, lw_tenant_name = name\<rparr>])) (\<lambda>c.
     rbind (login_candidates ms grants ws) (\<lambda>cs. Inr (c @ cs)))"

definition login_options :: "identity_db \<Rightarrow> uuid \<Rightarrow> (login_membership list \<times> login_workspace list) result" where
  "login_options s user_id =
     rbind (login_memberships s (select_where (\<lambda>m. mb_user_id m = user_id) (id_members s))) (\<lambda>rows.
     let memberships = sort_key lm_tenant_id rows in
     if memberships = [] then Inr (memberships, [])
     else
       let workspaces = select_where (\<lambda>w. wk_tenant_id w \<in> lm_tenant_id ` set memberships) (db_workspaces (id_store s));
           grants = map wm_workspace_id (select_where (\<lambda>g. wm_user_id g = user_id) (id_workspace_members s))
       in rbind (login_candidates memberships grants workspaces) (\<lambda>candidates.
            Inr (memberships, sort_key lw_tenant_id (sort_key lw_workspace_id candidates))))"

definition reachable_workspace_ids :: "identity_db \<Rightarrow> uuid \<Rightarrow> uuid option \<Rightarrow> uuid list result" where
  "reachable_workspace_ids s tenant_id user_id =
     (case user_id of
        Some u \<Rightarrow>
          rbind (login_options s u) (\<lambda>(_, workspaces).
            Inr (map lw_workspace_id (filter (\<lambda>w. lw_tenant_id w = tenant_id) workspaces)))
      | None \<Rightarrow> Inr (map wk_id (select_where (\<lambda>w. wk_tenant_id w = tenant_id) (db_workspaces (id_store s)))))"

datatype login_recovery_reason = TenantMembershipRequired | WorkspaceProvisioningRequired
  | WorkspaceAccessRequired | WorkspaceSelectionRequired

datatype login_workspace_state = LoginSelected uuid
  | LoginRecovery login_recovery_reason "login_membership list" "login_workspace list"

definition resolve_login_workspace :: "identity_db \<Rightarrow> uuid \<Rightarrow> uuid option \<Rightarrow> login_workspace_state result" where
  "resolve_login_workspace s user_id requested =
     (case requested of
        Some workspace_id \<Rightarrow>
          rbind (get_workspace_tenant (id_store s) workspace_id) (\<lambda>_. Inr (LoginSelected workspace_id))
      | None \<Rightarrow>
          rbind (login_options s user_id) (\<lambda>(memberships, workspaces).
          case workspaces of
            [w] \<Rightarrow> Inr (LoginSelected (lw_workspace_id w))
          | _ \<Rightarrow>
              Inr (LoginRecovery
                (if memberships = [] then TenantMembershipRequired
                 else if workspaces = [] then
                   (if \<exists>m \<in> set memberships. administers_tenant (lm_role m) then WorkspaceProvisioningRequired
                    else WorkspaceAccessRequired)
                 else WorkspaceSelectionRequired) memberships workspaces)))"

section \<open>Discovery and access agree\<close>

text \<open>The keys of the identity tables are unique, and a membership's tenant exists.\<close>

definition identity_keys :: "identity_db \<Rightarrow> bool" where
  "identity_keys s \<longleftrightarrow>
     distinct (map wk_id (db_workspaces (id_store s))) \<and> distinct (map tn_id (id_tenants s)) \<and>
     distinct (map (\<lambda>m. (mb_tenant_id m, mb_user_id m)) (id_members s)) \<and>
     distinct (map (\<lambda>m. (wm_workspace_id m, wm_user_id m)) (id_workspace_members s)) \<and>
     distinct (map ak_id (id_keys s)) \<and> distinct (map ak_key_hash (id_keys s)) \<and>
     (\<forall>m \<in> set (id_members s). mb_tenant_id m \<in> tn_id ` set (id_tenants s))"

lemma login_memberships_Inr:
  "login_memberships s ms = Inr rows \<Longrightarrow>
     set rows = {\<lparr>lm_tenant_id = tn_id t, lm_tenant_name = tn_name t, lm_role = mb_role m\<rparr> | m t.
       m \<in> set ms \<and> find_row (\<lambda>t. tn_id t = mb_tenant_id m) (id_tenants s) = Some t \<and> tn_disabled_at t = None}"
proof (induction ms arbitrary: rows)
  case (Cons m ms)
  then obtain t rest where t: "find_row (\<lambda>t. tn_id t = mb_tenant_id m) (id_tenants s) = Some t"
    and rest: "login_memberships s ms = Inr rest"
    and rows: "rows = (if tn_disabled_at t \<noteq> None then rest
      else \<lparr>lm_tenant_id = tn_id t, lm_tenant_name = tn_name t, lm_role = mb_role m\<rparr> # rest)"
    by (auto simp: rbind_Inr_iff ok_or_Inr_iff split: if_splits)
  show ?case using Cons.IH [OF rest] t by (auto simp: rows)
qed simp

lemma login_memberships_returns:
  "(\<And>m. m \<in> set ms \<Longrightarrow> mb_tenant_id m \<in> tn_id ` set (id_tenants s)) \<Longrightarrow> \<exists>rows. login_memberships s ms = Inr rows"
proof (induction ms)
  case (Cons m ms)
  then obtain rows where rows: "login_memberships s ms = Inr rows" by auto
  have "find_row (\<lambda>t. tn_id t = mb_tenant_id m) (id_tenants s) \<noteq> None"
    using Cons.prems [of m] by (auto simp: find_row_None)
  then obtain t where "find_row (\<lambda>t. tn_id t = mb_tenant_id m) (id_tenants s) = Some t" by blast
  then show ?case using rows by (cases "tn_disabled_at t") simp_all
qed simp

text \<open>The active memberships of a user are what the role lookup and the tenant check admit.\<close>

lemma active_membership:
  assumes "identity_keys s" and "login_memberships s (select_where (\<lambda>m. mb_user_id m = u) (id_members s)) = Inr rows"
  shows "(\<exists>x \<in> set rows. lm_tenant_id x = t \<and> lm_role x = role) \<longleftrightarrow>
    get_membership_role s t u = Some role \<and> require_active s t = Inr ()"
proof -
  have key: "find_row (\<lambda>m. mb_tenant_id m = mb_tenant_id x \<and> mb_user_id m = mb_user_id x) (id_members s) = Some x"
    if "x \<in> set (id_members s)" for x
    using assms(1) distinct_key_find [of "\<lambda>m. (mb_tenant_id m, mb_user_id m)" "id_members s" x] that
    by (simp add: identity_keys_def)
  have act: "require_active s t = Inr () \<longleftrightarrow>
      (\<exists>r. find_row (\<lambda>r. tn_id r = t) (id_tenants s) = Some r \<and> tn_disabled_at r = None)"
    by (auto simp: require_active_def split: option.splits if_splits)
  have role: "get_membership_role s t u = Some role \<longleftrightarrow>
      (\<exists>m \<in> set (id_members s). mb_tenant_id m = t \<and> mb_user_id m = u \<and> mb_role m = role)"
    using key by (auto simp: get_membership_role_def dest!: find_row_Some)
  have "(\<exists>x \<in> set rows. lm_tenant_id x = t \<and> lm_role x = role) \<longleftrightarrow>
      (\<exists>m r. m \<in> set (id_members s) \<and> mb_user_id m = u \<and> mb_role m = role \<and> tn_id r = t \<and> tn_disabled_at r = None \<and>
         find_row (\<lambda>r. tn_id r = mb_tenant_id m) (id_tenants s) = Some r)"
    unfolding login_memberships_Inr [OF assms(2)] by (force simp: set_select_where)
  moreover have "tn_id r = t \<and> tn_disabled_at r = None \<and> find_row (\<lambda>r. tn_id r = mb_tenant_id m) (id_tenants s) = Some r
      \<longleftrightarrow> mb_tenant_id m = t \<and> tn_disabled_at r = None \<and> find_row (\<lambda>r. tn_id r = t) (id_tenants s) = Some r" for m r
    using find_row_Some [of "\<lambda>r. tn_id r = mb_tenant_id m" "id_tenants s" r] by auto
  ultimately have "(\<exists>x \<in> set rows. lm_tenant_id x = t \<and> lm_role x = role) \<longleftrightarrow>
      (\<exists>m \<in> set (id_members s). mb_tenant_id m = t \<and> mb_user_id m = u \<and> mb_role m = role) \<and>
      (\<exists>r. find_row (\<lambda>r. tn_id r = t) (id_tenants s) = Some r \<and> tn_disabled_at r = None)"
    by (simp only: simp_thms) blast
  then show ?thesis unfolding act role .
qed

lemma login_candidates_Inr:
  "login_candidates ms grants ws = Inr cs \<Longrightarrow>
     (i, t) \<in> (\<lambda>c. (lw_workspace_id c, lw_tenant_id c)) ` set cs \<longleftrightarrow>
     (\<exists>w \<in> set ws. wk_id w = i \<and> wk_tenant_id w = t \<and>
        ((\<exists>m \<in> set ms. lm_tenant_id m = t \<and> administers_tenant (lm_role m)) \<or> i \<in> set grants))"
proof (induction ws arbitrary: cs)
  case (Cons w ws)
  let ?out = "wk_tenant_id w \<notin> lm_tenant_id ` {m \<in> set ms. administers_tenant (lm_role m)} \<and> wk_id w \<notin> set grants"
  obtain c rest where rest: "login_candidates ms grants ws = Inr rest" "cs = c @ rest"
    and c: "if ?out then c = [] else (\<exists>name. c = [\<lparr>lw_workspace_id = wk_id w, lw_workspace_name = wk_name w,
      lw_tenant_id = wk_tenant_id w, lw_tenant_name = name\<rparr>])"
    using Cons.prems unfolding login_candidates.simps rbind_Inr_iff by (auto simp: rbind_Inr_iff split: if_splits)
  have "(\<lambda>c. (lw_workspace_id c, lw_tenant_id c)) ` set c = (if ?out then {} else {(wk_id w, wk_tenant_id w)})"
    using c by (auto split: if_splits)
  moreover have "?out \<longleftrightarrow> \<not> ((\<exists>m \<in> set ms. lm_tenant_id m = wk_tenant_id w \<and> administers_tenant (lm_role m)) \<or>
      wk_id w \<in> set grants)" by (force simp: image_iff)
  ultimately show ?case
    unfolding rest(2) set_append image_Un Un_iff Cons.IH [OF rest(1)] by (auto split: if_splits)
qed simp

lemma login_candidates_returns:
  "(\<And>w. w \<in> set ws \<Longrightarrow> wk_tenant_id w \<in> lm_tenant_id ` set ms) \<Longrightarrow> \<exists>cs. login_candidates ms grants ws = Inr cs"
proof (induction ws)
  case (Cons w ws)
  then obtain cs where cs: "login_candidates ms grants ws = Inr cs" by auto
  have "map_of (map (\<lambda>m. (lm_tenant_id m, lm_tenant_name m)) ms) (wk_tenant_id w) \<noteq> None"
    using Cons.prems [of w] by (auto simp: map_of_eq_None_iff image_iff)
  then show ?case using cs by auto
qed simp

lemma workspace_tenant_iff:
  "identity_keys s \<Longrightarrow> get_workspace_tenant (id_store s) w = Inr t \<longleftrightarrow>
     (\<exists>x \<in> set (db_workspaces (id_store s)). wk_id x = w \<and> wk_tenant_id x = t)"
  using distinct_key_find [of wk_id "db_workspaces (id_store s)"]
  by (fastforce simp: identity_keys_def get_workspace_tenant_def ok_or_Inr_iff dest: find_row_Some)

lemma access_granted_iff:
  "(\<exists>a. workspace_access s t w u = Inr (Some a)) \<longleftrightarrow>
     get_workspace_tenant (id_store s) w = Inr t \<and> require_active s t = Inr () \<and>
     (\<exists>role. get_membership_role s t u = Some role \<and> (administers_tenant role \<or> workspace_member_role s w u \<noteq> None))"
  by (auto simp: workspace_access_def workspace_access_for_role_def rbind_Inr_iff split: if_splits option.splits)

text \<open>A login offers exactly the workspaces the access decision admits.\<close>

lemma login_options_accessible:
  assumes "identity_keys s"
  shows "\<exists>ms cs. login_options s u = Inr (ms, cs) \<and>
    (\<forall>w t. (w, t) \<in> (\<lambda>c. (lw_workspace_id c, lw_tenant_id c)) ` set cs \<longleftrightarrow> (\<exists>a. workspace_access s t w u = Inr (Some a)))"
proof -
  let ?mine = "select_where (\<lambda>m. mb_user_id m = u) (id_members s)"
  obtain rows where rows: "login_memberships s ?mine = Inr rows"
    using login_memberships_returns [of ?mine s] assms by (auto simp: identity_keys_def set_select_where)
  let ?ws = "select_where (\<lambda>w. wk_tenant_id w \<in> lm_tenant_id ` set (sort_key lm_tenant_id rows)) (db_workspaces (id_store s))"
  let ?grants = "map wm_workspace_id (select_where (\<lambda>g. wm_user_id g = u) (id_workspace_members s))"
  obtain cs where cs: "login_candidates (sort_key lm_tenant_id rows) ?grants ?ws = Inr cs"
    using login_candidates_returns [of ?ws "sort_key lm_tenant_id rows"] by (auto simp: set_select_where)
  have member: "(\<exists>x \<in> set rows. lm_tenant_id x = t \<and> lm_role x = role) \<longleftrightarrow>
      get_membership_role s t u = Some role \<and> require_active s t = Inr ()" for t role
    by (rule active_membership [OF assms rows])
  have grant: "i \<in> set ?grants \<longleftrightarrow> workspace_member_role s i u \<noteq> None" for i
    by (auto simp: workspace_member_role_def set_select_where find_row_None image_iff)
  have exact: "(w, t) \<in> (\<lambda>c. (lw_workspace_id c, lw_tenant_id c)) ` set cs \<longleftrightarrow> (\<exists>a. workspace_access s t w u = Inr (Some a))" for w t
  proof -
    have "(w, t) \<in> (\<lambda>c. (lw_workspace_id c, lw_tenant_id c)) ` set cs \<longleftrightarrow>
        get_workspace_tenant (id_store s) w = Inr t \<and> (\<exists>x \<in> set rows. lm_tenant_id x = t) \<and>
        ((\<exists>x \<in> set rows. lm_tenant_id x = t \<and> administers_tenant (lm_role x)) \<or> workspace_member_role s w u \<noteq> None)"
      unfolding login_candidates_Inr [OF cs] grant workspace_tenant_iff [OF assms] by (auto simp: set_select_where)
    also have "\<dots> \<longleftrightarrow> (\<exists>a. workspace_access s t w u = Inr (Some a))"
      unfolding access_granted_iff using member by (metis option.inject)
    finally show ?thesis .
  qed
  show ?thesis
  proof (cases "rows = []")
    case True
    then have "cs = []" using cs by (simp add: select_where_def)
    then show ?thesis using rows exact True by (simp add: login_options_def Let_def)
  next
    case False
    then have "sort_key lm_tenant_id rows \<noteq> []" by (metis length_0_conv length_sort)
    then show ?thesis using rows cs exact by (simp add: login_options_def Let_def)
  qed
qed

text \<open>
  Workspace discovery and the access decision agree: for a user and a tenant the discovered
  workspaces are exactly those for which \<open>workspace_access\<close> grants access, so a tenant-scoped key never
  selects a workspace its user may not use and never misses one, and discovery itself returns.
\<close>

theorem discovery_matches_access:
  assumes "identity_keys s"
  shows "\<exists>ws. reachable_workspace_ids s t (Some u) = Inr ws \<and>
    (\<forall>w. w \<in> set ws \<longleftrightarrow> (\<exists>a. workspace_access s t w u = Inr (Some a)))"
proof -
  obtain ms cs where cs: "login_options s u = Inr (ms, cs)"
    and exact: "\<And>w t. (w, t) \<in> (\<lambda>c. (lw_workspace_id c, lw_tenant_id c)) ` set cs \<longleftrightarrow> (\<exists>a. workspace_access s t w u = Inr (Some a))"
    using login_options_accessible [OF assms, of u] by blast
  have "w \<in> lw_workspace_id ` {c \<in> set cs. lw_tenant_id c = t} \<longleftrightarrow> (\<exists>a. workspace_access s t w u = Inr (Some a))" for w
    unfolding exact [symmetric] by force
  then show ?thesis using cs by (simp add: reachable_workspace_ids_def)
qed

text \<open>A tenant with an owner, an administrator and a member, two workspaces and a key each.\<close>

definition acme_key :: "uuid \<Rightarrow> uuid option \<Rightarrow> uuid option \<Rightarrow> string \<Rightarrow> api_key_scope \<Rightarrow> api_key_row" where
  "acme_key i workspace_id user_id h scope =
     \<lparr>ak_id = i, ak_tenant_id = 9, ak_workspace_id = workspace_id, ak_user_id = user_id, ak_key_hash = h,
      ak_key_prefix = ''yk'', ak_name = ''unnamed'', ak_scope = scope, ak_audit = False, ak_expires_at = None,
      ak_revoked_at = None, ak_replaced_by_id = None, ak_created_at = 2\<rparr>"

definition acme_workspace :: "uuid \<Rightarrow> string \<Rightarrow> workspace_row" where
  "acme_workspace i name = \<lparr>wk_id = i, wk_tenant_id = 9, wk_name = name, wk_max_entities = None,
     wk_status = SchemaPending, wk_schema_id = None, wk_created_at = 2\<rparr>"

definition acme :: identity_db where
  "acme = \<lparr>id_store = empty_db\<lparr>db_workspaces := [acme_workspace 3 ''main'', acme_workspace 4 ''lab'']\<rparr>,
     id_tenants = [\<lparr>tn_id = 9, tn_name = ''acme'', tn_max_workspaces = Some 2, tn_disabled_at = None\<rparr>],
     id_users = map (\<lambda>u. \<lparr>us_id = u, us_email = ''u@acme'', us_display_name = None\<rparr>) [20, 21, 22],
     id_members = map (\<lambda>(u, r). \<lparr>mb_tenant_id = 9, mb_user_id = u, mb_role = r, mb_created_at = 2\<rparr>)
       [(20, RoleOwner), (21, RoleAdmin), (22, RoleMember)],
     id_workspace_members = [\<lparr>wm_workspace_id = 3, wm_user_id = 22, wm_role = WsMember\<rparr>],
     id_keys = [acme_key 60 None (Some 20) ''owner'' ScopeMigration, acme_key 61 None (Some 21) ''admin'' ScopeMigration,
       acme_key 62 (Some 3) (Some 22) ''member'' ScopeMigration]\<rparr>"

lemmas acme_defs = acme_def acme_key_def acme_workspace_def empty_db_def

lemma acme_identity_keys: "identity_keys acme"
  by (simp add: identity_keys_def acme_defs)

theorem discovery_matches_access_witness:
  "\<exists>ws. reachable_workspace_ids acme 9 (Some 22) = Inr ws \<and>
    (\<forall>w. w \<in> set ws \<longleftrightarrow> (\<exists>a. workspace_access acme 9 w 22 = Inr (Some a)))"
  by (rule discovery_matches_access [OF acme_identity_keys])

section \<open>A context is never wider than its credential\<close>

lemma guard_Inr_iff: "(if b then Inl e else m) = Inr y \<longleftrightarrow> \<not> b \<and> m = Inr y"
  by simp

lemma workspace_access_Some:
  "workspace_access s t w u = Inr (Some a) \<longleftrightarrow>
     get_workspace_tenant (id_store s) w = Inr t \<and> require_active s t = Inr () \<and>
     (\<exists>role. get_membership_role s t u = Some role \<and> workspace_access_for_role s w u role = Some a)"
  by (auto simp: workspace_access_def rbind_Inr_iff split: if_splits option.splits)

lemma workspace_access_for_role_le:
  "workspace_access_for_role s w u role = Some a \<Longrightarrow> wa_max_scope a \<le> role_max_scope role"
  by (auto simp: workspace_access_for_role_def split: if_splits)

lemma with_current_membership_Inr:
  assumes "with_current_membership s ctx = Inr c"
  shows "require_active s (au_tenant_id ctx) = Inr ()" and "au_scope c \<le> au_scope ctx"
    and "c = ctx\<lparr>au_scope := au_scope c\<rparr>"
    and "\<And>u. au_user_id ctx = Some u \<Longrightarrow> \<exists>a. workspace_access s (au_tenant_id ctx) (au_workspace_id ctx) u = Inr (Some a)
      \<and> au_scope c = min (au_scope ctx) (wa_max_scope a)"
    and "au_user_id ctx = None \<Longrightarrow> c = ctx"
  using assms by (auto simp: with_current_membership_def rbind_Inr_iff ok_or_Inr_iff split: option.splits)

lemma context_of_simps [simp]:
  "au_api_key_id (context_of k w) = ak_id k" "au_workspace_id (context_of k w) = w"
  "au_tenant_id (context_of k w) = ak_tenant_id k" "au_scope (context_of k w) = ak_scope k"
  "au_user_id (context_of k w) = ak_user_id k" "au_audit (context_of k w) = ak_audit k"
  by (simp_all add: context_of_def)

text \<open>What a successful decision about a presented context says of the stored key.\<close>

lemma current_context_Inr:
  assumes "current_context now s presented = Inr c"
  obtains k where "find_key s (au_api_key_id presented) = Some k" "key_is_active now k"
    "ak_tenant_id k = au_tenant_id presented" "ak_user_id k = au_user_id presented"
    "ak_workspace_id k = None \<or> ak_workspace_id k = Some (au_workspace_id presented)"
    "with_current_membership s (context_of k (au_workspace_id presented)) = Inr c"
  using assms by (auto simp: current_context_def split: option.splits if_splits)

lemma current_context_fields:
  assumes "current_context now s presented = Inr c"
  shows "au_tenant_id c = au_tenant_id presented" "au_user_id c = au_user_id presented"
    "au_workspace_id c = au_workspace_id presented"
  using current_context_Inr [OF assms] with_current_membership_Inr(3)
  by (metis auth_context.select_convs auth_context.surjective auth_context.update_convs(4) context_of_simps)+

lemma require_tenant_admin_Inr:
  "require_tenant_admin s t user = Inr x \<longleftrightarrow>
     (\<exists>u role. user = Some u \<and> get_membership_role s t u = Some role \<and> administers_tenant role)"
  by (auto simp: require_tenant_admin_def rbind_Inr_iff ok_or_Inr_iff ensure_Inr_iff split: option.splits)

lemma require_current_tenant_admin_Inr:
  assumes "require_current_tenant_admin now s actor = Inr x"
  obtains u role where "au_user_id actor = Some u" "get_membership_role s (au_tenant_id actor) u = Some role"
    "administers_tenant role"
  using assms current_context_fields
  by (auto simp: require_current_tenant_admin_def rbind_Inr_iff require_tenant_admin_Inr)

lemma require_current_tenant_owner_Inr:
  "require_current_tenant_owner now s actor = Inr u \<Longrightarrow>
     au_user_id actor = Some u \<and> get_membership_role s (au_tenant_id actor) u = Some RoleOwner"
  by (auto simp: require_current_tenant_owner_def rbind_Inr_iff ok_or_Inr_iff split: if_splits)

end
