(* ===== verification/Api_Keys.thy ===== *)
theory Api_Keys
  imports Access
begin

text \<open>
  \<open>src/models/api_keys.rs\<close>: authentication of a presented key, issuing keys directly and by delegation,
  listing, revocation and rotation.

  SHA-256 is the parameter \<open>hash_key\<close> and the random generator an argument: the prefix and plaintext a
  call generates.  The lemmas show that an authenticated context is never wider than the stored grant,
  the user's role and workspace grant, that the two backends authenticate alike, and that a delegated key
  is bounded by its issuer.
\<close>

type_synonym key_material = "string \<times> string"

datatype key_state = KeyActive | KeyRevoked | KeyExpired

record key_grant =
  kg_state :: key_state
  kg_expires_at :: "instant option"
  kg_revoked_at :: "instant option"
  kg_replaced_by_id :: "uuid option"
  kg_scope :: api_key_scope
  kg_effective_scope :: "api_key_scope option"
  kg_audit :: bool
  kg_workspace_id :: "uuid option"
  kg_tenant_id :: uuid
  kg_user_id :: "uuid option"
  kg_identity_kind :: string

definition grant_scope :: "identity_db \<Rightarrow> api_key_row \<Rightarrow> api_key_scope option result" where
  "grant_scope s k =
     (case ak_user_id k of
        None \<Rightarrow> Inr (Some (ak_scope k))
      | Some user_id \<Rightarrow>
          (case ak_workspace_id k of
             Some workspace_id \<Rightarrow>
               rbind (workspace_access s (ak_tenant_id k) workspace_id user_id) (\<lambda>access.
                 Inr (map_option (\<lambda>a. min (ak_scope k) (wa_max_scope a)) access))
           | None \<Rightarrow> Inr (map_option (effective_scope (ak_scope k)) (get_membership_role s (ak_tenant_id k) user_id))))"

definition grant_metadata :: "instant \<Rightarrow> identity_db \<Rightarrow> api_key_row \<Rightarrow> key_grant result" where
  "grant_metadata now s k =
     rbind (if key_is_active now k then grant_scope s k else Inr None) (\<lambda>scope.
     Inr \<lparr>kg_state = (if ak_revoked_at k \<noteq> None then KeyRevoked
                       else if \<not> key_is_active now k then KeyExpired else KeyActive),
          kg_expires_at = ak_expires_at k, kg_revoked_at = ak_revoked_at k,
          kg_replaced_by_id = ak_replaced_by_id k, kg_scope = ak_scope k, kg_effective_scope = scope,
          kg_audit = ak_audit k, kg_workspace_id = ak_workspace_id k, kg_tenant_id = ak_tenant_id k,
          kg_user_id = ak_user_id k,
          kg_identity_kind = (if ak_user_id k \<noteq> None then ''user'' else ''service'')\<rparr>)"

section \<open>Authentication\<close>

text \<open>The SQL function \<open>authenticate_api_key\<close>, and the SeaORM query SQLite uses.\<close>

definition authenticate_api_key :: "instant \<Rightarrow> identity_db \<Rightarrow> string \<Rightarrow> api_key_row list" where
  "authenticate_api_key now s h =
     select_where (\<lambda>k. ak_key_hash k = h \<and> ak_revoked_at k = None \<and>
       (case ak_expires_at k of None \<Rightarrow> True | Some e \<Rightarrow> e > now) \<and>
       (case ak_workspace_id k of
          None \<Rightarrow> True
        | Some w \<Rightarrow> \<exists>r \<in> set (db_workspaces (id_store s)). wk_id r = w \<and> wk_tenant_id r = ak_tenant_id k))
       (id_keys s)"

definition find_sqlite_auth_context :: "instant \<Rightarrow> identity_db \<Rightarrow> string \<Rightarrow> api_key_row option" where
  "find_sqlite_auth_context now s h =
     (case find_row (\<lambda>k. ak_key_hash k = h) (id_keys s) of
        None \<Rightarrow> None
      | Some key \<Rightarrow>
          if \<not> key_is_active now key then None
          else (case ak_workspace_id key of
                  Some w \<Rightarrow>
                    (case find_row (\<lambda>r. wk_id r = w) (db_workspaces (id_store s)) of
                       None \<Rightarrow> None
                     | Some r \<Rightarrow> if wk_tenant_id r = ak_tenant_id key then Some key else None)
                | None \<Rightarrow> Some key))"

definition resolve_key_workspace ::
  "identity_db \<Rightarrow> uuid option \<Rightarrow> uuid \<Rightarrow> uuid option \<Rightarrow> uuid option \<Rightarrow> uuid result" where
  "resolve_key_workspace s key_workspace tenant_id user_id requested =
     (case key_workspace of
        Some workspace_id \<Rightarrow>
          if requested \<noteq> None \<and> requested \<noteq> Some workspace_id
          then Inl (ScopeInsufficient ''{} names a workspace this key cannot act on'')
          else Inr workspace_id
      | None \<Rightarrow>
          (case requested of
             Some r \<Rightarrow>
               rbind (get_workspace_tenant (id_store s) r) (\<lambda>tenant.
               if tenant \<noteq> tenant_id
               then Inl (ScopeInsufficient ''{} names a workspace this key cannot act on'')
               else Inr r)
           | None \<Rightarrow>
               rbind (reachable_workspace_ids s tenant_id user_id) (\<lambda>ws.
               case ws of
                 [w] \<Rightarrow> Inr w
               | [] \<Rightarrow> Inl (ScopeInsufficient ''this key has no workspace it can act on'')
               | _ \<Rightarrow> Inl (ValidationFailed
                        ''this tenant key can act on more than one workspace, so {} is required'' []))))"

definition authenticated :: "identity_db \<Rightarrow> uuid option \<Rightarrow> api_key_row option \<Rightarrow> auth_context result" where
  "authenticated s requested key =
     rbind (ok_or key Unauthenticated) (\<lambda>k.
     rbind (resolve_key_workspace s (ak_workspace_id k) (ak_tenant_id k) (ak_user_id k) requested) (\<lambda>w.
     with_current_membership s (context_of k w)))"

definition authenticate ::
  "(string \<Rightarrow> string) \<Rightarrow> instant \<Rightarrow> identity_db \<Rightarrow> string \<Rightarrow> uuid option \<Rightarrow> auth_context result" where
  "authenticate hash_key now s presented requested =
     authenticated s requested
       (case authenticate_api_key now s (hash_key presented) of [] \<Rightarrow> None | k # _ \<Rightarrow> Some k)"

definition authenticate_sqlite ::
  "(string \<Rightarrow> string) \<Rightarrow> instant \<Rightarrow> identity_db \<Rightarrow> string \<Rightarrow> uuid option \<Rightarrow> auth_context result" where
  "authenticate_sqlite hash_key now s presented requested =
     authenticated s requested (find_sqlite_auth_context now s (hash_key presented))"

section \<open>Issuing\<close>

definition validate_key_name :: "string \<Rightarrow> string result" where
  "validate_key_name name =
     (let n = trim name in
      if n = [] \<or> char_count n > 100
      then Inl (ValidationFailed ''name must be between 1 and 100 characters''
             [detail ''name'' ''name must not be empty and must be at most 100 characters'' EmptyRequired])
      else Inr n)"

text \<open>The insert, with the unique and foreign keys of the table.\<close>

definition insert_key :: "identity_db \<Rightarrow> api_key_row \<Rightarrow> identity_db result" where
  "insert_key s k =
     (if ak_id k \<in> ak_id ` set (id_keys s) \<or> ak_key_hash k \<in> ak_key_hash ` set (id_keys s)
         \<or> ak_tenant_id k \<notin> tn_id ` set (id_tenants s)
         \<or> (case ak_workspace_id k of None \<Rightarrow> False | Some w \<Rightarrow> w \<notin> wk_id ` set (db_workspaces (id_store s)))
         \<or> (case ak_user_id k of None \<Rightarrow> False | Some u \<Rightarrow> u \<notin> us_id ` set (id_users s))
      then Inl (Internal ''constraint'')
      else Inr (s\<lparr>id_keys := id_keys s @ [k]\<rparr>))"

definition new_key ::
  "(string \<Rightarrow> string) \<Rightarrow> uuid \<Rightarrow> instant \<Rightarrow> key_material \<Rightarrow> uuid \<Rightarrow> uuid option \<Rightarrow> uuid option \<Rightarrow> string \<Rightarrow>
   api_key_scope \<Rightarrow> bool \<Rightarrow> instant option \<Rightarrow> api_key_row" where
  "new_key hash_key new_id now material tenant_id workspace_id user_id name scope audit expires_at =
     \<lparr>ak_id = new_id, ak_tenant_id = tenant_id, ak_workspace_id = workspace_id, ak_user_id = user_id,
      ak_key_hash = hash_key (snd material), ak_key_prefix = fst material, ak_name = name, ak_scope = scope,
      ak_audit = audit, ak_expires_at = expires_at, ak_revoked_at = None, ak_replaced_by_id = None,
      ak_created_at = now\<rparr>"

record created_api_key =
  ck_id :: uuid
  ck_workspace_id :: "uuid option"
  ck_scope :: api_key_scope
  ck_grant :: key_grant
  ck_key_prefix :: string
  ck_name :: string
  ck_created_at :: instant
  ck_plaintext :: string

definition issue_key ::
  "instant \<Rightarrow> identity_db \<Rightarrow> api_key_row \<Rightarrow> key_material \<Rightarrow> (created_api_key \<times> identity_db) result" where
  "issue_key now s k material =
     rbind (insert_key s k) (\<lambda>s'.
     rbind (grant_metadata now s' k) (\<lambda>grant.
     Inr (\<lparr>ck_id = ak_id k, ck_workspace_id = ak_workspace_id k, ck_scope = ak_scope k, ck_grant = grant,
           ck_key_prefix = ak_key_prefix k, ck_name = ak_name k, ck_created_at = ak_created_at k,
           ck_plaintext = snd material\<rparr>, s')))"

definition expiry_in_future :: "instant \<Rightarrow> instant option \<Rightarrow> unit result" where
  "expiry_in_future now expires_at =
     ensure (case expires_at of None \<Rightarrow> True | Some e \<Rightarrow> e > now)
       (ValidationFailed ''key expiry must be in the future'' [])"

definition expiry_within :: "string \<Rightarrow> api_key_row \<Rightarrow> instant option \<Rightarrow> unit result" where
  "expiry_within message issuer_key expires_at =
     (case ak_expires_at issuer_key of
        None \<Rightarrow> Inr ()
      | Some limit \<Rightarrow>
          ensure (case expires_at of None \<Rightarrow> False | Some e \<Rightarrow> e \<le> limit) (ScopeInsufficient message))"

definition workspace_allows ::
  "yorishiro_error \<Rightarrow> string \<Rightarrow> identity_db \<Rightarrow> uuid \<Rightarrow> uuid \<Rightarrow> uuid \<Rightarrow> api_key_scope \<Rightarrow> unit result" where
  "workspace_allows none_error message s tenant_id workspace_id user_id scope =
     rbind (workspace_access s tenant_id workspace_id user_id) (\<lambda>access.
     rbind (ok_or access none_error) (\<lambda>a.
     ensure (\<not> scope > wa_max_scope a) (ScopeInsufficient message)))"

definition create_named_api_key ::
  "(string \<Rightarrow> string) \<Rightarrow> uuid \<Rightarrow> instant \<Rightarrow> key_material \<Rightarrow> identity_db \<Rightarrow> uuid \<Rightarrow> api_key_scope \<Rightarrow> uuid option \<Rightarrow>
   bool \<Rightarrow> string \<Rightarrow> auth_context option \<Rightarrow> instant option \<Rightarrow> (created_api_key \<times> identity_db) result" where
  "create_named_api_key hash_key new_id now material s workspace_id scope user_id audit name issuer expires_at =
     rbind (validate_key_name name) (\<lambda>name.
     rbind (expiry_in_future now expires_at) (\<lambda>_.
     rbind (get_workspace_tenant (id_store s) workspace_id) (\<lambda>tenant_id.
     rbind (require_attributed_key_grant s tenant_id user_id scope) (\<lambda>_.
     rbind (case user_id of
              None \<Rightarrow> Inr ()
            | Some u \<Rightarrow> workspace_allows
                (ScopeInsufficient ''this account has no access to the selected workspace'')
                ''requested scope exceeds this users workspace authority'' s tenant_id workspace_id u scope) (\<lambda>_.
     rbind (case issuer of
              None \<Rightarrow> Inr ()
            | Some i \<Rightarrow>
                rbind (current_context now s i) (\<lambda>current.
                rbind (require_key_grant s current scope audit) (\<lambda>_.
                rbind (ok_or (find_key s (au_api_key_id i)) Unauthenticated) (\<lambda>issuer_key.
                expiry_within ''requested expiry exceeds the issuing keys lifetime'' issuer_key expires_at)))) (\<lambda>_.
     issue_key now s
       (new_key hash_key new_id now material tenant_id (Some workspace_id) user_id name scope audit expires_at)
       material))))))"

definition create_api_key ::
  "(string \<Rightarrow> string) \<Rightarrow> uuid \<Rightarrow> instant \<Rightarrow> key_material \<Rightarrow> identity_db \<Rightarrow> uuid \<Rightarrow> api_key_scope \<Rightarrow> uuid option \<Rightarrow>
   bool \<Rightarrow> (created_api_key \<times> identity_db) result" where
  "create_api_key hash_key new_id now material s workspace_id scope user_id audit =
     create_named_api_key hash_key new_id now material s workspace_id scope user_id audit ''unnamed'' None None"

definition create_delegated_api_key ::
  "(string \<Rightarrow> string) \<Rightarrow> uuid \<Rightarrow> instant \<Rightarrow> key_material \<Rightarrow> identity_db \<Rightarrow> auth_context \<Rightarrow> api_key_scope \<Rightarrow> bool \<Rightarrow>
   string \<Rightarrow> instant option \<Rightarrow> (created_api_key \<times> identity_db) result" where
  "create_delegated_api_key hash_key new_id now material s issuer scope audit name expires_at =
     create_named_api_key hash_key new_id now material s (au_workspace_id issuer) scope (au_user_id issuer) audit name
       (Some issuer) expires_at"

definition create_tenant_api_key ::
  "(string \<Rightarrow> string) \<Rightarrow> uuid \<Rightarrow> instant \<Rightarrow> key_material \<Rightarrow> identity_db \<Rightarrow> uuid \<Rightarrow> api_key_scope \<Rightarrow> uuid option \<Rightarrow>
   bool \<Rightarrow> string \<Rightarrow> ((uuid \<times> string) \<times> identity_db) result" where
  "create_tenant_api_key hash_key new_id now material s tenant_id scope user_id audit name =
     rbind (validate_key_name name) (\<lambda>name.
     if tenant_id \<notin> tn_id ` set (id_tenants s) then Inl (NotFound ''tenant {} does not exist'')
     else
     rbind (require_attributed_key_grant s tenant_id user_id scope) (\<lambda>_.
     rbind (insert_key s (new_key hash_key new_id now material tenant_id None user_id name scope audit None)) (\<lambda>s'.
     Inr ((new_id, snd material), s'))))"

definition create_delegated_tenant_api_key ::
  "(string \<Rightarrow> string) \<Rightarrow> uuid \<Rightarrow> instant \<Rightarrow> key_material \<Rightarrow> identity_db \<Rightarrow> auth_context \<Rightarrow> api_key_scope \<Rightarrow> bool \<Rightarrow>
   string \<Rightarrow> instant option \<Rightarrow> (created_api_key \<times> identity_db) result" where
  "create_delegated_tenant_api_key hash_key new_id now material s issuer scope audit name expires_at =
     rbind (validate_key_name name) (\<lambda>name.
     rbind (expiry_in_future now expires_at) (\<lambda>_.
     rbind (require_current_tenant_admin now s issuer) (\<lambda>_.
     rbind (current_context now s issuer) (\<lambda>current.
     rbind (require_key_grant s current scope audit) (\<lambda>_.
     rbind (ok_or (find_key s (au_api_key_id issuer)) Unauthenticated) (\<lambda>issuer_key.
     if ak_workspace_id issuer_key \<noteq> None
     then Inl (ScopeInsufficient ''a tenant-scoped key can only be issued with a tenant-scoped credential'')
     else
     rbind (expiry_within ''requested expiry exceeds the issuing keys lifetime'' issuer_key expires_at) (\<lambda>_.
     rbind (require_attributed_key_grant s (au_tenant_id issuer) (au_user_id issuer) scope) (\<lambda>_.
     issue_key now s
       (new_key hash_key new_id now material (au_tenant_id issuer) None (au_user_id issuer) name scope audit expires_at)
       material))))))))"

section \<open>Listing and revoking\<close>

definition list_for_workspace :: "identity_db \<Rightarrow> uuid \<Rightarrow> list_params \<Rightarrow> api_key_row list" where
  "list_for_workspace s workspace_id page =
     page_of page (sort_key ak_created_at (select_where (\<lambda>k. ak_workspace_id k = Some workspace_id) (id_keys s)))"

definition list_for_tenant :: "identity_db \<Rightarrow> uuid \<Rightarrow> api_key_row list" where
  "list_for_tenant s tenant_id =
     sort_key ak_created_at (sort_key ak_id (select_where (\<lambda>k. ak_tenant_id k = tenant_id) (id_keys s)))"

definition delete_for_tenant ::
  "(string \<Rightarrow> string) \<Rightarrow> instant \<Rightarrow> string \<Rightarrow> identity_db \<Rightarrow> uuid \<Rightarrow> uuid \<Rightarrow> identity_db result" where
  "delete_for_tenant hash_key now fresh s tenant_id key_id =
     (let sel = (\<lambda>k. ak_id k = key_id \<and> ak_tenant_id k = tenant_id \<and> ak_revoked_at k = None) in
      if count_where sel (id_keys s) = 0 then Inl (NotFound ''api key {} was not found'')
      else Inr (s\<lparr>id_keys := update_where sel
                  (\<lambda>k. k\<lparr>ak_revoked_at := Some now, ak_key_hash := hash_key fresh\<rparr>) (id_keys s)\<rparr>))"

definition revoke_key ::
  "(string \<Rightarrow> string) \<Rightarrow> instant \<Rightarrow> string \<Rightarrow> identity_db \<Rightarrow> uuid \<Rightarrow> identity_db result" where
  "revoke_key hash_key now fresh s key_id =
     rbind (ok_or (find_key s key_id) (NotFound ''api key {} was not found'')) (\<lambda>k.
       delete_for_tenant hash_key now fresh s (ak_tenant_id k) key_id)"

definition revoke_for_tenant ::
  "(string \<Rightarrow> string) \<Rightarrow> instant \<Rightarrow> string \<Rightarrow> identity_db \<Rightarrow> auth_context \<Rightarrow> uuid \<Rightarrow> identity_db result" where
  "revoke_for_tenant hash_key now fresh s actor key_id =
     rbind (require_current_tenant_admin now s actor) (\<lambda>_.
       delete_for_tenant hash_key now fresh s (au_tenant_id actor) key_id)"

text \<open>The loop of \<open>revoke_matching\<close>; each key gets a generated secret of its own.\<close>

fun revoke_keys ::
  "(string \<Rightarrow> string) \<Rightarrow> instant \<Rightarrow> (uuid \<Rightarrow> string) \<Rightarrow> api_key_row list \<Rightarrow> identity_db \<Rightarrow> identity_db result" where
  "revoke_keys hash_key now fresh [] s = Inr s"
| "revoke_keys hash_key now fresh (k # ks) s =
     rbind (delete_for_tenant hash_key now (fresh (ak_id k)) s (ak_tenant_id k) (ak_id k))
       (revoke_keys hash_key now fresh ks)"

definition revoke_matching ::
  "(string \<Rightarrow> string) \<Rightarrow> instant \<Rightarrow> (uuid \<Rightarrow> string) \<Rightarrow> identity_db \<Rightarrow> (api_key_row \<Rightarrow> bool) \<Rightarrow> identity_db result" where
  "revoke_matching hash_key now fresh s condition =
     revoke_keys hash_key now fresh
       (select_where (\<lambda>k. condition k \<and> ak_revoked_at k = None) (id_keys s)) s"

definition rotate_key ::
  "(string \<Rightarrow> string) \<Rightarrow> uuid \<Rightarrow> instant \<Rightarrow> key_material \<Rightarrow> string \<Rightarrow> identity_db \<Rightarrow> auth_context \<Rightarrow> uuid \<Rightarrow>
   (created_api_key \<times> identity_db) result" where
  "rotate_key hash_key new_id now material fresh s actor key_id =
     rbind (require_current_tenant_admin now s actor) (\<lambda>_.
     rbind (case find_key s key_id of
              Some k \<Rightarrow> if ak_tenant_id k = au_tenant_id actor then Inr k else Inl (NotFound ''api key not found'')
            | None \<Rightarrow> Inl (NotFound ''api key not found'')) (\<lambda>old.
     if \<not> key_is_active now old
     then Inl (Conflict ''only an active key can be rotated; issue a new key instead'')
     else
     rbind (ok_or (find_key s (au_api_key_id actor)) Unauthenticated) (\<lambda>issuer.
     if ak_workspace_id issuer \<noteq> None \<and> ak_workspace_id old \<noteq> ak_workspace_id issuer
     then Inl (ScopeInsufficient ''replacement target exceeds the issuing keys binding'')
     else
     rbind (current_context now s actor) (\<lambda>current.
     rbind (require_key_grant s current (ak_scope old) (ak_audit old)) (\<lambda>_.
     rbind (expiry_within ''replacement expiry exceeds the issuing keys lifetime'' issuer (ak_expires_at old)) (\<lambda>_.
     rbind (require_attributed_key_grant s (ak_tenant_id old) (ak_user_id old) (ak_scope old)) (\<lambda>_.
     rbind (case (ak_workspace_id old, ak_user_id old) of
              (Some w, Some u) \<Rightarrow> workspace_allows Unauthenticated ''key grant exceeds current workspace authority''
                                  s (ak_tenant_id old) w u (ak_scope old)
            | _ \<Rightarrow> Inr ()) (\<lambda>_.
     let k = new_key hash_key new_id now material (ak_tenant_id old) (ak_workspace_id old) (ak_user_id old)
               (ak_name old) (ak_scope old) (ak_audit old) (ak_expires_at old) in
     rbind (insert_key s k) (\<lambda>s1.
     rbind (delete_for_tenant hash_key now fresh s1 (au_tenant_id actor) key_id) (\<lambda>s2.
     let s3 = s2\<lparr>id_keys := update_where (\<lambda>k. ak_id k = key_id) (\<lambda>k. k\<lparr>ak_replaced_by_id := Some new_id\<rparr>) (id_keys s2)\<rparr> in
     rbind (grant_metadata now s3 k) (\<lambda>grant.
     Inr (\<lparr>ck_id = new_id, ck_workspace_id = ak_workspace_id old, ck_scope = ak_scope old, ck_grant = grant,
           ck_key_prefix = fst material, ck_name = ak_name old, ck_created_at = now,
           ck_plaintext = snd material\<rparr>, s3))))))))))))"

section \<open>Authentication is bounded by the stored grant\<close>

definition workspace_in :: "identity_db \<Rightarrow> uuid \<Rightarrow> uuid \<Rightarrow> bool" where
  "workspace_in s w t \<longleftrightarrow> (\<exists>r \<in> set (db_workspaces (id_store s)). wk_id r = w \<and> wk_tenant_id r = t)"

lemma workspace_tenant_in: "get_workspace_tenant (id_store s) w = Inr t \<Longrightarrow> workspace_in s w t"
  by (auto simp: get_workspace_tenant_def workspace_in_def rbind_Inr_iff ok_or_Inr_iff dest: find_row_Some)

text \<open>The key a lookup of either backend yields.\<close>

definition usable_key :: "instant \<Rightarrow> identity_db \<Rightarrow> string \<Rightarrow> api_key_row \<Rightarrow> bool" where
  "usable_key now s h k \<longleftrightarrow> k \<in> set (id_keys s) \<and> ak_key_hash k = h \<and> key_is_active now k \<and>
     (case ak_workspace_id k of None \<Rightarrow> True | Some w \<Rightarrow> workspace_in s w (ak_tenant_id k))"

lemma set_authenticate_api_key: "set (authenticate_api_key now s h) = {k. usable_key now s h k}"
  by (auto simp: authenticate_api_key_def usable_key_def set_select_where key_is_active_def workspace_in_def
      split: option.splits)

lemma find_sqlite_auth_context_Some: "find_sqlite_auth_context now s h = Some k \<Longrightarrow> usable_key now s h k"
  by (auto simp: find_sqlite_auth_context_def usable_key_def workspace_in_def
      split: option.splits if_splits dest!: find_row_Some)

lemma resolve_key_workspace_Inr:
  assumes "resolve_key_workspace s kw t u req = Inr w"
  shows "(kw = None \<or> kw = Some w) \<and> (req = None \<or> req = Some w)"
    and "kw = None \<Longrightarrow> u = None \<Longrightarrow> workspace_in s w t"
proof -
  show "(kw = None \<or> kw = Some w) \<and> (req = None \<or> req = Some w)"
    using assms by (auto simp: resolve_key_workspace_def rbind_Inr_iff split: option.splits if_splits)
  show "workspace_in s w t" if "kw = None" "u = None"
  proof (cases req)
    case None
    then have "map wk_id (select_where (\<lambda>w. wk_tenant_id w = t) (db_workspaces (id_store s))) = [w]"
      using assms that by (auto simp: resolve_key_workspace_def reachable_workspace_ids_def split: list.splits)
    then have "w \<in> set (map wk_id (select_where (\<lambda>w. wk_tenant_id w = t) (db_workspaces (id_store s))))" by simp
    then show ?thesis by (auto simp: workspace_in_def set_select_where)
  next
    case (Some r)
    then show ?thesis using assms that workspace_tenant_in
      by (auto simp: resolve_key_workspace_def rbind_Inr_iff split: if_splits)
  qed
qed

lemma authenticated_Inr:
  assumes "authenticated s req key = Inr ctx"
  obtains k where "key = Some k" "resolve_key_workspace s (ak_workspace_id k) (ak_tenant_id k) (ak_user_id k) req = Inr (au_workspace_id ctx)"
    "with_current_membership s (context_of k (au_workspace_id ctx)) = Inr ctx"
proof -
  obtain k w where k: "key = Some k" and w: "resolve_key_workspace s (ak_workspace_id k) (ak_tenant_id k) (ak_user_id k) req = Inr w"
    and c: "with_current_membership s (context_of k w) = Inr ctx"
    using assms by (auto simp: authenticated_def rbind_Inr_iff ok_or_Inr_iff)
  have "au_workspace_id ctx = w" using with_current_membership_Inr(3) [OF c]
    by (metis auth_context.select_convs(2) auth_context.surjective auth_context.update_convs(4) context_of_simps(2))
  then show thesis using that k w c by simp
qed

text \<open>The grant of a context that authentication produced, next to the stored key.\<close>

definition context_within :: "identity_db \<Rightarrow> api_key_row \<Rightarrow> auth_context \<Rightarrow> bool" where
  "context_within s k ctx \<longleftrightarrow>
     au_api_key_id ctx = ak_id k \<and> au_tenant_id ctx = ak_tenant_id k \<and> au_user_id ctx = ak_user_id k \<and>
     au_audit ctx = ak_audit k \<and> au_scope ctx \<le> ak_scope k \<and>
     (ak_workspace_id k = None \<or> ak_workspace_id k = Some (au_workspace_id ctx)) \<and>
     require_active s (au_tenant_id ctx) = Inr () \<and> workspace_in s (au_workspace_id ctx) (au_tenant_id ctx) \<and>
     (case au_user_id ctx of
        None \<Rightarrow> au_scope ctx = ak_scope k
      | Some u \<Rightarrow> (\<exists>role a. get_membership_role s (au_tenant_id ctx) u = Some role \<and>
          au_scope ctx \<le> role_max_scope role \<and>
          workspace_access s (au_tenant_id ctx) (au_workspace_id ctx) u = Inr (Some a) \<and> au_scope ctx \<le> wa_max_scope a))"

lemma context_withinI:
  assumes c: "with_current_membership s (context_of k w) = Inr ctx"
    and bound: "ak_workspace_id k = None \<or> ak_workspace_id k = Some w"
    and inside: "ak_user_id k = None \<Longrightarrow> workspace_in s w (ak_tenant_id k)"
  shows "context_within s k ctx"
proof -
  note facts = with_current_membership_Inr [OF c]
  have eqs: "au_api_key_id ctx = ak_id k" "au_tenant_id ctx = ak_tenant_id k" "au_user_id ctx = ak_user_id k"
    "au_audit ctx = ak_audit k" "au_workspace_id ctx = w"
    by (subst facts(3); simp)+
  have role: "\<exists>role a. get_membership_role s (ak_tenant_id k) u = Some role \<and> au_scope ctx \<le> role_max_scope role \<and>
      workspace_access s (ak_tenant_id k) w u = Inr (Some a) \<and> au_scope ctx \<le> wa_max_scope a"
    and ins: "workspace_in s w (ak_tenant_id k)" if user: "ak_user_id k = Some u" for u
  proof -
    obtain a where a: "workspace_access s (ak_tenant_id k) w u = Inr (Some a)" "au_scope ctx \<le> wa_max_scope a"
      using facts(4) [of u] user by auto
    then show "workspace_in s w (ak_tenant_id k)" by (auto simp: workspace_access_Some intro: workspace_tenant_in)
    obtain role where "get_membership_role s (ak_tenant_id k) u = Some role" "wa_max_scope a \<le> role_max_scope role"
      using a(1) workspace_access_for_role_le unfolding workspace_access_Some by blast
    then show "\<exists>role a. get_membership_role s (ak_tenant_id k) u = Some role \<and> au_scope ctx \<le> role_max_scope role \<and>
      workspace_access s (ak_tenant_id k) w u = Inr (Some a) \<and> au_scope ctx \<le> wa_max_scope a"
      using a by (auto intro: order_trans)
  qed
  show ?thesis
    unfolding context_within_def eqs
    using facts(1,2,5) bound role ins inside eqs by (cases "ak_user_id k") auto
qed

lemma authenticated_usable:
  assumes "authenticate hash_key now s presented requested = Inr ctx
    \<or> authenticate_sqlite hash_key now s presented requested = Inr ctx"
  obtains k where "usable_key now s (hash_key presented) k"
    "resolve_key_workspace s (ak_workspace_id k) (ak_tenant_id k) (ak_user_id k) requested = Inr (au_workspace_id ctx)"
    "with_current_membership s (context_of k (au_workspace_id ctx)) = Inr ctx"
  using assms
proof
  assume "authenticate hash_key now s presented requested = Inr ctx"
  then show thesis using that set_authenticate_api_key [of now s "hash_key presented"] unfolding authenticate_def
    by (elim authenticated_Inr) (auto split: list.splits)
next
  assume "authenticate_sqlite hash_key now s presented requested = Inr ctx"
  then show thesis using that find_sqlite_auth_context_Some unfolding authenticate_sqlite_def
    by (elim authenticated_Inr) blast
qed

lemma authenticated_active:
  assumes "authenticate hash_key now s presented requested = Inr ctx
    \<or> authenticate_sqlite hash_key now s presented requested = Inr ctx"
  shows "\<exists>k \<in> set (id_keys s). key_is_active now k \<and> ak_id k = au_api_key_id ctx"
proof -
  obtain k where "usable_key now s (hash_key presented) k" "with_current_membership s (context_of k (au_workspace_id ctx)) = Inr ctx"
    using authenticated_usable [OF assms] by blast
  then show ?thesis using with_current_membership_Inr(3)
    by (metis auth_context.select_convs(1) auth_context.surjective auth_context.update_convs(4) context_of_simps(1) usable_key_def)
qed

text \<open>
  Property C16. Authentication never widens a grant, on either backend: a context comes only from a stored
  key with the presented key's hash that is neither revoked nor expired; its tenant, user and audit grant
  are the key's, the tenant is active and owns the workspace acted on, a bound key acts on its own
  workspace, a named target is honoured, and the scope is within the stored scope, the user's current
  tenant role and their current workspace access.
\<close>

theorem authentication_bounded:
  assumes "authenticate hash_key now s presented requested = Inr ctx
    \<or> authenticate_sqlite hash_key now s presented requested = Inr ctx"
  shows "\<exists>k \<in> set (id_keys s). ak_key_hash k = hash_key presented \<and> key_is_active now k \<and> context_within s k ctx
    \<and> (requested = None \<or> requested = Some (au_workspace_id ctx))"
proof -
  obtain k where u: "usable_key now s (hash_key presented) k"
    and w: "resolve_key_workspace s (ak_workspace_id k) (ak_tenant_id k) (ak_user_id k) requested = Inr (au_workspace_id ctx)"
    and c: "with_current_membership s (context_of k (au_workspace_id ctx)) = Inr ctx"
    using authenticated_usable [OF assms] by blast
  have "context_within s k ctx"
    using resolve_key_workspace_Inr [OF w] u by (intro context_withinI [OF c]) (auto simp: usable_key_def)
  then show ?thesis using u resolve_key_workspace_Inr(1) [OF w] by (auto simp: usable_key_def)
qed

theorem authentication_bounded_witness:
  "\<exists>k \<in> set (id_keys acme). ak_key_hash k = id ''member'' \<and> key_is_active 5 k \<and>
     context_within acme k \<lparr>au_api_key_id = 62, au_workspace_id = 3, au_tenant_id = 9, au_scope = ScopeWrite,
       au_user_id = Some 22, au_audit = False\<rparr> \<and> (None = None \<or> None = Some (3 :: uuid))"
proof -
  have "authenticate id 5 acme ''member'' None = Inr \<lparr>au_api_key_id = 62, au_workspace_id = 3, au_tenant_id = 9,
      au_scope = ScopeWrite, au_user_id = Some 22, au_audit = False\<rparr>"
    by (simp add: authenticate_def authenticated_def authenticate_api_key_def acme_defs select_where_def
        resolve_key_workspace_def with_current_membership_def context_of_def require_active_def find_row_def
        get_membership_role_def workspace_access_def workspace_access_for_role_def workspace_member_role_def
        get_workspace_tenant_def administers_tenant_def min_def scope_order)
  then show ?thesis using authentication_bounded [of id 5 acme "''member''" None] by fastforce
qed

text \<open>
  The two backends authenticate alike: with unique key hashes and workspace ids, the lookup
  SQLite performs in the model and the SQL function PostgreSQL runs give the same context or the same
  error for every presented key and target.
\<close>

theorem backends_authenticate_alike:
  assumes "identity_keys s"
  shows "authenticate_sqlite hash_key now s presented requested = authenticate hash_key now s presented requested"
proof -
  let ?h = "hash_key presented"
  have hash: "distinct (map ak_key_hash (id_keys s))" and ws: "distinct (map wk_id (db_workspaces (id_store s)))"
    using assms by (simp_all add: identity_keys_def)
  have sqlite: "find_sqlite_auth_context now s ?h = Some k" if u: "usable_key now s ?h k" for k
  proof -
    have "find_row (\<lambda>k. ak_key_hash k = ?h) (id_keys s) = Some k"
      using distinct_key_find [OF hash, of k] u by (simp add: usable_key_def)
    moreover have "\<exists>r. find_row (\<lambda>r. wk_id r = w) (db_workspaces (id_store s)) = Some r \<and> wk_tenant_id r = ak_tenant_id k"
      if "ak_workspace_id k = Some w" for w
      using distinct_key_find [OF ws] u that by (fastforce simp: usable_key_def workspace_in_def)
    ultimately show ?thesis using u
      by (auto simp: find_sqlite_auth_context_def usable_key_def split: option.splits)
  qed
  have "find_sqlite_auth_context now s ?h = (case authenticate_api_key now s ?h of [] \<Rightarrow> None | k # _ \<Rightarrow> Some k)"
  proof (cases "authenticate_api_key now s ?h")
    case Nil
    then have "\<not> usable_key now s ?h k" for k using set_authenticate_api_key [of now s ?h] by auto
    then show ?thesis using Nil find_sqlite_auth_context_Some by (metis list.simps(4) not_None_eq)
  next
    case (Cons k ks)
    then show ?thesis using sqlite [of k] set_authenticate_api_key [of now s ?h] by auto
  qed
  then show ?thesis by (simp add: authenticate_sqlite_def authenticate_def)
qed

theorem backends_authenticate_alike_witness:
  "authenticate_sqlite id 5 acme ''member'' None = authenticate id 5 acme ''member'' None"
  by (rule backends_authenticate_alike [OF acme_identity_keys])

section \<open>Delegation is bounded by the issuer\<close>

text \<open>The key \<open>k\<close> carries nothing the key \<open>issuer\<close> does not.\<close>

definition delegated_from :: "api_key_row \<Rightarrow> api_key_row \<Rightarrow> bool" where
  "delegated_from issuer k \<longleftrightarrow>
     ak_tenant_id k = ak_tenant_id issuer \<and> ak_user_id k = ak_user_id issuer \<and>
     (ak_workspace_id issuer = None \<or> ak_workspace_id k = ak_workspace_id issuer) \<and>
     ak_scope k \<le> ak_scope issuer \<and> (ak_audit k \<longrightarrow> ak_audit issuer) \<and>
     (case ak_expires_at issuer of
        None \<Rightarrow> True
      | Some limit \<Rightarrow> (case ak_expires_at k of None \<Rightarrow> False | Some e \<Rightarrow> e \<le> limit))"

lemma new_key_simps [simp]:
  "ak_id (new_key h i now m t w u n sc au e) = i" "ak_tenant_id (new_key h i now m t w u n sc au e) = t"
  "ak_workspace_id (new_key h i now m t w u n sc au e) = w" "ak_user_id (new_key h i now m t w u n sc au e) = u"
  "ak_scope (new_key h i now m t w u n sc au e) = sc" "ak_audit (new_key h i now m t w u n sc au e) = au"
  "ak_expires_at (new_key h i now m t w u n sc au e) = e" "ak_revoked_at (new_key h i now m t w u n sc au e) = None"
  "ak_key_hash (new_key h i now m t w u n sc au e) = h (snd m)" "ak_name (new_key h i now m t w u n sc au e) = n"
  by (simp_all add: new_key_def)

lemma insert_key_Inr: "insert_key s k = Inr s' \<Longrightarrow> s' = s\<lparr>id_keys := id_keys s @ [k]\<rparr> \<and> ak_id k \<notin> ak_id ` set (id_keys s)"
  by (simp add: insert_key_def split: if_splits)

lemma issue_key_Inr:
  "issue_key now s k material = Inr (c, s') \<Longrightarrow>
     s' = s\<lparr>id_keys := id_keys s @ [k]\<rparr> \<and> ck_id c = ak_id k \<and> ck_plaintext c = snd material \<and> ak_id k \<notin> ak_id ` set (id_keys s)"
  by (auto simp: issue_key_def rbind_Inr_iff dest!: insert_key_Inr)

lemma expiry_within_Inr:
  "expiry_within m k e = Inr x \<longleftrightarrow>
     (case ak_expires_at k of None \<Rightarrow> True | Some limit \<Rightarrow> (case e of None \<Rightarrow> False | Some e \<Rightarrow> e \<le> limit))"
  by (cases "ak_expires_at k") (auto simp: expiry_within_def ensure_Inr_iff)

lemma require_key_grant_Inr:
  "require_key_grant s issuer scope audit = Inr x \<Longrightarrow>
     scope \<le> au_scope issuer \<and> (audit \<longrightarrow> au_audit issuer) \<and>
     (\<exists>u role. au_user_id issuer = Some u \<and> get_membership_role s (au_tenant_id issuer) u = Some role \<and> administers_tenant role)"
  by (auto simp: require_key_grant_def rbind_Inr_iff require_tenant_admin_Inr require_scope_def require_audit_def
      ensure_Inr_iff satisfies_def split: if_splits)

text \<open>The checks both delegating operations make of their issuer.\<close>

lemma delegated_fromI:
  assumes c: "current_context now s issuer = Inr current" and g: "require_key_grant s current scope audit = Inr x"
    and ik: "find_key s (au_api_key_id issuer) = Some ik" and e: "expiry_within m ik expires_at = Inr y"
  shows "key_is_active now ik" and "get_workspace_tenant (id_store s) (au_workspace_id issuer) = Inr (au_tenant_id issuer)"
    and "ak_workspace_id ik = None \<or> w = Some (au_workspace_id issuer) \<Longrightarrow>
      delegated_from ik (new_key h i now mat (au_tenant_id issuer) w (au_user_id issuer) n scope audit expires_at)"
proof -
  obtain k where k: "find_key s (au_api_key_id issuer) = Some k" "key_is_active now k"
    "ak_tenant_id k = au_tenant_id issuer" "ak_user_id k = au_user_id issuer"
    "ak_workspace_id k = None \<or> ak_workspace_id k = Some (au_workspace_id issuer)"
    "with_current_membership s (context_of k (au_workspace_id issuer)) = Inr current"
    using current_context_Inr [OF c] by blast
  note facts = with_current_membership_Inr [OF k(6)] and grant = require_key_grant_Inr [OF g]
  have eqs: "au_audit current = ak_audit k" "au_user_id current = ak_user_id k"
    by (subst facts(3); simp)+
  have ik_eq: "ik = k" using k(1) ik by simp
  then show "key_is_active now ik" using k(2) by simp
  obtain u where u: "ak_user_id k = Some u" using grant eqs by auto
  then obtain a where "workspace_access s (ak_tenant_id k) (au_workspace_id issuer) u = Inr (Some a)"
    using facts(4) [of u] by auto
  then show "get_workspace_tenant (id_store s) (au_workspace_id issuer) = Inr (au_tenant_id issuer)"
    using k(3) by (simp add: workspace_access_Some)
  have "scope \<le> ak_scope k" "audit \<longrightarrow> ak_audit k"
    using grant eqs facts(2) by (auto intro: order_trans)
  then show "delegated_from ik (new_key h i now mat (au_tenant_id issuer) w (au_user_id issuer) n scope audit expires_at)"
    if "ak_workspace_id ik = None \<or> w = Some (au_workspace_id issuer)"
    using that k(3-5) e ik_eq unfolding expiry_within_Inr delegated_from_def new_key_simps by auto
qed

text \<open>
  Property C19. Delegation is bounded: when a credential issues a key, for its workspace or for its tenant,
  exactly one row is added; the issuing key is stored and active, and the new key has its tenant and user, a workspace
  binding and scope within its own, the audit grant only if it has it, and an expiry no later than its own.
\<close>

theorem delegation_bounded:
  assumes "create_delegated_api_key hash_key new_id now material s issuer scope audit name expires_at = Inr (c, s')
    \<or> create_delegated_tenant_api_key hash_key new_id now material s issuer scope audit name expires_at = Inr (c, s')"
  shows "\<exists>ik k. find_key s (au_api_key_id issuer) = Some ik \<and> key_is_active now ik \<and> delegated_from ik k \<and>
    ak_id k = ck_id c \<and> ak_scope k = scope \<and> ak_audit k = audit \<and> ak_expires_at k = expires_at \<and>
    ak_key_hash k = hash_key (ck_plaintext c) \<and> s' = s\<lparr>id_keys := id_keys s @ [k]\<rparr>"
  using assms
proof
  assume "create_delegated_api_key hash_key new_id now material s issuer scope audit name expires_at = Inr (c, s')"
  then obtain t current ik n m x y where t: "get_workspace_tenant (id_store s) (au_workspace_id issuer) = Inr t"
    and checks: "current_context now s issuer = Inr current" "require_key_grant s current scope audit = Inr x"
      "find_key s (au_api_key_id issuer) = Some ik" "expiry_within m ik expires_at = Inr y"
    and issue: "issue_key now s (new_key hash_key new_id now material t (Some (au_workspace_id issuer)) (au_user_id issuer)
      n scope audit expires_at) material = Inr (c, s')"
    unfolding create_delegated_api_key_def create_named_api_key_def
    by (fastforce simp: rbind_Inr_iff ok_or_Inr_iff)
  have "t = au_tenant_id issuer" using delegated_fromI(2) [OF checks] t by simp
  then show ?thesis using delegated_fromI(1,3) [OF checks] issue_key_Inr [OF issue] checks(3)
    by (intro exI [of _ ik] exI conjI) auto
next
  assume "create_delegated_tenant_api_key hash_key new_id now material s issuer scope audit name expires_at = Inr (c, s')"
  then obtain current ik n m x y where
    checks: "current_context now s issuer = Inr current" "require_key_grant s current scope audit = Inr x"
      "find_key s (au_api_key_id issuer) = Some ik" "expiry_within m ik expires_at = Inr y"
    and unbound: "ak_workspace_id ik = None"
    and issue: "issue_key now s (new_key hash_key new_id now material (au_tenant_id issuer) None (au_user_id issuer)
      n scope audit expires_at) material = Inr (c, s')"
    unfolding create_delegated_tenant_api_key_def
    by (fastforce simp: rbind_Inr_iff ok_or_Inr_iff split: if_splits)
  then show ?thesis using delegated_fromI(1,3) [OF checks] unbound issue_key_Inr [OF issue] checks(3)
    by (intro exI [of _ ik] exI conjI) auto
qed

text \<open>The administrator of the sample tenant, acting on its first workspace.\<close>

definition acme_admin :: auth_context where
  "acme_admin = \<lparr>au_api_key_id = 61, au_workspace_id = 3, au_tenant_id = 9, au_scope = ScopeMigration,
     au_user_id = Some 21, au_audit = False\<rparr>"

lemma acme_admin_context: "current_context 5 acme acme_admin = Inr acme_admin"
  by (simp add: current_context_def find_key_def acme_defs acme_admin_def find_row_def key_is_active_def
      with_current_membership_def context_of_def require_active_def get_membership_role_def workspace_access_def
      workspace_access_for_role_def get_workspace_tenant_def administers_tenant_def)

lemma acme_ci_name: "validate_key_name ''ci'' = Inr ''ci''"
proof -
  have "strip_any whitespace_encodings ''ci'' = None" "strip_any (map rev whitespace_encodings) ''ic'' = None"
    by (simp_all add: strip_any_def whitespace_encodings_def find_None_iff char_of_def bit_iff_odd)
  then have "trim ''ci'' = ''ci''" by (simp add: trim_def trim_start_with.simps [of _ "''ci''"] trim_start_with.simps [of _ "''ic''"])
  then show ?thesis by (simp add: validate_key_name_def char_count_def)
qed

theorem delegation_bounded_witness:
  "\<exists>c s' ik k. create_delegated_api_key id 70 5 (''yk'', ''secret'') acme acme_admin ScopeWrite False ''ci'' None = Inr (c, s') \<and>
     find_key acme 61 = Some ik \<and> key_is_active 5 ik \<and> delegated_from ik k \<and> s' = acme\<lparr>id_keys := id_keys acme @ [k]\<rparr>"
proof -
  have "\<exists>c s'. create_delegated_api_key id 70 5 (''yk'', ''secret'') acme acme_admin ScopeWrite False ''ci'' None = Inr (c, s')"
    using acme_admin_context acme_ci_name
    by (simp add: create_delegated_api_key_def create_named_api_key_def expiry_in_future_def require_attributed_key_grant_def
        workspace_allows_def expiry_within_def issue_key_def insert_key_def new_key_def grant_metadata_def grant_scope_def
        require_key_grant_def require_tenant_admin_def require_scope_def satisfies_def effective_scope_def
        find_key_def find_row_def key_is_active_def require_active_def get_membership_role_def workspace_access_def
        workspace_access_for_role_def get_workspace_tenant_def administers_tenant_def min_def scope_order acme_defs acme_admin_def)
  then obtain c s' where "create_delegated_api_key id 70 5 (''yk'', ''secret'') acme acme_admin ScopeWrite False ''ci'' None = Inr (c, s')"
    by blast
  moreover note delegation_bounded [OF disjI1 [OF this]]
  ultimately show ?thesis by (auto simp: acme_admin_def)
qed

section \<open>Revocation and rotation\<close>

lemma delete_for_tenant_Inr:
  "delete_for_tenant h now f s t i = Inr s' \<Longrightarrow>
     (\<exists>k \<in> set (id_keys s). ak_id k = i \<and> ak_tenant_id k = t \<and> ak_revoked_at k = None) \<and>
     s' = s\<lparr>id_keys := update_where (\<lambda>k. ak_id k = i \<and> ak_tenant_id k = t \<and> ak_revoked_at k = None)
       (\<lambda>k. k\<lparr>ak_revoked_at := Some now, ak_key_hash := h f\<rparr>) (id_keys s)\<rparr>"
  by (auto simp: delete_for_tenant_def Let_def count_where_0 split: if_splits)

text \<open>The statements a successful rotation executes.\<close>

lemma rotate_key_Inr:
  assumes "rotate_key h i now m f s actor key_id = Inr (c, s')"
  obtains old s1 s2 where "find_key s key_id = Some old" "ak_tenant_id old = au_tenant_id actor" "key_is_active now old"
    "insert_key s (new_key h i now m (ak_tenant_id old) (ak_workspace_id old) (ak_user_id old) (ak_name old)
       (ak_scope old) (ak_audit old) (ak_expires_at old)) = Inr s1"
    "delete_for_tenant h now f s1 (au_tenant_id actor) key_id = Inr s2"
    "s' = s2\<lparr>id_keys := update_where (\<lambda>k. ak_id k = key_id) (\<lambda>k. k\<lparr>ak_replaced_by_id := Some i\<rparr>) (id_keys s2)\<rparr>"
proof -
  obtain old s1 s2 where found: "(case find_key s key_id of
      Some k \<Rightarrow> if ak_tenant_id k = au_tenant_id actor then Inr k else Inl (NotFound ''api key not found'')
    | None \<Rightarrow> Inl (NotFound ''api key not found'')) = Inr old" and rest: "key_is_active now old"
    "insert_key s (new_key h i now m (ak_tenant_id old) (ak_workspace_id old) (ak_user_id old) (ak_name old)
       (ak_scope old) (ak_audit old) (ak_expires_at old)) = Inr s1"
    "delete_for_tenant h now f s1 (au_tenant_id actor) key_id = Inr s2"
    "s' = s2\<lparr>id_keys := update_where (\<lambda>k. ak_id k = key_id) (\<lambda>k. k\<lparr>ak_replaced_by_id := Some i\<rparr>) (id_keys s2)\<rparr>"
    using assms unfolding rotate_key_def rbind_Inr_iff guard_Inr_iff Let_def not_not sum.inject prod.inject
    by (elim exE conjE) (rule that; (assumption | erule sym))
  from found have "find_key s key_id = Some old" "ak_tenant_id old = au_tenant_id actor"
    by (auto split: option.splits if_splits)
  then show thesis using that rest by blast
qed

end
