(* ===== verification/Memberships.thy ===== *)
theory Memberships
  imports Api_Keys
begin

text \<open>
  \<open>src/models/tenant_memberships/operations.rs\<close>, \<open>src/models/workspace_memberships.rs\<close> and the
  workspace creation of \<open>src/models/tenancy.rs\<close>: who belongs to a tenant and a workspace, with which role.

  The lemmas show that a tenant that has an owner keeps one through every history, and that removing a
  member locks out every key attributed to them for good.
\<close>

section \<open>Tenant memberships\<close>

definition count_owners :: "identity_db \<Rightarrow> uuid \<Rightarrow> nat" where
  "count_owners s tenant_id =
     count_where (\<lambda>m. mb_tenant_id m = tenant_id \<and> mb_role m = RoleOwner) (id_members s)"

definition protect_owner ::
  "identity_db \<Rightarrow> uuid \<Rightarrow> uuid \<Rightarrow> membership_role option \<Rightarrow> unit result" where
  "protect_owner s tenant_id user_id next_role =
     (if next_role = Some RoleOwner \<or> get_membership_role s tenant_id user_id \<noteq> Some RoleOwner then Inr ()
      else if count_owners s tenant_id \<le> 1
      then Inl (Conflict ''cannot remove or demote the tenants last owner'')
      else Inr ())"

text \<open>\<open>INSERT .. ON CONFLICT (tenant_id, user_id) DO UPDATE SET role\<close>.\<close>

definition upsert_member :: "instant \<Rightarrow> identity_db \<Rightarrow> uuid \<Rightarrow> uuid \<Rightarrow> membership_role \<Rightarrow> identity_db result" where
  "upsert_member now s tenant_id user_id role =
     (let same = (\<lambda>m. mb_tenant_id m = tenant_id \<and> mb_user_id m = user_id) in
      if count_where same (id_members s) > 0
      then Inr (s\<lparr>id_members := update_where same (\<lambda>m. m\<lparr>mb_role := role\<rparr>) (id_members s)\<rparr>)
      else if tenant_id \<notin> tn_id ` set (id_tenants s) \<or> user_id \<notin> us_id ` set (id_users s)
      then Inl (Internal ''constraint'')
      else Inr (s\<lparr>id_members := id_members s @
        [\<lparr>mb_tenant_id = tenant_id, mb_user_id = user_id, mb_role = role, mb_created_at = now\<rparr>]\<rparr>))"

definition add_member :: "instant \<Rightarrow> identity_db \<Rightarrow> uuid \<Rightarrow> uuid \<Rightarrow> membership_role \<Rightarrow> identity_db result" where
  "add_member now s tenant_id user_id role =
     rbind (protect_owner s tenant_id user_id (Some role)) (\<lambda>_. upsert_member now s tenant_id user_id role)"

record membership_key_access =
  mk_api_key_id :: uuid
  mk_stored_scope :: api_key_scope
  mk_effective_scope :: "api_key_scope option"
  mk_audit :: bool

definition key_access :: "instant \<Rightarrow> identity_db \<Rightarrow> uuid \<Rightarrow> uuid \<Rightarrow> membership_role \<Rightarrow> membership_key_access list" where
  "key_access now s tenant_id user_id role =
     map (\<lambda>k. \<lparr>mk_api_key_id = ak_id k, mk_stored_scope = ak_scope k,
               mk_effective_scope = (case ak_workspace_id k of
                   Some w \<Rightarrow> map_option (\<lambda>a. min (ak_scope k) (wa_max_scope a)) (workspace_access_for_role s w user_id role)
                 | None \<Rightarrow> None),
               mk_audit = ak_audit k\<rparr>)
       (sort_key ak_id (select_where (\<lambda>k. ak_tenant_id k = tenant_id \<and> ak_user_id k = Some user_id \<and>
          ak_revoked_at k = None \<and> (case ak_expires_at k of None \<Rightarrow> True | Some e \<Rightarrow> e > now)) (id_keys s)))"

definition update_member_access ::
  "instant \<Rightarrow> identity_db \<Rightarrow> auth_context \<Rightarrow> uuid \<Rightarrow> membership_role \<Rightarrow>
   (membership_key_access list \<times> identity_db) result" where
  "update_member_access now s actor user_id role =
     rbind (require_current_tenant_admin now s actor) (\<lambda>_.
     rbind (if role = RoleOwner \<or> get_membership_role s (au_tenant_id actor) user_id = Some RoleOwner
            then rbind (require_current_tenant_owner now s actor) (\<lambda>_. Inr ()) else Inr ()) (\<lambda>_.
     rbind (add_member now s (au_tenant_id actor) user_id role) (\<lambda>s'.
     Inr (key_access now s' (au_tenant_id actor) user_id role, s'))))"

definition transfer_ownership :: "instant \<Rightarrow> identity_db \<Rightarrow> auth_context \<Rightarrow> uuid \<Rightarrow> identity_db result" where
  "transfer_ownership now s actor successor_id =
     rbind (require_current_tenant_admin now s actor) (\<lambda>_.
     rbind (ok_or (au_user_id actor) Unauthenticated) (\<lambda>user_id.
     if get_membership_role s (au_tenant_id actor) user_id \<noteq> Some RoleOwner
     then Inl (ScopeInsufficient ''only a tenant owner can transfer ownership'')
     else if user_id = successor_id then Inl (Conflict ''ownership must be transferred to another member'')
     else
     rbind (ok_or (get_membership_role s (au_tenant_id actor) successor_id)
              (NotFound ''successor tenant membership not found'')) (\<lambda>_.
     rbind (add_member now s (au_tenant_id actor) successor_id RoleOwner) (\<lambda>s1.
     add_member now s1 (au_tenant_id actor) user_id RoleAdmin))))"

definition remove_member ::
  "(string \<Rightarrow> string) \<Rightarrow> instant \<Rightarrow> (uuid \<Rightarrow> string) \<Rightarrow> identity_db \<Rightarrow> uuid \<Rightarrow> uuid \<Rightarrow> identity_db result" where
  "remove_member hash_key now fresh s tenant_id user_id =
     rbind (protect_owner s tenant_id user_id None) (\<lambda>_.
     let workspaces = map wk_id (select_where (\<lambda>w. wk_tenant_id w = tenant_id) (db_workspaces (id_store s)));
         s1 = s\<lparr>id_workspace_members := delete_where
                (\<lambda>m. wm_user_id m = user_id \<and> wm_workspace_id m \<in> set workspaces) (id_workspace_members s),
               id_members := delete_where (\<lambda>m. mb_tenant_id m = tenant_id \<and> mb_user_id m = user_id) (id_members s)\<rparr>
     in revoke_matching hash_key now fresh s1 (\<lambda>k. ak_tenant_id k = tenant_id \<and> ak_user_id k = Some user_id))"

definition remove_member_as ::
  "(string \<Rightarrow> string) \<Rightarrow> instant \<Rightarrow> (uuid \<Rightarrow> string) \<Rightarrow> identity_db \<Rightarrow> auth_context \<Rightarrow> uuid \<Rightarrow> identity_db result" where
  "remove_member_as hash_key now fresh s actor user_id =
     rbind (require_current_tenant_admin now s actor) (\<lambda>_.
     rbind (if get_membership_role s (au_tenant_id actor) user_id = Some RoleOwner
            then rbind (require_current_tenant_owner now s actor) (\<lambda>_. Inr ()) else Inr ()) (\<lambda>_.
     remove_member hash_key now fresh s (au_tenant_id actor) user_id))"

record membership_role_preview =
  rp_user_id :: uuid
  rp_current_role :: membership_role
  rp_requested_role :: membership_role
  rp_blocked_by_last_owner :: bool
  rp_lost_workspace_ids :: "uuid list"
  rp_keys :: "membership_key_access list"

definition preview_role_change ::
  "instant \<Rightarrow> identity_db \<Rightarrow> auth_context \<Rightarrow> uuid \<Rightarrow> membership_role \<Rightarrow> membership_role_preview result" where
  "preview_role_change now s actor user_id role =
     rbind (require_current_tenant_admin now s actor) (\<lambda>_.
     rbind (ok_or (get_membership_role s (au_tenant_id actor) user_id) (NotFound ''tenant membership not found'')) (\<lambda>current.
     rbind (if role \<noteq> RoleOwner
            then (case protect_owner s (au_tenant_id actor) user_id (Some role) of
                    Inr _ \<Rightarrow> Inr False | Inl (Conflict _) \<Rightarrow> Inr True | Inl e \<Rightarrow> Inl e)
            else Inr False) (\<lambda>blocked.
     rbind (login_options s user_id) (\<lambda>(_, candidates).
     let ids = map wk_id (select_where (\<lambda>w. wk_tenant_id w = au_tenant_id actor \<and>
                 wk_id w \<in> lw_workspace_id ` set candidates) (db_workspaces (id_store s)));
         lost = sort (filter (\<lambda>w. workspace_access_for_role s w user_id role = None) ids)
     in Inr \<lparr>rp_user_id = user_id, rp_current_role = current, rp_requested_role = role,
             rp_blocked_by_last_owner = blocked, rp_lost_workspace_ids = lost,
             rp_keys = key_access now s (au_tenant_id actor) user_id role\<rparr>))))"

record membership_removal_preview =
  mp_user_id :: uuid
  mp_role :: "membership_role option"
  mp_blocked_by_last_owner :: bool
  mp_revoked_api_key_ids :: "uuid list"
  mp_lost_workspace_ids :: "uuid list"

definition preview_removal ::
  "instant \<Rightarrow> identity_db \<Rightarrow> auth_context \<Rightarrow> uuid \<Rightarrow> membership_removal_preview result" where
  "preview_removal now s actor user_id =
     rbind (require_current_tenant_admin now s actor) (\<lambda>_.
     let role = get_membership_role s (au_tenant_id actor) user_id;
         blocked = (role = Some RoleOwner \<and> count_owners s (au_tenant_id actor) \<le> 1);
         revoked = sort (map ak_id (select_where (\<lambda>k. ak_tenant_id k = au_tenant_id actor \<and>
                     ak_user_id k = Some user_id \<and> ak_revoked_at k = None) (id_keys s)))
     in rbind (if role \<noteq> None
               then rbind (login_options s user_id) (\<lambda>(_, candidates).
                 Inr (sort (map wk_id (select_where (\<lambda>w. wk_tenant_id w = au_tenant_id actor \<and>
                   wk_id w \<in> lw_workspace_id ` set candidates) (db_workspaces (id_store s))))))
               else Inr []) (\<lambda>lost.
        Inr \<lparr>mp_user_id = user_id, mp_role = role, mp_blocked_by_last_owner = blocked,
             mp_revoked_api_key_ids = revoked, mp_lost_workspace_ids = lost\<rparr>))"

record membership_record =
  mr_user_id :: uuid
  mr_email :: string
  mr_display_name :: "string option"
  mr_role :: membership_role

definition list_members :: "identity_db \<Rightarrow> uuid \<Rightarrow> list_params \<Rightarrow> membership_record list" where
  "list_members s tenant_id page =
     List.map_filter (\<lambda>m. map_option (\<lambda>u. \<lparr>mr_user_id = us_id u, mr_email = us_email u,
         mr_display_name = us_display_name u, mr_role = mb_role m\<rparr>)
         (find_row (\<lambda>u. us_id u = mb_user_id m) (id_users s)))
       (page_of page (sort_key mb_created_at (select_where (\<lambda>m. mb_tenant_id m = tenant_id) (id_members s))))"

section \<open>Workspace memberships\<close>

definition grant_workspace :: "identity_db \<Rightarrow> uuid \<Rightarrow> uuid \<Rightarrow> workspace_role \<Rightarrow> identity_db result" where
  "grant_workspace s workspace_id user_id role =
     rbind (get_workspace_tenant (id_store s) workspace_id) (\<lambda>tenant_id.
     rbind (ok_or (get_membership_role s tenant_id user_id) (NotFound ''tenant membership not found'')) (\<lambda>_.
     let same = (\<lambda>m. wm_workspace_id m = workspace_id \<and> wm_user_id m = user_id) in
     if count_where same (id_workspace_members s) > 0
     then Inr (s\<lparr>id_workspace_members := update_where same (\<lambda>m. m\<lparr>wm_role := role\<rparr>) (id_workspace_members s)\<rparr>)
     else Inr (s\<lparr>id_workspace_members := id_workspace_members s @
            [\<lparr>wm_workspace_id = workspace_id, wm_user_id = user_id, wm_role = role\<rparr>]\<rparr>)))"

definition revoke_workspace ::
  "(string \<Rightarrow> string) \<Rightarrow> instant \<Rightarrow> (uuid \<Rightarrow> string) \<Rightarrow> identity_db \<Rightarrow> uuid \<Rightarrow> uuid \<Rightarrow> identity_db result" where
  "revoke_workspace hash_key now fresh s workspace_id user_id =
     rbind (get_workspace_tenant (id_store s) workspace_id) (\<lambda>tenant_id.
     let s1 = s\<lparr>id_workspace_members := delete_where
                 (\<lambda>m. wm_workspace_id m = workspace_id \<and> wm_user_id m = user_id) (id_workspace_members s)\<rparr>;
         inherited = (case get_membership_role s1 tenant_id user_id of
             None \<Rightarrow> False | Some role \<Rightarrow> administers_tenant role)
     in if inherited then Inr s1
        else revoke_matching hash_key now fresh s1 (\<lambda>k. ak_tenant_id k = tenant_id \<and>
               ak_workspace_id k = Some workspace_id \<and> ak_user_id k = Some user_id))"

definition grant_as :: "instant \<Rightarrow> identity_db \<Rightarrow> auth_context \<Rightarrow> uuid \<Rightarrow> uuid \<Rightarrow> workspace_role \<Rightarrow> identity_db result" where
  "grant_as now s actor workspace_id user_id role =
     rbind (require_current_workspace_admin now s actor workspace_id) (\<lambda>_.
       grant_workspace s workspace_id user_id role)"

definition revoke_as ::
  "(string \<Rightarrow> string) \<Rightarrow> instant \<Rightarrow> (uuid \<Rightarrow> string) \<Rightarrow> identity_db \<Rightarrow> auth_context \<Rightarrow> uuid \<Rightarrow> uuid \<Rightarrow> identity_db result" where
  "revoke_as hash_key now fresh s actor workspace_id user_id =
     rbind (require_current_workspace_admin now s actor workspace_id) (\<lambda>_.
       revoke_workspace hash_key now fresh s workspace_id user_id)"

definition list_as :: "instant \<Rightarrow> identity_db \<Rightarrow> auth_context \<Rightarrow> uuid \<Rightarrow> (uuid \<times> workspace_role) list result" where
  "list_as now s actor workspace_id =
     rbind (require_current_workspace_admin now s actor workspace_id) (\<lambda>_.
       Inr (map (\<lambda>m. (wm_user_id m, wm_role m)) (sort_key wm_user_id
         (select_where (\<lambda>m. wm_workspace_id m = workspace_id) (id_workspace_members s)))))"

section \<open>Creating workspaces\<close>

definition create_workspace_with_quota ::
  "uuid \<Rightarrow> instant \<Rightarrow> identity_db \<Rightarrow> uuid \<Rightarrow> string \<Rightarrow> int option \<Rightarrow> uuid option \<Rightarrow> int option \<Rightarrow>
   (workspace_row \<times> identity_db) result" where
  "create_workspace_with_quota new_id now s tenant_id name max_entities schema_id workspace_quota =
     rbind (require_active s tenant_id) (\<lambda>_.
     rbind (ok_or (find_row (\<lambda>t. tn_id t = tenant_id) (id_tenants s)) (NotFound ''tenant {} was not found'')) (\<lambda>tenant.
     rbind (case effective_limit (tn_max_workspaces tenant) workspace_quota of
              None \<Rightarrow> Inr ()
            | Some m \<Rightarrow>
                ensure (int (count_where (\<lambda>w. wk_tenant_id w = tenant_id) (db_workspaces (id_store s))) < max m 0)
                  (Conflict ''tenant {} has reached its workspace limit ({}); raise max_workspaces or delete an existing workspace'')) (\<lambda>_.
     let w = \<lparr>wk_id = new_id, wk_tenant_id = tenant_id, wk_name = name, wk_max_entities = max_entities,
              wk_status = (if schema_id \<noteq> None then WorkspaceActive else SchemaPending),
              wk_schema_id = schema_id, wk_created_at = now\<rparr>
     in if new_id \<in> wk_id ` set (db_workspaces (id_store s)) then Inl (Internal ''constraint'')
        else Inr (w, s\<lparr>id_store := (id_store s)\<lparr>db_workspaces := db_workspaces (id_store s) @ [w]\<rparr>\<rparr>))))"

section \<open>Histories\<close>

text \<open>One operation on keys, memberships or workspaces that succeeds.\<close>

inductive identity_step :: "identity_db \<Rightarrow> identity_db \<Rightarrow> bool" where
  create_named: "create_named_api_key h i now mat s w sc u au n issuer e = Inr (c, s') \<Longrightarrow> identity_step s s'"
| create_tenant: "create_tenant_api_key h i now mat s t sc u au n = Inr (kp, s') \<Longrightarrow> identity_step s s'"
| delegate_tenant: "create_delegated_tenant_api_key h i now mat s issuer sc au n e = Inr (c, s') \<Longrightarrow> identity_step s s'"
| revoke: "revoke_key h now f s k = Inr s' \<Longrightarrow> identity_step s s'"
| revoke_tenant: "revoke_for_tenant h now f s actor k = Inr s' \<Longrightarrow> identity_step s s'"
| rotate: "rotate_key h i now mat f s actor k = Inr (c, s') \<Longrightarrow> identity_step s s'"
| add: "add_member now s t u role = Inr s' \<Longrightarrow> identity_step s s'"
| update: "update_member_access now s actor u role = Inr (ks, s') \<Longrightarrow> identity_step s s'"
| transfer: "transfer_ownership now s actor u = Inr s' \<Longrightarrow> identity_step s s'"
| remove: "remove_member h now fr s t u = Inr s' \<Longrightarrow> identity_step s s'"
| remove_as: "remove_member_as h now fr s actor u = Inr s' \<Longrightarrow> identity_step s s'"
| grant: "grant_workspace s w u wrole = Inr s' \<Longrightarrow> identity_step s s'"
| ungrant: "revoke_workspace h now fr s w u = Inr s' \<Longrightarrow> identity_step s s'"
| grant_actor: "grant_as now s actor w u wrole = Inr s' \<Longrightarrow> identity_step s s'"
| ungrant_actor: "revoke_as h now fr s actor w u = Inr s' \<Longrightarrow> identity_step s s'"
| create_workspace: "create_workspace_with_quota i now s t n me sid q = Inr (r, s') \<Longrightarrow> identity_step s s'"

inductive identity_steps :: "identity_db \<Rightarrow> identity_db \<Rightarrow> bool" where
  none: "identity_steps s s"
| more_steps: "identity_steps s s' \<Longrightarrow> identity_step s' s'' \<Longrightarrow> identity_steps s s''"

text \<open>The state a removal reaches before it revokes the keys.\<close>

definition without_member :: "identity_db \<Rightarrow> uuid \<Rightarrow> uuid \<Rightarrow> workspace_membership_row list \<Rightarrow> identity_db" where
  "without_member s t u wm = s\<lparr>id_workspace_members := wm,
     id_members := delete_where (\<lambda>m. mb_tenant_id m = t \<and> mb_user_id m = u) (id_members s)\<rparr>"

lemma remove_member_Inr:
  "remove_member h now f s t u = Inr s' \<Longrightarrow>
     \<exists>y wm. protect_owner s t u None = Inr y \<and>
       revoke_matching h now f (without_member s t u wm) (\<lambda>k. ak_tenant_id k = t \<and> ak_user_id k = Some u) = Inr s'"
  unfolding remove_member_def rbind_Inr_iff Let_def without_member_def by blast

text \<open>
  A property of the identity tables that the statements the operations are made of keep: every operation,
  and so every history, keeps it.
\<close>

locale identity_invariant =
  fixes inv :: "identity_db \<Rightarrow> bool"
  assumes inv_insert_key: "inv s \<Longrightarrow> insert_key s k = Inr s' \<Longrightarrow> inv s'"
    and inv_delete_key: "inv s \<Longrightarrow> delete_for_tenant h now f s t i = Inr s' \<Longrightarrow> inv s'"
    and inv_replace_key: "inv s \<Longrightarrow> inv (s\<lparr>id_keys := update_where p (\<lambda>k. k\<lparr>ak_replaced_by_id := x\<rparr>) (id_keys s)\<rparr>)"
    and inv_add_member: "inv s \<Longrightarrow> add_member now s t u role = Inr s' \<Longrightarrow> inv s'"
    and inv_delete_member: "inv s \<Longrightarrow> protect_owner s t u None = Inr y \<Longrightarrow>
      inv (s\<lparr>id_members := delete_where (\<lambda>m. mb_tenant_id m = t \<and> mb_user_id m = u) (id_members s)\<rparr>)"
    and inv_workspace_members: "inv s \<Longrightarrow> inv (s\<lparr>id_workspace_members := wm\<rparr>)"
    and inv_store: "inv s \<Longrightarrow> inv (s\<lparr>id_store := d\<rparr>)"
begin

lemma inv_issue_key: "inv s \<Longrightarrow> issue_key now s k m = Inr (c, s') \<Longrightarrow> inv s'"
  by (auto simp: issue_key_def rbind_Inr_iff intro: inv_insert_key)

lemma inv_revoke_keys: "inv s \<Longrightarrow> revoke_keys h now f ks s = Inr s' \<Longrightarrow> inv s'"
proof (induction ks arbitrary: s)
  case (Cons k ks)
  then show ?case by (auto simp: rbind_Inr_iff intro: inv_delete_key)
qed simp

lemma inv_revoke_matching: "inv s \<Longrightarrow> revoke_matching h now f s p = Inr s' \<Longrightarrow> inv s'"
  by (auto simp: revoke_matching_def intro: inv_revoke_keys)

lemma inv_remove_member:
  assumes "inv s" and "remove_member h now f s t u = Inr s'"
  shows "inv s'"
proof -
  obtain y wm where y: "protect_owner s t u None = Inr y"
    and r: "revoke_matching h now f (without_member s t u wm) (\<lambda>k. ak_tenant_id k = t \<and> ak_user_id k = Some u) = Inr s'"
    using remove_member_Inr [OF assms(2)] by blast
  have "protect_owner (s\<lparr>id_workspace_members := wm\<rparr>) t u None = Inr y"
    using y unfolding protect_owner_def count_owners_def get_membership_role_def
    by (simp split: if_splits)
  from inv_delete_member [OF inv_workspace_members [OF assms(1)] this]
  have "inv (without_member s t u wm)" by (simp add: without_member_def)
  then show ?thesis using inv_revoke_matching r by blast
qed

lemma inv_grant_workspace: "inv s \<Longrightarrow> grant_workspace s w u r = Inr s' \<Longrightarrow> inv s'"
  by (auto simp: grant_workspace_def rbind_Inr_iff Let_def split: if_splits intro: inv_workspace_members)

lemma inv_revoke_workspace: "inv s \<Longrightarrow> revoke_workspace h now f s w u = Inr s' \<Longrightarrow> inv s'"
  using inv_workspace_members inv_revoke_matching
  by (fastforce simp: revoke_workspace_def rbind_Inr_iff Let_def split: if_splits)

lemma inv_rotate_key: "inv s \<Longrightarrow> rotate_key h i now m f s actor k = Inr (c, s') \<Longrightarrow> inv s'"
  by (erule rotate_key_Inr) (auto intro: inv_insert_key inv_delete_key inv_replace_key)

lemma inv_step: "identity_step s s' \<Longrightarrow> inv s \<Longrightarrow> inv s'"
proof (induction rule: identity_step.induct)
  case (transfer now s actor u s')
  then show ?case
    by (auto simp: transfer_ownership_def rbind_Inr_iff split: if_splits intro: inv_add_member)
next
  case (create_workspace i now s t n me sid q r s')
  then show ?case
    by (auto simp: create_workspace_with_quota_def rbind_Inr_iff Let_def split: if_splits intro: inv_store)
qed (auto simp: create_named_api_key_def create_tenant_api_key_def create_delegated_tenant_api_key_def revoke_key_def
    revoke_for_tenant_def update_member_access_def remove_member_as_def grant_as_def revoke_as_def rbind_Inr_iff
    split: if_splits intro: inv_issue_key inv_insert_key inv_delete_key inv_rotate_key inv_add_member inv_remove_member
      inv_grant_workspace inv_revoke_workspace)

lemma inv_steps: "identity_steps s s' \<Longrightarrow> inv s \<Longrightarrow> inv s'"
  by (induction rule: identity_steps.induct) (auto intro: inv_step)

end

section \<open>Revoked keys stay revoked\<close>

definition retired :: "uuid set \<Rightarrow> identity_db \<Rightarrow> bool" where
  "retired ids s \<longleftrightarrow> distinct (map ak_id (id_keys s)) \<and> ids \<subseteq> ak_id ` set (id_keys s) \<and>
     (\<forall>k \<in> set (id_keys s). ak_id k \<in> ids \<longrightarrow> ak_revoked_at k \<noteq> None)"

lemma retired_keys: "id_keys s' = id_keys s \<Longrightarrow> retired ids s \<Longrightarrow> retired ids s'"
  by (simp add: retired_def)

lemma add_member_keys: "add_member now s t u role = Inr s' \<Longrightarrow> id_keys s' = id_keys s"
  by (auto simp: add_member_def upsert_member_def rbind_Inr_iff Let_def split: if_splits)

lemma retired_update:
  assumes "retired ids s" and "\<And>k. ak_id (f k) = ak_id k" and "\<And>k. ak_revoked_at k \<noteq> None \<Longrightarrow> ak_revoked_at (f k) \<noteq> None"
  shows "retired ids (s\<lparr>id_keys := update_where p f (id_keys s)\<rparr>)"
proof -
  have ids: "map ak_id (update_where p f (id_keys s)) = map ak_id (id_keys s)"
    by (simp add: update_where_def assms(2))
  have "ak_id ` set (update_where p f (id_keys s)) = ak_id ` set (id_keys s)"
    by (metis ids list.set_map)
  then show ?thesis
    using assms ids by (auto simp: retired_def set_update_where)
qed

interpretation retirement: identity_invariant "retired ids" for ids
proof
  show "retired ids s'" if "retired ids s" "insert_key s k = Inr s'" for s k s'
    using that insert_key_Inr [OF that(2)] by (auto simp: retired_def)
  show "retired ids s'" if "retired ids s" "delete_for_tenant h now f s t i = Inr s'" for s h now f t i s'
    using delete_for_tenant_Inr [OF that(2)] retired_update [OF that(1)] by auto
qed (auto intro: retired_update retired_keys dest: add_member_keys)

interpretation revoked_key: key_preserving ak_id "\<lambda>k. k\<lparr>ak_revoked_at := Some now, ak_key_hash := x\<rparr>" for now x
  by unfold_locales simp

text \<open>Revoking a list of keys retires all of them.\<close>

lemma delete_for_tenant_retires:
  assumes "retired ids s" and "delete_for_tenant h now f s t i = Inr s'"
  shows "retired (insert i ids) s'"
proof -
  note d = delete_for_tenant_Inr [OF assms(2)]
  then obtain k where k: "k \<in> set (id_keys s)" "ak_id k = i" "ak_tenant_id k = t" by blast
  have old: "retired ids s'" by (rule retirement.inv_delete_key [OF assms])
  have "ak_revoked_at r \<noteq> None" if r: "r \<in> set (id_keys s')" "ak_id r = i" for r
  proof -
    obtain x where x: "x \<in> set (id_keys s)" "r = (if ak_id x = i \<and> ak_tenant_id x = t \<and> ak_revoked_at x = None
        then x\<lparr>ak_revoked_at := Some now, ak_key_hash := h f\<rparr> else x)"
      using r(1) d by (auto simp: set_update_where)
    then have "ak_id x = ak_id k" using r(2) k by (auto split: if_splits)
    then have "x = k" using assms(1) x(1) k(1) by (auto simp: retired_def dest: distinct_key_unique)
    then show ?thesis using x k by auto
  qed
  moreover have "i \<in> ak_id ` set (id_keys s')"
    using d k by (auto simp: revoked_key.key_image_update)
  ultimately show ?thesis using old by (auto simp: retired_def)
qed

lemma revoke_keys_retires:
  "retired ids s \<Longrightarrow> revoke_keys h now f ks s = Inr s' \<Longrightarrow> retired (ids \<union> ak_id ` set ks) s' \<and> id_members s' = id_members s"
proof (induction ks arbitrary: ids s)
  case (Cons k ks)
  then obtain s1 where d: "delete_for_tenant h now (f (ak_id k)) s (ak_tenant_id k) (ak_id k) = Inr s1"
    and r: "revoke_keys h now f ks s1 = Inr s'"
    by (auto simp: rbind_Inr_iff)
  show ?case
    using Cons.IH [OF delete_for_tenant_retires [OF Cons.prems(1) d] r] delete_for_tenant_Inr [OF d]
    by (auto simp: insert_commute)
qed simp

lemma revoke_matching_retires:
  assumes "distinct (map ak_id (id_keys s))" and "revoke_matching h now f s p = Inr s'"
  shows "retired {i. \<exists>k \<in> set (id_keys s). p k \<and> ak_id k = i} s'" and "id_members s' = id_members s"
proof -
  let ?live = "select_where (\<lambda>k. p k \<and> ak_revoked_at k = None) (id_keys s)"
  let ?gone = "{i. \<exists>k \<in> set (id_keys s). p k \<and> ak_revoked_at k \<noteq> None \<and> ak_id k = i}"
  have "retired ?gone s" using assms(1) by (auto simp: retired_def dest: distinct_key_unique)
  from revoke_keys_retires [OF this] assms(2)
  have "retired (?gone \<union> ak_id ` set ?live) s' \<and> id_members s' = id_members s"
    by (simp add: revoke_matching_def)
  moreover have "?gone \<union> ak_id ` set ?live = {i. \<exists>k \<in> set (id_keys s). p k \<and> ak_id k = i}"
    unfolding set_select_where by blast
  ultimately show "retired {i. \<exists>k \<in> set (id_keys s). p k \<and> ak_id k = i} s'" "id_members s' = id_members s" by auto
qed

lemma retired_not_authenticated:
  assumes "retired ids s" and "k \<in> set (id_keys s)" and "key_is_active now k"
  shows "ak_id k \<notin> ids"
  using assms by (auto simp: retired_def key_is_active_def)

text \<open>
  Property C18. Removing a member locks them out for good: the membership is gone, and in every later
  history, whatever is granted again, no key that existed at the removal and was attributed to the user in
  the tenant authenticates on either backend.
\<close>

theorem removed_member_locked_out:
  assumes "distinct (map ak_id (id_keys s))" and "remove_member h now f s t u = Inr s'" and "identity_steps s' s''"
  shows "get_membership_role s' t u = None \<and>
    (\<forall>hash_key now' presented requested ctx k.
       (authenticate hash_key now' s'' presented requested = Inr ctx \<or>
        authenticate_sqlite hash_key now' s'' presented requested = Inr ctx) \<and>
       k \<in> set (id_keys s) \<and> ak_tenant_id k = t \<and> ak_user_id k = Some u \<longrightarrow> au_api_key_id ctx \<noteq> ak_id k)"
proof -
  obtain wm where r: "revoke_matching h now f (without_member s t u wm)
      (\<lambda>k. ak_tenant_id k = t \<and> ak_user_id k = Some u) = Inr s'"
    using remove_member_Inr [OF assms(2)] by blast
  let ?ids = "{i. \<exists>k \<in> set (id_keys s). (ak_tenant_id k = t \<and> ak_user_id k = Some u) \<and> ak_id k = i}"
  have "distinct (map ak_id (id_keys (without_member s t u wm)))" using assms(1) by (simp add: without_member_def)
  from revoke_matching_retires [OF this r] have ret: "retired ?ids s'" and mem: "id_members s' = id_members (without_member s t u wm)"
    by (simp_all add: without_member_def)
  have late: "retired ?ids s''" by (rule retirement.inv_steps [OF assms(3) ret])
  have key: "au_api_key_id ctx \<noteq> ak_id k"
    if login: "authenticate hash_key now' s'' presented requested = Inr ctx \<or>
        authenticate_sqlite hash_key now' s'' presented requested = Inr ctx"
      and k: "k \<in> set (id_keys s) \<and> ak_tenant_id k = t \<and> ak_user_id k = Some u" for hash_key now' presented requested ctx k
  proof -
    obtain k' where k': "k' \<in> set (id_keys s'')" "key_is_active now' k'" "ak_id k' = au_api_key_id ctx"
      using authenticated_active [OF login] by blast
    have "ak_id k \<in> ?ids" using k by blast
    then show ?thesis using retired_not_authenticated [OF late k'(1,2)] k'(3) by metis
  qed
  have "get_membership_role s' t u = None"
    by (auto simp: get_membership_role_def mem without_member_def find_row_None set_delete_where)
  then show ?thesis using key by (intro conjI allI impI) (simp, elim conjE, rule key, simp_all)
qed

theorem removed_member_locked_out_witness:
  "\<exists>s'. remove_member id 5 (\<lambda>_. ''new'') acme 9 22 = Inr s' \<and> get_membership_role s' 9 22 = None \<and>
     (\<forall>requested ctx. authenticate id 6 s' ''member'' requested = Inr ctx \<longrightarrow> au_api_key_id ctx \<noteq> 62)"
proof -
  have "\<exists>s'. remove_member id 5 (\<lambda>_. ''new'') acme 9 22 = Inr s'"
    by (simp add: remove_member_def protect_owner_def get_membership_role_def find_row_def acme_defs Let_def
        revoke_matching_def select_where_def delete_where_def delete_for_tenant_def)
  then obtain s' where r: "remove_member id 5 (\<lambda>_. ''new'') acme 9 22 = Inr s'" by blast
  have d: "distinct (map ak_id (id_keys acme))" by (simp add: acme_defs)
  have k: "acme_key 62 (Some 3) (Some 22) ''member'' ScopeMigration \<in> set (id_keys acme)" by (simp add: acme_def)
  from removed_member_locked_out [OF d r identity_steps.none]
  have "get_membership_role s' 9 22 = None" "\<And>requested ctx. authenticate id 6 s' ''member'' requested = Inr ctx \<Longrightarrow>
      au_api_key_id ctx \<noteq> ak_id (acme_key 62 (Some 3) (Some 22) ''member'' ScopeMigration)"
    using k by (blast, metis (no_types, lifting) acme_key_def api_key_row.select_convs(2,4))
  then show ?thesis using r by (auto simp: acme_key_def)
qed

section \<open>A tenant keeps an owner\<close>

definition owned :: "uuid \<Rightarrow> identity_db \<Rightarrow> bool" where
  "owned t s \<longleftrightarrow> distinct (map (\<lambda>m. (mb_tenant_id m, mb_user_id m)) (id_members s)) \<and> 0 < count_owners s t"

lemma owned_members: "id_members s' = id_members s \<Longrightarrow> owned t s \<Longrightarrow> owned t s'"
  by (simp add: owned_def count_owners_def)

text \<open>A change confined to one membership that the guard admitted leaves another owner.\<close>

lemma other_owner:
  assumes "owned t s" and "protect_owner s t' u role = Inr x" and "role \<noteq> Some RoleOwner"
  shows "\<exists>m \<in> set (id_members s). mb_tenant_id m = t \<and> mb_role m = RoleOwner \<and> \<not> (mb_tenant_id m = t' \<and> mb_user_id m = u)"
proof (rule ccontr)
  assume none: "\<not> ?thesis"
  let ?own = "\<lambda>m. mb_tenant_id m = t \<and> mb_role m = RoleOwner"
  obtain m where m: "m \<in> set (id_members s)" "?own m" "mb_tenant_id m = t'" "mb_user_id m = u"
    using assms(1) none by (auto simp: owned_def count_owners_def count_where_pos)
  have d: "distinct (map (\<lambda>m. (mb_tenant_id m, mb_user_id m)) (id_members s))" using assms(1) by (simp add: owned_def)
  have "find_row (\<lambda>r. (mb_tenant_id r, mb_user_id r) = (mb_tenant_id m, mb_user_id m)) (id_members s) = Some m"
    by (rule distinct_key_find [OF d m(1)])
  then have "get_membership_role s t' u = Some RoleOwner" using m by (simp add: get_membership_role_def)
  then have many: "1 < count_owners s t'" using assms(2,3) by (auto simp: protect_owner_def split: if_splits)
  have "length (filter ?own (id_members s)) \<le> 1"
    using none by (intro distinct_key_const [where k = "(t', u)" and key = "\<lambda>m. (mb_tenant_id m, mb_user_id m)"])
      (auto simp: distinct_map_filter [OF d])
  then show False using many m by (simp add: count_owners_def count_where_def)
qed

lemma owned_add_member:
  assumes "owned t s" and "add_member now s t' u role = Inr s'"
  shows "owned t s'"
proof -
  let ?same = "\<lambda>m. mb_tenant_id m = t' \<and> mb_user_id m = u"
  obtain x where x: "protect_owner s t' u (Some role) = Inr x" and up: "upsert_member now s t' u role = Inr s'"
    using assms(2) by (auto simp: add_member_def rbind_Inr_iff)
  show ?thesis
  proof (cases "\<exists>m \<in> set (id_members s). ?same m")
    case True
    have s': "id_members s' = update_where ?same (\<lambda>m. m\<lparr>mb_role := role\<rparr>) (id_members s)"
      using up True by (auto simp: upsert_member_def Let_def count_where_pos split: if_splits)
    have keys: "map (\<lambda>m. (mb_tenant_id m, mb_user_id m)) (id_members s') = map (\<lambda>m. (mb_tenant_id m, mb_user_id m)) (id_members s)"
      unfolding s' update_where_def by simp
    have "\<exists>m \<in> set (id_members s). mb_tenant_id m = t \<and> (if ?same m then role = RoleOwner else mb_role m = RoleOwner)"
    proof (cases "role = RoleOwner")
      case True
      then show ?thesis using assms(1) by (auto simp: owned_def count_owners_def count_where_pos)
    next
      case False
      then show ?thesis using other_owner [OF assms(1) x] by auto
    qed
    then obtain m where m: "m \<in> set (id_members s)" "mb_tenant_id m = t" "if ?same m then role = RoleOwner else mb_role m = RoleOwner"
      by blast
    then have "(if ?same m then m\<lparr>mb_role := role\<rparr> else m) \<in> set (id_members s')"
      unfolding s' set_update_where by blast
    then have "0 < count_owners s' t"
      unfolding count_owners_def count_where_pos using m by (intro bexI) (auto split: if_splits)
    then show ?thesis using assms(1) keys by (simp add: owned_def)
  next
    case False
    then have "id_members s' = id_members s @ [\<lparr>mb_tenant_id = t', mb_user_id = u, mb_role = role, mb_created_at = now\<rparr>]"
      using up by (auto simp: upsert_member_def Let_def count_where_pos split: if_splits)
    then show ?thesis using assms(1) False by (auto simp: owned_def count_owners_def count_where_append)
  qed
qed

lemma owned_delete_member:
  assumes "owned t s" and "protect_owner s t' u None = Inr x"
  shows "owned t (s\<lparr>id_members := delete_where (\<lambda>m. mb_tenant_id m = t' \<and> mb_user_id m = u) (id_members s)\<rparr>)"
proof -
  have "\<exists>m \<in> set (id_members s). mb_tenant_id m = t \<and> mb_role m = RoleOwner \<and> \<not> (mb_tenant_id m = t' \<and> mb_user_id m = u)"
    by (rule other_owner [OF assms]) simp
  then show ?thesis using assms(1) by (auto simp: owned_def count_owners_def count_where_pos set_delete_where distinct_key_delete)
qed

interpretation ownership: identity_invariant "owned t" for t
proof
  show "owned t s'" if "owned t s" "insert_key s k = Inr s'" for s k s'
    using owned_members [OF _ that(1)] insert_key_Inr [OF that(2)] by simp
  show "owned t s'" if "owned t s" "delete_for_tenant h now f s t' i = Inr s'" for s h now f t' i s'
    using owned_members [OF _ that(1)] delete_for_tenant_Inr [OF that(2)] by simp
qed (auto intro: owned_members owned_add_member owned_delete_member)

text \<open>
  Property C17. A tenant never loses its last owner: from any state with an owner, every history of
  operations on keys, memberships, ownership and workspaces ends in a state with an owner.
\<close>

theorem last_owner_kept:
  assumes "distinct (map (\<lambda>m. (mb_tenant_id m, mb_user_id m)) (id_members s))"
    and "identity_steps s s'" and "0 < count_owners s t"
  shows "0 < count_owners s' t"
  using ownership.inv_steps [OF assms(2), of t] assms(1,3) by (simp add: owned_def)

theorem last_owner_kept_witness:
  "\<exists>s'. remove_member id 5 (\<lambda>_. ''new'') acme 9 22 = Inr s' \<and> identity_steps acme s' \<and> 0 < count_owners s' 9"
proof -
  have "\<exists>s'. remove_member id 5 (\<lambda>_. ''new'') acme 9 22 = Inr s'"
    by (simp add: remove_member_def protect_owner_def get_membership_role_def find_row_def acme_defs Let_def
        revoke_matching_def select_where_def delete_where_def delete_for_tenant_def)
  then obtain s' where r: "remove_member id 5 (\<lambda>_. ''new'') acme 9 22 = Inr s'" by blast
  then have steps: "identity_steps acme s'" by (blast intro: identity_steps.intros identity_step.remove)
  have "0 < count_owners s' 9"
    by (rule last_owner_kept [OF _ steps]) (simp_all add: acme_defs count_owners_def)
  then show ?thesis using r steps by blast
qed

section \<open>Rotation hands over the attributed identity\<close>

text \<open>
  The identities of the sample tenant after its administrator has rotated the owner's key, and the context
  that the new secret gives.
\<close>

definition acme_rotated :: identity_db where
  "acme_rotated = acme\<lparr>id_keys :=
     [(acme_key 60 None (Some 20) ''x'' ScopeMigration)\<lparr>ak_revoked_at := Some 5, ak_replaced_by_id := Some 70\<rparr>,
      acme_key 61 None (Some 21) ''admin'' ScopeMigration, acme_key 62 (Some 3) (Some 22) ''member'' ScopeMigration,
      (acme_key 70 None (Some 20) ''leak'' ScopeMigration)\<lparr>ak_created_at := 5\<rparr>]\<rparr>"

definition acme_owner :: auth_context where
  "acme_owner = \<lparr>au_api_key_id = 70, au_workspace_id = 3, au_tenant_id = 9, au_scope = ScopeMigration,
     au_user_id = Some 20, au_audit = False\<rparr>"

lemmas access_evals = current_context_def find_key_def find_row_def key_is_active_def with_current_membership_def
  context_of_def require_active_def get_membership_role_def workspace_access_def workspace_access_for_role_def
  get_workspace_tenant_def administers_tenant_def require_current_tenant_admin_def require_tenant_admin_def
  require_current_tenant_owner_def

lemma acme_admin_rotates:
  "\<exists>c. rotate_key id 70 5 (''yk'', ''leak'') ''x'' acme acme_admin 60 = Inr (c, acme_rotated) \<and> ck_plaintext c = ''leak''"
  using acme_admin_context
  by (simp add: rotate_key_def require_current_tenant_admin_def require_tenant_admin_def require_key_grant_def
      require_scope_def satisfies_def require_attributed_key_grant_def effective_scope_def expiry_within_def
      insert_key_def new_key_def delete_for_tenant_def update_where_def grant_metadata_def grant_scope_def Let_def
      find_key_def find_row_def key_is_active_def require_active_def get_membership_role_def administers_tenant_def
      min_def scope_order acme_rotated_def acme_defs acme_admin_def)

lemma acme_leak_authenticates: "authenticate id 5 acme_rotated ''leak'' (Some 3) = Inr acme_owner"
  by (simp add: authenticate_def authenticated_def authenticate_api_key_def select_where_def resolve_key_workspace_def
      access_evals acme_rotated_def acme_defs acme_owner_def)

text \<open>
  A tenant administrator can become the owner by rotating the owner's key. Only an owner may
  grant the owner role, and the administrator's own credential is refused it. Rotation checks the scope,
  audit grant, binding and lifetime of the replaced key against the issuer, but not whose key it is: the
  replacement keeps the owner as its user and its secret goes to the administrator, who then authenticates
  as the owner and grants the owner role to themselves.
\<close>

theorem rotation_escalates:
  "update_member_access 5 acme acme_admin 21 RoleOwner = Inl (ScopeInsufficient ''this operation requires a tenant owner'') \<and>
   (\<exists>c s ctx keys s'. rotate_key id 70 5 (''yk'', ''leak'') ''x'' acme acme_admin 60 = Inr (c, s) \<and>
      authenticate id 5 s (ck_plaintext c) (Some 3) = Inr ctx \<and>
      update_member_access 5 s ctx 21 RoleOwner = Inr (keys, s') \<and> get_membership_role s' 9 21 = Some RoleOwner)"
proof
  show "update_member_access 5 acme acme_admin 21 RoleOwner = Inl (ScopeInsufficient ''this operation requires a tenant owner'')"
    using acme_admin_context
    by (simp add: update_member_access_def require_current_tenant_admin_def require_tenant_admin_def
        require_current_tenant_owner_def get_membership_role_def administers_tenant_def find_row_def acme_defs acme_admin_def)
  have "\<exists>keys s'. update_member_access 5 acme_rotated acme_owner 21 RoleOwner = Inr (keys, s') \<and>
      get_membership_role s' 9 21 = Some RoleOwner"
    by (simp add: update_member_access_def access_evals add_member_def protect_owner_def upsert_member_def Let_def
        update_where_def acme_rotated_def acme_defs acme_owner_def)
  then show "\<exists>c s ctx keys s'. rotate_key id 70 5 (''yk'', ''leak'') ''x'' acme acme_admin 60 = Inr (c, s) \<and>
      authenticate id 5 s (ck_plaintext c) (Some 3) = Inr ctx \<and>
      update_member_access 5 s ctx 21 RoleOwner = Inr (keys, s') \<and> get_membership_role s' 9 21 = Some RoleOwner"
    using acme_admin_rotates acme_leak_authenticates by metis
qed

end
