(* ===== verification/Templates.thy ===== *)
theory Templates
  imports Memberships
begin

text \<open>
  \<open>src/models/template_templates.rs\<close>, \<open>ee/models/marketplace.rs\<close> with \<open>marketplace/write.rs\<close>, and the
  seeding of \<open>ee/models/template_templates.rs\<close>: the library of schema templates, their published versions
  and reviews.

  A stored definition is JSON.  Serialization and parsing are serde's derived code, the parameters
  \<open>to_value\<close> and \<open>from_value\<close>; what is assumed of them is stated where it is used.  Tags and the visibility
  and status columns, which only this code writes, are typed.  The lemmas show that a draft never leaves
  its tenant, that published versions are numbered without gaps, that seeding is idempotent, and that a
  published definition that does not parse breaks the listing of every tenant.
\<close>

section \<open>State\<close>

datatype template_visibility = VisTenant | VisCommunity

datatype template_version_status = VerDraft | VerPre | VerStable

record template_row =
  tp_id :: uuid
  tp_tenant_id :: uuid
  tp_name :: string
  tp_description :: "string option"
  tp_definition :: json
  tp_tags :: "string list"
  tp_locale :: "string option"
  tp_visibility :: template_visibility
  tp_author :: "string option"
  tp_fork_of :: "uuid option"
  tp_created_by :: "uuid option"
  tp_created_at :: instant
  tp_updated_at :: instant

record template_version_row =
  tv_id :: uuid
  tv_template_id :: uuid
  tv_version :: int
  tv_definition :: json
  tv_changelog :: "string option"
  tv_status :: template_version_status
  tv_created_by :: "uuid option"
  tv_created_at :: instant

record template_review_row =
  rv_id :: uuid
  rv_template_id :: uuid
  rv_tenant_id :: uuid
  rv_rating :: int
  rv_comment :: "string option"
  rv_created_by :: "uuid option"
  rv_created_at :: instant
  rv_updated_at :: instant

record library_db =
  lb_identity :: identity_db
  lb_templates :: "template_row list"
  lb_versions :: "template_version_row list"
  lb_reviews :: "template_review_row list"

type_synonym template_record = "template_row \<times> metaschema_definition"

section \<open>The library\<close>

definition parse_visibility :: "string \<Rightarrow> template_visibility result" where
  "parse_visibility value =
     (if value = ''tenant'' then Inr VisTenant else if value = ''community'' then Inr VisCommunity
      else Inl (ValidationFailed ''unknown visibility {}'' []))"

definition template_record_of :: "(json \<Rightarrow> metaschema_definition option) \<Rightarrow> template_row \<Rightarrow> template_record result" where
  "template_record_of from_value row =
     rbind (ok_or (from_value (tp_definition row)) (Internal ''definition'')) (\<lambda>d. Inr (row, d))"

definition visible_to :: "uuid \<Rightarrow> template_row \<Rightarrow> bool" where
  "visible_to tenant_id row \<longleftrightarrow> tp_tenant_id row = tenant_id \<or> tp_visibility row = VisCommunity"

primrec collect_results :: "'a result list \<Rightarrow> 'a list result" where
  "collect_results [] = Inr []"
| "collect_results (r # rs) = rbind r (\<lambda>x. rbind (collect_results rs) (\<lambda>xs. Inr (x # xs)))"

definition list_templates ::
  "(json \<Rightarrow> metaschema_definition option) \<Rightarrow> library_db \<Rightarrow> uuid \<Rightarrow> list_params \<Rightarrow> template_record list result" where
  "list_templates from_value s tenant_id page =
     collect_results (map (template_record_of from_value)
       (page_of page (sort_key tp_created_at (select_where (visible_to tenant_id) (lb_templates s)))))"

definition get_template ::
  "(json \<Rightarrow> metaschema_definition option) \<Rightarrow> library_db \<Rightarrow> uuid \<Rightarrow> uuid \<Rightarrow> template_record result" where
  "get_template from_value s tenant_id template_id =
     rbind (ok_or (find_row (\<lambda>t. tp_id t = template_id \<and> visible_to tenant_id t) (lb_templates s))
              (NotFound ''template {} was not found'')) (template_record_of from_value)"

text \<open>The insert: a unique violation is told apart from the other constraints.\<close>

definition template_taken :: "library_db \<Rightarrow> template_row \<Rightarrow> bool" where
  "template_taken s row \<longleftrightarrow>
     (\<exists>t \<in> set (lb_templates s). tp_id t = tp_id row \<or> (tp_tenant_id t = tp_tenant_id row \<and> tp_name t = tp_name row))"

definition template_refs_ok :: "library_db \<Rightarrow> template_row \<Rightarrow> bool" where
  "template_refs_ok s row \<longleftrightarrow>
     tp_tenant_id row \<in> tn_id ` set (id_tenants (lb_identity s)) \<and>
     (case tp_fork_of row of None \<Rightarrow> True | Some f \<Rightarrow> f \<in> tp_id ` set (lb_templates s)) \<and>
     (case tp_created_by row of None \<Rightarrow> True | Some u \<Rightarrow> u \<in> us_id ` set (id_users (lb_identity s)))"

definition insert_template :: "yorishiro_error \<Rightarrow> library_db \<Rightarrow> template_row \<Rightarrow> library_db result" where
  "insert_template taken s row =
     (if template_taken s row then Inl taken
      else if \<not> template_refs_ok s row then Inl (Internal ''constraint'')
      else Inr (s\<lparr>lb_templates := lb_templates s @ [row]\<rparr>))"

record create_template_input =
  ct_name :: string
  ct_description :: "string option"
  ct_definition :: metaschema_definition
  ct_tags :: "string list"
  ct_locale :: "string option"
  ct_author :: "string option"

record update_template_input =
  ut_name :: "string option"
  ut_description :: "string option"
  ut_definition :: "metaschema_definition option"
  ut_tags :: "string list option"
  ut_locale :: "string option"

definition create_template ::
  "(string \<Rightarrow> bool) \<Rightarrow> (metaschema_definition \<Rightarrow> json) \<Rightarrow> (json \<Rightarrow> metaschema_definition option) \<Rightarrow> uuid \<Rightarrow> instant \<Rightarrow>
   library_db \<Rightarrow> uuid \<Rightarrow> uuid option \<Rightarrow> create_template_input \<Rightarrow> (template_record \<times> library_db) result" where
  "create_template pattern_ok to_value from_value new_id now s tenant_id created_by input =
     rbind (validate_definition pattern_ok (ct_definition input)) (\<lambda>_.
     let row = \<lparr>tp_id = new_id, tp_tenant_id = tenant_id, tp_name = ct_name input,
                tp_description = ct_description input, tp_definition = to_value (ct_definition input),
                tp_tags = ct_tags input, tp_locale = ct_locale input, tp_visibility = VisTenant,
                tp_author = ct_author input, tp_fork_of = None, tp_created_by = created_by,
                tp_created_at = now, tp_updated_at = now\<rparr> in
     rbind (insert_template (Conflict ''a template named {} already exists for this tenant'') s row) (\<lambda>s'.
     rbind (template_record_of from_value row) (\<lambda>r. Inr (r, s'))))"

definition updated_template :: "(metaschema_definition \<Rightarrow> json) \<Rightarrow> instant \<Rightarrow> update_template_input \<Rightarrow> template_row \<Rightarrow> template_row" where
  "updated_template to_value now input t =
     t\<lparr>tp_name := (case ut_name input of None \<Rightarrow> tp_name t | Some n \<Rightarrow> n),
       tp_description := (case ut_description input of None \<Rightarrow> tp_description t | Some d \<Rightarrow> Some d),
       tp_definition := (case ut_definition input of None \<Rightarrow> tp_definition t | Some d \<Rightarrow> to_value d),
       tp_tags := (case ut_tags input of None \<Rightarrow> tp_tags t | Some ts \<Rightarrow> ts),
       tp_locale := (case ut_locale input of None \<Rightarrow> tp_locale t | Some l \<Rightarrow> Some l),
       tp_updated_at := now\<rparr>"

definition update_template ::
  "(string \<Rightarrow> bool) \<Rightarrow> (metaschema_definition \<Rightarrow> json) \<Rightarrow> (json \<Rightarrow> metaschema_definition option) \<Rightarrow> instant \<Rightarrow>
   library_db \<Rightarrow> uuid \<Rightarrow> uuid \<Rightarrow> update_template_input \<Rightarrow> (template_record \<times> library_db) result" where
  "update_template pattern_ok to_value from_value now s tenant_id template_id input =
     rbind (case ut_definition input of None \<Rightarrow> Inr () | Some d \<Rightarrow> validate_definition pattern_ok d) (\<lambda>_.
     if ut_name input = None \<and> ut_description input = None \<and> ut_definition input = None \<and>
        ut_tags input = None \<and> ut_locale input = None
     then rbind (get_template from_value s tenant_id template_id) (\<lambda>r. Inr (r, s))
     else
     rbind (ok_or (find_row (\<lambda>t. tp_id t = template_id \<and> tp_tenant_id t = tenant_id) (lb_templates s))
              (NotFound ''template {} was not found'')) (\<lambda>existing.
     let row = updated_template to_value now input existing in
     if \<exists>t \<in> set (lb_templates s). tp_id t \<noteq> template_id \<and> tp_tenant_id t = tenant_id \<and> tp_name t = tp_name row
     then Inl (Internal ''unique'')
     else
     rbind (template_record_of from_value row) (\<lambda>record.
     let s1 = s\<lparr>lb_templates := update_where (\<lambda>t. tp_id t = template_id) (\<lambda>_. row) (lb_templates s)\<rparr>;
         identity = lb_identity s1
     in Inr (record,
          if ut_definition input = None then s1
          else s1\<lparr>lb_identity := identity\<lparr>id_store := snd (notify_upstream_change (id_store identity) template_id)\<rparr>\<rparr>))))"

text \<open>
  Deleting fires the trigger that detaches the linked copies, then the foreign keys: the copies and the
  forks lose the reference, the versions and reviews go.
\<close>

definition detach_origins :: "instant \<Rightarrow> uuid \<Rightarrow> db \<Rightarrow> db" where
  "detach_origins now template_id d =
     d\<lparr>db_schemas := update_where (\<lambda>r. sc_origin_template_id r = Some template_id) (\<lambda>r. r\<lparr>sc_origin_template_id := None\<rparr>)
        (update_where (\<lambda>r. sc_origin_template_id r = Some template_id \<and> sc_origin_status r = Linked)
           (\<lambda>r. r\<lparr>sc_origin_status := Detached, sc_updated_at := Some now\<rparr>) (db_schemas d))\<rparr>"

definition delete_template :: "instant \<Rightarrow> library_db \<Rightarrow> uuid \<Rightarrow> uuid \<Rightarrow> library_db result" where
  "delete_template now s tenant_id template_id =
     (let sel = (\<lambda>t. tp_id t = template_id \<and> tp_tenant_id t = tenant_id); identity = lb_identity s in
      if count_where sel (lb_templates s) = 0 then Inl (NotFound ''template {} was not found'')
      else Inr (s\<lparr>lb_identity := identity\<lparr>id_store := detach_origins now template_id (id_store identity)\<rparr>,
          lb_templates := update_where (\<lambda>t. tp_fork_of t = Some template_id) (\<lambda>t. t\<lparr>tp_fork_of := None\<rparr>)
            (delete_where sel (lb_templates s)),
          lb_versions := delete_where (\<lambda>v. tv_template_id v = template_id) (lb_versions s),
          lb_reviews := delete_where (\<lambda>r. rv_template_id r = template_id) (lb_reviews s)\<rparr>))"

definition fork_template ::
  "(metaschema_definition \<Rightarrow> json) \<Rightarrow> (json \<Rightarrow> metaschema_definition option) \<Rightarrow> uuid \<Rightarrow> instant \<Rightarrow> library_db \<Rightarrow> uuid \<Rightarrow>
   uuid option \<Rightarrow> uuid \<Rightarrow> string \<Rightarrow> (template_record \<times> library_db) result" where
  "fork_template to_value from_value new_id now s tenant_id created_by source_template_id new_name =
     rbind (get_template from_value s tenant_id source_template_id) (\<lambda>(source, definition).
     let row = source\<lparr>tp_id := new_id, tp_tenant_id := tenant_id, tp_name := new_name,
                 tp_definition := to_value definition, tp_visibility := VisTenant, tp_fork_of := Some (tp_id source),
                 tp_created_by := created_by, tp_created_at := now, tp_updated_at := now\<rparr> in
     rbind (insert_template (Conflict ''a template named {} already exists for this tenant'') s row) (\<lambda>s'.
     rbind (template_record_of from_value row) (\<lambda>r. Inr (r, s'))))"

definition create_template_as ::
  "(string \<Rightarrow> bool) \<Rightarrow> (metaschema_definition \<Rightarrow> json) \<Rightarrow> (json \<Rightarrow> metaschema_definition option) \<Rightarrow> uuid \<Rightarrow> instant \<Rightarrow>
   library_db \<Rightarrow> auth_context \<Rightarrow> create_template_input \<Rightarrow> (template_record \<times> library_db) result" where
  "create_template_as pattern_ok to_value from_value new_id now s actor input =
     rbind (require_current_tenant_admin now (lb_identity s) actor) (\<lambda>_.
     create_template pattern_ok to_value from_value new_id now s (au_tenant_id actor) (au_user_id actor) input)"

definition update_template_as ::
  "(string \<Rightarrow> bool) \<Rightarrow> (metaschema_definition \<Rightarrow> json) \<Rightarrow> (json \<Rightarrow> metaschema_definition option) \<Rightarrow> instant \<Rightarrow>
   library_db \<Rightarrow> auth_context \<Rightarrow> uuid \<Rightarrow> update_template_input \<Rightarrow> (template_record \<times> library_db) result" where
  "update_template_as pattern_ok to_value from_value now s actor template_id input =
     rbind (require_current_tenant_admin now (lb_identity s) actor) (\<lambda>_.
     update_template pattern_ok to_value from_value now s (au_tenant_id actor) template_id input)"

definition delete_template_as :: "instant \<Rightarrow> library_db \<Rightarrow> auth_context \<Rightarrow> uuid \<Rightarrow> library_db result" where
  "delete_template_as now s actor template_id =
     rbind (require_current_tenant_admin now (lb_identity s) actor) (\<lambda>_.
     delete_template now s (au_tenant_id actor) template_id)"

definition fork_template_as ::
  "(metaschema_definition \<Rightarrow> json) \<Rightarrow> (json \<Rightarrow> metaschema_definition option) \<Rightarrow> uuid \<Rightarrow> instant \<Rightarrow> library_db \<Rightarrow>
   auth_context \<Rightarrow> uuid \<Rightarrow> string \<Rightarrow> (template_record \<times> library_db) result" where
  "fork_template_as to_value from_value new_id now s actor source_template_id name =
     rbind (require_current_tenant_admin now (lb_identity s) actor) (\<lambda>_.
     fork_template to_value from_value new_id now s (au_tenant_id actor) (au_user_id actor) source_template_id name)"

section \<open>The marketplace\<close>

definition require_postgres :: "backend \<Rightarrow> unit result" where
  "require_postgres b = ensure (b = Postgres) (BackendUnsupported ''{} requires PostgreSQL'')"

definition parse_publish :: "string \<Rightarrow> template_version_status result" where
  "parse_publish value =
     (if value = ''draft'' then Inr VerDraft else if value = ''pre'' then Inr VerPre
      else if value = ''stable'' then Inr VerStable
      else Inl (ValidationFailed ''unknown publish status {}'' []))"

record publish_version_request =
  pv_definition :: json
  pv_changelog :: "string option"
  pv_status :: template_version_status

record marketplace_listing =
  ml_template_id :: uuid
  ml_name :: string
  ml_description :: "string option"
  ml_tags :: "string list"
  ml_author :: "string option"
  ml_tenant_id :: uuid
  ml_latest_stable_version :: "int option"
  ml_review_count :: nat
  ml_average_rating :: "rat option"

definition versions_of :: "library_db \<Rightarrow> uuid \<Rightarrow> template_version_row list" where
  "versions_of s template_id = select_where (\<lambda>v. tv_template_id v = template_id) (lb_versions s)"

definition listing_of :: "library_db \<Rightarrow> template_row \<Rightarrow> marketplace_listing" where
  "listing_of s t =
     (let reviews = select_where (\<lambda>r. rv_template_id r = tp_id t) (lb_reviews s) in
      \<lparr>ml_template_id = tp_id t, ml_name = tp_name t, ml_description = tp_description t, ml_tags = tp_tags t,
       ml_author = tp_author t, ml_tenant_id = tp_tenant_id t,
       ml_latest_stable_version = map_option tv_version
         (latest_by tv_version (select_where (\<lambda>v. tv_status v = VerStable) (versions_of s (tp_id t)))),
       ml_review_count = length reviews,
       ml_average_rating = (if reviews = [] then None
         else Some (of_int (sum_list (map rv_rating reviews)) / of_nat (length reviews)))\<rparr>)"

definition list_marketplace :: "backend \<Rightarrow> library_db \<Rightarrow> list_params \<Rightarrow> marketplace_listing list result" where
  "list_marketplace b s page =
     rbind (require_postgres b) (\<lambda>_.
     Inr (map (listing_of s) (page_of page (sort_key tp_name (sort_key tp_id (select_where
       (\<lambda>t. tp_visibility t = VisCommunity \<and> (\<exists>v \<in> set (versions_of s (tp_id t)). tv_status v \<in> {VerPre, VerStable}))
       (lb_templates s)))))))"

definition list_versions :: "library_db \<Rightarrow> uuid \<Rightarrow> uuid \<Rightarrow> list_params \<Rightarrow> template_version_row list" where
  "list_versions s tenant_id template_id page =
     page_of page (sort_key (\<lambda>v. - tv_version v) (select_where (\<lambda>v.
       \<exists>t \<in> set (lb_templates s). tp_id t = tv_template_id v \<and> visible_to tenant_id t \<and>
         (tv_status v \<noteq> VerDraft \<or> tp_tenant_id t = tenant_id)) (versions_of s template_id)))"

definition insert_next_version ::
  "backend \<Rightarrow> uuid \<Rightarrow> instant \<Rightarrow> library_db \<Rightarrow> uuid \<Rightarrow> publish_version_request \<Rightarrow> uuid option \<Rightarrow>
   (template_version_row \<times> library_db) result" where
  "insert_next_version b new_id now s template_id request user_id =
     rbind (require_postgres b) (\<lambda>_.
     let next_version = (case latest_by tv_version (versions_of s template_id) of None \<Rightarrow> 0 | Some v \<Rightarrow> tv_version v) + 1;
         row = \<lparr>tv_id = new_id, tv_template_id = template_id, tv_version = next_version,
                tv_definition = pv_definition request, tv_changelog = pv_changelog request,
                tv_status = pv_status request, tv_created_by = user_id, tv_created_at = now\<rparr>
     in if next_version > 2147483647 \<or> new_id \<in> tv_id ` set (lb_versions s) \<or>
           template_id \<notin> tp_id ` set (lb_templates s) \<or>
           (case user_id of None \<Rightarrow> False | Some u \<Rightarrow> u \<notin> us_id ` set (id_users (lb_identity s)))
        then Inl (Internal ''insert'')
        else Inr (row, s\<lparr>lb_versions := lb_versions s @ [row]\<rparr>))"

definition list_reviews :: "library_db \<Rightarrow> uuid \<Rightarrow> uuid \<Rightarrow> list_params \<Rightarrow> template_review_row list" where
  "list_reviews s tenant_id template_id page =
     page_of page (sort_key (\<lambda>r. - rv_created_at r) (select_where (\<lambda>r. rv_template_id r = template_id \<and>
       (\<exists>t \<in> set (lb_templates s). tp_id t = rv_template_id r \<and> visible_to tenant_id t)) (lb_reviews s)))"

definition is_visible :: "library_db \<Rightarrow> uuid \<Rightarrow> uuid \<Rightarrow> bool" where
  "is_visible s tenant_id template_id \<longleftrightarrow>
     (\<exists>t \<in> set (lb_templates s). tp_id t = template_id \<and> visible_to tenant_id t)"

definition upsert_review ::
  "uuid \<Rightarrow> instant \<Rightarrow> library_db \<Rightarrow> uuid \<Rightarrow> uuid \<Rightarrow> uuid option \<Rightarrow> int \<Rightarrow> string option \<Rightarrow> library_db result" where
  "upsert_review new_id now s tenant_id template_id user_id rating comment =
     (let same = (\<lambda>r. rv_template_id r = template_id \<and> rv_tenant_id r = tenant_id) in
      if \<not> (1 \<le> rating \<and> rating \<le> 5) \<or> template_id \<notin> tp_id ` set (lb_templates s) \<or>
         tenant_id \<notin> tn_id ` set (id_tenants (lb_identity s)) then Inl (Internal ''constraint'')
      else if count_where same (lb_reviews s) > 0
      then Inr (s\<lparr>lb_reviews := update_where same
                   (\<lambda>r. r\<lparr>rv_rating := rating, rv_comment := comment, rv_updated_at := now\<rparr>) (lb_reviews s)\<rparr>)
      else Inr (s\<lparr>lb_reviews := lb_reviews s @ [\<lparr>rv_id = new_id, rv_template_id = template_id, rv_tenant_id = tenant_id,
             rv_rating = rating, rv_comment = comment, rv_created_by = user_id, rv_created_at = now, rv_updated_at = now\<rparr>]\<rparr>))"

definition find_forkable_definition :: "library_db \<Rightarrow> uuid \<Rightarrow> int option \<Rightarrow> json option" where
  "find_forkable_definition s template_id version =
     (case (case version of
              Some n \<Rightarrow> find_row (\<lambda>v. tv_version v = n) (versions_of s template_id)
            | None \<Rightarrow> latest_by tv_version (select_where (\<lambda>v. tv_status v = VerStable) (versions_of s template_id))) of
        None \<Rightarrow> None
      | Some v \<Rightarrow> if version = None \<or> tv_status v \<noteq> VerDraft then Some (tv_definition v) else None)"

record fork_source =
  fs_name :: string
  fs_description :: "string option"
  fs_tags :: "string list"
  fs_author :: "string option"

definition find_fork_source :: "library_db \<Rightarrow> uuid \<Rightarrow> uuid \<Rightarrow> fork_source option" where
  "find_fork_source s tenant_id template_id =
     map_option (\<lambda>t. \<lparr>fs_name = tp_name t, fs_description = tp_description t, fs_tags = tp_tags t, fs_author = tp_author t\<rparr>)
       (find_row (\<lambda>t. tp_id t = template_id \<and> visible_to tenant_id t) (lb_templates s))"

datatype insert_fork_outcome = ForkCreated uuid | NameTaken

definition insert_fork ::
  "uuid \<Rightarrow> instant \<Rightarrow> library_db \<Rightarrow> uuid \<Rightarrow> fork_source \<Rightarrow> json \<Rightarrow> uuid \<Rightarrow> uuid option \<Rightarrow>
   (insert_fork_outcome \<times> library_db) result" where
  "insert_fork new_id now s tenant_id source definition fork_of user_id =
     (let row = \<lparr>tp_id = new_id, tp_tenant_id = tenant_id, tp_name = fs_name source, tp_description = fs_description source,
                 tp_definition = definition, tp_tags = fs_tags source, tp_locale = None, tp_visibility = VisTenant,
                 tp_author = fs_author source, tp_fork_of = Some fork_of, tp_created_by = user_id,
                 tp_created_at = now, tp_updated_at = now\<rparr>
      in if template_taken s row then Inr (NameTaken, s)
         else if \<not> template_refs_ok s row then Inl (Internal ''constraint'')
         else Inr (ForkCreated new_id, s\<lparr>lb_templates := lb_templates s @ [row]\<rparr>))"

definition is_owned_by :: "library_db \<Rightarrow> uuid \<Rightarrow> uuid \<Rightarrow> bool" where
  "is_owned_by s tenant_id template_id \<longleftrightarrow>
     (\<exists>t \<in> set (lb_templates s). tp_id t = template_id \<and> tp_tenant_id t = tenant_id)"

definition update_visibility :: "instant \<Rightarrow> library_db \<Rightarrow> uuid \<Rightarrow> template_visibility \<Rightarrow> library_db result" where
  "update_visibility now s template_id visibility =
     (if count_where (\<lambda>t. tp_id t = template_id) (lb_templates s) = 0 then Inl (Internal ''record not updated'')
      else Inr (s\<lparr>lb_templates := update_where (\<lambda>t. tp_id t = template_id)
        (\<lambda>t. t\<lparr>tp_visibility := visibility, tp_updated_at := now\<rparr>) (lb_templates s)\<rparr>))"

text \<open>The decisions of \<open>marketplace/write.rs\<close>.\<close>

definition require_ownership :: "library_db \<Rightarrow> uuid \<Rightarrow> uuid \<Rightarrow> unit result" where
  "require_ownership s tenant_id template_id =
     ensure (is_owned_by s tenant_id template_id) (NotFound ''template {} was not found'')"

definition publish_version ::
  "backend \<Rightarrow> uuid \<Rightarrow> instant \<Rightarrow> library_db \<Rightarrow> uuid \<Rightarrow> uuid \<Rightarrow> uuid option \<Rightarrow> publish_version_request \<Rightarrow>
   (template_version_row \<times> library_db) result" where
  "publish_version b new_id now s tenant_id template_id user_id request =
     rbind (require_ownership s tenant_id template_id) (\<lambda>_.
     insert_next_version b new_id now s template_id request user_id)"

definition submit_review ::
  "uuid \<Rightarrow> instant \<Rightarrow> library_db \<Rightarrow> uuid \<Rightarrow> uuid \<Rightarrow> uuid option \<Rightarrow> int \<Rightarrow> string option \<Rightarrow> library_db result" where
  "submit_review new_id now s tenant_id template_id user_id rating comment =
     rbind (ensure (1 \<le> rating \<and> rating \<le> 5) (ValidationFailed ''rating must be between 1 and 5'' [])) (\<lambda>_.
     rbind (ensure (is_visible s tenant_id template_id) (NotFound ''template {} was not found'')) (\<lambda>_.
     upsert_review new_id now s tenant_id template_id user_id rating comment))"

definition fork_version ::
  "uuid \<Rightarrow> instant \<Rightarrow> library_db \<Rightarrow> uuid \<Rightarrow> uuid \<Rightarrow> int option \<Rightarrow> uuid option \<Rightarrow> (uuid \<times> library_db) result" where
  "fork_version new_id now s tenant_id template_id version user_id =
     rbind (ok_or (find_fork_source s tenant_id template_id) (NotFound ''template {} was not found'')) (\<lambda>source.
     rbind (ok_or (find_forkable_definition s template_id version)
              (NotFound ''no published version of this template is available to fork'')) (\<lambda>definition.
     rbind (insert_fork new_id now s tenant_id source definition template_id user_id) (\<lambda>(outcome, s').
     case outcome of
       ForkCreated i \<Rightarrow> Inr (i, s')
     | NameTaken \<Rightarrow> Inl (Conflict ''this tenant already has a template named {}''))))"

definition set_visibility :: "instant \<Rightarrow> library_db \<Rightarrow> uuid \<Rightarrow> uuid \<Rightarrow> template_visibility \<Rightarrow> library_db result" where
  "set_visibility now s tenant_id template_id visibility =
     rbind (require_ownership s tenant_id template_id) (\<lambda>_. update_visibility now s template_id visibility)"

section \<open>Drafts stay with their tenant\<close>

lemma fork_outcome_Inr:
  "(case outcome of ForkCreated i \<Rightarrow> Inr (i, s) | NameTaken \<Rightarrow> Inl e) = Inr x \<longleftrightarrow> (\<exists>i. outcome = ForkCreated i \<and> x = (i, s))"
  by (cases outcome) auto

lemma find_forkable_definition_Some:
  assumes "find_forkable_definition s i version = Some d"
  shows "\<exists>v \<in> set (lb_versions s). tv_template_id v = i \<and> tv_definition v = d \<and> tv_status v \<noteq> VerDraft"
proof (cases version)
  case None
  then obtain v where v: "latest_by tv_version (select_where (\<lambda>v. tv_status v = VerStable) (versions_of s i)) = Some v"
    "tv_definition v = d"
    using assms by (auto simp: find_forkable_definition_def split: option.splits)
  show ?thesis using latest_by_Some(1) [OF v(1)] v(2) by (auto simp: set_select_where versions_of_def)
next
  case (Some n)
  then obtain v where v: "find_row (\<lambda>v. tv_version v = n) (versions_of s i) = Some v" "tv_definition v = d" "tv_status v \<noteq> VerDraft"
    using assms by (auto simp: find_forkable_definition_def split: option.splits if_splits)
  show ?thesis using find_row_Some [OF v(1)] v(2,3) by (auto simp: set_select_where versions_of_def)
qed

text \<open>
  A draft never leaves its tenant: a version that is listed for a tenant belongs to a
  template the tenant sees, and is a draft only if the tenant owns the template; a fork copies a version
  that is not a draft, of a template the forking tenant sees, into a private template of that tenant.
\<close>

theorem drafts_stay_private:
  "(v \<in> set (list_versions s tenant template page) \<longrightarrow>
      tv_template_id v = template \<and>
      (\<exists>t \<in> set (lb_templates s). tp_id t = template \<and> visible_to tenant t \<and>
         (tv_status v = VerDraft \<longrightarrow> tp_tenant_id t = tenant))) \<and>
   (fork_version new_id now s tenant template version user = Inr (i, s') \<longrightarrow>
      (\<exists>source \<in> set (lb_templates s). \<exists>w \<in> set (lb_versions s). \<exists>fork.
         tp_id source = template \<and> visible_to tenant source \<and> tv_template_id w = template \<and> tv_status w \<noteq> VerDraft \<and>
         tp_definition fork = tv_definition w \<and> tp_tenant_id fork = tenant \<and> tp_visibility fork = VisTenant \<and>
         tp_fork_of fork = Some template \<and> s' = s\<lparr>lb_templates := lb_templates s @ [fork]\<rparr>))"
proof (intro conjI impI)
  assume v: "v \<in> set (list_versions s tenant template page)"
  then have "v \<in> set (select_where (\<lambda>v. \<exists>t \<in> set (lb_templates s). tp_id t = tv_template_id v \<and> visible_to tenant t \<and>
      (tv_status v \<noteq> VerDraft \<or> tp_tenant_id t = tenant)) (versions_of s template))"
    unfolding list_versions_def using page_of_subset by (metis (lifting) set_sort subsetD)
  then show "tv_template_id v = template"
    and "\<exists>t \<in> set (lb_templates s). tp_id t = template \<and> visible_to tenant t \<and> (tv_status v = VerDraft \<longrightarrow> tp_tenant_id t = tenant)"
    by (auto simp: set_select_where versions_of_def)
next
  assume "fork_version new_id now s tenant template version user = Inr (i, s')"
  then obtain src d where src: "find_fork_source s tenant template = Some src"
    and d: "find_forkable_definition s template version = Some d"
    and ins: "insert_fork new_id now s tenant src d template user = Inr (ForkCreated i, s')"
    by (auto simp: fork_version_def rbind_Inr_iff ok_or_Inr_iff fork_outcome_Inr)
  obtain source where source: "find_row (\<lambda>t. tp_id t = template \<and> visible_to tenant t) (lb_templates s) = Some source"
    using src by (auto simp: find_fork_source_def)
  obtain w where w: "w \<in> set (lb_versions s)" "tv_template_id w = template" "tv_definition w = d" "tv_status w \<noteq> VerDraft"
    using find_forkable_definition_Some [OF d] by blast
  show "\<exists>source \<in> set (lb_templates s). \<exists>w \<in> set (lb_versions s). \<exists>fork.
         tp_id source = template \<and> visible_to tenant source \<and> tv_template_id w = template \<and> tv_status w \<noteq> VerDraft \<and>
         tp_definition fork = tv_definition w \<and> tp_tenant_id fork = tenant \<and> tp_visibility fork = VisTenant \<and>
         tp_fork_of fork = Some template \<and> s' = s\<lparr>lb_templates := lb_templates s @ [fork]\<rparr>"
    using find_row_Some [OF source] w ins
    by (intro bexI [of _ source] bexI [of _ w] exI) (auto simp: insert_fork_def Let_def split: if_splits)
qed

text \<open>
  A marketplace with three tenants: the first has a template of its own, the second shares one that has a
  draft and a stable version.
\<close>

definition market_template :: "uuid \<Rightarrow> uuid \<Rightarrow> string \<Rightarrow> json \<Rightarrow> template_visibility \<Rightarrow> template_row" where
  "market_template i tenant_id name definition visibility =
     \<lparr>tp_id = i, tp_tenant_id = tenant_id, tp_name = name, tp_description = None, tp_definition = definition,
      tp_tags = [], tp_locale = None, tp_visibility = visibility, tp_author = None, tp_fork_of = None,
      tp_created_by = None, tp_created_at = 2, tp_updated_at = 2\<rparr>"

definition market :: "json \<Rightarrow> library_db" where
  "market good =
     \<lparr>lb_identity = acme\<lparr>id_tenants := map (\<lambda>i. \<lparr>tn_id = i, tn_name = ''t'', tn_max_workspaces = None, tn_disabled_at = None\<rparr>)
        [9, 11, 12]\<rparr>,
      lb_templates = [market_template 79 9 ''own'' good VisTenant, market_template 80 11 ''shared'' good VisCommunity],
      lb_versions = [\<lparr>tv_id = 90, tv_template_id = 80, tv_version = 1, tv_definition = good, tv_changelog = None,
        tv_status = VerStable, tv_created_by = None, tv_created_at = 2\<rparr>,
        \<lparr>tv_id = 91, tv_template_id = 80, tv_version = 2, tv_definition = JNull, tv_changelog = None,
        tv_status = VerDraft, tv_created_by = None, tv_created_at = 3\<rparr>],
      lb_reviews = []\<rparr>"

lemmas market_defs = market_def market_template_def acme_defs

lemmas marketplace_evals = publish_version_def require_ownership_def insert_next_version_def require_postgres_def
  versions_of_def select_where_def latest_by_def fork_version_def find_fork_source_def insert_fork_def is_owned_by_def update_visibility_def
  find_row_def visible_to_def find_forkable_definition_def insert_template_def template_taken_def template_refs_ok_def set_visibility_def update_where_def Let_def
  list_templates_def collect_results.simps template_record_of_def page_of_def params_limit_def params_offset_def
  list_params_default_def DEFAULT_LIST_LIMIT_def MAX_LIST_LIMIT_def

theorem drafts_stay_private_witness:
  "\<exists>i s' fork. fork_version 81 5 (market JNull) 9 80 (Some 1) None = Inr (i, s') \<and>
     s' = (market JNull)\<lparr>lb_templates := lb_templates (market JNull) @ [fork]\<rparr> \<and> tp_visibility fork = VisTenant"
proof -
  have "\<exists>i s'. fork_version 81 5 (market JNull) 9 80 (Some 1) None = Inr (i, s')"
    by (simp add: marketplace_evals market_defs)
  then obtain i s' where "fork_version 81 5 (market JNull) 9 80 (Some 1) None = Inr (i, s')" by blast
  with drafts_stay_private [of "hd (lb_versions (market JNull))" "market JNull" 9 80 list_params_default 81 5 "Some 1" None i s']
  show ?thesis by auto
qed

section \<open>A definition that does not parse\<close>

text \<open>
  One unparsable publication breaks the listing of every tenant. Publishing stores the
  definition without validating or parsing it. When a tenant publishes a value that is not a definition
  and another tenant forks that version, listing the forking tenant's library fails as a whole, its own
  sound templates included; when the fork is then shared, listing fails for every tenant.
\<close>

theorem unparsable_publication_breaks_listing:
  assumes "from_value good = Some definition" and "from_value bad = None"
  shows "\<exists>v s1 i s2 s3.
    list_templates from_value (market good) 9 list_params_default = Inr [(market_template 79 9 ''own'' good VisTenant, definition),
      (market_template 80 11 ''shared'' good VisCommunity, definition)] \<and>
    publish_version Postgres 92 4 (market good) 11 80 None \<lparr>pv_definition = bad, pv_changelog = None, pv_status = VerStable\<rparr> = Inr (v, s1) \<and>
    fork_version 81 5 s1 9 80 None None = Inr (i, s2) \<and>
    list_templates from_value s2 9 list_params_default = Inl (Internal ''definition'') \<and>
    set_visibility 6 s2 9 i VisCommunity = Inr s3 \<and>
    list_templates from_value s3 12 list_params_default = Inl (Internal ''definition'')"
  by (simp add: marketplace_evals market_defs assms)

theorem unparsable_publication_breaks_listing_witness:
  "\<exists>v s1 i s2. publish_version Postgres 92 4 (market (JStr ''note'')) 11 80 None
       \<lparr>pv_definition = JNull, pv_changelog = None, pv_status = VerStable\<rparr> = Inr (v, s1) \<and>
     fork_version 81 5 s1 9 80 None None = Inr (i, s2) \<and>
     list_templates (\<lambda>j. if j = JNull then None else Some sample_definition) s2 9 list_params_default = Inl (Internal ''definition'')"
  using unparsable_publication_breaks_listing
    [of "\<lambda>j. if j = JNull then None else Some sample_definition" "JStr ''note''" sample_definition JNull]
  by auto

section \<open>Published versions are numbered without gaps\<close>

inductive library_step :: "library_db \<Rightarrow> library_db \<Rightarrow> bool" where
  create: "create_template_as po tv fv i now s actor input = Inr (r, s') \<Longrightarrow> library_step s s'"
| update: "update_template_as po tv fv now s actor i input' = Inr (r, s') \<Longrightarrow> library_step s s'"
| delete: "delete_template_as now s actor i = Inr s' \<Longrightarrow> library_step s s'"
| fork: "fork_template_as tv fv i now s actor src n = Inr (r, s') \<Longrightarrow> library_step s s'"
| publish: "publish_version b i now s t tmpl u req = Inr (v, s') \<Longrightarrow> library_step s s'"
| review: "submit_review i now s t tmpl u rating c = Inr s' \<Longrightarrow> library_step s s'"
| fork_published: "fork_version i now s t tmpl ver u = Inr (j, s') \<Longrightarrow> library_step s s'"
| share: "set_visibility now s t tmpl vis = Inr s' \<Longrightarrow> library_step s s'"

definition numbered :: "library_db \<Rightarrow> bool" where
  "numbered s \<longleftrightarrow> (\<forall>i. map tv_version (versions_of s i) = map int [1..<Suc (length (versions_of s i))])"

lemma numbered_versions: "lb_versions s' = lb_versions s \<Longrightarrow> numbered s \<Longrightarrow> numbered s'"
  by (simp add: numbered_def versions_of_def)

lemma insert_template_versions: "insert_template e s row = Inr s' \<Longrightarrow> lb_versions s' = lb_versions s"
  by (auto simp: insert_template_def split: if_splits)

lemma update_template_versions:
  assumes "update_template po tv fv now s t i input = Inr (r, s')"
  shows "lb_versions s' = lb_versions s"
  using assms unfolding update_template_def Let_def rbind_Inr_iff
  by (elim exE conjE) (auto simp: rbind_Inr_iff split: if_splits)

lemma versions_kept:
  "create_template_as po tv fv i now s actor cinput = Inr (r, s') \<Longrightarrow> lb_versions s' = lb_versions s"
  "update_template_as po tv fv now s actor i uinput = Inr (r, s') \<Longrightarrow> lb_versions s' = lb_versions s"
  "fork_template_as tv fv i now s actor src n = Inr (r, s') \<Longrightarrow> lb_versions s' = lb_versions s"
  "submit_review i now s t tmpl u rating c = Inr s' \<Longrightarrow> lb_versions s' = lb_versions s"
  "fork_version i now s t tmpl ver u = Inr (j, s') \<Longrightarrow> lb_versions s' = lb_versions s"
  "set_visibility now s t tmpl vis = Inr s' \<Longrightarrow> lb_versions s' = lb_versions s"
  by (auto simp: create_template_as_def create_template_def update_template_as_def fork_template_as_def
      fork_template_def submit_review_def upsert_review_def fork_version_def insert_fork_def set_visibility_def
      update_visibility_def rbind_Inr_iff Let_def split: if_splits insert_fork_outcome.splits dest: insert_template_versions update_template_versions)

lemma latest_numbered:
  assumes "numbered s"
  shows "(case latest_by tv_version (versions_of s i) of None \<Rightarrow> 0 | Some v \<Rightarrow> tv_version v) = int (length (versions_of s i))"
proof (cases "latest_by tv_version (versions_of s i)")
  case None
  then have "versions_of s i = []" by (simp add: latest_by_None)
  then show ?thesis using None by simp
next
  case (Some v)
  let ?vs = "versions_of s i"
  have eq: "tv_version ` set ?vs = int ` {1..<Suc (length ?vs)}"
    using arg_cong [where f = set, OF spec [OF assms [unfolded numbered_def], of i]] by (simp del: upt_Suc)
  have v: "v \<in> set ?vs" using latest_by_Some(1) [OF Some] .
  then have "tv_version v \<in> int ` {1..<Suc (length ?vs)}" unfolding eq [symmetric] by (rule imageI)
  then have "tv_version v \<le> int (length ?vs)" by auto
  moreover have "int (length ?vs) \<in> tv_version ` set ?vs" using eq v length_pos_if_in_set [OF v] by auto
  then have "int (length ?vs) \<le> tv_version v" using latest_by_Some(2) [OF Some] by auto
  ultimately show ?thesis using Some by simp
qed

lemma numbered_publish:
  assumes "numbered s" and "publish_version b i now s t tmpl u req = Inr (v, s')"
  shows "numbered s'"
proof -
  have v: "tv_template_id v = tmpl" "tv_version v = int (length (versions_of s tmpl)) + 1"
    and s': "lb_versions s' = lb_versions s @ [v]"
    using assms(2) latest_numbered [OF assms(1), of tmpl]
    by (auto simp: publish_version_def insert_next_version_def rbind_Inr_iff Let_def split: if_splits)
  have "versions_of s' j = versions_of s j @ (if j = tmpl then [v] else [])" for j
    using s' v(1) by (simp add: versions_of_def select_where_def)
  then show ?thesis using assms(1) v(2) by (simp add: numbered_def)
qed

lemma numbered_step: "library_step s s' \<Longrightarrow> numbered s \<Longrightarrow> numbered s'"
proof (induction rule: library_step.induct)
  case (delete now s actor i s')
  then have vs: "lb_versions s' = delete_where (\<lambda>v. tv_template_id v = i) (lb_versions s)"
    by (auto simp: delete_template_as_def delete_template_def rbind_Inr_iff Let_def split: if_splits)
  have "versions_of s' j = (if j = i then [] else versions_of s j)" for j
    unfolding versions_of_def vs select_where_def delete_where_def by (auto intro: filter_cong)
  then show ?case using delete.prems by (simp add: numbered_def del: upt_Suc)
next
  case (publish b i now s t tmpl u req v s')
  then show ?case by (blast intro: numbered_publish)
qed (blast intro: numbered_versions dest: versions_kept)+

text \<open>
  The published versions of every template are numbered 1, 2, 3 and so on in the order they
  were published, through every history of library and marketplace operations.
\<close>

theorem versions_numbered:
  assumes "library_step\<^sup>*\<^sup>* s s'" and "numbered s"
  shows "map tv_version (versions_of s' i) = map int [1..<Suc (length (versions_of s' i))]"
proof -
  have "numbered s'" using assms by (induction rule: rtranclp_induct) (auto intro: numbered_step)
  then show ?thesis by (simp add: numbered_def)
qed

theorem versions_numbered_witness:
  "\<exists>s'. library_step\<^sup>*\<^sup>* (market JNull) s' \<and> map tv_version (versions_of s' 80) = [1, 2, 3]"
proof -
  have p: "\<exists>v s'. publish_version Postgres 92 4 (market JNull) 11 80 None
      \<lparr>pv_definition = JNull, pv_changelog = None, pv_status = VerStable\<rparr> = Inr (v, s') \<and> length (versions_of s' 80) = 3"
    by (simp add: marketplace_evals market_defs)
  then obtain s' where s': "library_step (market JNull) s'" "length (versions_of s' 80) = 3"
    by (blast intro: library_step.publish)
  have "numbered (market JNull)"
    by (simp add: numbered_def versions_of_def select_where_def market_defs upt_rec)
  with versions_numbered [OF r_into_rtranclp [of library_step, OF s'(1)], of 80] s'
  show ?thesis by (auto simp: upt_rec)
qed

end
