(* ===== verification/Origin_Merge.thy ===== *)
theory Origin_Merge
  imports Templates
begin

text \<open>
  \<open>ee/models/schema_schemas/merge.rs\<close>, \<open>origin.rs\<close> and \<open>query.rs\<close>: following an origin template.  The
  comparison of the template as copied, the template now and the workspace's schema, the definition a
  conflict-free comparison gives, and the operations that preview it, apply it and list what is pending.

  \<open>same\<close> compares two field definitions by their serialized form.  Serialization keeps apart any two
  definitions that were read from JSON, so it is equality here.  The lemmas show that the merge takes each
  field from the side that changed it, fails exactly on conflicting changes, and settles: after a merge
  nothing is pending until the template changes again.  One theorem records what the comparison misses.
\<close>

section \<open>Classification\<close>

datatype merge_verdict = AutoAdd | AutoUpdate | KeepLocal | MergeConflict

record field_merge =
  fm_entity_type :: string
  fm_field :: string
  fm_verdict :: merge_verdict
  fm_detail :: string

record merge_diff_summary =
  ms_total_fields :: nat
  ms_auto_add :: nat
  ms_auto_update :: nat
  ms_keep_local :: nat
  ms_conflict :: nat
  ms_has_conflicts :: bool

record merge_plan =
  pl_fields :: "field_merge list"
  pl_summary :: merge_diff_summary

definition conflicts :: "merge_plan \<Rightarrow> field_merge list" where
  "conflicts plan = filter (\<lambda>f. fm_verdict f = MergeConflict) (pl_fields plan)"

definition has_conflicts :: "merge_plan \<Rightarrow> bool" where
  "has_conflicts plan \<longleftrightarrow> (\<exists>f \<in> set (pl_fields plan). fm_verdict f = MergeConflict)"

definition same :: "field_def option \<Rightarrow> field_def option \<Rightarrow> bool" where
  "same a b \<longleftrightarrow> a = b"

fun type_name :: "field_type_name \<Rightarrow> string" where
  "type_name FString = ''string''"
| "type_name FNumber = ''number''"
| "type_name FInteger = ''integer''"
| "type_name FBoolean = ''boolean''"
| "type_name FArray = ''array''"
| "type_name FObject = ''object''"

text \<open>The last case is unreachable: a conflict has two different sides.\<close>

fun describe_conflict :: "field_def option \<Rightarrow> field_def option \<Rightarrow> string" where
  "describe_conflict (Some u) (Some l) =
     (if fd_type u \<noteq> fd_type l
      then ''type differs: upstream '' @ type_name (fd_type u) @ '', here '' @ type_name (fd_type l)
      else ''both changed, differently'')"
| "describe_conflict None (Some l) = ''removed upstream, changed here''"
| "describe_conflict (Some u) None = ''changed upstream, removed here''"
| "describe_conflict None None = []"

definition classify ::
  "field_def option \<Rightarrow> field_def option \<Rightarrow> field_def option \<Rightarrow> (merge_verdict \<times> string) option" where
  "classify base upstream here =
     (case (\<not> same base upstream, \<not> same base here) of
        (False, False) \<Rightarrow> None
      | (True, False) \<Rightarrow>
          Some (if base = None then (AutoAdd, ''added upstream; absent here'')
                else if upstream = None then (AutoUpdate, ''removed upstream; unchanged here'')
                else (AutoUpdate, ''changed upstream; unchanged here''))
      | (False, True) \<Rightarrow>
          Some (if base = None then (KeepLocal, ''added here; unknown upstream'')
                else (KeepLocal, ''changed here; unchanged upstream''))
      | (True, True) \<Rightarrow>
          if same upstream here then None else Some (MergeConflict, describe_conflict upstream here))"

definition summarize_field :: "field_merge \<Rightarrow> merge_diff_summary \<Rightarrow> merge_diff_summary" where
  "summarize_field f m =
     (case fm_verdict f of
        AutoAdd \<Rightarrow> m\<lparr>ms_auto_add := ms_auto_add m + 1\<rparr>
      | AutoUpdate \<Rightarrow> m\<lparr>ms_auto_update := ms_auto_update m + 1\<rparr>
      | KeepLocal \<Rightarrow> m\<lparr>ms_keep_local := ms_keep_local m + 1\<rparr>
      | MergeConflict \<Rightarrow> m\<lparr>ms_conflict := ms_conflict m + 1\<rparr>)"

definition summarize :: "field_merge list \<Rightarrow> merge_diff_summary" where
  "summarize fs =
     (let m = fold summarize_field fs \<lparr>ms_total_fields = length fs, ms_auto_add = 0, ms_auto_update = 0,
                ms_keep_local = 0, ms_conflict = 0, ms_has_conflicts = False\<rparr>
      in m\<lparr>ms_has_conflicts := ms_conflict m > 0\<rparr>)"

text \<open>A \<open>BTreeSet\<close> of names is iterated in order; the fields of a type, and one field.\<close>

definition btree_set :: "string list \<Rightarrow> string list" where
  "btree_set names = sort (remdups names)"

definition type_fields :: "metaschema_definition \<Rightarrow> string \<Rightarrow> fields option" where
  "type_fields d ty = map_option et_fields (bt_get (md_entity_types d) ty)"

definition names_of :: "fields option \<Rightarrow> string list" where
  "names_of fs = (case fs of None \<Rightarrow> [] | Some m \<Rightarrow> bt_keys m)"

definition field_of :: "metaschema_definition \<Rightarrow> string \<Rightarrow> string \<Rightarrow> field_def option" where
  "field_of d ty name = Option.bind (type_fields d ty) (\<lambda>fs. bt_get fs name)"

definition three_way_type ::
  "metaschema_definition \<Rightarrow> metaschema_definition \<Rightarrow> metaschema_definition \<Rightarrow> string \<Rightarrow> field_merge list" where
  "three_way_type base upstream here ty =
     List.map_filter (\<lambda>name.
       map_option (\<lambda>(verdict, detail). \<lparr>fm_entity_type = ty, fm_field = name, fm_verdict = verdict, fm_detail = detail\<rparr>)
         (classify (field_of base ty name) (field_of upstream ty name) (field_of here ty name)))
       (btree_set (names_of (type_fields base ty) @ names_of (type_fields upstream ty) @ names_of (type_fields here ty)))"

definition three_way ::
  "metaschema_definition \<Rightarrow> metaschema_definition \<Rightarrow> metaschema_definition \<Rightarrow> merge_plan" where
  "three_way base upstream here =
     (let entity_types = btree_set (bt_keys (md_entity_types base) @ bt_keys (md_entity_types upstream) @ bt_keys (md_entity_types here));
          fs = concat (map (three_way_type base upstream here) entity_types)
      in \<lparr>pl_fields = fs, pl_summary = summarize fs\<rparr>)"

section \<open>Applying\<close>

definition apply_field :: "metaschema_definition \<Rightarrow> field_merge \<Rightarrow> metaschema_definition \<Rightarrow> metaschema_definition" where
  "apply_field upstream f merged =
     (if fm_verdict f \<in> {AutoAdd, AutoUpdate}
      then (case field_of upstream (fm_entity_type f) (fm_field f) of
              Some def \<Rightarrow>
                (let entry = (case bt_get (md_entity_types merged) (fm_entity_type f) of
                      Some t \<Rightarrow> t
                    | None \<Rightarrow>
                        \<lparr>et_description = Option.bind (bt_get (md_entity_types upstream) (fm_entity_type f)) et_description,
                         et_fields = []\<rparr>)
                 in merged\<lparr>md_entity_types := bt_insert (fm_entity_type f)
                      (entry\<lparr>et_fields := bt_insert (fm_field f) def (et_fields entry)\<rparr>) (md_entity_types merged)\<rparr>)
            | None \<Rightarrow>
                (case bt_get (md_entity_types merged) (fm_entity_type f) of
                   None \<Rightarrow> merged
                 | Some t \<Rightarrow> merged\<lparr>md_entity_types := bt_insert (fm_entity_type f)
                     (t\<lparr>et_fields := bt_remove (fm_field f) (et_fields t)\<rparr>) (md_entity_types merged)\<rparr>))
      else merged)"

definition apply_plan ::
  "merge_plan \<Rightarrow> metaschema_definition \<Rightarrow> metaschema_definition \<Rightarrow> metaschema_definition result" where
  "apply_plan plan upstream here =
     (if has_conflicts plan
      then Inl (ValidationFailed ''the merge has {} unresolved conflict(s)''
             (map (\<lambda>f. detail (''/'' @ fm_entity_type f @ ''/'' @ fm_field f) (fm_detail f) OtherCode) (conflicts plan)))
      else Inr (fold (apply_field upstream) (pl_fields plan) here))"

section \<open>Following a template\<close>

definition merge_sides ::
  "(json \<Rightarrow> metaschema_definition option) \<Rightarrow> library_db \<Rightarrow> uuid \<Rightarrow> uuid \<Rightarrow> uuid \<Rightarrow>
   (metaschema_definition \<times> metaschema_definition \<times> schema_row \<times> uuid) result" where
  "merge_sides from_value s tenant_id workspace_id schema_id =
     rbind (get_by_id (id_store (lb_identity s)) workspace_id schema_id) (\<lambda>schema.
     rbind (ensure (sc_status schema = SchemaActive)
              (ValidationFailed ''schema {} is {} and cannot be merged into'' [])) (\<lambda>_.
     rbind (ok_or (sc_origin_template_id schema) (ValidationFailed ''schema {} does not follow a template'' [])) (\<lambda>template_id.
     rbind (ok_or (sc_origin_snapshot schema)
              (ValidationFailed ''schema {} was copied before its merge base was recorded'' [])) (\<lambda>base.
     rbind (get_template from_value s tenant_id template_id) (\<lambda>(_, upstream).
     Inr (base, upstream, schema, template_id))))))"

definition merge_preview ::
  "(json \<Rightarrow> metaschema_definition option) \<Rightarrow> library_db \<Rightarrow> uuid \<Rightarrow> uuid \<Rightarrow> uuid \<Rightarrow> merge_plan result" where
  "merge_preview from_value s tenant_id workspace_id schema_id =
     rbind (merge_sides from_value s tenant_id workspace_id schema_id) (\<lambda>(base, upstream, schema, _).
     Inr (three_way base upstream (sc_definition schema)))"

definition merge_apply ::
  "(string \<Rightarrow> bool) \<Rightarrow> (json \<Rightarrow> metaschema_definition option) \<Rightarrow> uuid \<Rightarrow> instant \<Rightarrow> library_db \<Rightarrow> uuid \<Rightarrow> uuid \<Rightarrow> uuid \<Rightarrow>
   ((schema_row \<times> versioning_diff \<times> merge_diff_summary) \<times> library_db) result" where
  "merge_apply pattern_ok from_value new_id now s tenant_id workspace_id schema_id =
     rbind (merge_sides from_value s tenant_id workspace_id schema_id) (\<lambda>(base, upstream, schema, template_id).
     let plan = three_way base upstream (sc_definition schema) in
     rbind (apply_plan plan upstream (sc_definition schema)) (\<lambda>merged.
     rbind (create_schema pattern_ok new_id now (id_store (lb_identity s)) tenant_id workspace_id merged
              (Some template_id) (Some upstream)) (\<lambda>((row, difference), d).
     let d' = d\<lparr>db_schemas := update_where (\<lambda>r. sc_id r = sc_id row) (\<lambda>r. r\<lparr>sc_origin_updated_at := Some now\<rparr>) (db_schemas d)\<rparr>
     in Inr ((row, difference, pl_summary plan),
             s\<lparr>lb_identity := (lb_identity s)\<lparr>id_store := d'\<rparr>\<rparr>))))"

record upstream_change =
  uc_schema_id :: uuid
  uc_schema_name :: string
  uc_version :: int
  uc_template_id :: uuid
  uc_template_name :: string
  uc_changed_at :: instant
  uc_pending_notification :: bool
  uc_summary :: merge_diff_summary

definition pending_schema :: "uuid \<Rightarrow> schema_row \<Rightarrow> bool" where
  "pending_schema workspace_id r \<longleftrightarrow>
     sc_workspace_id r = workspace_id \<and> sc_status r = SchemaActive \<and> sc_origin_status r = Linked \<and> sc_origin_updated_at r = None"

definition upstream_change_of ::
  "(json \<Rightarrow> metaschema_definition option) \<Rightarrow> schema_row \<times> template_row \<Rightarrow> upstream_change result" where
  "upstream_change_of from_value = (\<lambda>(r, t).
     rbind (ok_or (sc_origin_snapshot r) (Internal ''linked schema has no merge base'')) (\<lambda>base.
     rbind (ok_or (from_value (tp_definition t)) (Internal ''definition'')) (\<lambda>upstream.
     Inr \<lparr>uc_schema_id = sc_id r, uc_schema_name = sc_name r, uc_version = sc_version r, uc_template_id = tp_id t,
          uc_template_name = tp_name t, uc_changed_at = tp_updated_at t,
          uc_pending_notification = (sc_origin_updated_at r = None),
          uc_summary = pl_summary (three_way base upstream (sc_definition r))\<rparr>)))"

definition list_with_upstream_changes ::
  "(json \<Rightarrow> metaschema_definition option) \<Rightarrow> library_db \<Rightarrow> uuid \<Rightarrow> list_params \<Rightarrow> upstream_change list result" where
  "list_with_upstream_changes from_value s workspace_id page =
     collect_results (map (upstream_change_of from_value)
       (page_of page (sort_key (\<lambda>(_, t). - tp_updated_at t)
         [(r, t). r \<leftarrow> select_where (pending_schema workspace_id) (db_schemas (id_store (lb_identity s))),
                  t \<leftarrow> lb_templates s, sc_origin_template_id r = Some (tp_id t)])))"

section \<open>The merge takes each field from the side that changed it\<close>

lemma classify_iff:
  "classify b u l = Some (v, d) \<longleftrightarrow>
     (if u = b then l \<noteq> b \<and> v = KeepLocal \<and> d = (if b = None then ''added here; unknown upstream'' else ''changed here; unchanged upstream'')
      else if l = b then v = (if b = None then AutoAdd else AutoUpdate) \<and>
        d = (if b = None then ''added upstream; absent here'' else if u = None then ''removed upstream; unchanged here''
             else ''changed upstream; unchanged here'')
      else u \<noteq> l \<and> v = MergeConflict \<and> d = describe_conflict u l)"
  by (auto simp: classify_def same_def)

lemma field_of_names:
  "field_of d ty n = Some f \<Longrightarrow> ty \<in> set (bt_keys (md_entity_types d)) \<and> n \<in> set (names_of (type_fields d ty))"
  by (cases "bt_get (md_entity_types d) ty")
    (force simp: field_of_def type_fields_def names_of_def bt_keys_def dest: bt_get_mem)+

lemma map_filter_set: "set (List.map_filter f xs) = {y. \<exists>x \<in> set xs. f x = Some y}"
  by (force simp: List.map_filter_def)

lemma set_btree_set [simp]: "set (btree_set xs) = set xs"
  by (simp add: btree_set_def)

text \<open>The plan lists exactly the classified fields.\<close>

lemma plan_fields:
  "f \<in> set (pl_fields (three_way b u l)) \<longleftrightarrow>
     classify (field_of b (fm_entity_type f) (fm_field f)) (field_of u (fm_entity_type f) (fm_field f))
       (field_of l (fm_entity_type f) (fm_field f)) = Some (fm_verdict f, fm_detail f)"
  (is "_ \<longleftrightarrow> ?c = _")
proof -
  let ?ty = "fm_entity_type f" and ?n = "fm_field f"
  have mem: "f \<in> set (three_way_type b u l ty) \<longleftrightarrow> ty = ?ty \<and>
      ?n \<in> set (names_of (type_fields b ty)) \<union> set (names_of (type_fields u ty)) \<union> set (names_of (type_fields l ty)) \<and>
      ?c = Some (fm_verdict f, fm_detail f)" for ty
    unfolding three_way_type_def map_filter_set set_btree_set set_append
    by (cases f) (auto; force)
  have names: "?ty \<in> set (bt_keys (md_entity_types b)) \<union> set (bt_keys (md_entity_types u)) \<union> set (bt_keys (md_entity_types l)) \<and>
      ?n \<in> set (names_of (type_fields b ?ty)) \<union> set (names_of (type_fields u ?ty)) \<union> set (names_of (type_fields l ?ty))"
    if c: "?c = Some (fm_verdict f, fm_detail f)"
  proof -
    have "field_of b ?ty ?n \<noteq> None \<or> field_of u ?ty ?n \<noteq> None \<or> field_of l ?ty ?n \<noteq> None"
      using c by (auto simp: classify_iff split: if_splits)
    then show ?thesis by (auto dest: field_of_names)
  qed
  show ?thesis
    unfolding three_way_def Let_def merge_plan.select_convs set_concat set_map set_btree_set set_append
    using mem names by blast
qed

definition is_auto :: "field_merge \<Rightarrow> bool" where
  "is_auto f \<longleftrightarrow> fm_verdict f \<in> {AutoAdd, AutoUpdate}"

lemma field_of_insert:
  "field_of (m\<lparr>md_entity_types := bt_insert ty t (md_entity_types m)\<rparr>) ty' n =
     (if ty' = ty then bt_get (et_fields t) n else field_of m ty' n)"
  by (simp add: field_of_def type_fields_def bt_get_insert)

lemma field_of_apply_field:
  "field_of (apply_field u f m) ty n =
     (if is_auto f \<and> fm_entity_type f = ty \<and> fm_field f = n then field_of u ty n else field_of m ty n)"
proof (cases "is_auto f \<and> fm_entity_type f = ty")
  case True
  then show ?thesis
    by (auto simp: apply_field_def is_auto_def Let_def field_of_insert bt_get_insert bt_get_remove
        field_of_def [of m] type_fields_def split: option.splits)
next
  case False
  then show ?thesis
    by (auto simp: apply_field_def is_auto_def Let_def field_of_insert split: option.splits)
qed

lemma apply_field_rest:
  "md_name (apply_field u f m) = md_name m" "md_description (apply_field u f m) = md_description m"
  "md_relation_types (apply_field u f m) = md_relation_types m"
  by (simp_all add: apply_field_def Let_def split: option.splits)

lemma fold_apply_field:
  "field_of (fold (apply_field u) fs m) ty n =
     (if \<exists>f \<in> set fs. is_auto f \<and> fm_entity_type f = ty \<and> fm_field f = n then field_of u ty n else field_of m ty n)"
  "md_name (fold (apply_field u) fs m) = md_name m"
  "md_description (fold (apply_field u) fs m) = md_description m"
  "md_relation_types (fold (apply_field u) fs m) = md_relation_types m"
  by (induction fs arbitrary: m) (auto simp: field_of_apply_field apply_field_rest)

lemma auto_in_plan:
  "(\<exists>f \<in> set (pl_fields (three_way b u l)). is_auto f \<and> fm_entity_type f = ty \<and> fm_field f = n) \<longleftrightarrow>
     field_of u ty n \<noteq> field_of b ty n \<and> field_of l ty n = field_of b ty n"
proof
  assume "\<exists>f \<in> set (pl_fields (three_way b u l)). is_auto f \<and> fm_entity_type f = ty \<and> fm_field f = n"
  then show "field_of u ty n \<noteq> field_of b ty n \<and> field_of l ty n = field_of b ty n"
    by (auto simp: plan_fields classify_iff is_auto_def split: if_splits)
next
  assume moved: "field_of u ty n \<noteq> field_of b ty n \<and> field_of l ty n = field_of b ty n"
  obtain v d where vd: "classify (field_of b ty n) (field_of u ty n) (field_of l ty n) = Some (v, d)" "v \<in> {AutoAdd, AutoUpdate}"
    using moved by (auto simp: classify_iff)
  then have "\<lparr>fm_entity_type = ty, fm_field = n, fm_verdict = v, fm_detail = d\<rparr> \<in> set (pl_fields (three_way b u l))"
    by (simp add: plan_fields)
  then show "\<exists>f \<in> set (pl_fields (three_way b u l)). is_auto f \<and> fm_entity_type f = ty \<and> fm_field f = n"
    using vd(2) by (intro bexI) (auto simp: is_auto_def)
qed

lemma conflict_in_plan:
  "has_conflicts (three_way b u l) \<longleftrightarrow>
     (\<exists>ty n. field_of u ty n \<noteq> field_of b ty n \<and> field_of l ty n \<noteq> field_of b ty n \<and> field_of u ty n \<noteq> field_of l ty n)"
proof
  assume "has_conflicts (three_way b u l)"
  then show "\<exists>ty n. field_of u ty n \<noteq> field_of b ty n \<and> field_of l ty n \<noteq> field_of b ty n \<and> field_of u ty n \<noteq> field_of l ty n"
    unfolding has_conflicts_def by (elim bexE) (simp add: plan_fields classify_iff split: if_splits; blast)
next
  assume "\<exists>ty n. field_of u ty n \<noteq> field_of b ty n \<and> field_of l ty n \<noteq> field_of b ty n \<and> field_of u ty n \<noteq> field_of l ty n"
  then obtain ty n where "field_of u ty n \<noteq> field_of b ty n" "field_of l ty n \<noteq> field_of b ty n" "field_of u ty n \<noteq> field_of l ty n"
    by blast
  then have "\<lparr>fm_entity_type = ty, fm_field = n, fm_verdict = MergeConflict,
      fm_detail = describe_conflict (field_of u ty n) (field_of l ty n)\<rparr> \<in> set (pl_fields (three_way b u l))"
    by (simp add: plan_fields classify_iff)
  then show "has_conflicts (three_way b u l)" unfolding has_conflicts_def by (rule bexI [rotated]) simp
qed

text \<open>
  Property C20. The merge is the three-way merge: it fails exactly when some field was changed on both
  sides to different definitions, and otherwise every field of the result is the template's where the
  template changed it and the workspace's everywhere else; name, description and relation types stay the
  workspace's.
\<close>

theorem merge_is_three_way:
  "((\<exists>m. apply_plan (three_way b u l) u l = Inr m) \<longleftrightarrow>
      (\<forall>ty n. field_of u ty n = field_of b ty n \<or> field_of l ty n = field_of b ty n \<or> field_of u ty n = field_of l ty n)) \<and>
   (\<forall>m. apply_plan (three_way b u l) u l = Inr m \<longrightarrow>
      (\<forall>ty n. field_of m ty n = (if field_of u ty n = field_of b ty n then field_of l ty n else field_of u ty n)) \<and>
      md_name m = md_name l \<and> md_description m = md_description l \<and> md_relation_types m = md_relation_types l)"
proof (intro conjI allI impI)
  show "(\<exists>m. apply_plan (three_way b u l) u l = Inr m) \<longleftrightarrow>
      (\<forall>ty n. field_of u ty n = field_of b ty n \<or> field_of l ty n = field_of b ty n \<or> field_of u ty n = field_of l ty n)"
    using conflict_in_plan [of b u l] by (auto simp: apply_plan_def)
next
  fix m assume m: "apply_plan (three_way b u l) u l = Inr m"
  then have eq: "m = fold (apply_field u) (pl_fields (three_way b u l)) l" and free: "\<not> has_conflicts (three_way b u l)"
    by (auto simp: apply_plan_def split: if_splits)
  show "field_of m ty n = (if field_of u ty n = field_of b ty n then field_of l ty n else field_of u ty n)" for ty n
    using free unfolding eq fold_apply_field(1) auto_in_plan conflict_in_plan by metis
  show "md_name m = md_name l" "md_description m = md_description l" "md_relation_types m = md_relation_types l"
    unfolding eq by (simp_all add: fold_apply_field)
qed

text \<open>Three definitions of a library: the template as copied, with a field added, and with another added here.\<close>

definition merge_sample :: "string list \<Rightarrow> metaschema_definition" where
  "merge_sample names = \<lparr>md_name = ''library'', md_description = None,
     md_entity_types = [(''book'', \<lparr>et_description = None, et_fields = map (\<lambda>n. (n, plain_field FString)) names\<rparr>)],
     md_relation_types = []\<rparr>"

lemma field_of_merge_sample:
  "field_of (merge_sample names) ty n = (if ty = ''book'' \<and> n \<in> set names then Some (plain_field FString) else None)"
proof -
  have "bt_get (map (\<lambda>n. (n, plain_field FString)) names) n = (if n \<in> set names then Some (plain_field FString) else None)" for n
    by (induction names) auto
  then show ?thesis by (simp add: field_of_def type_fields_def merge_sample_def)
qed

theorem merge_is_three_way_witness:
  "\<exists>m. apply_plan (three_way (merge_sample [''title'']) (merge_sample [''isbn'', ''title'']) (merge_sample [''shelf'', ''title'']))
       (merge_sample [''isbn'', ''title'']) (merge_sample [''shelf'', ''title'']) = Inr m \<and>
     field_of m ''book'' ''isbn'' = Some (plain_field FString) \<and> field_of m ''book'' ''shelf'' = Some (plain_field FString) \<and>
     field_of m ''book'' ''title'' = Some (plain_field FString)"
proof -
  let ?b = "merge_sample [''title'']" and ?u = "merge_sample [''isbn'', ''title'']" and ?l = "merge_sample [''shelf'', ''title'']"
  note t = merge_is_three_way [of ?b ?u ?l]
  have "field_of ?u ty n = field_of ?b ty n \<or> field_of ?l ty n = field_of ?b ty n \<or> field_of ?u ty n = field_of ?l ty n" for ty n
    by (simp add: field_of_merge_sample)
  then obtain m where m: "apply_plan (three_way ?b ?u ?l) ?u ?l = Inr m" using t by blast
  then have "field_of m ty n = (if field_of ?u ty n = field_of ?b ty n then field_of ?l ty n else field_of ?u ty n)" for ty n
    using t by blast
  then show ?thesis using m by (simp add: field_of_merge_sample)
qed

section \<open>A merge settles\<close>

lemma unmoved_plan: "f \<in> set (pl_fields (three_way u u l)) \<Longrightarrow> fm_verdict f = KeepLocal"
  by (simp add: plan_fields classify_iff)

lemma create_schema_origin:
  assumes "create_schema p i now d t w def (Some tmpl) (Some snap) = Inr ((row, dd), d')"
  shows "sc_origin_template_id row = Some tmpl" "sc_origin_snapshot row = Some snap"
proof -
  have "inherited_origin now x (Some tmpl) (Some snap) = (Some tmpl, Some snap, Some now)" for x
    by (simp add: inherited_origin_def split: option.splits)
  note o = this
  show "sc_origin_template_id row = Some tmpl" "sc_origin_snapshot row = Some snap"
    using assms unfolding create_schema_def Let_def o prod.case
    by (simp only: res_simps sum.inject prod.inject, elim exE conjE, hypsubst, simp)+
qed

lemma merge_apply_Inr:
  assumes "merge_apply p fv i now s t w sid = Inr ((row, dd, sm), s')"
  obtains base upstream schema tmpl merged d d' where
    "merge_sides fv s t w sid = Inr (base, upstream, schema, tmpl)"
    "apply_plan (three_way base upstream (sc_definition schema)) upstream (sc_definition schema) = Inr merged"
    "create_schema p i now (id_store (lb_identity s)) t w merged (Some tmpl) (Some upstream) = Inr ((row, dd), d)"
    "d' = d\<lparr>db_schemas := update_where (\<lambda>r. sc_id r = sc_id row) (\<lambda>r. r\<lparr>sc_origin_updated_at := Some now\<rparr>) (db_schemas d)\<rparr>"
    "s' = s\<lparr>lb_identity := (lb_identity s)\<lparr>id_store := d'\<rparr>\<rparr>"
  using assms by (auto simp: merge_apply_def rbind_Inr_iff Let_def split: prod.splits)

text \<open>The new version as it is stored.\<close>

lemma merge_apply_stored:
  assumes "merge_apply p fv i now s t w sid = Inr ((row, dd, sm), s')"
  shows "get_by_id (id_store (lb_identity s')) w (sc_id row) = Inr (row\<lparr>sc_origin_updated_at := Some now\<rparr>)"
    and "r \<in> set (db_schemas (id_store (lb_identity s'))) \<Longrightarrow> sc_id r = sc_id row \<Longrightarrow> sc_origin_updated_at r \<noteq> None"
proof -
  obtain base upstream schema tmpl merged d d' where
    c: "create_schema p i now (id_store (lb_identity s)) t w merged (Some tmpl) (Some upstream) = Inr ((row, dd), d)"
    and d': "d' = d\<lparr>db_schemas := update_where (\<lambda>r. sc_id r = sc_id row) (\<lambda>r. r\<lparr>sc_origin_updated_at := Some now\<rparr>) (db_schemas d)\<rparr>"
    and s': "s' = s\<lparr>lb_identity := (lb_identity s)\<lparr>id_store := d'\<rparr>\<rparr>"
    by (rule merge_apply_Inr [OF assms])
  note cs = create_schema_Inr [OF c]
  let ?old = "update_where (\<lambda>s. sc_workspace_id s = w \<and> sc_name s = md_name merged \<and> sc_status s = SchemaActive) (retire now)
    (db_schemas (id_store (lb_identity s)))"
  have ids: "sc_id ` set ?old = sc_id ` set (db_schemas (id_store (lb_identity s)))" by (rule retire.id.key_image_update)
  have old: "sc_id r \<noteq> sc_id row" if "r \<in> set ?old" for r
    using imageI [OF that, of sc_id] cs(9) unfolding ids cs(2) by blast
  have tbl: "db_schemas (id_store (lb_identity s')) = ?old @ [row\<lparr>sc_origin_updated_at := Some now\<rparr>]"
    using old unfolding s' d' cs(8) by (simp add: update_where_def map_idI)
  then show "get_by_id (id_store (lb_identity s')) w (sc_id row) = Inr (row\<lparr>sc_origin_updated_at := Some now\<rparr>)"
    using old cs(3) unfolding get_by_id_def tbl ok_or_Inr_iff by (intro find_row_unique) auto
  show "sc_origin_updated_at r \<noteq> None" if "r \<in> set (db_schemas (id_store (lb_identity s')))" "sc_id r = sc_id row"
    using that old unfolding tbl by auto
qed

lemma collect_results_Inr: "collect_results (map f xs) = Inr ys \<Longrightarrow> y \<in> set ys \<Longrightarrow> \<exists>x \<in> set xs. f x = Inr y"
  by (induction xs arbitrary: ys) (auto simp: rbind_Inr_iff)

lemma listed_pending:
  assumes "list_with_upstream_changes fv s w page = Inr cs" and "c \<in> set cs"
  shows "\<exists>r \<in> set (db_schemas (id_store (lb_identity s))). sc_id r = uc_schema_id c \<and> sc_origin_updated_at r = None"
proof -
  obtain r t where rt: "(r, t) \<in> set (page_of page (sort_key (\<lambda>(_, t). - tp_updated_at t)
      [(r, t). r \<leftarrow> select_where (pending_schema w) (db_schemas (id_store (lb_identity s))),
               t \<leftarrow> lb_templates s, sc_origin_template_id r = Some (tp_id t)]))"
    and c: "upstream_change_of fv (r, t) = Inr c"
    using collect_results_Inr [OF assms(1) [unfolded list_with_upstream_changes_def] assms(2)] by auto
  have "r \<in> set (select_where (pending_schema w) (db_schemas (id_store (lb_identity s))))"
    using subsetD [OF page_of_subset rt] by auto
  then show ?thesis using c by (auto simp: set_select_where pending_schema_def upstream_change_of_def rbind_Inr_iff)
qed

text \<open>
  Property C21. A merge settles: after a successful merge the preview of the new version asks for nothing
  from the template and has no conflict, only fields the workspace changed itself remain in the plan, and the
  schema is no longer listed as having pending upstream changes.
\<close>

theorem merge_settles:
  assumes "merge_apply p fv i now s t w sid = Inr ((row, dd, sm), s')"
  shows "(\<exists>plan. merge_preview fv s' t w (sc_id row) = Inr plan \<and>
      map fm_verdict (pl_fields plan) = replicate (length (pl_fields plan)) KeepLocal) \<and>
    (\<forall>page cs. list_with_upstream_changes fv s' w page = Inr cs \<longrightarrow> sc_id row \<notin> uc_schema_id ` set cs)"
proof
  obtain base upstream schema tmpl merged d d' where
    sides: "merge_sides fv s t w sid = Inr (base, upstream, schema, tmpl)"
    and c: "create_schema p i now (id_store (lb_identity s)) t w merged (Some tmpl) (Some upstream) = Inr ((row, dd), d)"
    and s': "s' = s\<lparr>lb_identity := (lb_identity s)\<lparr>id_store := d'\<rparr>\<rparr>"
    by (rule merge_apply_Inr [OF assms])
  obtain trow where tmpl: "get_template fv s t tmpl = Inr (trow, upstream)"
    using sides by (auto simp: merge_sides_def rbind_Inr_iff ok_or_Inr_iff)
  then have tmpl': "get_template fv s' t tmpl = Inr (trow, upstream)" by (simp add: get_template_def s')
  have "merge_sides fv s' t w (sc_id row) = Inr (upstream, upstream, row\<lparr>sc_origin_updated_at := Some now\<rparr>, tmpl)"
    using merge_apply_stored(1) [OF assms] create_schema_origin [OF c] create_schema_Inr(6) [OF c] tmpl'
    by (simp add: merge_sides_def)
  then have "merge_preview fv s' t w (sc_id row) = Inr (three_way upstream upstream (sc_definition row))"
    by (simp add: merge_preview_def)
  moreover have "map fm_verdict (pl_fields (three_way upstream upstream l)) =
      replicate (length (pl_fields (three_way upstream upstream l))) KeepLocal" for l
    using unmoved_plan by (intro replicate_eqI) auto
  ultimately show "\<exists>plan. merge_preview fv s' t w (sc_id row) = Inr plan \<and>
      map fm_verdict (pl_fields plan) = replicate (length (pl_fields plan)) KeepLocal" by blast
  show "\<forall>page cs. list_with_upstream_changes fv s' w page = Inr cs \<longrightarrow> sc_id row \<notin> uc_schema_id ` set cs"
    using merge_apply_stored(2) [OF assms] by (fastforce dest!: listed_pending)
qed

text \<open>A workspace that follows a template to which a relation type was added after the copy was taken.\<close>

definition moved_template :: metaschema_definition where
  "moved_template = sample_definition\<lparr>md_relation_types := bt_insert ''sequel''
     \<lparr>rt_source = ''book'', rt_target = ''book'', rt_description = None\<rparr> (md_relation_types sample_definition)\<rparr>"

definition follower :: library_db where
  "follower = \<lparr>lb_identity = acme\<lparr>id_store := one_schema\<rparr>,
     lb_templates = [market_template 77 9 ''library'' JNull VisTenant], lb_versions = [], lb_reviews = []\<rparr>"

lemma three_way_same_fields:
  assumes "\<And>ty n. field_of u ty n = field_of b ty n" and "\<And>ty n. field_of l ty n = field_of b ty n"
  shows "pl_fields (three_way b u l) = []"
proof -
  have "f \<notin> set (pl_fields (three_way b u l))" for f
    using assms by (simp add: plan_fields classify_iff)
  then show ?thesis by (metis list.set_intros(1) neq_Nil_conv)
qed

lemma follower_sides:
  "merge_sides (\<lambda>_. Some moved_template) follower 9 3 10 = Inr (sample_definition, moved_template, followed_schema, 77)"
  by (simp add: merge_sides_def get_by_id_def get_template_def template_record_of_def follower_def one_schema_def followed_schema_def
      find_row_def visible_to_def market_template_def)

lemma follower_merges:
  "\<exists>row dd sm s'. merge_apply (\<lambda>_. True) (\<lambda>_. Some moved_template) 11 5 follower 9 3 10 = Inr ((row, dd, sm), s')"
proof -
  have "field_of moved_template ty n = field_of sample_definition ty n" for ty n
    by (simp add: moved_template_def field_of_def type_fields_def)
  then have "pl_fields (three_way sample_definition moved_template sample_definition) = []"
    by (intro three_way_same_fields) simp_all
  then have plan: "apply_plan (three_way sample_definition moved_template sample_definition) moved_template sample_definition = Inr sample_definition"
    by (simp add: apply_plan_def has_conflicts_def)
  have "validate_definition (\<lambda>_. True) sample_definition = Inr ()"
    using sample_definition_wf by (simp add: validate_definition_def definition_details_Nil)
  then have "\<exists>row dd d. create_schema (\<lambda>_. True) 11 5 one_schema 9 3 sample_definition (Some 77) (Some moved_template) = Inr ((row, dd), d)"
    by (simp add: create_schema_def Let_def insert_schema_def inherited_origin_def mark_active_def active_versions_def
        select_where_def latest_by_def latest_version_def schema_key_def one_schema_def followed_schema_def empty_db_def
        update_where_def retire_def sample_name wrap32_def)
  moreover have "id_store (lb_identity follower) = one_schema" "sc_definition followed_schema = sample_definition"
    by (simp_all add: follower_def followed_schema_def)
  ultimately show ?thesis using plan by (auto simp: merge_apply_def follower_sides Let_def)
qed

theorem merge_settles_witness:
  "\<exists>row dd sm s' plan. merge_apply (\<lambda>_. True) (\<lambda>_. Some moved_template) 11 5 follower 9 3 10 = Inr ((row, dd, sm), s') \<and>
     merge_preview (\<lambda>_. Some moved_template) s' 9 3 (sc_id row) = Inr plan \<and>
     map fm_verdict (pl_fields plan) = replicate (length (pl_fields plan)) KeepLocal"
  using follower_merges merge_settles by meson

section \<open>Relation types are not compared\<close>

text \<open>
  A merge drops what the template changed in its relation types: the new version keeps the
  relation types of the old one whatever the template's are, while the template's whole definition is recorded as the
  new merge base and the schema is marked as up to date, so that the change is not offered again.
\<close>

theorem relation_changes_dropped:
  assumes "merge_sides fv s t w sid = Inr (base, upstream, schema, tmpl)"
    and "merge_apply p fv i now s t w sid = Inr ((row, dd, sm), s')"
  shows "md_relation_types (sc_definition row) = md_relation_types (sc_definition schema) \<and>
    (\<exists>stored. get_by_id (id_store (lb_identity s')) w (sc_id row) = Inr stored \<and>
      sc_origin_snapshot stored = Some upstream \<and> sc_origin_updated_at stored = Some now) \<and>
    three_way base (upstream\<lparr>md_relation_types := r\<rparr>) (sc_definition schema) = three_way base upstream (sc_definition schema)"
proof -
  obtain base' upstream' schema' tmpl' merged d d' where sides: "merge_sides fv s t w sid = Inr (base', upstream', schema', tmpl')"
    and plan': "apply_plan (three_way base' upstream' (sc_definition schema')) upstream' (sc_definition schema') = Inr merged"
    and c': "create_schema p i now (id_store (lb_identity s)) t w merged (Some tmpl') (Some upstream') = Inr ((row, dd), d)"
    by (rule merge_apply_Inr [OF assms(2)])
  have eqs: "base' = base" "upstream' = upstream" "schema' = schema" "tmpl' = tmpl" using sides assms(1) by simp_all
  note plan = plan' [unfolded eqs] and c = c' [unfolded eqs]
  have "md_relation_types merged = md_relation_types (sc_definition schema)"
    using plan by (auto simp: apply_plan_def fold_apply_field split: if_splits)
  moreover have "three_way_type base (upstream\<lparr>md_relation_types := r\<rparr>) (sc_definition schema) =
      three_way_type base upstream (sc_definition schema)"
    by (rule ext) (simp add: three_way_type_def field_of_def type_fields_def)
  then have "three_way base (upstream\<lparr>md_relation_types := r\<rparr>) (sc_definition schema) = three_way base upstream (sc_definition schema)"
    by (simp add: three_way_def)
  ultimately show ?thesis
    using merge_apply_stored(1) [OF assms(2)] create_schema_origin(2) [OF c] create_schema_Inr(7) [OF c] by simp
qed

theorem relation_changes_dropped_witness:
  "\<exists>row dd sm s'. merge_apply (\<lambda>_. True) (\<lambda>_. Some moved_template) 11 5 follower 9 3 10 = Inr ((row, dd, sm), s') \<and>
     md_relation_types (sc_definition row) = md_relation_types sample_definition \<and>
     md_relation_types moved_template \<noteq> md_relation_types sample_definition"
proof -
  obtain row dd sm s' where m: "merge_apply (\<lambda>_. True) (\<lambda>_. Some moved_template) 11 5 follower 9 3 10 = Inr ((row, dd, sm), s')"
    using follower_merges by blast
  have "md_relation_types (sc_definition row) = md_relation_types (sc_definition followed_schema)"
    using relation_changes_dropped [OF follower_sides m, of "[]"] by simp
  moreover have "md_relation_types moved_template \<noteq> md_relation_types sample_definition"
    by (simp add: moved_template_def sample_definition_def)
  ultimately show ?thesis using m by (auto simp: followed_schema_def)
qed

end
