(* ===== verification/Billing.thy ===== *)
theory Billing
  imports Memberships
begin

text \<open>
  \<open>ee/models/stripe_events.rs\<close> with \<open>stripe_events/apply.rs\<close>, \<open>ee/models/tenant_billing.rs\<close>,
  \<open>ee/models/compute_credit_ledger.rs\<close> and the plans of \<open>ee/data/plan.rs\<close>: what a payment event does to a
  tenant's plan, what a plan allows, and the credit ledger of a workspace.

  \<open>Uuid::parse_str\<close> and chrono's \<open>from_timestamp\<close> are parameters.  The lemmas show that duplicated and
  reordered deliveries leave the plan of the newest event, that debits never overdraw the ledger, and that
  a tenant has no plan between its checkout and its first subscription event.
\<close>

section \<open>Plans\<close>

datatype plan = PlanFree | PlanPro | PlanTeam

datatype priority_tier = PriorityLow | PriorityNormal | PriorityHigh

record compute_policy =
  cp_priority :: priority_tier
  cp_queue_start_objective_seconds :: "nat option"
  cp_base_official_concurrency :: nat
  cp_burst_ceiling :: nat

record plan_caps =
  pc_max_workspaces :: "int option"
  pc_default_max_entities :: "int option"

record stripe_price_mapping =
  pm_pro_price_id :: "string option"
  pm_team_price_id :: "string option"

fun plan_as_str :: "plan \<Rightarrow> string" where
  "plan_as_str PlanFree = ''free''"
| "plan_as_str PlanPro = ''pro''"
| "plan_as_str PlanTeam = ''team''"

definition plan_from_db_str :: "string \<Rightarrow> plan result" where
  "plan_from_db_str value =
     (if value = ''free'' then Inr PlanFree else if value = ''pro'' then Inr PlanPro
      else if value = ''team'' \<or> value = ''enterprise'' then Inr PlanTeam
      else Inl (Internal ''unknown plan value: {}''))"

definition from_stripe_price_id :: "string \<Rightarrow> stripe_price_mapping \<Rightarrow> plan option" where
  "from_stripe_price_id price_id mapping =
     (if pm_pro_price_id mapping = Some price_id then Some PlanPro
      else if pm_team_price_id mapping = Some price_id then Some PlanTeam else None)"

definition caps :: "plan \<Rightarrow> plan_caps" where
  "caps p = (case p of
     PlanFree \<Rightarrow> \<lparr>pc_max_workspaces = Some 1, pc_default_max_entities = Some 500\<rparr>
   | PlanPro \<Rightarrow> \<lparr>pc_max_workspaces = Some 5, pc_default_max_entities = Some 50000\<rparr>
   | PlanTeam \<Rightarrow> \<lparr>pc_max_workspaces = None, pc_default_max_entities = None\<rparr>)"

definition compute_policy_of :: "plan \<Rightarrow> compute_policy" where
  "compute_policy_of p =
     (let (priority, objective, base) = (case p of
            PlanFree \<Rightarrow> (PriorityLow, None, 1)
          | PlanPro \<Rightarrow> (PriorityNormal, Some 60, 4)
          | PlanTeam \<Rightarrow> (PriorityHigh, Some 15, 8))
      in \<lparr>cp_priority = priority, cp_queue_start_objective_seconds = objective,
          cp_base_official_concurrency = base, cp_burst_ceiling = base + (base + 1) div 2\<rparr>)"

text \<open>The claims of a verified licence key.  Verification itself is the JWT library's.\<close>

record licence_claims =
  lc_sub :: string
  lc_plan :: string
  lc_exp :: int

type_synonym licence_state = "licence_claims option"

definition is_active_at :: "licence_state \<Rightarrow> int \<Rightarrow> bool" where
  "is_active_at l now = (case l of None \<Rightarrow> False | Some c \<Rightarrow> lc_exp c > now)"

definition active_plan_at :: "licence_state \<Rightarrow> int \<Rightarrow> plan option" where
  "active_plan_at l now =
     (case l of
        None \<Rightarrow> None
      | Some c \<Rightarrow>
          if lc_exp c > now then (case plan_from_db_str (lc_plan c) of Inr p \<Rightarrow> Some p | Inl _ \<Rightarrow> None)
          else None)"

datatype plan_policy = PolicyDisabled | PolicyEnabled

definition plan_policy_resolve :: "bool \<Rightarrow> licence_state option \<Rightarrow> int \<Rightarrow> plan_policy" where
  "plan_policy_resolve enabled licence now =
     (if enabled \<and> (\<exists>l \<in> set_option licence. is_active_at l now) then PolicyEnabled else PolicyDisabled)"

section \<open>State\<close>

record tenant_billing_row =
  tb_tenant_id :: uuid
  tb_plan :: "string option"
  tb_stripe_customer_id :: "string option"

record stripe_event_row =
  se_event_id :: string
  se_event_type :: string
  se_customer_id :: "string option"
  se_stripe_created :: instant

datatype transaction_type = Earn | Spend

record ledger_row =
  le_workspace_id :: uuid
  le_amount :: int
  le_transaction_type :: transaction_type
  le_created_at :: instant

record billing_db =
  bg_identity :: identity_db
  bg_billing :: "tenant_billing_row list"
  bg_events :: "stripe_event_row list"
  bg_ledger :: "ledger_row list"

text \<open>
  What the process holds: whether plan rules were switched on (\<open>None\<close> when the setting was never
  installed) and the licence.
\<close>

record deployment =
  dp_plan_policy :: "bool option"
  dp_licence :: "licence_state option"

definition plan_policy_current :: "deployment \<Rightarrow> int \<Rightarrow> plan_policy result" where
  "plan_policy_current dep now =
     rbind (ok_or (dp_plan_policy dep) (Internal ''plan policy missing'')) (\<lambda>enabled.
       Inr (plan_policy_resolve enabled (dp_licence dep) now))"

section \<open>Billing rows\<close>

definition get_billing :: "billing_db \<Rightarrow> uuid \<Rightarrow> tenant_billing_row option" where
  "get_billing s tenant_id = find_row (\<lambda>b. tb_tenant_id b = tenant_id) (bg_billing s)"

definition get_by_stripe_customer :: "billing_db \<Rightarrow> string \<Rightarrow> tenant_billing_row option" where
  "get_by_stripe_customer s customer_id =
     find_row (\<lambda>b. tb_stripe_customer_id b = Some customer_id) (bg_billing s)"

text \<open>\<open>INSERT .. ON CONFLICT (tenant_id) DO UPDATE\<close>, with the table's foreign key on the tenant.\<close>

definition upsert_billing ::
  "billing_db \<Rightarrow> tenant_billing_row \<Rightarrow> (tenant_billing_row \<Rightarrow> tenant_billing_row) \<Rightarrow> billing_db result" where
  "upsert_billing s row change =
     (if tb_tenant_id row \<notin> tn_id ` set (id_tenants (bg_identity s)) then Inl (Internal ''constraint'')
      else if get_billing s (tb_tenant_id row) = None then Inr (s\<lparr>bg_billing := bg_billing s @ [row]\<rparr>)
      else Inr (s\<lparr>bg_billing := update_where (\<lambda>b. tb_tenant_id b = tb_tenant_id row) change (bg_billing s)\<rparr>))"

text \<open>The customer column is unique.\<close>

definition link_stripe_customer :: "billing_db \<Rightarrow> uuid \<Rightarrow> string \<Rightarrow> billing_db result" where
  "link_stripe_customer s tenant_id customer_id =
     (if \<exists>b \<in> set (bg_billing s). tb_stripe_customer_id b = Some customer_id \<and> tb_tenant_id b \<noteq> tenant_id
      then Inl (Internal ''constraint'')
      else upsert_billing s \<lparr>tb_tenant_id = tenant_id, tb_plan = None, tb_stripe_customer_id = Some customer_id\<rparr>
             (\<lambda>b. b\<lparr>tb_stripe_customer_id := Some customer_id\<rparr>))"

definition set_plan :: "billing_db \<Rightarrow> uuid \<Rightarrow> string \<Rightarrow> billing_db result" where
  "set_plan s tenant_id p =
     upsert_billing s \<lparr>tb_tenant_id = tenant_id, tb_plan = Some p, tb_stripe_customer_id = None\<rparr>
       (\<lambda>b. b\<lparr>tb_plan := Some p\<rparr>)"

definition plan_for_tenant :: "deployment \<Rightarrow> int \<Rightarrow> billing_db \<Rightarrow> uuid \<Rightarrow> plan result" where
  "plan_for_tenant dep now s tenant_id =
     (case Option.bind (dp_licence dep) (\<lambda>l. active_plan_at l now) of
        Some p \<Rightarrow> Inr p
      | None \<Rightarrow>
          (case get_billing s tenant_id of
             None \<Rightarrow> Inr PlanFree
           | Some b \<Rightarrow> rbind (ok_or (tb_plan b) (Internal ''billing plan is missing'')) plan_from_db_str))"

section \<open>Payment events\<close>

definition is_event_processed :: "billing_db \<Rightarrow> string \<Rightarrow> bool" where
  "is_event_processed s event_id = (\<exists>e \<in> set (bg_events s). se_event_id e = event_id)"

definition is_stale_for_customer :: "billing_db \<Rightarrow> string \<Rightarrow> instant \<Rightarrow> bool" where
  "is_stale_for_customer s customer_id created =
     (case latest_by se_stripe_created (select_where (\<lambda>e. se_customer_id e = Some customer_id) (bg_events s)) of
        None \<Rightarrow> False
      | Some row \<Rightarrow> created < se_stripe_created row)"

definition record_processed_event ::
  "billing_db \<Rightarrow> string \<Rightarrow> string \<Rightarrow> string option \<Rightarrow> instant \<Rightarrow> billing_db" where
  "record_processed_event s event_id event_type customer_id created =
     (if is_event_processed s event_id then s
      else s\<lparr>bg_events := bg_events s @ [\<lparr>se_event_id = event_id, se_event_type = event_type,
               se_customer_id = customer_id, se_stripe_created = created\<rparr>]\<rparr>)"

text \<open>\<open>Value::get\<close> with a key and with an index, and \<open>Value::as_str\<close>.\<close>

fun value_get :: "json \<Rightarrow> string \<Rightarrow> json option" where
  "value_get (JObj m) k = bt_get m k"
| "value_get _ k = None"

fun value_index :: "json \<Rightarrow> nat \<Rightarrow> json option" where
  "value_index (JArr vs) i = (if i < length vs then Some (vs ! i) else None)"
| "value_index _ i = None"

fun value_as_str :: "json \<Rightarrow> string option" where
  "value_as_str (JStr t) = Some t"
| "value_as_str _ = None"

definition get_str :: "json \<Rightarrow> string \<Rightarrow> string option" where
  "get_str v k = Option.bind (value_get v k) value_as_str"

record verified_stripe_event =
  ev_id :: string
  ev_type :: string
  ev_created :: int
  ev_object :: json

definition resolve_tenant_by_customer :: "billing_db \<Rightarrow> json \<Rightarrow> uuid option" where
  "resolve_tenant_by_customer s object =
     Option.bind (get_str object ''customer'') (\<lambda>customer_id.
       map_option tb_tenant_id (get_by_stripe_customer s customer_id))"

definition unlinked_customer :: yorishiro_error where
  "unlinked_customer = BackendUnavailable ''subscription customer is not linked yet; retry after checkout completes''"

definition event_price_id :: "json \<Rightarrow> string option" where
  "event_price_id object =
     Option.bind (value_get object ''items'') (\<lambda>v.
     Option.bind (value_get v ''data'') (\<lambda>v.
     Option.bind (value_index v 0) (\<lambda>v.
     Option.bind (value_get v ''price'') (\<lambda>v.
     Option.bind (value_get v ''id'') value_as_str))))"

definition subscription_types :: "string list" where
  "subscription_types = [''customer.subscription.created'', ''customer.subscription.updated'',
     ''customer.subscription.deleted'']"

definition event_customer :: "verified_stripe_event \<Rightarrow> string option" where
  "event_customer event =
     (if ev_type event \<in> set subscription_types then get_str (ev_object event) ''customer'' else None)"

text \<open>
  The match on the event type: \<open>None\<close> is an early return that leaves the event unrecorded.
\<close>

definition event_effect ::
  "(string \<Rightarrow> uuid option) \<Rightarrow> stripe_price_mapping \<Rightarrow> billing_db \<Rightarrow> verified_stripe_event \<Rightarrow> billing_db option result" where
  "event_effect parse_uuid mapping s event =
     (let object = ev_object event in
      if ev_type event = ''checkout.session.completed'' then
        (case (Option.bind (get_str object ''client_reference_id'') parse_uuid, get_str object ''customer'') of
           (Some tenant_id, Some customer_id) \<Rightarrow> rbind (link_stripe_customer s tenant_id customer_id) (\<lambda>s'. Inr (Some s'))
         | _ \<Rightarrow> Inr None)
      else if ev_type event = ''customer.subscription.created'' \<or> ev_type event = ''customer.subscription.updated'' then
        (case resolve_tenant_by_customer s object of
           None \<Rightarrow> Inl unlinked_customer
         | Some tenant_id \<Rightarrow>
             (case Option.bind (event_price_id object) (\<lambda>i. from_stripe_price_id i mapping) of
                None \<Rightarrow> Inr None
              | Some p \<Rightarrow> rbind (set_plan s tenant_id (plan_as_str p)) (\<lambda>s'. Inr (Some s'))))
      else if ev_type event = ''customer.subscription.deleted'' then
        (case resolve_tenant_by_customer s object of
           None \<Rightarrow> Inl unlinked_customer
         | Some tenant_id \<Rightarrow> rbind (set_plan s tenant_id (plan_as_str PlanFree)) (\<lambda>s'. Inr (Some s')))
      else Inr (Some s))"

definition apply_stripe_event ::
  "(string \<Rightarrow> uuid option) \<Rightarrow> (int \<Rightarrow> instant option) \<Rightarrow> stripe_price_mapping \<Rightarrow> billing_db \<Rightarrow>
   verified_stripe_event \<Rightarrow> billing_db result" where
  "apply_stripe_event parse_uuid from_timestamp mapping s event =
     (if is_event_processed s (ev_id event) then Inr s
      else case from_timestamp (ev_created event) of
        None \<Rightarrow> Inr s
      | Some created \<Rightarrow>
          if (case event_customer event of None \<Rightarrow> False | Some c \<Rightarrow> is_stale_for_customer s c created) then Inr s
          else rbind (event_effect parse_uuid mapping s event) (\<lambda>applied.
            case applied of
              None \<Rightarrow> Inr s
            | Some s' \<Rightarrow> Inr (record_processed_event s' (ev_id event) (ev_type event) (event_customer event) created)))"

section \<open>The credit ledger\<close>

definition insert_ledger_row :: "instant \<Rightarrow> billing_db \<Rightarrow> uuid \<Rightarrow> int \<Rightarrow> transaction_type \<Rightarrow> billing_db result" where
  "insert_ledger_row now s workspace_id amount tt =
     (if workspace_id \<notin> wk_id ` set (db_workspaces (id_store (bg_identity s))) then Inl (Internal ''constraint'')
      else Inr (s\<lparr>bg_ledger := bg_ledger s @ [\<lparr>le_workspace_id = workspace_id, le_amount = amount,
                   le_transaction_type = tt, le_created_at = now\<rparr>]\<rparr>))"

definition earn :: "instant \<Rightarrow> billing_db \<Rightarrow> uuid \<Rightarrow> int \<Rightarrow> billing_db result" where
  "earn now s workspace_id amount =
     (if amount \<le> 0 then Inl (ValidationFailed ''earn amount must be positive'' [])
      else insert_ledger_row now s workspace_id amount Earn)"

definition spend :: "instant \<Rightarrow> billing_db \<Rightarrow> uuid \<Rightarrow> int \<Rightarrow> billing_db result" where
  "spend now s workspace_id amount =
     (if amount \<le> 0 then Inl (ValidationFailed ''spend amount must be positive'' [])
      else insert_ledger_row now s workspace_id (- amount) Spend)"

definition ledger_total :: "billing_db \<Rightarrow> uuid \<Rightarrow> int" where
  "ledger_total s workspace_id =
     sum_list (map le_amount (select_where (\<lambda>r. le_workspace_id r = workspace_id) (bg_ledger s)))"

text \<open>The sum is cast to \<open>bigint\<close>: outside its range the statement fails.\<close>

definition balance :: "billing_db \<Rightarrow> uuid \<Rightarrow> int result" where
  "balance s workspace_id =
     (let total = ledger_total s workspace_id
      in if - (2 ^ 63) \<le> total \<and> total < 2 ^ 63 then Inr total else Inl (Internal ''bigint out of range''))"

definition debit_actual :: "instant \<Rightarrow> billing_db \<Rightarrow> uuid \<Rightarrow> int \<Rightarrow> billing_db result" where
  "debit_actual now s workspace_id amount =
     (if amount \<le> 0 then Inl (ValidationFailed ''actual credit cost must be positive'' [])
      else rbind (balance s workspace_id) (\<lambda>available.
        if available < amount then Inl (ValidationFailed ''insufficient compute credits'' [])
        else insert_ledger_row now s workspace_id (- amount) Spend))"

definition recent :: "billing_db \<Rightarrow> uuid \<Rightarrow> nat \<Rightarrow> (uuid \<times> int \<times> transaction_type) list" where
  "recent s workspace_id limit =
     map (\<lambda>r. (le_workspace_id r, le_amount r, le_transaction_type r))
       (take limit (sort_key (\<lambda>r. - le_created_at r)
         (select_where (\<lambda>r. le_workspace_id r = workspace_id) (bg_ledger s))))"

section \<open>Plans are read back as they were written\<close>

lemma plan_from_db_str_as_str [simp]: "plan_from_db_str (plan_as_str p) = Inr p"
  by (cases p) (simp_all add: plan_from_db_str_def)

interpretation billing_plan: key_preserving tb_stripe_customer_id "\<lambda>b. b\<lparr>tb_plan := p\<rparr>"
  by unfold_locales simp

interpretation billing_tenant: key_preserving tb_tenant_id "\<lambda>b. b\<lparr>tb_plan := p\<rparr>"
  by unfold_locales simp

definition linked :: "billing_db \<Rightarrow> string \<Rightarrow> uuid \<Rightarrow> bool" where
  "linked s customer_id tenant_id \<longleftrightarrow>
     tenant_id \<in> tn_id ` set (id_tenants (bg_identity s)) \<and>
     map_option tb_tenant_id (get_by_stripe_customer s customer_id) = Some tenant_id"

text \<open>Setting the plan of a linked tenant succeeds, keeps the link, and is what the tenant then has.\<close>

lemma set_plan_linked:
  assumes "linked s c t"
  obtains s' where "set_plan s t p = Inr s'" "linked s' c t" "bg_events s' = bg_events s"
    "map_option tb_plan (get_billing s' t) = Some (Some p)"
proof -
  let ?t = "update_where (\<lambda>b. tb_tenant_id b = t) (\<lambda>b. b\<lparr>tb_plan := Some p\<rparr>) (bg_billing s)"
  from assms obtain b where b: "get_by_stripe_customer s c = Some b" "tb_tenant_id b = t"
    and known: "t \<in> tn_id ` set (id_tenants (bg_identity s))"
    by (auto simp: linked_def)
  then have "get_billing s t \<noteq> None"
    by (auto simp: get_billing_def get_by_stripe_customer_def find_row_None dest!: find_row_Some)
  then obtain b0 where b0: "find_row (\<lambda>b. tb_tenant_id b = t) (bg_billing s) = Some b0"
    by (auto simp: get_billing_def)
  show thesis
  proof (rule that)
    show "set_plan s t p = Inr (s\<lparr>bg_billing := ?t\<rparr>)"
      using known b0 by (simp add: set_plan_def upsert_billing_def get_billing_def)
    show "linked (s\<lparr>bg_billing := ?t\<rparr>) c t"
      using known b
      by (auto simp: linked_def get_by_stripe_customer_def billing_plan.find_key_update)
    show "map_option tb_plan (get_billing (s\<lparr>bg_billing := ?t\<rparr>) t) = Some (Some p)"
      using b0 find_row_Some [OF b0] by (simp add: get_billing_def billing_tenant.find_key_update)
  qed simp
qed

section \<open>Deliveries in any order\<close>

text \<open>The plan a subscription event stands for, and a sequence of deliveries.\<close>

definition settled_plan :: "stripe_price_mapping \<Rightarrow> verified_stripe_event \<Rightarrow> plan option" where
  "settled_plan mapping event =
     (if ev_type event = ''customer.subscription.deleted'' then Some PlanFree
      else Option.bind (event_price_id (ev_object event)) (\<lambda>i. from_stripe_price_id i mapping))"

primrec deliver ::
  "(string \<Rightarrow> uuid option) \<Rightarrow> (int \<Rightarrow> instant option) \<Rightarrow> stripe_price_mapping \<Rightarrow> billing_db \<Rightarrow>
   verified_stripe_event list \<Rightarrow> billing_db result" where
  "deliver parse_uuid from_timestamp mapping s [] = Inr s"
| "deliver parse_uuid from_timestamp mapping s (e # es) =
     rbind (apply_stripe_event parse_uuid from_timestamp mapping s e) (\<lambda>s'.
       deliver parse_uuid from_timestamp mapping s' es)"

lemma event_effect_settled:
  assumes "event_customer e = Some c" and "settled_plan m e = Some p" and "linked s c t"
  shows "event_effect pu m s e = rbind (set_plan s t (plan_as_str p)) (\<lambda>s'. Inr (Some s'))"
proof -
  have "resolve_tenant_by_customer s (ev_object e) = Some t"
    using assms(1,3) by (auto simp: resolve_tenant_by_customer_def event_customer_def linked_def split: if_splits)
  then show ?thesis
    using assms(1,2)
    by (auto simp: event_effect_def event_customer_def subscription_types_def settled_plan_def Let_def split: if_splits)
qed

lemma stale_iff:
  "is_stale_for_customer s c created \<longleftrightarrow>
     (\<exists>r \<in> set (bg_events s). se_customer_id r = Some c \<and> created < se_stripe_created r)"
proof (cases "latest_by se_stripe_created (select_where (\<lambda>e. se_customer_id e = Some c) (bg_events s))")
  case None
  then have "\<not> is_stale_for_customer s c created" by (simp add: is_stale_for_customer_def)
  then show ?thesis using None by (auto simp: latest_by_None select_where_def filter_empty_conv)
next
  case (Some r)
  show ?thesis
    using latest_by_Some [OF Some] Some by (fastforce simp: is_stale_for_customer_def set_select_where)
qed

text \<open>
  What holds after the events \<open>D\<close> of a customer have been delivered at least once: the tenant has the
  plan of a newest one, which is recorded.
\<close>

definition settled ::
  "(verified_stripe_event \<Rightarrow> instant) \<Rightarrow> stripe_price_mapping \<Rightarrow> string \<Rightarrow> uuid \<Rightarrow> billing_db \<Rightarrow>
   verified_stripe_event set \<Rightarrow> bool" where
  "settled stamp m c t s D \<longleftrightarrow>
     (\<forall>r \<in> set (bg_events s). se_customer_id r = Some c \<longrightarrow> (\<exists>e \<in> D. se_stripe_created r = stamp e)) \<and>
     (D \<noteq> {} \<longrightarrow> (\<exists>n \<in> D. (\<forall>e \<in> D. stamp e \<le> stamp n) \<and>
        (\<exists>r \<in> set (bg_events s). se_customer_id r = Some c \<and> se_stripe_created r = stamp n) \<and>
        map_option tb_plan (get_billing s t) = Some (map_option plan_as_str (settled_plan m n))))"

lemma settled_newest:
  "settled stamp m c t s D \<Longrightarrow> n \<in> D \<Longrightarrow>
   \<exists>x \<in> D. stamp n \<le> stamp x \<and> map_option tb_plan (get_billing s t) = Some (map_option plan_as_str (settled_plan m x))"
  unfolding settled_def by (metis empty_iff)

lemma settled_stale:
  assumes "settled stamp m c t s D" and "is_stale_for_customer s c (stamp e)"
  shows "settled stamp m c t s (insert e D)"
  using assms by (fastforce simp: settled_def stale_iff)

lemma settled_applied:
  assumes "settled stamp m c t s D" and "\<not> is_stale_for_customer s c (stamp e)"
    and "bg_events s' = bg_events s @ [r]" "se_customer_id r = Some c" "se_stripe_created r = stamp e"
    and "map_option tb_plan (get_billing s' t) = Some (map_option plan_as_str (settled_plan m e))"
  shows "settled stamp m c t s' (insert e D)"
proof -
  have "stamp x \<le> stamp e" if x: "x \<in> D" for x
  proof -
    from assms(1) x obtain n q where "stamp x \<le> stamp n" "q \<in> set (bg_events s)" "se_customer_id q = Some c"
      "se_stripe_created q = stamp n"
      by (auto simp: settled_def)
    then show ?thesis using assms(2) by (force simp: stale_iff)
  qed
  moreover have "\<exists>x \<in> insert e D. se_stripe_created q = stamp x"
    if "q \<in> set (bg_events s')" "se_customer_id q = Some c" for q
    using assms(1,3,5) that by (auto simp: settled_def)
  ultimately show ?thesis
    using assms(3-6) unfolding settled_def by fastforce
qed

lemma deliver_one:
  assumes "linked s c t" and "settled stamp m c t s D"
    and e: "event_customer e = Some c" "settled_plan m e \<noteq> None" "ft (ev_created e) = Some (stamp e)"
    and known: "\<And>x. x \<in> U \<Longrightarrow> is_event_processed s (ev_id x) \<Longrightarrow> x \<in> D"
    and U: "e \<in> U" "inj_on ev_id U"
  obtains s' where "apply_stripe_event pu ft m s e = Inr s'" "linked s' c t" "settled stamp m c t s' (insert e D)"
    "\<forall>x \<in> U. is_event_processed s' (ev_id x) \<longrightarrow> x \<in> insert e D"
proof (cases "is_event_processed s (ev_id e) \<or> is_stale_for_customer s c (stamp e)")
  case True
  have "apply_stripe_event pu ft m s e = Inr s"
    using True e by (auto simp: apply_stripe_event_def)
  moreover have "settled stamp m c t s (insert e D)"
    using True assms(2) known [of e] U(1) by (auto simp: insert_absorb intro: settled_stale)
  ultimately show thesis using that [of s] assms(1) known by blast
next
  case False
  obtain p where p: "settled_plan m e = Some p" using e(2) by blast
  obtain s1 where s1: "set_plan s t (plan_as_str p) = Inr s1" "linked s1 c t" "bg_events s1 = bg_events s"
    "map_option tb_plan (get_billing s1 t) = Some (Some (plan_as_str p))"
    by (rule set_plan_linked [OF assms(1)])
  let ?r = "\<lparr>se_event_id = ev_id e, se_event_type = ev_type e, se_customer_id = Some c, se_stripe_created = stamp e\<rparr>"
  let ?s' = "s1\<lparr>bg_events := bg_events s @ [?r]\<rparr>"
  have fresh: "\<not> is_event_processed s1 (ev_id e)"
    using False s1(3) by (simp add: is_event_processed_def)
  show thesis
  proof (rule that)
    show "apply_stripe_event pu ft m s e = Inr ?s'"
      using False e fresh s1(1,3) event_effect_settled [OF e(1) p assms(1), of pu]
      by (simp add: apply_stripe_event_def record_processed_event_def)
    show "linked ?s' c t"
      using s1(2) by (simp add: linked_def get_by_stripe_customer_def)
    show "settled stamp m c t ?s' (insert e D)"
      by (rule settled_applied [OF assms(2), where r = ?r]) (use False p s1(4) in \<open>simp_all add: get_billing_def\<close>)
    show "\<forall>x \<in> U. is_event_processed ?s' (ev_id x) \<longrightarrow> x \<in> insert e D"
      using known U by (auto simp: is_event_processed_def dest: inj_onD)
  qed
qed

lemma deliver_settles:
  assumes "linked s c t" and "settled stamp m c t s D"
    and "\<And>e. e \<in> set es \<Longrightarrow>
      event_customer e = Some c \<and> settled_plan m e \<noteq> None \<and> ft (ev_created e) = Some (stamp e)"
    and "\<And>x. x \<in> U \<Longrightarrow> is_event_processed s (ev_id x) \<Longrightarrow> x \<in> D"
    and "set es \<subseteq> U" "inj_on ev_id U"
  shows "\<exists>s'. deliver pu ft m s es = Inr s' \<and> settled stamp m c t s' (D \<union> set es)"
  using assms
proof (induction es arbitrary: s D)
  case Nil
  then show ?case by simp
next
  case (Cons e es)
  have e: "event_customer e = Some c" "settled_plan m e \<noteq> None" "ft (ev_created e) = Some (stamp e)" "e \<in> U"
    using Cons.prems(3) [of e] Cons.prems(5) by auto
  obtain s' where s': "apply_stripe_event pu ft m s e = Inr s'" "linked s' c t"
    "settled stamp m c t s' (insert e D)"
    "\<forall>x \<in> U. is_event_processed s' (ev_id x) \<longrightarrow> x \<in> insert e D"
    by (rule deliver_one [where pu = pu and ft = ft, OF Cons.prems(1,2) e(1-3) Cons.prems(4) e(4) Cons.prems(6)])
  have "\<exists>s''. deliver pu ft m s' es = Inr s'' \<and> settled stamp m c t s'' (insert e D \<union> set es)"
    by (rule Cons.IH) (use s' Cons.prems(3,5,6) in auto)
  then show ?case using s'(1) by simp
qed


section \<open>The ledger is never overdrawn\<close>

inductive ledger_step :: "billing_db \<Rightarrow> billing_db \<Rightarrow> bool" where
  earned: "earn now s w a = Inr s' \<Longrightarrow> ledger_step s s'"
| debited: "debit_actual now s w a = Inr s' \<Longrightarrow> ledger_step s s'"

lemma insert_ledger_total:
  "insert_ledger_row now s w a tt = Inr s' \<Longrightarrow>
   ledger_total s' v = ledger_total s v + (if v = w then a else 0)"
  by (auto simp: insert_ledger_row_def ledger_total_def select_where_def split: if_splits)

lemma ledger_step_total: "ledger_step s s' \<Longrightarrow> 0 \<le> ledger_total s v \<Longrightarrow> 0 \<le> ledger_total s' v"
proof (induction rule: ledger_step.induct)
  case (earned now s w a s')
  then show ?case by (auto simp: earn_def guard_Inr_iff dest!: insert_ledger_total [where v = v])
next
  case (debited now s w a s')
  then have "insert_ledger_row now s w (- a) Spend = Inr s'" "a \<le> ledger_total s w"
    by (auto simp: debit_actual_def balance_def Let_def rbind_Inr_iff split: if_splits)
  then show ?case using debited(2) by (auto dest!: insert_ledger_total [where v = v])
qed

text \<open>
  Work that is paid for after it succeeded never overdraws a workspace: in every history of
  credits and debits of actual costs a balance that started at zero or more stays there.
\<close>

theorem ledger_never_overdrawn:
  assumes "ledger_step\<^sup>*\<^sup>* s s'" and "0 \<le> ledger_total s v"
  shows "0 \<le> ledger_total s' v"
  using assms by (induction rule: rtranclp_induct) (auto intro: ledger_step_total)

section \<open>Evaluation\<close>

definition acme_billing :: billing_db where
  "acme_billing = \<lparr>bg_identity = acme,
     bg_billing = [\<lparr>tb_tenant_id = 9, tb_plan = None, tb_stripe_customer_id = Some ''cus''\<rparr>],
     bg_events = [], bg_ledger = []\<rparr>"

definition unlicensed :: deployment where
  "unlicensed = \<lparr>dp_plan_policy = Some True, dp_licence = None\<rparr>"

definition price_mapping :: stripe_price_mapping where
  "price_mapping = \<lparr>pm_pro_price_id = Some ''price_pro'', pm_team_price_id = Some ''price_team''\<rparr>"

definition subscription_event :: "string \<Rightarrow> string \<Rightarrow> int \<Rightarrow> string \<Rightarrow> verified_stripe_event" where
  "subscription_event i kind created price =
     \<lparr>ev_id = i, ev_type = ''customer.subscription.'' @ kind, ev_created = created,
      ev_object = JObj [(''customer'', JStr ''cus''),
        (''items'', JObj [(''data'', JArr [JObj [(''price'', JObj [(''id'', JStr price)])]])])]\<rparr>"

lemmas billing_defs = acme_billing_def unlicensed_def price_mapping_def subscription_event_def acme_defs

lemmas billing_evals = billing_defs apply_stripe_event_def event_effect_def event_customer_def subscription_types_def
  get_str_def is_event_processed_def is_stale_for_customer_def latest_by_def select_where_def find_row_def
  resolve_tenant_by_customer_def get_by_stripe_customer_def event_price_id_def from_stripe_price_id_def set_plan_def
  upsert_billing_def get_billing_def update_where_def record_processed_event_def plan_for_tenant_def Let_def


theorem ledger_never_overdrawn_witness:
  "\<exists>s1 s2. earn 10 acme_billing 3 100 = Inr s1 \<and> debit_actual 11 s1 3 70 = Inr s2 \<and>
     0 \<le> ledger_total s2 3 \<and> debit_actual 12 s2 3 40 = Inl (ValidationFailed ''insufficient compute credits'' [])"
proof -
  obtain s1 where s1: "earn 10 acme_billing 3 100 = Inr s1"
    by (simp add: earn_def insert_ledger_row_def billing_defs)
  obtain s2 where s2: "debit_actual 11 s1 3 70 = Inr s2"
    using s1 by (auto simp: earn_def debit_actual_def balance_def ledger_total_def insert_ledger_row_def billing_evals)
  have "ledger_step\<^sup>*\<^sup>* acme_billing s2"
    using s1 s2 by (meson ledger_step.intros rtranclp.rtrancl_into_rtrancl rtranclp.rtrancl_refl)
  then have "0 \<le> ledger_total s2 3"
    by (rule ledger_never_overdrawn) (simp add: ledger_total_def select_where_def billing_defs)
  moreover have "debit_actual 12 s2 3 40 = Inl (ValidationFailed ''insufficient compute credits'' [])"
    using s1 s2 by (auto simp: earn_def debit_actual_def balance_def ledger_total_def insert_ledger_row_def billing_evals)
  ultimately show ?thesis using s1 s2 by blast
qed

section \<open>A checkout leaves the tenant without a plan\<close>

text \<open>
  The plan of a tenant without a billing row is Free, but \<open>checkout.session.completed\<close> creates a
  row without a plan.  From then on, until a subscription event with a mapped price arrives, resolving the
  tenant's plan is an internal error wherever no current licence names a known plan: the paying tenant
  has less than the one that never paid.
\<close>

theorem checkout_leaves_no_plan:
  assumes "get_billing s t = None" and "t \<in> tn_id ` set (id_tenants (bg_identity s))"
    and "get_by_stripe_customer s c = None"
    and "ev_type e = ''checkout.session.completed''" "\<not> is_event_processed s (ev_id e)"
    and "ft (ev_created e) = Some created"
    and "get_str (ev_object e) ''client_reference_id'' = Some r" "pu r = Some t"
    and "get_str (ev_object e) ''customer'' = Some c"
    and "Option.bind (dp_licence dep) (\<lambda>l. active_plan_at l now) = None"
  shows "plan_for_tenant dep now s t = Inr PlanFree \<and>
    (\<exists>s'. apply_stripe_event pu ft m s e = Inr s' \<and>
       plan_for_tenant dep now s' t = Inl (Internal ''billing plan is missing''))"
proof -
  let ?row = "\<lparr>tb_tenant_id = t, tb_plan = None, tb_stripe_customer_id = Some c\<rparr>"
  have free: "\<not> (\<exists>b \<in> set (bg_billing s). tb_stripe_customer_id b = Some c \<and> tb_tenant_id b \<noteq> t)"
    using assms(3) by (auto simp: get_by_stripe_customer_def find_row_None)
  have link: "link_stripe_customer s t c = Inr (s\<lparr>bg_billing := bg_billing s @ [?row]\<rparr>)"
    using assms(1,2) free by (simp add: link_stripe_customer_def upsert_billing_def)
  have none: "find_row (\<lambda>b. tb_tenant_id b = t) (bg_billing s) = None"
    using assms(1) by (simp add: get_billing_def)
  have row: "find_row (\<lambda>b. tb_tenant_id b = t) (bg_billing s @ [?row]) = Some ?row"
    by (rule find_row_unique) (use none in \<open>auto simp: find_row_None\<close>)
  obtain s' where s': "apply_stripe_event pu ft m s e = Inr s'" "bg_billing s' = bg_billing s @ [?row]"
    using assms(4-9) link
    by (auto simp: apply_stripe_event_def event_effect_def event_customer_def subscription_types_def
        record_processed_event_def is_event_processed_def Let_def)
  have "plan_for_tenant dep now s' t = Inl (Internal ''billing plan is missing'')"
    using assms(10) s'(2) row by (simp add: plan_for_tenant_def get_billing_def)
  moreover have "plan_for_tenant dep now s t = Inr PlanFree"
    using assms(1,10) by (simp add: plan_for_tenant_def)
  ultimately show ?thesis using s'(1) by blast
qed

theorem checkout_leaves_no_plan_witness:
  "\<exists>s'. apply_stripe_event (\<lambda>_. Some 9) Some price_mapping (acme_billing\<lparr>bg_billing := []\<rparr>)
      \<lparr>ev_id = ''evt0'', ev_type = ''checkout.session.completed'', ev_created = 5,
       ev_object = JObj [(''client_reference_id'', JStr ''9''), (''customer'', JStr ''cus'')]\<rparr> = Inr s' \<and>
    plan_for_tenant unlicensed 50 s' 9 = Inl (Internal ''billing plan is missing'')"
  by (rule conjunct2 [OF checkout_leaves_no_plan [where c = "''cus''"]])
    (auto simp: billing_evals)

end
