(* ===== verification/Worker_Target.thy ===== *)
theory Worker_Target
  imports Schema_Store
begin

text \<open>
  \<open>src/workers/target.rs\<close>, \<open>src/workers/start.rs\<close> and the priorities of \<open>src/workers/queue.rs\<close>:
  which workers a queued job is for, the tags that carry the choice, and the targets a worker process
  names when it starts.

  Printing and parsing a UUID is the \<open>uuid\<close> crate's: the parameters \<open>hyphenated\<close> and \<open>parse_uuid\<close>.
  What the code relies on is that a printed id parses back.
\<close>

datatype worker_class = TenantPrivate | Official | Shared

fun worker_class_as_db_str :: "worker_class \<Rightarrow> string" where
  "worker_class_as_db_str TenantPrivate = ''tenant_private''"
| "worker_class_as_db_str Official = ''official''"
| "worker_class_as_db_str Shared = ''shared''"

fun priority :: "worker_class \<Rightarrow> int" where
  "priority TenantPrivate = 300"
| "priority Official = 200"
| "priority Shared = 100"

definition TAG_PREFIX :: string where "TAG_PREFIX = ''worker-target:''"

datatype worker_target = TargetShared | TargetOfficial | TargetTenant uuid

record invalid_worker_target =
  iv_tag :: string
  iv_reason :: string

fun target_class :: "worker_target \<Rightarrow> worker_class" where
  "target_class TargetShared = Shared"
| "target_class TargetOfficial = Official"
| "target_class (TargetTenant _) = TenantPrivate"

fun target_name :: "(uuid \<Rightarrow> string) \<Rightarrow> worker_target \<Rightarrow> string" where
  "target_name hyphenated TargetShared = ''shared''"
| "target_name hyphenated TargetOfficial = ''official''"
| "target_name hyphenated (TargetTenant t) = ''tenant:'' @ hyphenated t"

definition target_tag :: "(uuid \<Rightarrow> string) \<Rightarrow> worker_target \<Rightarrow> string" where
  "target_tag hyphenated t = TAG_PREFIX @ target_name hyphenated t"

definition target_queue :: "(uuid \<Rightarrow> string) \<Rightarrow> worker_target \<Rightarrow> string" where
  "target_queue hyphenated t = target_tag hyphenated t"

definition job_tag :: "(uuid \<Rightarrow> string) \<Rightarrow> worker_target \<Rightarrow> string" where
  "job_tag hyphenated t = replace_first ''worker-target:'' ''job-target:'' (target_tag hyphenated t)"

definition concurrency_key :: "(uuid \<Rightarrow> string) \<Rightarrow> worker_target \<Rightarrow> string" where
  "concurrency_key hyphenated t =
     worker_class_as_db_str (target_class t) @ '':'' @ target_name hyphenated t"

definition parse_tag ::
  "(uuid \<Rightarrow> string) \<Rightarrow> (string \<Rightarrow> uuid option) \<Rightarrow> string \<Rightarrow> invalid_worker_target + worker_target" where
  "parse_tag hyphenated parse_uuid tag =
     (let invalid = (\<lambda>reason. \<lparr>iv_tag = tag, iv_reason = reason\<rparr>) in
      rbind (ok_or (strip_prefix TAG_PREFIX tag) (invalid ''a worker tag must start with worker-target:'')) (\<lambda>name.
      if name = ''shared'' then Inr TargetShared
      else if name = ''official'' then Inr TargetOfficial
      else
        rbind (ok_or (strip_prefix ''tenant:'' name)
                 (invalid ''the target is not one of shared, official, or tenant'')) (\<lambda>i.
        rbind (ok_or (parse_uuid i) (invalid ''the tenant id is not a UUID'')) (\<lambda>tenant_id.
        if hyphenated tenant_id \<noteq> i
        then Inl (invalid ''the tenant id is not in lowercase hyphenated form'')
        else Inr (TargetTenant tenant_id)))))"

definition parse_job_tag ::
  "(uuid \<Rightarrow> string) \<Rightarrow> (string \<Rightarrow> uuid option) \<Rightarrow> string \<Rightarrow> invalid_worker_target + worker_target" where
  "parse_job_tag hyphenated parse_uuid tag =
     (case strip_prefix ''job-target:'' tag of
        Some name \<Rightarrow> parse_tag hyphenated parse_uuid (''worker-target:'' @ name)
      | None \<Rightarrow> Inl \<lparr>iv_tag = tag, iv_reason = ''a job tag must start with job-target:''\<rparr>)"

definition for_job :: "db \<Rightarrow> worker_class \<Rightarrow> uuid \<Rightarrow> worker_target result" where
  "for_job d c workspace_id =
     (case c of
        Shared \<Rightarrow> Inr TargetShared
      | Official \<Rightarrow> Inr TargetOfficial
      | TenantPrivate \<Rightarrow> rbind (get_workspace_tenant d workspace_id) (\<lambda>t. Inr (TargetTenant t)))"

fun start_targets ::
  "(uuid \<Rightarrow> string) \<Rightarrow> (string \<Rightarrow> uuid option) \<Rightarrow> string list \<Rightarrow> worker_target list \<Rightarrow>
   invalid_worker_target + worker_target list" where
  "start_targets hyphenated parse_uuid [] targets = Inr targets"
| "start_targets hyphenated parse_uuid (tag # tags) targets =
     rbind (parse_tag hyphenated parse_uuid tag) (\<lambda>t.
       start_targets hyphenated parse_uuid tags (if t \<in> set targets then targets else targets @ [t]))"

definition targets_for_start ::
  "(uuid \<Rightarrow> string) \<Rightarrow> (string \<Rightarrow> uuid option) \<Rightarrow> string list \<Rightarrow>
   invalid_worker_target + worker_target list" where
  "targets_for_start hyphenated parse_uuid tags =
     (if tags = [] then Inl \<lparr>iv_tag = [], iv_reason = ''a worker start names no target''\<rparr>
      else start_targets hyphenated parse_uuid tags [])"

section \<open>Starting workers\<close>

datatype start_mode = ServerOnly | ServerAndWorker | WorkerOnly "string list" | ServerAndScheduler
  | WorkerAndScheduler "string list" | StartAll

datatype worker_start = NoWorkers | StartTargets "worker_target list" | StartJobs "worker_target list"

text \<open>A \<open>StartError\<close> is the text of an invalid target, or the refusal of a combined start.\<close>

datatype start_error = StartInvalid invalid_worker_target | StartCombined

fun map_err :: "('e \<Rightarrow> 'f) \<Rightarrow> 'e + 'a \<Rightarrow> 'f + 'a" where
  "map_err f (Inl e) = Inl (f e)"
| "map_err f (Inr x) = Inr x"

fun parse_job_tags ::
  "(uuid \<Rightarrow> string) \<Rightarrow> (string \<Rightarrow> uuid option) \<Rightarrow> string list \<Rightarrow>
   invalid_worker_target + worker_target list" where
  "parse_job_tags hyphenated parse_uuid [] = Inr []"
| "parse_job_tags hyphenated parse_uuid (tag # tags) =
     rbind (parse_job_tag hyphenated parse_uuid tag) (\<lambda>t.
     rbind (parse_job_tags hyphenated parse_uuid tags) (\<lambda>ts. Inr (t # ts)))"

definition start_for_tags ::
  "(uuid \<Rightarrow> string) \<Rightarrow> (string \<Rightarrow> uuid option) \<Rightarrow> string list \<Rightarrow> start_error + worker_start" where
  "start_for_tags hyphenated parse_uuid tags =
     (if tags \<noteq> [] \<and> strip_prefix ''job-target:'' (hd tags) \<noteq> None
      then map_err StartInvalid
             (rbind (parse_job_tags hyphenated parse_uuid tags) (\<lambda>ts. Inr (StartJobs ts)))
      else map_err StartInvalid
             (rbind (targets_for_start hyphenated parse_uuid tags) (\<lambda>ts. Inr (StartTargets ts))))"

fun worker_start_from_mode ::
  "(uuid \<Rightarrow> string) \<Rightarrow> (string \<Rightarrow> uuid option) \<Rightarrow> start_mode \<Rightarrow> start_error + worker_start" where
  "worker_start_from_mode hyphenated parse_uuid (WorkerOnly tags) = start_for_tags hyphenated parse_uuid tags"
| "worker_start_from_mode hyphenated parse_uuid (WorkerAndScheduler tags) =
     start_for_tags hyphenated parse_uuid tags"
| "worker_start_from_mode hyphenated parse_uuid ServerAndWorker = Inl StartCombined"
| "worker_start_from_mode hyphenated parse_uuid StartAll = Inl StartCombined"
| "worker_start_from_mode hyphenated parse_uuid ServerOnly = Inr NoWorkers"
| "worker_start_from_mode hyphenated parse_uuid ServerAndScheduler = Inr NoWorkers"

definition worker_value :: "string \<Rightarrow> string option" where
  "worker_value arg =
     (case strip_prefix ''--worker='' arg of Some v \<Rightarrow> Some v | None \<Rightarrow> strip_prefix ''-w='' arg)"

text \<open>The tests of the loop body on one argument, in the order the code makes them.\<close>

datatype arg_kind = ArgAll | ArgWorker | ArgValue string | ArgOption | ArgWord

definition start_arg :: "string \<Rightarrow> arg_kind" where
  "start_arg arg =
     (if arg \<in> {''--all'', ''-a'', ''--server-and-worker'', ''-s''} then ArgAll
      else if arg \<in> {''--worker'', ''-w''} then ArgWorker
      else (case worker_value arg of
              Some v \<Rightarrow> ArgValue v
            | None \<Rightarrow> if take 1 arg = ''-'' then ArgOption else ArgWord))"

text \<open>The loop over the arguments after \<open>start\<close>: the tags so far and whether values may follow.\<close>

primrec start_args :: "string list \<Rightarrow> string list option \<Rightarrow> bool \<Rightarrow> start_mode option" where
  "start_args [] tags values = map_option WorkerOnly tags"
| "start_args (arg # args) tags values =
     (let so_far = (case tags of None \<Rightarrow> [] | Some ts \<Rightarrow> ts) in
      case start_arg arg of
        ArgAll \<Rightarrow> Some StartAll
      | ArgWorker \<Rightarrow> start_args args (Some so_far) True
      | ArgValue v \<Rightarrow> start_args args (Some (so_far @ split_char (CHR '','') v)) True
      | ArgOption \<Rightarrow> start_args args tags False
      | ArgWord \<Rightarrow> if values then start_args args (Some (so_far @ split_char (CHR '','') arg)) values
                   else start_args args tags values)"

definition worker_start_from_args ::
  "(uuid \<Rightarrow> string) \<Rightarrow> (string \<Rightarrow> uuid option) \<Rightarrow> string list \<Rightarrow> start_error + worker_start" where
  "worker_start_from_args hyphenated parse_uuid args =
     (case dropWhile (\<lambda>a. a \<noteq> ''start'' \<and> a \<noteq> ''s'') args of
        [] \<Rightarrow> Inr NoWorkers
      | _ # rest \<Rightarrow>
          (case start_args rest None False of
             None \<Rightarrow> Inr NoWorkers
           | Some mode \<Rightarrow> worker_start_from_mode hyphenated parse_uuid mode))"

section \<open>Tags and targets\<close>

lemma parse_tag_Inr:
  "parse_tag hyphenated parse_uuid tag = Inr t \<Longrightarrow> tag = target_tag hyphenated t"
  by (auto simp: parse_tag_def target_tag_def rbind_Inr_iff ok_or_Inr_iff strip_prefix_Some Let_def split: if_splits)

lemma parse_target_tag:
  assumes "\<And>u. parse_uuid (hyphenated u) = Some u"
  shows "parse_tag hyphenated parse_uuid (target_tag hyphenated t) = Inr t"
proof (cases t)
  case (TargetTenant u)
  have "strip_prefix ''tenant:'' (''tenant:'' @ hyphenated u) = Some (hyphenated u)"
    by (rule strip_prefix_append)
  then show ?thesis
    using assms TargetTenant by (simp add: parse_tag_def target_tag_def Let_def)
qed (simp_all add: parse_tag_def target_tag_def Let_def)

lemma job_tag_eq: "job_tag hyphenated t = ''job-target:'' @ target_name hyphenated t"
  unfolding job_tag_def target_tag_def TAG_PREFIX_def by (rule replace_first_prefix) simp

lemma parse_job_tag_iff:
  "parse_job_tag hyphenated parse_uuid s = Inr t \<longleftrightarrow>
     (\<exists>name. s = ''job-target:'' @ name \<and> parse_tag hyphenated parse_uuid (''worker-target:'' @ name) = Inr t)"
  unfolding parse_job_tag_def by (rule strip_prefix_case)

lemma job_worker_tag:
  "(\<exists>name. s = ''job-target:'' @ name \<and> ''worker-target:'' @ name = target_tag hyphenated t)
     \<longleftrightarrow> s = job_tag hyphenated t"
  unfolding job_tag_eq target_tag_def TAG_PREFIX_def by (metis same_append_eq)

lemma target_name_inj:
  assumes "\<And>u. parse_uuid (hyphenated u) = Some u" and "target_name hyphenated t = target_name hyphenated t'"
  shows "t = t'"
  using parse_target_tag [of parse_uuid hyphenated, OF assms(1)] assms(2)
  by (metis Inr_inject target_tag_def)

lemma start_targets_Inr:
  "start_targets hyphenated parse_uuid tags targets = Inr ts \<Longrightarrow> distinct targets \<Longrightarrow>
     distinct ts \<and> set (map (target_tag hyphenated) ts) = set (map (target_tag hyphenated) targets) \<union> set tags"
proof (induction tags arbitrary: targets)
  case (Cons tag tags)
  then obtain t where t: "parse_tag hyphenated parse_uuid tag = Inr t"
    and "start_targets hyphenated parse_uuid tags (if t \<in> set targets then targets else targets @ [t]) = Inr ts"
    by (auto simp: rbind_Inr_iff)
  from Cons.IH [OF this(2)] Cons.prems(2) parse_tag_Inr [OF t] show ?case
    by (auto split: if_splits)
qed simp

lemma parse_job_tag_Inr:
  assumes "parse_job_tag hyphenated parse_uuid tag = Inr t"
  shows "tag = job_tag hyphenated t"
proof -
  obtain name where name: "tag = ''job-target:'' @ name"
    and parsed: "parse_tag hyphenated parse_uuid (''worker-target:'' @ name) = Inr t"
    using assms unfolding parse_job_tag_iff by blast
  show ?thesis
    using name parse_tag_Inr [OF parsed] job_worker_tag [of tag hyphenated t] by blast
qed

lemma parse_job_tags_Inr:
  "parse_job_tags hyphenated parse_uuid tags = Inr ts \<Longrightarrow> map (job_tag hyphenated) ts = tags"
proof (induction tags arbitrary: ts)
  case (Cons tag tags)
  then obtain t us where t: "parse_job_tag hyphenated parse_uuid tag = Inr t"
    and us: "parse_job_tags hyphenated parse_uuid tags = Inr us" "ts = t # us"
    by (auto simp: rbind_Inr_iff)
  then show ?case using parse_job_tag_Inr [OF t] Cons.IH by simp
qed simp

lemma map_err_Inr: "map_err f m = Inr x \<longleftrightarrow> m = Inr x"
  by (cases m) auto

section \<open>Properties\<close>

text \<open>
  Provided a printed UUID parses back, a tag parses to a target exactly when it is the tag the
  target prints: no second spelling of a target is accepted and every printed tag is.  The same holds of
  job tags, and two jobs count against the same concurrency key exactly when they are for the same
  target.
\<close>

theorem parse_tag_exact:
  assumes "\<And>u. parse_uuid (hyphenated u) = Some u"
  shows "(parse_tag hyphenated parse_uuid s = Inr t \<longleftrightarrow> s = target_tag hyphenated t)
    \<and> (parse_job_tag hyphenated parse_uuid s = Inr t \<longleftrightarrow> s = job_tag hyphenated t)
    \<and> (concurrency_key hyphenated t = concurrency_key hyphenated t' \<longleftrightarrow> t = t')"
proof (intro conjI)
  note parses = parse_target_tag [of parse_uuid hyphenated, OF assms]
  have tag: "parse_tag hyphenated parse_uuid s = Inr t \<longleftrightarrow> s = target_tag hyphenated t" for s
    using parse_tag_Inr parses by metis
  show "parse_tag hyphenated parse_uuid s = Inr t \<longleftrightarrow> s = target_tag hyphenated t" by (rule tag)
  show "parse_job_tag hyphenated parse_uuid s = Inr t \<longleftrightarrow> s = job_tag hyphenated t"
    unfolding parse_job_tag_iff tag by (rule job_worker_tag)
  have "hyphenated u = hyphenated v \<Longrightarrow> u = v" for u v
    using assms by (metis option.inject)
  then show "concurrency_key hyphenated t = concurrency_key hyphenated t' \<longleftrightarrow> t = t'"
    by (cases t; cases t') (auto simp: concurrency_key_def)
qed

text \<open>A printer and parser of ids to evaluate with: unary numerals.\<close>

definition tally :: "uuid \<Rightarrow> string" where "tally u = replicate u (CHR ''1'')"

definition untally :: "string \<Rightarrow> uuid option" where
  "untally s = (if set s \<subseteq> {CHR ''1''} then Some (length s) else None)"

lemma untally_tally: "untally (tally u) = Some u"
  by (auto simp: tally_def untally_def)

theorem parse_tag_exact_witness:
  "parse_job_tag tally untally ''job-target:tenant:111'' = Inr (TargetTenant 3)"
proof -
  have "tally 3 = ''111''" by (simp add: tally_def numeral_3_eq_3)
  then have "''job-target:tenant:111'' = job_tag tally (TargetTenant 3)" by (simp add: job_tag_eq)
  then show ?thesis
    using parse_tag_exact [of untally tally, OF untally_tally] by blast
qed

text \<open>
  A worker process that starts serves a non-empty list of targets, without repetition when
  they are embedding targets, and its targets are exactly those its tags name; a combined server and
  worker start is refused.
\<close>

theorem start_serves_named_targets:
  assumes "worker_start_from_mode hyphenated parse_uuid (WorkerOnly tags) = Inr start"
  shows "(\<exists>ts. start = StartTargets ts \<and> ts \<noteq> [] \<and> distinct ts \<and> set (map (target_tag hyphenated) ts) = set tags)
    \<or> (\<exists>ts. start = StartJobs ts \<and> ts \<noteq> [] \<and> map (job_tag hyphenated) ts = tags)"
proof (cases "tags \<noteq> [] \<and> strip_prefix ''job-target:'' (hd tags) \<noteq> None")
  case True
  then obtain ts where "parse_job_tags hyphenated parse_uuid tags = Inr ts" "start = StartJobs ts"
    using assms by (auto simp: start_for_tags_def map_err_Inr rbind_Inr_iff)
  then show ?thesis using parse_job_tags_Inr True by fastforce
next
  case False
  then obtain ts where ts: "start_targets hyphenated parse_uuid tags [] = Inr ts" and "start = StartTargets ts"
    and "tags \<noteq> []"
    using assms by (auto simp: start_for_tags_def targets_for_start_def map_err_Inr rbind_Inr_iff split: if_splits)
  then show ?thesis using start_targets_Inr [OF ts] by fastforce
qed

theorem start_serves_named_targets_witness:
  "worker_start_from_args tally untally [''yorishiro'', ''start'', ''--worker=worker-target:shared,worker-target:shared'']
     = Inr (StartTargets [TargetShared])
   \<and> set (map (target_tag tally) [TargetShared]) = set [''worker-target:shared'', ''worker-target:shared'']"
proof -
  let ?tags = "[''worker-target:shared'', ''worker-target:shared'']"
  have start: "worker_start_from_mode tally untally (WorkerOnly ?tags) = Inr (StartTargets [TargetShared])"
    by (simp add: start_for_tags_def targets_for_start_def parse_tag_def TAG_PREFIX_def strip_prefix_def Let_def)
  have args: "start_args [''--worker=worker-target:shared,worker-target:shared''] None False = Some (WorkerOnly ?tags)"
    by (simp add: start_arg_def worker_value_def strip_prefix_def)
  show ?thesis
    using start_serves_named_targets [OF start] start args by (simp add: worker_start_from_args_def)
qed

end
