(* ===== verification/Queue_Lifecycle.thy ===== *)
theory Queue_Lifecycle
  imports Worker_Target
begin

text \<open>
  \<open>src/models/queue_job_lifecycles.rs\<close>: the lifecycle rows of queued jobs, their admission under a
  lease and a concurrency limit, and the attempt number that fences a worker whose lease was taken
  over.

  A statement sees the whole table and succeeds only if the constraints of the migration hold
  afterwards.  \<open>now\<close> is an argument.  The row lock and the advisory lock of an admission are what makes
  it one step here.
\<close>

datatype db_err = RecordNotFound string | Exec string

datatype lifecycle_status = Queued | Running | Retrying | Completed | Failed | Cancelled | Unavailable

record lifecycle_row =
  lc_id :: uuid
  lc_provider_job_id :: "string option"
  lc_job_name :: string
  lc_worker_class :: worker_class
  lc_workspace_id :: "uuid option"
  lc_plan :: "string option"
  lc_status :: lifecycle_status
  lc_enqueue_at :: instant
  lc_claim_at :: "instant option"
  lc_admitted_at :: "instant option"
  lc_lease_until :: "instant option"
  lc_start_at :: "instant option"
  lc_retry_at :: "instant option"
  lc_completed_at :: "instant option"
  lc_failed_at :: "instant option"
  lc_cancelled_at :: "instant option"
  lc_attempt :: int
  lc_concurrency_key :: "string option"
  lc_concurrency_limit :: "int option"
  lc_error :: "string option"

type_synonym lifecycles = "lifecycle_row list"

section \<open>Constraints\<close>

definition waiting_or_running :: "lifecycle_status \<Rightarrow> bool" where
  "waiting_or_running s \<longleftrightarrow> s \<in> {Queued, Running, Retrying}"

text \<open>The primary key, the unique provider id, one active startup reindex for each workspace.\<close>

definition startup_workspaces :: "lifecycles \<Rightarrow> uuid option list" where
  "startup_workspaces t = map lc_workspace_id (filter (\<lambda>r.
     lc_job_name r = ''startup_reindex'' \<and> lc_workspace_id r \<noteq> None \<and> waiting_or_running (lc_status r)) t)"

definition lifecycle_constraints :: "lifecycles \<Rightarrow> bool" where
  "lifecycle_constraints t \<longleftrightarrow>
     distinct (map lc_id t) \<and>
     distinct (filter (\<lambda>p. p \<noteq> None) (map lc_provider_job_id t)) \<and>
     distinct (startup_workspaces t)"

definition write_lifecycles :: "lifecycles \<Rightarrow> db_err + lifecycles" where
  "write_lifecycles t = (if lifecycle_constraints t then Inr t else Inl (Exec ''unique constraint''))"

text \<open>\<open>update_many().filter(p)\<close>: the rows affected and the table.\<close>

definition update_lifecycles ::
  "(lifecycle_row \<Rightarrow> bool) \<Rightarrow> (lifecycle_row \<Rightarrow> lifecycle_row) \<Rightarrow> lifecycles \<Rightarrow> db_err + (nat \<times> lifecycles)" where
  "update_lifecycles p f t = rbind (write_lifecycles (update_where p f t)) (\<lambda>t'. Inr (count_where p t, t'))"

section \<open>Operations\<close>

definition lease_duration :: int where "lease_duration = 5 * 60"

definition running_lease_is_live :: "instant option \<Rightarrow> instant \<Rightarrow> bool" where
  "running_lease_is_live lease_until now = (case lease_until of None \<Rightarrow> True | Some lease \<Rightarrow> lease > now)"

record enqueue =
  eq_id :: uuid
  eq_job_name :: string
  eq_worker_class :: worker_class
  eq_workspace_id :: "uuid option"
  eq_plan :: "string option"
  eq_concurrency_key :: "string option"
  eq_concurrency_limit :: "int option"

definition queued_row :: "instant \<Rightarrow> enqueue \<Rightarrow> lifecycle_row" where
  "queued_row now e =
     \<lparr>lc_id = eq_id e, lc_provider_job_id = None, lc_job_name = eq_job_name e,
      lc_worker_class = eq_worker_class e, lc_workspace_id = eq_workspace_id e, lc_plan = eq_plan e,
      lc_status = Queued, lc_enqueue_at = now, lc_claim_at = None, lc_admitted_at = None,
      lc_lease_until = None, lc_start_at = None, lc_retry_at = None, lc_completed_at = None,
      lc_failed_at = None, lc_cancelled_at = None, lc_attempt = 0,
      lc_concurrency_key = eq_concurrency_key e, lc_concurrency_limit = eq_concurrency_limit e,
      lc_error = None\<rparr>"

definition record_enqueue :: "instant \<Rightarrow> lifecycles \<Rightarrow> enqueue \<Rightarrow> db_err + lifecycles" where
  "record_enqueue now t e = write_lifecycles (t @ [queued_row now e])"

definition mark_dispatched :: "lifecycles \<Rightarrow> uuid \<Rightarrow> string \<Rightarrow> db_err + lifecycles" where
  "mark_dispatched t i provider_job_id =
     rbind (update_lifecycles (\<lambda>r. lc_id r = i) (\<lambda>r. r\<lparr>lc_provider_job_id := Some provider_job_id\<rparr>) t) (\<lambda>(n, t').
       if n = 1 then Inr t' else Inl (RecordNotFound ''queue lifecycle''))"

definition has_active_reindex :: "lifecycles \<Rightarrow> uuid \<Rightarrow> bool" where
  "has_active_reindex t workspace_id \<longleftrightarrow>
     count_where (\<lambda>r. lc_job_name r \<in> {''reindex'', ''startup_reindex''} \<and>
       lc_workspace_id r = Some workspace_id \<and> lc_status r \<in> {Queued, Running, Retrying}) t > 0"

definition deferred :: "instant \<Rightarrow> string \<Rightarrow> lifecycle_row \<Rightarrow> lifecycle_row" where
  "deferred now err r = r\<lparr>lc_status := Retrying, lc_retry_at := Some now, lc_lease_until := None,
     lc_error := Some err\<rparr>"

definition defer_filter :: "int option \<Rightarrow> lifecycle_row \<Rightarrow> bool" where
  "defer_filter attempt r =
     (case attempt of
        Some a \<Rightarrow> lc_attempt r = a \<and> lc_status r = Running
      | None \<Rightarrow> lc_status r \<in> {Queued, Retrying})"

definition defer_job :: "instant \<Rightarrow> lifecycles \<Rightarrow> uuid \<Rightarrow> int option \<Rightarrow> string \<Rightarrow> db_err + lifecycles" where
  "defer_job now t i attempt err =
     rbind (update_lifecycles (\<lambda>r. lc_id r = i \<and> defer_filter attempt r)
              (\<lambda>r. (deferred now err r)\<lparr>lc_provider_job_id := None\<rparr>) t) (\<lambda>(n, t').
       if n = 0 then Inl (RecordNotFound ''active queue lease'') else Inr t')"

definition defer_at :: "lifecycles \<Rightarrow> uuid \<Rightarrow> int \<Rightarrow> string \<Rightarrow> instant \<Rightarrow> db_err + lifecycles" where
  "defer_at t i attempt err now =
     rbind (update_lifecycles
              (\<lambda>r. lc_id r = i \<and> lc_attempt r = attempt \<and> lc_status r = Running \<and>
                   (case lc_lease_until r of None \<Rightarrow> False | Some l \<Rightarrow> l \<le> now))
              (deferred now err) t) (\<lambda>(n, t').
       if n = 0 then Inl (RecordNotFound ''active queue lease'') else Inr t')"

definition renew_at :: "lifecycles \<Rightarrow> uuid \<Rightarrow> int \<Rightarrow> instant \<Rightarrow> db_err + (bool \<times> lifecycles)" where
  "renew_at t i attempt now =
     rbind (update_lifecycles (\<lambda>r. lc_id r = i \<and> lc_attempt r = attempt \<and> lc_status r = Running)
              (\<lambda>r. r\<lparr>lc_lease_until := Some (now + lease_duration)\<rparr>) t) (\<lambda>(n, t').
       Inr (n = 1, t'))"

datatype admission = Started int | Recovered int | Duplicate int | Saturated "int option" | Terminal

definition in_flight :: "lifecycles \<Rightarrow> string \<Rightarrow> instant \<Rightarrow> uuid \<Rightarrow> nat" where
  "in_flight t key now except =
     count_where (\<lambda>r. lc_concurrency_key r = Some key \<and> lc_status r = Running \<and>
       running_lease_is_live (lc_lease_until r) now \<and> lc_id r \<noteq> except) t"

definition claimed :: "instant \<Rightarrow> lifecycle_row \<Rightarrow> lifecycle_row" where
  "claimed now r = r\<lparr>lc_status := Running, lc_claim_at := Some now, lc_start_at := Some now,
     lc_admitted_at := Some now, lc_failed_at := None, lc_retry_at := None,
     lc_lease_until := Some (now + lease_duration), lc_attempt := lc_attempt r + 1\<rparr>"

text \<open>The column is a 32-bit integer: the increment of the greatest attempt is a database error.\<close>

definition claim :: "lifecycles \<Rightarrow> uuid \<Rightarrow> bool \<Rightarrow> instant \<Rightarrow> db_err + (nat \<times> lifecycles)" where
  "claim t i recovered now =
     (let claimable = (\<lambda>r. lc_id r = i \<and>
            (if recovered then lc_status r = Running else lc_status r \<in> {Queued, Failed, Retrying}))
      in if \<exists>r \<in> set t. claimable r \<and> lc_attempt r \<ge> 2147483647 then Inl (Exec ''integer out of range'')
         else update_lifecycles claimable (claimed now) t)"

definition admit :: "lifecycles \<Rightarrow> uuid \<Rightarrow> instant \<Rightarrow> db_err + (admission \<times> lifecycles)" where
  "admit t i now =
     rbind (ok_or (find_row (\<lambda>r. lc_id r = i) t) (RecordNotFound ''queue lifecycle'')) (\<lambda>row.
     if lc_status row \<in> {Completed, Cancelled} then Inr (Terminal, t)
     else if lc_status row = Running \<and> running_lease_is_live (lc_lease_until row) now
     then Inr (Duplicate (lc_attempt row), t)
     else
     let recovered = (lc_status row = Running);
         running = (case (lc_concurrency_key row, lc_concurrency_limit row) of
             (Some key, Some _) \<Rightarrow> Some (in_flight t key now i)
           | _ \<Rightarrow> None)
     in if (case (running, lc_concurrency_limit row) of
              (Some n, Some limit) \<Rightarrow> n \<ge> nat limit | _ \<Rightarrow> False)
        then Inr (Saturated (if recovered then Some (lc_attempt row) else None), t)
        else
        rbind (claim t i recovered now) (\<lambda>(n, t').
        if n \<noteq> 1 then Inr (Duplicate (lc_attempt row), t')
        else Inr ((if recovered then Recovered (lc_attempt row + 1) else Started (lc_attempt row + 1)), t')))"

definition start_at :: "lifecycles \<Rightarrow> uuid \<Rightarrow> instant \<Rightarrow> db_err + (admission \<times> lifecycles)" where
  "start_at t i now =
     rbind (admit t i now) (\<lambda>(a, t').
       case a of
         Started _ \<Rightarrow> Inr (a, t')
       | Recovered _ \<Rightarrow> Inr (a, t')
       | _ \<Rightarrow> Inr (a, t))"

fun finish_stamp :: "instant \<Rightarrow> lifecycle_status \<Rightarrow> lifecycle_row \<Rightarrow> lifecycle_row" where
  "finish_stamp now Completed r = r\<lparr>lc_completed_at := Some now\<rparr>"
| "finish_stamp now Failed r = r\<lparr>lc_failed_at := Some now\<rparr>"
| "finish_stamp now Retrying r = r\<lparr>lc_retry_at := Some now\<rparr>"
| "finish_stamp now Cancelled r = r\<lparr>lc_cancelled_at := Some now\<rparr>"
| "finish_stamp now _ r = r"

definition finished :: "instant \<Rightarrow> lifecycle_status \<Rightarrow> string option \<Rightarrow> lifecycle_row \<Rightarrow> lifecycle_row" where
  "finished now status err r =
     finish_stamp now status (r\<lparr>lc_status := status, lc_lease_until := None, lc_error := err\<rparr>)"

definition finish_job ::
  "instant \<Rightarrow> lifecycles \<Rightarrow> uuid \<Rightarrow> int option \<Rightarrow> lifecycle_status \<Rightarrow> string option \<Rightarrow> db_err + lifecycles" where
  "finish_job now t i attempt status err =
     rbind (update_lifecycles
              (\<lambda>r. lc_id r = i \<and>
                 (case attempt of Some a \<Rightarrow> lc_attempt r = a \<and> lc_status r = Running | None \<Rightarrow> True))
              (finished now status err) t) (\<lambda>(n, t').
       if n = 0 then Inl (RecordNotFound ''active queue lease'') else Inr t')"

text \<open>The lifecycle half of \<open>record_lifecycle_payload\<close>: back in the queue, attempts counted anew.\<close>

definition requeued :: "lifecycle_row \<Rightarrow> lifecycle_row" where
  "requeued r = r\<lparr>lc_status := Queued, lc_attempt := 0\<rparr>"

definition requeue_lifecycle :: "lifecycles \<Rightarrow> uuid \<Rightarrow> db_err + lifecycles" where
  "requeue_lifecycle t i =
     rbind (update_lifecycles (\<lambda>r. lc_id r = i \<and> lc_status r \<in> {Retrying, Queued}) requeued t) (\<lambda>(n, t').
       if n \<noteq> 1 then Inl (RecordNotFound ''retryable queue lifecycle'') else Inr t')"

text \<open>\<open>refuse\<close> and \<open>close_unavailable\<close> of the dispatcher; their failures are logged only.\<close>

definition close_unavailable :: "instant \<Rightarrow> lifecycles \<Rightarrow> uuid \<Rightarrow> string \<Rightarrow> lifecycles" where
  "close_unavailable now t i diagnostic =
     (case finish_job now t i None Unavailable (Some diagnostic) of Inl _ \<Rightarrow> t | Inr t' \<Rightarrow> t')"

definition refuse :: "instant \<Rightarrow> lifecycles \<Rightarrow> enqueue \<Rightarrow> string \<Rightarrow> lifecycles" where
  "refuse now t e diagnostic =
     (case record_enqueue now t e of
        Inl _ \<Rightarrow> t
      | Inr t' \<Rightarrow> close_unavailable now t' (eq_id e) diagnostic)"

section \<open>Steps\<close>

text \<open>
  What may happen to the table, one call at a time.  The label keeps what the properties are about: the
  outcome of an admission, and whether a renewal revived a lease that had lapsed.
\<close>

datatype job_event = Tick | Enqueued enqueue | Refused enqueue | Dispatched uuid | Deferred uuid
  | Renewed bool | Admitted uuid admission | Finished uuid | Requeued uuid

definition lapsed :: "lifecycles \<Rightarrow> uuid \<Rightarrow> int \<Rightarrow> instant \<Rightarrow> bool" where
  "lapsed t i attempt now \<longleftrightarrow>
     (\<exists>r \<in> set t. lc_id r = i \<and> lc_attempt r = attempt \<and> lc_status r = Running \<and>
        \<not> running_lease_is_live (lc_lease_until r) now)"

inductive job_step :: "instant \<times> lifecycles \<Rightarrow> job_event \<Rightarrow> instant \<times> lifecycles \<Rightarrow> bool" where
  do_tick: "now \<le> now' \<Longrightarrow> job_step (now, t) Tick (now', t)"
| do_enqueue: "record_enqueue now t e = Inr t' \<Longrightarrow> job_step (now, t) (Enqueued e) (now, t')"
| do_refuse: "refuse now t e diagnostic = t' \<Longrightarrow> job_step (now, t) (Refused e) (now, t')"
| do_dispatched: "mark_dispatched t i p = Inr t' \<Longrightarrow> job_step (now, t) (Dispatched i) (now, t')"
| do_defer: "defer_job now t i attempt err = Inr t' \<Longrightarrow> job_step (now, t) (Deferred i) (now, t')"
| do_defer_at: "defer_at t i a err now = Inr t' \<Longrightarrow> job_step (now, t) (Deferred i) (now, t')"
| do_renew: "renew_at t i a now = Inr (b, t') \<Longrightarrow> job_step (now, t) (Renewed (lapsed t i a now)) (now, t')"
| do_start: "start_at t i now = Inr (adm, t') \<Longrightarrow> job_step (now, t) (Admitted i adm) (now, t')"
| do_finish: "finish_job now t i (Some a) status err = Inr t' \<Longrightarrow> status \<in> {Completed, Failed, Cancelled} \<Longrightarrow>
    job_step (now, t) (Finished i) (now, t')"
| do_requeue: "requeue_lifecycle t i = Inr t' \<Longrightarrow> job_step (now, t) (Requeued i) (now, t')"

inductive job_run :: "instant \<times> lifecycles \<Rightarrow> job_event list \<Rightarrow> instant \<times> lifecycles \<Rightarrow> bool" where
  stay: "job_run s [] s"
| go: "job_step s ev s' \<Longrightarrow> job_run s' evs s'' \<Longrightarrow> job_run s (ev # evs) s''"

inductive_simps job_run_simps [simp]: "job_run s [] s'" "job_run s (ev # evs) s''"

lemma job_run_append:
  "job_run s (evs @ evs') s'' \<longleftrightarrow> (\<exists>s'. job_run s evs s' \<and> job_run s' evs' s'')"
  by (induction evs arbitrary: s) (simp_all, blast)

text \<open>The state machine of one job.\<close>

inductive status_edge :: "lifecycle_status \<Rightarrow> lifecycle_status \<Rightarrow> bool" where
  "s \<in> {Queued, Failed, Retrying, Running} \<Longrightarrow> status_edge s Running"
| "s \<in> {Queued, Retrying, Running} \<Longrightarrow> status_edge s Retrying"
| "s \<in> {Completed, Failed, Cancelled} \<Longrightarrow> status_edge Running s"
| "s \<in> {Queued, Retrying} \<Longrightarrow> status_edge s Queued"

inductive_simps status_edge_from: "status_edge s s'"

section \<open>What a step does to a row\<close>

definition moves :: "job_event \<Rightarrow> lifecycle_row \<Rightarrow> lifecycle_row \<Rightarrow> bool" where
  "moves ev r r' \<longleftrightarrow>
     lc_id r' = lc_id r \<and> lc_concurrency_key r' = lc_concurrency_key r \<and>
     lc_concurrency_limit r' = lc_concurrency_limit r \<and>
     (lc_status r' = lc_status r \<or> status_edge (lc_status r) (lc_status r')) \<and>
     lc_attempt r' = (case ev of
         Admitted _ _ \<Rightarrow> lc_attempt r + 1
       | Requeued _ \<Rightarrow> 0
       | _ \<Rightarrow> lc_attempt r) \<and>
     (\<forall>i. ev = Requeued i \<longrightarrow> lc_id r = i)"

lemma update_lifecycles_Inr [res_simps]:
  "update_lifecycles p f t = Inr (n, t') \<longleftrightarrow>
     lifecycle_constraints (update_where p f t) \<and> t' = update_where p f t \<and> n = count_where p t"
  by (auto simp: update_lifecycles_def write_lifecycles_def)

lemmas queue_defs = mark_dispatched_def defer_job_def defer_at_def renew_at_def requeue_lifecycle_def finish_job_def

lemma finished_fields [simp]:
  "lc_id (finished now s e r) = lc_id r" "lc_concurrency_key (finished now s e r) = lc_concurrency_key r"
  "lc_concurrency_limit (finished now s e r) = lc_concurrency_limit r"
  "lc_attempt (finished now s e r) = lc_attempt r" "lc_status (finished now s e r) = s"
  "lc_lease_until (finished now s e r) = None" "lc_workspace_id (finished now s e r) = lc_workspace_id r"
  "lc_job_name (finished now s e r) = lc_job_name r"
  "lc_provider_job_id (finished now s e r) = lc_provider_job_id r"
  by (cases s; simp add: finished_def)+

text \<open>Every step but an enqueue rewrites the rows one filter selects, along the machine.\<close>

lemma claim_Inr [res_simps]:
  "claim t i recovered now = Inr (n, t') \<longleftrightarrow>
     (let claimable = (\<lambda>r. lc_id r = i \<and>
            (if recovered then lc_status r = Running else lc_status r \<in> {Queued, Failed, Retrying}))
      in (\<forall>r \<in> set t. claimable r \<longrightarrow> lc_attempt r < 2147483647) \<and>
         lifecycle_constraints (update_where claimable (claimed now) t) \<and>
         t' = update_where claimable (claimed now) t \<and> n = count_where claimable t)"
  by (auto simp: claim_def Let_def update_lifecycles_Inr not_le split: if_splits)

fun admitted :: "admission \<Rightarrow> bool" where
  "admitted (Started _) = True"
| "admitted (Recovered _) = True"
| "admitted _ = False"

lemma start_at_Inr [res_simps]:
  "start_at t i now = Inr (adm, t') \<longleftrightarrow>
     (\<exists>t1. admit t i now = Inr (adm, t1) \<and> t' = (if admitted adm then t1 else t))"
proof -
  have "(case a of Started _ \<Rightarrow> Inr (a, u) | Recovered _ \<Rightarrow> Inr (a, u) | _ \<Rightarrow> Inr (a, t))
        = (Inr (adm, t') :: db_err + _)
      \<longleftrightarrow> a = adm \<and> t' = (if admitted adm then u else t)" for a u
    by (cases a) auto
  then show ?thesis
    by (auto simp: start_at_def rbind_Inr_iff)
qed

text \<open>An admission: the row, free capacity, and the table with that row claimed.\<close>

lemma start_at_admitted:
  assumes "start_at t i now = Inr (adm, t')" and "adm = Started a \<or> adm = Recovered a"
  obtains r p where "find_row (\<lambda>r. lc_id r = i) t = Some r" "a = lc_attempt r + 1"
    "t' = update_where p (claimed now) t" "count_where p t = 1"
    "\<And>r. p r \<Longrightarrow> lc_id r = i \<and> lc_status r \<in> {Queued, Failed, Retrying, Running}"
    "lifecycle_constraints t'"
    "\<And>key limit. lc_concurrency_key r = Some key \<Longrightarrow> lc_concurrency_limit r = Some limit \<Longrightarrow>
       in_flight t key now i < nat limit"
proof -
  obtain t1 where adm: "admit t i now = Inr (adm, t1)" and t1: "t' = t1"
    using assms by (auto simp: start_at_Inr)
  obtain r where r: "find_row (\<lambda>r. lc_id r = i) t = Some r"
    using adm by (auto simp: admit_def rbind_Inr_iff ok_or_Inr_iff)
  let ?rec = "lc_status r = Running"
  let ?p = "\<lambda>r. lc_id r = i \<and> (if ?rec then lc_status r = Running else lc_status r \<in> {Queued, Failed, Retrying})"
  have c: "claim t i ?rec now = Inr (1, t1)" and a: "a = lc_attempt r + 1"
    and free: "\<not> (case (case (lc_concurrency_key r, lc_concurrency_limit r) of
             (Some key, Some _) \<Rightarrow> Some (in_flight t key now i) | _ \<Rightarrow> None, lc_concurrency_limit r) of
              (Some n, Some limit) \<Rightarrow> n \<ge> nat limit | _ \<Rightarrow> False)"
    using adm assms(2) r by (auto simp: admit_def Let_def rbind_Inr_iff split: if_splits)
  show thesis
  proof (rule that [OF r a, of ?p])
    show "t' = update_where ?p (claimed now) t" "count_where ?p t = 1" "lifecycle_constraints t'"
      using c t1 unfolding claim_Inr Let_def by simp_all
    show "in_flight t key now i < nat limit"
      if "lc_concurrency_key r = Some key" "lc_concurrency_limit r = Some limit" for key limit
      using free that by simp
  qed (auto split: if_splits)
qed

lemma start_at_other:
  "start_at t i now = Inr (adm, t') \<Longrightarrow> \<forall>a. adm \<noteq> Started a \<and> adm \<noteq> Recovered a \<Longrightarrow> t' = t"
  by (cases adm) (auto simp: start_at_Inr)

lemma update_nothing: "t = update_where (\<lambda>_. False) id t"
  by (simp add: update_where_def)

lemma refuse_cases:
  "refuse now t e diagnostic = t \<or>
   (\<exists>row. refuse now t e diagnostic = t @ [row] \<and> lc_id row \<notin> lc_id ` set t \<and> lc_status row \<in> {Queued, Unavailable} \<and>
      lc_concurrency_key row = eq_concurrency_key e \<and> lc_concurrency_limit row = eq_concurrency_limit e)"
proof (cases "record_enqueue now t e")
  case (Inr t1)
  then have t1: "t1 = t @ [queued_row now e]" and fresh: "eq_id e \<notin> lc_id ` set t"
    by (auto simp: record_enqueue_def write_lifecycles_def lifecycle_constraints_def queued_row_def split: if_splits)
  have "update_where (\<lambda>r. lc_id r = eq_id e) f t1 = t @ [f (queued_row now e)]" for f
    using fresh by (auto simp: t1 update_where_def queued_row_def image_iff intro!: map_idI)
  then have "close_unavailable now t1 (eq_id e) diagnostic
      \<in> {t @ [queued_row now e], t @ [finished now Unavailable (Some diagnostic) (queued_row now e)]}"
    by (auto simp: close_unavailable_def finish_job_def update_lifecycles_def write_lifecycles_def t1 split: sum.splits)
  then show ?thesis
    using Inr fresh by (auto simp: refuse_def queued_row_def)
qed (simp add: refuse_def)

text \<open>The table after each statement that succeeded.\<close>

lemma table_after:
  "mark_dispatched t i q = Inr t' \<Longrightarrow>
     t' = update_where (\<lambda>r. lc_id r = i) (\<lambda>r. r\<lparr>lc_provider_job_id := Some q\<rparr>) t"
  "defer_job now t i attempt err = Inr t' \<Longrightarrow>
     t' = update_where (\<lambda>r. lc_id r = i \<and> defer_filter attempt r)
            (\<lambda>r. (deferred now err r)\<lparr>lc_provider_job_id := None\<rparr>) t"
  "defer_at t i a err now = Inr t' \<Longrightarrow>
     t' = update_where (\<lambda>r. lc_id r = i \<and> lc_attempt r = a \<and> lc_status r = Running \<and>
            (case lc_lease_until r of None \<Rightarrow> False | Some l \<Rightarrow> l \<le> now)) (deferred now err) t"
  "renew_at t i a now = Inr (b, t') \<Longrightarrow>
     t' = update_where (\<lambda>r. lc_id r = i \<and> lc_attempt r = a \<and> lc_status r = Running)
            (\<lambda>r. r\<lparr>lc_lease_until := Some (now + lease_duration)\<rparr>) t"
  "finish_job now t i (Some a) status e = Inr t' \<Longrightarrow>
     t' = update_where (\<lambda>r. lc_id r = i \<and> lc_attempt r = a \<and> lc_status r = Running) (finished now status e) t"
  "requeue_lifecycle t i = Inr t' \<Longrightarrow>
     t' = update_where (\<lambda>r. lc_id r = i \<and> lc_status r \<in> {Retrying, Queued}) requeued t"
  by (auto simp: queue_defs rbind_Inr_iff update_lifecycles_Inr split: if_splits)

definition moved :: "job_event \<Rightarrow> lifecycles \<Rightarrow> lifecycles \<Rightarrow> bool" where
  "moved ev t t' \<longleftrightarrow> (\<exists>p f. t' = update_where p f t \<and> (\<forall>r. p r \<longrightarrow> moves ev r (f r)))"

definition inserted :: "job_event \<Rightarrow> lifecycles \<Rightarrow> lifecycles \<Rightarrow> bool" where
  "inserted ev t t' \<longleftrightarrow> (\<exists>row. t' = t @ [row] \<and> lc_id row \<notin> lc_id ` set t \<and>
     lc_status row \<in> {Queued, Unavailable} \<and>
     (\<exists>e. (ev = Enqueued e \<or> ev = Refused e) \<and> lc_concurrency_key row = eq_concurrency_key e \<and>
        lc_concurrency_limit row = eq_concurrency_limit e))"

lemma movedI: "t' = update_where p f t \<Longrightarrow> (\<And>r. p r \<Longrightarrow> moves ev r (f r)) \<Longrightarrow> moved ev t t'"
  unfolding moved_def by blast

lemma moved_refl: "moved ev t t"
  by (rule movedI [OF update_nothing]) simp

lemma moves_update:
  assumes "job_step (now, t) ev (now', t')"
  shows "moved ev t t' \<or> inserted ev t t'"
  using assms
proof cases
  case do_tick
  then show ?thesis using moved_refl by simp
next
  case (do_enqueue e)
  then show ?thesis
    by (auto simp: inserted_def record_enqueue_def write_lifecycles_def lifecycle_constraints_def queued_row_def
        split: if_splits)
next
  case (do_refuse e diagnostic)
  then show ?thesis
    using refuse_cases [of now t e diagnostic] moved_refl unfolding inserted_def by fastforce
next
  case (do_dispatched i q)
  show ?thesis
    by (rule disjI1, rule movedI [OF table_after(1) [OF do_dispatched(3)]]) (simp add: moves_def do_dispatched(1))
next
  case (do_defer i attempt err)
  show ?thesis
    by (rule disjI1, rule movedI [OF table_after(2) [OF do_defer(3)]])
      (auto simp: moves_def do_defer(1) defer_filter_def deferred_def status_edge_from split: option.splits)
next
  case (do_defer_at i a err)
  show ?thesis
    by (rule disjI1, rule movedI [OF table_after(3) [OF do_defer_at(3)]])
      (auto simp: moves_def do_defer_at(1) deferred_def status_edge_from)
next
  case (do_renew i a b)
  show ?thesis
    by (rule disjI1, rule movedI [OF table_after(4) [OF do_renew(3)]]) (simp add: moves_def do_renew(1))
next
  case (do_start i adm)
  have "moved ev t t'"
  proof (cases "admitted adm")
    case True
    then obtain a where a: "adm = Started a \<or> adm = Recovered a" by (cases adm) auto
    obtain p where t': "t' = update_where p (claimed now) t"
      and p: "\<And>r. p r \<Longrightarrow> lc_status r \<in> {Queued, Failed, Retrying, Running}"
      by (rule start_at_admitted [OF do_start(3) a]) blast
    show ?thesis
      by (rule movedI [OF t']) (use p do_start(1) in \<open>auto simp: moves_def claimed_def status_edge_from\<close>)
  next
    case False
    then have "t' = t" using do_start(3) by (simp add: start_at_Inr)
    then show ?thesis using moved_refl by simp
  qed
  then show ?thesis ..
next
  case (do_finish i a status err)
  show ?thesis
    by (rule disjI1, rule movedI [OF table_after(5) [OF do_finish(3)]])
      (use do_finish in \<open>auto simp: moves_def status_edge_from\<close>)
next
  case (do_requeue i)
  show ?thesis
    by (rule disjI1, rule movedI [OF table_after(6) [OF do_requeue(3)]])
      (auto simp: moves_def do_requeue(1) requeued_def status_edge_from)
qed

section \<open>The life of one job\<close>

abbreviation job :: "lifecycles \<Rightarrow> uuid \<Rightarrow> lifecycle_row option" where
  "job t i \<equiv> find_row (\<lambda>r. lc_id r = i) t"

lemma moved_row:
  assumes "moved ev t t'" "job t i = Some r"
  shows "\<exists>r'. job t' i = Some r' \<and> (r' = r \<or> moves ev r r')"
proof -
  obtain p f where t': "t' = update_where p f t" and f: "\<And>r. p r \<Longrightarrow> moves ev r (f r)"
    using assms(1) unfolding moved_def by blast
  have "job t' i = map_option (\<lambda>r. if p r then f r else r) (job t i)"
    unfolding t' by (rule find_key_update_on) (use f in \<open>simp add: moves_def\<close>)
  then show ?thesis using assms(2) f by auto
qed

lemma step_row:
  "job_step (now, t) ev (now', t') \<Longrightarrow> job t i = Some r \<Longrightarrow>
     \<exists>r'. job t' i = Some r' \<and> (r' = r \<or> moves ev r r')"
  using moves_update [of now t ev now' t'] moved_row [of ev t t' i r]
  by (auto simp: inserted_def find_row_append)

lemma run_row:
  assumes "job_run s evs s'" "job (snd s) i = Some r"
  shows "\<exists>r'. job (snd s') i = Some r' \<and> status_edge\<^sup>*\<^sup>* (lc_status r) (lc_status r') \<and>
    (Requeued i \<notin> set evs \<longrightarrow> lc_attempt r \<le> lc_attempt r')"
  using assms
proof (induction arbitrary: r rule: job_run.induct)
  case (go s ev s1 evs s2)
  obtain r1 where r1: "job (snd s1) i = Some r1" and m: "r1 = r \<or> moves ev r r1"
    using step_row [of "fst s" "snd s" ev "fst s1" "snd s1"] go.hyps(1) go.prems by auto
  have id: "lc_id r = i" using find_row_Some [OF go.prems] by simp
  have edge: "status_edge\<^sup>*\<^sup>* (lc_status r) (lc_status r1)" using m by (auto simp: moves_def)
  have att: "lc_attempt r \<le> lc_attempt r1" if "ev \<noteq> Requeued i"
    using m that id by (auto simp: moves_def split: job_event.splits)
  obtain r2 where "job (snd s2) i = Some r2" "status_edge\<^sup>*\<^sup>* (lc_status r1) (lc_status r2)"
    "Requeued i \<notin> set evs \<longrightarrow> lc_attempt r1 \<le> lc_attempt r2"
    using go.IH [OF r1] by blast
  then show ?case using edge att by (fastforce elim: rtranclp_trans)
qed auto

lemma terminal_edges:
  "status_edge\<^sup>*\<^sup>* s s' \<Longrightarrow> s \<in> {Completed, Cancelled, Unavailable} \<Longrightarrow> s' = s"
  by (induction rule: rtranclp_induct) (auto simp: status_edge_from)


section \<open>Fencing\<close>

fun token :: "admission \<Rightarrow> int option" where
  "token (Started a) = Some a"
| "token (Recovered a) = Some a"
| "token _ = None"

lemma token_admitted: "token adm = Some a \<longleftrightarrow> adm = Started a \<or> adm = Recovered a"
  by (cases adm) auto

inductive_cases job_step_Admitted: "job_step (now, t) (Admitted i adm) (now', t')"

lemma admitted_attempt:
  assumes "job_step (now, t) (Admitted i adm) (now', t')" and "token adm = Some a"
  shows "\<exists>r r'. job t i = Some r \<and> lc_attempt r = a - 1 \<and> job t' i = Some r' \<and> lc_attempt r' = a \<and>
    lc_status r' = Running"
proof -
  have start: "start_at t i now = Inr (adm, t')" and adm: "adm = Started a \<or> adm = Recovered a"
    using assms by (auto elim: job_step_Admitted simp: token_admitted)
  obtain r p where r: "job t i = Some r" "a = lc_attempt r + 1" and t': "t' = update_where p (claimed now) t"
    and one: "count_where p t = 1" and p: "\<And>r. p r \<Longrightarrow> lc_id r = i" and ok: "lifecycle_constraints t'"
    by (rule start_at_admitted [OF start adm]) blast
  have "map lc_id t' = map lc_id t" by (auto simp: t' update_where_def claimed_def)
  then have "distinct (map lc_id t)" using ok by (metis lifecycle_constraints_def)
  moreover obtain x where x: "x \<in> set t" "p x" using one by (metis count_where_pos zero_less_one)
  ultimately have "x = r" using r(1) p [OF x(2)] find_row_Some [OF r(1)] distinct_key_unique by metis
  moreover have "job t' i = map_option (\<lambda>r. if p r then claimed now r else r) (job t i)"
    unfolding t' by (rule find_key_update_on) (simp add: claimed_def)
  ultimately show ?thesis using r x by (simp add: claimed_def)
qed

lemma stale_filter:
  assumes "lifecycle_constraints t" "job t i = Some r" "lc_attempt r \<noteq> a"
  shows "count_where (\<lambda>r. lc_id r = i \<and> lc_attempt r = a \<and> P r) t = 0"
proof -
  have "x = r" if "x \<in> set t" "lc_id x = i" for x
    using assms(1,2) that find_row_Some [OF assms(2)] distinct_key_unique [of lc_id t]
    by (auto simp: lifecycle_constraints_def)
  then show ?thesis using assms(3) by (auto simp: count_where_0)
qed

lemma step_constraints:
  assumes "job_step (now, t) ev (now', t')" "lifecycle_constraints t"
  shows "lifecycle_constraints t'"
  using assms(1)
proof cases
  case (do_start i adm)
  show ?thesis
  proof (cases "admitted adm")
    case True
    then obtain a where a: "adm = Started a \<or> adm = Recovered a" by (cases adm) auto
    show ?thesis by (rule start_at_admitted [OF do_start(3) a])
  next
    case False
    then show ?thesis using do_start(3) assms(2) by (simp add: start_at_Inr)
  qed
next
  case (do_refuse e diagnostic)
  then show ?thesis
    using assms(2) by (auto simp: refuse_def close_unavailable_def record_enqueue_def write_lifecycles_def
        finish_job_def update_lifecycles_def rbind_Inr_iff split: sum.splits if_splits)
qed (use assms(2) in \<open>auto simp: queue_defs record_enqueue_def write_lifecycles_def rbind_Inr_iff
       update_lifecycles_Inr split: if_splits\<close>)

lemma run_constraints:
  "job_run s evs s' \<Longrightarrow> lifecycle_constraints (snd s) \<Longrightarrow> lifecycle_constraints (snd s')"
  by (induction rule: job_run.induct) (auto dest: step_constraints)


section \<open>Examples\<close>

definition limited_job :: "uuid \<Rightarrow> enqueue" where
  "limited_job i = \<lparr>eq_id = i, eq_job_name = ''reindex'', eq_worker_class = Shared, eq_workspace_id = Some 3,
     eq_plan = None, eq_concurrency_key = Some ''shared:shared'', eq_concurrency_limit = Some 1\<rparr>"

definition two_jobs :: lifecycles where
  "two_jobs = [queued_row 0 (limited_job 10), queued_row 0 (limited_job 11)]"

lemmas queue_eval = two_jobs_def limited_job_def queued_row_def lifecycle_constraints_def startup_workspaces_def
  write_lifecycles_def update_lifecycles_def update_where_def count_where_def find_row_def start_at_def admit_def
  claim_def claimed_def in_flight_def running_lease_is_live_def lease_duration_def finish_job_def finished_def
  defer_at_def defer_job_def deferred_def defer_filter_def renew_at_def requeue_lifecycle_def requeued_def Let_def

lemma two_jobs_constraints: "lifecycle_constraints two_jobs"
  by (simp add: queue_eval)



text \<open>
  Putting a job back in the queue resets its attempt number, which breaks the fencing: there is
  a run in which a job is admitted with attempt 1, its worker stalls past the lease, a redelivery finds
  the capacity taken and requeues the job, and the next admission is attempt 1 again; the stalled worker
  can then complete the job under the new worker.
\<close>

theorem requeue_reuses_attempt:
  "\<exists>t t'. job_run (0, two_jobs)
       [Admitted 10 (Started 1), Tick, Admitted 11 (Started 1), Admitted 10 (Saturated (Some 1)), Deferred 10,
        Requeued 10, Finished 11, Admitted 10 (Started 1)] (400, t)
     \<and> finish_job 400 t 10 (Some 1) Completed None = Inr t' \<and> map_option lc_status (job t' 10) = Some Completed"
proof -
  obtain t1 t2 t3 t4 t5 t6 t7 where
    1: "start_at two_jobs 10 0 = Inr (Started 1, t1)" and
    2: "start_at t1 11 400 = Inr (Started 1, t2)" and
    3: "start_at t2 10 400 = Inr (Saturated (Some 1), t2)" and
    4: "defer_at t2 10 1 ''worker capacity saturated'' 400 = Inr t3" and
    5: "requeue_lifecycle t3 10 = Inr t4" and
    6: "finish_job 400 t4 11 (Some 1) Completed None = Inr t5" and
    7: "start_at t5 10 400 = Inr (Started 1, t6)" and
    8: "finish_job 400 t6 10 (Some 1) Completed None = Inr t7" "map_option lc_status (job t7 10) = Some Completed"
    by (simp add: queue_eval)
  have "job_run (0, two_jobs)
       [Admitted 10 (Started 1), Tick, Admitted 11 (Started 1), Admitted 10 (Saturated (Some 1)), Deferred 10,
        Requeued 10, Finished 11, Admitted 10 (Started 1)] (400, t6)"
    using do_start [OF 1] do_tick [of 0 400 t1] do_start [OF 2] do_start [OF 3] do_defer_at [OF 4] do_requeue [OF 5]
      do_finish [OF 6] do_start [OF 7] by (simp, blast)
  then show ?thesis using 8 by blast
qed

section \<open>Capacity\<close>

text \<open>The jobs that occupy a concurrency key at an instant.\<close>

definition occupying :: "string \<Rightarrow> instant \<Rightarrow> lifecycle_row \<Rightarrow> bool" where
  "occupying key now r \<longleftrightarrow> lc_concurrency_key r = Some key \<and> lc_status r = Running \<and>
     running_lease_is_live (lc_lease_until r) now"

definition occupancy :: "lifecycles \<Rightarrow> string \<Rightarrow> instant \<Rightarrow> nat" where
  "occupancy t key now = count_where (occupying key now) t"

text \<open>Jobs are enqueued under a limit for their key; renewals are in time.\<close>

definition limited :: "(string \<Rightarrow> nat) \<Rightarrow> string option \<Rightarrow> int option \<Rightarrow> bool" where
  "limited L key limit \<longleftrightarrow> (\<forall>k. key = Some k \<longrightarrow> (\<exists>l. limit = Some l \<and> nat l \<le> L k))"

fun within_policy :: "(string \<Rightarrow> nat) \<Rightarrow> job_event \<Rightarrow> bool" where
  "within_policy L (Enqueued e) = limited L (eq_concurrency_key e) (eq_concurrency_limit e)"
| "within_policy L (Refused e) = limited L (eq_concurrency_key e) (eq_concurrency_limit e)"
| "within_policy L (Renewed revived) = (\<not> revived)"
| "within_policy L _ = True"

definition capacity_ok :: "(string \<Rightarrow> nat) \<Rightarrow> instant \<times> lifecycles \<Rightarrow> bool" where
  "capacity_ok L s \<longleftrightarrow> lifecycle_constraints (snd s) \<and>
     (\<forall>r \<in> set (snd s). limited L (lc_concurrency_key r) (lc_concurrency_limit r)) \<and>
     (\<forall>key. occupancy (snd s) key (fst s) \<le> L key)"

lemma limited_step:
  assumes "job_step (now, t) ev (now', t')" "within_policy L ev"
    and "\<forall>r \<in> set t. limited L (lc_concurrency_key r) (lc_concurrency_limit r)"
  shows "\<forall>r \<in> set t'. limited L (lc_concurrency_key r) (lc_concurrency_limit r)"
  using moves_update [OF assms(1)]
proof
  assume "moved ev t t'"
  then show ?thesis using assms(3) by (auto simp: moved_def moves_def set_update_where)
next
  assume "inserted ev t t'"
  then show ?thesis using assms(2,3) by (auto simp: inserted_def)
qed

lemma occupancy_claimed:
  assumes "lifecycle_constraints t'" and t': "t' = update_where p (claimed now) t" and "count_where p t = 1"
    and p: "\<And>r. p r \<Longrightarrow> lc_id r = i" and "job t i = Some r"
  shows "occupancy t' key now \<le> (if lc_concurrency_key r = Some key then in_flight t key now i + 1 else occupancy t key now)"
proof -
  have "map lc_id t' = map lc_id t" by (auto simp: t' update_where_def claimed_def)
  then have dist: "distinct (map lc_id t)" using assms(1) by (metis lifecycle_constraints_def)
  have only: "x = r" if "x \<in> set t" "lc_id x = i" for x
    using distinct_key_unique [OF dist] that find_row_Some [OF assms(5)] by auto
  obtain x where x: "x \<in> set t" "p x" using assms(3) by (metis count_where_pos zero_less_one)
  then have "p r" using only p by metis
  show ?thesis
  proof (cases "lc_concurrency_key r = Some key")
    case True
    have "occupancy t' key now \<le> count_where (\<lambda>x. occupying key now x \<and> \<not> p x) t + 1"
      using count_update_add [of "occupying key now" p "claimed now" t] assms(3) by (simp add: occupancy_def t')
    also have "\<dots> \<le> in_flight t key now i + 1"
      unfolding in_flight_def using \<open>p r\<close> only
      by (intro add_right_mono count_where_mono) (auto simp: occupying_def)
    finally show ?thesis using True by simp
  next
    case False
    have "occupancy t' key now \<le> occupancy t key now"
      unfolding occupancy_def t'
      by (rule count_update_le) (use False only p in \<open>auto simp: occupying_def claimed_def\<close>)
    then show ?thesis using False by simp
  qed
qed

lemma occupancy_append:
  "lc_status row \<in> {Queued, Unavailable} \<Longrightarrow> occupancy (t @ [row]) key now = occupancy t key now"
  by (auto simp: occupancy_def occupying_def count_where_append)

lemma occupancy_update:
  "t' = update_where p f t \<Longrightarrow> (\<And>r. r \<in> set t \<Longrightarrow> p r \<Longrightarrow> occupying key now (f r) \<Longrightarrow> occupying key now r) \<Longrightarrow>
     occupancy t' key now \<le> occupancy t key now"
  unfolding occupancy_def by (simp add: count_update_le)

lemma occupancy_after:
  "mark_dispatched t i q = Inr t' \<Longrightarrow> occupancy t' key now \<le> occupancy t key now"
  "defer_job now t i attempt err = Inr t' \<Longrightarrow> occupancy t' key now \<le> occupancy t key now"
  "defer_at t i a err now = Inr t' \<Longrightarrow> occupancy t' key now \<le> occupancy t key now"
  "renew_at t i a now = Inr (b, t') \<Longrightarrow> \<not> lapsed t i a now \<Longrightarrow> occupancy t' key now \<le> occupancy t key now"
  "finish_job now t i (Some a) status e = Inr t' \<Longrightarrow> status \<noteq> Running \<Longrightarrow>
     occupancy t' key now \<le> occupancy t key now"
  "requeue_lifecycle t i = Inr t' \<Longrightarrow> occupancy t' key now \<le> occupancy t key now"
  by (erule table_after [THEN occupancy_update],
      auto simp: occupying_def deferred_def requeued_def lapsed_def)+

lemma occupancy_start:
  assumes "start_at t i now = Inr (adm, t')" "capacity_ok L (now, t)"
  shows "occupancy t' key now \<le> L key"
proof (cases "admitted adm")
  case True
  then obtain a where a: "adm = Started a \<or> adm = Recovered a" by (cases adm) auto
  obtain r p where r: "job t i = Some r" and t': "t' = update_where p (claimed now) t" "count_where p t = 1"
    and p: "\<And>r. p r \<Longrightarrow> lc_id r = i" and ok: "lifecycle_constraints t'"
    and free: "\<And>key limit. lc_concurrency_key r = Some key \<Longrightarrow> lc_concurrency_limit r = Some limit \<Longrightarrow>
      in_flight t key now i < nat limit"
    by (rule start_at_admitted [OF assms(1) a]) blast
  have "limited L (lc_concurrency_key r) (lc_concurrency_limit r)"
    using assms(2) find_row_Some [OF r] by (auto simp: capacity_ok_def)
  then have "in_flight t key now i + 1 \<le> L key" if "lc_concurrency_key r = Some key"
    using free [OF that] that by (fastforce simp: limited_def)
  moreover have "occupancy t key now \<le> L key" using assms(2) by (simp add: capacity_ok_def)
  ultimately show ?thesis using occupancy_claimed [OF ok t' p r, of key] by (auto split: if_splits)
next
  case False
  then show ?thesis using assms by (simp add: start_at_Inr capacity_ok_def)
qed

lemma occupancy_step:
  assumes "job_step (now, t) ev (now', t')" "within_policy L ev" "capacity_ok L (now, t)"
  shows "occupancy t' key now' \<le> L key"
proof -
  have le: "occupancy t key now \<le> L key" using assms(3) by (simp add: capacity_ok_def)
  have "occupancy t' key now' \<le> occupancy t key now" if "\<And>i adm. ev \<noteq> Admitted i adm"
    using assms(1)
  proof cases
    case do_tick
    then show ?thesis
      unfolding occupancy_def
      by (auto simp: occupying_def running_lease_is_live_def split: option.splits intro!: count_where_mono)
  next
    case (do_enqueue e)
    then show ?thesis
      using occupancy_append [of "queued_row now e" t key now]
      by (auto simp: record_enqueue_def write_lifecycles_def queued_row_def split: if_splits)
  next
    case (do_refuse e diagnostic)
    then show ?thesis
      using refuse_cases [of now t e diagnostic] occupancy_append [of _ t key now] by fastforce
  qed (use that assms(2) in \<open>auto dest!: occupancy_after(1-4) occupancy_after(6) occupancy_after(5)\<close>)
  moreover have "occupancy t' key now' \<le> L key" if "ev = Admitted i adm" for i adm
    using assms(1,3) unfolding that by (auto elim!: job_step_Admitted intro: occupancy_start)
  ultimately show ?thesis using le by (metis le_trans)
qed

lemma capacity_run:
  "job_run s evs s' \<Longrightarrow> capacity_ok L s \<Longrightarrow> (\<And>ev. ev \<in> set evs \<Longrightarrow> within_policy L ev) \<Longrightarrow> capacity_ok L s'"
proof (induction rule: job_run.induct)
  case (go s ev s1 evs s2)
  obtain now t now1 t1 where s: "s = (now, t)" "s1 = (now1, t1)" by (cases s, cases s1)
  have "capacity_ok L s1"
    using go.hyps(1) go.prems step_constraints limited_step occupancy_step unfolding s
    by (fastforce simp: capacity_ok_def)
  then show ?case using go by simp
qed

text \<open>
  Property C12. If every job of a concurrency key is enqueued under a limit of at most \<open>L key\<close> and no renewal
  revives a lease that had already lapsed, then at every moment at most \<open>L key\<close> jobs of the key run under
  a live lease, through every interleaving of deliveries, recoveries, renewals and requeues.
\<close>

theorem capacity_respected:
  assumes "job_run (now0, []) evs (now, t)" and "\<And>ev. ev \<in> set evs \<Longrightarrow> within_policy L ev"
  shows "occupancy t key now \<le> L key"
proof -
  have "capacity_ok L (now0, [])"
    by (simp add: capacity_ok_def lifecycle_constraints_def startup_workspaces_def occupancy_def)
  from capacity_run [OF assms(1) this assms(2)] show ?thesis by (simp add: capacity_ok_def)
qed

theorem capacity_respected_witness:
  "\<exists>t. record_enqueue 0 [] (limited_job 10) = Inr t \<and> (\<exists>t'. start_at t 10 0 = Inr (Started 1, t') \<and>
     occupancy t' ''shared:shared'' 0 \<le> 1)"
proof -
  obtain t t' where t: "record_enqueue 0 [] (limited_job 10) = Inr t" and t': "start_at t 10 0 = Inr (Started 1, t')"
    by (simp add: record_enqueue_def queue_eval)
  have run: "job_run (0, []) [Enqueued (limited_job 10), Admitted 10 (Started 1)] (0, t')"
    using do_enqueue [OF t] do_start [OF t'] by (simp, blast)
  have "occupancy t' ''shared:shared'' 0 \<le> (\<lambda>_. 1) ''shared:shared''"
    by (rule capacity_respected [OF run]) (auto simp: limited_def limited_job_def)
  then show ?thesis using t t' by auto
qed

lemma image_update_filter:
  assumes "\<And>r. r \<in> set t \<Longrightarrow> p r \<Longrightarrow> Q (f r) \<Longrightarrow> Q r \<and> g (f r) = g r"
  shows "g ` {r \<in> set (update_where p f t). Q r} \<subseteq> g ` {r \<in> set t. Q r}"
  using assms by (fastforce simp: set_update_where)

lemma distinct_update_filter:
  assumes "\<And>r. r \<in> set t \<Longrightarrow> p r \<Longrightarrow> Q (f r) \<Longrightarrow> Q r \<and> g (f r) = g r" "distinct (map g (filter Q t))"
  shows "distinct (map g (filter Q (update_where p f t)))"
  using assms
proof (induction t)
  case (Cons r t)
  have sub: "g ` {r \<in> set (update_where p f t). Q r} \<subseteq> g ` {r \<in> set t. Q r}"
    by (rule image_update_filter) (use Cons.prems(1) in auto)
  have IH: "distinct (map g (filter Q (update_where p f t)))"
    by (rule Cons.IH) (use Cons.prems in \<open>auto split: if_splits\<close>)
  have "g (if p r then f r else r) \<notin> g ` {r \<in> set (update_where p f t). Q r}" if "Q (if p r then f r else r)"
    using that sub Cons.prems by (fastforce split: if_splits)
  then show ?case using IH by (auto simp: update_where_def)
qed (simp add: update_where_def)

text \<open>A statement that activates nothing and hands out no provider id keeps the constraints.\<close>

lemma constraints_update:
  assumes "lifecycle_constraints t"
    and "\<And>r. r \<in> set t \<Longrightarrow> p r \<Longrightarrow> lc_id (f r) = lc_id r \<and> lc_job_name (f r) = lc_job_name r \<and>
      lc_workspace_id (f r) = lc_workspace_id r \<and>
      (waiting_or_running (lc_status (f r)) \<longrightarrow> waiting_or_running (lc_status r)) \<and>
      (lc_provider_job_id (f r) = lc_provider_job_id r \<or> lc_provider_job_id (f r) = None)"
  shows "lifecycle_constraints (update_where p f t)"
proof -
  have "map lc_id (update_where p f t) = map lc_id t" using assms(2) by (auto simp: update_where_def)
  moreover have "distinct (map lc_provider_job_id (filter (\<lambda>r. lc_provider_job_id r \<noteq> None) (update_where p f t)))"
  proof (rule distinct_update_filter)
    show "distinct (map lc_provider_job_id (filter (\<lambda>r. lc_provider_job_id r \<noteq> None) t))"
      using assms(1) by (simp add: lifecycle_constraints_def filter_map comp_def)
  qed (use assms(2) in fastforce)
  moreover have "distinct (startup_workspaces (update_where p f t))"
    using assms unfolding startup_workspaces_def
    by (intro distinct_update_filter) (auto simp: lifecycle_constraints_def startup_workspaces_def)
  ultimately show ?thesis using assms(1) by (simp add: lifecycle_constraints_def filter_map comp_def)
qed

lemma claim_running_constraints:
  "lifecycle_constraints t \<Longrightarrow>
     lifecycle_constraints (update_where (\<lambda>r. lc_id r = i \<and> lc_status r = Running) (claimed now) t)"
  by (rule constraints_update) (auto simp: claimed_def waiting_or_running_def)

text \<open>
  The premise on renewals is needed: \<open>renew_at\<close> accepts a lease that has lapsed.  With a limit of
  one there is a run in which a stalled job's lease lapses, a second job is admitted in its place, and
  the heartbeat of the first then revives its lease: two jobs run under the limit of one.
\<close>

theorem late_renewal_exceeds_limit:
  "\<exists>t1 t2 t3. start_at two_jobs 10 0 = Inr (Started 1, t1) \<and> start_at t1 11 400 = Inr (Started 1, t2)
     \<and> renew_at t2 10 1 410 = Inr (True, t3) \<and> occupancy t3 ''shared:shared'' 410 = 2
     \<and> map lc_concurrency_limit t3 = [Some 1, Some 1]"
  by (simp add: queue_eval occupancy_def occupying_def)

text \<open>
  A job whose worker vanished is not lost: once its lease has lapsed the next delivery takes it
  over with the next attempt number and a fresh lease, whenever its concurrency key has room.
\<close>

theorem lost_job_recovered:
  assumes "lifecycle_constraints t" and "job t i = Some r" and "lc_status r = Running"
    and "lc_lease_until r = Some l" "l \<le> now" and "lc_attempt r < 2147483647"
    and "\<And>key limit. lc_concurrency_key r = Some key \<Longrightarrow> lc_concurrency_limit r = Some limit \<Longrightarrow>
      in_flight t key now i < nat limit"
  shows "\<exists>t'. start_at t i now = Inr (Recovered (lc_attempt r + 1), t') \<and> job t' i = Some (claimed now r)
    \<and> lc_lease_until (claimed now r) = Some (now + 300)"
proof -
  let ?p = "\<lambda>r. lc_id r = i \<and> lc_status r = Running"
  have only: "x = r" if "x \<in> set t" "lc_id x = i" for x
    using assms(1,2) that find_row_Some [OF assms(2)] distinct_key_unique [of lc_id t]
    by (auto simp: lifecycle_constraints_def)
  have one: "count_where ?p t = 1"
  proof -
    have "length (filter ?p t) \<le> 1"
      by (rule distinct_key_const [of lc_id _ i]) (use assms(1) in \<open>auto simp: lifecycle_constraints_def distinct_map_filter\<close>)
    moreover have "0 < count_where ?p t" using find_row_Some [OF assms(2)] assms(3) by (auto simp: count_where_pos)
    ultimately show ?thesis unfolding count_where_def by linarith
  qed
  have ok: "lifecycle_constraints (update_where ?p (claimed now) t)"
    using assms(1) claim_running_constraints by blast
  have "claim t i True now = Inr (1, update_where ?p (claimed now) t)"
    unfolding claim_Inr Let_def using ok one only assms(6) by auto
  moreover have "job (update_where ?p (claimed now) t) i = Some (claimed now r)"
    using find_key_update_on [of ?p lc_id "claimed now" i t] assms(2,3) find_row_Some [OF assms(2)]
    by (simp add: claimed_def)
  moreover have free: "\<not> nat limit \<le> in_flight t key now i"
    if "lc_concurrency_key r = Some key" "lc_concurrency_limit r = Some limit" for key limit
    using assms(7) [OF that] by simp
  ultimately show ?thesis
    using assms(2-5) by (auto simp: start_at_Inr admit_def Let_def running_lease_is_live_def claimed_def lease_duration_def
        split: option.splits dest: free)
qed

theorem lost_job_recovered_witness:
  "\<exists>t1 t2. start_at two_jobs 10 0 = Inr (Started 1, t1) \<and> start_at t1 10 300 = Inr (Recovered 2, t2)"
proof -
  define r where "r = claimed 0 (queued_row 0 (limited_job 10))"
  obtain t1 where t1: "start_at two_jobs 10 0 = Inr (Started 1, t1)" and job: "job t1 10 = Some r"
    and ok: "lifecycle_constraints t1" and free: "in_flight t1 ''shared:shared'' 300 10 = 0"
    by (simp add: queue_eval r_def)
  have "\<exists>t'. start_at t1 10 300 = Inr (Recovered (lc_attempt r + 1), t') \<and> job t' 10 = Some (claimed 300 r)
    \<and> lc_lease_until (claimed 300 r) = Some (300 + 300)"
    by (rule lost_job_recovered [OF ok job, where l = 300])
      (use free in \<open>auto simp: r_def claimed_def queued_row_def limited_job_def lease_duration_def\<close>)
  then show ?thesis using t1 by (auto simp: r_def claimed_def queued_row_def)
qed

end
