(* ===== verification/Dispatch_Outbox.thy ===== *)
theory Dispatch_Outbox
  imports Queue_Lifecycle
begin

text \<open>
  \<open>src/models/queue_job_dispatch_outbox.rs\<close>, \<open>src/workers/dispatch.rs\<close>, \<open>src/workers/lifecycle.rs\<close>
  and \<open>src/workers/registry.rs\<close>: the durable outbox between the database and the queue provider, the
  dispatcher that records a job in it, the relay that publishes it, and the protocol a worker follows
  around its work.

  The queue provider is third-party: publishing is a parameter that returns the provider's job id, or
  none when it fails or clocks out.  The clocks of the application and of the database are one clock.
  A handler that awaits between two transactions takes the instants of both.
\<close>

record outbox_row =
  ob_id :: uuid
  ob_lifecycle_id :: "uuid option"
  ob_payload :: json
  ob_worker_name :: string
  ob_queue_name :: "string option"
  ob_tags :: "string list option"
  ob_last_attempt_at :: "instant option"
  ob_deadline_at :: "instant option"
  ob_published_at :: "instant option"
  ob_claim_token :: "uuid option"
  ob_claim_until :: "instant option"
  ob_priority :: "int option"
  ob_workspace_id :: "uuid option"

record queue_store =
  q_lifecycles :: lifecycles
  q_outbox :: "outbox_row list"

definition RETRY_COOLDOWN_SECONDS :: int where "RETRY_COOLDOWN_SECONDS = 60"
definition RECOVERY_BATCH_SIZE :: nat where "RECOVERY_BATCH_SIZE = 100"
definition QUERY_EMBEDDING_PRIORITY :: int where "QUERY_EMBEDDING_PRIORITY = 1000"

section \<open>The outbox\<close>

definition payload_workspace_id :: "(string \<Rightarrow> uuid option) \<Rightarrow> json \<Rightarrow> uuid option" where
  "payload_workspace_id parse_uuid payload =
     (case payload of
        JObj fs \<Rightarrow> (case bt_get fs ''workspace_id'' of Some (JStr s) \<Rightarrow> parse_uuid s | _ \<Rightarrow> None)
      | _ \<Rightarrow> None)"

definition payload_insert :: "string \<Rightarrow> string \<Rightarrow> json \<Rightarrow> json" where
  "payload_insert k v payload =
     (case payload of JObj fs \<Rightarrow> JObj (bt_insert k (JStr v) fs) | _ \<Rightarrow> payload)"

definition insert_outbox :: "outbox_row \<Rightarrow> outbox_row list \<Rightarrow> db_err + outbox_row list" where
  "insert_outbox row t = (if ob_id row \<in> ob_id ` set t then Inl (Exec ''unique constraint'') else Inr (t @ [row]))"

text \<open>\<open>record\<close> is this in a transaction of its own.\<close>

definition record_in_transaction ::
  "(uuid \<Rightarrow> string) \<Rightarrow> (string \<Rightarrow> uuid option) \<Rightarrow> instant \<Rightarrow> queue_store \<Rightarrow> enqueue \<Rightarrow> json \<Rightarrow> string \<Rightarrow>
   string option \<Rightarrow> string list option \<Rightarrow> db_err + queue_store" where
  "record_in_transaction hyphenated parse_uuid now q lifecycle payload worker_name queue_name tags =
     rbind (record_enqueue now (q_lifecycles q) lifecycle) (\<lambda>t.
     let i = eq_id lifecycle;
         payload = payload_insert ''lifecycle_id'' (hyphenated i) payload
     in rbind (insert_outbox
         \<lparr>ob_id = i, ob_lifecycle_id = Some i, ob_payload = payload, ob_worker_name = worker_name,
          ob_queue_name = queue_name, ob_tags = tags, ob_last_attempt_at = None, ob_deadline_at = None,
          ob_published_at = None, ob_claim_token = None, ob_claim_until = None, ob_priority = None,
          ob_workspace_id = payload_workspace_id parse_uuid payload\<rparr> (q_outbox q)) (\<lambda>ob.
       Inr \<lparr>q_lifecycles = t, q_outbox = ob\<rparr>))"

definition record_query_in_transaction ::
  "(string \<Rightarrow> uuid option) \<Rightarrow> queue_store \<Rightarrow> uuid \<Rightarrow> instant \<Rightarrow> json \<Rightarrow> string \<Rightarrow> string option \<Rightarrow>
   string list option \<Rightarrow> db_err + queue_store" where
  "record_query_in_transaction parse_uuid q i deadline_at payload worker_name queue_name tags =
     rbind (insert_outbox
         \<lparr>ob_id = i, ob_lifecycle_id = None, ob_payload = payload, ob_worker_name = worker_name,
          ob_queue_name = queue_name, ob_tags = tags, ob_last_attempt_at = None,
          ob_deadline_at = Some deadline_at, ob_published_at = None, ob_claim_token = None,
          ob_claim_until = None, ob_priority = Some QUERY_EMBEDDING_PRIORITY,
          ob_workspace_id = payload_workspace_id parse_uuid payload\<rparr> (q_outbox q)) (\<lambda>ob.
       Inr (q\<lparr>q_outbox := ob\<rparr>))"

definition reset_outbox ::
  "(string \<Rightarrow> uuid option) \<Rightarrow> json \<Rightarrow> string \<Rightarrow> string option \<Rightarrow> string list option \<Rightarrow> outbox_row \<Rightarrow> outbox_row" where
  "reset_outbox parse_uuid payload worker_name queue_name tags r =
     r\<lparr>ob_workspace_id := payload_workspace_id parse_uuid payload, ob_payload := payload,
       ob_worker_name := worker_name, ob_queue_name := queue_name, ob_tags := tags, ob_priority := None,
       ob_last_attempt_at := None, ob_published_at := None, ob_claim_token := None, ob_claim_until := None\<rparr>"

definition record_lifecycle_payload ::
  "(uuid \<Rightarrow> string) \<Rightarrow> (string \<Rightarrow> uuid option) \<Rightarrow> queue_store \<Rightarrow> uuid \<Rightarrow> json \<Rightarrow> string \<Rightarrow>
   string option \<Rightarrow> string list option \<Rightarrow> db_err + queue_store" where
  "record_lifecycle_payload hyphenated parse_uuid q lifecycle_id payload worker_name queue_name tags =
     (let payload = payload_insert ''lifecycle_id'' (hyphenated lifecycle_id) payload;
          sel = (\<lambda>r. ob_lifecycle_id r = Some lifecycle_id) in
      rbind (requeue_lifecycle (q_lifecycles q) lifecycle_id) (\<lambda>t.
      if count_where sel (q_outbox q) = 0 then Inl (RecordNotFound ''lifecycle dispatch outbox row'')
      else Inr \<lparr>q_lifecycles = t,
                q_outbox = update_where sel (reset_outbox parse_uuid payload worker_name queue_name tags)
                             (q_outbox q)\<rparr>))"

record pending_dispatch =
  pd_id :: uuid
  pd_lifecycle_id :: "uuid option"
  pd_job_name :: string
  pd_worker_class :: worker_class
  pd_payload :: json
  pd_worker_name :: string
  pd_queue_name :: "string option"
  pd_tags :: "string list option"
  pd_deadline_at :: "instant option"
  pd_workspace_id :: "uuid option"
  pd_priority :: "int option"

definition lifecycle_of :: "queue_store \<Rightarrow> outbox_row \<Rightarrow> lifecycle_row option" where
  "lifecycle_of q row = (case ob_lifecycle_id row of None \<Rightarrow> None | Some i \<Rightarrow> job (q_lifecycles q) i)"

text \<open>The WHERE clause of \<open>due\<close> on one row of the left join.\<close>

definition is_due :: "instant \<Rightarrow> queue_store \<Rightarrow> outbox_row \<Rightarrow> bool" where
  "is_due now q row \<longleftrightarrow>
     ob_published_at row = None \<and>
     (case lifecycle_of q row of
        Some l \<Rightarrow> lc_status l = Queued \<or>
          (lc_status l = Retrying \<and> (case lc_retry_at l of None \<Rightarrow> True | Some r \<Rightarrow> r \<le> now))
      | None \<Rightarrow> ob_workspace_id row \<noteq> None \<and> ob_worker_name row = ''QueryEmbeddingWorker'' \<and>
          (case ob_deadline_at row of None \<Rightarrow> False | Some dl \<Rightarrow> dl > now)) \<and>
     (case ob_last_attempt_at row of None \<Rightarrow> True | Some l \<Rightarrow> l \<le> now - RETRY_COOLDOWN_SECONDS)"

definition pending_of :: "queue_store \<Rightarrow> outbox_row \<Rightarrow> pending_dispatch" where
  "pending_of q row =
     \<lparr>pd_id = ob_id row, pd_lifecycle_id = ob_lifecycle_id row,
      pd_job_name = (case lifecycle_of q row of None \<Rightarrow> ''query_embedding'' | Some l \<Rightarrow> lc_job_name l),
      pd_worker_class = (case lifecycle_of q row of None \<Rightarrow> Shared | Some l \<Rightarrow> lc_worker_class l),
      pd_payload = ob_payload row, pd_worker_name = ob_worker_name row, pd_queue_name = ob_queue_name row,
      pd_tags = ob_tags row, pd_deadline_at = ob_deadline_at row, pd_workspace_id = ob_workspace_id row,
      pd_priority = ob_priority row\<rparr>"

definition due :: "instant \<Rightarrow> queue_store \<Rightarrow> pending_dispatch list" where
  "due now q = map (pending_of q) (take RECOVERY_BATCH_SIZE
     (sort_key ob_id (select_where (is_due now q) (q_outbox q))))"

definition claimable :: "instant \<Rightarrow> uuid \<Rightarrow> outbox_row \<Rightarrow> bool" where
  "claimable now i r \<longleftrightarrow> ob_id r = i \<and> ob_published_at r = None \<and>
     (case ob_claim_until r of None \<Rightarrow> True | Some u \<Rightarrow> u \<le> now)"

definition claim_dispatch :: "instant \<Rightarrow> queue_store \<Rightarrow> uuid \<Rightarrow> uuid \<Rightarrow> int \<Rightarrow> bool \<times> queue_store" where
  "claim_dispatch now q i claim_token lease_seconds =
     (count_where (claimable now i) (q_outbox q) = 1,
      q\<lparr>q_outbox := update_where (claimable now i)
          (\<lambda>r. r\<lparr>ob_last_attempt_at := Some now, ob_claim_token := Some claim_token,
                 ob_claim_until := Some (now + lease_seconds)\<rparr>) (q_outbox q)\<rparr>)"

definition acknowledgeable :: "instant \<Rightarrow> uuid \<Rightarrow> uuid \<Rightarrow> outbox_row \<Rightarrow> bool" where
  "acknowledgeable now i claim_token r \<longleftrightarrow> ob_id r = i \<and> ob_claim_token r = Some claim_token \<and>
     (case ob_claim_until r of None \<Rightarrow> False | Some u \<Rightarrow> u > now) \<and> ob_published_at r = None"

definition acknowledge_dispatch ::
  "instant \<Rightarrow> queue_store \<Rightarrow> uuid \<Rightarrow> uuid \<Rightarrow> string \<Rightarrow> db_err + (bool \<times> queue_store)" where
  "acknowledge_dispatch now q i claim_token provider_job_id =
     (let lifecycle = (case find_row (\<lambda>r. ob_id r = i) (q_outbox q) of
              None \<Rightarrow> None | Some row \<Rightarrow> lifecycle_of q row);
          sel = acknowledgeable now i claim_token;
          ob = update_where sel
            (\<lambda>r. r\<lparr>ob_published_at := Some now, ob_claim_token := None, ob_claim_until := None\<rparr>) (q_outbox q)
      in if count_where sel (q_outbox q) \<noteq> 1 then Inr (False, q)
         else case lifecycle of
           None \<Rightarrow> Inr (True, q\<lparr>q_outbox := ob\<rparr>)
         | Some l \<Rightarrow>
             rbind (mark_dispatched (q_lifecycles q) (lc_id l) provider_job_id) (\<lambda>t.
               Inr (True, \<lparr>q_lifecycles = t, q_outbox = ob\<rparr>)))"

definition expire_dispatch :: "queue_store \<Rightarrow> uuid \<Rightarrow> queue_store" where
  "expire_dispatch q i = q\<lparr>q_outbox := delete_where (\<lambda>r. ob_id r = i) (q_outbox q)\<rparr>"

section \<open>The relay\<close>

definition enqueue_pending ::
  "(pending_dispatch \<Rightarrow> int \<Rightarrow> string option) \<Rightarrow> pending_dispatch \<Rightarrow> string option" where
  "enqueue_pending publish row =
     publish row (case pd_priority row of Some p \<Rightarrow> p | None \<Rightarrow> priority (pd_worker_class row))"

text \<open>The body of the relay for one row, with the instants of its three accesses.\<close>

definition recover_row ::
  "(pending_dispatch \<Rightarrow> int \<Rightarrow> string option) \<Rightarrow> uuid \<Rightarrow> int \<Rightarrow> instant \<times> instant \<times> instant \<Rightarrow>
   pending_dispatch \<Rightarrow> queue_store \<Rightarrow> queue_store" where
  "recover_row publish claim_token claim_lease_seconds clocks row q =
     (let (claim_now, check_now, ack_now) = clocks;
          (won, q1) = claim_dispatch claim_now q (pd_id row) claim_token claim_lease_seconds
      in if \<not> won then q1
         else if pd_lifecycle_id row = None \<and> pd_worker_name row \<noteq> ''QueryEmbeddingWorker'' then q1
         else if (case pd_deadline_at row of None \<Rightarrow> False | Some dl \<Rightarrow> dl \<le> check_now)
         then expire_dispatch q1 (pd_id row)
         else case enqueue_pending publish row of
           None \<Rightarrow> q1
         | Some provider_job_id \<Rightarrow>
             (case acknowledge_dispatch ack_now q1 (pd_id row) claim_token provider_job_id of
                Inl _ \<Rightarrow> q1
              | Inr (_, q2) \<Rightarrow> q2))"

text \<open>\<open>recover_pending\<close> with one publication at a time and a fresh claim token for each row.\<close>

definition recover_pending ::
  "(pending_dispatch \<Rightarrow> int \<Rightarrow> string option) \<Rightarrow> (uuid \<Rightarrow> uuid) \<Rightarrow> int \<Rightarrow> instant \<Rightarrow> queue_store \<Rightarrow> queue_store" where
  "recover_pending publish fresh_token claim_lease_seconds now q =
     fold (\<lambda>row. recover_row publish (fresh_token (pd_id row)) claim_lease_seconds (now, now, now) row)
       (due now q) q"

section \<open>Dispatching a job\<close>

definition is_embedding_worker :: "string \<Rightarrow> bool" where
  "is_embedding_worker name \<longleftrightarrow> name \<in> set [''EmbeddingSyncWorker'', ''ReindexWorker'', ''QueryEmbeddingWorker'']"

record job_spec =
  js_job_name :: string
  js_workspace_id :: uuid
  js_class :: worker_class
  js_dispatch_payload :: json
  js_worker_name :: string
  js_use_queue_concurrency :: bool

record concurrency_policy =
  cp_plan :: string
  cp_limit :: "int option"

definition spec_enqueue :: "job_spec \<Rightarrow> uuid \<Rightarrow> string option \<Rightarrow> string option \<Rightarrow> int option \<Rightarrow> enqueue" where
  "spec_enqueue spec i plan key limit =
     \<lparr>eq_id = i, eq_job_name = js_job_name spec, eq_worker_class = js_class spec,
      eq_workspace_id = Some (js_workspace_id spec), eq_plan = plan, eq_concurrency_key = key,
      eq_concurrency_limit = limit\<rparr>"

definition refuse_job :: "instant \<Rightarrow> queue_store \<Rightarrow> job_spec \<Rightarrow> uuid \<Rightarrow> string \<Rightarrow> queue_store" where
  "refuse_job now q spec lifecycle_id diagnostic =
     q\<lparr>q_lifecycles := refuse now (q_lifecycles q)
         (spec_enqueue spec lifecycle_id None (Some (worker_class_as_db_str (js_class spec))) (Some 0)) diagnostic\<rparr>"

definition worker_tag :: "(uuid \<Rightarrow> string) \<Rightarrow> string \<Rightarrow> worker_target \<Rightarrow> string" where
  "worker_tag hyphenated worker_name target =
     (if is_embedding_worker worker_name then target_tag hyphenated target else job_tag hyphenated target)"

text \<open>
  \<open>policy\<close> is the installed \<open>QueuePolicy\<close>'s answer for the job's workspace and class.  A refusal is
  recorded in the transaction of the caller, if there is one, and committed otherwise.
\<close>

definition dispatch_job ::
  "(uuid \<Rightarrow> string) \<Rightarrow> (string \<Rightarrow> uuid option) \<Rightarrow> (string + concurrency_policy) \<Rightarrow> uuid \<Rightarrow> instant \<Rightarrow> db \<Rightarrow>
   queue_store \<Rightarrow> job_spec \<Rightarrow> (string + uuid) \<times> queue_store" where
  "dispatch_job hyphenated parse_uuid policy lifecycle_id now d q spec =
     (case for_job d (js_class spec) (js_workspace_id spec) of
        Inl e \<Rightarrow> (Inl ''worker target lookup failed: {}'',
                  refuse_job now q spec lifecycle_id ''worker target lookup failed: {}'')
      | Inr target \<Rightarrow>
     (case (if js_use_queue_concurrency spec
            then rbind policy (\<lambda>p. Inr (Some (cp_plan p), Some (concurrency_key hyphenated target), cp_limit p))
            else Inr (None, None, None)) of
        Inl e \<Rightarrow> (Inl e, refuse_job now q spec lifecycle_id e)
      | Inr (plan, key, limit) \<Rightarrow>
     (let payload = payload_insert ''workspace_id'' (hyphenated (js_workspace_id spec))
                      (payload_insert ''lifecycle_id'' (hyphenated lifecycle_id) (js_dispatch_payload spec));
          tag = worker_tag hyphenated (js_worker_name spec) target
      in case get_workspace_tenant d (js_workspace_id spec) of
           Inl e \<Rightarrow> (Inl ''workspace not found'', q)
         | Inr tenant \<Rightarrow>
             (case record_in_transaction hyphenated parse_uuid now q
                     (spec_enqueue spec lifecycle_id plan key limit) payload (js_worker_name spec)
                     (Some tag) (Some [tag]) of
                Inl e \<Rightarrow> (Inl ''database error'', q)
              | Inr q' \<Rightarrow> (Inr lifecycle_id, q')))))"

section \<open>Running a job\<close>

definition SATURATED :: string where "SATURATED = ''worker capacity saturated''"

fun db_err_message :: "db_err \<Rightarrow> string" where
  "db_err_message (RecordNotFound m) = ''RecordNotFound Error: '' @ m"
| "db_err_message (Exec m) = ''Execution Error: '' @ m"

record job_args =
  ja_class :: worker_class
  ja_workspace_id :: uuid
  ja_payload :: json
  ja_worker_name :: string

definition requeue_job ::
  "(uuid \<Rightarrow> string) \<Rightarrow> (string \<Rightarrow> uuid option) \<Rightarrow> db \<Rightarrow> queue_store \<Rightarrow> uuid \<Rightarrow> job_args \<Rightarrow>
   (string + unit) \<times> queue_store" where
  "requeue_job hyphenated parse_uuid d q lifecycle_id args =
     (case for_job d (ja_class args) (ja_workspace_id args) of
        Inl e \<Rightarrow> (Inl ''workspace not found'', q)
      | Inr target \<Rightarrow>
     (let payload = payload_insert ''workspace_id'' (hyphenated (ja_workspace_id args))
                      (payload_insert ''lifecycle_id'' (hyphenated lifecycle_id) (ja_payload args))
      in case get_workspace_tenant d (ja_workspace_id args) of
        Inl e \<Rightarrow> (Inl ''workspace not found'', q)
      | Inr tenant \<Rightarrow>
     (let tag = worker_tag hyphenated (ja_worker_name args) target
      in case record_lifecycle_payload hyphenated parse_uuid q lifecycle_id payload (ja_worker_name args)
                (Some tag) (Some [tag]) of
        Inl e \<Rightarrow> (Inl (db_err_message e), q)
      | Inr q' \<Rightarrow> (Inr (), q'))))"

text \<open>
  \<open>work\<close> is what the handler's work does to the store while it runs, together with what every other
  worker and the heartbeat do meanwhile, and its outcome: \<open>None\<close> or an error text.
\<close>

definition perform_with_terminal_lifecycle ::
  "(uuid \<Rightarrow> string) \<Rightarrow> (string \<Rightarrow> uuid option) \<Rightarrow> db \<Rightarrow> instant \<times> instant \<times> instant \<Rightarrow> queue_store \<Rightarrow>
   uuid option \<Rightarrow> job_args \<Rightarrow> (queue_store \<Rightarrow> string option \<times> queue_store) \<Rightarrow>
   (string + unit) \<times> queue_store" where
  "perform_with_terminal_lifecycle hyphenated parse_uuid d clocks q lifecycle_id args work =
     (let (start_now, defer_now, finish_now) = clocks;
          result = (\<lambda>outcome. case outcome of None \<Rightarrow> Inr () | Some e \<Rightarrow> Inl e);
          run = (\<lambda>i attempt t.
            let (outcome, q1) = work (q\<lparr>q_lifecycles := t\<rparr>);
                finish = (case outcome of
                    None \<Rightarrow> finish_job finish_now (q_lifecycles q1) i (Some attempt) Completed None
                  | Some e \<Rightarrow> finish_job finish_now (q_lifecycles q1) i (Some attempt) Failed (Some e))
            in case finish of
                 Inl e \<Rightarrow> (Inl (db_err_message e), q1)
               | Inr t' \<Rightarrow> (result outcome, q1\<lparr>q_lifecycles := t'\<rparr>))
      in case lifecycle_id of
           None \<Rightarrow> (let (outcome, q1) = work q in (result outcome, q1))
         | Some i \<Rightarrow>
             (case start_at (q_lifecycles q) i start_now of
                Inl e \<Rightarrow> (Inl (db_err_message e), q)
              | Inr (Started attempt, t) \<Rightarrow> run i attempt t
              | Inr (Recovered attempt, t) \<Rightarrow> run i attempt t
              | Inr (Duplicate _, t) \<Rightarrow> (Inr (), q)
              | Inr (Terminal, t) \<Rightarrow> (Inr (), q)
              | Inr (Saturated attempt, _) \<Rightarrow>
                  (case (case attempt of
                           Some a \<Rightarrow> defer_at (q_lifecycles q) i a SATURATED defer_now
                         | None \<Rightarrow> defer_job defer_now (q_lifecycles q) i None SATURATED) of
                     Inl e \<Rightarrow> (Inl (db_err_message e), q)
                   | Inr t \<Rightarrow> requeue_job hyphenated parse_uuid d (q\<lparr>q_lifecycles := t\<rparr>) i args)))"

section \<open>Capacity refused, job kept\<close>

lemma saturated_inv:
  assumes "start_at t i now = Inr (Saturated a, t')" "job t i = Some r"
  shows "a = (if lc_status r = Running then Some (lc_attempt r) else None) \<and>
    (lc_status r = Running \<longrightarrow> \<not> running_lease_is_live (lc_lease_until r) now)"
  using assms by (auto simp: start_at_Inr admit_def Let_def rbind_Inr_iff split: if_splits)

lemma only_job:
  "lifecycle_constraints t \<Longrightarrow> job t i = Some r \<Longrightarrow> x \<in> set t \<Longrightarrow> lc_id x = i \<Longrightarrow> x = r"
  using find_row_Some [of "\<lambda>r. lc_id r = i" t r] distinct_key_unique [of lc_id t]
  by (auto simp: lifecycle_constraints_def)

text \<open>An update that selects the job by its id and succeeds.\<close>

lemma job_update:
  assumes "lifecycle_constraints t" "job t i = Some r" "P r"
    and "\<And>r. lc_id (f r) = lc_id r \<and> lc_job_name (f r) = lc_job_name r \<and> lc_workspace_id (f r) = lc_workspace_id r \<and>
      (lc_provider_job_id (f r) = lc_provider_job_id r \<or> lc_provider_job_id (f r) = None)"
    and "waiting_or_running (lc_status (f r)) \<Longrightarrow> waiting_or_running (lc_status r)"
  shows "\<exists>t'. update_lifecycles (\<lambda>r. lc_id r = i \<and> P r) f t = Inr (1, t') \<and> lifecycle_constraints t' \<and> job t' i = Some (f r)"
proof -
  let ?p = "\<lambda>r. lc_id r = i \<and> P r"
  let ?t = "update_where ?p f t"
  have "lifecycle_constraints ?t"
  proof (rule constraints_update [OF assms(1)])
    fix x assume "x \<in> set t" "?p x"
    then have "x = r" using only_job [OF assms(1,2)] by blast
    then show "lc_id (f x) = lc_id x \<and> lc_job_name (f x) = lc_job_name x \<and> lc_workspace_id (f x) = lc_workspace_id x \<and>
        (waiting_or_running (lc_status (f x)) \<longrightarrow> waiting_or_running (lc_status x)) \<and>
        (lc_provider_job_id (f x) = lc_provider_job_id x \<or> lc_provider_job_id (f x) = None)"
      using assms(4) [of r] assms(5) by simp
  qed
  moreover have "count_where ?p t = 1"
  proof -
    have "length (filter ?p t) \<le> 1"
      by (rule distinct_key_const [of lc_id _ i])
        (use assms(1) in \<open>auto simp: lifecycle_constraints_def distinct_map_filter\<close>)
    moreover have "0 < count_where ?p t" using find_row_Some [OF assms(2)] assms(3) by (auto simp: count_where_pos)
    ultimately show ?thesis unfolding count_where_def by linarith
  qed
  moreover have "job ?t i = Some (f r)"
    using find_key_update_on [of ?p lc_id f i t] assms(2-4) find_row_Some [OF assms(2)] by simp
  ultimately show ?thesis by (auto simp: update_lifecycles_Inr)
qed

lemma saturated_deferred:
  assumes "lifecycle_constraints t" "job t i = Some r" "lc_status r \<in> {Queued, Retrying, Running}"
    and "start_at t i start_now = Inr (Saturated a, t0)" "start_now \<le> now"
  shows "\<exists>t' r'. (case a of Some a \<Rightarrow> defer_at t i a e now | None \<Rightarrow> defer_job now t i None e) = Inr t' \<and>
    lifecycle_constraints t' \<and> job t' i = Some r' \<and> lc_status r' = Retrying"
proof (cases "lc_status r = Running")
  case True
  then obtain l where a: "a = Some (lc_attempt r)" and l: "lc_lease_until r = Some l" "l \<le> now"
    using saturated_inv [OF assms(4,2)] assms(5) by (auto simp: running_lease_is_live_def split: option.splits)
  have "\<exists>t'. update_lifecycles (\<lambda>x. lc_id x = i \<and> lc_attempt x = lc_attempt r \<and> lc_status x = Running \<and>
        (case lc_lease_until x of None \<Rightarrow> False | Some l \<Rightarrow> l \<le> now)) (deferred now e) t = Inr (1, t') \<and>
      lifecycle_constraints t' \<and> job t' i = Some (deferred now e r)"
    by (rule job_update [OF assms(1,2)]) (use True l in \<open>auto simp: deferred_def waiting_or_running_def\<close>)
  then show ?thesis by (auto simp: a defer_at_def deferred_def)
next
  case False
  then have a: "a = None" and st: "lc_status r \<in> {Queued, Retrying}"
    using saturated_inv [OF assms(4,2)] assms(3) by auto
  have "\<exists>t'. update_lifecycles (\<lambda>r. lc_id r = i \<and> defer_filter None r)
        (\<lambda>r. (deferred now e r)\<lparr>lc_provider_job_id := None\<rparr>) t = Inr (1, t') \<and>
      lifecycle_constraints t' \<and> job t' i = Some ((deferred now e r)\<lparr>lc_provider_job_id := None\<rparr>)"
    by (rule job_update [OF assms(1,2)]) (use st in \<open>auto simp: defer_filter_def deferred_def waiting_or_running_def\<close>)
  then show ?thesis by (auto simp: a defer_job_def deferred_def)
qed

lemma requeue_lifecycle_returns:
  assumes "lifecycle_constraints t" "job t i = Some r" "lc_status r = Retrying"
  shows "\<exists>t'. requeue_lifecycle t i = Inr t' \<and> job t' i = Some (requeued r)"
proof -
  have "\<exists>t'. update_lifecycles (\<lambda>r. lc_id r = i \<and> lc_status r \<in> {Retrying, Queued}) requeued t = Inr (1, t') \<and>
      lifecycle_constraints t' \<and> job t' i = Some (requeued r)"
    by (rule job_update [OF assms(1,2)]) (use assms(3) in \<open>auto simp: requeued_def waiting_or_running_def\<close>)
  then show ?thesis by (auto simp: requeue_lifecycle_def)
qed

lemma for_job_returns: "get_workspace_tenant d w = Inr tenant \<Longrightarrow> \<exists>target. for_job d c w = Inr target"
  by (cases c) (simp_all add: for_job_def)

lemma reset_is_due:
  assumes "job (q_lifecycles q) i = Some l" "lc_status l = Queued" "ob_lifecycle_id row = Some i"
  shows "is_due now q (reset_outbox parse_uuid payload worker queue tags row)"
  using assms by (simp add: is_due_def reset_outbox_def lifecycle_of_def)

lemma update_where_hit:
  assumes "\<exists>r \<in> set t. p r" and "\<And>r. p r \<Longrightarrow> P (f r)"
  shows "\<exists>r \<in> set (update_where p f t). P r"
proof -
  obtain r where r: "r \<in> set t" "p r" using assms(1) by blast
  then have "f r \<in> set (update_where p f t)" by (auto simp: update_where_def intro!: rev_image_eqI)
  then show ?thesis using assms(2) [OF r(2)] by blast
qed

lemma record_payload_returns:
  assumes "lifecycle_constraints (q_lifecycles q)" "job (q_lifecycles q) i = Some r" "lc_status r = Retrying"
    and "\<exists>row \<in> set (q_outbox q). ob_lifecycle_id row = Some i"
  shows "\<exists>q'. record_lifecycle_payload hyphenated parse_uuid q i payload worker queue tags = Inr q' \<and>
    job (q_lifecycles q') i = Some (requeued r) \<and> (\<exists>row \<in> set (q_outbox q'). ob_lifecycle_id row = Some i) \<and>
    (\<forall>row \<in> set (q_outbox q'). ob_lifecycle_id row = Some i \<longrightarrow> (\<forall>now. is_due now q' row))"
proof -
  obtain t' where t': "requeue_lifecycle (q_lifecycles q) i = Inr t'" "job t' i = Some (requeued r)"
    using requeue_lifecycle_returns [OF assms(1-3)] by blast
  let ?f = "reset_outbox parse_uuid (payload_insert ''lifecycle_id'' (hyphenated i) payload) worker queue tags"
  let ?sel = "\<lambda>r. ob_lifecycle_id r = Some i"
  let ?q = "\<lparr>q_lifecycles = t', q_outbox = update_where ?sel ?f (q_outbox q)\<rparr>"
  have q': "record_lifecycle_payload hyphenated parse_uuid q i payload worker queue tags = Inr ?q"
    using t' assms(4) by (simp add: record_lifecycle_payload_def Let_def count_where_0)
  have "\<forall>row \<in> set (q_outbox ?q). ?sel row \<longrightarrow> (\<forall>now. is_due now ?q row)"
    using t'(2) by (auto simp: set_update_where requeued_def intro!: reset_is_due split: if_splits)
  moreover have "\<exists>row \<in> set (q_outbox ?q). ?sel row"
    unfolding queue_store.simps by (rule update_where_hit [OF assms(4)]) (simp add: reset_outbox_def)
  ultimately show ?thesis using q' t'(2) by auto
qed

lemma requeue_job_returns:
  assumes "lifecycle_constraints (q_lifecycles q)" "job (q_lifecycles q) i = Some r" "lc_status r = Retrying"
    and "get_workspace_tenant d (ja_workspace_id args) = Inr tenant"
    and "\<exists>row \<in> set (q_outbox q). ob_lifecycle_id row = Some i"
  shows "\<exists>q'. requeue_job hyphenated parse_uuid d q i args = (Inr (), q') \<and>
    (\<exists>row \<in> set (q_outbox q'). ob_lifecycle_id row = Some i) \<and>
    (\<forall>row \<in> set (q_outbox q'). ob_lifecycle_id row = Some i \<longrightarrow> (\<forall>now. is_due now q' row))"
proof -
  obtain target where target: "for_job d (ja_class args) (ja_workspace_id args) = Inr target"
    using for_job_returns [OF assms(4)] by blast
  let ?tag = "worker_tag hyphenated (ja_worker_name args) target"
  obtain q' where "record_lifecycle_payload hyphenated parse_uuid q i
      (payload_insert ''workspace_id'' (hyphenated (ja_workspace_id args))
         (payload_insert ''lifecycle_id'' (hyphenated i) (ja_payload args))) (ja_worker_name args) (Some ?tag) (Some [?tag]) = Inr q'"
    "\<exists>row \<in> set (q_outbox q'). ob_lifecycle_id row = Some i"
    "\<forall>row \<in> set (q_outbox q'). ob_lifecycle_id row = Some i \<longrightarrow> (\<forall>now. is_due now q' row)"
    using record_payload_returns [OF assms(1-3,5)] by metis
  then show ?thesis
    using target assms(4) by (simp add: requeue_job_def Let_def)
qed

text \<open>
  A job refused for lack of capacity is not lost: if it was waiting, or running under a lease
  that had lapsed, the worker's handler succeeds and leaves the job queued with its dispatch due again at
  every later moment, so the relay will publish it.
\<close>

theorem saturated_job_redelivered:
  assumes "lifecycle_constraints (q_lifecycles q)" and "job (q_lifecycles q) i = Some r"
    and "lc_status r \<in> {Queued, Retrying, Running}"
    and "start_at (q_lifecycles q) i start_now = Inr (Saturated a, t0)" and "start_now \<le> defer_now"
    and "get_workspace_tenant d (ja_workspace_id args) = Inr tenant"
    and "\<exists>row \<in> set (q_outbox q). ob_lifecycle_id row = Some i"
  shows "\<exists>q'. perform_with_terminal_lifecycle hyphenated parse_uuid d (start_now, defer_now, finish_now) q (Some i) args work
      = (Inr (), q') \<and> (\<exists>row \<in> set (q_outbox q'). ob_lifecycle_id row = Some i) \<and>
    (\<forall>row \<in> set (q_outbox q'). ob_lifecycle_id row = Some i \<longrightarrow> (\<forall>now. is_due now q' row))"
proof -
  obtain t' r' where t': "(case a of Some a \<Rightarrow> defer_at (q_lifecycles q) i a SATURATED defer_now
        | None \<Rightarrow> defer_job defer_now (q_lifecycles q) i None SATURATED) = Inr t'"
    and r': "lifecycle_constraints t'" "job t' i = Some r'" "lc_status r' = Retrying"
    using saturated_deferred [OF assms(1-5)] by blast
  have "perform_with_terminal_lifecycle hyphenated parse_uuid d (start_now, defer_now, finish_now) q (Some i) args work
      = requeue_job hyphenated parse_uuid d (q\<lparr>q_lifecycles := t'\<rparr>) i args"
    using assms(4) t' by (simp add: perform_with_terminal_lifecycle_def Let_def)
  then show ?thesis
    using requeue_job_returns [of "q\<lparr>q_lifecycles := t'\<rparr>" i r' d args tenant hyphenated parse_uuid] r' assms(6,7) by simp
qed

text \<open>
  A failed job that the provider delivers again is not deferred when its capacity is taken: the
  admission reports saturation, but the deferral only takes queued and retrying rows, so the handler ends
  with an error and the job stays failed and is not put back in the queue.
\<close>

theorem saturated_retry_of_failed_errs:
  assumes "lifecycle_constraints (q_lifecycles q)" and "job (q_lifecycles q) i = Some r" and "lc_status r = Failed"
    and "start_at (q_lifecycles q) i start_now = Inr (Saturated a, t0)"
  shows "perform_with_terminal_lifecycle hyphenated parse_uuid d (start_now, defer_now, finish_now) q (Some i) args work
      = (Inl ''RecordNotFound Error: active queue lease'', q)"
proof -
  have a: "a = None" using saturated_inv [OF assms(4,2)] assms(3) by simp
  let ?p = "\<lambda>r. lc_id r = i \<and> defer_filter None r"
  have none: "\<not> ?p x" if "x \<in> set (q_lifecycles q)" for x
    using only_job [OF assms(1,2) that] assms(3) by (auto simp: defer_filter_def)
  then have "update_where ?p f (q_lifecycles q) = q_lifecycles q" for f
    by (auto simp: update_where_def intro!: map_idI)
  then have "defer_job defer_now (q_lifecycles q) i None SATURATED = Inl (RecordNotFound ''active queue lease'')"
    using none assms(1) by (simp add: defer_job_def update_lifecycles_def write_lifecycles_def count_where_0)
  then show ?thesis using assms(4) a by (simp add: perform_with_terminal_lifecycle_def Let_def)
qed

section \<open>Examples\<close>

definition cited_job :: "uuid \<Rightarrow> outbox_row" where
  "cited_job i = \<lparr>ob_id = i, ob_lifecycle_id = Some i, ob_payload = JObj [], ob_worker_name = ''ReindexWorker'',
     ob_queue_name = None, ob_tags = None, ob_last_attempt_at = None, ob_deadline_at = None,
     ob_published_at = Some 0, ob_claim_token = None, ob_claim_until = None, ob_priority = None,
     ob_workspace_id = Some 3\<rparr>"

text \<open>Job 10 holds the only slot of the key; job 11 waits, or failed earlier.\<close>

definition full_queue :: "lifecycle_status \<Rightarrow> queue_store" where
  "full_queue status = \<lparr>q_lifecycles = [claimed 0 (queued_row 0 (limited_job 10)),
       (queued_row 0 (limited_job 11))\<lparr>lc_status := status\<rparr>],
     q_outbox = [cited_job 10, cited_job 11]\<rparr>"

definition reindex_args :: job_args where
  "reindex_args = \<lparr>ja_class = Shared, ja_workspace_id = 3, ja_payload = JObj [], ja_worker_name = ''ReindexWorker''\<rparr>"

lemma full_queue_constraints: "lifecycle_constraints (q_lifecycles (full_queue status))"
  by (simp add: full_queue_def queue_eval)

lemma full_queue_saturated:
  "status \<in> {Queued, Failed} \<Longrightarrow>
     start_at (q_lifecycles (full_queue status)) 11 10 = Inr (Saturated None, q_lifecycles (full_queue status))"
  by (auto simp: full_queue_def queue_eval)

lemma full_queue_job:
  "job (q_lifecycles (full_queue status)) 11 = Some ((queued_row 0 (limited_job 11))\<lparr>lc_status := status\<rparr>)"
  by (simp add: full_queue_def queue_eval)

theorem saturated_job_redelivered_witness:
  "\<exists>q'. perform_with_terminal_lifecycle tally untally one_workspace (10, 10, 10) (full_queue Queued) (Some 11)
     reindex_args (\<lambda>q. (None, q)) = (Inr (), q') \<and>
     (\<exists>row \<in> set (q_outbox q'). ob_lifecycle_id row = Some 11 \<and> is_due 10 q' row)"
proof -
  have tenant: "get_workspace_tenant one_workspace (ja_workspace_id reindex_args) = Inr 9"
    by (simp add: get_workspace_tenant_def one_workspace_def find_row_def reindex_args_def)
  have row: "\<exists>row \<in> set (q_outbox (full_queue Queued)). ob_lifecycle_id row = Some 11"
    by (simp add: full_queue_def cited_job_def)
  show ?thesis
    using saturated_job_redelivered [OF full_queue_constraints full_queue_job _ full_queue_saturated _ tenant row]
    by (simp, blast)
qed

theorem saturated_retry_of_failed_errs_witness:
  "perform_with_terminal_lifecycle tally untally one_workspace (10, 10, 10) (full_queue Failed) (Some 11)
     reindex_args (\<lambda>q. (None, q)) = (Inl ''RecordNotFound Error: active queue lease'', full_queue Failed)"
  by (rule saturated_retry_of_failed_errs [OF full_queue_constraints full_queue_job _ full_queue_saturated]) simp_all

section \<open>One relay publishes\<close>

datatype outbox_event = OutboxTick | Recorded uuid | Claimed uuid uuid | Acknowledged uuid uuid
  | Expired uuid | Reset uuid | OtherTable

inductive outbox_step :: "instant \<times> queue_store \<Rightarrow> outbox_event \<Rightarrow> instant \<times> queue_store \<Rightarrow> bool" where
  on_tick: "now \<le> now' \<Longrightarrow> outbox_step (now, q) OutboxTick (now', q)"
| on_record: "record_in_transaction hyphenated parse_uuid now q e payload worker queue tags = Inr q' \<Longrightarrow>
    outbox_step (now, q) (Recorded (eq_id e)) (now, q')"
| on_query: "record_query_in_transaction parse_uuid q i deadline payload worker queue tags = Inr q' \<Longrightarrow>
    outbox_step (now, q) (Recorded i) (now, q')"
| on_claim: "claim_dispatch now q i c lease = (won, q') \<Longrightarrow> outbox_step (now, q) (Claimed i c) (now, q')"
| on_ack: "acknowledge_dispatch now q i c p = Inr (ok, q') \<Longrightarrow> outbox_step (now, q) (Acknowledged i c) (now, q')"
| on_expire: "outbox_step (now, q) (Expired i) (now, expire_dispatch q i)"
| on_reset: "record_lifecycle_payload hyphenated parse_uuid q l payload worker queue tags = Inr q' \<Longrightarrow>
    outbox_step (now, q) (Reset l) (now, q')"
| on_other: "outbox_step (now, q) OtherTable (now, q\<lparr>q_lifecycles := t\<rparr>)"

inductive outbox_run :: "instant \<times> queue_store \<Rightarrow> outbox_event list \<Rightarrow> instant \<times> queue_store \<Rightarrow> bool" where
  rest: "outbox_run s [] s"
| advance: "outbox_step s ev s' \<Longrightarrow> outbox_run s' evs s'' \<Longrightarrow> outbox_run s (ev # evs) s''"

text \<open>Token \<open>c\<close> holds dispatch \<open>i\<close>, of lifecycle \<open>l\<close>, until \<open>u\<close>.\<close>

definition held :: "uuid \<Rightarrow> uuid option \<Rightarrow> uuid \<Rightarrow> instant \<Rightarrow> queue_store \<Rightarrow> bool" where
  "held i l c u q \<longleftrightarrow> distinct (map ob_id (q_outbox q)) \<and>
     (\<exists>r \<in> set (q_outbox q). ob_id r = i \<and> ob_lifecycle_id r = l \<and> ob_claim_token r = Some c \<and>
        ob_claim_until r = Some u \<and> ob_published_at r = None)"

text \<open>A statement that keeps the ids and does not select the held row leaves it held.\<close>

lemma held_update:
  assumes "held i l c u q" and "q_outbox q' = update_where p f (q_outbox q)" and "\<And>r. ob_id (f r) = ob_id r"
    and "\<And>r. ob_id r = i \<Longrightarrow> ob_lifecycle_id r = l \<Longrightarrow> ob_claim_token r = Some c \<Longrightarrow> ob_claim_until r = Some u \<Longrightarrow>
      ob_published_at r = None \<Longrightarrow> \<not> p r"
  shows "held i l c u q'"
proof -
  have "map ob_id (q_outbox q') = map ob_id (q_outbox q)"
    using assms(3) by (auto simp: assms(2) update_where_def)
  moreover obtain r where r: "r \<in> set (q_outbox q)" "ob_id r = i" "ob_lifecycle_id r = l" "ob_claim_token r = Some c"
    "ob_claim_until r = Some u" "ob_published_at r = None"
    using assms(1) unfolding held_def by blast
  moreover have "r \<in> set (q_outbox q')"
    using r assms(4) [OF r(2-6)] by (auto simp: assms(2) update_where_def intro!: rev_image_eqI)
  ultimately show ?thesis using assms(1) unfolding held_def by (simp, blast)
qed

text \<open>The outbox after each operation.\<close>

definition appended :: "queue_store \<Rightarrow> queue_store \<Rightarrow> bool" where
  "appended q q' \<longleftrightarrow> (\<exists>row. q_outbox q' = q_outbox q @ [row] \<and> ob_id row \<notin> ob_id ` set (q_outbox q))"

lemma outbox_after:
  "record_in_transaction hyphenated parse_uuid now q e payload worker queue tags = Inr q' \<Longrightarrow> appended q q'"
  "record_query_in_transaction parse_uuid q i deadline payload worker queue tags = Inr q' \<Longrightarrow> appended q q'"
  "claim_dispatch now q i c lease = (won, q') \<Longrightarrow>
     q_outbox q' = update_where (claimable now i) (\<lambda>r. r\<lparr>ob_last_attempt_at := Some now,
       ob_claim_token := Some c, ob_claim_until := Some (now + lease)\<rparr>) (q_outbox q)"
  "acknowledge_dispatch now q i c p = Inr (ok, q') \<Longrightarrow> q' = q \<or>
     q_outbox q' = update_where (acknowledgeable now i c)
       (\<lambda>r. r\<lparr>ob_published_at := Some now, ob_claim_token := None, ob_claim_until := None\<rparr>) (q_outbox q)"
  "record_lifecycle_payload hyphenated parse_uuid q l payload worker queue tags = Inr q' \<Longrightarrow>
     q_outbox q' = update_where (\<lambda>r. ob_lifecycle_id r = Some l)
       (reset_outbox parse_uuid (payload_insert ''lifecycle_id'' (hyphenated l) payload) worker queue tags) (q_outbox q)"
  by (auto simp: appended_def record_in_transaction_def record_query_in_transaction_def insert_outbox_def
      claim_dispatch_def acknowledge_dispatch_def record_lifecycle_payload_def rbind_Inr_iff Let_def
      split: if_splits option.splits)

lemma held_append: "held i l c u q \<Longrightarrow> appended q q' \<Longrightarrow> held i l c u q'"
  unfolding held_def appended_def by auto

lemma held_step:
  assumes "outbox_step (now, q) ev (now', q')" "held i l c u q" "now < u"
    and "ev \<noteq> Acknowledged i c" "ev \<noteq> Expired i" "\<And>x. l = Some x \<Longrightarrow> ev \<noteq> Reset x"
  shows "held i l c u q'"
  using assms(1)
proof cases
  case (on_claim j c' lease won)
  show ?thesis
    by (rule held_update [OF assms(2) outbox_after(3) [OF on_claim(3)]]) (use assms(3) in \<open>auto simp: claimable_def\<close>)
next
  case (on_ack j c' p ok)
  then consider "q' = q" | "q_outbox q' = update_where (acknowledgeable now j c')
      (\<lambda>r. r\<lparr>ob_published_at := Some now, ob_claim_token := None, ob_claim_until := None\<rparr>) (q_outbox q)"
    using outbox_after(4) by blast
  then show ?thesis
  proof cases
    case 2
    then show ?thesis
      by (rule held_update [OF assms(2)]) (use assms(4) on_ack(1) in \<open>auto simp: acknowledgeable_def\<close>)
  qed (use assms(2) in simp)
next
  case (on_expire j)
  then show ?thesis
    using assms(2,5) by (auto simp: held_def expire_dispatch_def set_delete_where distinct_key_delete)
next
  case (on_reset hyphenated parse_uuid x payload worker queue tags)
  show ?thesis
    by (rule held_update [OF assms(2) outbox_after(5) [OF on_reset(3)]])
      (use assms(6) on_reset(1) in \<open>auto simp: reset_outbox_def\<close>)
next
  case (on_record hyphenated parse_uuid e payload worker queue tags)
  show ?thesis by (rule held_append [OF assms(2) outbox_after(1) [OF on_record(3)]])
next
  case (on_query parse_uuid j deadline payload worker queue tags)
  show ?thesis by (rule held_append [OF assms(2) outbox_after(2) [OF on_query(3)]])
qed (use assms(2) in \<open>simp_all add: held_def\<close>)

lemma outbox_time: "outbox_run s evs s' \<Longrightarrow> fst s \<le> fst s'"
  by (induction rule: outbox_run.induct) (auto elim!: outbox_step.cases)

lemma held_run:
  assumes "outbox_run s evs s'" "held i l c u (snd s)" "fst s' < u"
    and "Acknowledged i c \<notin> set evs" "Expired i \<notin> set evs" "\<And>x. l = Some x \<Longrightarrow> Reset x \<notin> set evs"
  shows "held i l c u (snd s')"
  using assms
proof (induction rule: outbox_run.induct)
  case (advance s ev s1 evs s2)
  have "fst s \<le> fst s1" "fst s1 \<le> fst s2"
    using outbox_time [of s "[ev]" s1] outbox_time [OF advance.hyps(2)] advance.hyps(1)
    by (auto intro: outbox_run.intros)
  then have "held i l c u (snd s1)"
    using held_step [of "fst s" "snd s" ev "fst s1" "snd s1" i l c u] advance.hyps(1) advance.prems by fastforce
  then show ?case using advance by fastforce
qed simp

text \<open>
  Property C15. While a relay's claim on a dispatch lasts, whatever the other relays, workers and dispatchers do,
  no other claim on it succeeds and no other token can acknowledge it: the dispatch has one publisher
  until that relay acknowledges, the claim lapses, or the dispatch is requeued or dropped.
\<close>

theorem claim_is_exclusive:
  assumes "distinct (map ob_id (q_outbox q))" and "claim_dispatch now q i c lease = (True, q1)"
    and "outbox_run (now, q1) evs (now', q')" and "now' < now + lease"
    and "Acknowledged i c \<notin> set evs" "Expired i \<notin> set evs"
    and "\<And>row l. row \<in> set (q_outbox q) \<Longrightarrow> ob_id row = i \<Longrightarrow> ob_lifecycle_id row = Some l \<Longrightarrow> Reset l \<notin> set evs"
  shows "\<not> fst (claim_dispatch now' q' i c' lease') \<and>
    (c' \<noteq> c \<longrightarrow> acknowledge_dispatch now' q' i c' p = Inr (False, q'))"
proof -
  obtain row where row: "row \<in> set (q_outbox q)" "claimable now i row"
    using assms(2) by (metis (mono_tags, lifting) claim_dispatch_def count_where_pos fst_conv zero_less_one)
  define l where "l = ob_lifecycle_id row"
  let ?f = "\<lambda>r. r\<lparr>ob_last_attempt_at := Some now, ob_claim_token := Some c, ob_claim_until := Some (now + lease)\<rparr>"
  have ob: "q_outbox q1 = update_where (claimable now i) ?f (q_outbox q)" by (rule outbox_after(3) [OF assms(2)])
  have "?f row \<in> set (q_outbox q1)" using row by (auto simp: ob update_where_def intro!: rev_image_eqI)
  moreover have "map ob_id (q_outbox q1) = map ob_id (q_outbox q)" by (auto simp: ob update_where_def)
  ultimately have "held i l c (now + lease) q1"
    using assms(1) row(2) unfolding held_def by (intro conjI bexI [of _ "?f row"]) (auto simp: claimable_def l_def)
  then have "held i l c (now + lease) q'"
    using held_run [OF assms(3)] assms(4-6) assms(7) [OF row(1)] row(2) by (auto simp: claimable_def l_def)
  then obtain r where r: "r \<in> set (q_outbox q')" "ob_id r = i" "ob_claim_token r = Some c"
    "ob_claim_until r = Some (now + lease)" and dist: "distinct (map ob_id (q_outbox q'))"
    unfolding held_def by blast
  have only: "x = r" if "x \<in> set (q_outbox q')" "ob_id x = i" for x
    using distinct_key_unique [OF dist that(1) r(1)] that(2) r(2) by simp
  have "\<not> claimable now' i x" "c' \<noteq> c \<Longrightarrow> \<not> acknowledgeable now' i c' x" if "x \<in> set (q_outbox q')" for x
    using only [OF that] r(3,4) assms(4) by (auto simp: claimable_def acknowledgeable_def)
  then have "count_where (claimable now' i) (q_outbox q') = 0"
    and "c' \<noteq> c \<Longrightarrow> count_where (acknowledgeable now' i c') (q_outbox q') = 0"
    unfolding count_where_0 by blast+
  then show ?thesis by (auto simp: claim_dispatch_def acknowledge_dispatch_def Let_def)
qed

definition unpublished :: queue_store where
  "unpublished = \<lparr>q_lifecycles = [queued_row 0 (limited_job 11)], q_outbox = [(cited_job 11)\<lparr>ob_published_at := None\<rparr>]\<rparr>"

theorem claim_is_exclusive_witness:
  "\<exists>q1. claim_dispatch 0 unpublished 11 70 30 = (True, q1)
     \<and> \<not> fst (claim_dispatch 20 q1 11 71 30) \<and> acknowledge_dispatch 20 q1 11 71 ''job'' = Inr (False, q1)"
proof -
  obtain q1 where q1: "claim_dispatch 0 unpublished 11 70 30 = (True, q1)"
    by (simp add: unpublished_def claim_dispatch_def claimable_def cited_job_def count_where_def)
  have run: "outbox_run (0, q1) [OutboxTick] (20, q1)"
    by (rule outbox_run.advance [OF on_tick outbox_run.rest]) simp
  have "\<not> fst (claim_dispatch 20 q1 11 71 30) \<and> ((71 :: uuid) \<noteq> 70 \<longrightarrow> acknowledge_dispatch 20 q1 11 71 ''job'' = Inr (False, q1))"
    by (rule claim_is_exclusive [OF _ q1 run]) (simp_all add: unpublished_def cited_job_def)
  then show ?thesis using q1 by auto
qed

section \<open>Dispatch\<close>

lemma refuse_unavailable:
  "refuse now t e diagnostic = t \<or>
   (\<exists>row. refuse now t e diagnostic = t @ [row] \<and> lc_id row = eq_id e \<and> lc_status row = Unavailable)"
proof (cases "record_enqueue now t e")
  case (Inr t1)
  then have t1: "t1 = t @ [queued_row now e]" and ok: "lifecycle_constraints t1"
    by (auto simp: record_enqueue_def write_lifecycles_def split: if_splits)
  then have fresh: "eq_id e \<notin> lc_id ` set t" by (auto simp: lifecycle_constraints_def queued_row_def)
  let ?u = "update_where (\<lambda>r. lc_id r = eq_id e) (finished now Unavailable (Some diagnostic)) t1"
  have u: "?u = t @ [finished now Unavailable (Some diagnostic) (queued_row now e)]"
    using fresh by (auto simp: t1 update_where_def queued_row_def image_iff intro!: map_idI)
  have "lifecycle_constraints ?u"
    by (rule constraints_update [OF ok]) (simp add: waiting_or_running_def)
  moreover have "count_where (\<lambda>r. lc_id r = eq_id e) t1 \<noteq> 0"
    by (auto simp: t1 queued_row_def count_where_append)
  ultimately have "close_unavailable now t1 (eq_id e) diagnostic = ?u"
    by (simp add: close_unavailable_def finish_job_def update_lifecycles_def write_lifecycles_def)
  then show ?thesis using Inr u by (simp add: refuse_def queued_row_def)
qed (simp add: refuse_def)

lemma recorded:
  assumes "record_in_transaction hyphenated parse_uuid now q e payload worker queue tags = Inr q'"
  shows "\<exists>row. q' = \<lparr>q_lifecycles = q_lifecycles q @ [queued_row now e], q_outbox = q_outbox q @ [row]\<rparr> \<and>
    ob_id row = eq_id e \<and> ob_lifecycle_id row = Some (eq_id e) \<and> ob_tags row = tags \<and> (\<forall>now'. is_due now' q' row)"
proof -
  obtain row where q': "q' = \<lparr>q_lifecycles = q_lifecycles q @ [queued_row now e], q_outbox = q_outbox q @ [row]\<rparr>"
    and row: "ob_id row = eq_id e" "ob_lifecycle_id row = Some (eq_id e)" "ob_tags row = tags"
      "ob_published_at row = None" "ob_last_attempt_at row = None"
    and ok: "lifecycle_constraints (q_lifecycles q @ [queued_row now e])"
    using assms by (auto simp: record_in_transaction_def record_enqueue_def write_lifecycles_def insert_outbox_def
        rbind_Inr_iff Let_def split: if_splits)
  have "\<forall>r \<in> set (q_lifecycles q). lc_id r \<noteq> eq_id e"
    using ok unfolding lifecycle_constraints_def by (auto simp: queued_row_def image_iff)
  then have "job (q_lifecycles q) (eq_id e) = None" by (simp add: find_row_None)
  then have "job (q_lifecycles q') (eq_id e) = Some (queued_row now e)"
    unfolding q' by (simp add: find_row_append) (simp add: find_row_def queued_row_def)
  then have "\<forall>now'. is_due now' q' row"
    using row by (simp add: is_due_def lifecycle_of_def queued_row_def)
  then show ?thesis using q' row by blast
qed

lemma dispatch_job_Inr:
  assumes "dispatch_job hyphenated parse_uuid policy i now d q spec = (Inr j, q')"
  shows "j = i \<and> (\<exists>target l row. for_job d (js_class spec) (js_workspace_id spec) = Inr target \<and>
      q_lifecycles q' = q_lifecycles q @ [l] \<and> lc_id l = i \<and> lc_status l = Queued \<and>
      q_outbox q' = q_outbox q @ [row] \<and> ob_lifecycle_id row = Some i \<and>
      ob_tags row = Some [worker_tag hyphenated (js_worker_name spec) target] \<and> (\<forall>now'. is_due now' q' row))"
proof -
  obtain target where target: "for_job d (js_class spec) (js_workspace_id spec) = Inr target"
    using assms by (cases "for_job d (js_class spec) (js_workspace_id spec)") (simp_all add: dispatch_job_def)
  let ?tag = "worker_tag hyphenated (js_worker_name spec) target"
  let ?payload = "payload_insert ''workspace_id'' (hyphenated (js_workspace_id spec))
    (payload_insert ''lifecycle_id'' (hyphenated i) (js_dispatch_payload spec))"
  define choice where "choice = (if js_use_queue_concurrency spec
    then rbind policy (\<lambda>p. Inr (Some (cp_plan p), Some (concurrency_key hyphenated target), cp_limit p))
    else Inr (None, None, None))"
  obtain plan key limit where choice: "choice = Inr (plan, key, limit)"
    using assms target by (cases choice) (auto simp: dispatch_job_def choice_def [symmetric])
  obtain tenant where tenant: "get_workspace_tenant d (js_workspace_id spec) = Inr tenant"
    using assms target choice
    by (cases "get_workspace_tenant d (js_workspace_id spec)") (auto simp: dispatch_job_def choice_def [symmetric])
  have "record_in_transaction hyphenated parse_uuid now q (spec_enqueue spec i plan key limit) ?payload
      (js_worker_name spec) (Some ?tag) (Some [?tag]) = Inr q' \<and> j = i"
    using assms target choice tenant
    by (cases "record_in_transaction hyphenated parse_uuid now q (spec_enqueue spec i plan key limit) ?payload
      (js_worker_name spec) (Some ?tag) (Some [?tag])") (auto simp: dispatch_job_def choice_def [symmetric] Let_def)
  with target show ?thesis
    using recorded [of hyphenated parse_uuid now q "spec_enqueue spec i plan key limit" ?payload "js_worker_name spec"
        "Some ?tag" "Some [?tag]" q'] by (auto simp: spec_enqueue_def queued_row_def)
qed

text \<open>
  Dispatching a job either records its lifecycle row, queued, together with one outbox row that
  carries the tag of the job's own target and is due at once, or refuses it: then nothing is added to the
  outbox, so nothing will ever be published for it, and at most a row with status unavailable is left.
\<close>

theorem dispatch_records_or_refuses:
  assumes "dispatch_job hyphenated parse_uuid policy i now d q spec = (result, q')"
  shows "(result = Inr i \<and> (\<exists>target l row. for_job d (js_class spec) (js_workspace_id spec) = Inr target \<and>
      q_lifecycles q' = q_lifecycles q @ [l] \<and> lc_id l = i \<and> lc_status l = Queued \<and>
      q_outbox q' = q_outbox q @ [row] \<and> ob_lifecycle_id row = Some i \<and>
      ob_tags row = Some [worker_tag hyphenated (js_worker_name spec) target] \<and> (\<forall>now'. is_due now' q' row)))
    \<or> (\<exists>e. result = Inl e \<and> q_outbox q' = q_outbox q \<and>
      (q_lifecycles q' = q_lifecycles q \<or> (\<exists>l. q_lifecycles q' = q_lifecycles q @ [l] \<and> lc_status l = Unavailable)))"
proof (cases result)
  case (Inl e)
  then have "q' = q \<or> (\<exists>diagnostic. q' = refuse_job now q spec i diagnostic)"
    using assms unfolding dispatch_job_def Let_def by (auto split: sum.splits prod.splits)
  then show ?thesis using Inl refuse_unavailable by (fastforce simp: refuse_job_def)
next
  case (Inr j)
  then show ?thesis using dispatch_job_Inr assms by blast
qed

theorem dispatch_records_or_refuses_witness:
  "\<exists>q' row. dispatch_job tally untally (Inr \<lparr>cp_plan = ''free'', cp_limit = Some 2\<rparr>) 12 5 one_workspace
       \<lparr>q_lifecycles = [], q_outbox = []\<rparr>
       \<lparr>js_job_name = ''reindex'', js_workspace_id = 3, js_class = Shared, js_dispatch_payload = JObj [],
        js_worker_name = ''ReindexWorker'', js_use_queue_concurrency = True\<rparr> = (Inr 12, q')
     \<and> q_outbox q' = [row] \<and> ob_tags row = Some [''worker-target:shared'']"
proof -
  let ?spec = "\<lparr>js_job_name = ''reindex'', js_workspace_id = 3, js_class = Shared, js_dispatch_payload = JObj [],
        js_worker_name = ''ReindexWorker'', js_use_queue_concurrency = True\<rparr> :: job_spec"
  obtain result q' where d: "dispatch_job tally untally (Inr \<lparr>cp_plan = ''free'', cp_limit = Some 2\<rparr>) 12 5 one_workspace
       \<lparr>q_lifecycles = [], q_outbox = []\<rparr> ?spec = (result, q')" and "result = Inr 12"
    by (simp add: dispatch_job_def for_job_def get_workspace_tenant_def one_workspace_def find_row_def
        record_in_transaction_def record_enqueue_def insert_outbox_def queue_eval spec_enqueue_def)
  from dispatch_records_or_refuses [OF d] this(2) d show ?thesis
    by (auto simp: for_job_def worker_tag_def is_embedding_worker_def target_tag_def TAG_PREFIX_def)
qed

end
