(* ===== verification/Workspaces.thy ===== *)
theory Workspaces
  imports Billing Relation_Store Dispatch_Outbox
begin

text \<open>
  The workspace operations of \<open>src/models/tenancy.rs\<close> and \<open>src/models/workspace_workspaces.rs\<close> that an
  authenticated actor calls, under the quotas of the tenant's plan (\<open>ee/app.rs\<close>).

  The lemmas show that a plan bounds the number of workspaces, that only a tenant administrator changes a
  quota, and that a listing shows an actor the workspaces it may open.
\<close>

section \<open>Creating and deleting\<close>

record quotas =
  qt_workspaces :: "int option"
  qt_entities :: "int option"

definition quotas_of :: "deployment \<Rightarrow> int \<Rightarrow> billing_db \<Rightarrow> uuid \<Rightarrow> quotas result" where
  "quotas_of dep now s tenant_id =
     rbind (plan_policy_current dep now) (\<lambda>policy.
       if policy = PolicyDisabled then Inr \<lparr>qt_workspaces = None, qt_entities = None\<rparr>
       else rbind (plan_for_tenant dep now s tenant_id) (\<lambda>p.
         Inr \<lparr>qt_workspaces = pc_max_workspaces (caps p), qt_entities = pc_default_max_entities (caps p)\<rparr>))"

definition create_workspace_in_context ::
  "deployment \<Rightarrow> uuid \<Rightarrow> instant \<Rightarrow> billing_db \<Rightarrow> auth_context \<Rightarrow> string \<Rightarrow> int option \<Rightarrow> uuid option \<Rightarrow>
   (workspace_row \<times> billing_db) result" where
  "create_workspace_in_context dep new_id now s actor name max_entities schema_id =
     rbind (require_current_tenant_admin now (bg_identity s) actor) (\<lambda>_.
     rbind (quotas_of dep now s (au_tenant_id actor)) (\<lambda>quota.
     rbind (create_workspace_with_quota new_id now (bg_identity s) (au_tenant_id actor) name max_entities schema_id
              (qt_workspaces quota)) (\<lambda>(w, i).
       Inr (w, s\<lparr>bg_identity := i\<rparr>))))"

definition delete_workspace_as ::
  "(db \<Rightarrow> uuid \<Rightarrow> bool) \<Rightarrow> instant \<Rightarrow> billing_db \<Rightarrow> auth_context \<Rightarrow> uuid \<Rightarrow> billing_db result" where
  "delete_workspace_as restricts now s actor workspace_id =
     rbind (require_current_tenant_admin now (bg_identity s) actor) (\<lambda>_.
     rbind (get_workspace_tenant (id_store (bg_identity s)) workspace_id) (\<lambda>tenant_id.
     if tenant_id \<noteq> au_tenant_id actor then Inl (NotFound ''workspace not found'')
     else rbind (delete_workspace restricts (id_store (bg_identity s)) workspace_id) (\<lambda>d.
       Inr (s\<lparr>bg_identity := (bg_identity s)\<lparr>id_store := d,
                 id_workspace_members := delete_where (\<lambda>m. wm_workspace_id m = workspace_id)
                   (id_workspace_members (bg_identity s)),
                 id_keys := delete_where (\<lambda>k. ak_workspace_id k = Some workspace_id) (id_keys (bg_identity s))\<rparr>,
              bg_ledger := delete_where (\<lambda>r. le_workspace_id r = workspace_id) (bg_ledger s)\<rparr>))))"

section \<open>Listing, reading, updating\<close>

definition list_workspaces_for_user :: "identity_db \<Rightarrow> uuid \<Rightarrow> (uuid \<times> string) list result" where
  "list_workspaces_for_user s user_id =
     rbind (login_options s user_id) (\<lambda>(_, workspaces).
       Inr (map (\<lambda>w. (lw_workspace_id w, lw_workspace_name w)) workspaces))"

definition discover_workspaces :: "instant \<Rightarrow> identity_db \<Rightarrow> auth_context \<Rightarrow> login_workspace list result" where
  "discover_workspaces now s actor =
     rbind (current_context now s actor) (\<lambda>current.
     case au_user_id current of
       Some user_id \<Rightarrow>
         rbind (login_options s user_id) (\<lambda>(_, workspaces).
           Inr (filter (\<lambda>w. lw_tenant_id w = au_tenant_id current) workspaces))
     | None \<Rightarrow>
         rbind (ok_or (find_row (\<lambda>w. wk_id w = au_workspace_id current \<and> wk_tenant_id w = au_tenant_id current)
                  (db_workspaces (id_store s))) Unauthenticated) (\<lambda>w.
         rbind (ok_or (find_row (\<lambda>t. tn_id t = wk_tenant_id w) (id_tenants s)) Unauthenticated) (\<lambda>t.
           Inr [\<lparr>lw_workspace_id = wk_id w, lw_workspace_name = wk_name w,
                 lw_tenant_id = tn_id t, lw_tenant_name = tn_name t\<rparr>])))"

definition list_for_actor :: "instant \<Rightarrow> identity_db \<Rightarrow> auth_context \<Rightarrow> workspace_row list result" where
  "list_for_actor now s actor =
     rbind (discover_workspaces now s actor) (\<lambda>candidates.
       Inr (select_where (\<lambda>w. wk_tenant_id w = au_tenant_id actor \<and> wk_id w \<in> lw_workspace_id ` set candidates)
              (db_workspaces (id_store s))))"

definition get_for_actor :: "instant \<Rightarrow> identity_db \<Rightarrow> auth_context \<Rightarrow> uuid \<Rightarrow> workspace_row result" where
  "get_for_actor now s actor workspace_id =
     rbind (current_context now s actor) (\<lambda>current.
     rbind (get_workspace (id_store s) workspace_id) (\<lambda>workspace.
     rbind (if wk_tenant_id workspace \<noteq> au_tenant_id current \<or> workspace_id \<noteq> au_workspace_id current then Inr False
            else case au_user_id current of
              Some user_id \<Rightarrow> rbind (workspace_access s (au_tenant_id current) workspace_id user_id) (\<lambda>a. Inr (a \<noteq> None))
            | None \<Rightarrow> Inr (workspace_id = au_workspace_id current)) (\<lambda>allowed.
     if \<not> allowed then Inl (NotFound ''workspace not found'') else Inr workspace)))"

record update_workspace_request =
  uw_name :: "string option"
  uw_replace_max_entities :: bool
  uw_max_entities :: "int option"

definition workspace_name_ok :: "string \<Rightarrow> bool" where
  "workspace_name_ok name \<longleftrightarrow> trim name \<noteq> [] \<and> char_count (trim name) \<le> 100"

definition update_as ::
  "instant \<Rightarrow> identity_db \<Rightarrow> auth_context \<Rightarrow> uuid \<Rightarrow> update_workspace_request \<Rightarrow> (workspace_row \<times> identity_db) result" where
  "update_as now s actor i input =
     rbind (require_current_workspace_admin now s actor i) (\<lambda>_.
     rbind (get_for_actor now s actor i) (\<lambda>workspace.
     if uw_max_entities input \<noteq> None \<and> \<not> uw_replace_max_entities input
     then Inl (Conflict ''max_entities requires replace_max_entities=true'')
     else if (case uw_max_entities input of None \<Rightarrow> False | Some limit \<Rightarrow> limit < 0)
     then Inl (Conflict ''max_entities must not be negative'')
     else rbind (case uw_name input of
                   None \<Rightarrow> Inr workspace
                 | Some name \<Rightarrow>
                     if \<not> workspace_name_ok name then Inl (Conflict ''workspace name must contain 1-100 characters'')
                     else Inr (workspace\<lparr>wk_name := trim name\<rparr>)) (\<lambda>named.
     rbind (if uw_replace_max_entities input
            then rbind (require_current_tenant_admin now s actor) (\<lambda>_.
                   Inr (named\<lparr>wk_max_entities := uw_max_entities input\<rparr>))
            else Inr named) (\<lambda>saved.
     Inr (saved, s\<lparr>id_store := (id_store s)\<lparr>db_workspaces :=
            update_where (\<lambda>w. wk_id w = i) (\<lambda>w. saved) (db_workspaces (id_store s))\<rparr>\<rparr>)))))"

record workspace_detail =
  wd_workspace :: workspace_row
  wd_effective_max_entities :: "int option"
  wd_entity_count :: nat
  wd_relation_count :: nat
  wd_schema_count :: nat

definition detail_for_actor ::
  "deployment \<Rightarrow> instant \<Rightarrow> billing_db \<Rightarrow> auth_context \<Rightarrow> uuid \<Rightarrow> workspace_detail result" where
  "detail_for_actor dep now s actor i =
     rbind (get_for_actor now (bg_identity s) actor i) (\<lambda>workspace.
     rbind (quotas_of dep now s (wk_tenant_id workspace)) (\<lambda>quotas.
     let d = id_store (bg_identity s) in
     Inr \<lparr>wd_workspace = workspace,
          wd_effective_max_entities = effective_limit (wk_max_entities workspace) (qt_entities quotas),
          wd_entity_count = entity_count d i,
          wd_relation_count = relation_count d i,
          wd_schema_count = count_active d i\<rparr>))"

record tenant_usage =
  tu_workspace_count :: nat
  tu_member_count :: nat
  tu_entity_count :: nat

definition compute_tenant_usage :: "identity_db \<Rightarrow> uuid \<Rightarrow> tenant_usage" where
  "compute_tenant_usage s tenant_id =
     (let ws = select_where (\<lambda>w. wk_tenant_id w = tenant_id) (db_workspaces (id_store s)) in
      \<lparr>tu_workspace_count = length ws,
       tu_member_count = count_where (\<lambda>m. mb_tenant_id m = tenant_id) (id_members s),
       tu_entity_count = sum_list (map (\<lambda>w. entity_count (id_store s) (wk_id w)) ws)\<rparr>)"

section \<open>Admission under a plan\<close>

text \<open>
  What \<open>ee/workers/queue.rs\<close> answers the dispatcher, which takes it as its policy; \<open>limits\<close> are the deployment's
  \<open>WorkerClassLimits\<close>.  Errors are operator diagnostics, strings.
\<close>

record worker_class_limits =
  wl_shared :: int
  wl_tenant_private :: int
  wl_official :: "int option"

definition community_concurrency :: concurrency_policy where
  "community_concurrency = \<lparr>cp_plan = ''community'', cp_limit = None\<rparr>"

definition plan_for_workspace :: "deployment \<Rightarrow> int \<Rightarrow> billing_db \<Rightarrow> uuid \<Rightarrow> string + plan" where
  "plan_for_workspace dep now s workspace_id =
     (case get_workspace (id_store (bg_identity s)) workspace_id of
        Inl (NotFound _) \<Rightarrow> Inl ''queue policy unavailable: workspace does not exist''
      | Inl _ \<Rightarrow> Inl ''queue policy lookup failed for workspace: {}''
      | Inr workspace \<Rightarrow>
          (case plan_for_tenant dep now s (wk_tenant_id workspace) of
             Inl _ \<Rightarrow> Inl ''queue policy lookup failed for plan: {}''
           | Inr p \<Rightarrow> Inr p))"

definition plan_concurrency ::
  "deployment \<Rightarrow> worker_class_limits option \<Rightarrow> int \<Rightarrow> billing_db \<Rightarrow> uuid \<Rightarrow> worker_class \<Rightarrow> string + concurrency_policy" where
  "plan_concurrency dep worker_limits now s workspace_id class =
     (case plan_policy_current dep now of
        Inl _ \<Rightarrow> Inl ''{}''
      | Inr PolicyDisabled \<Rightarrow> Inr community_concurrency
      | Inr PolicyEnabled \<Rightarrow>
          rbind (plan_for_workspace dep now s workspace_id) (\<lambda>p.
          rbind (ok_or worker_limits ''queue policy unavailable: worker limits are missing'') (\<lambda>limits.
          Inr \<lparr>cp_plan = plan_as_str p,
               cp_limit = Some (case class of
                  Shared \<Rightarrow> wl_shared limits
                | TenantPrivate \<Rightarrow> wl_tenant_private limits
                | Official \<Rightarrow> (case wl_official limits of
                    Some n \<Rightarrow> n
                  | None \<Rightarrow> int (cp_base_official_concurrency (compute_policy_of p))))\<rparr>)))"

section \<open>A plan bounds the workspaces of a tenant\<close>

text \<open>
  A plan bounds the workspaces of a tenant: when plan rules apply, a workspace created through
  the API leaves the tenant with no more workspaces than its plan allows, was requested by a current tenant
  owner or administrator, and adds one empty workspace of that tenant to the ones there were.
\<close>

theorem plan_bounds_workspaces:
  assumes "create_workspace_in_context dep i now s actor name me sid = Inr (w, s')"
    and "plan_policy_current dep now = Inr PolicyEnabled"
    and "plan_for_tenant dep now s (au_tenant_id actor) = Inr p" and "pc_max_workspaces (caps p) = Some m"
  shows "int (count_where (\<lambda>w. wk_tenant_id w = au_tenant_id actor) (db_workspaces (id_store (bg_identity s')))) \<le> m \<and>
    db_workspaces (id_store (bg_identity s')) = db_workspaces (id_store (bg_identity s)) @ [w] \<and>
    wk_tenant_id w = au_tenant_id actor \<and>
    (\<exists>user role. au_user_id actor = Some user \<and>
       get_membership_role (bg_identity s) (au_tenant_id actor) user = Some role \<and> administers_tenant role)"
proof -
  let ?count = "count_where (\<lambda>w. wk_tenant_id w = au_tenant_id actor) (db_workspaces (id_store (bg_identity s)))"
  from assms obtain d where "require_current_tenant_admin now (bg_identity s) actor = Inr ()"
    and created: "create_workspace_with_quota i now (bg_identity s) (au_tenant_id actor) name me sid (Some m) = Inr (w, d)"
    and s': "s' = s\<lparr>bg_identity := d\<rparr>"
    by (auto simp: create_workspace_in_context_def quotas_of_def rbind_Inr_iff)
  then have "\<exists>user role. au_user_id actor = Some user \<and>
      get_membership_role (bg_identity s) (au_tenant_id actor) user = Some role \<and> administers_tenant role"
    by (elim require_current_tenant_admin_Inr) blast
  moreover from created have "int ?count < max m 0"
    by (fastforce simp: create_workspace_with_quota_def effective_limit_def rbind_Inr_iff ensure_Inr_iff
        split: option.splits)
  moreover from created have "db_workspaces (id_store d) = db_workspaces (id_store (bg_identity s)) @ [w]"
    "wk_tenant_id w = au_tenant_id actor"
    by (auto simp: create_workspace_with_quota_def rbind_Inr_iff Let_def split: if_splits)
  ultimately show ?thesis by (auto simp: count_where_append s')
qed

definition pro_licence :: deployment where
  "pro_licence = \<lparr>dp_plan_policy = Some True, dp_licence = Some (Some \<lparr>lc_sub = ''acme'', lc_plan = ''pro'', lc_exp = 90\<rparr>)\<rparr>"

definition one_left :: billing_db where
  "one_left = acme_billing\<lparr>bg_identity := acme\<lparr>id_store := empty_db\<lparr>db_workspaces := [acme_workspace 3 ''main'']\<rparr>\<rparr>\<rparr>"

lemmas workspace_evals = pro_licence_def one_left_def billing_defs acme_admin_def access_evals caps_def
  plan_policy_current_def plan_policy_resolve_def is_active_at_def plan_for_tenant_def active_plan_at_def plan_from_db_str_def

theorem plan_bounds_workspaces_witness:
  "\<exists>w s'. create_workspace_in_context pro_licence 5 6 one_left acme_admin ''lab'' None None = Inr (w, s') \<and>
     int (count_where (\<lambda>w. wk_tenant_id w = au_tenant_id acme_admin) (db_workspaces (id_store (bg_identity s')))) \<le> 5"
proof -
  obtain w s' where created: "create_workspace_in_context pro_licence 5 6 one_left acme_admin ''lab'' None None = Inr (w, s')"
    by (simp add: create_workspace_in_context_def quotas_of_def create_workspace_with_quota_def effective_limit_def
        workspace_evals Let_def)
  have "plan_policy_current pro_licence 6 = Inr PolicyEnabled"
    "plan_for_tenant pro_licence 6 one_left (au_tenant_id acme_admin) = Inr PlanPro"
    "pc_max_workspaces (caps PlanPro) = Some 5"
    by (simp_all add: workspace_evals)
  then show ?thesis using plan_bounds_workspaces [OF created] created by blast
qed

section \<open>The licence decides before the subscription\<close>

text \<open>
  Plan rules apply only under a current licence, and a current licence that names a known plan
  decides every quota: what the tenant subscribed to is then never consulted.
\<close>

theorem licence_decides_quotas:
  assumes "plan_policy_current dep now = Inr PolicyEnabled"
  shows "\<exists>l. dp_licence dep = Some l \<and> is_active_at l now \<and>
    (\<forall>p s t. active_plan_at l now = Some p \<longrightarrow>
       quotas_of dep now s t = Inr \<lparr>qt_workspaces = pc_max_workspaces (caps p), qt_entities = pc_default_max_entities (caps p)\<rparr>)"
proof -
  obtain enabled where "dp_plan_policy dep = Some enabled" "plan_policy_resolve enabled (dp_licence dep) now = PolicyEnabled"
    using assms by (auto simp: plan_policy_current_def rbind_Inr_iff ok_or_Inr_iff)
  then obtain l where "dp_licence dep = Some l" "is_active_at l now"
    by (auto simp: plan_policy_resolve_def split: if_splits option.splits)
  then show ?thesis using assms by (auto simp: quotas_of_def plan_for_tenant_def)
qed

theorem licence_decides_quotas_witness:
  "quotas_of pro_licence 6 acme_billing 9 = Inr \<lparr>qt_workspaces = Some 5, qt_entities = Some 50000\<rparr>"
proof -
  have "plan_policy_current pro_licence 6 = Inr PolicyEnabled"
    by (simp add: workspace_evals)
  from licence_decides_quotas [OF this] show ?thesis
    by (auto simp: workspace_evals)
qed

section \<open>Listings\<close>

text \<open>
  The listing an actor sees is exact: for a user it holds the workspaces of its tenant the access
  decision admits, and whatever workspace an actor can open is listed.
\<close>

theorem workspace_listing_exact:
  assumes keys: "identity_keys s" and current: "current_context now s actor = Inr c" and user: "au_user_id actor = Some u"
  shows "\<exists>ws. list_for_actor now s actor = Inr ws \<and>
    (\<forall>w. w \<in> set ws \<longleftrightarrow> w \<in> set (db_workspaces (id_store s)) \<and>
       (\<exists>a. workspace_access s (au_tenant_id actor) (wk_id w) u = Inr (Some a))) \<and>
    (\<forall>i w. get_for_actor now s actor i = Inr w \<longrightarrow> w \<in> set ws)"
proof -
  let ?t = "au_tenant_id actor"
  obtain ms cs where cs: "login_options s u = Inr (ms, cs)"
    and exact: "\<And>w t. (w, t) \<in> (\<lambda>c. (lw_workspace_id c, lw_tenant_id c)) ` set cs \<longleftrightarrow> (\<exists>a. workspace_access s t w u = Inr (Some a))"
    using login_options_accessible [OF keys, of u] by blast
  let ?mine = "filter (\<lambda>c. lw_tenant_id c = ?t) cs"
  let ?ws = "select_where (\<lambda>w. wk_tenant_id w = ?t \<and> wk_id w \<in> lw_workspace_id ` set ?mine) (db_workspaces (id_store s))"
  have listed: "list_for_actor now s actor = Inr ?ws"
    using cs current user current_context_fields [OF current] by (simp add: list_for_actor_def discover_workspaces_def)
  have "i \<in> lw_workspace_id ` set ?mine \<longleftrightarrow> (\<exists>a. workspace_access s ?t i u = Inr (Some a))" for i
    unfolding exact [symmetric] by force
  moreover have "wk_tenant_id w = ?t" if "w \<in> set (db_workspaces (id_store s))" "workspace_access s ?t (wk_id w) u = Inr (Some a)" for w a
  proof -
    have "get_workspace_tenant (id_store s) (wk_id w) = Inr ?t"
      using that(2) access_granted_iff [of s ?t "wk_id w" u] by blast
    moreover have "get_workspace_tenant (id_store s) (wk_id w) = Inr (wk_tenant_id w)"
      unfolding workspace_tenant_iff [OF keys] using that(1) by blast
    ultimately show ?thesis by simp
  qed
  ultimately have rows: "w \<in> set ?ws \<longleftrightarrow> w \<in> set (db_workspaces (id_store s)) \<and>
      (\<exists>a. workspace_access s ?t (wk_id w) u = Inr (Some a))" for w
    by (auto simp: set_select_where)
  moreover have "w \<in> set (db_workspaces (id_store s)) \<and> (\<exists>a. workspace_access s ?t (wk_id w) u = Inr (Some a))"
    if "get_for_actor now s actor i = Inr w" for i w
    using that current user current_context_fields [OF current]
    by (auto simp: get_for_actor_def get_workspace_def rbind_Inr_iff ok_or_Inr_iff split: if_splits dest!: find_row_Some)
  ultimately show ?thesis using listed by blast
qed

theorem workspace_listing_exact_witness:
  "\<exists>ws. list_for_actor 5 acme acme_admin = Inr ws \<and>
    (\<forall>w. w \<in> set ws \<longleftrightarrow> w \<in> set (db_workspaces (id_store acme)) \<and>
       (\<exists>a. workspace_access acme 9 (wk_id w) 21 = Inr (Some a)))"
  using workspace_listing_exact [OF acme_identity_keys acme_admin_context, of 21] by (auto simp: acme_admin_def)

section \<open>Quotas of a workspace\<close>

lemma update_as_Inr:
  assumes "update_as now s actor i input = Inr (w', s')"
  obtains w n where "get_for_actor now s actor i = Inr w"
    and "w' = (if uw_replace_max_entities input then w\<lparr>wk_name := n, wk_max_entities := uw_max_entities input\<rparr>
      else w\<lparr>wk_name := n\<rparr>)"
    and "uw_replace_max_entities input \<longrightarrow> require_current_tenant_admin now s actor = Inr ()"
    and "\<forall>m. uw_max_entities input = Some m \<longrightarrow> 0 \<le> m"
    and "db_workspaces (id_store s') = update_where (\<lambda>w. wk_id w = i) (\<lambda>w. w') (db_workspaces (id_store s))"
proof -
  from assms obtain w named saved where w: "get_for_actor now s actor i = Inr w"
    and limit: "\<not> (case uw_max_entities input of None \<Rightarrow> False | Some limit \<Rightarrow> limit < 0)"
    and named: "(case uw_name input of
        None \<Rightarrow> Inr w
      | Some name \<Rightarrow>
          if \<not> workspace_name_ok name then Inl (Conflict ''workspace name must contain 1-100 characters'')
          else Inr (w\<lparr>wk_name := trim name\<rparr>)) = Inr named"
    and saved: "(if uw_replace_max_entities input
        then rbind (require_current_tenant_admin now s actor) (\<lambda>_. Inr (named\<lparr>wk_max_entities := uw_max_entities input\<rparr>))
        else Inr named) = Inr saved"
    and out: "w' = saved" "s' = s\<lparr>id_store := (id_store s)\<lparr>db_workspaces :=
        update_where (\<lambda>w. wk_id w = i) (\<lambda>w. saved) (db_workspaces (id_store s))\<rparr>\<rparr>"
    unfolding update_as_def rbind_Inr_iff guard_Inr_iff by blast
  have "\<exists>n. named = w\<lparr>wk_name := n\<rparr>"
    using named by (auto split: option.splits if_splits intro: exI [of _ "wk_name w"])
  then obtain n where "named = w\<lparr>wk_name := n\<rparr>" ..
  then show thesis
    using saved limit
    by (intro that [OF w, of n]) (auto simp: out rbind_Inr_iff split: if_splits option.splits)
qed

text \<open>
  A workspace quota is the tenant's to change: an accepted update that changes the entity limit
  was made by a tenant owner or administrator and sets no negative limit; no update touches anything but the
  name and the limit of the workspace it names.
\<close>

theorem quota_needs_tenant_admin:
  assumes "update_as now s actor i input = Inr (w', s')"
  shows "\<exists>w. find_row (\<lambda>w. wk_id w = i) (db_workspaces (id_store s)) = Some w \<and>
    w' = w\<lparr>wk_name := wk_name w', wk_max_entities := wk_max_entities w'\<rparr> \<and>
    (wk_max_entities w' \<noteq> wk_max_entities w \<longrightarrow>
      (\<forall>m. wk_max_entities w' = Some m \<longrightarrow> 0 \<le> m) \<and>
      (\<exists>u role. au_user_id actor = Some u \<and> get_membership_role s (au_tenant_id actor) u = Some role \<and> administers_tenant role)) \<and>
    db_workspaces (id_store s') = update_where (\<lambda>w. wk_id w = i) (\<lambda>w. w') (db_workspaces (id_store s))"
proof (rule update_as_Inr [OF assms])
  fix w n
  assume w: "get_for_actor now s actor i = Inr w"
    and w': "w' = (if uw_replace_max_entities input then w\<lparr>wk_name := n, wk_max_entities := uw_max_entities input\<rparr>
      else w\<lparr>wk_name := n\<rparr>)"
    and admin: "uw_replace_max_entities input \<longrightarrow> require_current_tenant_admin now s actor = Inr ()"
    and limit: "\<forall>m. uw_max_entities input = Some m \<longrightarrow> 0 \<le> m"
    and rows: "db_workspaces (id_store s') = update_where (\<lambda>w. wk_id w = i) (\<lambda>w. w') (db_workspaces (id_store s))"
  have "find_row (\<lambda>w. wk_id w = i) (db_workspaces (id_store s)) = Some w"
    using w by (auto simp: get_for_actor_def get_workspace_def rbind_Inr_iff ok_or_Inr_iff split: if_splits)
  moreover have "\<exists>u role. au_user_id actor = Some u \<and> get_membership_role s (au_tenant_id actor) u = Some role \<and> administers_tenant role"
    if "uw_replace_max_entities input"
    using admin that by (auto elim!: require_current_tenant_admin_Inr)
  ultimately show ?thesis using w' limit rows by (auto split: if_splits)
qed

theorem quota_needs_tenant_admin_witness:
  "\<exists>w' s'. update_as 5 acme acme_admin 3 \<lparr>uw_name = None, uw_replace_max_entities = True, uw_max_entities = Some 7\<rparr> = Inr (w', s') \<and>
     wk_max_entities w' = Some 7 \<and>
     db_workspaces (id_store s') = update_where (\<lambda>w. wk_id w = 3) (\<lambda>w. w') (db_workspaces (id_store acme))"
proof -
  obtain w' s' where upd: "update_as 5 acme acme_admin 3
      \<lparr>uw_name = None, uw_replace_max_entities = True, uw_max_entities = Some 7\<rparr> = Inr (w', s')" "wk_max_entities w' = Some 7"
    by (simp add: update_as_def require_current_workspace_admin_def get_for_actor_def get_workspace_def access_evals
        acme_defs acme_admin_def)
  then show ?thesis using quota_needs_tenant_admin [OF upd(1)] by blast
qed

end
