(* ===== verification/Accounts.thy ===== *)
theory Accounts
  imports Workspaces
begin

text \<open>
  Tenants (\<open>src/models/tenant_tenants.rs\<close>, \<open>src/data/tenant_policy.rs\<close>), user accounts
  (\<open>src/models/user_users/operations.rs\<close>), sign-up and first-run setup (\<open>src/models/tenancy.rs\<close>) and invites
  (\<open>src/models/workspace_invites/operations.rs\<close>).

  The password hash of a user is kept beside the identity tables.  The password functions of the web
  framework and SHA-256 are parameters; generated ids, tokens and the clock are arguments.  The lemmas show
  that an invite admits its addressee once and with its role, that the number of tenants is bounded, that
  setup runs once, and that a registered account can log in.
\<close>

section \<open>State\<close>

record invite_row =
  iv_id :: uuid
  iv_tenant_id :: uuid
  iv_email :: string
  iv_role :: membership_role
  iv_token_hash :: string
  iv_expires_at :: instant
  iv_used_at :: "instant option"
  iv_created_at :: instant

record account_db =
  ac_identity :: identity_db
  ac_password_hashes :: "(uuid \<times> string) list"
  ac_invites :: "invite_row list"

section \<open>Tenants\<close>

datatype tenant_limit = TenantsUnlimited | TenantsConfigured int | SingleTenant

definition tenant_limit_resolve :: "backend \<Rightarrow> int option \<Rightarrow> tenant_limit" where
  "tenant_limit_resolve backend configured =
     (case backend of
        Sqlite \<Rightarrow> SingleTenant
      | Postgres \<Rightarrow> (case configured of None \<Rightarrow> TenantsUnlimited | Some m \<Rightarrow> TenantsConfigured m))"

fun tenant_maximum :: "tenant_limit \<Rightarrow> nat option" where
  "tenant_maximum TenantsUnlimited = None"
| "tenant_maximum (TenantsConfigured m) = Some (nat (max m 0))"
| "tenant_maximum SingleTenant = Some 1"

definition tenant_limit_exhausted :: "tenant_limit \<Rightarrow> yorishiro_error" where
  "tenant_limit_exhausted limit = Conflict (''this deployment has reached its tenant limit ({}); '' @
     (case limit of
        SingleTenant \<Rightarrow> ''this backend has no database-enforced tenant isolation; use PostgreSQL for more than one tenant''
      | _ \<Rightarrow> ''raise YORISHIRO_MAX_TENANTS or delete an existing tenant''))"

definition tenant_cap_for_licence :: "int \<Rightarrow> bool \<Rightarrow> int option" where
  "tenant_cap_for_licence configured licensed =
     (if licensed then (if configured > 0 then Some configured else None) else Some 1)"

text \<open>The nil UUID.\<close>

definition INFRASTRUCTURE_TENANT_ID :: uuid where
  "INFRASTRUCTURE_TENANT_ID = 0"

definition count_tenants :: "identity_db \<Rightarrow> nat" where
  "count_tenants s = count_where (\<lambda>t. tn_id t \<noteq> INFRASTRUCTURE_TENANT_ID) (id_tenants s)"

definition create_tenant ::
  "backend \<Rightarrow> uuid \<Rightarrow> identity_db \<Rightarrow> string \<Rightarrow> int option \<Rightarrow> (tenant_row \<times> identity_db) result" where
  "create_tenant backend new_id s name effective_max =
     (let limit = tenant_limit_resolve backend effective_max in
      rbind (case tenant_maximum limit of
               None \<Rightarrow> Inr ()
             | Some m \<Rightarrow> ensure (count_tenants s < m) (tenant_limit_exhausted limit)) (\<lambda>_.
      let t = \<lparr>tn_id = new_id, tn_name = name, tn_max_workspaces = None, tn_disabled_at = None\<rparr>
      in if new_id \<in> tn_id ` set (id_tenants s) then Inl (Internal ''constraint'')
         else Inr (t, s\<lparr>id_tenants := id_tenants s @ [t]\<rparr>)))"

definition find_tenant_by_id :: "identity_db \<Rightarrow> uuid \<Rightarrow> tenant_row result" where
  "find_tenant_by_id s i = ok_or (find_row (\<lambda>t. tn_id t = i) (id_tenants s)) (NotFound ''tenant not found'')"

definition detail_as :: "instant \<Rightarrow> identity_db \<Rightarrow> auth_context \<Rightarrow> tenant_row result" where
  "detail_as now s actor =
     rbind (current_context now s actor) (\<lambda>current.
     rbind (require_tenant_admin s (au_tenant_id current) (au_user_id current)) (\<lambda>_.
     find_tenant_by_id s (au_tenant_id current)))"

record update_tenant_request =
  ut_name :: "string option"
  ut_replace_max_workspaces :: bool
  ut_max_workspaces :: "int option"

definition tenant_name_ok :: "string \<Rightarrow> bool" where
  "tenant_name_ok name \<longleftrightarrow> trim name \<noteq> [] \<and> char_count (trim name) \<le> 100"

definition update_tenant_as ::
  "instant \<Rightarrow> identity_db \<Rightarrow> auth_context \<Rightarrow> update_tenant_request \<Rightarrow> (tenant_row \<times> identity_db) result" where
  "update_tenant_as now s actor input =
     rbind (require_current_tenant_admin now s actor) (\<lambda>_.
     if ut_max_workspaces input \<noteq> None \<and> \<not> ut_replace_max_workspaces input
     then Inl (Conflict ''max_workspaces requires replace_max_workspaces=true'')
     else if (case ut_max_workspaces input of None \<Rightarrow> False | Some limit \<Rightarrow> limit < 0)
     then Inl (Conflict ''max_workspaces must be non-negative'')
     else rbind (find_tenant_by_id s (au_tenant_id actor)) (\<lambda>tenant.
     rbind (case ut_name input of
              None \<Rightarrow> Inr tenant
            | Some name \<Rightarrow>
                if \<not> tenant_name_ok name then Inl (Conflict ''name must be between 1 and 100 characters'')
                else Inr (tenant\<lparr>tn_name := trim name\<rparr>)) (\<lambda>named.
     let saved = (if ut_replace_max_workspaces input then named\<lparr>tn_max_workspaces := ut_max_workspaces input\<rparr> else named)
     in Inr (saved, s\<lparr>id_tenants := update_where (\<lambda>t. tn_id t = au_tenant_id actor) (\<lambda>t. saved) (id_tenants s)\<rparr>))))"

text \<open>The summary of \<open>ee/models/tenant_tenants.rs\<close>; it lists at most \<^term>\<open>MAX_LIST_LIMIT\<close> members.\<close>

record tenant_overview =
  tv_tenant_id :: uuid
  tv_plan :: "string option"
  tv_active_plan :: "plan option"
  tv_max_workspaces :: "int option"
  tv_effective_max_workspaces :: "int option"
  tv_usage :: tenant_usage
  tv_members :: "membership_record list"

definition overview_as :: "deployment \<Rightarrow> instant \<Rightarrow> billing_db \<Rightarrow> auth_context \<Rightarrow> tenant_overview result" where
  "overview_as dep now s actor =
     (let d = bg_identity s in
      rbind (current_context now d actor) (\<lambda>current.
      rbind (require_tenant_admin d (au_tenant_id current) (au_user_id current)) (\<lambda>_.
      let tenant_id = au_tenant_id current in
      rbind (find_tenant_by_id d tenant_id) (\<lambda>tenant.
      rbind (plan_policy_current dep now) (\<lambda>policy.
      rbind (case policy of
               PolicyDisabled \<Rightarrow> Inr None
             | PolicyEnabled \<Rightarrow> rbind (plan_for_tenant dep now s tenant_id) (\<lambda>p. Inr (Some p))) (\<lambda>active_plan.
      Inr \<lparr>tv_tenant_id = tenant_id,
           tv_plan = Option.bind (get_billing s tenant_id) tb_plan,
           tv_active_plan = active_plan,
           tv_max_workspaces = tn_max_workspaces tenant,
           tv_effective_max_workspaces = effective_limit (tn_max_workspaces tenant)
             (Option.bind active_plan (\<lambda>p. pc_max_workspaces (caps p))),
           tv_usage = compute_tenant_usage d tenant_id,
           tv_members = list_members d tenant_id \<lparr>lp_limit = MAX_LIST_LIMIT, lp_offset = 0\<rparr>\<rparr>))))))"

section \<open>Users\<close>

definition list_users_by_operator :: "identity_db \<Rightarrow> nat \<Rightarrow> nat \<Rightarrow> user_row list" where
  "list_users_by_operator s limit offset =
     take (min (max limit 1) 100) (drop offset (sort_key us_id (id_users s)))"

text \<open>
  Deleting a user: its workspace memberships are deleted with it, and the columns that attribute keys and
  entities to it become NULL.  The entities this touches get new embedding-sync tokens, as by any update.
\<close>

definition forget_user :: "(uuid \<Rightarrow> string) \<Rightarrow> uuid \<Rightarrow> db \<Rightarrow> db" where
  "forget_user tokens user_id d = d\<lparr>db_entities :=
     update_where (\<lambda>e. en_created_by e = Some user_id \<or> en_updated_by e = Some user_id)
       (\<lambda>e. e\<lparr>en_created_by := (if en_created_by e = Some user_id then None else en_created_by e),
              en_updated_by := (if en_updated_by e = Some user_id then None else en_updated_by e),
              en_embedding_sync_token := tokens (en_id e)\<rparr>) (db_entities d)\<rparr>"

definition delete_user_by_operator ::
  "(string \<Rightarrow> string) \<Rightarrow> instant \<Rightarrow> (uuid \<Rightarrow> string) \<Rightarrow> (uuid \<Rightarrow> string) \<Rightarrow> account_db \<Rightarrow> uuid \<Rightarrow> uuid \<Rightarrow>
   account_db result" where
  "delete_user_by_operator hash_key now fresh tokens s user_id confirmed_user_id =
     (if user_id \<noteq> confirmed_user_id then Inl (Conflict ''confirmed_user_id must match user_id'')
      else if user_id \<notin> us_id ` set (id_users (ac_identity s)) then Inl (NotFound ''user not found'')
      else if \<exists>m \<in> set (id_members (ac_identity s)). mb_user_id m = user_id
      then Inl (Conflict ''remove every tenant membership before deleting a global user account'')
      else rbind (revoke_matching hash_key now fresh (ac_identity s) (\<lambda>k. ak_user_id k = Some user_id)) (\<lambda>i.
        Inr (s\<lparr>ac_identity := i\<lparr>
                 id_store := forget_user tokens user_id (id_store i),
                 id_users := delete_where (\<lambda>u. us_id u = user_id) (id_users i),
                 id_workspace_members := delete_where (\<lambda>m. wm_user_id m = user_id) (id_workspace_members i),
                 id_keys := update_where (\<lambda>k. ak_user_id k = Some user_id) (\<lambda>k. k\<lparr>ak_user_id := None\<rparr>) (id_keys i)\<rparr>,
               ac_password_hashes := delete_where (\<lambda>p. fst p = user_id) (ac_password_hashes s)\<rparr>)))"

definition current_profile :: "instant \<Rightarrow> identity_db \<Rightarrow> auth_context \<Rightarrow> user_row result" where
  "current_profile now s actor =
     rbind (current_context now s actor) (\<lambda>current.
     rbind (ok_or (au_user_id current) (ScopeInsufficient ''service credentials have no user profile'')) (\<lambda>user_id.
     ok_or (find_row (\<lambda>u. us_id u = user_id) (id_users s)) Unauthenticated))"

definition update_profile ::
  "instant \<Rightarrow> identity_db \<Rightarrow> auth_context \<Rightarrow> string option \<Rightarrow> (user_row \<times> identity_db) result" where
  "update_profile now s actor display_name =
     rbind (current_profile now s actor) (\<lambda>user.
     let name = map_option trim display_name in
     if (case name of None \<Rightarrow> False | Some n \<Rightarrow> n = [] \<or> char_count n > 100)
     then Inl (Conflict ''display name must contain 1 to 100 characters, or be null'')
     else let saved = user\<lparr>us_display_name := name\<rparr>
       in Inr (saved, s\<lparr>id_users := update_where (\<lambda>u. us_id u = us_id user) (\<lambda>u. saved) (id_users s)\<rparr>))"

definition create_user ::
  "(string \<Rightarrow> string) \<Rightarrow> uuid \<Rightarrow> account_db \<Rightarrow> string \<Rightarrow> string \<Rightarrow> string option \<Rightarrow> (user_row \<times> account_db) result" where
  "create_user hash_password new_id s email password display_name =
     (let user = \<lparr>us_id = new_id, us_email = email, us_display_name = display_name\<rparr>;
          users = id_users (ac_identity s)
      in if new_id \<in> us_id ` set users \<or> email \<in> us_email ` set users
         then Inl (Conflict ''a user with email {} already exists'')
         else Inr (user, s\<lparr>ac_identity := (ac_identity s)\<lparr>id_users := users @ [user]\<rparr>,
                           ac_password_hashes := (new_id, hash_password password) # ac_password_hashes s\<rparr>))"

definition get_user_by_email :: "identity_db \<Rightarrow> string \<Rightarrow> user_row option" where
  "get_user_by_email s email = find_row (\<lambda>u. us_email u = email) (id_users s)"

definition verify_login ::
  "(string \<Rightarrow> string \<Rightarrow> bool) \<Rightarrow> account_db \<Rightarrow> string \<Rightarrow> string \<Rightarrow> user_row option" where
  "verify_login verify_password s email password =
     (case get_user_by_email (ac_identity s) email of
        None \<Rightarrow> None
      | Some user \<Rightarrow>
          (case map_of (ac_password_hashes s) (us_id user) of
             None \<Rightarrow> None
           | Some password_hash \<Rightarrow> if verify_password password password_hash then Some user else None))"

section \<open>Sign-up and setup\<close>

definition on_identity :: "account_db \<Rightarrow> identity_db \<Rightarrow> account_db" where
  "on_identity s i = s\<lparr>ac_identity := i\<rparr>"

definition register_member ::
  "(string \<Rightarrow> string) \<Rightarrow> uuid \<Rightarrow> instant \<Rightarrow> account_db \<Rightarrow> uuid \<Rightarrow> string \<Rightarrow> string \<Rightarrow> string option \<Rightarrow> membership_role \<Rightarrow>
   (user_row \<times> account_db) result" where
  "register_member hash_password new_id now s tenant_id email password display_name role =
     rbind (create_user hash_password new_id s email password display_name) (\<lambda>(user, s1).
     rbind (add_member now (ac_identity s1) tenant_id (us_id user) role) (\<lambda>i.
       Inr (user, on_identity s1 i)))"

definition signup_account ::
  "(string \<Rightarrow> string) \<Rightarrow> backend \<Rightarrow> uuid \<Rightarrow> uuid \<Rightarrow> instant \<Rightarrow> account_db \<Rightarrow> int option \<Rightarrow> string \<Rightarrow> string \<Rightarrow> string option \<Rightarrow>
   ((user_row \<times> uuid) \<times> account_db) result" where
  "signup_account hash_password backend new_tenant new_user now s max_tenants email password display_name =
     rbind (create_tenant backend new_tenant (ac_identity s) (case display_name of Some n \<Rightarrow> n | None \<Rightarrow> email) max_tenants)
      (\<lambda>(tenant, i).
     rbind (register_member hash_password new_user now (on_identity s i) (tn_id tenant) email password display_name RoleOwner)
      (\<lambda>(user, s').
       Inr ((user, tn_id tenant), s')))"

record setup_account =
  sa_user_id :: uuid
  sa_email :: string
  sa_tenant_id :: uuid
  sa_workspace_id :: uuid

definition setup_first_account ::
  "(string \<Rightarrow> string) \<Rightarrow> backend \<Rightarrow> uuid \<Rightarrow> uuid \<Rightarrow> uuid \<Rightarrow> instant \<Rightarrow> account_db \<Rightarrow> int option \<Rightarrow> string \<Rightarrow> string \<Rightarrow>
   string option \<Rightarrow> (setup_account \<times> account_db) result" where
  "setup_first_account hash_password backend new_tenant new_workspace new_user now s max_tenants email password display_name =
     (if max_tenants = None then Inl (NotFound ''the setup wizard is not enabled on this deployment'')
      else if count_tenants (ac_identity s) > 0 then Inl (Conflict ''this deployment has already been set up'')
      else rbind (create_tenant backend new_tenant (ac_identity s) ''default'' max_tenants) (\<lambda>(tenant, i).
      rbind (create_workspace_with_quota new_workspace now i (tn_id tenant) ''default'' None None None) (\<lambda>(workspace, i').
      rbind (register_member hash_password new_user now (on_identity s i') (tn_id tenant) email password display_name RoleOwner)
       (\<lambda>(user, s').
        Inr (\<lparr>sa_user_id = us_id user, sa_email = us_email user, sa_tenant_id = tn_id tenant,
              sa_workspace_id = wk_id workspace\<rparr>, s')))))"

section \<open>Invites\<close>

definition managed_invite :: "account_db \<Rightarrow> uuid \<Rightarrow> uuid \<Rightarrow> invite_row result" where
  "managed_invite s tenant_id invite_id =
     ok_or (find_row (\<lambda>v. iv_id v = invite_id \<and> iv_tenant_id v = tenant_id) (ac_invites s)) (NotFound ''invite not found'')"

definition revoke_invite_as :: "instant \<Rightarrow> account_db \<Rightarrow> auth_context \<Rightarrow> uuid \<Rightarrow> account_db result" where
  "revoke_invite_as now s actor invite_id =
     rbind (require_current_tenant_admin now (ac_identity s) actor) (\<lambda>_.
     rbind (managed_invite s (au_tenant_id actor) invite_id) (\<lambda>invite.
     if iv_used_at invite \<noteq> None then Inl (Conflict ''a used invite cannot be revoked'')
     else if iv_expires_at invite > now
     then Inr (s\<lparr>ac_invites := update_where (\<lambda>v. iv_id v = invite_id) (\<lambda>v. v\<lparr>iv_expires_at := now\<rparr>) (ac_invites s)\<rparr>)
     else Inr s))"

text \<open>The token column is unique.\<close>

definition reissue_invite_as ::
  "(string \<Rightarrow> string) \<Rightarrow> instant \<Rightarrow> string \<Rightarrow> account_db \<Rightarrow> auth_context \<Rightarrow> uuid \<Rightarrow> instant \<Rightarrow>
   ((invite_row \<times> string) \<times> account_db) result" where
  "reissue_invite_as hash_key now secret s actor invite_id expires_at =
     rbind (require_current_tenant_admin now (ac_identity s) actor) (\<lambda>_.
     rbind (managed_invite s (au_tenant_id actor) invite_id) (\<lambda>invite.
     rbind (if iv_role invite = RoleOwner then require_current_tenant_owner now (ac_identity s) actor else Inr 0) (\<lambda>_.
     if iv_used_at invite \<noteq> None then Inl (Conflict ''a used invite cannot be reissued'')
     else if expires_at \<le> now then Inl (ValidationFailed ''expires_at must be in the future'' [])
     else if \<exists>v \<in> set (ac_invites s). iv_token_hash v = hash_key secret \<and> iv_id v \<noteq> invite_id
     then Inl (Internal ''constraint'')
     else let change = (\<lambda>v. v\<lparr>iv_token_hash := hash_key secret, iv_expires_at := expires_at\<rparr>)
       in Inr ((change invite, secret),
            s\<lparr>ac_invites := update_where (\<lambda>v. iv_id v = invite_id) change (ac_invites s)\<rparr>))))"

definition create_invite_at ::
  "(string \<Rightarrow> string) \<Rightarrow> uuid \<Rightarrow> string \<Rightarrow> account_db \<Rightarrow> uuid \<Rightarrow> string \<Rightarrow> membership_role \<Rightarrow> int \<Rightarrow> instant \<Rightarrow>
   ((invite_row \<times> string) \<times> account_db) result" where
  "create_invite_at hash_key new_id secret s tenant_id email role ttl now =
     rbind (require_active (ac_identity s) tenant_id) (\<lambda>_.
     let invite = \<lparr>iv_id = new_id, iv_tenant_id = tenant_id, iv_email = email, iv_role = role,
                   iv_token_hash = hash_key secret, iv_expires_at = now + ttl, iv_used_at = None, iv_created_at = now\<rparr>
     in if \<exists>v \<in> set (ac_invites s). iv_id v = new_id \<or> iv_token_hash v = hash_key secret then Inl (Internal ''constraint'')
        else Inr ((invite, secret), s\<lparr>ac_invites := ac_invites s @ [invite]\<rparr>))"

definition create_invite_as ::
  "(string \<Rightarrow> string) \<Rightarrow> uuid \<Rightarrow> instant \<Rightarrow> string \<Rightarrow> account_db \<Rightarrow> auth_context \<Rightarrow> string \<Rightarrow> membership_role \<Rightarrow> instant \<Rightarrow>
   ((invite_row \<times> string) \<times> account_db) result" where
  "create_invite_as hash_key new_id now secret s actor email role expires_at =
     rbind (require_current_tenant_admin now (ac_identity s) actor) (\<lambda>_.
     rbind (if role = RoleOwner then require_current_tenant_owner now (ac_identity s) actor else Inr 0) (\<lambda>_.
     if expires_at \<le> now \<or> trim email = [] \<or> CHR ''@'' \<notin> set email
     then Inl (ValidationFailed ''a future expires_at and an email address are required'' [])
     else create_invite_at hash_key new_id secret s (au_tenant_id actor) (trim email) role (expires_at - now) now))"

definition list_invites :: "account_db \<Rightarrow> auth_context \<Rightarrow> list_params \<Rightarrow> invite_row list result" where
  "list_invites s actor page =
     rbind (require_tenant_admin (ac_identity s) (au_tenant_id actor) (au_user_id actor)) (\<lambda>_.
       Inr (page_of page (sort_key (\<lambda>v. - iv_created_at v) (sort_key (\<lambda>v. - int (iv_id v))
         (select_where (\<lambda>v. iv_tenant_id v = au_tenant_id actor) (ac_invites s))))))"

record redeemed_invite =
  ri_tenant_id :: uuid
  ri_email :: string
  ri_role :: membership_role

definition invalid_invite :: yorishiro_error where
  "invalid_invite = ValidationFailed ''invite token is invalid, expired, or already used'' []"

definition invite_tenant :: "(string \<Rightarrow> string) \<Rightarrow> account_db \<Rightarrow> string \<Rightarrow> uuid result" where
  "invite_tenant hash_key s raw_token =
     ok_or (map_option iv_tenant_id (find_row (\<lambda>v. iv_token_hash v = hash_key raw_token) (ac_invites s))) invalid_invite"

definition redeemable :: "(string \<Rightarrow> string) \<Rightarrow> account_db \<Rightarrow> string \<Rightarrow> instant \<Rightarrow> invite_row \<Rightarrow> bool" where
  "redeemable hash_key s raw_token now v \<longleftrightarrow>
     iv_token_hash v = hash_key raw_token \<and>
     (\<exists>t \<in> set (id_tenants (ac_identity s)). tn_id t = iv_tenant_id v \<and> tn_disabled_at t = None) \<and>
     iv_used_at v = None \<and> iv_expires_at v > now"

definition redeem_invite_at ::
  "(string \<Rightarrow> string) \<Rightarrow> account_db \<Rightarrow> string \<Rightarrow> instant \<Rightarrow> redeemed_invite option \<times> account_db" where
  "redeem_invite_at hash_key s raw_token now =
     (map_option (\<lambda>v. \<lparr>ri_tenant_id = iv_tenant_id v, ri_email = iv_email v, ri_role = iv_role v\<rparr>)
        (find_row (redeemable hash_key s raw_token now) (ac_invites s)),
      s\<lparr>ac_invites := update_where (redeemable hash_key s raw_token now) (\<lambda>v. v\<lparr>iv_used_at := Some now\<rparr>) (ac_invites s)\<rparr>)"

definition accept_in_transaction ::
  "(string \<Rightarrow> string) \<Rightarrow> instant \<Rightarrow> account_db \<Rightarrow> string \<Rightarrow> user_row \<Rightarrow> (redeemed_invite \<times> account_db) result" where
  "accept_in_transaction hash_key now s raw_token user =
     rbind (invite_tenant hash_key s raw_token) (\<lambda>_.
     let (redeemed, s1) = redeem_invite_at hash_key s raw_token now in
     rbind (ok_or redeemed invalid_invite) (\<lambda>invite.
     if ri_email invite \<noteq> us_email user then Inl Unauthenticated
     else if get_membership_role (ac_identity s1) (ri_tenant_id invite) (us_id user) \<noteq> None
     then Inl (Conflict ''this account already belongs to the invited tenant'')
     else rbind (add_member now (ac_identity s1) (ri_tenant_id invite) (us_id user) (ri_role invite)) (\<lambda>i.
       Inr (invite, on_identity s1 i))))"

definition accept_existing_user ::
  "(string \<Rightarrow> string) \<Rightarrow> (string \<Rightarrow> string \<Rightarrow> bool) \<Rightarrow> instant \<Rightarrow> account_db \<Rightarrow> string \<Rightarrow> string \<Rightarrow> string \<Rightarrow>
   ((user_row \<times> redeemed_invite) \<times> account_db) result" where
  "accept_existing_user hash_key verify_password now s raw_token email password =
     rbind (ok_or (verify_login verify_password s email password) Unauthenticated) (\<lambda>user.
     rbind (accept_in_transaction hash_key now s raw_token user) (\<lambda>(invite, s').
       Inr ((user, invite), s')))"

definition accept_authenticated_user ::
  "(string \<Rightarrow> string) \<Rightarrow> instant \<Rightarrow> account_db \<Rightarrow> auth_context \<Rightarrow> string \<Rightarrow> ((user_row \<times> redeemed_invite) \<times> account_db) result" where
  "accept_authenticated_user hash_key now s actor raw_token =
     rbind (invite_tenant hash_key s raw_token) (\<lambda>_.
     rbind (current_context now (ac_identity s) actor) (\<lambda>current.
     rbind (ok_or (au_user_id current) Unauthenticated) (\<lambda>user_id.
     rbind (ok_or (find_row (\<lambda>u. us_id u = user_id) (id_users (ac_identity s))) Unauthenticated) (\<lambda>user.
     rbind (accept_in_transaction hash_key now s raw_token user) (\<lambda>(invite, s').
       Inr ((user, invite), s'))))))"

definition register_user ::
  "(string \<Rightarrow> string) \<Rightarrow> (string \<Rightarrow> string) \<Rightarrow> uuid \<Rightarrow> instant \<Rightarrow> account_db \<Rightarrow> string \<Rightarrow> string \<Rightarrow> string option \<Rightarrow>
   ((user_row \<times> redeemed_invite) \<times> account_db) result" where
  "register_user hash_key hash_password new_id now s raw_token password display_name =
     rbind (invite_tenant hash_key s raw_token) (\<lambda>_.
     let (redeemed, s1) = redeem_invite_at hash_key s raw_token now in
     rbind (ok_or redeemed invalid_invite) (\<lambda>invite.
     rbind (register_member hash_password new_id now s1 (ri_tenant_id invite) (ri_email invite) password display_name
              (ri_role invite)) (\<lambda>(user, s').
       Inr ((user, invite), s'))))"

section \<open>Histories\<close>

text \<open>One operation on accounts, invites, keys, memberships or workspaces that succeeds.\<close>

inductive account_step :: "backend \<Rightarrow> account_db \<Rightarrow> account_db \<Rightarrow> bool" for backend where
  identity: "identity_step (ac_identity s) i \<Longrightarrow> account_step backend s (on_identity s i)"
| update_tenant: "update_tenant_as now (ac_identity s) actor input = Inr (t, i) \<Longrightarrow> account_step backend s (on_identity s i)"
| profile: "update_profile now (ac_identity s) actor name = Inr (u, i) \<Longrightarrow> account_step backend s (on_identity s i)"
| delete_user: "delete_user_by_operator h now fresh tokens s u c = Inr s' \<Longrightarrow> account_step backend s s'"
| signup: "signup_account hp backend nt nu now s m em pw dn = Inr (r, s') \<Longrightarrow> account_step backend s s'"
| first_setup: "setup_first_account hp backend nt nw nu now s m em pw dn = Inr (sa, s') \<Longrightarrow> account_step backend s s'"
| issue_invite: "create_invite_at h i tok s t em role ttl now = Inr (v, s') \<Longrightarrow> account_step backend s s'"
| issue_invite_as: "create_invite_as h i now tok s actor em role e = Inr (v, s') \<Longrightarrow> account_step backend s s'"
| reissue: "reissue_invite_as h now tok s actor i e = Inr (v, s') \<Longrightarrow> account_step backend s s'"
| revoke: "revoke_invite_as now s actor i = Inr s' \<Longrightarrow> account_step backend s s'"
| accept_existing: "accept_existing_user h vp now s tok em pw = Inr (ur, s') \<Longrightarrow> account_step backend s s'"
| accept_authenticated: "accept_authenticated_user h now s actor tok = Inr (ur, s') \<Longrightarrow> account_step backend s s'"
| register: "register_user h hp i now s tok pw dn = Inr (ur, s') \<Longrightarrow> account_step backend s s'"

section \<open>What happens to invites\<close>

text \<open>The effects the operations have on the invite table.\<close>

inductive invite_change :: "invite_row list \<Rightarrow> invite_row list \<Rightarrow> bool" where
  kept: "invite_change t t"
| issued: "iv_id v \<notin> iv_id ` set t \<Longrightarrow> iv_token_hash v \<notin> iv_token_hash ` set t \<Longrightarrow> invite_change t (t @ [v])"
| altered: "v \<in> set t \<Longrightarrow> iv_used_at v = None \<Longrightarrow>
    (\<And>x. iv_id (f x) = iv_id x) \<Longrightarrow> (\<forall>x. iv_token_hash (f x) = iv_token_hash x) \<or>
      (\<forall>x. iv_token_hash (f x) = h) \<and> (\<forall>x \<in> set t. iv_token_hash x = h \<longrightarrow> iv_id x = iv_id v) \<Longrightarrow>
    invite_change t (update_where (\<lambda>x. iv_id x = iv_id v) f t)"
| spent: "(\<And>x. p x \<Longrightarrow> iv_used_at x = None) \<Longrightarrow>
    invite_change t (update_where p (\<lambda>x. x\<lparr>iv_used_at := Some now\<rparr>) t)"

definition invites_ok :: "invite_row list \<Rightarrow> bool" where
  "invites_ok t \<longleftrightarrow> distinct (map iv_id t) \<and> distinct (map iv_token_hash t)"

lemma map_update_one:
  "(\<And>x. x \<in> set t \<Longrightarrow> p x \<Longrightarrow> k (f x) = k x) \<Longrightarrow> map k (update_where p f t) = map k t"
  by (auto simp: update_where_def)

lemma distinct_update_one:
  assumes "distinct (map key t)" "distinct (map k t)"
    and "\<And>x. x \<in> set t \<Longrightarrow> k x = h \<Longrightarrow> key x = i" and "\<And>x. k (f x) = h"
  shows "distinct (map k (update_where (\<lambda>x. key x = i) f t))"
  using assms
proof (induction t)
  case (Cons x t)
  have same: "update_where (\<lambda>x. key x = i) f t = t" if "key x = i"
  proof -
    have "i \<notin> key ` set t" using Cons.prems(1) that by auto
    then show ?thesis unfolding update_where_def by (intro map_idI) auto
  qed
  have rest: "k ` set (update_where (\<lambda>x. key x = i) f t) \<subseteq> insert h (k ` set t)"
    using Cons.prems(4) by (auto simp: set_update_where)
  show ?case
  proof (cases "key x = i")
    case True
    have "h \<notin> k ` set t"
    proof
      assume "h \<in> k ` set t"
      then obtain y where "y \<in> set t" "k y = h" by auto
      then have "key x \<in> key ` set t" using Cons.prems(3) [of y] True by (auto intro: rev_image_eqI)
      then show False using Cons.prems(1) by simp
    qed
    then show ?thesis using Cons.prems True same by (auto simp: update_where_def)
  next
    case False
    then have "k x \<noteq> h" using Cons.prems(3) by auto
    then have "k x \<notin> k ` set (update_where (\<lambda>x. key x = i) f t)" using rest Cons.prems(2) by auto
    moreover have "distinct (map k (update_where (\<lambda>x. key x = i) f t))"
      using Cons by auto
    moreover have "update_where (\<lambda>x. key x = i) f (x # t) = x # update_where (\<lambda>x. key x = i) f t"
      using False by (simp add: update_where_def)
    ultimately show ?thesis by simp
  qed
qed (simp add: update_where_def)

lemma invite_change_ok: "invite_change t t' \<Longrightarrow> invites_ok t \<Longrightarrow> invites_ok t'"
proof (induction rule: invite_change.induct)
  case (altered v t f h)
  have "map iv_id (update_where (\<lambda>x. iv_id x = iv_id v) f t) = map iv_id t"
    by (rule map_update_one) (simp add: altered.hyps(3))
  moreover have "distinct (map iv_token_hash (update_where (\<lambda>x. iv_id x = iv_id v) f t))"
    using altered.hyps(4)
  proof (elim disjE conjE)
    assume "\<forall>x. iv_token_hash (f x) = iv_token_hash x"
    then show ?thesis using altered.prems by (simp add: map_update_one invites_ok_def)
  next
    assume "\<forall>x. iv_token_hash (f x) = h" "\<forall>x \<in> set t. iv_token_hash x = h \<longrightarrow> iv_id x = iv_id v"
    then show ?thesis using altered.prems by (intro distinct_update_one) (simp_all add: invites_ok_def)
  qed
  ultimately show ?case using altered.prems by (simp add: invites_ok_def)
qed (simp_all add: invites_ok_def map_update_one)

lemma invite_change_used:
  "invite_change t t' \<Longrightarrow> invites_ok t \<Longrightarrow> v \<in> set t \<Longrightarrow> iv_used_at v \<noteq> None \<Longrightarrow> v \<in> set t'"
proof (induction rule: invite_change.induct)
  case (altered u t f h)
  then have "iv_id v \<noteq> iv_id u" by (metis distinct_key_unique invites_ok_def)
  then show ?case using altered.prems by (force simp: set_update_where)
next
  case (spent p t now)
  then show ?case by (force simp: set_update_where)
qed simp_all

lemma redeem_change: "invite_change (ac_invites s) (ac_invites (snd (redeem_invite_at h s tok now)))"
  by (auto simp: redeem_invite_at_def redeemable_def intro: spent)

lemma create_user_invites: "create_user hp i s em pw dn = Inr (u, s') \<Longrightarrow> ac_invites s' = ac_invites s"
  by (auto simp: create_user_def Let_def split: if_splits)

lemma register_member_invites:
  "register_member hp i now s t em pw dn role = Inr (u, s') \<Longrightarrow> ac_invites s' = ac_invites s"
  by (auto simp: register_member_def rbind_Inr_iff on_identity_def dest!: create_user_invites)

lemma accept_invites:
  "accept_in_transaction h now s tok user = Inr (r, s') \<Longrightarrow> ac_invites s' = ac_invites (snd (redeem_invite_at h s tok now))"
  by (auto simp: accept_in_transaction_def rbind_Inr_iff on_identity_def Let_def split: prod.splits if_splits)

lemma create_invite_change:
  "create_invite_at h i tok s t em role ttl now = Inr (v, s') \<Longrightarrow> invite_change (ac_invites s) (ac_invites s')"
  by (fastforce simp: create_invite_at_def rbind_Inr_iff Let_def split: if_splits intro: issued)

lemma managed_invite_Inr:
  "managed_invite s t i = Inr v \<Longrightarrow> v \<in> set (ac_invites s) \<and> iv_id v = i \<and> iv_tenant_id v = t"
  by (auto simp: managed_invite_def ok_or_Inr_iff dest: find_row_Some)

lemma account_step_invites: "account_step backend s s' \<Longrightarrow> invite_change (ac_invites s) (ac_invites s')"
proof (induction rule: account_step.induct)
  case (reissue h now tok s actor i e v s')
  then obtain invite where "managed_invite s (au_tenant_id actor) i = Inr invite" "iv_used_at invite = None"
    "\<not> (\<exists>v \<in> set (ac_invites s). iv_token_hash v = h tok \<and> iv_id v \<noteq> i)"
    "ac_invites s' = update_where (\<lambda>v. iv_id v = i) (\<lambda>v. v\<lparr>iv_token_hash := h tok, iv_expires_at := e\<rparr>) (ac_invites s)"
    by (auto simp: reissue_invite_as_def rbind_Inr_iff Let_def split: if_splits)
  then show ?case
    using altered [of invite "ac_invites s" "\<lambda>v. v\<lparr>iv_token_hash := h tok, iv_expires_at := e\<rparr>" "h tok"]
    by (auto dest!: managed_invite_Inr)
next
  case (revoke now s actor i s')
  then obtain invite where "managed_invite s (au_tenant_id actor) i = Inr invite" "iv_used_at invite = None"
    and s': "s' = s \<or>
      ac_invites s' = update_where (\<lambda>v. iv_id v = i) (\<lambda>v. v\<lparr>iv_expires_at := now\<rparr>) (ac_invites s)"
    by (auto simp: revoke_invite_as_def rbind_Inr_iff split: if_splits)
  then show ?case
    using altered [of invite "ac_invites s" "\<lambda>v. v\<lparr>iv_expires_at := now\<rparr>"] kept [of "ac_invites s"]
    by (auto dest!: managed_invite_Inr)
next
  case (register h hp i now s tok pw dn ur s')
  then have "ac_invites s' = ac_invites (snd (redeem_invite_at h s tok now))"
    by (auto simp: register_user_def rbind_Inr_iff Let_def split: prod.splits dest!: register_member_invites)
  then show ?case using redeem_change by simp
next
  case (issue_invite_as h i now tok s actor em role e v s')
  then show ?case by (auto simp: create_invite_as_def rbind_Inr_iff split: if_splits intro: create_invite_change)
next
  case (accept_existing h vp now s tok em pw ur s')
  then show ?case using redeem_change
    by (auto simp: accept_existing_user_def rbind_Inr_iff dest!: accept_invites)
next
  case (accept_authenticated h now s actor tok ur s')
  then show ?case using redeem_change
    by (auto simp: accept_authenticated_user_def rbind_Inr_iff dest!: accept_invites)
qed (auto simp: on_identity_def delete_user_by_operator_def signup_account_def setup_first_account_def rbind_Inr_iff
    split: if_splits intro: kept create_invite_change dest!: register_member_invites)

lemma account_steps_used:
  assumes "(account_step backend)\<^sup>*\<^sup>* s s'" and "invites_ok (ac_invites s)" and "v \<in> set (ac_invites s)" "iv_used_at v \<noteq> None"
  shows "invites_ok (ac_invites s') \<and> v \<in> set (ac_invites s')"
  using assms
  by (induction rule: rtranclp_induct) (auto dest!: account_step_invites intro: invite_change_ok invite_change_used)

lemma redeem_identity: "ac_identity (snd (redeem_invite_at h s tok now)) = ac_identity s"
  by (simp add: redeem_invite_at_def)

lemma accept_Inr:
  assumes "accept_in_transaction h now s tok user = Inr (r, s')"
  obtains i where "fst (redeem_invite_at h s tok now) = Some r" "ri_email r = us_email user"
    "get_membership_role (ac_identity s) (ri_tenant_id r) (us_id user) = None"
    "add_member now (ac_identity s) (ri_tenant_id r) (us_id user) (ri_role r) = Inr i"
    "s' = on_identity (snd (redeem_invite_at h s tok now)) i"
proof -
  obtain redeemed s1 where x: "redeem_invite_at h s tok now = (redeemed, s1)" by fastforce
  have "ac_identity s1 = ac_identity s" using redeem_identity [of h s tok now] x by simp
  then show thesis
    using assms that
    unfolding accept_in_transaction_def x Let_def prod.case rbind_Inr_iff guard_Inr_iff ok_or_Inr_iff by auto
qed

lemma register_Inr:
  assumes "register_user h hp i now s tok pw dn = Inr (ur, s')"
  obtains u r where "ur = (u, r)" "fst (redeem_invite_at h s tok now) = Some r"
    "register_member hp i now (snd (redeem_invite_at h s tok now)) (ri_tenant_id r) (ri_email r) pw dn (ri_role r) = Inr (u, s')"
proof -
  obtain redeemed s1 where x: "redeem_invite_at h s tok now = (redeemed, s1)" by fastforce
  then show thesis
    using assms that
    unfolding register_user_def x Let_def prod.case rbind_Inr_iff ok_or_Inr_iff by auto
qed

section \<open>An invite is used once\<close>

lemma redeemed_is_used:
  assumes "invites_ok (ac_invites s)" and "fst (redeem_invite_at h s tok now) = Some r"
  obtains v where "v \<in> set (ac_invites (snd (redeem_invite_at h s tok now)))" "iv_used_at v \<noteq> None" "iv_token_hash v = h tok"
proof -
  from assms(2) obtain x where x: "x \<in> set (ac_invites s)" "redeemable h s tok now x"
    by (auto simp: redeem_invite_at_def dest: find_row_Some)
  then have "x\<lparr>iv_used_at := Some now\<rparr> \<in> set (ac_invites (snd (redeem_invite_at h s tok now)))"
    by (force simp: redeem_invite_at_def set_update_where)
  moreover have "iv_token_hash x = h tok" using x(2) by (simp add: redeemable_def)
  ultimately show thesis using that by simp
qed

lemma used_token_refused:
  assumes "invites_ok (ac_invites s)" and "v \<in> set (ac_invites s)" "iv_used_at v \<noteq> None" "iv_token_hash v = h tok"
  shows "accept_in_transaction h now s tok user = Inl invalid_invite"
    and "register_user h hp i now s tok pw dn = Inl invalid_invite"
proof -
  have only: "x = v" if "x \<in> set (ac_invites s)" "iv_token_hash x = h tok" for x
    using assms that by (metis distinct_key_unique invites_ok_def)
  have "find_row (redeemable h s tok now) (ac_invites s) = None"
    using assms(3) only by (auto simp: find_row_None redeemable_def)
  then have none: "fst (redeem_invite_at h s tok now) = None"
    by (simp add: redeem_invite_at_def)
  have "find_row (\<lambda>v. iv_token_hash v = h tok) (ac_invites s) = Some v"
    by (rule find_row_unique [OF assms(2)]) (use assms(4) only in blast)+
  then have "invite_tenant h s tok = Inr (iv_tenant_id v)"
    by (simp add: invite_tenant_def)
  with none show "accept_in_transaction h now s tok user = Inl invalid_invite"
    and "register_user h hp i now s tok pw dn = Inl invalid_invite"
    by (cases "redeem_invite_at h s tok now"; simp add: accept_in_transaction_def register_user_def)+
qed

text \<open>
  Property C23. An invite is used once: after its token has admitted an existing account or registered a new
  one, whatever happens later (reissues, revocations, new invites, removals of the member), the same token
  is refused to everybody.
\<close>

theorem invite_single_use:
  assumes "invites_ok (ac_invites s)"
    and "(\<exists>r. accept_in_transaction h now s tok user = Inr (r, s1)) \<or> (\<exists>r. register_user h hp i now s tok pw dn = Inr (r, s1))"
    and "(account_step backend)\<^sup>*\<^sup>* s1 s2"
  shows "accept_in_transaction h later s2 tok anyone = Inl invalid_invite \<and>
    register_user h hp' j later s2 tok pw' dn' = Inl invalid_invite"
proof -
  have "ac_invites s1 = ac_invites (snd (redeem_invite_at h s tok now)) \<and> (\<exists>r. fst (redeem_invite_at h s tok now) = Some r)"
    using assms(2)
  proof (elim disjE exE)
    fix r assume "accept_in_transaction h now s tok user = Inr (r, s1)"
    then show ?thesis by (rule accept_Inr) (simp add: on_identity_def)
  next
    fix r assume "register_user h hp i now s tok pw dn = Inr (r, s1)"
    then show ?thesis by (rule register_Inr) (simp add: register_member_invites)
  qed
  then have s1: "ac_invites s1 = ac_invites (snd (redeem_invite_at h s tok now))"
    and "\<exists>r. fst (redeem_invite_at h s tok now) = Some r" by blast+
  then obtain v where v: "v \<in> set (ac_invites s1)" "iv_used_at v \<noteq> None" "iv_token_hash v = h tok"
    using redeemed_is_used [OF assms(1)] by metis
  have "invites_ok (ac_invites s1)"
    unfolding s1 by (rule invite_change_ok [OF redeem_change assms(1)])
  then have "invites_ok (ac_invites s2)" "v \<in> set (ac_invites s2)"
    using account_steps_used [OF assms(3) _ v(1,2)] by simp_all
  note refused = used_token_refused [where h = h and tok = tok, OF this v(2,3)]
  show ?thesis by (intro conjI refused)
qed

section \<open>An invite admits its addressee\<close>

lemma add_member_role:
  assumes "add_member now s t u role = Inr s'"
  shows "get_membership_role s' t' u' = (if t' = t \<and> u' = u then Some role else get_membership_role s t' u')"
proof -
  let ?row = "\<lparr>mb_tenant_id = t, mb_user_id = u, mb_role = role, mb_created_at = now\<rparr>"
  let ?same = "\<lambda>m. mb_tenant_id m = t \<and> mb_user_id m = u"
  consider (old) "0 < count_where ?same (id_members s)"
      "id_members s' = update_where ?same (\<lambda>m. m\<lparr>mb_role := role\<rparr>) (id_members s)"
    | (new) "count_where ?same (id_members s) = 0" "id_members s' = id_members s @ [?row]"
    using assms by (auto simp: add_member_def upsert_member_def rbind_Inr_iff Let_def split: if_splits)
  then show ?thesis
  proof cases
    case old
    have keys: "find_row (\<lambda>m. mb_tenant_id m = t' \<and> mb_user_id m = u') (update_where ?same (\<lambda>m. m\<lparr>mb_role := role\<rparr>) ms)
        = map_option (\<lambda>m. if ?same m then m\<lparr>mb_role := role\<rparr> else m) (find_row (\<lambda>m. mb_tenant_id m = t' \<and> mb_user_id m = u') ms)" for ms
      by (induction ms) (auto simp: find_row_def update_where_def)
    have "find_row ?same (id_members s) \<noteq> None" using old(1) by (auto simp: find_row_None count_where_pos)
    then have absent: "\<not> (t' = t \<and> u' = u)" if "find_row (\<lambda>m. mb_tenant_id m = t' \<and> mb_user_id m = u') (id_members s) = None"
      using that by auto
    show ?thesis
    proof (cases "find_row (\<lambda>m. mb_tenant_id m = t' \<and> mb_user_id m = u') (id_members s)")
      case None
      then show ?thesis using absent by (simp add: get_membership_role_def old(2) keys)
    next
      case (Some m)
      then show ?thesis using find_row_Some [OF Some] by (simp add: get_membership_role_def old(2) keys)
    qed
  next
    case new
    have "find_row (\<lambda>m. mb_tenant_id m = t' \<and> mb_user_id m = u') (ms @ [?row])
        = (case find_row (\<lambda>m. mb_tenant_id m = t' \<and> mb_user_id m = u') ms of
             None \<Rightarrow> if t' = t \<and> u' = u then Some ?row else None | Some m \<Rightarrow> Some m)" for ms
      by (induction ms) (auto simp: find_row_def)
    moreover have "find_row ?same (id_members s) = None"
      using new(1) by (simp add: find_row_None count_where_0)
    ultimately show ?thesis using new(2) by (auto simp: get_membership_role_def split: option.splits)
  qed
qed

text \<open>
  Accepting an invite admits exactly its addressee: the token belongs to an unused, unexpired
  invite of an active tenant for the account's own email, the account was no member, and afterwards it is a
  member with exactly the role of the invite while every other membership is as before.
\<close>

theorem invite_admits_addressee:
  assumes "accept_in_transaction h now s tok user = Inr (r, s')"
  shows "\<exists>v \<in> set (ac_invites s). iv_token_hash v = h tok \<and> iv_used_at v = None \<and> now < iv_expires_at v \<and>
    iv_email v = us_email user \<and>
    (\<exists>t \<in> set (id_tenants (ac_identity s)). tn_id t = iv_tenant_id v \<and> tn_disabled_at t = None) \<and>
    get_membership_role (ac_identity s) (iv_tenant_id v) (us_id user) = None \<and>
    (\<forall>t u. get_membership_role (ac_identity s') t u =
       (if t = iv_tenant_id v \<and> u = us_id user then Some (iv_role v) else get_membership_role (ac_identity s) t u))"
proof -
  obtain i where redeemed: "fst (redeem_invite_at h s tok now) = Some r"
    and email: "ri_email r = us_email user"
    and fresh: "get_membership_role (ac_identity s) (ri_tenant_id r) (us_id user) = None"
    and add: "add_member now (ac_identity s) (ri_tenant_id r) (us_id user) (ri_role r) = Inr i"
    and s': "s' = on_identity (snd (redeem_invite_at h s tok now)) i"
    by (rule accept_Inr [OF assms])
  from redeemed obtain v where v: "v \<in> set (ac_invites s)" "redeemable h s tok now v"
    and r: "r = \<lparr>ri_tenant_id = iv_tenant_id v, ri_email = iv_email v, ri_role = iv_role v\<rparr>"
    by (auto simp: redeem_invite_at_def dest: find_row_Some)
  show ?thesis
  proof (intro bexI [of _ v] conjI allI)
    fix t u
    show "get_membership_role (ac_identity s') t u =
        (if t = iv_tenant_id v \<and> u = us_id user then Some (iv_role v) else get_membership_role (ac_identity s) t u)"
      unfolding s' on_identity_def using add_member_role [OF add, of t u] by (simp add: r)
  qed (use v email fresh in \<open>simp_all add: redeemable_def r\<close>)
qed

section \<open>The number of tenants\<close>

definition tenant_ids :: "identity_db \<Rightarrow> uuid list" where
  "tenant_ids s = map tn_id (id_tenants s)"

lemma count_tenants_ids: "count_tenants s = length (filter (\<lambda>i. i \<noteq> INFRASTRUCTURE_TENANT_ID) (tenant_ids s))"
  by (simp add: count_tenants_def count_where_def tenant_ids_def filter_map o_def)

lemma add_member_tenants: "add_member now s t u role = Inr s' \<Longrightarrow> id_tenants s' = id_tenants s \<and> id_users s' = id_users s"
  by (auto simp: add_member_def upsert_member_def rbind_Inr_iff Let_def split: if_splits)

interpretation tenants_kept: identity_invariant "\<lambda>s. tenant_ids s = T" for T
  by unfold_locales
    (auto simp: insert_key_def delete_for_tenant_def rbind_Inr_iff Let_def tenant_ids_def
      split: if_splits option.splits dest: add_member_tenants)

lemma register_member_tenants:
  "register_member hp i now s t em pw dn role = Inr (u, s') \<Longrightarrow> tenant_ids (ac_identity s') = tenant_ids (ac_identity s)"
  by (auto simp: register_member_def create_user_def rbind_Inr_iff Let_def on_identity_def tenant_ids_def
      split: if_splits dest!: add_member_tenants)

text \<open>Only sign-up and setup change which tenants there are, each by one \<open>create_tenant\<close>.\<close>

lemma account_step_tenants:
  "account_step backend s s' \<Longrightarrow> tenant_ids (ac_identity s') = tenant_ids (ac_identity s) \<or>
     (\<exists>nt n m t i. create_tenant backend nt (ac_identity s) n m = Inr (t, i) \<and> tenant_ids (ac_identity s') = tenant_ids i)"
proof (induction rule: account_step.induct)
  case (identity s i)
  then show ?case using tenants_kept.inv_step by (simp add: on_identity_def)
next
  case (update_tenant now s actor input t i)
  then obtain r where r: "find_row (\<lambda>t. tn_id t = au_tenant_id actor) (id_tenants (ac_identity s)) = Some r"
    "id_tenants i = update_where (\<lambda>t. tn_id t = au_tenant_id actor) (\<lambda>_. t) (id_tenants (ac_identity s))" "tn_id t = tn_id r"
    by (auto simp: update_tenant_as_def find_tenant_by_id_def rbind_Inr_iff ok_or_Inr_iff Let_def split: if_splits option.splits)
  then have "map tn_id (id_tenants i) = map tn_id (id_tenants (ac_identity s))"
    unfolding r(2) using find_row_Some [OF r(1)] by (intro map_update_one) simp
  then show ?case by (simp add: tenant_ids_def on_identity_def)
next
  case (delete_user h now fresh tokens s u c s')
  then show ?case
    by (auto simp: delete_user_by_operator_def rbind_Inr_iff tenant_ids_def split: if_splits
        dest!: tenants_kept.inv_revoke_matching [OF refl])
next
  case (signup hp nt nu now s m em pw dn r s')
  then obtain n t i where "create_tenant backend nt (ac_identity s) n m = Inr (t, i)" "tenant_ids (ac_identity s') = tenant_ids i"
    by (auto simp: signup_account_def rbind_Inr_iff on_identity_def dest!: register_member_tenants)
  then show ?case by blast
next
  case (first_setup hp nt nw nu now s m em pw dn sa s')
  then obtain t i w j u where t: "create_tenant backend nt (ac_identity s) ''default'' m = Inr (t, i)"
    and w: "create_workspace_with_quota nw now i (tn_id t) ''default'' None None None = Inr (w, j)"
    and r: "register_member hp nu now (on_identity s j) (tn_id t) em pw dn RoleOwner = Inr (u, s')"
    unfolding setup_first_account_def guard_Inr_iff rbind_Inr_iff by (auto simp: rbind_Inr_iff)
  have "tenant_ids j = tenant_ids i"
    by (rule tenants_kept.inv_step [OF identity_step.create_workspace [OF w] refl])
  then have "tenant_ids (ac_identity s') = tenant_ids i"
    using register_member_tenants [OF r] by (simp add: on_identity_def)
  then show ?case using t by blast
next
  case (accept_existing h vp now s tok em pw ur s')
  then show ?case
    by (auto simp: accept_existing_user_def rbind_Inr_iff on_identity_def redeem_identity tenant_ids_def
        elim!: accept_Inr dest!: add_member_tenants)
next
  case (accept_authenticated h now s actor tok ur s')
  then show ?case
    by (auto simp: accept_authenticated_user_def rbind_Inr_iff on_identity_def redeem_identity tenant_ids_def
        elim!: accept_Inr dest!: add_member_tenants)
next
  case (register h hp i now s tok pw dn ur s')
  then show ?case by (auto simp: redeem_identity elim!: register_Inr dest!: register_member_tenants)
qed (auto simp: on_identity_def update_profile_def create_invite_as_def create_invite_at_def reissue_invite_as_def
    revoke_invite_as_def rbind_Inr_iff Let_def tenant_ids_def split: if_splits)

lemma create_tenant_ids:
  assumes "create_tenant backend nt s n m = Inr (t, i)"
  shows "tenant_ids i = tenant_ids s @ [nt]"
    and "\<And>k. tenant_maximum (tenant_limit_resolve backend m) = Some k \<Longrightarrow> count_tenants s < k"
  using assms by (auto simp: create_tenant_def rbind_Inr_iff ensure_Inr_iff Let_def tenant_ids_def split: if_splits)

lemma account_step_count:
  assumes "account_step backend s s'"
  shows "count_tenants (ac_identity s) \<le> count_tenants (ac_identity s')"
    and "backend = Sqlite \<Longrightarrow> count_tenants (ac_identity s) \<le> 1 \<Longrightarrow> count_tenants (ac_identity s') \<le> 1"
proof -
  consider (same) "tenant_ids (ac_identity s') = tenant_ids (ac_identity s)"
    | (created) nt n m t i where "create_tenant backend nt (ac_identity s) n m = Inr (t, i)"
        "tenant_ids (ac_identity s') = tenant_ids i"
    using account_step_tenants [OF assms] by blast
  then have "count_tenants (ac_identity s) \<le> count_tenants (ac_identity s') \<and>
    (backend = Sqlite \<longrightarrow> count_tenants (ac_identity s) \<le> 1 \<longrightarrow> count_tenants (ac_identity s') \<le> 1)"
  proof cases
    case created
    have "count_tenants (ac_identity s) < 1" if "backend = Sqlite"
      by (rule create_tenant_ids(2) [OF created(1)]) (simp add: that tenant_limit_resolve_def)
    then show ?thesis using create_tenant_ids(1) [OF created(1)] created(2) by (auto simp: count_tenants_ids)
  qed (simp add: count_tenants_ids)
  then show "count_tenants (ac_identity s) \<le> count_tenants (ac_identity s')"
    and "backend = Sqlite \<Longrightarrow> count_tenants (ac_identity s) \<le> 1 \<Longrightarrow> count_tenants (ac_identity s') \<le> 1"
    by blast+
qed

lemma account_steps_count:
  "(account_step backend)\<^sup>*\<^sup>* s s' \<Longrightarrow> count_tenants (ac_identity s) \<le> count_tenants (ac_identity s')"
  by (induction rule: rtranclp_induct) (auto dest: account_step_count(1))

text \<open>
  A deployment without database-enforced isolation serves one tenant: on SQLite no history of
  sign-ups, setups, invites and other operations ever leads to a second tenant, whatever limit is configured.
\<close>

theorem sqlite_single_tenant:
  assumes "(account_step Sqlite)\<^sup>*\<^sup>* s s'" and "count_tenants (ac_identity s) \<le> 1"
  shows "count_tenants (ac_identity s') \<le> 1"
  using assms by (induction rule: rtranclp_induct) (blast intro: account_step_count(2))+

text \<open>
  First-run setup happens once: after it succeeded, no later state accepts it again.
\<close>

theorem setup_runs_once:
  assumes "setup_first_account hp backend nt nw nu now s m em pw dn = Inr (sa, s1)" and "nt \<noteq> INFRASTRUCTURE_TENANT_ID"
    and "(account_step backend)\<^sup>*\<^sup>* s1 s2"
  shows "setup_first_account hp' backend nt' nw' nu' later s2 (Some m') em' pw' dn'
    = Inl (Conflict ''this deployment has already been set up'')"
proof -
  from assms(1) obtain t i w j u where t: "create_tenant backend nt (ac_identity s) ''default'' m = Inr (t, i)"
    and w: "create_workspace_with_quota nw now i (tn_id t) ''default'' None None None = Inr (w, j)"
    and r: "register_member hp nu now (on_identity s j) (tn_id t) em pw dn RoleOwner = Inr (u, s1)"
    unfolding setup_first_account_def guard_Inr_iff rbind_Inr_iff by (auto simp: rbind_Inr_iff)
  have "tenant_ids j = tenant_ids i"
    by (rule tenants_kept.inv_step [OF identity_step.create_workspace [OF w] refl])
  then have "nt \<in> set (tenant_ids (ac_identity s1))"
    using create_tenant_ids(1) [OF t] register_member_tenants [OF r] by (simp add: on_identity_def)
  then have "0 < count_tenants (ac_identity s1)"
    using assms(2) by (auto simp: count_tenants_ids filter_empty_conv)
  then have "0 < count_tenants (ac_identity s2)"
    using account_steps_count [OF assms(3)] by simp
  then show ?thesis by (simp add: setup_first_account_def)
qed

section \<open>Registration and login\<close>

lemma create_user_Inr:
  assumes "create_user hp i s em pw dn = Inr (u, s')"
  shows "us_id u = i" "us_email u = em" "id_users (ac_identity s') = id_users (ac_identity s) @ [u]"
    "em \<notin> us_email ` set (id_users (ac_identity s))" "map_of (ac_password_hashes s') i = Some (hp pw)"
  using assms by (auto simp: create_user_def Let_def split: if_splits)

text \<open>
  Registration and login agree: a user who registers with an invite is a member with the
  role of the invite and logs in with the chosen password, given that the password library accepts the
  hash it made of that password.
\<close>

theorem registered_user_logs_in:
  assumes "register_user h hp i now s tok pw dn = Inr ((u, r), s')" and "vp pw (hp pw)"
  shows "verify_login vp s' (ri_email r) pw = Some u \<and>
    get_membership_role (ac_identity s') (ri_tenant_id r) (us_id u) = Some (ri_role r)"
proof -
  let ?s1 = "snd (redeem_invite_at h s tok now)"
  from assms(1) have "register_member hp i now ?s1 (ri_tenant_id r) (ri_email r) pw dn (ri_role r) = Inr (u, s')"
    by (rule register_Inr) simp
  then obtain s2 j where user: "create_user hp i ?s1 (ri_email r) pw dn = Inr (u, s2)"
    and add: "add_member now (ac_identity s2) (ri_tenant_id r) (us_id u) (ri_role r) = Inr j"
    and s': "s' = on_identity s2 j"
    by (auto simp: register_member_def rbind_Inr_iff)
  have "get_user_by_email (ac_identity s') (ri_email r) = Some u"
    unfolding get_user_by_email_def
    by (rule find_row_unique)
      (use create_user_Inr [OF user] add_member_tenants [OF add] in \<open>auto simp: s' on_identity_def image_iff\<close>)
  then have "verify_login vp s' (ri_email r) pw = Some u"
    using create_user_Inr [OF user] assms(2) by (simp add: verify_login_def s' on_identity_def)
  then show ?thesis using add_member_role [OF add] by (simp add: s' on_identity_def)
qed

section \<open>Evaluation\<close>

definition newcomer :: user_row where
  "newcomer = \<lparr>us_id = 23, us_email = ''n@acme'', us_display_name = None\<rparr>"

definition invited :: account_db where
  "invited = \<lparr>ac_identity = acme, ac_password_hashes = [],
     ac_invites = [\<lparr>iv_id = 80, iv_tenant_id = 9, iv_email = ''n@acme'', iv_role = RoleMember, iv_token_hash = ''tok'',
       iv_expires_at = 100, iv_used_at = None, iv_created_at = 2\<rparr>]\<rparr>"

definition with_newcomer :: account_db where
  "with_newcomer = invited\<lparr>ac_identity := acme\<lparr>id_users := id_users acme @ [newcomer]\<rparr>\<rparr>"

definition fresh_deployment :: account_db where
  "fresh_deployment = \<lparr>ac_identity = \<lparr>id_store = empty_db, id_tenants = [], id_users = [], id_members = [],
     id_workspace_members = [], id_keys = []\<rparr>, ac_password_hashes = [], ac_invites = []\<rparr>"

lemmas account_defs = newcomer_def invited_def with_newcomer_def fresh_deployment_def acme_defs

lemmas invite_evals = account_defs accept_in_transaction_def register_user_def register_member_def create_user_def
  invite_tenant_def redeem_invite_at_def redeemable_def add_member_def protect_owner_def upsert_member_def
  get_membership_role_def find_row_def on_identity_def update_where_def Let_def

lemma newcomer_registers:
  "\<exists>r s1. register_user id id 30 5 invited ''tok'' ''pw'' None = Inr (r, s1) \<and> ri_email (snd r) = ''n@acme'' \<and>
     ri_tenant_id (snd r) = 9 \<and> us_id (fst r) = 30"
  by (simp add: invite_evals)

lemma newcomer_accepts: "\<exists>r s1. accept_in_transaction id 5 with_newcomer ''tok'' newcomer = Inr (r, s1)"
  by (simp add: invite_evals)

lemma deployment_sets_up:
  "\<exists>sa s1. setup_first_account id Sqlite 9 3 20 5 fresh_deployment (Some 4) ''o@acme'' ''pw'' None = Inr (sa, s1)"
  by (simp add: setup_first_account_def create_tenant_def count_tenants_def tenant_limit_resolve_def
      create_workspace_with_quota_def require_active_def effective_limit_def invite_evals)

theorem invite_single_use_witness:
  "\<exists>r s1. accept_in_transaction id 5 with_newcomer ''tok'' newcomer = Inr (r, s1) \<and>
     (\<forall>later anyone. accept_in_transaction id later s1 ''tok'' anyone = Inl invalid_invite)"
proof -
  obtain r s1 where accepted: "accept_in_transaction id 5 with_newcomer ''tok'' newcomer = Inr (r, s1)"
    using newcomer_accepts by blast
  have "invites_ok (ac_invites with_newcomer)"
    by (simp add: invites_ok_def account_defs)
  from invite_single_use [OF this disjI1 rtranclp.rtrancl_refl] accepted show ?thesis
    by (metis (no_types))
qed

theorem invite_admits_addressee_witness:
  "\<exists>r s1. accept_in_transaction id 5 with_newcomer ''tok'' newcomer = Inr (r, s1) \<and>
     get_membership_role (ac_identity s1) 9 23 = Some RoleMember"
proof -
  obtain r s1 where accepted: "accept_in_transaction id 5 with_newcomer ''tok'' newcomer = Inr (r, s1)"
    using newcomer_accepts by blast
  from invite_admits_addressee [OF accepted] have "get_membership_role (ac_identity s1) 9 23 = Some RoleMember"
    by (auto simp: account_defs)
  then show ?thesis using accepted by blast
qed

theorem sqlite_single_tenant_witness:
  "\<exists>sa s1. setup_first_account id Sqlite 9 3 20 5 fresh_deployment (Some 4) ''o@acme'' ''pw'' None = Inr (sa, s1) \<and>
     count_tenants (ac_identity s1) \<le> 1"
proof -
  obtain sa s1 where ok: "setup_first_account id Sqlite 9 3 20 5 fresh_deployment (Some 4) ''o@acme'' ''pw'' None = Inr (sa, s1)"
    using deployment_sets_up by blast
  have "count_tenants (ac_identity s1) \<le> 1"
    by (rule sqlite_single_tenant [OF r_into_rtranclp, OF account_step.first_setup [OF ok]])
      (simp add: count_tenants_def account_defs)
  then show ?thesis using ok by blast
qed

theorem setup_runs_once_witness:
  "\<exists>sa s1. setup_first_account id Sqlite 9 3 20 5 fresh_deployment (Some 4) ''o@acme'' ''pw'' None = Inr (sa, s1) \<and>
     setup_first_account id Sqlite 8 6 21 7 s1 (Some 4) ''p@acme'' ''pw'' None
       = Inl (Conflict ''this deployment has already been set up'')"
proof -
  obtain sa s1 where ok: "setup_first_account id Sqlite 9 3 20 5 fresh_deployment (Some 4) ''o@acme'' ''pw'' None = Inr (sa, s1)"
    using deployment_sets_up by blast
  have "9 \<noteq> INFRASTRUCTURE_TENANT_ID" by (simp add: INFRASTRUCTURE_TENANT_ID_def)
  from setup_runs_once [OF ok this rtranclp.rtrancl_refl] show ?thesis using ok by blast
qed

theorem registered_user_logs_in_witness:
  "\<exists>r s1. register_user id id 30 5 invited ''tok'' ''pw'' None = Inr (r, s1) \<and>
     verify_login (=) s1 ''n@acme'' ''pw'' = Some (fst r)"
proof -
  obtain u r s1 where ok: "register_user id id 30 5 invited ''tok'' ''pw'' None = Inr ((u, r), s1)"
    and "ri_email r = ''n@acme''"
    using newcomer_registers by force
  with registered_user_logs_in [OF ok, of "(=)"] show ?thesis by auto
qed

end
