(* ===== verification/Query_Embedding.thy ===== *)
theory Query_Embedding
  imports Dispatch_Outbox Access
begin

text \<open>
  \<open>src/models/query_embedding_requests.rs\<close> and \<open>src/workers/query_embedding.rs\<close>: the request a search opens,
  the worker that answers it, and the bounded wait of the server for the answer.

  The embedding provider is a parameter, as are serde's conversions of a vector to JSON and back.  Instants
  count milliseconds here, the unit of the timeout.  While the server sleeps between two reads, other
  processes act on the table: \<open>others k\<close> is what they did to it during the \<open>k\<close>-th sleep, and \<open>clock k\<close> is the
  reading of the clock after the \<open>k\<close>-th read.  The lemmas show that a result is delivered to one reader, that
  a late worker cannot revive a request, and that the wait ends within a bounded number of reads.
\<close>

section \<open>State\<close>

datatype query_embedding_status = QPending | QSucceeded | QFailed | QExpired

record request_row =
  rq_id :: uuid
  rq_workspace_id :: uuid
  rq_query_text :: string
  rq_status :: query_embedding_status
  rq_result_vector :: "json option"
  rq_dimensions :: "int option"
  rq_model :: "string option"
  rq_error :: "string option"
  rq_expires_at :: instant
  rq_deadline_at :: "instant option"
  rq_completed_at :: "instant option"

text \<open>
  The request table with the tables it is used with; the embedding dimensions are a column of the
  workspaces.
\<close>

record search_db =
  sd_identity :: identity_db
  sd_dimensions :: "(uuid \<times> int) list"
  sd_requests :: "request_row list"
  sd_queue :: queue_store

datatype 'f query_outcome =
    OutcomePending
  | OutcomeReady "'f list" string
  | OutcomeFailed string
  | OutcomeExpired

section \<open>Requests\<close>

definition retention_ms :: "nat \<Rightarrow> int" where
  "retention_ms retention_seconds =
     1000 * (if retention_seconds < 2 ^ 63 then int retention_seconds else (2 ^ 63 - 1) div 1000)"

definition open_request ::
  "uuid \<Rightarrow> instant \<Rightarrow> search_db \<Rightarrow> uuid \<Rightarrow> string \<Rightarrow> nat \<Rightarrow> instant \<Rightarrow> (uuid \<times> search_db) result" where
  "open_request new_id now s workspace_id query_text retention_seconds deadline_at =
     (if new_id \<in> rq_id ` set (sd_requests s) \<or>
         workspace_id \<notin> wk_id ` set (db_workspaces (id_store (sd_identity s)))
      then Inl (Internal ''constraint'')
      else Inr (new_id, s\<lparr>sd_requests := sd_requests s @
        [\<lparr>rq_id = new_id, rq_workspace_id = workspace_id, rq_query_text = query_text, rq_status = QPending,
          rq_result_vector = None, rq_dimensions = None, rq_model = None, rq_error = None,
          rq_expires_at = now + retention_ms retention_seconds, rq_deadline_at = Some deadline_at,
          rq_completed_at = None\<rparr>]\<rparr>))"

definition find_pending :: "instant \<Rightarrow> search_db \<Rightarrow> uuid \<Rightarrow> uuid \<Rightarrow> request_row option" where
  "find_pending now s workspace_id i =
     find_row (\<lambda>r. rq_id r = i \<and> rq_workspace_id r = workspace_id \<and> rq_status r = QPending \<and>
        rq_expires_at r > now \<and> (case rq_deadline_at r of None \<Rightarrow> False | Some d \<Rightarrow> d > now)) (sd_requests s)"

definition waiting :: "uuid \<Rightarrow> uuid \<Rightarrow> request_row \<Rightarrow> bool" where
  "waiting workspace_id i r \<longleftrightarrow> rq_id r = i \<and> rq_workspace_id r = workspace_id \<and> rq_status r = QPending"

definition active_workspace :: "identity_db \<Rightarrow> uuid \<Rightarrow> bool" where
  "active_workspace s workspace_id \<longleftrightarrow>
     (\<exists>w \<in> set (db_workspaces (id_store s)). wk_id w = workspace_id \<and>
        (\<exists>t \<in> set (id_tenants s). tn_id t = wk_tenant_id w \<and> tn_disabled_at t = None))"

definition complete ::
  "('f list \<Rightarrow> json) \<Rightarrow> instant \<Rightarrow> search_db \<Rightarrow> uuid \<Rightarrow> uuid \<Rightarrow> 'f list \<Rightarrow> string \<Rightarrow> (bool \<times> search_db) result" where
  "complete to_value now s workspace_id i vector model =
     (if length vector \<ge> 2 ^ 31 then Inl (Internal ''query vector is too wide to store'')
      else let sel = (\<lambda>r. waiting workspace_id i r \<and> active_workspace (sd_identity s) workspace_id) in
        Inr (count_where sel (sd_requests s) = 1,
             s\<lparr>sd_requests := update_where sel
                 (\<lambda>r. r\<lparr>rq_status := QSucceeded, rq_result_vector := Some (to_value vector),
                        rq_dimensions := Some (int (length vector)), rq_model := Some model,
                        rq_completed_at := Some now\<rparr>) (sd_requests s)\<rparr>))"

definition fail :: "instant \<Rightarrow> search_db \<Rightarrow> uuid \<Rightarrow> uuid \<Rightarrow> string \<Rightarrow> bool \<times> search_db" where
  "fail now s workspace_id i e =
     (count_where (waiting workspace_id i) (sd_requests s) = 1,
      s\<lparr>sd_requests := update_where (waiting workspace_id i)
          (\<lambda>r. r\<lparr>rq_status := QFailed, rq_error := Some e, rq_completed_at := Some now\<rparr>) (sd_requests s)\<rparr>)"

definition expire :: "search_db \<Rightarrow> uuid \<Rightarrow> uuid \<Rightarrow> bool \<times> search_db" where
  "expire s workspace_id i =
     (count_where (waiting workspace_id i) (sd_requests s) = 1,
      s\<lparr>sd_requests := update_where (waiting workspace_id i) (\<lambda>r. r\<lparr>rq_status := QExpired\<rparr>) (sd_requests s)\<rparr>)"

definition outcome :: "(json \<Rightarrow> 'f list option) \<Rightarrow> request_row \<Rightarrow> 'f query_outcome result" where
  "outcome from_value row =
     (case rq_status row of
        QSucceeded \<Rightarrow>
          (case Option.bind (rq_result_vector row) from_value of
             Some vector \<Rightarrow>
               if rq_dimensions row = Some (int (length vector))
               then Inr (OutcomeReady vector (case rq_model row of None \<Rightarrow> [] | Some m \<Rightarrow> m))
               else Inl (Internal ''the stored query embedding is malformed'')
           | None \<Rightarrow> Inl (Internal ''the stored query embedding is malformed''))
      | QFailed \<Rightarrow> Inr (OutcomeFailed (case rq_error row of None \<Rightarrow> ''query embedding failed'' | Some e \<Rightarrow> e))
      | QExpired \<Rightarrow> Inr OutcomeExpired
      | QPending \<Rightarrow> Inr OutcomePending)"

definition finished_request :: "uuid \<Rightarrow> uuid \<Rightarrow> request_row \<Rightarrow> bool" where
  "finished_request workspace_id i r \<longleftrightarrow> rq_id r = i \<and> rq_workspace_id r = workspace_id \<and> rq_status r \<noteq> QPending"

text \<open>
  \<open>take\<close> in the server's transaction (\<open>Scope::read\<close>): when the stored vector is malformed the transaction is
  rolled back.
\<close>

definition take_request ::
  "(json \<Rightarrow> 'f list option) \<Rightarrow> search_db \<Rightarrow> uuid \<Rightarrow> uuid \<Rightarrow> ('f query_outcome option \<times> search_db) result" where
  "take_request from_value s workspace_id i =
     (case find_row (finished_request workspace_id i) (sd_requests s) of
        Some row \<Rightarrow>
          rbind (outcome from_value row) (\<lambda>found.
            Inr (Some found, s\<lparr>sd_requests := delete_where (finished_request workspace_id i) (sd_requests s)\<rparr>))
      | None \<Rightarrow>
          Inr (map_option (\<lambda>_. OutcomePending)
                 (find_row (\<lambda>r. rq_id r = i \<and> rq_workspace_id r = workspace_id) (sd_requests s)), s))"

text \<open>\<open>visible\<close> is the row-level security of the connection.\<close>

definition purge_expired :: "instant \<Rightarrow> (request_row \<Rightarrow> bool) \<Rightarrow> search_db \<Rightarrow> search_db" where
  "purge_expired now visible s =
     s\<lparr>sd_requests := delete_where (\<lambda>r. visible r \<and> rq_expires_at r < now) (sd_requests s)\<rparr>"

section \<open>The worker\<close>

definition check_query_width :: "search_db \<Rightarrow> uuid \<Rightarrow> nat \<Rightarrow> unit result" where
  "check_query_width s workspace_id vector_len =
     (if workspace_id \<notin> wk_id ` set (db_workspaces (id_store (sd_identity s)))
      then Inl (NotFound ''workspace {} not found'')
      else if (case map_of (sd_dimensions s) workspace_id of None \<Rightarrow> False | Some expected \<Rightarrow> expected \<noteq> int vector_len)
      then Inl (ValidationFailed ''workspace expects {} dimensions, query has {}'' [])
      else if vector_len = 0 then Inl (ValidationFailed ''query embedding must not be empty'' [])
      else Inr ())"

record 'f provider =
  pv_model_name :: string
  pv_embed_query :: "string \<Rightarrow> 'f list result"

definition RETRY_AFTER :: nat where
  "RETRY_AFTER = 1"

text \<open>\<open>now\<close> is the clock when the concurrency permit is obtained.\<close>

definition embed ::
  "'f provider option result \<Rightarrow> instant \<Rightarrow> search_db \<Rightarrow> uuid \<Rightarrow> string \<Rightarrow> instant option \<Rightarrow> ('f list \<times> string) result" where
  "embed provider_of now s workspace_id query_text deadline_at =
     rbind (ok_or deadline_at (ProviderBusy ''legacy query request has no durable caller deadline'' RETRY_AFTER)) (\<lambda>deadline.
     rbind provider_of (\<lambda>p.
     rbind (ok_or p (BackendUnavailable ''no embedding provider is configured on the worker'')) (\<lambda>provider.
     if deadline \<le> now
     then Inl (ProviderBusy ''query embedding caller deadline elapsed before provider start'' RETRY_AFTER)
     else rbind (get_workspace_tenant (id_store (sd_identity s)) workspace_id) (\<lambda>tenant_id.
     rbind (require_active (sd_identity s) tenant_id) (\<lambda>_.
     rbind (pv_embed_query provider query_text) (\<lambda>vector.
     rbind (check_query_width s workspace_id (length vector)) (\<lambda>_.
     Inr (vector, pv_model_name provider))))))))"

text \<open>
  \<open>answer\<close>: the instants of the lookup, of the permit and of the write are given; \<open>meanwhile\<close> is what others do to the
  tables while the provider computes.  The job's error, when there is one, comes with the tables it leaves.
\<close>

definition answer ::
  "('f list \<Rightarrow> json) \<Rightarrow> (yorishiro_error \<Rightarrow> string) \<Rightarrow> 'f provider option result \<Rightarrow> (search_db \<Rightarrow> search_db) \<Rightarrow>
   instant \<times> instant \<times> instant \<Rightarrow> search_db \<Rightarrow> uuid \<Rightarrow> uuid \<Rightarrow> unit result \<times> search_db" where
  "answer to_value message provider_of meanwhile clocks s request_id workspace_id =
     (let (now, permit_at, write_at) = clocks; s1 = purge_expired now (\<lambda>_. True) s in
      case find_pending now s1 workspace_id request_id of
        None \<Rightarrow> (Inr (), s1)
      | Some request \<Rightarrow>
          (let s2 = meanwhile s1 in
           case embed provider_of permit_at s2 workspace_id (rq_query_text request) (rq_deadline_at request) of
             Inr (vector, model) \<Rightarrow>
               (case complete to_value write_at s2 workspace_id (rq_id request) vector model of
                  Inl e \<Rightarrow> (Inl e, s2)
                | Inr (stored, s3) \<Rightarrow> (Inr (), s3))
           | Inl e \<Rightarrow> (Inl e, snd (fail write_at s2 workspace_id (rq_id request) (message e)))))"

section \<open>The wait of the server\<close>

record query_embedding_settings =
  qs_timeout_ms :: nat
  qs_poll_interval_ms :: nat
  qs_retention_seconds :: nat

definition query_args :: "(uuid \<Rightarrow> string) \<Rightarrow> uuid \<Rightarrow> uuid \<Rightarrow> json" where
  "query_args hyphenated request_id workspace_id =
     JObj [(''request_id'', JStr (hyphenated request_id)), (''workspace_id'', JStr (hyphenated workspace_id))]"

definition scope_open ::
  "(uuid \<Rightarrow> string) \<Rightarrow> (string \<Rightarrow> uuid option) \<Rightarrow> backend \<Rightarrow> uuid \<Rightarrow> uuid \<Rightarrow> instant \<Rightarrow> search_db \<Rightarrow> uuid \<Rightarrow> string \<Rightarrow> nat \<Rightarrow>
   instant \<Rightarrow> (uuid \<times> search_db) result" where
  "scope_open hyphenated parse_uuid backend new_id dispatch_id now s workspace_id query_text retention_seconds deadline_at =
     (let s1 = purge_expired now (\<lambda>r. backend = Sqlite \<or> rq_workspace_id r = workspace_id) s in
      rbind (open_request new_id now s1 workspace_id query_text retention_seconds deadline_at) (\<lambda>(i, s2).
      let payload = payload_insert ''workspace_id'' (hyphenated workspace_id) (query_args hyphenated i workspace_id) in
      rbind (for_job (id_store (sd_identity s2)) Shared workspace_id) (\<lambda>target.
      case record_query_in_transaction parse_uuid (sd_queue s2) dispatch_id deadline_at payload ''QueryEmbeddingWorker''
             (Some (target_queue hyphenated target)) (Some [target_tag hyphenated target]) of
        Inl e \<Rightarrow> Inl (Internal ''database error'')
      | Inr q \<Rightarrow> Inr (i, s2\<lparr>sd_queue := q\<rparr>))))"

fun finished_result :: "'f query_outcome option \<Rightarrow> 'f list result" where
  "finished_result (Some (OutcomeReady vector _)) = Inr vector"
| "finished_result (Some (OutcomeFailed message)) = Inl (BackendUnavailable ''the query could not be embedded: {}'')"
| "finished_result (Some OutcomeExpired) =
     Inl (ProviderBusy ''the query embedding request expired before a worker answered'' RETRY_AFTER)"
| "finished_result (Some OutcomePending) =
     Inl (ProviderBusy ''the query embedding request expired before a worker answered'' RETRY_AFTER)"
| "finished_result None =
     Inl (BackendUnavailable ''the query embedding request was purged before its result was read'')"

text \<open>The end of \<open>wait\<close>, after the deadline.\<close>

definition give_up :: "(json \<Rightarrow> 'f list option) \<Rightarrow> search_db \<Rightarrow> uuid \<Rightarrow> uuid \<Rightarrow> 'f list result \<times> search_db" where
  "give_up from_value s workspace_id request_id =
     (let (expired, s1) = expire s workspace_id request_id in
      case take_request from_value s1 workspace_id request_id of
        Inl e \<Rightarrow> (Inl e, s1)
      | Inr (found, s2) \<Rightarrow>
          if expired then (Inl (ProviderBusy ''no embedding worker answered the query within {} ms'' RETRY_AFTER), s2)
          else (finished_result found, s2))"

text \<open>
  The loop, by fuel: \<open>None\<close> when the fuel runs out.  The number of reads so far is counted.  The last sleep
  and the final statements are separate transactions, so others may act between them too.
\<close>

fun wait_loop ::
  "(json \<Rightarrow> 'f list option) \<Rightarrow> (nat \<Rightarrow> search_db \<Rightarrow> search_db) \<Rightarrow> (nat \<Rightarrow> int) \<Rightarrow> int \<Rightarrow> uuid \<Rightarrow> uuid \<Rightarrow> nat \<Rightarrow> nat \<Rightarrow> search_db \<Rightarrow>
   (nat \<times> 'f list result \<times> search_db) option" where
  "wait_loop from_value others clock deadline workspace_id request_id 0 k s = None"
| "wait_loop from_value others clock deadline workspace_id request_id (Suc fuel) k s =
     (case take_request from_value s workspace_id request_id of
        Inl e \<Rightarrow> Some (Suc k, Inl e, s)
      | Inr (Some OutcomePending, s1) \<Rightarrow>
          if clock k \<ge> deadline
          then (let (r, s2) = give_up from_value (others k s1) workspace_id request_id in Some (Suc (Suc k), r, s2))
          else wait_loop from_value others clock deadline workspace_id request_id fuel (Suc k) (others k s1)
      | Inr (found, s1) \<Rightarrow> Some (Suc k, finished_result found, s1))"

definition embed_query ::
  "(json \<Rightarrow> 'f list option) \<Rightarrow> (uuid \<Rightarrow> string) \<Rightarrow> (string \<Rightarrow> uuid option) \<Rightarrow> backend \<Rightarrow> query_embedding_settings \<Rightarrow> uuid \<Rightarrow> uuid \<Rightarrow>
   (nat \<Rightarrow> search_db \<Rightarrow> search_db) \<Rightarrow> (nat \<Rightarrow> int) \<Rightarrow> instant \<Rightarrow> nat \<Rightarrow> search_db \<Rightarrow> uuid \<Rightarrow> string \<Rightarrow>
   (nat \<times> 'f list result \<times> search_db) option" where
  "embed_query from_value hyphenated parse_uuid backend settings new_id dispatch_id others clock now fuel s workspace_id query_text =
     (let deadline_at = now + int (qs_timeout_ms settings) in
      case scope_open hyphenated parse_uuid backend new_id dispatch_id now s workspace_id query_text
             (qs_retention_seconds settings) deadline_at of
        Inl e \<Rightarrow> Some (0, Inl e, s)
      | Inr (request_id, s1) \<Rightarrow>
          wait_loop from_value others clock (now + int (qs_timeout_ms settings)) workspace_id request_id fuel 0 s1)"

section \<open>Histories of the request table\<close>

datatype 'f request_event = Opened uuid | Completed uuid "'f list" | OtherEvent

inductive request_step :: "('f list \<Rightarrow> json) \<Rightarrow> search_db \<Rightarrow> 'f request_event \<Rightarrow> search_db \<Rightarrow> bool" for tv where
  opened: "open_request i now s w q ret dl = Inr (j, s') \<Longrightarrow> request_step tv s (Opened i) s'"
| completed: "complete tv now s w i v m = Inr (b, s') \<Longrightarrow> request_step tv s (Completed i v) s'"
| failed: "fail now s w i e = (b, s') \<Longrightarrow> request_step tv s OtherEvent s'"
| expired: "expire s w i = (b, s') \<Longrightarrow> request_step tv s OtherEvent s'"
| taken: "take_request (fv :: json \<Rightarrow> 'f list option) s w i = Inr (x, s') \<Longrightarrow> request_step tv s OtherEvent s'"
| purged: "request_step tv s OtherEvent (purge_expired now visible s)"
| elsewhere: "sd_requests s' = sd_requests s \<Longrightarrow> request_step tv s OtherEvent s'"

inductive request_run :: "('f list \<Rightarrow> json) \<Rightarrow> search_db \<Rightarrow> 'f request_event list \<Rightarrow> search_db \<Rightarrow> bool" for tv where
  rest: "request_run tv s [] s"
| advance: "request_step tv s ev s' \<Longrightarrow> request_run tv s' evs s'' \<Longrightarrow> request_run tv s (ev # evs) s''"

text \<open>
  A row of request \<open>i\<close> after a step that does not open it was there before, or a pending row of it was
  finished, with the vector of the completion when it succeeded.
\<close>

lemma finished_rows:
  assumes "r \<in> set (update_where p f t)" and "\<And>x. p x \<Longrightarrow> waiting w j x"
    and "\<And>x. rq_id (f x) = rq_id x" "\<And>x. rq_status (f x) \<noteq> QPending"
  obtains "r \<in> set t" | r0 where "r0 \<in> set t" "rq_id r0 = rq_id r" "rq_id r = j" "rq_status r0 = QPending"
    "rq_status r \<noteq> QPending" "r = f r0"
  using assms by (force simp: set_update_where waiting_def split: if_splits)

lemma request_step_rows:
  assumes "request_step tv s ev s'" and "ev \<noteq> Opened i" and "r \<in> set (sd_requests s')" "rq_id r = i"
  shows "r \<in> set (sd_requests s) \<or>
    (\<exists>r0 \<in> set (sd_requests s). rq_id r0 = i \<and> rq_status r0 = QPending \<and> rq_status r \<noteq> QPending \<and>
      (rq_status r = QSucceeded \<longrightarrow> (\<exists>v. ev = Completed i v \<and> rq_result_vector r = Some (tv v))))"
  using assms
proof (induction rule: request_step.induct)
  case (opened j now s w q ret dl k s')
  then show ?case by (auto simp: open_request_def split: if_splits)
next
  case (completed now s w j v m b s')
  let ?f = "\<lambda>r. r\<lparr>rq_status := QSucceeded, rq_result_vector := Some (tv v),
    rq_dimensions := Some (int (length v)), rq_model := Some m, rq_completed_at := Some now\<rparr>"
  have "r \<in> set (update_where (\<lambda>r. waiting w j r \<and> active_workspace (sd_identity s) w) ?f (sd_requests s))"
    using completed by (auto simp: complete_def Let_def split: if_splits)
  then show ?case by (rule finished_rows [where w = w and j = j]) (use completed in auto)
next
  case (failed now s w j e b s')
  let ?f = "\<lambda>r. r\<lparr>rq_status := QFailed, rq_error := Some e, rq_completed_at := Some now\<rparr>"
  have "r \<in> set (update_where (waiting w j) ?f (sd_requests s))"
    using failed by (auto simp: fail_def)
  then show ?case by (rule finished_rows [where w = w and j = j]) (use failed in auto)
next
  case (expired s w j b s')
  have "r \<in> set (update_where (waiting w j) (\<lambda>r. r\<lparr>rq_status := QExpired\<rparr>) (sd_requests s))"
    using expired by (auto simp: expire_def)
  then show ?case by (rule finished_rows [where w = w and j = j]) (use expired in auto)
next
  case (taken fv s w j x s')
  then show ?case
    by (auto simp: take_request_def rbind_Inr_iff set_delete_where split: option.splits)
next
  case (purged s now visible)
  then show ?case by (simp add: purge_expired_def set_delete_where)
qed simp

section \<open>A late worker\<close>

definition settled_query :: "uuid \<Rightarrow> search_db \<Rightarrow> bool" where
  "settled_query i s \<longleftrightarrow> (\<forall>r \<in> set (sd_requests s). rq_id r = i \<longrightarrow> rq_status r \<noteq> QPending)"

lemma request_run_settled:
  "request_run tv s evs s' \<Longrightarrow> settled_query i s \<Longrightarrow> Opened i \<notin> set evs \<Longrightarrow>
   settled_query i s' \<and> (\<forall>r \<in> set (sd_requests s'). rq_id r = i \<longrightarrow> r \<in> set (sd_requests s))"
proof (induction rule: request_run.induct)
  case (advance s ev s' evs s'')
  have old: "r \<in> set (sd_requests s)" if "r \<in> set (sd_requests s')" "rq_id r = i" for r
    using request_step_rows [OF advance.hyps(1) _ that] advance.prems by (auto simp: settled_query_def)
  then have "settled_query i s'" using advance.prems(1) by (auto simp: settled_query_def)
  then show ?case using advance.IH advance.prems(2) old by auto
qed simp

lemma settled_not_waiting: "settled_query i s \<Longrightarrow> count_where (waiting w i) (sd_requests s) = 0"
  by (auto simp: settled_query_def waiting_def count_where_0)

text \<open>
  A late worker cannot revive a request: once a request has been answered, expired, consumed or
  purged, then in every later state completing or failing it reports that it was not stored and changes
  nothing, and whatever is left of it is the row it was settled with.
\<close>

theorem late_worker_fenced:
  assumes "settled_query i s" and "request_run tv s evs s'" and "Opened i \<notin> set evs" and "length v < 2 ^ 31"
  shows "complete tv now s' w i v m = Inr (False, s') \<and> fail now s' w i e = (False, s') \<and>
    (\<forall>r \<in> set (sd_requests s'). rq_id r = i \<longrightarrow> r \<in> set (sd_requests s))"
proof -
  have settled: "settled_query i s'" and rows: "\<forall>r \<in> set (sd_requests s'). rq_id r = i \<longrightarrow> r \<in> set (sd_requests s)"
    using request_run_settled [OF assms(2,1,3)] by blast+
  have none: "\<not> waiting w i r" if "r \<in> set (sd_requests s')" for r
    using settled that by (auto simp: settled_query_def waiting_def)
  have same: "update_where (\<lambda>r. waiting w i r \<and> q) f (sd_requests s') = sd_requests s'"
    "update_where (waiting w i) f (sd_requests s') = sd_requests s'" for q f
    using none by (auto intro!: update_where_none)
  have "count_where (\<lambda>r. waiting w i r \<and> q) (sd_requests s') = 0" for q
    using none by (auto simp: count_where_0)
  then have "complete tv now s' w i v m = Inr (False, s')"
    using assms(4) by (simp add: complete_def Let_def same)
  moreover have "fail now s' w i e = (False, s')"
    using settled_not_waiting [OF settled] by (simp add: fail_def same)
  ultimately show ?thesis using rows by blast
qed

section \<open>The vector of a search\<close>

definition genuine :: "('f list \<Rightarrow> json) \<Rightarrow> 'f list set \<Rightarrow> uuid \<Rightarrow> search_db \<Rightarrow> bool" where
  "genuine tv V i s \<longleftrightarrow> (\<forall>r \<in> set (sd_requests s). rq_id r = i \<longrightarrow> rq_status r = QSucceeded \<longrightarrow>
     (\<exists>v \<in> V. rq_result_vector r = Some (tv v)))"

lemma request_run_genuine:
  "request_run tv s evs s' \<Longrightarrow> genuine tv V i s \<Longrightarrow> Opened i \<notin> set evs \<Longrightarrow> (\<forall>v. Completed i v \<in> set evs \<longrightarrow> v \<in> V) \<Longrightarrow>
   genuine tv V i s'"
proof (induction rule: request_run.induct)
  case (advance s ev s' evs s'')
  have "genuine tv V i s'"
    unfolding genuine_def
  proof (intro ballI impI)
    fix r assume "r \<in> set (sd_requests s')" "rq_id r = i" "rq_status r = QSucceeded"
    with request_step_rows [OF advance.hyps(1), of i r] advance.prems
    show "\<exists>v \<in> V. rq_result_vector r = Some (tv v)" by (auto simp: genuine_def)
  qed
  then show ?case using advance.IH advance.prems by auto
qed

lemma take_ready:
  assumes "take_request fv s w i = Inr (Some (OutcomeReady v m), s')" and "genuine tv V i s"
    and "\<And>v. v \<in> V \<Longrightarrow> fv (tv v) = Some v"
  shows "v \<in> V"
proof -
  from assms(1) obtain r where r: "find_row (finished_request w i) (sd_requests s) = Some r"
    and ready: "outcome fv r = Inr (OutcomeReady v m)"
    by (auto simp: take_request_def rbind_Inr_iff split: option.splits)
  have "r \<in> set (sd_requests s)" "rq_id r = i"
    using find_row_Some [OF r] by (simp_all add: finished_request_def)
  moreover have "rq_status r = QSucceeded" "Option.bind (rq_result_vector r) fv = Some v"
    using ready by (auto simp: outcome_def split: query_embedding_status.splits option.splits if_splits)
  ultimately show ?thesis using assms(2,3) by (fastforce simp: genuine_def)
qed

lemma finished_result_Inr: "finished_result x = Inr v \<Longrightarrow> \<exists>m. x = Some (OutcomeReady v m)"
  by (cases x rule: finished_result.cases) auto

text \<open>What the loop needs of its environment to return nothing but vectors of \<open>V\<close>.\<close>

lemma request_step_genuine:
  assumes "request_step tv s ev s'" "genuine tv V i s" "ev = OtherEvent"
  shows "genuine tv V i s'"
  using request_run_genuine [OF request_run.advance [OF assms(1) request_run.rest] assms(2)] assms(3) by simp

lemma wait_loop_genuine:
  assumes "\<And>v. v \<in> V \<Longrightarrow> fv (tv v) = Some v"
    and "\<And>k s. genuine tv V i s \<Longrightarrow> genuine tv V i (others k s)"
    and "genuine tv V i s" and "wait_loop fv others clock deadline w i fuel k s = Some (n, Inr v, s')"
  shows "v \<in> V"
  using assms(3,4)
proof (induction fuel arbitrary: k s)
  case (Suc fuel)
  obtain x s1 where x: "take_request fv s w i = Inr (x, s1)"
    using Suc.prems(2) by (cases "take_request fv s w i") auto
  have s1: "genuine tv V i s1"
    by (rule request_step_genuine [OF request_step.taken [OF x] Suc.prems(1) refl])
  show ?case
  proof (cases "x = Some OutcomePending")
    case pending: True
    show ?thesis
    proof (cases "clock k \<ge> deadline")
      case True
      let ?s = "others k s1"
      obtain b s2 where b: "expire ?s w i = (b, s2)" by fastforce
      have s2: "genuine tv V i s2"
        by (rule request_step_genuine [OF request_step.expired [OF b] assms(2) [OF s1] refl])
      have "fst (give_up fv ?s w i) = Inr v"
        using Suc.prems(2) x pending True by (auto simp: case_prod_unfold Let_def)
      then obtain y s3 where y: "take_request fv s2 w i = Inr (y, s3)" "finished_result y = Inr v"
        by (auto simp: give_up_def b split: sum.splits if_splits)
      then show ?thesis using take_ready [OF _ s2 assms(1)] finished_result_Inr by metis
    next
      case False
      then show ?thesis using Suc.prems(2) x pending Suc.IH [OF assms(2) [OF s1]] by simp
    qed
  next
    case False
    then have "finished_result x = Inr v"
      using Suc.prems(2) x by (cases x) (auto split: query_outcome.splits)
    then show ?thesis using take_ready [OF _ Suc.prems(1) assms(1)] x finished_result_Inr by metis
  qed
qed simp

lemma open_request_Inr:
  assumes "open_request i now s w q ret dl = Inr (j, s')"
  shows "j = i" and "\<And>r. r \<in> set (sd_requests s') \<Longrightarrow> rq_id r = i \<Longrightarrow> rq_status r = QPending"
proof -
  from assms have "j = i" and new: "i \<notin> rq_id ` set (sd_requests s)"
    and "\<exists>row. rq_status row = QPending \<and> sd_requests s' = sd_requests s @ [row]"
    by (auto simp: open_request_def split: if_splits)
  then show "j = i" and "\<And>r. r \<in> set (sd_requests s') \<Longrightarrow> rq_id r = i \<Longrightarrow> rq_status r = QPending"
    by auto
qed

lemma sum_case_Inr_iff: "(case x of Inl e \<Rightarrow> Inl (f e) | Inr y \<Rightarrow> g y) = Inr z \<longleftrightarrow> (\<exists>y. x = Inr y \<and> g y = Inr z)"
  by (cases x) auto

lemma scope_open_Inr:
  assumes "scope_open hyph pu backend i di now s w q ret dl = Inr (j, s')"
  obtains s0 s2 where "open_request i now s0 w q ret dl = Inr (j, s2)" "sd_requests s' = sd_requests s2"
  using assms unfolding scope_open_def Let_def rbind_Inr_iff
  by (auto simp: rbind_Inr_iff sum_case_Inr_iff)

text \<open>
  A search is answered with a vector computed for it: whatever the other processes do while the
  server waits, provided serde reads back the vectors it wrote, the vector the wait returns is one that a
  worker completed this very request with.
\<close>

theorem search_gets_own_vector:
  assumes "\<forall>v \<in> V. fv (tv v) = Some v"
    and "\<forall>k s. \<exists>evs. request_run tv s evs (others k s) \<and> Opened i \<notin> set evs \<and> (\<forall>v. Completed i v \<in> set evs \<longrightarrow> v \<in> V)"
    and "embed_query fv hyph pu backend settings i di others clock now fuel s w q = Some (n, Inr v, s')"
  shows "v \<in> V"
proof -
  obtain j s1 where opened: "scope_open hyph pu backend i di now s w q (qs_retention_seconds settings)
      (now + int (qs_timeout_ms settings)) = Inr (j, s1)"
    and run: "wait_loop fv others clock (now + int (qs_timeout_ms settings)) w j fuel 0 s1 = Some (n, Inr v, s')"
    using assms(3) by (auto simp: embed_query_def Let_def split: sum.splits)
  have j: "j = i" and "\<forall>r \<in> set (sd_requests s1). rq_id r = i \<longrightarrow> rq_status r = QPending"
    using scope_open_Inr [OF opened] open_request_Inr by metis+
  then have start: "genuine tv V i s1" by (auto simp: genuine_def)
  have keeps: "genuine tv V i (others k s)" if "genuine tv V i s" for k s
    using assms(2) request_run_genuine that by meson
  show ?thesis
    by (rule wait_loop_genuine [OF _ keeps start run [unfolded j]]) (use assms(1) in auto)
qed

section \<open>The wait ends\<close>

lemma clock_reaches:
  assumes "\<And>k. clock k < deadline \<Longrightarrow> clock k + min interval (deadline - clock k) \<le> clock (Suc k)"
    and "deadline - timeout \<le> clock 0" and "0 \<le> (interval :: int)"
  shows "clock k \<ge> deadline \<or> deadline - timeout + int k * interval \<le> clock k \<or> (\<exists>j < k. clock j \<ge> deadline)"
proof (induction k)
  case 0
  then show ?case using assms(2) by simp
next
  case (Suc k)
  show ?case
  proof (cases "\<exists>j < Suc k. clock j \<ge> deadline")
    case False
    then have "clock k < deadline" "deadline - timeout + int k * interval \<le> clock k"
      using Suc.IH by (auto simp: not_le less_Suc_eq)
    then show ?thesis using assms(1) [of k] by (auto simp: algebra_simps min_def split: if_splits)
  qed blast
qed

lemma wait_loop_returns:
  "clock (k + d) \<ge> deadline \<Longrightarrow>
   \<exists>n r. wait_loop fv others clock deadline w i (Suc d) k s = Some (n, r) \<and> n \<le> k + d + 2"
proof (induction d arbitrary: k s)
  case 0
  then show ?case
    by (cases "take_request fv s w i")
      (auto simp: case_prod_unfold Let_def split: option.splits query_outcome.splits)
next
  case (Suc d)
  from Suc.prems have "clock (Suc k + d) \<ge> deadline" by simp
  note IH = Suc.IH [OF this]
  show ?case
  proof (cases "take_request fv s w i")
    case (Inr p)
    obtain x s1 where p: "p = (x, s1)" by fastforce
    show ?thesis
    proof (cases "x = Some OutcomePending \<and> \<not> deadline \<le> clock k")
      case True
      then show ?thesis using IH [of "others k s1"] Inr p by auto
    next
      case False
      then show ?thesis using Inr p
        by (auto simp: case_prod_unfold Let_def simp del: wait_loop.simps(2)
            simp: wait_loop.simps(2) [of _ _ _ _ _ _ "Suc d"] split: option.splits query_outcome.splits)
    qed
  qed simp
qed

lemma wait_loop_fuel:
  "wait_loop fv others clock deadline w i fuel k s = Some x \<Longrightarrow>
   wait_loop fv others clock deadline w i (fuel + m) k s = Some x"
proof (induction fuel arbitrary: k s)
  case (Suc fuel)
  then show ?case
    by (auto simp: case_prod_unfold Let_def split: sum.splits option.splits query_outcome.splits if_splits)
qed simp

text \<open>
  Property C24. The wait ends: when a sleep lasts at least as long as it was asked to and the interval is not
  zero, then whatever the other processes do the wait returns, after at most
  \<open>timeout_ms div poll_interval_ms + 3\<close> reads of the request.
\<close>

theorem query_wait_terminates:
  fixes timeout interval :: nat
  assumes "0 < interval"
    and "\<forall>k. clock k < start + int timeout \<longrightarrow>
      clock k + min (int interval) (start + int timeout - clock k) \<le> clock (Suc k)"
    and "start \<le> clock 0"
  shows "\<exists>n r. wait_loop fv others clock (start + int timeout) w i (timeout div interval + 2) 0 s = Some (n, r) \<and>
    n \<le> timeout div interval + 3"
proof -
  let ?deadline = "start + int timeout" and ?K = "timeout div interval + 1"
  have "timeout < interval * ?K"
    using assms(1) by (metis Suc_eq_plus1 div_less_iff_less_mult lessI mult.commute)
  then have "?deadline \<le> start + int ?K * int interval"
    by (metis add_left_mono less_imp_le_nat mult.commute of_nat_le_iff of_nat_mult)
  then have "clock ?K \<ge> ?deadline \<or> (\<exists>j < ?K. clock j \<ge> ?deadline)"
    using clock_reaches [of clock ?deadline "int interval" "int timeout" ?K] assms by force
  then obtain d where d: "clock (0 + d) \<ge> ?deadline" "d \<le> ?K"
    by (metis add_0 less_imp_le_nat order_refl)
  obtain n r where "wait_loop fv others clock ?deadline w i (Suc d) 0 s = Some (n, r)" "n \<le> 0 + d + 2"
    using wait_loop_returns [where clock = clock and k = 0 and d = d, OF d(1)] by blast
  moreover have "wait_loop fv others clock ?deadline w i (timeout div interval + 2) 0 s
      = wait_loop fv others clock ?deadline w i (Suc d) 0 s"
    using wait_loop_fuel [OF calculation(1), of "?K - d"] d(2) calculation(1) by simp
  ultimately show ?thesis using d(2) by (intro exI [of _ n] exI [of _ r]) simp
qed

section \<open>Evaluation\<close>

text \<open>
  The sample search: a request of the first workspace of \<^term>\<open>acme\<close>, a provider of one-dimensional vectors and
  integers for floating point numbers.
\<close>

definition acme_search :: search_db where
  "acme_search = \<lparr>sd_identity = acme, sd_dimensions = [], sd_requests = [],
     sd_queue = \<lparr>q_lifecycles = [], q_outbox = []\<rparr>\<rparr>"

definition ints_to_value :: "int list \<Rightarrow> json" where
  "ints_to_value v = JArr (map JInt v)"

definition ints_from_value :: "json \<Rightarrow> int list option" where
  "ints_from_value j = (case j of JArr js \<Rightarrow> Some (map (\<lambda>x. case x of JInt n \<Rightarrow> n | _ \<Rightarrow> 0) js) | _ \<Rightarrow> None)"

lemma ints_roundtrip: "ints_from_value (ints_to_value v) = Some v"
  by (simp add: ints_from_value_def ints_to_value_def o_def)

definition sample_settings :: query_embedding_settings where
  "sample_settings = \<lparr>qs_timeout_ms = 5, qs_poll_interval_ms = 2, qs_retention_seconds = 300\<rparr>"

text \<open>A worker completes the request during the first sleep; it is a step of the request table.\<close>

definition one_answer :: "nat \<Rightarrow> search_db \<Rightarrow> search_db" where
  "one_answer k s = (if k = 0 then (case complete ints_to_value 9 s 3 70 [7] ''m'' of Inr (_, s') \<Rightarrow> s' | Inl _ \<Rightarrow> s) else s)"

lemmas search_defs = acme_search_def sample_settings_def acme_defs

lemmas search_evals = search_defs embed_query_def scope_open_def open_request_def purge_expired_def delete_where_def
  for_job_def record_query_in_transaction_def insert_outbox_def take_request_def find_row_def finished_request_def
  complete_def waiting_def active_workspace_def count_where_def update_where_def outcome_def one_answer_def
  ints_to_value_def ints_from_value_def give_up_def expire_def Let_def

lemmas wait_loop_numeral = wait_loop.simps(2) [of _ _ _ _ _ _ "pred_numeral m" for m, folded numeral_eq_Suc]

theorem late_worker_fenced_witness:
  "complete ints_to_value 9 acme_search 3 70 [7] ''m'' = Inr (False, acme_search)"
proof -
  have "settled_query 70 acme_search" by (simp add: settled_query_def acme_search_def)
  from late_worker_fenced [OF this request_run.rest, of "[7]" ints_to_value 9 3 "''m''"] show ?thesis by simp
qed

theorem search_gets_own_vector_witness:
  "\<exists>n v s'. embed_query ints_from_value (\<lambda>_. ''u'') (\<lambda>_. None) Postgres sample_settings 70 71 one_answer (\<lambda>k. 2 * int k)
      0 9 acme_search 3 ''q'' = Some (n, Inr v, s') \<and> v \<in> {[7]}"
proof -
  obtain n v s' where found: "embed_query ints_from_value (\<lambda>_. ''u'') (\<lambda>_. None) Postgres sample_settings 70 71 one_answer
      (\<lambda>k. 2 * int k) 0 9 acme_search 3 ''q'' = Some (n, Inr v, s')"
    by (simp add: search_evals wait_loop_numeral)
  have step: "\<exists>evs. request_run ints_to_value s evs (one_answer k s) \<and> Opened 70 \<notin> set evs \<and>
      (\<forall>v. Completed 70 v \<in> set evs \<longrightarrow> v \<in> {[7]})" for k s
  proof (cases "k = 0")
    case True
    obtain b s1 where s1: "complete ints_to_value 9 s 3 70 [7] ''m'' = Inr (b, s1)"
      by (simp add: complete_def Let_def)
    show ?thesis
      using request_run.advance [OF request_step.completed [OF s1] request_run.rest] True s1
      by (intro exI [of _ "[Completed 70 [7]]"]) (simp add: one_answer_def)
  next
    case False
    then show ?thesis using request_run.rest by (intro exI [of _ "[]"]) (simp add: one_answer_def)
  qed
  have "v \<in> {[7]}"
    by (rule search_gets_own_vector [OF _ _ found]) (use step ints_roundtrip in auto)
  then show ?thesis using found by blast
qed

theorem query_wait_terminates_witness:
  "\<exists>n r. wait_loop ints_from_value (\<lambda>_ s. s) (\<lambda>k. min (2 * int k) 5) (0 + int 5) 3 70 (5 div 2 + 2) 0 acme_search = Some (n, r) \<and>
    n \<le> 5 div 2 + 3"
  by (rule query_wait_terminates) (auto simp: min_def)

text \<open>
  The comment on \<open>wait\<close> bounds the number of reads by \<open>timeout_ms / poll_interval_ms + 1\<close>.  With a timeout of 5
  and an interval of 2 an unanswered request is read five times, the four reads of the loop at 0, 2, 4 and 5
  milliseconds and the last one.
\<close>

theorem reads_beyond_documented_bound:
  "\<exists>s r s'. wait_loop ints_from_value (\<lambda>_ s. s) (\<lambda>k. min (2 * int k) 5) 5 3 70 9 0 s = Some (5, r, s') \<and> 5 div 2 + 1 < (5 :: nat)"
proof -
  define s where "s = acme_search\<lparr>sd_requests := [\<lparr>rq_id = 70, rq_workspace_id = 3, rq_query_text = ''q'', rq_status = QPending,
    rq_result_vector = None, rq_dimensions = None, rq_model = None, rq_error = None, rq_expires_at = 100,
    rq_deadline_at = Some 5, rq_completed_at = None\<rparr>]\<rparr>"
  have "\<exists>r s'. wait_loop ints_from_value (\<lambda>_ s. s) (\<lambda>k. min (2 * int k) 5) 5 3 70 9 0 s = Some (5, r, s')"
    by (simp add: s_def search_evals wait_loop_numeral)
  then show ?thesis by auto
qed

end
