(* ===== verification/Maintenance.thy ===== *)
theory Maintenance
  imports Yor_Error
begin

text \<open>
  \<open>src/models/system_maintenance.rs\<close>, \<open>src/controllers/middleware/maintenance.rs\<close>,
  \<open>src/dtos/system.rs\<close>, \<open>src/tasks/maintenance.rs\<close> and \<open>src/initializers/db_load_guard.rs\<close>: the
  deployment-wide maintenance state, the requests it refuses, and the guard that switches it under sustained
  database load.

  The table holds at most one row (its key is a boolean that must be true).  Several processes may run
  the guard: each reads the state, decides, and writes it back in a second statement, so reads and
  writes of different guards and of operators interleave.  Durations and instants are integers.
\<close>

section \<open>State\<close>

datatype maintenance_mode = Off | ReadOnly | FullLock

fun mode_as_db_str :: "maintenance_mode \<Rightarrow> string" where
  "mode_as_db_str Off = ''off''"
| "mode_as_db_str ReadOnly = ''read_only''"
| "mode_as_db_str FullLock = ''full_lock''"

definition mode_from_db_str :: "string \<Rightarrow> maintenance_mode option" where
  "mode_from_db_str s =
     (if s = ''off'' then Some Off
      else if s = ''read_only'' \<or> s = ''read-only'' then Some ReadOnly
      else if s = ''full_lock'' \<or> s = ''full-lock'' then Some FullLock
      else None)"

record maintenance_state =
  ms_mode :: maintenance_mode
  ms_retry_after :: nat
  ms_reason :: "string option"

record maintenance_row =
  mt_mode :: maintenance_mode
  mt_retry_after :: int
  mt_reason :: "string option"

definition DEFAULT_RETRY_AFTER_SECONDS :: nat where "DEFAULT_RETRY_AFTER_SECONDS = 300"
definition AUTO_REASON :: string where "AUTO_REASON = ''database load (automatic)''"

definition get_maintenance :: "maintenance_row option \<Rightarrow> maintenance_state" where
  "get_maintenance row =
     (case row of
        None \<Rightarrow> \<lparr>ms_mode = Off, ms_retry_after = DEFAULT_RETRY_AFTER_SECONDS, ms_reason = None\<rparr>
      | Some r \<Rightarrow> \<lparr>ms_mode = mt_mode r, ms_retry_after = nat (max (mt_retry_after r) 1), ms_reason = mt_reason r\<rparr>)"

text \<open>\<open>i32::try_from(n).unwrap_or(i32::MAX)\<close>.\<close>

definition clamp_i32 :: "nat \<Rightarrow> int" where
  "clamp_i32 n = min (int n) 2147483647"

text \<open>An update of a missing row is a database error.\<close>

definition set_maintenance ::
  "maintenance_row option \<Rightarrow> maintenance_mode \<Rightarrow> nat \<Rightarrow> string option \<Rightarrow> (maintenance_state \<times> maintenance_row option) result" where
  "set_maintenance row mode retry_after reason =
     (case row of
        None \<Rightarrow> Inl (Internal ''record not updated'')
      | Some _ \<Rightarrow>
          Inr (\<lparr>ms_mode = mode, ms_retry_after = max retry_after 1, ms_reason = reason\<rparr>,
               Some \<lparr>mt_mode = mode, mt_retry_after = clamp_i32 (max retry_after 1), mt_reason = reason\<rparr>))"

definition set_if_current ::
  "maintenance_row option \<Rightarrow> maintenance_state \<Rightarrow> maintenance_mode \<Rightarrow> nat \<Rightarrow> string option \<Rightarrow>
   bool \<times> maintenance_row option" where
  "set_if_current row expected mode retry_after reason =
     (case row of
        None \<Rightarrow> (False, None)
      | Some r \<Rightarrow>
          if mt_mode r = ms_mode expected \<and> mt_retry_after r = clamp_i32 (ms_retry_after expected) \<and>
             mt_reason r = ms_reason expected
          then (True, Some \<lparr>mt_mode = mode, mt_retry_after = clamp_i32 (max retry_after 1), mt_reason = reason\<rparr>)
          else (False, row))"

section \<open>Refusals\<close>

definition refusal :: "maintenance_state \<Rightarrow> bool \<Rightarrow> yorishiro_error option" where
  "refusal s is_write =
     (let (refuse, read_only) = (case ms_mode s of
           Off \<Rightarrow> (False, False) | ReadOnly \<Rightarrow> (is_write, True) | FullLock \<Rightarrow> (True, False))
      in if \<not> refuse then None
         else Some (Maintenance
           (case ms_reason s of
              Some r \<Rightarrow> r
            | None \<Rightarrow> if read_only then ''the deployment is read-only for maintenance; writes are disabled''
                      else ''the deployment is unavailable for maintenance'')
           read_only (ms_retry_after s)))"

definition always_served :: "string \<Rightarrow> bool" where
  "always_served path \<longleftrightarrow> path \<in> set [''/_ping'', ''/_health'', ''/_readiness'', ''/api/system/maintenance'']"

definition is_write :: "string \<Rightarrow> bool" where
  "is_write http_method \<longleftrightarrow> http_method \<notin> set [''GET'', ''HEAD'', ''OPTIONS'']"

text \<open>\<open>None\<close> passes the request on; a refusal carries its \<open>Retry-After\<close>.\<close>

definition maintenance_guard :: "maintenance_row option \<Rightarrow> string \<Rightarrow> string \<Rightarrow> (yorishiro_error \<times> nat) option" where
  "maintenance_guard row path http_method =
     (if always_served path then None
      else let current = get_maintenance row in
        map_option (\<lambda>e. (e, ms_retry_after current)) (refusal current (is_write http_method)))"

section \<open>The switches\<close>

text \<open>The body of \<open>SetMaintenanceRequest\<close>, with the mode as it was spelled.\<close>

record set_maintenance_request =
  sm_mode :: string
  sm_retry_after :: "nat option"
  sm_reason :: "string option"

record maintenance_response =
  mp_mode :: string
  mp_retry_after :: nat
  mp_reason :: "string option"

definition maintenance_response_of :: "maintenance_state \<Rightarrow> maintenance_response" where
  "maintenance_response_of s =
     \<lparr>mp_mode = mode_as_db_str (ms_mode s), mp_retry_after = ms_retry_after s, mp_reason = ms_reason s\<rparr>"

definition put_maintenance ::
  "maintenance_row option \<Rightarrow> set_maintenance_request \<Rightarrow> (maintenance_response \<times> maintenance_row option) result" where
  "put_maintenance row body =
     rbind (ok_or (mode_from_db_str (sm_mode body)) (ValidationFailed ''{body_text}'' [])) (\<lambda>mode.
     rbind (set_maintenance row mode
              (case sm_retry_after body of None \<Rightarrow> DEFAULT_RETRY_AFTER_SECONDS | Some n \<Rightarrow> n) (sm_reason body))
       (\<lambda>(updated, row'). Inr (maintenance_response_of updated, row')))"

text \<open>The command line: \<open>retry_after\<close> is given as text; \<open>parse_u32\<close> is Rust's integer parser.\<close>

definition maintenance_task ::
  "(string \<Rightarrow> nat option) \<Rightarrow> maintenance_row option \<Rightarrow> string \<Rightarrow> string option \<Rightarrow> string option \<Rightarrow>
   (maintenance_state \<times> maintenance_row option) result" where
  "maintenance_task parse_u32 row mode_str retry_after reason =
     rbind (ok_or (mode_from_db_str mode_str) (ValidationFailed ''{mode_str} is not a maintenance mode'' [])) (\<lambda>mode.
     rbind (case retry_after of
              None \<Rightarrow> Inr DEFAULT_RETRY_AFTER_SECONDS
            | Some raw \<Rightarrow> ok_or (parse_u32 raw) (ValidationFailed ''retry_after is not a number'' [])) (\<lambda>secs.
     set_maintenance row mode secs reason))"

section \<open>The load guard\<close>

record load_guard_config =
  lg_threshold :: int
  lg_sustain :: int
  lg_poll :: int

definition load_guard_from_settings :: "int \<Rightarrow> nat \<Rightarrow> nat \<Rightarrow> load_guard_config option" where
  "load_guard_from_settings threshold sustain_seconds poll_seconds =
     (if threshold \<le> 0 then None
      else Some \<lparr>lg_threshold = threshold, lg_sustain = int sustain_seconds, lg_poll = int poll_seconds\<rparr>)"

definition decide :: "maintenance_state \<Rightarrow> int \<Rightarrow> int \<Rightarrow> int \<Rightarrow> maintenance_mode option" where
  "decide current busy_for quiet_for sustain =
     (case ms_mode current of
        Off \<Rightarrow> if busy_for \<ge> sustain then Some ReadOnly else None
      | ReadOnly \<Rightarrow> if ms_reason current = Some AUTO_REASON \<and> quiet_for \<ge> sustain then Some Off else None
      | FullLock \<Rightarrow> None)"

record load_history =
  lh_busy_since :: "int option"
  lh_quiet_since :: "int option"

definition fresh_history :: load_history where
  "fresh_history = \<lparr>lh_busy_since = None, lh_quiet_since = None\<rparr>"

definition observe :: "load_history \<Rightarrow> bool \<Rightarrow> int \<Rightarrow> (int \<times> int) \<times> load_history" where
  "observe h busy now =
     (let h' = (if busy
                then \<lparr>lh_busy_since = (case lh_busy_since h of None \<Rightarrow> Some now | Some t \<Rightarrow> Some t), lh_quiet_since = None\<rparr>
                else \<lparr>lh_busy_since = None, lh_quiet_since = (case lh_quiet_since h of None \<Rightarrow> Some now | Some t \<Rightarrow> Some t)\<rparr>);
          since = (\<lambda>s. case s of None \<Rightarrow> 0 | Some t \<Rightarrow> now - t)
      in ((since (lh_busy_since h'), since (lh_quiet_since h')), h'))"

datatype step_outcome = Continue | Transition maintenance_state maintenance_mode

definition run_step ::
  "load_history \<Rightarrow> int option \<Rightarrow> maintenance_state option \<Rightarrow> int \<Rightarrow> int \<Rightarrow> int \<Rightarrow> step_outcome \<times> load_history" where
  "run_step h active current threshold sustain now =
     (case active of
        None \<Rightarrow> (Continue, fresh_history)
      | Some n \<Rightarrow>
          (let ((busy_for, quiet_for), h') = observe h (n \<ge> threshold) now in
           case current of
             None \<Rightarrow> (Continue, fresh_history)
           | Some c \<Rightarrow>
               (case decide c busy_for quiet_for sustain of
                  None \<Rightarrow> (Continue, h')
                | Some mode \<Rightarrow> (Transition c mode, h'))))"

text \<open>
  What the loop of \<open>run\<close> does with an outcome, on the row as it is then: a transition that finds the state
  it decided on is applied and clears the history.
\<close>

definition apply_outcome ::
  "step_outcome \<Rightarrow> load_history \<Rightarrow> maintenance_row option \<Rightarrow> load_history \<times> maintenance_row option" where
  "apply_outcome outcome h row =
     (case outcome of
        Continue \<Rightarrow> (h, row)
      | Transition current mode \<Rightarrow>
          (case set_if_current row current mode (ms_retry_after current)
                  (if mode = ReadOnly then Some AUTO_REASON else None) of
             (True, row') \<Rightarrow> (fresh_history, row')
           | (False, row') \<Rightarrow> (h, row')))"

section \<open>The guard and the operators\<close>

text \<open>
  Deployments: the row, and for every process its history and, between its read and its write, the outcome
  it is about to apply.  \<open>Sampled\<close> is a read with its decision, \<open>Written\<close> the second statement, and
  \<open>Operated\<close> a change by the endpoint or the command line.
\<close>

record guarded_deployment =
  dp_row :: "maintenance_row option"
  dp_history :: "nat \<Rightarrow> load_history"
  dp_pending :: "nat \<Rightarrow> step_outcome option"

datatype guard_event = Sampled nat | Written nat | Operated

inductive guard_step :: "load_guard_config \<Rightarrow> guarded_deployment \<Rightarrow> guard_event \<Rightarrow> guarded_deployment \<Rightarrow> bool" for config where
  sampled: "dp_pending s g = None \<Longrightarrow> current = None \<or> current = Some (get_maintenance (dp_row s)) \<Longrightarrow>
    run_step (dp_history s g) active current (lg_threshold config) (lg_sustain config) now = (outcome, h) \<Longrightarrow>
    guard_step config s (Sampled g)
      (s\<lparr>dp_history := (dp_history s)(g := h), dp_pending := (dp_pending s)(g := Some outcome)\<rparr>)"
| written: "dp_pending s g = Some outcome \<Longrightarrow> apply_outcome outcome (dp_history s g) (dp_row s) = (h, row) \<Longrightarrow>
    guard_step config s (Written g)
      (s\<lparr>dp_row := row, dp_history := (dp_history s)(g := h), dp_pending := (dp_pending s)(g := None)\<rparr>)"
| endpoint: "put_maintenance (dp_row s) body = Inr (r, row) \<Longrightarrow> guard_step config s Operated (s\<lparr>dp_row := row\<rparr>)"
| command: "maintenance_task parse_u32 (dp_row s) mode secs reason = Inr (r, row) \<Longrightarrow>
    guard_step config s Operated (s\<lparr>dp_row := row\<rparr>)"

inductive guard_run :: "load_guard_config \<Rightarrow> guarded_deployment \<Rightarrow> guard_event list \<Rightarrow> guarded_deployment \<Rightarrow> bool" for config where
  stop: "guard_run config s [] s"
| step: "guard_step config s ev s' \<Longrightarrow> guard_run config s' evs s'' \<Longrightarrow> guard_run config s (ev # evs) s''"

inductive_cases guard_run_ConsE: "guard_run config s (ev # evs) s'"
inductive_cases guard_run_NilE: "guard_run config s [] s'"

text \<open>The transitions the guard may decide on.\<close>

definition guard_may :: "maintenance_state \<Rightarrow> maintenance_mode \<Rightarrow> bool" where
  "guard_may c mode \<longleftrightarrow> ms_mode c = Off \<and> mode = ReadOnly \<or>
     ms_mode c = ReadOnly \<and> ms_reason c = Some AUTO_REASON \<and> mode = Off"

definition decided :: "guarded_deployment \<Rightarrow> bool" where
  "decided s \<longleftrightarrow> (\<forall>g c mode. dp_pending s g = Some (Transition c mode) \<longrightarrow> guard_may c mode)"

lemma run_step_may: "run_step h active current threshold sustain now = (Transition c mode, h') \<Longrightarrow> guard_may c mode"
  by (auto simp: run_step_def decide_def guard_may_def split: option.splits prod.splits maintenance_mode.splits if_splits)

lemma step_decided: "guard_step config s ev s' \<Longrightarrow> decided s \<Longrightarrow> decided s'"
  by (induction rule: guard_step.induct) (auto simp: decided_def dest: run_step_may)

lemma run_decided: "guard_run config s evs s' \<Longrightarrow> decided s \<Longrightarrow> decided s'"
  by (induction rule: guard_run.induct) (auto dest: step_decided)

text \<open>A state the guard does not own: a lock, or a read-only mode with a reason of somebody else.\<close>

definition operator_owned :: "maintenance_row \<Rightarrow> bool" where
  "operator_owned r \<longleftrightarrow> mt_mode r = FullLock \<or> mt_mode r = ReadOnly \<and> mt_reason r \<noteq> Some AUTO_REASON"

lemma apply_keeps:
  assumes "apply_outcome outcome h (Some r) = (h', row)" "operator_owned r"
    and "\<And>c mode. outcome = Transition c mode \<Longrightarrow> guard_may c mode"
  shows "row = Some r"
  using assms by (cases outcome) (auto simp: apply_outcome_def set_if_current_def operator_owned_def guard_may_def split: if_splits)

text \<open>
  Property C29. The load guard never undoes an operator: while the deployment is locked, or read-only for a
  reason other than the guard's own, no interleaving of the guards of any number of processes, however
  old the states they read, changes the maintenance state; only an operator does.
\<close>

theorem guard_respects_operator:
  assumes "guard_run config s before s1" and "\<forall>g. dp_pending s g = None"
    and "dp_row s1 = Some r" "operator_owned r"
    and "guard_run config s1 evs s2" "Operated \<notin> set evs"
  shows "dp_row s2 = Some r"
proof -
  have dec: "decided s1" by (rule run_decided [OF assms(1)]) (use assms(2) in \<open>simp add: decided_def\<close>)
  show ?thesis
    using assms(5,3,6) dec
  proof (induction rule: guard_run.induct)
    case (step s ev s' evs s'')
    have "dp_row s' = Some r"
      using step.hyps(1) step.prems
    proof (induction rule: guard_step.induct)
      case (written s g outcome h row)
      have "row = Some r"
        by (rule apply_keeps [of outcome "dp_history s g" r h row]) (use written assms(4) in \<open>auto simp: decided_def\<close>)
      then show ?case by simp
    qed auto
    then show ?case using step step_decided by simp
  qed simp
qed

section \<open>Only sustained load\<close>

text \<open>A sample: its instant, the connections counted (if that succeeded) and the state read (likewise).\<close>

type_synonym sample = "int \<times> int option \<times> maintenance_state option"

text \<open>The loop of \<open>run\<close>: each round samples and then finds some row to apply the outcome to.\<close>

primrec watch :: "load_guard_config \<Rightarrow> load_history \<Rightarrow> (sample \<times> maintenance_row option) list \<Rightarrow> load_history" where
  "watch config h [] = h"
| "watch config h (x # xs) =
     (case x of ((now, active, current), row) \<Rightarrow>
        (case run_step h active current (lg_threshold config) (lg_sustain config) now of
           (outcome, h') \<Rightarrow> watch config (fst (apply_outcome outcome h' row)) xs))"

definition all_samples :: "load_guard_config \<Rightarrow> bool \<Rightarrow> sample list \<Rightarrow> bool" where
  "all_samples config busy xs \<longleftrightarrow> (\<forall>(now, active, current) \<in> set xs. \<exists>n. active = Some n \<and> (lg_threshold config \<le> n) = busy)"

text \<open>The load has been as the history says since the instant it says.\<close>

definition since_ok :: "load_guard_config \<Rightarrow> bool \<Rightarrow> int option \<Rightarrow> sample list \<Rightarrow> bool" where
  "since_ok config busy since xs \<longleftrightarrow>
     (\<forall>t. since = Some t \<longrightarrow> (\<exists>ys x zs. xs = ys @ x # zs \<and> fst x = t \<and> all_samples config busy (x # zs)))"

definition history_ok :: "load_guard_config \<Rightarrow> load_history \<Rightarrow> sample list \<Rightarrow> bool" where
  "history_ok config h xs \<longleftrightarrow> since_ok config True (lh_busy_since h) xs \<and> since_ok config False (lh_quiet_since h) xs"

lemma since_None [simp]: "since_ok config busy None xs"
  by (simp add: since_ok_def)

lemma since_snoc:
  assumes "since_ok config busy since xs" and "all_samples config busy [x]"
  shows "since_ok config busy (case since of None \<Rightarrow> Some (fst x) | Some t \<Rightarrow> Some t) (xs @ [x])"
proof (cases since)
  case None
  have "xs @ [x] = xs @ x # []" by simp
  then show ?thesis using None assms(2) unfolding since_ok_def by (metis option.case(1) option.inject)
next
  case (Some t)
  then obtain ys y zs where "xs = ys @ y # zs" "fst y = t" "all_samples config busy (y # zs)"
    using assms(1) by (auto simp: since_ok_def)
  then have "xs @ [x] = ys @ y # (zs @ [x])" "all_samples config busy (y # (zs @ [x]))"
    using assms(2) by (auto simp: all_samples_def)
  then show ?thesis using Some \<open>fst y = t\<close> unfolding since_ok_def by (metis option.case(2) option.inject)
qed

lemma observe_ok:
  assumes "history_ok config h xs" "observe h (lg_threshold config \<le> n) now = (durations, h')"
  shows "history_ok config h' (xs @ [(now, Some n, current)])"
proof -
  let ?x = "(now, Some n, current)"
  have "all_samples config (lg_threshold config \<le> n) [?x]" by (simp add: all_samples_def)
  then have snoc: "since_ok config (lg_threshold config \<le> n) since xs \<Longrightarrow>
      since_ok config (lg_threshold config \<le> n) (case since of None \<Rightarrow> Some now | Some t \<Rightarrow> Some t) (xs @ [?x])" for since
    using since_snoc [of config "lg_threshold config \<le> n" since xs ?x] by (cases since) simp_all
  show ?thesis
  proof (cases "lg_threshold config \<le> n")
    case True
    then show ?thesis using assms snoc [of "lh_busy_since h"] by (auto simp: history_ok_def observe_def Let_def)
  next
    case False
    then show ?thesis using assms snoc [of "lh_quiet_since h"] by (auto simp: history_ok_def observe_def Let_def)
  qed
qed

lemma run_step_ok:
  assumes "history_ok config h xs"
  shows "history_ok config (snd (run_step h active current (lg_threshold config) (lg_sustain config) now)) (xs @ [(now, active, current)])"
proof (cases active)
  case None
  then show ?thesis by (simp add: run_step_def fresh_history_def history_ok_def)
next
  case (Some n)
  obtain b q h' where ob: "observe h (lg_threshold config \<le> n) now = ((b, q), h')" by (metis prod.exhaust)
  have "history_ok config h' (xs @ [(now, active, current)])" using observe_ok [OF assms ob] Some by simp
  then show ?thesis
    using ob Some by (auto simp: run_step_def fresh_history_def history_ok_def split: option.splits)
qed

lemma fresh_ok [simp]: "history_ok config fresh_history xs"
  by (simp add: history_ok_def fresh_history_def)

lemma applied_ok: "history_ok config h xs \<Longrightarrow> history_ok config (fst (apply_outcome outcome h row)) xs"
  by (auto simp: apply_outcome_def split: step_outcome.splits prod.splits bool.splits)

lemma watch_ok: "history_ok config h xs \<Longrightarrow> history_ok config (watch config h ys) (xs @ map fst ys)"
proof (induction ys arbitrary: h xs)
  case (Cons y ys)
  obtain now active current row where y: "y = ((now, active, current), row)" by (metis prod.exhaust)
  obtain outcome h' where st: "run_step h active current (lg_threshold config) (lg_sustain config) now = (outcome, h')"
    by (rule prod.exhaust)
  have "history_ok config h' (xs @ [(now, active, current)])"
    using run_step_ok [OF Cons.prems, of active current now] by (simp add: st)
  then show ?case using Cons.IH [OF applied_ok, of h' "xs @ [(now, active, current)]" outcome row] by (simp add: y st)
qed simp

text \<open>
  The guard acts on sustained load only: when it decides to go read-only, its most recent samples, over at
  least the sustain time, all succeeded and all reached the threshold; when it decides to lift its own
  read-only mode, they all stayed below.
\<close>

theorem guard_needs_sustained_load:
  assumes "0 < lg_sustain config"
    and "run_step (watch config fresh_history xs) active current (lg_threshold config) (lg_sustain config) now = (Transition c mode, h)"
  shows "\<exists>ys x zs. map fst xs @ [(now, active, current)] = ys @ x # zs \<and> now - fst x \<ge> lg_sustain config \<and>
    all_samples config (mode = ReadOnly) (x # zs)"
proof -
  let ?h = "watch config fresh_history xs"
  obtain n where n: "active = Some n" using assms(2) by (cases active) (simp_all add: run_step_def)
  obtain b q h' where ob: "observe ?h (lg_threshold config \<le> n) now = ((b, q), h')" by (metis prod.exhaust)
  have dec: "decide c b q (lg_sustain config) = Some mode"
    using assms(2) n ob by (auto simp: run_step_def split: option.splits)
  have "history_ok config ?h (map fst xs)" using watch_ok [of config fresh_history "[]" xs] by simp
  from observe_ok [OF this ob] have ok: "history_ok config h' (map fst xs @ [(now, active, current)])"
    by (simp add: n)
  have since: "since_ok config (mode = ReadOnly) (if mode = ReadOnly then lh_busy_since h' else lh_quiet_since h') (map fst xs @ [(now, active, current)])"
    using ok by (simp add: history_ok_def)
  have "(if mode = ReadOnly then b else q) \<ge> lg_sustain config"
    using dec by (auto simp: decide_def split: maintenance_mode.splits if_splits)
  then obtain t where "(if mode = ReadOnly then lh_busy_since h' else lh_quiet_since h') = Some t" "now - t \<ge> lg_sustain config"
    using ob assms(1) by (auto simp: observe_def Let_def split: if_splits option.splits)
  then show ?thesis using since unfolding since_ok_def by metis
qed

section \<open>Sample deployments\<close>

definition sample_guard :: load_guard_config where
  "sample_guard = \<lparr>lg_threshold = 80, lg_sustain = 30, lg_poll = 5\<rparr>"

definition quiet_row :: maintenance_row where
  "quiet_row = \<lparr>mt_mode = Off, mt_retry_after = 300, mt_reason = None\<rparr>"

definition locked_row :: maintenance_row where
  "locked_row = \<lparr>mt_mode = FullLock, mt_retry_after = 60, mt_reason = Some ''upgrade''\<rparr>"

text \<open>A guard that has seen load for a minute and decides once more.\<close>

definition loaded :: "maintenance_row option \<Rightarrow> guarded_deployment" where
  "loaded row = \<lparr>dp_row = row, dp_history = (\<lambda>_. \<lparr>lh_busy_since = Some 0, lh_quiet_since = None\<rparr>), dp_pending = (\<lambda>_. None)\<rparr>"

definition deciding :: "maintenance_row option \<Rightarrow> guarded_deployment" where
  "deciding row = (loaded row)\<lparr>dp_pending := (\<lambda>_. None)(2 := Some (Transition (get_maintenance (Some quiet_row)) ReadOnly))\<rparr>"

lemma const_upd: "(\<lambda>_. c)(k := c) = (\<lambda>_. c)"
  by auto

lemma sample_decision: "guard_step sample_guard (loaded (Some quiet_row)) (Sampled 2) (deciding (Some quiet_row))"
proof -
  have "run_step (dp_history (loaded (Some quiet_row)) 2) (Some 90) (Some (get_maintenance (Some quiet_row)))
      (lg_threshold sample_guard) (lg_sustain sample_guard) 60 =
    (Transition (get_maintenance (Some quiet_row)) ReadOnly, \<lparr>lh_busy_since = Some 0, lh_quiet_since = None\<rparr>)"
    by (simp add: run_step_def observe_def decide_def loaded_def sample_guard_def get_maintenance_def quiet_row_def)
  from guard_step.sampled [where s = "loaded (Some quiet_row)" and config = sample_guard, OF _ _ this]
  show ?thesis by (simp add: loaded_def deciding_def const_upd)
qed

lemma sample_lock: "guard_step sample_guard (deciding (Some quiet_row)) Operated (deciding (Some locked_row))"
proof -
  have "put_maintenance (dp_row (deciding (Some quiet_row))) \<lparr>sm_mode = ''full-lock'', sm_retry_after = Some 60, sm_reason = Some ''upgrade''\<rparr> =
    Inr (\<lparr>mp_mode = ''full_lock'', mp_retry_after = 60, mp_reason = Some ''upgrade''\<rparr>, Some locked_row)"
    by (simp add: put_maintenance_def deciding_def loaded_def mode_from_db_str_def set_maintenance_def
        maintenance_response_of_def locked_row_def clamp_i32_def)
  from guard_step.endpoint [OF this, of sample_guard] show ?thesis by (simp add: loaded_def deciding_def)
qed

lemma sample_late_write: "guard_step sample_guard (deciding (Some locked_row)) (Written 2) (loaded (Some locked_row))"
proof -
  have "apply_outcome (Transition (get_maintenance (Some quiet_row)) ReadOnly) (dp_history (deciding (Some locked_row)) 2)
      (dp_row (deciding (Some locked_row))) = (\<lparr>lh_busy_since = Some 0, lh_quiet_since = None\<rparr>, Some locked_row)"
    by (simp add: apply_outcome_def set_if_current_def get_maintenance_def deciding_def loaded_def locked_row_def quiet_row_def)
  from guard_step.written [where s = "deciding (Some locked_row)" and config = sample_guard, OF _ this]
  show ?thesis by (simp add: loaded_def deciding_def const_upd)
qed

theorem guard_respects_operator_witness:
  "guard_run sample_guard (deciding (Some locked_row)) [Written 2] (loaded (Some locked_row)) \<and>
   dp_row (loaded (Some locked_row)) = Some locked_row"
proof -
  have before: "guard_run sample_guard (loaded (Some quiet_row)) [Sampled 2, Operated] (deciding (Some locked_row))"
    by (rule guard_run.step [OF sample_decision guard_run.step [OF sample_lock guard_run.stop]])
  have late: "guard_run sample_guard (deciding (Some locked_row)) [Written 2] (loaded (Some locked_row))"
    by (rule guard_run.step [OF sample_late_write guard_run.stop])
  show ?thesis
    using guard_respects_operator [OF before _ _ _ late, of locked_row] late
    by (simp add: loaded_def deciding_def operator_owned_def locked_row_def)
qed

definition busy_minute :: "(sample \<times> maintenance_row option) list" where
  "busy_minute = [((0, Some 90, Some (get_maintenance (Some quiet_row))), Some quiet_row),
                  ((20, Some 85, Some (get_maintenance (Some quiet_row))), Some quiet_row)]"

theorem guard_needs_sustained_load_witness:
  "\<exists>ys x zs. map fst busy_minute @ [(40, Some 95, Some (get_maintenance (Some quiet_row)))] = ys @ x # zs \<and>
     40 - fst x \<ge> lg_sustain sample_guard \<and> all_samples sample_guard (ReadOnly = ReadOnly) (x # zs)"
proof -
  have "run_step (watch sample_guard fresh_history busy_minute) (Some 95) (Some (get_maintenance (Some quiet_row)))
      (lg_threshold sample_guard) (lg_sustain sample_guard) 40 =
    (Transition (get_maintenance (Some quiet_row)) ReadOnly, \<lparr>lh_busy_since = Some 0, lh_quiet_since = None\<rparr>)"
    by (simp add: busy_minute_def run_step_def observe_def decide_def apply_outcome_def sample_guard_def fresh_history_def
        get_maintenance_def quiet_row_def Let_def)
  from guard_needs_sustained_load [OF _ this] show ?thesis by (simp add: sample_guard_def)
qed

end
