(* ===== verification/Inference_Proposals.thy ===== *)
theory Inference_Proposals
  imports Entity_Store
begin

text \<open>
  \<open>ee/models/inference_jobs.rs\<close>, \<open>ee/models/inference_proposals.rs\<close> and the two functions of
  \<open>ee/models/entity_entities.rs\<close> and \<open>ee/models/entity_entities/infer_fill.rs\<close> they use: the durable
  state of infer-fill jobs, the values they propose, and confirming, rejecting or discarding them.

  The proposals are a table of \<^typ>\<open>db\<close>; the jobs are a list of rows of their own.  A status column is
  its enumeration (a CHECK constraint admits nothing else), so \<open>try_from\<close> never fails.  Generated ids,
  embedding-sync tokens and the clock are arguments.
\<close>

section \<open>Jobs\<close>

datatype inference_job_status = JobQueued | JobRunning | JobCompleted | JobFailed

record inference_job_row =
  ij_id :: uuid
  ij_workspace_id :: uuid
  ij_schema_name :: string
  ij_status :: inference_job_status
  ij_applied :: int
  ij_proposed :: int
  ij_skipped :: int
  ij_error :: "string option"
  ij_attempt :: int
  ij_created_at :: instant
  ij_updated_at :: instant

type_synonym inference_jobs = "inference_job_row list"

text \<open>The unique keys: the id, and the workspace among the running jobs.\<close>

definition running_jobs :: "inference_jobs \<Rightarrow> inference_jobs" where
  "running_jobs t = select_where (\<lambda>j. ij_status j = JobRunning) t"

definition jobs_ok :: "inference_jobs \<Rightarrow> bool" where
  "jobs_ok t \<longleftrightarrow> distinct (map ij_id t) \<and> distinct (map ij_workspace_id (running_jobs t))"

definition create_job :: "instant \<Rightarrow> db \<Rightarrow> inference_jobs \<Rightarrow> uuid \<Rightarrow> uuid \<Rightarrow> string \<Rightarrow> inference_jobs result" where
  "create_job now d t i workspace_id schema_name =
     (if i \<in> ij_id ` set t \<or> workspace_id \<notin> wk_id ` set (db_workspaces d)
      then Inl (Internal ''constraint'')
      else Inr (t @ [\<lparr>ij_id = i, ij_workspace_id = workspace_id, ij_schema_name = schema_name,
             ij_status = JobQueued, ij_applied = 0, ij_proposed = 0, ij_skipped = 0, ij_error = None,
             ij_attempt = 0, ij_created_at = now, ij_updated_at = now\<rparr>]))"

definition get_job :: "inference_jobs \<Rightarrow> uuid \<Rightarrow> inference_job_row option" where
  "get_job t i = find_row (\<lambda>j. ij_id j = i) t"

definition WORKSPACE_BUSY :: string where
  "WORKSPACE_BUSY = ''the workspace already has a running infer-fill job''"

fun is_workspace_busy :: "yorishiro_error \<Rightarrow> bool" where
  "is_workspace_busy (Conflict message) = (message = WORKSPACE_BUSY)"
| "is_workspace_busy _ = False"

text \<open>
  An \<open>UPDATE\<close> of the jobs with its \<open>rows_affected\<close>: the partial unique index refuses a second running
  job of a workspace (\<open>busy_or_internal\<close>).
\<close>

definition update_jobs ::
  "(inference_job_row \<Rightarrow> bool) \<Rightarrow> (inference_job_row \<Rightarrow> inference_job_row) \<Rightarrow> inference_jobs \<Rightarrow>
   (nat \<times> inference_jobs) result" where
  "update_jobs p f t =
     (let t' = update_where p f t in
      if distinct (map ij_workspace_id (running_jobs t')) then Inr (count_where p t, t')
      else Inl (Conflict WORKSPACE_BUSY))"

text \<open>The attempt is a 32-bit column: incrementing the greatest one is a database error.\<close>

definition claim_attempt ::
  "instant \<Rightarrow> inference_jobs \<Rightarrow> uuid \<Rightarrow> int option \<Rightarrow> (bool \<times> inference_jobs) result" where
  "claim_attempt now t i expected_attempt =
     (let sel = (\<lambda>j. ij_id j = i \<and> ij_status j = JobQueued \<and>
            (case expected_attempt of None \<Rightarrow> True | Some a \<Rightarrow> ij_attempt j = a))
      in if \<exists>j \<in> set t. sel j \<and> ij_attempt j \<ge> 2147483647 then Inl (Internal ''integer out of range'')
         else rbind (update_jobs sel
             (\<lambda>j. j\<lparr>ij_status := JobRunning, ij_attempt := ij_attempt j + 1, ij_updated_at := now\<rparr>) t) (\<lambda>(n, t').
           Inr (n = 1, t')))"

definition claim_job :: "instant \<Rightarrow> inference_jobs \<Rightarrow> uuid \<Rightarrow> (bool \<times> inference_jobs) result" where
  "claim_job now t i = claim_attempt now t i None"

definition reconcile_attempt ::
  "instant \<Rightarrow> inference_jobs \<Rightarrow> uuid \<Rightarrow> int \<Rightarrow> (bool \<times> inference_jobs) result" where
  "reconcile_attempt now t i target_attempt =
     rbind (ok_or (get_job t i) (NotFound ''infer-fill job not found'')) (\<lambda>row.
     if ij_status row = JobRunning \<and> ij_attempt row = target_attempt then Inr (False, t)
     else if ij_status row = JobFailed \<and> ij_attempt row = target_attempt
     then rbind (update_jobs
            (\<lambda>j. ij_id j = i \<and> ij_status j = JobFailed \<and> ij_attempt j = target_attempt)
            (\<lambda>j. j\<lparr>ij_status := JobRunning, ij_error := None, ij_updated_at := now\<rparr>) t) (\<lambda>(n, t').
          Inr (n = 1, t'))
     else if ij_attempt row \<noteq> target_attempt - 1 \<or> ij_status row = JobCompleted then Inr (False, t)
     else rbind (update_jobs
            (\<lambda>j. ij_id j = i \<and> ij_attempt j = target_attempt - 1 \<and>
                 ij_status j \<in> {JobQueued, JobRunning, JobFailed})
            (\<lambda>j. j\<lparr>ij_status := JobRunning, ij_attempt := target_attempt, ij_updated_at := now\<rparr>) t) (\<lambda>(n, t').
          Inr (n = 1, t')))"

text \<open>The rows the owner of an attempt may settle.\<close>

definition owned_attempt :: "uuid \<Rightarrow> int \<Rightarrow> inference_job_row \<Rightarrow> bool" where
  "owned_attempt i attempt j \<longleftrightarrow> ij_id j = i \<and> ij_status j = JobRunning \<and> ij_attempt j = attempt"

definition settle_job ::
  "uuid \<Rightarrow> int \<Rightarrow> (inference_job_row \<Rightarrow> inference_job_row) \<Rightarrow> inference_jobs \<Rightarrow> bool \<times> inference_jobs" where
  "settle_job i attempt f t =
     (count_where (owned_attempt i attempt) t = 1, update_where (owned_attempt i attempt) f t)"

definition complete_proposals_attempt ::
  "instant \<Rightarrow> inference_jobs \<Rightarrow> uuid \<Rightarrow> int \<Rightarrow> int \<Rightarrow> int \<Rightarrow> bool \<times> inference_jobs" where
  "complete_proposals_attempt now t i attempt proposed skipped =
     settle_job i attempt (\<lambda>j. j\<lparr>ij_status := JobCompleted, ij_applied := 0, ij_proposed := proposed,
       ij_skipped := skipped, ij_updated_at := now\<rparr>) t"

definition fail_attempt :: "instant \<Rightarrow> inference_jobs \<Rightarrow> uuid \<Rightarrow> int \<Rightarrow> string \<Rightarrow> bool \<times> inference_jobs" where
  "fail_attempt now t i attempt message =
     settle_job i attempt (\<lambda>j. j\<lparr>ij_status := JobFailed, ij_error := Some message, ij_updated_at := now\<rparr>) t"

definition retry_job :: "instant \<Rightarrow> inference_jobs \<Rightarrow> uuid \<Rightarrow> string \<Rightarrow> int \<Rightarrow> bool \<times> inference_jobs" where
  "retry_job now t i message attempt =
     settle_job i attempt (\<lambda>j. j\<lparr>ij_status := JobQueued, ij_error := Some message, ij_updated_at := now\<rparr>) t"

section \<open>Recording proposals\<close>

text \<open>
  One insert of the loop.  A unique violation is skipped by the code; on PostgreSQL it leaves the
  transaction aborted, and every later statement of an aborted transaction fails.
\<close>

definition delivery_key :: "proposal_row \<Rightarrow> uuid \<times> uuid \<times> uuid \<times> uuid \<times> int \<times> string" where
  "delivery_key p = (pr_workspace_id p, pr_job_id p, pr_entity_id p, pr_schema_id p, pr_schema_version p,
     pr_source_field p)"

record proposal_txn =
  pt_store :: db
  pt_aborted :: bool

definition insert_proposal :: "backend \<Rightarrow> proposal_row \<Rightarrow> proposal_txn \<times> int \<Rightarrow> (proposal_txn \<times> int) result" where
  "insert_proposal b row s =
     (case s of (x, inserted) \<Rightarrow>
        if pt_aborted x then Inl (Internal ''current transaction is aborted'')
        else if pr_id row \<in> pr_id ` set (db_proposals (pt_store x))
              \<or> delivery_key row \<in> delivery_key ` set (db_proposals (pt_store x))
        then Inr (x\<lparr>pt_aborted := (b = Postgres)\<rparr>, inserted)
        else Inr (x\<lparr>pt_store := (pt_store x)\<lparr>db_proposals := db_proposals (pt_store x) @ [row]\<rparr>\<rparr>, inserted + 1))"

primrec insert_proposals ::
  "backend \<Rightarrow> proposal_row list \<Rightarrow> proposal_txn \<times> int \<Rightarrow> (proposal_txn \<times> int) result" where
  "insert_proposals b [] s = Inr s"
| "insert_proposals b (r # rs) s = rbind (insert_proposal b r s) (insert_proposals b rs)"

definition proposal_of ::
  "(uuid \<Rightarrow> string \<Rightarrow> uuid) \<Rightarrow> instant \<Rightarrow> uuid \<Rightarrow> uuid \<Rightarrow> uuid \<Rightarrow> int \<Rightarrow> uuid \<times> string \<times> json \<Rightarrow> proposal_row" where
  "proposal_of fresh now workspace_id job_id schema_id schema_version f =
     (case f of (entity_id, source_field, proposed) \<Rightarrow>
        \<lparr>pr_id = fresh entity_id source_field, pr_job_id = job_id, pr_workspace_id = workspace_id,
         pr_entity_id = entity_id, pr_schema_id = schema_id, pr_schema_version = schema_version,
         pr_source_field = source_field, pr_proposed = proposed, pr_status = Pending,
         pr_created_at = now, pr_updated_at = now\<rparr>)"

definition record_batch_attempt ::
  "backend \<Rightarrow> (uuid \<Rightarrow> string \<Rightarrow> uuid) \<Rightarrow> instant \<Rightarrow> inference_jobs \<Rightarrow> proposal_txn \<Rightarrow> uuid \<Rightarrow> uuid \<Rightarrow> int \<Rightarrow> uuid \<Rightarrow>
   int \<Rightarrow> (uuid \<times> string \<times> json) list \<Rightarrow> (proposal_txn \<times> int) result" where
  "record_batch_attempt b fresh now t x workspace_id job_id attempt schema_id schema_version fs =
     (if pt_aborted x then Inl (Internal ''current transaction is aborted'')
      else
      rbind (ok_or (get_job t job_id) (NotFound ''infer-fill job not found'')) (\<lambda>j.
      if ij_workspace_id j \<noteq> workspace_id then Inl (NotFound ''infer-fill job not found'')
      else if ij_status j \<noteq> JobRunning then Inl (Conflict ''inference job {} is not running'')
      else if ij_attempt j \<noteq> attempt then Inl (Conflict ''inference job {} attempt is stale'')
      else insert_proposals b
             (map (proposal_of fresh now workspace_id job_id schema_id schema_version) fs) (x, 0)))"

text \<open>
  The loop of the worker over the entities it has answers for (\<open>ee/workers/infer_fill.rs\<close>), with the
  counters of proposed fields and skipped entities.
\<close>

primrec record_batches ::
  "backend \<Rightarrow> (uuid \<Rightarrow> string \<Rightarrow> uuid) \<Rightarrow> instant \<Rightarrow> inference_jobs \<Rightarrow> uuid \<Rightarrow> uuid \<Rightarrow> int \<Rightarrow> uuid \<Rightarrow> int \<Rightarrow>
   (uuid \<times> (string \<times> json) list) list \<Rightarrow> proposal_txn \<times> int \<times> int \<Rightarrow> (proposal_txn \<times> int \<times> int) result" where
  "record_batches b fresh now t w job attempt s v [] acc = Inr acc"
| "record_batches b fresh now t w job attempt s v (g # gs) acc =
     (case acc of (x, proposed, skipped) \<Rightarrow>
      rbind (record_batch_attempt b fresh now t x w job attempt s v (map (\<lambda>(f, a). (fst g, f, a)) (snd g))) (\<lambda>(x', written).
        record_batches b fresh now t w job attempt s v gs
          (if written = 0 then (x', proposed, skipped + 1) else (x', proposed + written, skipped))))"

text \<open>Committing an aborted transaction rolls it back.\<close>

definition commit_proposals :: "db \<Rightarrow> proposal_txn \<Rightarrow> db" where
  "commit_proposals d x = (if pt_aborted x then d else pt_store x)"

section \<open>Reading and settling proposals\<close>

definition proposals_for_job :: "db \<Rightarrow> uuid \<Rightarrow> uuid \<Rightarrow> proposal_row list" where
  "proposals_for_job d workspace_id job_id =
     sort_key pr_entity_id (sort_key pr_source_field
       (select_where (\<lambda>p. pr_workspace_id p = workspace_id \<and> pr_job_id p = job_id) (db_proposals d)))"

definition require_completed_job :: "db \<Rightarrow> inference_jobs \<Rightarrow> uuid \<Rightarrow> uuid \<Rightarrow> unit result" where
  "require_completed_job d t workspace_id job_id =
     rbind (ok_or (get_job t job_id) (NotFound ''infer-fill job not found'')) (\<lambda>j.
     if ij_workspace_id j \<noteq> workspace_id then Inl (NotFound ''infer-fill job not found'')
     else if ij_status j \<noteq> JobCompleted
     then Inl (Conflict ''inference job {} is not completed and its proposals cannot be changed'')
     else ensure (\<exists>p \<in> set (db_proposals d). pr_workspace_id p = workspace_id \<and> pr_job_id p = job_id)
            (Conflict ''inference job {} did not produce proposals''))"

definition settle_proposal :: "proposal_status \<Rightarrow> instant \<Rightarrow> proposal_row \<Rightarrow> proposal_row" where
  "settle_proposal status now p = p\<lparr>pr_status := status, pr_updated_at := now\<rparr>"

definition pending_of_job :: "uuid \<Rightarrow> uuid \<Rightarrow> proposal_row \<Rightarrow> bool" where
  "pending_of_job workspace_id job_id p \<longleftrightarrow>
     pr_workspace_id p = workspace_id \<and> pr_job_id p = job_id \<and> pr_status p = Pending"

definition transition_pending :: "instant \<Rightarrow> db \<Rightarrow> uuid \<Rightarrow> uuid \<Rightarrow> proposal_status \<Rightarrow> int \<times> db" where
  "transition_pending now d workspace_id job_id status =
     (int (count_where (pending_of_job workspace_id job_id) (db_proposals d)),
      d\<lparr>db_proposals := update_where (pending_of_job workspace_id job_id) (settle_proposal status now) (db_proposals d)\<rparr>)"

definition reject_proposals :: "instant \<Rightarrow> db \<Rightarrow> inference_jobs \<Rightarrow> uuid \<Rightarrow> uuid \<Rightarrow> (int \<times> db) result" where
  "reject_proposals now d t workspace_id job_id =
     rbind (require_completed_job d t workspace_id job_id) (\<lambda>_.
       Inr (transition_pending now d workspace_id job_id Rejected))"

definition discard_proposals :: "instant \<Rightarrow> db \<Rightarrow> inference_jobs \<Rightarrow> uuid \<Rightarrow> uuid \<Rightarrow> (int \<times> db) result" where
  "discard_proposals now d t workspace_id job_id =
     rbind (require_completed_job d t workspace_id job_id) (\<lambda>_.
       Inr (transition_pending now d workspace_id job_id Discarded))"

section \<open>Confirming proposals\<close>

definition migrate_entity ::
  "json \<Rightarrow> uuid \<Rightarrow> int \<Rightarrow> uuid option \<Rightarrow> string \<Rightarrow> instant \<Rightarrow> entity_row \<Rightarrow> entity_row" where
  "migrate_entity data schema_id schema_version updated_by token now e =
     e\<lparr>en_data := data, en_schema_id := schema_id, en_schema_version := schema_version,
       en_updated_by := updated_by, en_embedding_sync_token := token, en_updated_at := now\<rparr>"

definition update_if_unchanged ::
  "backend \<Rightarrow> string \<Rightarrow> instant \<Rightarrow> db \<Rightarrow> uuid \<Rightarrow> entity_row \<Rightarrow> json \<Rightarrow> uuid \<Rightarrow> int \<Rightarrow> uuid option \<Rightarrow> bool \<times> db" where
  "update_if_unchanged b token now d workspace_id existing data schema_id schema_version updated_by =
     (let sel = (\<lambda>e. en_workspace_id e = workspace_id \<and> en_id e = en_id existing \<and>
            (b = Postgres \<longrightarrow> en_updated_at e = en_updated_at existing))
      in (count_where sel (db_entities d) = 1,
          d\<lparr>db_entities := update_where sel
              (migrate_entity data schema_id schema_version updated_by token now) (db_entities d)\<rparr>))"

definition ensure_entity_marked ::
  "instant \<Rightarrow> db \<Rightarrow> uuid \<Rightarrow> uuid \<Rightarrow> uuid \<Rightarrow> proposal_status \<Rightarrow> nat \<Rightarrow> db result" where
  "ensure_entity_marked now d workspace_id job_id entity_id status expected =
     (let sel = (\<lambda>p. pending_of_job workspace_id job_id p \<and> pr_entity_id p = entity_id) in
      if count_where sel (db_proposals d) \<noteq> expected
      then Inl (Conflict ''inference job {} changed while confirming its proposals'')
      else Inr (d\<lparr>db_proposals := update_where sel (settle_proposal status now) (db_proposals d)\<rparr>))"

record confirm_report =
  cr_confirmed :: int
  cr_stale :: int
  cr_invalid :: int

text \<open>\<open>by_entity\<close>: a \<open>BTreeMap\<close> from the entity to its pending proposals, in the order read.\<close>

definition by_entity :: "proposal_row list \<Rightarrow> (uuid \<times> proposal_row list) list" where
  "by_entity ps = map (\<lambda>i. (i, filter (\<lambda>p. pr_entity_id p = i) ps)) (sort (remdups (map pr_entity_id ps)))"

definition stale_entity :: "schema_row \<Rightarrow> schema_row \<Rightarrow> entity_row \<Rightarrow> proposal_row list \<Rightarrow> bool" where
  "stale_entity target active existing ps \<longleftrightarrow>
     sc_status target \<noteq> SchemaActive \<or> sc_id active \<noteq> sc_id target \<or>
     (\<exists>p \<in> set ps. case en_data existing of
        JObj fs \<Rightarrow> bt_get fs (pr_source_field p) \<noteq> None | _ \<Rightarrow> True)"

definition proposed_data :: "proposal_row list \<Rightarrow> json btree_map \<Rightarrow> json btree_map" where
  "proposed_data ps fs = fold (\<lambda>p. bt_insert (pr_source_field p) (pr_proposed p)) ps fs"

datatype verdict = IsStale | IsInvalid | Confirms entity_row schema_row "json btree_map"

text \<open>What the loop body decides for one entity, before it writes.\<close>

definition judge_entity ::
  "schema_validator \<Rightarrow> db \<Rightarrow> uuid \<Rightarrow> uuid \<Rightarrow> proposal_row list \<Rightarrow> verdict result" where
  "judge_entity errors_of d workspace_id entity_id ps =
     (case ps of [] \<Rightarrow> Inl (Internal ''index out of bounds'') | p # _ \<Rightarrow>
     rbind (get_by_id d workspace_id (pr_schema_id p)) (\<lambda>target.
     rbind (get_active_schema d workspace_id (sc_name target)) (\<lambda>active.
     (case get_entity d workspace_id entity_id of
        Inl (NotFound _) \<Rightarrow> Inr IsStale
      | Inl e \<Rightarrow> Inl e
      | Inr existing \<Rightarrow>
          if stale_entity target active existing ps then Inr IsStale
          else (case en_data existing of
              JObj object \<Rightarrow>
                (let data = proposed_data ps object in
                 case bt_get (md_entity_types (sc_definition target)) (en_entity_type existing) of
                   None \<Rightarrow> Inr IsInvalid
                 | Some type_def \<Rightarrow>
                     (case validate_data errors_of type_def (JObj data) of
                        Inr _ \<Rightarrow> Inr (Confirms existing target data)
                      | Inl (ValidationFailed _ _) \<Rightarrow> Inr IsInvalid
                      | Inl e \<Rightarrow> Inl e))
            | _ \<Rightarrow> Inr IsInvalid)))))"

definition confirm_entity ::
  "schema_validator \<Rightarrow> backend \<Rightarrow> (uuid \<Rightarrow> uuid) \<Rightarrow> (uuid \<Rightarrow> string) \<Rightarrow> instant \<Rightarrow> uuid \<Rightarrow> uuid \<Rightarrow> uuid option \<Rightarrow>
   uuid \<times> proposal_row list \<Rightarrow> confirm_report \<times> db \<Rightarrow> (confirm_report \<times> db) result" where
  "confirm_entity errors_of b ids tokens now workspace_id job_id updated_by g s =
     (case (g, s) of ((entity_id, ps), (rep, d)) \<Rightarrow>
     let n = length ps;
         stale = (\<lambda>d. rbind (ensure_entity_marked now d workspace_id job_id entity_id Stale n) (\<lambda>d'.
           Inr (rep\<lparr>cr_stale := cr_stale rep + int n\<rparr>, d')))
     in rbind (judge_entity errors_of d workspace_id entity_id ps) (\<lambda>v.
       case v of
         IsStale \<Rightarrow> stale d
       | IsInvalid \<Rightarrow> rbind (ensure_entity_marked now d workspace_id job_id entity_id Invalid n) (\<lambda>d'.
           Inr (rep\<lparr>cr_invalid := cr_invalid rep + int n\<rparr>, d'))
       | Confirms existing target data \<Rightarrow>
           rbind (snapshot (ids entity_id) now d workspace_id entity_id job_id) (\<lambda>d1.
           let (unchanged, d2) = update_if_unchanged b (tokens entity_id) now d1 workspace_id existing
                 (JObj data) (sc_id target) (sc_version target) updated_by
           in if \<not> unchanged then stale (delete_snapshot d2 workspace_id entity_id job_id)
              else rbind (ensure_entity_marked now d2 workspace_id job_id entity_id Confirmed n) (\<lambda>d'.
                Inr (rep\<lparr>cr_confirmed := cr_confirmed rep + int n\<rparr>, d')))))"

primrec confirm_entities ::
  "schema_validator \<Rightarrow> backend \<Rightarrow> (uuid \<Rightarrow> uuid) \<Rightarrow> (uuid \<Rightarrow> string) \<Rightarrow> instant \<Rightarrow> uuid \<Rightarrow> uuid \<Rightarrow> uuid option \<Rightarrow>
   (uuid \<times> proposal_row list) list \<Rightarrow> confirm_report \<times> db \<Rightarrow> (confirm_report \<times> db) result" where
  "confirm_entities errors_of b ids tokens now w job user [] s = Inr s"
| "confirm_entities errors_of b ids tokens now w job user (g # gs) s =
     rbind (confirm_entity errors_of b ids tokens now w job user g s)
       (confirm_entities errors_of b ids tokens now w job user gs)"

definition confirm_proposals ::
  "schema_validator \<Rightarrow> backend \<Rightarrow> (uuid \<Rightarrow> uuid) \<Rightarrow> (uuid \<Rightarrow> string) \<Rightarrow> instant \<Rightarrow> db \<Rightarrow> inference_jobs \<Rightarrow> uuid \<Rightarrow>
   uuid \<Rightarrow> uuid option \<Rightarrow> (confirm_report \<times> db) result" where
  "confirm_proposals errors_of b ids tokens now d t workspace_id job_id updated_by =
     rbind (require_completed_job d t workspace_id job_id) (\<lambda>_.
     let pending = filter (\<lambda>p. pr_status p = Pending) (proposals_for_job d workspace_id job_id) in
     if pending = [] then Inl (Conflict ''inference job {} has no pending proposals'')
     else confirm_entities errors_of b ids tokens now workspace_id job_id updated_by (by_entity pending)
            (\<lparr>cr_confirmed = 0, cr_stale = 0, cr_invalid = 0\<rparr>, d))"

section \<open>The entities to consider\<close>

definition entities_on_outdated_schema :: "db \<Rightarrow> uuid \<Rightarrow> string \<Rightarrow> uuid \<Rightarrow> entity_row list" where
  "entities_on_outdated_schema d workspace_id name active_schema_id =
     (let schema_ids = map sc_id (select_where (\<lambda>s. sc_workspace_id s = workspace_id \<and> sc_name s = name) (db_schemas d))
      in select_where (\<lambda>e. en_workspace_id e = workspace_id \<and> en_schema_id e \<in> set schema_ids \<and>
           en_schema_id e \<noteq> active_schema_id) (db_entities d))"

section \<open>What confirming one entity does\<close>

lemma get_entity_iff:
  assumes "distinct (map en_id (db_entities d))"
  shows "get_entity d w i = Inr e \<longleftrightarrow> e \<in> set (db_entities d) \<and> en_workspace_id e = w \<and> en_id e = i"
proof
  assume "get_entity d w i = Inr e"
  then have "find_row (\<lambda>e. en_workspace_id e = w \<and> en_id e = i) (db_entities d) = Some e"
    by (simp add: get_entity_def ok_or_Inr_iff)
  from find_row_Some [OF this] show "e \<in> set (db_entities d) \<and> en_workspace_id e = w \<and> en_id e = i" by simp
next
  assume e: "e \<in> set (db_entities d) \<and> en_workspace_id e = w \<and> en_id e = i"
  have "find_row (\<lambda>e. en_workspace_id e = w \<and> en_id e = i) (db_entities d) = Some e"
    by (rule find_row_unique) (use e distinct_key_unique [OF assms, of _ e] in auto)
  then show "get_entity d w i = Inr e" by (simp add: get_entity_def)
qed

lemma fresh_object:
  assumes "\<not> stale_entity target active e (p # ps)"
  obtains object where "en_data e = JObj object" "\<forall>p \<in> set (p # ps). bt_get object (pr_source_field p) = None"
  using assms by (cases "en_data e") (auto simp: stale_entity_def)

lemma judge_read:
  assumes "judge_entity errors_of d w i ps = Inr (Confirms e target data)"
  obtains p active where "p \<in> set ps" "get_by_id d w (pr_schema_id p) = Inr target"
    "get_active_schema d w (sc_name target) = Inr active" "get_entity d w i = Inr e"
    "\<not> stale_entity target active e ps"
proof -
  obtain p rest where ps: "ps = p # rest" using assms by (cases ps) (simp_all add: judge_entity_def)
  obtain target' active where t: "get_by_id d w (pr_schema_id p) = Inr target'"
    "get_active_schema d w (sc_name target') = Inr active"
    using assms by (auto simp: judge_entity_def ps rbind_Inr_iff)
  show ?thesis
  proof (cases "get_entity d w i")
    case (Inl err)
    then show ?thesis using assms t by (cases err) (simp_all add: judge_entity_def ps)
  next
    case (Inr x)
    have fresh: "\<not> stale_entity target' active x ps" using assms t Inr by (auto simp: judge_entity_def ps)
    then obtain object where "en_data x = JObj object"
      unfolding ps by (rule fresh_object)
    then have "x = e" "target' = target"
      using assms t Inr fresh by (auto simp: judge_entity_def ps Let_def split: option.splits sum.splits yorishiro_error.splits)
    then show ?thesis using that [of p active] t Inr fresh ps by simp
  qed
qed

lemma judge_Confirms:
  assumes "judge_entity errors_of d w i ps = Inr (Confirms e target data)"
  obtains object type_def where "en_data e = JObj object" "data = proposed_data ps object"
    "bt_get (md_entity_types (sc_definition target)) (en_entity_type e) = Some type_def"
    "validate_data errors_of type_def (JObj data) = Inr ()"
proof -
  obtain p active where r: "get_active_schema d w (sc_name target) = Inr active" "get_entity d w i = Inr e"
    "\<not> stale_entity target active e ps"
    using judge_read [OF assms] by metis
  obtain q rest where ps: "ps = q # rest" using assms by (cases ps) (simp_all add: judge_entity_def)
  then obtain object where "en_data e = JObj object"
    using r(3) unfolding ps by (auto elim: fresh_object)
  then show ?thesis
    using assms r that [of object] ps
    by (auto simp: judge_entity_def rbind_Inr_iff Let_def
        split: if_splits option.splits sum.splits yorishiro_error.splits)
qed

text \<open>The statement that settles an entity's proposals, once the number of them is checked.\<close>

definition mark_entity :: "instant \<Rightarrow> uuid \<Rightarrow> uuid \<Rightarrow> uuid \<Rightarrow> proposal_status \<Rightarrow> db \<Rightarrow> db" where
  "mark_entity now w job i status d =
     d\<lparr>db_proposals := update_where (\<lambda>p. pending_of_job w job p \<and> pr_entity_id p = i) (settle_proposal status now)
         (db_proposals d)\<rparr>"

definition confirmed_store ::
  "(uuid \<Rightarrow> uuid) \<Rightarrow> (uuid \<Rightarrow> string) \<Rightarrow> instant \<Rightarrow> uuid \<Rightarrow> uuid option \<Rightarrow> entity_row \<Rightarrow> schema_row \<Rightarrow>
   json btree_map \<Rightarrow> db \<Rightarrow> db" where
  "confirmed_store ids tokens now job user e target data d =
     d\<lparr>db_snapshots := db_snapshots d @ [snapshot_of (ids (en_id e)) now job e],
       db_entities := update_where (\<lambda>x. en_id x = en_id e)
         (migrate_entity (JObj data) (sc_id target) (sc_version target) user (tokens (en_id e)) now) (db_entities d)\<rparr>"

lemma ensure_marked_Inr:
  "ensure_entity_marked now d w job i status n = Inr d' \<longleftrightarrow>
   count_where (\<lambda>p. pending_of_job w job p \<and> pr_entity_id p = i) (db_proposals d) = n \<and> d' = mark_entity now w job i status d"
  by (auto simp: ensure_entity_marked_def mark_entity_def Let_def)

lemma update_where_cong: "(\<And>r. r \<in> set t \<Longrightarrow> p r = q r) \<Longrightarrow> update_where p f t = update_where q f t"
  by (simp add: update_where_def)

lemma sole_row:
  assumes "distinct (map key t)" "e \<in> set t" "\<And>x. x \<in> set t \<Longrightarrow> p x \<longleftrightarrow> key x = key e"
  shows "filter p t = [e]"
proof -
  have "distinct (map key (filter p t))" using assms(1) by (rule distinct_map_filter)
  then have "length (filter p t) \<le> 1" by (rule distinct_key_const [where k = "key e"]) (use assms(3) in auto)
  moreover have "e \<in> set (filter p t)" using assms(2,3) by simp
  ultimately show ?thesis by (cases "filter p t") auto
qed

lemma confirm_write:
  assumes ids: "distinct (map en_id (db_entities d))" and e: "get_entity d w i = Inr e"
    and snap: "snapshot (idf i) now d w i job = Inr d1"
    and upd: "update_if_unchanged b (tokens i) now d1 w e (JObj data) (sc_id target) (sc_version target) user = (ok, d2)"
  shows "ok \<and> d2 = confirmed_store idf tokens now job user e target data d \<and>
    d1 = d\<lparr>db_snapshots := db_snapshots d @ [snapshot_of (idf (en_id e)) now job e]\<rparr>"
proof -
  have e': "e \<in> set (db_entities d)" "en_workspace_id e = w" "en_id e = i"
    using e by (auto simp: get_entity_iff [OF ids])
  have only: "x = e" if "x \<in> set (db_entities d)" "en_id x = en_id e" for x
    using distinct_key_unique [OF ids that(1) e'(1) that(2)] .
  have src: "filter (\<lambda>x. en_workspace_id x = w \<and> en_id x = i) (db_entities d) = [e]"
    by (rule sole_row [OF ids e'(1)]) (metis only e'(2,3))
  have d1: "d1 = d\<lparr>db_snapshots := db_snapshots d @ [snapshot_of (idf i) now job e]\<rparr>"
    using snap by (auto simp: snapshot_def insert_snapshot_def select_where_def Let_def rbind_Inr_iff src split: if_splits)
  let ?sel = "\<lambda>x. en_workspace_id x = w \<and> en_id x = en_id e \<and> (b = Postgres \<longrightarrow> en_updated_at x = en_updated_at e)"
  have sel: "?sel x \<longleftrightarrow> en_id x = en_id e" if "x \<in> set (db_entities d)" for x
    using only [OF that] e' by auto
  have "filter ?sel (db_entities d) = [e]" by (rule sole_row [OF ids e'(1) sel])
  then have "count_where ?sel (db_entities d) = 1" by (simp add: count_where_def)
  moreover have "update_where ?sel f (db_entities d) = update_where (\<lambda>x. en_id x = en_id e) f (db_entities d)" for f
    by (rule update_where_cong [OF sel])
  ultimately show ?thesis
    using upd by (auto simp: update_if_unchanged_def Let_def d1 confirmed_store_def e'(3))
qed

lemma confirm_entity_cases:
  assumes ids: "distinct (map en_id (db_entities d))"
    and run: "confirm_entity errors_of b idf tokens now w job user (i, ps) (rep, d) = Inr (rep', d')"
  obtains
    (stale) "count_where (\<lambda>p. pending_of_job w job p \<and> pr_entity_id p = i) (db_proposals d) = length ps"
      "rep' = rep\<lparr>cr_stale := cr_stale rep + int (length ps)\<rparr>" "d' = mark_entity now w job i Stale d"
  | (invalid) "count_where (\<lambda>p. pending_of_job w job p \<and> pr_entity_id p = i) (db_proposals d) = length ps"
      "rep' = rep\<lparr>cr_invalid := cr_invalid rep + int (length ps)\<rparr>" "d' = mark_entity now w job i Invalid d"
  | (confirmed) e target data where
      "count_where (\<lambda>p. pending_of_job w job p \<and> pr_entity_id p = i) (db_proposals d) = length ps"
      "judge_entity errors_of d w i ps = Inr (Confirms e target data)"
      "snapshot (idf i) now d w i job = Inr (d\<lparr>db_snapshots := db_snapshots d @ [snapshot_of (idf (en_id e)) now job e]\<rparr>)"
      "rep' = rep\<lparr>cr_confirmed := cr_confirmed rep + int (length ps)\<rparr>"
      "d' = mark_entity now w job i Confirmed (confirmed_store idf tokens now job user e target data d)"
proof -
  obtain v where v: "judge_entity errors_of d w i ps = Inr v"
    using run by (auto simp: confirm_entity_def Let_def rbind_Inr_iff)
  show ?thesis
  proof (cases v)
    case IsStale
    then show ?thesis using run v stale by (auto simp: confirm_entity_def Let_def rbind_Inr_iff ensure_marked_Inr)
  next
    case IsInvalid
    then show ?thesis using run v invalid by (auto simp: confirm_entity_def Let_def rbind_Inr_iff ensure_marked_Inr)
  next
    case (Confirms e target data)
    obtain d1 where snap: "snapshot (idf i) now d w i job = Inr d1"
      using run v Confirms by (auto simp: confirm_entity_def Let_def rbind_Inr_iff)
    obtain ok d2 where upd: "update_if_unchanged b (tokens i) now d1 w e (JObj data) (sc_id target) (sc_version target) user = (ok, d2)"
      by (cases "update_if_unchanged b (tokens i) now d1 w e (JObj data) (sc_id target) (sc_version target) user") auto
    have e: "get_entity d w i = Inr e" using v Confirms by (auto elim: judge_read)
    have d2: "ok" "d2 = confirmed_store idf tokens now job user e target data d"
      "d1 = d\<lparr>db_snapshots := db_snapshots d @ [snapshot_of (idf (en_id e)) now job e]\<rparr>"
      using confirm_write [where idf = idf and tokens = tokens, OF ids e snap upd] by auto
    have "db_proposals d2 = db_proposals d" by (simp add: d2 confirmed_store_def)
    then show ?thesis
      using run v Confirms snap upd d2 confirmed [of e target data]
      by (auto simp: confirm_entity_def Let_def rbind_Inr_iff ensure_marked_Inr)
  qed
qed

section \<open>What confirming a job does\<close>

text \<open>Induction over the loop: \<open>Q settled\<close> holds when the entities in \<open>settled\<close> are done.\<close>

lemma confirm_entities_rule:
  assumes "confirm_entities errors_of b idf tokens now w job user gs (rep, d) = Inr (rep', d')"
    and "distinct (map fst gs)" and "fst ` set gs \<inter> settled = {}" and "Q settled rep d"
    and step: "\<And>settled i ps rep d rep' d'. (i, ps) \<in> set gs \<Longrightarrow> i \<notin> settled \<Longrightarrow> Q settled rep d \<Longrightarrow>
      confirm_entity errors_of b idf tokens now w job user (i, ps) (rep, d) = Inr (rep', d') \<Longrightarrow>
      Q (insert i settled) rep' d'"
  shows "Q (settled \<union> fst ` set gs) rep' d'"
  using assms
proof (induction gs arbitrary: settled rep d)
  case Nil
  then show ?case by simp
next
  case (Cons g gs)
  obtain i ps where g: "g = (i, ps)" by (cases g)
  obtain rep1 d1 where one: "confirm_entity errors_of b idf tokens now w job user (i, ps) (rep, d) = Inr (rep1, d1)"
    and rest: "confirm_entities errors_of b idf tokens now w job user gs (rep1, d1) = Inr (rep', d')"
    using Cons.prems(1) by (auto simp: g rbind_Inr_iff)
  have "Q (insert i settled) rep1 d1"
    by (rule Cons.prems(5) [OF _ _ Cons.prems(4) one]) (use Cons.prems(3) in \<open>auto simp: g\<close>)
  then have "Q (insert i settled \<union> fst ` set gs) rep' d'"
  proof (rule Cons.IH [OF rest, rotated 2])
    show "distinct (map fst gs)" "fst ` set gs \<inter> insert i settled = {}"
      using Cons.prems(2,3) by (auto simp: g)
  qed (rule Cons.prems(5), auto)
  then show ?case by (simp add: g)
qed

lemma by_entity_groups:
  "distinct (map fst (by_entity ps))" "fst ` set (by_entity ps) = pr_entity_id ` set ps"
  "(i, qs) \<in> set (by_entity ps) \<Longrightarrow> qs = filter (\<lambda>p. pr_entity_id p = i) ps"
proof -
  have "map fst (by_entity ps) = sort (remdups (map pr_entity_id ps))" by (simp add: by_entity_def comp_def)
  then show "distinct (map fst (by_entity ps))" by simp
  show "fst ` set (by_entity ps) = pr_entity_id ` set ps" by (auto simp: by_entity_def image_image)
  show "(i, qs) \<in> set (by_entity ps) \<Longrightarrow> qs = filter (\<lambda>p. pr_entity_id p = i) ps" by (auto simp: by_entity_def)
qed

lemma confirm_Inr:
  assumes "confirm_proposals errors_of b idf tokens now d t w job user = Inr (rep, d')"
  obtains pending where "pending = filter (\<lambda>p. pr_status p = Pending) (proposals_for_job d w job)"
    "confirm_entities errors_of b idf tokens now w job user (by_entity pending)
       (\<lparr>cr_confirmed = 0, cr_stale = 0, cr_invalid = 0\<rparr>, d) = Inr (rep, d')"
    "set pending = {p \<in> set (db_proposals d). pending_of_job w job p}"
  using assms by (auto simp: confirm_proposals_def Let_def rbind_Inr_iff proposals_for_job_def table_simps
      pending_of_job_def split: if_splits)

subsection \<open>Stored data stays valid\<close>

interpretation migrating: entity_preserving "migrate_entity data i v user token now" for data i v user token now
  by unfold_locales (simp_all add: migrate_entity_def)

lemma entity_inv_proposals:
  "entity_inv errors_of d \<Longrightarrow> entity_inv errors_of (d\<lparr>db_proposals := x\<rparr>)"
  by (simp add: entity_inv_def valid_for_def image_valid_def schema_inv_def refs_ok_def owned_schema_def)

lemma target_valid:
  assumes inv: "entity_inv errors_of d" and judge: "judge_entity errors_of d w i ps = Inr (Confirms e target data)"
  shows "target \<in> set (db_schemas d) \<and> get_active_schema d w (sc_name target) = Inr target \<and>
    e \<in> set (db_entities d) \<and> en_id e = i \<and> en_workspace_id e = w \<and>
    valid_for errors_of d w (sc_id target) (sc_version target) (en_entity_type e) (JObj data)"
proof -
  have sinv: "schema_inv d" and ids: "distinct (map en_id (db_entities d))"
    and sids: "distinct (map sc_id (db_schemas d))"
    using inv by (auto simp: entity_inv_def schema_inv_def)
  obtain p active where "p \<in> set ps" and p: "get_by_id d w (pr_schema_id p) = Inr target"
    "get_active_schema d w (sc_name target) = Inr active" "get_entity d w i = Inr e" "\<not> stale_entity target active e ps"
    by (rule judge_read [OF judge])
  obtain object td where "en_data e = JObj object" "data = proposed_data ps object" and td: "bt_get (md_entity_types (sc_definition target)) (en_entity_type e) = Some td"
    "validate_data errors_of td (JObj data) = Inr ()"
    by (rule judge_Confirms [OF judge])
  have t: "target \<in> set (db_schemas d)" "sc_workspace_id target = w"
    using p(1) by (auto simp: get_by_id_iff [OF sinv])
  have "active \<in> set (db_schemas d)" "sc_id active = sc_id target"
    using p(2,4) by (auto simp: get_active_iff [OF sinv] stale_entity_def)
  then have "active = target" using distinct_key_unique [OF sids] t by blast
  then show ?thesis
    using p t td by (auto simp: get_entity_iff [OF ids] valid_for_def resolve_entity_type_def)
qed

lemma confirm_entity_inv:
  assumes inv: "entity_inv errors_of d"
    and run: "confirm_entity errors_of b idf tokens now w job user (i, ps) (rep, d) = Inr (rep', d')"
  shows "entity_inv errors_of d'"
proof -
  have ids: "distinct (map en_id (db_entities d))" using inv by (simp add: entity_inv_def)
  show ?thesis
  proof (cases rule: confirm_entity_cases [OF ids run])
    case (3 e target data)
    let ?d1 = "d\<lparr>db_snapshots := db_snapshots d @ [snapshot_of (idf (en_id e)) now job e]\<rparr>"
    let ?change = "migrate_entity (JObj data) (sc_id target) (sc_version target) user (tokens (en_id e)) now"
    have inv1: "entity_inv errors_of ?d1" by (rule snapshot_inv [OF inv 3(3)])
    have t: "e \<in> set (db_entities d)" "en_workspace_id e = w"
      "valid_for errors_of ?d1 w (sc_id target) (sc_version target) (en_entity_type e) (JObj data)"
      using target_valid [OF inv 3(2)] valid_for_schemas [of ?d1 d] by auto
    have "entity_inv errors_of (?d1\<lparr>db_entities := update_where (\<lambda>x. en_id x = en_id e) ?change (db_entities ?d1)\<rparr>)"
    proof (rule migrating.inv_update [OF inv1])
      fix x
      assume "x \<in> set (db_entities ?d1)" "en_id x = en_id e"
      then have "x = e" using distinct_key_unique [OF ids _ t(1)] by simp
      then show "valid_for errors_of ?d1 (en_workspace_id x) (en_schema_id (?change x)) (en_schema_version (?change x))
          (en_entity_type x) (en_data (?change x))"
        using t by (simp add: migrate_entity_def)
    qed
    then show ?thesis by (simp add: 3(5) mark_entity_def confirmed_store_def entity_inv_proposals)
  qed (simp_all add: mark_entity_def inv entity_inv_proposals)
qed

lemma confirm_inv:
  assumes "entity_inv errors_of d" "confirm_proposals errors_of b idf tokens now d t w job user = Inr (rep, d')"
  shows "entity_inv errors_of d'"
proof -
  obtain pending where run: "confirm_entities errors_of b idf tokens now w job user (by_entity pending)
       (\<lparr>cr_confirmed = 0, cr_stale = 0, cr_invalid = 0\<rparr>, d) = Inr (rep, d')"
    using assms(2) by (auto elim: confirm_Inr)
  show ?thesis
    by (rule confirm_entities_rule [OF run, where settled = "{}" and Q = "\<lambda>_ _ d. entity_inv errors_of d"])
      (auto simp: by_entity_groups assms(1) intro: confirm_entity_inv)
qed

subsection \<open>Every pending proposal is settled\<close>

text \<open>Only fields the entity does not have are added, each with the value proposed for it.\<close>

definition grown :: "proposal_row set \<Rightarrow> entity_row \<Rightarrow> entity_row \<Rightarrow> bool" where
  "grown P e e' \<longleftrightarrow> frame e' = frame e \<and>
     (\<exists>object data. en_data e = JObj object \<and> en_data e' = JObj data \<and>
        (\<forall>k v. bt_get object k = Some v \<longrightarrow> bt_get data k = Some v) \<and>
        (\<forall>k v. bt_get object k = None \<and> bt_get data k = Some v \<longrightarrow>
           (\<exists>p \<in> P. pr_entity_id p = en_id e \<and> pr_source_field p = k \<and> pr_proposed p = v)))"

text \<open>An entity after confirmation, given the entities that were confirmed.\<close>

definition settled_entity :: "db \<Rightarrow> uuid \<Rightarrow> uuid \<Rightarrow> (uuid \<Rightarrow> bool) \<Rightarrow> entity_row \<Rightarrow> entity_row \<Rightarrow> bool" where
  "settled_entity d w job confirmed e e' \<longleftrightarrow>
     (if confirmed (en_id e)
      then grown {p \<in> set (db_proposals d). pending_of_job w job p} e e' \<and>
        (\<exists>s \<in> set (db_schemas d). get_active_schema d w (sc_name s) = Inr s \<and>
           en_schema_id e' = sc_id s \<and> en_schema_version e' = sc_version s)
      else e' = e)"

definition outcome_tally :: "db \<Rightarrow> uuid \<Rightarrow> uuid \<Rightarrow> uuid set \<Rightarrow> (uuid \<Rightarrow> proposal_status) \<Rightarrow> proposal_status \<Rightarrow> int" where
  "outcome_tally d w job I outcome st = int (count_where (\<lambda>p. pending_of_job w job p \<and> pr_entity_id p \<in> I \<and>
     outcome (pr_entity_id p) = st) (db_proposals d))"

definition progress ::
  "instant \<Rightarrow> db \<Rightarrow> uuid \<Rightarrow> uuid \<Rightarrow> uuid set \<Rightarrow> (uuid \<Rightarrow> proposal_status) \<Rightarrow> confirm_report \<Rightarrow> db \<Rightarrow> bool" where
  "progress now d0 w job I outcome rep d \<longleftrightarrow>
     (\<forall>i \<in> I. outcome i \<in> {Confirmed, Stale, Invalid}) \<and>
     db_schemas d = db_schemas d0 \<and>
     db_proposals d = update_where (\<lambda>p. pending_of_job w job p \<and> pr_entity_id p \<in> I)
       (\<lambda>p. settle_proposal (outcome (pr_entity_id p)) now p) (db_proposals d0) \<and>
     rep = \<lparr>cr_confirmed = outcome_tally d0 w job I outcome Confirmed, cr_stale = outcome_tally d0 w job I outcome Stale,
            cr_invalid = outcome_tally d0 w job I outcome Invalid\<rparr> \<and>
     list_all2 (settled_entity d0 w job (\<lambda>i. i \<in> I \<and> outcome i = Confirmed)) (db_entities d0) (db_entities d)"

lemma settle_proposal_fields [simp]:
  "pr_workspace_id (settle_proposal st now p) = pr_workspace_id p" "pr_job_id (settle_proposal st now p) = pr_job_id p"
  "pr_entity_id (settle_proposal st now p) = pr_entity_id p" "pr_status (settle_proposal st now p) = st"
  "settle_proposal st now (settle_proposal st' now p) = settle_proposal st now p"
  by (simp_all add: settle_proposal_def)

lemma count_map: "count_where p (map f t) = count_where (\<lambda>r. p (f r)) t"
  by (simp add: count_where_def filter_map comp_def)

lemma count_where_cong: "(\<And>r. r \<in> set t \<Longrightarrow> p r = q r) \<Longrightarrow> count_where p t = count_where q t"
  unfolding count_where_def by (metis filter_cong)

lemma count_where_or:
  "(\<And>r. \<not> (p r \<and> q r)) \<Longrightarrow> count_where (\<lambda>r. p r \<or> q r) t = count_where p t + count_where q t"
  by (induction t) auto

text \<open>The rows of an entity not settled yet are still as they were.\<close>

lemma unsettled_count:
  assumes "progress now d0 w job I outcome rep d" "i \<notin> I"
  shows "count_where (\<lambda>p. pending_of_job w job p \<and> pr_entity_id p = i) (db_proposals d)
       = count_where (\<lambda>p. pending_of_job w job p \<and> pr_entity_id p = i) (db_proposals d0)"
proof -
  have "db_proposals d = map (\<lambda>p. if pending_of_job w job p \<and> pr_entity_id p \<in> I
      then settle_proposal (outcome (pr_entity_id p)) now p else p) (db_proposals d0)"
    using assms(1) by (simp add: progress_def update_where_def)
  then show ?thesis
    using assms(2) by (simp add: count_map) (rule count_where_cong, auto)
qed

lemma mark_extends:
  assumes "progress now d0 w job I outcome rep d" "i \<notin> I"
  shows "db_proposals (mark_entity now w job i st d) =
    update_where (\<lambda>p. pending_of_job w job p \<and> pr_entity_id p \<in> insert i I)
      (\<lambda>p. settle_proposal ((outcome(i := st)) (pr_entity_id p)) now p) (db_proposals d0)"
proof -
  have "db_proposals d = update_where (\<lambda>p. pending_of_job w job p \<and> pr_entity_id p \<in> I)
      (\<lambda>p. settle_proposal (outcome (pr_entity_id p)) now p) (db_proposals d0)"
    using assms(1) by (simp add: progress_def)
  then show ?thesis
    using assms(2) by (auto simp: mark_entity_def update_where_def pending_of_job_def)
qed

lemma outcome_tally_extends:
  assumes "i \<notin> I" "count_where (\<lambda>p. pending_of_job w job p \<and> pr_entity_id p = i) (db_proposals d) = n"
  shows "outcome_tally d w job (insert i I) (outcome(i := st)) st' = outcome_tally d w job I outcome st' + (if st' = st then int n else 0)"
proof -
  have "count_where (\<lambda>p. pending_of_job w job p \<and> pr_entity_id p \<in> insert i I \<and> (outcome(i := st)) (pr_entity_id p) = st') (db_proposals d)
     = count_where (\<lambda>p. (pending_of_job w job p \<and> pr_entity_id p \<in> I \<and> outcome (pr_entity_id p) = st') \<or>
         (st' = st \<and> pending_of_job w job p \<and> pr_entity_id p = i)) (db_proposals d)"
    by (rule count_where_cong) (use assms(1) in auto)
  also have "\<dots> = count_where (\<lambda>p. pending_of_job w job p \<and> pr_entity_id p \<in> I \<and> outcome (pr_entity_id p) = st') (db_proposals d)
      + count_where (\<lambda>p. st' = st \<and> pending_of_job w job p \<and> pr_entity_id p = i) (db_proposals d)"
    by (rule count_where_or) (use assms(1) in auto)
  also have "count_where (\<lambda>p. st' = st \<and> pending_of_job w job p \<and> pr_entity_id p = i) (db_proposals d) = (if st' = st then n else 0)"
    using assms(2) by (auto simp: count_where_def)
  finally show ?thesis by (simp add: outcome_tally_def)
qed

lemma proposed_data_get:
  "bt_get (proposed_data ps m) k = (case find_row (\<lambda>p. pr_source_field p = k) (rev ps) of
     None \<Rightarrow> bt_get m k | Some p \<Rightarrow> Some (pr_proposed p))"
  unfolding proposed_data_def
  by (induction ps arbitrary: m rule: rev_induct) (auto simp: bt_get_insert find_row_def)

lemma confirmed_grows:
  assumes judge: "judge_entity errors_of d w i ps = Inr (Confirms e target data)" and "en_id e = i"
    and ps: "set ps \<subseteq> P" "\<forall>p \<in> set ps. pr_entity_id p = i"
  shows "grown P e (migrate_entity (JObj data) s v user token now e)"
proof -
  obtain object td where obj: "en_data e = JObj object" "data = proposed_data ps object"
    by (rule judge_Confirms [OF judge])
  obtain p active where fresh: "\<not> stale_entity target active e ps" by (rule judge_read [OF judge])
  have absent: "bt_get object (pr_source_field p) = None" if "p \<in> set ps" for p
    using fresh that obj(1) by (auto simp: stale_entity_def)
  have "bt_get data k = Some v" if "bt_get object k = Some v" for k v
    using that absent find_row_Some [of "\<lambda>p. pr_source_field p = k" "rev ps"]
    by (auto simp: obj(2) proposed_data_get split: option.splits)
  moreover have "\<exists>p \<in> P. pr_entity_id p = en_id e \<and> pr_source_field p = k \<and> pr_proposed p = v"
    if "bt_get object k = None" "bt_get data k = Some v" for k v
    using that ps assms(2) find_row_Some [of "\<lambda>p. pr_source_field p = k" "rev ps"]
    by (auto simp: obj(2) proposed_data_get split: option.splits)
  ultimately show ?thesis
    using obj(1) by (auto simp: grown_def migrate_entity_def frame_def)
qed

lemma settled_extends:
  assumes "settled_entity d w job (\<lambda>j. j \<in> I \<and> outcome j = Confirmed) e e'" "i \<notin> I" "st \<noteq> Confirmed \<or> en_id e \<noteq> i"
  shows "settled_entity d w job (\<lambda>j. j \<in> insert i I \<and> (outcome(i := st)) j = Confirmed) e e'"
  using assms by (auto simp: settled_entity_def split: if_splits)

lemma progress_mark:
  assumes prog: "progress now d0 w job I outcome rep d" and i: "i \<notin> I" and st: "st \<in> {Confirmed, Stale, Invalid}"
    and n: "count_where (\<lambda>p. pending_of_job w job p \<and> pr_entity_id p = i) (db_proposals d) = n"
    and rep: "rep' = \<lparr>cr_confirmed = cr_confirmed rep + (if st = Confirmed then int n else 0),
       cr_stale = cr_stale rep + (if st = Stale then int n else 0),
       cr_invalid = cr_invalid rep + (if st = Invalid then int n else 0)\<rparr>"
    and ents: "list_all2 (settled_entity d0 w job (\<lambda>j. j \<in> insert i I \<and> (outcome(i := st)) j = Confirmed))
       (db_entities d0) (db_entities d1)"
    and d1: "db_proposals d1 = db_proposals d" "db_schemas d1 = db_schemas d"
  shows "progress now d0 w job (insert i I) (outcome(i := st)) rep' (mark_entity now w job i st d1)"
proof -
  have n0: "count_where (\<lambda>p. pending_of_job w job p \<and> pr_entity_id p = i) (db_proposals d0) = n"
    using unsettled_count [OF prog i] n by simp
  have rows: "db_proposals (mark_entity now w job i st d1) =
    update_where (\<lambda>p. pending_of_job w job p \<and> pr_entity_id p \<in> insert i I)
      (\<lambda>p. settle_proposal ((outcome(i := st)) (pr_entity_id p)) now p) (db_proposals d0)"
    using mark_extends [OF prog i, of st] by (simp add: mark_entity_def d1)
  have reports: "rep' = \<lparr>cr_confirmed = outcome_tally d0 w job (insert i I) (outcome(i := st)) Confirmed,
      cr_stale = outcome_tally d0 w job (insert i I) (outcome(i := st)) Stale,
      cr_invalid = outcome_tally d0 w job (insert i I) (outcome(i := st)) Invalid\<rparr>"
    using prog rep unfolding outcome_tally_extends [OF i n0] by (auto simp: progress_def)
  have others: "\<forall>j \<in> insert i I. (outcome(i := st)) j \<in> {Confirmed, Stale, Invalid}"
    using prog st by (auto simp: progress_def)
  show ?thesis
    unfolding progress_def
    using rows reports others ents prog d1 by (simp add: mark_entity_def progress_def)
qed

lemma progress_step:
  assumes inv: "entity_inv errors_of d" and prog: "progress now d0 w job I outcome rep d" and i: "i \<notin> I"
    and ps: "set ps \<subseteq> {p \<in> set (db_proposals d0). pending_of_job w job p}" "\<forall>p \<in> set ps. pr_entity_id p = i"
    and run: "confirm_entity errors_of b idf tokens now w job user (i, ps) (rep, d) = Inr (rep', d')"
  shows "\<exists>outcome'. progress now d0 w job (insert i I) outcome' rep' d'"
proof -
  have ids: "distinct (map en_id (db_entities d))" using inv by (simp add: entity_inv_def)
  have old: "list_all2 (settled_entity d0 w job (\<lambda>j. j \<in> I \<and> outcome j = Confirmed)) (db_entities d0) (db_entities d)"
    using prog by (simp add: progress_def)
  have same: "list_all2 (settled_entity d0 w job (\<lambda>j. j \<in> insert i I \<and> (outcome(i := st)) j = Confirmed))
      (db_entities d0) (db_entities d)" if "st \<noteq> Confirmed" for st
    by (rule list_all2_mono [OF old]) (rule settled_extends [OF _ i], use that in auto)
  show ?thesis
  proof (cases rule: confirm_entity_cases [OF ids run])
    case 1
    have "progress now d0 w job (insert i I) (outcome(i := Stale)) rep' (mark_entity now w job i Stale d)"
      by (rule progress_mark [OF prog i _ 1(1) _ same]) (simp_all add: 1(2))
    then show ?thesis using 1(3) by blast
  next
    case 2
    have "progress now d0 w job (insert i I) (outcome(i := Invalid)) rep' (mark_entity now w job i Invalid d)"
      by (rule progress_mark [OF prog i _ 2(1) _ same]) (simp_all add: 2(2))
    then show ?thesis using 2(3) by blast
  next
    case (3 e target data)
    let ?d1 = "confirmed_store idf tokens now job user e target data d"
    let ?change = "migrate_entity (JObj data) (sc_id target) (sc_version target) user (tokens (en_id e)) now"
    have entities: "db_entities ?d1 = map (\<lambda>x. if en_id x = en_id e then ?change x else x) (db_entities d)"
      by (simp add: confirmed_store_def update_where_def)
    have t: "target \<in> set (db_schemas d0)" "get_active_schema d0 w (sc_name target) = Inr target"
      "e \<in> set (db_entities d)" "en_id e = i"
      using target_valid [OF inv 3(2)] prog
      by (auto simp: progress_def get_active_schema_def active_versions_def)
    have "list_all2 (settled_entity d0 w job (\<lambda>j. j \<in> insert i I \<and> (outcome(i := Confirmed)) j = Confirmed))
        (db_entities d0) (db_entities ?d1)"
      unfolding entities list_all2_map2
    proof (rule list.rel_mono_strong [OF old])
      fix x x'
      assume x': "x' \<in> set (db_entities d)" and rel: "settled_entity d0 w job (\<lambda>j. j \<in> I \<and> outcome j = Confirmed) x x'"
      have xid: "en_id x' = en_id x" using rel by (auto simp: settled_entity_def grown_def frame_def split: if_splits)
      show "settled_entity d0 w job (\<lambda>j. j \<in> insert i I \<and> (outcome(i := Confirmed)) j = Confirmed) x
          (if en_id x' = en_id e then ?change x' else x')"
      proof (cases "en_id x = i")
        case True
        then have "x' = e" using distinct_key_unique [OF ids x' t(3)] xid t(4) by simp
        moreover have "x' = x" using rel i True by (simp add: settled_entity_def)
        moreover note confirmed_grows [OF 3(2) t(4) ps, of "sc_id target" "sc_version target" user "tokens (en_id e)" now]
        ultimately show ?thesis
          using t(1,2,4) by (auto simp: settled_entity_def migrate_entity_def)
      next
        case False
        then show ?thesis using settled_extends [OF rel i, of Confirmed] xid t(4) by simp
      qed
    qed
    then have "progress now d0 w job (insert i I) (outcome(i := Confirmed)) rep' (mark_entity now w job i Confirmed ?d1)"
      by (rule progress_mark [OF prog i _ 3(1), rotated 2]) (simp_all add: 3(4) confirmed_store_def)
    then show ?thesis using 3(5) by blast
  qed
qed

lemma progress_start:
  "progress now d w job {} outcome \<lparr>cr_confirmed = 0, cr_stale = 0, cr_invalid = 0\<rparr> d"
  by (simp add: progress_def outcome_tally_def settled_entity_def list_all2_same update_where_def count_where_def)

lemma confirm_progress:
  assumes "entity_inv errors_of d" and "confirm_proposals errors_of b idf tokens now d t w job user = Inr (rep, d')"
  obtains pending outcome where "set pending = {p \<in> set (db_proposals d). pending_of_job w job p}"
    "progress now d w job (pr_entity_id ` set pending) outcome rep d'"
proof -
  obtain pending where run: "confirm_entities errors_of b idf tokens now w job user (by_entity pending)
       (\<lparr>cr_confirmed = 0, cr_stale = 0, cr_invalid = 0\<rparr>, d) = Inr (rep, d')"
    and pending: "set pending = {p \<in> set (db_proposals d). pending_of_job w job p}"
    using assms(2) by (rule confirm_Inr)
  let ?Q = "\<lambda>I rep x. entity_inv errors_of x \<and> (\<exists>outcome. progress now d w job I outcome rep x)"
  have "?Q ({} \<union> fst ` set (by_entity pending)) rep d'"
  proof (rule confirm_entities_rule [OF run])
    show "distinct (map fst (by_entity pending))" "fst ` set (by_entity pending) \<inter> {} = {}"
      by (simp_all add: by_entity_groups)
    show "?Q {} \<lparr>cr_confirmed = 0, cr_stale = 0, cr_invalid = 0\<rparr> d"
      using assms(1) progress_start by blast
    fix I i ps rep x rep' x'
    assume g: "(i, ps) \<in> set (by_entity pending)" "i \<notin> I" "?Q I rep x"
      and one: "confirm_entity errors_of b idf tokens now w job user (i, ps) (rep, x) = Inr (rep', x')"
    have ps: "set ps \<subseteq> {p \<in> set (db_proposals d). pending_of_job w job p}" "\<forall>p \<in> set ps. pr_entity_id p = i"
      using by_entity_groups(3) [OF g(1)] pending by auto
    show "?Q (insert i I) rep' x'"
      using confirm_entity_inv [OF _ one] progress_step [OF _ _ g(2) ps one] g(3) by blast
  qed
  then obtain outcome where prog: "progress now d w job (pr_entity_id ` set pending) outcome rep d'"
    by (auto simp: by_entity_groups)
  then show ?thesis using that pending by blast
qed

text \<open>
  Property C25. Confirming a job's proposals settles every pending one and reports exactly what it did:
  each entity's proposals become confirmed, stale or invalid together, the three counts are the numbers
  of proposals of each kind, and proposals of other jobs or settled earlier are untouched.  An entity whose
  proposals were confirmed moves to the active version of its schema and gains only fields it did not have, with the
  values proposed for them; every other entity is unchanged.
\<close>

theorem confirm_settles_all:
  assumes "entity_inv errors_of d" and "confirm_proposals errors_of b idf tokens now d t w job user = Inr (rep, d')"
  shows "\<exists>outcome.
    db_proposals d' = update_where (pending_of_job w job) (\<lambda>p. settle_proposal (outcome (pr_entity_id p)) now p) (db_proposals d) \<and>
    (\<forall>p \<in> set (db_proposals d). pending_of_job w job p \<longrightarrow> outcome (pr_entity_id p) \<in> {Confirmed, Stale, Invalid}) \<and>
    cr_confirmed rep = int (count_where (\<lambda>p. pending_of_job w job p \<and> outcome (pr_entity_id p) = Confirmed) (db_proposals d)) \<and>
    cr_stale rep = int (count_where (\<lambda>p. pending_of_job w job p \<and> outcome (pr_entity_id p) = Stale) (db_proposals d)) \<and>
    cr_invalid rep = int (count_where (\<lambda>p. pending_of_job w job p \<and> outcome (pr_entity_id p) = Invalid) (db_proposals d)) \<and>
    list_all2 (settled_entity d w job (\<lambda>i. outcome i = Confirmed \<and>
        (\<exists>p \<in> set (db_proposals d). pending_of_job w job p \<and> pr_entity_id p = i))) (db_entities d) (db_entities d')"
proof -
  obtain pending outcome where pending: "set pending = {p \<in> set (db_proposals d). pending_of_job w job p}"
    and prog: "progress now d w job (pr_entity_id ` set pending) outcome rep d'"
    by (rule confirm_progress [OF assms])
  have member: "pr_entity_id p \<in> pr_entity_id ` set pending" if "p \<in> set (db_proposals d)" "pending_of_job w job p" for p
    using that pending by blast
  have rows: "db_proposals d' = update_where (pending_of_job w job) (\<lambda>p. settle_proposal (outcome (pr_entity_id p)) now p) (db_proposals d)"
  proof -
    have "db_proposals d' = update_where (\<lambda>p. pending_of_job w job p \<and> pr_entity_id p \<in> pr_entity_id ` set pending)
        (\<lambda>p. settle_proposal (outcome (pr_entity_id p)) now p) (db_proposals d)"
      using prog by (simp add: progress_def)
    also have "\<dots> = update_where (pending_of_job w job) (\<lambda>p. settle_proposal (outcome (pr_entity_id p)) now p) (db_proposals d)"
      by (rule update_where_cong) (use member in blast)
    finally show ?thesis .
  qed
  have counts: "outcome_tally d w job (pr_entity_id ` set pending) outcome st =
      int (count_where (\<lambda>p. pending_of_job w job p \<and> outcome (pr_entity_id p) = st) (db_proposals d))" for st
    unfolding outcome_tally_def by (intro arg_cong [where f = int] count_where_cong) (use member in auto)
  have confirmed: "(\<lambda>i. i \<in> pr_entity_id ` set pending \<and> outcome i = Confirmed) =
      (\<lambda>i. outcome i = Confirmed \<and> (\<exists>p \<in> set (db_proposals d). pending_of_job w job p \<and> pr_entity_id p = i))"
    using pending by (auto simp: fun_eq_iff)
  have range: "\<forall>p \<in> set (db_proposals d). pending_of_job w job p \<longrightarrow> outcome (pr_entity_id p) \<in> {Confirmed, Stale, Invalid}"
    using prog member unfolding progress_def by blast
  show ?thesis
    by (intro exI [of _ outcome] conjI rows range)
      (use prog in \<open>simp_all add: progress_def counts confirmed\<close>)
qed

subsection \<open>Confirmation can be undone\<close>

lemma confirm_entity_tracked:
  assumes t: "tracked d0 w job S d" and ids0: "distinct (map en_id (db_entities d0))"
    and S: "sn_entity_id ` set S \<subseteq> I" and i: "i \<notin> I"
    and run: "confirm_entity errors_of b idf tokens now w job user (i, ps) (rep, d) = Inr (rep', d')"
  shows "\<exists>S'. tracked d0 w job S' d' \<and> sn_entity_id ` set S' \<subseteq> insert i I"
proof -
  have ids: "distinct (map en_id (db_entities d))" using ids0 tracked_ids [OF t] by simp
  have mark: "tracked d0 w job T (mark_entity now w job i st x) \<longleftrightarrow> tracked d0 w job T x" for T st x
    by (simp add: tracked_def mark_entity_def)
  show ?thesis
  proof (cases rule: confirm_entity_cases [OF ids run])
    case (3 e target data)
    let ?d1 = "d\<lparr>db_snapshots := db_snapshots d @ [snapshot_of (idf (en_id e)) now job e]\<rparr>"
    have e: "e \<in> set (db_entities d)" "en_id e = i"
      using 3(2) by (auto elim!: judge_read simp: get_entity_iff [OF ids])
    then have "i \<in> set (map en_id (db_entities d0))" unfolding tracked_ids [OF t, symmetric] by auto
    then obtain r where r: "r \<in> set (db_entities d0)" "en_id r = i" by auto
    have out: "en_id r \<notin> sn_entity_id ` set S" using S i r(2) by auto
    let ?S = "S @ [snapshot_of (idf i) now job r]"
    have t1: "tracked d0 w job ?S ?d1"
      using tracked_snapshot [OF t ids0 r(1) out] 3(3) r(2) by blast
    have mem: "en_id r \<in> sn_entity_id ` set ?S" by (simp add: snapshot_of_def)
    have "tracked d0 w job ?S (confirmed_store idf tokens now job user e target data d)"
      using tracked_write [OF t1 mem, of "migrate_entity (JObj data) (sc_id target) (sc_version target) user (tokens i) now"]
      by (simp add: confirmed_store_def e(2) r(2) frame_def migrate_entity_def)
    then show ?thesis
      using 3(5) S r(2) mark by (intro exI [of _ ?S]) (auto simp: snapshot_of_def)
  qed (use t S mark in blast)+
qed

text \<open>
  Property C26. Confirming is reversible: undoing the job afterwards gives every entity back the data,
  schema and version it had, and no snapshot is reported missing.  When nothing was confirmed, the undo
  is refused and every entity is already as it was.
\<close>

theorem undo_reverts_confirm:
  assumes "distinct (map en_id (db_entities d))"
    and "\<forall>n \<in> set (db_snapshots d). \<not> (sn_workspace_id n = w \<and> sn_job_id n = job)"
    and "confirm_proposals errors_of b idf tokens now d t w job user = Inr (rep, d')"
  shows "case undo_job tokens' now' d' w job of
      Inl e \<Rightarrow> map (\<lambda>e. (frame e, content e)) (db_entities d') = map (\<lambda>e. (frame e, content e)) (db_entities d)
    | Inr ((restored, missing), d'') \<Rightarrow> missing = 0 \<and> restored = length (job_snapshots d' w job) \<and>
        map (\<lambda>e. (frame e, content e)) (db_entities d'') = map (\<lambda>e. (frame e, content e)) (db_entities d)"
proof -
  obtain pending where run: "confirm_entities errors_of b idf tokens now w job user (by_entity pending)
       (\<lparr>cr_confirmed = 0, cr_stale = 0, cr_invalid = 0\<rparr>, d) = Inr (rep, d')"
    using assms(3) by (auto elim: confirm_Inr)
  let ?Q = "\<lambda>I rep x. \<exists>S. tracked d w job S x \<and> sn_entity_id ` set S \<subseteq> I"
  have "?Q ({} \<union> fst ` set (by_entity pending)) rep d'"
    by (rule confirm_entities_rule [OF run])
      (use tracked_refl [of d w job] confirm_entity_tracked [OF _ assms(1)] in \<open>auto simp: by_entity_groups\<close>)
  then obtain S where "tracked d w job S d'" by blast
  then show ?thesis using assms(1,2) by (rule undo_tracked)
qed

section \<open>Histories\<close>

text \<open>
  The histories of a workspace's data, jobs and proposals.  Deleting a workspace deletes its jobs.
  Generated ids are new: they avoid the set \<open>taken\<close>.
\<close>

definition cascade_jobs :: "db \<Rightarrow> inference_jobs \<Rightarrow> inference_jobs" where
  "cascade_jobs d t = delete_where (\<lambda>j. ij_workspace_id j \<notin> wk_id ` set (db_workspaces d)) t"

inductive inference_step :: "schema_validator \<Rightarrow> uuid set \<Rightarrow> db \<times> inference_jobs \<Rightarrow> db \<times> inference_jobs \<Rightarrow> bool"
  for errors_of taken where
  data: "entity_step errors_of d d' \<Longrightarrow> inference_step errors_of taken (d, t) (d', cascade_jobs d' t)"
| created: "create_job now d t i w name = Inr t' \<Longrightarrow> i \<notin> taken \<Longrightarrow> inference_step errors_of taken (d, t) (d, t')"
| claimed: "claim_attempt now t i expected = Inr (ok, t') \<Longrightarrow> inference_step errors_of taken (d, t) (d, t')"
| reconciled: "reconcile_attempt now t i a = Inr (ok, t') \<Longrightarrow> inference_step errors_of taken (d, t) (d, t')"
| completed: "complete_proposals_attempt now t i a n m = (ok, t') \<Longrightarrow> inference_step errors_of taken (d, t) (d, t')"
| failed: "fail_attempt now t i a msg = (ok, t') \<Longrightarrow> inference_step errors_of taken (d, t) (d, t')"
| retried: "retry_job now t i msg a = (ok, t') \<Longrightarrow> inference_step errors_of taken (d, t) (d, t')"
| recorded: "record_batches b fresh now t w i a s v gs (\<lparr>pt_store = d, pt_aborted = False\<rparr>, 0, 0) = Inr (x, n, m) \<Longrightarrow>
     (\<forall>e f. fresh e f \<notin> taken) \<Longrightarrow> inference_step errors_of taken (d, t) (commit_proposals d x, t)"
| rejected: "reject_proposals now d t w i = Inr (n, d') \<Longrightarrow> inference_step errors_of taken (d, t) (d', t)"
| discarded: "discard_proposals now d t w i = Inr (n, d') \<Longrightarrow> inference_step errors_of taken (d, t) (d', t)"
| confirmed: "confirm_proposals errors_of b idf tokens now d t w i user = Inr (rep, d') \<Longrightarrow>
     inference_step errors_of taken (d, t) (d', t)"

subsection \<open>The jobs\<close>

text \<open>A statement on the jobs that keeps the id, the workspace and never lowers the attempt.\<close>

definition advances :: "inference_jobs \<Rightarrow> inference_jobs \<Rightarrow> bool" where
  "advances t t' \<longleftrightarrow> list_all2 (\<lambda>j j'. ij_id j' = ij_id j \<and> ij_attempt j \<le> ij_attempt j') t t'"

lemma update_jobs_Inr:
  "update_jobs p f t = Inr (n, t') \<longleftrightarrow> t' = update_where p f t \<and> n = count_where p t \<and>
     distinct (map ij_workspace_id (running_jobs t'))"
  by (auto simp: update_jobs_def Let_def)

lemma advances_update:
  "(\<And>j. j \<in> set t \<Longrightarrow> p j \<Longrightarrow> ij_id (f j) = ij_id j \<and> ij_attempt j \<le> ij_attempt (f j)) \<Longrightarrow> advances t (update_where p f t)"
  by (auto simp: advances_def update_where_def list_all2_map2 list_all2_same)

lemma advances_refl: "advances t t"
  by (simp add: advances_def list_all2_same)

lemma advances_ids: "advances t t' \<Longrightarrow> map ij_id t' = map ij_id t"
  by (auto simp: advances_def list_all2_conv_all_nth intro!: nth_equalityI)

lemma claim_advances:
  assumes "claim_attempt now t i expected = Inr (ok, t')" "jobs_ok t"
  shows "jobs_ok t' \<and> advances t t'"
proof -
  let ?p = "\<lambda>j. ij_id j = i \<and> ij_status j = JobQueued \<and> (case expected of None \<Rightarrow> True | Some a \<Rightarrow> ij_attempt j = a)"
  let ?f = "\<lambda>j. j\<lparr>ij_status := JobRunning, ij_attempt := ij_attempt j + 1, ij_updated_at := now\<rparr>"
  have t': "t' = update_where ?p ?f t" "distinct (map ij_workspace_id (running_jobs t'))"
    using assms(1) by (auto simp: claim_attempt_def Let_def rbind_Inr_iff update_jobs_Inr split: if_splits)
  have "advances t t'" unfolding t'(1) by (rule advances_update) simp
  then show ?thesis using t'(2) assms(2) advances_ids [of t t'] by (simp add: jobs_ok_def)
qed

lemma reconcile_advances:
  assumes "reconcile_attempt now t i a = Inr (ok, t')" "jobs_ok t"
  shows "jobs_ok t' \<and> advances t t'"
proof -
  let ?retry = "update_where (\<lambda>j. ij_id j = i \<and> ij_status j = JobFailed \<and> ij_attempt j = a)
      (\<lambda>j. j\<lparr>ij_status := JobRunning, ij_error := None, ij_updated_at := now\<rparr>) t"
  let ?next = "update_where (\<lambda>j. ij_id j = i \<and> ij_attempt j = a - 1 \<and> ij_status j \<in> {JobQueued, JobRunning, JobFailed})
      (\<lambda>j. j\<lparr>ij_status := JobRunning, ij_attempt := a, ij_updated_at := now\<rparr>) t"
  have t': "t' = t \<or> (t' = ?retry \<or> t' = ?next) \<and> distinct (map ij_workspace_id (running_jobs t'))"
    using assms(1) by (auto simp: reconcile_attempt_def rbind_Inr_iff update_jobs_Inr split: if_splits)
  have "advances t ?retry" "advances t ?next" by (rule advances_update, simp)+
  then have "advances t t'" using t' advances_refl by blast
  then show ?thesis using t' assms(2) advances_ids [of t t'] by (auto simp: jobs_ok_def)
qed

lemma settle_advances:
  assumes "settle_job i a f t = (ok, t')" "jobs_ok t"
    and "\<And>j. ij_id (f j) = ij_id j \<and> ij_attempt (f j) = ij_attempt j \<and> ij_status (f j) \<noteq> JobRunning"
  shows "jobs_ok t' \<and> advances t t'"
proof -
  have t': "t' = update_where (owned_attempt i a) f t" using assms(1) by (simp add: settle_job_def)
  have adv: "advances t t'" unfolding t' by (rule advances_update) (use assms(3) in simp)
  have "running_jobs t' = filter (\<lambda>j. \<not> owned_attempt i a j) (running_jobs t)"
    unfolding t' by (induction t) (use assms(3) in \<open>auto simp: running_jobs_def select_where_def update_where_def\<close>)
  then have "distinct (map ij_workspace_id (running_jobs t'))"
    using assms(2) by (simp add: jobs_ok_def distinct_map_filter)
  then show ?thesis using adv assms(2) advances_ids [OF adv] by (simp add: jobs_ok_def)
qed

lemma cascade_jobs_ok:
  assumes "jobs_ok t"
  shows "jobs_ok (cascade_jobs d t)"
proof -
  have "running_jobs (delete_where p t) = delete_where p (running_jobs t)" for p
    by (simp add: running_jobs_def select_where_def delete_where_def conj_commute)
  then show ?thesis using assms by (simp add: jobs_ok_def cascade_jobs_def distinct_key_delete)
qed

lemma create_job_ok: "create_job now d t i w name = Inr t' \<Longrightarrow> jobs_ok t \<Longrightarrow> jobs_ok t'"
  by (auto simp: create_job_def jobs_ok_def running_jobs_def select_where_def split: if_splits)

lemmas settle_defs = complete_proposals_attempt_def fail_attempt_def retry_job_def

lemma jobs_step:
  assumes "inference_step errors_of taken s s'" "jobs_ok (snd s)"
  shows "jobs_ok (snd s') \<and> (\<forall>j' \<in> set (snd s'). ij_id j' \<in> taken \<longrightarrow>
    (\<exists>j \<in> set (snd s). ij_id j = ij_id j' \<and> ij_attempt j \<le> ij_attempt j'))"
proof -
  have adv: "\<exists>j \<in> set t. ij_id j = ij_id j' \<and> ij_attempt j \<le> ij_attempt j'"
    if "advances t t'" "j' \<in> set t'" for t t' j'
    using that by (fastforce simp: advances_def list_all2_conv_all_nth in_set_conv_nth)
  show ?thesis
    using assms
  proof (induction rule: inference_step.induct)
    case (data d d' t)
    then show ?case by (auto simp: cascade_jobs_ok) (auto simp: cascade_jobs_def table_simps)
  next
    case (created now d t i w name t')
    then have "\<forall>j' \<in> set t'. j' \<in> set t \<or> ij_id j' = i"
      by (auto simp: create_job_def split: if_splits)
    then show ?case using created create_job_ok by fastforce
  next
    case claimed
    then show ?case using claim_advances adv by fastforce
  next
    case reconciled
    then show ?case using reconcile_advances adv by fastforce
  next
    case (completed now t i a n m ok t' d)
    then have "jobs_ok t' \<and> advances t t'" unfolding settle_defs by (auto elim!: settle_advances [where t = t])
    then show ?case using adv by fastforce
  next
    case (failed now t i a msg ok t' d)
    then have "jobs_ok t' \<and> advances t t'" unfolding settle_defs by (auto elim!: settle_advances [where t = t])
    then show ?case using adv by fastforce
  next
    case (retried now t i msg a ok t' d)
    then have "jobs_ok t' \<and> advances t t'" unfolding settle_defs by (auto elim!: settle_advances [where t = t])
    then show ?case using adv by fastforce
  qed auto
qed

subsection \<open>The proposals\<close>

text \<open>The delivery key and the id are unique.\<close>

definition proposals_ok :: "db \<Rightarrow> bool" where
  "proposals_ok d \<longleftrightarrow> distinct (map pr_id (db_proposals d)) \<and> distinct (map delivery_key (db_proposals d))"

text \<open>
  What a step may do to the proposals: remove some, settle pending ones, add pending ones under new ids.
\<close>

definition proposals_move :: "uuid set \<Rightarrow> db \<Rightarrow> db \<Rightarrow> bool" where
  "proposals_move taken d d' \<longleftrightarrow>
     (\<forall>p' \<in> set (db_proposals d'). pr_id p' \<in> taken \<longrightarrow>
        (\<exists>p \<in> set (db_proposals d). p' = p \<or> pr_status p = Pending \<and> (\<exists>st now. p' = settle_proposal st now p)))"

lemma move_refl: "proposals_move taken d d"
  by (auto simp: proposals_move_def)

lemma insert_proposals_keys:
  assumes "insert_proposals b rs (x, n) = Inr (x', n')" "proposals_ok (pt_store x)"
  shows "proposals_ok (pt_store x') \<and> (\<exists>new. set new \<subseteq> set rs \<and> n' = n + int (length new) \<and>
    pt_store x' = (pt_store x)\<lparr>db_proposals := db_proposals (pt_store x) @ new\<rparr>)"
  using assms
proof (induction rs arbitrary: x n)
  case Nil
  then show ?case by (auto intro!: exI [of _ "[]"])
next
  case (Cons r rs)
  then obtain x1 n1 where one: "insert_proposal b r (x, n) = Inr (x1, n1)"
    and rest: "insert_proposals b rs (x1, n1) = Inr (x', n')"
    by (auto simp: rbind_Inr_iff)
  have x1: "pt_store x1 = pt_store x \<and> n1 = n \<or>
      pt_store x1 = (pt_store x)\<lparr>db_proposals := db_proposals (pt_store x) @ [r]\<rparr> \<and> n1 = n + 1 \<and>
      pr_id r \<notin> pr_id ` set (db_proposals (pt_store x)) \<and> delivery_key r \<notin> delivery_key ` set (db_proposals (pt_store x))"
    using one by (auto simp: insert_proposal_def split: if_splits)
  then have ok1: "proposals_ok (pt_store x1)" using Cons.prems(2) by (auto simp: proposals_ok_def)
  obtain new where new: "proposals_ok (pt_store x')" "set new \<subseteq> set rs" "n' = n1 + int (length new)"
    "pt_store x' = (pt_store x1)\<lparr>db_proposals := db_proposals (pt_store x1) @ new\<rparr>"
    using Cons.IH [OF rest ok1] by blast
  from x1 show ?case
  proof
    assume "pt_store x1 = pt_store x \<and> n1 = n"
    then show ?thesis using new by auto
  next
    assume "pt_store x1 = (pt_store x)\<lparr>db_proposals := db_proposals (pt_store x) @ [r]\<rparr> \<and> n1 = n + 1 \<and>
      pr_id r \<notin> pr_id ` set (db_proposals (pt_store x)) \<and> delivery_key r \<notin> delivery_key ` set (db_proposals (pt_store x))"
    then show ?thesis using new by (auto intro!: exI [of _ "r # new"])
  qed
qed

text \<open>The rows a list of answered entities asks for.\<close>

definition answer_rows ::
  "(uuid \<Rightarrow> string \<Rightarrow> uuid) \<Rightarrow> instant \<Rightarrow> uuid \<Rightarrow> uuid \<Rightarrow> uuid \<Rightarrow> int \<Rightarrow> (uuid \<times> (string \<times> json) list) list \<Rightarrow> proposal_row set" where
  "answer_rows fresh now w job s v gs =
     {proposal_of fresh now w job s v (fst g, f, a) | g f a. g \<in> set gs \<and> (f, a) \<in> set (snd g)}"

lemma record_batch_Inr:
  assumes "record_batch_attempt b fresh now t x w job a s v (map (\<lambda>(f, a). (fst g, f, a)) (snd g)) = Inr (x', n)"
    "proposals_ok (pt_store x)"
  shows "proposals_ok (pt_store x') \<and> (\<exists>new. set new \<subseteq> answer_rows fresh now w job s v [g] \<and> n = int (length new) \<and>
    pt_store x' = (pt_store x)\<lparr>db_proposals := db_proposals (pt_store x) @ new\<rparr>)"
proof -
  let ?rows = "map (proposal_of fresh now w job s v) (map (\<lambda>(f, a). (fst g, f, a)) (snd g))"
  have "insert_proposals b ?rows (x, 0) = Inr (x', n)"
    using assms(1) by (auto simp: record_batch_attempt_def rbind_Inr_iff split: if_splits)
  moreover have "set ?rows \<subseteq> answer_rows fresh now w job s v [g]"
    by (cases g) (auto simp: answer_rows_def)
  ultimately show ?thesis using insert_proposals_keys [OF _ assms(2)] by fastforce
qed

lemma record_batches_Inr:
  assumes "record_batches b fresh now t w job a s v gs (x, n, m) = Inr (x', n', m')" "proposals_ok (pt_store x)"
  shows "proposals_ok (pt_store x') \<and> (\<exists>new. set new \<subseteq> answer_rows fresh now w job s v gs \<and> n' = n + int (length new) \<and>
    pt_store x' = (pt_store x)\<lparr>db_proposals := db_proposals (pt_store x) @ new\<rparr>)"
  using assms
proof (induction gs arbitrary: x n m)
  case Nil
  then show ?case by (auto intro!: exI [of _ "[]"])
next
  case (Cons g gs)
  obtain x1 k where one: "record_batch_attempt b fresh now t x w job a s v (map (\<lambda>(f, a). (fst g, f, a)) (snd g)) = Inr (x1, k)"
    and rest: "record_batches b fresh now t w job a s v gs (x1, n + k, if k = 0 then m + 1 else m) = Inr (x', n', m')"
    using Cons.prems(1) by (auto simp: rbind_Inr_iff split: if_splits)
  obtain new where new: "proposals_ok (pt_store x1)" "set new \<subseteq> answer_rows fresh now w job s v [g]" "k = int (length new)"
    "pt_store x1 = (pt_store x)\<lparr>db_proposals := db_proposals (pt_store x) @ new\<rparr>"
    using record_batch_Inr [OF one Cons.prems(2)] by blast
  obtain new' where new': "proposals_ok (pt_store x')" "set new' \<subseteq> answer_rows fresh now w job s v gs"
    "n' = n + k + int (length new')" "pt_store x' = (pt_store x1)\<lparr>db_proposals := db_proposals (pt_store x1) @ new'\<rparr>"
    using Cons.IH [OF rest new(1)] by blast
  have "answer_rows fresh now w job s v [g] \<union> answer_rows fresh now w job s v gs \<subseteq> answer_rows fresh now w job s v (g # gs)"
    by (fastforce simp: answer_rows_def)
  then show ?case using new new' by (intro conjI exI [of _ "new @ new'"]) auto
qed

interpretation settling: key_preserving pr_id "\<lambda>p. settle_proposal (st p) now p" for st now
  by unfold_locales (simp add: settle_proposal_def)

interpretation settling_key: key_preserving delivery_key "\<lambda>p. settle_proposal (st p) now p" for st now
  by unfold_locales (simp add: settle_proposal_def delivery_key_def)

lemma settle_proposals:
  assumes "db_proposals d' = update_where p (\<lambda>r. settle_proposal (st r) now r) (db_proposals d)"
    and "\<And>r. p r \<Longrightarrow> pr_status r = Pending" and "proposals_ok d"
  shows "proposals_ok d' \<and> proposals_move taken d d'"
proof -
  have "proposals_ok d'"
    using assms(3) by (simp add: proposals_ok_def assms(1) settling.keys_update_where settling_key.keys_update_where)
  moreover have "proposals_move taken d d'"
    using assms(2) by (fastforce simp: proposals_move_def assms(1) table_simps)
  ultimately show ?thesis by simp
qed

lemma schema_step_proposals: "schema_step d d' \<Longrightarrow> \<exists>keep. db_proposals d' = filter keep (db_proposals d)"
proof (induction rule: schema_step.induct)
  case (create p i now d t w def tmpl snap r d')
  then have "db_proposals d' = db_proposals d" by (cases r) (auto dest: create_schema_Inr(16))
  then show ?case by (auto intro: exI [of _ "\<lambda>_. True"])
qed (auto simp: archive_def delete_schema_def delete_workspace_def notify_upstream_change_def Let_def rbind_Inr_iff
    delete_where_def split: if_splits intro: exI [of _ "\<lambda>_. True"])

lemma undo_fold_proposals: "fold (undo_one tokens now) S (d, a, b) = (d', a', b') \<Longrightarrow> db_proposals d' = db_proposals d"
proof (induction S arbitrary: d a b)
  case (Cons n S)
  obtain d1 a1 b1 where one: "undo_one tokens now n (d, a, b) = (d1, a1, b1)" by (rule prod_cases3)
  then have "db_proposals d1 = db_proposals d" by (auto simp: undo_one_def split: if_splits)
  then show ?case using Cons one by simp
qed simp

lemma entity_step_proposals: "entity_step errors_of d d' \<Longrightarrow> \<exists>keep. db_proposals d' = filter keep (db_proposals d)"
proof (induction rule: entity_step.induct)
  case schema
  then show ?case by (rule schema_step_proposals)
next
  case (undo tokens now d w job r d')
  then obtain a b where "fold (undo_one tokens now) (job_snapshots d w job) (d, 0, 0) = (d', a, b)"
    by (cases r) (auto simp: undo_job_def Let_def split: if_splits prod.splits)
  then have "db_proposals d' = db_proposals d" by (rule undo_fold_proposals)
  then show ?case by (auto intro: exI [of _ "\<lambda>_. True"])
next
  case (update token now d w uinput row d')
  then have "db_proposals d' = db_proposals d"
    by (auto simp: update_entity_def save_entity_def Let_def rbind_Inr_iff split: if_splits option.splits)
  then show ?case by (auto intro: exI [of _ "\<lambda>_. True"])
qed (auto simp: create_with_quota_def insert_entity_def delete_entity_def snapshot_def insert_snapshot_def
    delete_snapshot_def Let_def rbind_Inr_iff split: if_splits intro: exI [of _ "\<lambda>_. True"])

lemma transition_moves:
  assumes "entity_inv errors_of d" "proposals_ok d"
  shows "entity_inv errors_of (snd (transition_pending now d w i st)) \<and>
    proposals_ok (snd (transition_pending now d w i st)) \<and> proposals_move taken d (snd (transition_pending now d w i st))"
proof -
  have "proposals_ok (snd (transition_pending now d w i st)) \<and> proposals_move taken d (snd (transition_pending now d w i st))"
    by (rule settle_proposals [where p = "pending_of_job w i" and st = "\<lambda>_. st"])
      (use assms(2) in \<open>auto simp: transition_pending_def pending_of_job_def\<close>)
  then show ?thesis using assms(1) by (simp add: transition_pending_def entity_inv_proposals)
qed

lemma proposals_step:
  assumes "inference_step errors_of taken (d, t) (d', t')" "entity_inv errors_of d" "proposals_ok d"
  shows "entity_inv errors_of d' \<and> proposals_ok d' \<and> proposals_move taken d d'"
  using assms(1)
proof cases
  case data
  obtain keep where "db_proposals d' = filter keep (db_proposals d)" using entity_step_proposals [OF data(2)] by blast
  then show ?thesis
    using entity_step_inv [OF data(2) assms(2)] assms(3)
    by (auto simp: proposals_ok_def proposals_move_def distinct_map_filter)
next
  case (recorded b fresh now w i a s v gs x n m)
  have ok: "proposals_ok (pt_store \<lparr>pt_store = d, pt_aborted = False\<rparr>)" using assms(3) by simp
  obtain new where new: "proposals_ok (pt_store x)" "set new \<subseteq> answer_rows fresh now w i s v gs"
    "pt_store x = d\<lparr>db_proposals := db_proposals d @ new\<rparr>"
    using record_batches_Inr [OF recorded(3) ok] by auto
  have "proposals_move taken d (pt_store x)"
    using new(2) recorded(4) by (auto simp: proposals_move_def new(3) answer_rows_def proposal_of_def)
  then show ?thesis
    using new assms(2,3) recorded(1) move_refl by (simp add: commit_proposals_def entity_inv_proposals)
next
  case (rejected now w i n)
  then have "d' = snd (transition_pending now d w i Rejected)" by (auto simp: reject_proposals_def rbind_Inr_iff)
  then show ?thesis using transition_moves [OF assms(2,3)] by simp
next
  case (discarded now w i n)
  then have "d' = snd (transition_pending now d w i Discarded)" by (auto simp: discard_proposals_def rbind_Inr_iff)
  then show ?thesis using transition_moves [OF assms(2,3)] by simp
next
  case (confirmed b idf tokens now w i user rep)
  obtain pending outcome where "set pending = {p \<in> set (db_proposals d). pending_of_job w i p}"
    and "progress now d w i (pr_entity_id ` set pending) outcome rep d'"
    by (rule confirm_progress [OF assms(2) confirmed(2)])
  then have "db_proposals d' = update_where (\<lambda>p. pending_of_job w i p \<and> pr_entity_id p \<in> pr_entity_id ` set pending)
      (\<lambda>p. settle_proposal (outcome (pr_entity_id p)) now p) (db_proposals d)"
    by (simp add: progress_def)
  from settle_proposals [OF this _ assms(3)] show ?thesis
    using confirm_inv [OF assms(2) confirmed(2)] by (auto simp: pending_of_job_def)
qed (use assms move_refl in auto)

subsection \<open>Properties of histories\<close>

definition inference_inv :: "schema_validator \<Rightarrow> db \<times> inference_jobs \<Rightarrow> bool" where
  "inference_inv errors_of s \<longleftrightarrow> entity_inv errors_of (fst s) \<and> proposals_ok (fst s) \<and> jobs_ok (snd s)"

lemma inference_step_inv:
  "inference_step errors_of taken s s' \<Longrightarrow> inference_inv errors_of s \<Longrightarrow> inference_inv errors_of s'"
  using jobs_step [of errors_of taken s s'] proposals_step [of errors_of taken "fst s" "snd s" "fst s'" "snd s'"]
  by (simp add: inference_inv_def)

lemma inference_run_inv:
  "(inference_step errors_of taken)\<^sup>*\<^sup>* s s' \<Longrightarrow> inference_inv errors_of s \<Longrightarrow> inference_inv errors_of s'"
  by (induction rule: rtranclp_induct) (auto intro: inference_step_inv)


lemma move_settled:
  assumes "proposals_ok d" "proposals_move taken d d'"
    and "\<forall>q \<in> set (db_proposals d). pr_id q = pr_id p \<longrightarrow> q = p" "pr_id p \<in> taken" "pr_status p \<noteq> Pending"
  shows "\<forall>q \<in> set (db_proposals d'). pr_id q = pr_id p \<longrightarrow> q = p"
proof (intro ballI impI)
  fix q
  assume q: "q \<in> set (db_proposals d')" "pr_id q = pr_id p"
  then obtain r where r: "r \<in> set (db_proposals d)"
    "q = r \<or> pr_status r = Pending \<and> (\<exists>st now. q = settle_proposal st now r)"
    using assms(2,4) unfolding proposals_move_def by metis
  have "pr_id r = pr_id q" using r(2) by (auto simp: settle_proposal_def)
  then have "r = p" using assms(3) r(1) q(2) by simp
  then show "q = p" using r(2) assms(5) by auto
qed

text \<open>
  A decision on a proposal is final: once a proposal is confirmed, rejected, discarded, stale or
  invalid, no later operation on entities, schemas, jobs or proposals changes it; it can only disappear
  with its workspace.
\<close>

theorem settled_proposal_final:
  assumes "(inference_step errors_of taken)\<^sup>*\<^sup>* (d, t) (d', t')" "inference_inv errors_of (d, t)"
    and "p \<in> set (db_proposals d)" "pr_status p \<noteq> Pending" "pr_id p \<in> taken"
    and "q \<in> set (db_proposals d')" "pr_id q = pr_id p"
  shows "q = p"
proof -
  have start: "\<forall>q \<in> set (db_proposals d). pr_id q = pr_id p \<longrightarrow> q = p"
    using assms(2,3) distinct_key_unique [of pr_id "db_proposals d" _ p]
    by (auto simp: inference_inv_def proposals_ok_def)
  have "inference_inv errors_of (d', t') \<and> (\<forall>q \<in> set (db_proposals d'). pr_id q = pr_id p \<longrightarrow> q = p)"
    using assms(1)
  proof (induction "(d', t')" arbitrary: d' t' rule: rtranclp_induct)
    case base
    then show ?case using assms(2) start by simp
  next
    case (step s)
    obtain x y where s: "s = (x, y)" by (cases s)
    have ih: "inference_inv errors_of (x, y)" "\<forall>q \<in> set (db_proposals x). pr_id q = pr_id p \<longrightarrow> q = p"
      using step(3) [OF s] by auto
    have "proposals_move taken x d'"
      using proposals_step [OF step(2) [unfolded s]] ih(1) by (simp add: inference_inv_def)
    then show ?case
      using move_settled [OF _ _ ih(2) assms(5,4)] ih(1) inference_step_inv [OF step(2) [unfolded s] ih(1)]
      by (simp add: inference_inv_def)
  qed
  then show ?thesis using assms(6,7) by blast
qed

lemma attempts_grow:
  assumes "(inference_step errors_of taken)\<^sup>*\<^sup>* s s'" "inference_inv errors_of s" "i \<in> taken"
    and "\<forall>j \<in> set (snd s). ij_id j = i \<longrightarrow> a < ij_attempt j"
  shows "\<forall>j \<in> set (snd s'). ij_id j = i \<longrightarrow> a < ij_attempt j"
  using assms(1)
proof (induction rule: rtranclp_induct)
  case (step x y)
  have "inference_inv errors_of x" using inference_run_inv [OF step(1) assms(2)] .
  then have "\<forall>j' \<in> set (snd y). ij_id j' \<in> taken \<longrightarrow> (\<exists>j \<in> set (snd x). ij_id j = ij_id j' \<and> ij_attempt j \<le> ij_attempt j')"
    using jobs_step [OF step(2)] by (simp add: inference_inv_def)
  then show ?case using step(3) assms(3) by fastforce
qed (use assms(4) in simp)

text \<open>
  A superseded attempt stays fenced: once a job has moved past an attempt, in every later
  history the worker of that attempt can neither record proposals nor complete, fail or requeue the job.
\<close>

theorem superseded_attempt_fenced:
  assumes "(inference_step errors_of taken)\<^sup>*\<^sup>* (d, t) (d', t')" "inference_inv errors_of (d, t)" "i \<in> taken"
    and "\<forall>j \<in> set t. ij_id j = i \<longrightarrow> a < ij_attempt j"
  shows "(\<exists>e. record_batch_attempt b fresh now t' x w i a s v fs = Inl e) \<and>
    complete_proposals_attempt now t' i a n m = (False, t') \<and> fail_attempt now t' i a msg = (False, t') \<and>
    retry_job now t' i msg a = (False, t')"
proof -
  have later: "\<forall>j \<in> set t'. ij_id j = i \<longrightarrow> a < ij_attempt j"
    using attempts_grow [OF assms(1-3)] assms(4) by simp
  then have none: "\<forall>j \<in> set t'. \<not> owned_attempt i a j" by (auto simp: owned_attempt_def)
  then have "count_where (owned_attempt i a) t' = 0" by (simp add: count_where_0)
  then have settle: "settle_job i a f t' = (False, t')" for f
    using none by (simp add: settle_job_def update_where_none)
  have "\<exists>e. record_batch_attempt b fresh now t' x w i a s v fs = Inl e"
  proof (cases "get_job t' i")
    case (Some j)
    then have "j \<in> set t' \<and> ij_id j = i" unfolding get_job_def by (rule find_row_Some)
    then have "ij_attempt j \<noteq> a" using later by auto
    then show ?thesis using Some by (auto simp: record_batch_attempt_def)
  qed (auto simp: record_batch_attempt_def)
  then show ?thesis by (simp add: settle_defs settle)
qed

section \<open>Examples\<close>

text \<open>A completed job with a title for a book on an older version, and one for a book since deleted.\<close>

definition title_proposal :: "uuid \<Rightarrow> uuid \<Rightarrow> proposal_row" where
  "title_proposal i entity = \<lparr>pr_id = i, pr_job_id = 70, pr_workspace_id = 3, pr_entity_id = entity,
     pr_schema_id = 11, pr_schema_version = 2, pr_source_field = ''title'', pr_proposed = JStr ''Emma'',
     pr_status = Pending, pr_created_at = 6, pr_updated_at = 6\<rparr>"

definition fill_job :: "inference_job_status \<Rightarrow> int \<Rightarrow> inference_job_row" where
  "fill_job status attempt = \<lparr>ij_id = 70, ij_workspace_id = 3, ij_schema_name = ''library'', ij_status = status,
     ij_applied = 0, ij_proposed = 2, ij_skipped = 0, ij_error = None, ij_attempt = attempt, ij_created_at = 5,
     ij_updated_at = 6\<rparr>"

definition reviewed :: db where
  "reviewed = older_version\<lparr>db_proposals := [title_proposal 90 50, title_proposal 91 51]\<rparr>"

definition titled :: entity_row where
  "titled = emma\<lparr>en_data := JObj [(''title'', JStr ''Emma'')], en_schema_id := 11, en_schema_version := 2,
     en_embedding_sync_token := ''t1'', en_updated_at := 9\<rparr>"

definition confirmed_review :: db where
  "confirmed_review = reviewed\<lparr>db_entities := [titled], db_snapshots := [snapshot_of 150 9 70 emma],
     db_proposals := [settle_proposal Confirmed 9 (title_proposal 90 50), settle_proposal Stale 9 (title_proposal 91 51)]\<rparr>"

definition half :: db where
  "half = confirmed_review\<lparr>db_proposals :=
     [settle_proposal Confirmed 9 (title_proposal 90 50), title_proposal 91 51]\<rparr>"

lemmas review_defs = reviewed_def older_version_def with_entity_def one_schema_def empty_db_def

lemma reviewed_inv: "inference_inv accept_all (reviewed, [fill_job JobCompleted 1])"
proof -
  have "entity_inv accept_all reviewed"
    by (simp add: entity_inv_def schema_inv_def newest_active_def refs_ok_def owned_schema_def valid_for_def
        accept_all_ok review_defs newer_schema_def followed_schema_def retire_def emma_def schema_key_def
        resolve_entity_type_def sample_definition_def)
  moreover have "proposals_ok reviewed"
    by (simp add: proposals_ok_def reviewed_def title_proposal_def delivery_key_def)
  moreover have "jobs_ok [fill_job JobCompleted 1]"
    by (simp add: jobs_ok_def running_jobs_def select_where_def fill_job_def)
  ultimately show ?thesis by (simp add: inference_inv_def)
qed

lemma reviewed_groups:
  "by_entity (filter (\<lambda>p. pr_status p = Pending) (proposals_for_job reviewed 3 70)) =
     [(50, [title_proposal 90 50]), (51, [title_proposal 91 51])]"
  by (simp add: by_entity_def proposals_for_job_def select_where_def reviewed_def title_proposal_def)

lemma reviewed_confirm:
  "confirm_proposals accept_all b (\<lambda>i. i + 100) (\<lambda>_. ''t1'') 9 reviewed [fill_job JobCompleted 1] 3 70 None =
     Inr (\<lparr>cr_confirmed = 1, cr_stale = 1, cr_invalid = 0\<rparr>, confirmed_review)"
proof -
  have done': "require_completed_job reviewed [fill_job JobCompleted 1] 3 70 = Inr ()"
    by (simp add: require_completed_job_def get_job_def find_row_def fill_job_def reviewed_def title_proposal_def)
  have active: "get_active_schema x 3 ''library'' = Inr newer_schema"
    "get_by_id x 3 11 = Inr newer_schema" if "db_schemas x = db_schemas older_version" for x
    using that older_version_active
    by (auto simp: get_active_schema_def active_versions_def get_by_id_def older_version_def find_row_def
        newer_schema_def followed_schema_def retire_def)
  have judge1: "judge_entity accept_all reviewed 3 50 [title_proposal 90 50] =
      Inr (Confirms emma newer_schema [(''title'', JStr ''Emma'')])"
  proof -
    have "get_entity reviewed 3 50 = Inr emma" by (simp add: get_entity_def find_row_def review_defs emma_def)
    then show ?thesis
      using active [of reviewed]
      by (simp add: judge_entity_def title_proposal_def reviewed_def newer_schema_def followed_schema_def
          stale_entity_def emma_def proposed_data_def sample_definition_def accept_all_ok)
  qed
  have one: "confirm_entity accept_all b (\<lambda>i. i + 100) (\<lambda>_. ''t1'') 9 3 70 None (50, [title_proposal 90 50])
      (\<lparr>cr_confirmed = 0, cr_stale = 0, cr_invalid = 0\<rparr>, reviewed) =
    Inr (\<lparr>cr_confirmed = 1, cr_stale = 0, cr_invalid = 0\<rparr>, half)"
    by (simp add: confirm_entity_def judge1) (simp add: snapshot_def insert_snapshot_def select_where_def review_defs half_def
        confirmed_review_def update_if_unchanged_def ensure_entity_marked_def pending_of_job_def update_where_def
        title_proposal_def emma_def titled_def migrate_entity_def newer_schema_def followed_schema_def Let_def)
  have judge2: "judge_entity accept_all half 3 51 [title_proposal 91 51] = Inr IsStale"
  proof -
    have "get_entity half 3 51 = Inl (NotFound ''entity {} was not found'')"
      by (simp add: get_entity_def find_row_def half_def confirmed_review_def titled_def emma_def)
    then show ?thesis
      using active [of half]
      by (simp add: judge_entity_def title_proposal_def half_def confirmed_review_def reviewed_def newer_schema_def
          followed_schema_def)
  qed
  have two: "confirm_entity accept_all b (\<lambda>i. i + 100) (\<lambda>_. ''t1'') 9 3 70 None (51, [title_proposal 91 51])
      (\<lparr>cr_confirmed = 1, cr_stale = 0, cr_invalid = 0\<rparr>, half) =
    Inr (\<lparr>cr_confirmed = 1, cr_stale = 1, cr_invalid = 0\<rparr>, confirmed_review)"
    by (simp add: confirm_entity_def judge2) (simp add: half_def confirmed_review_def ensure_entity_marked_def
        pending_of_job_def update_where_def title_proposal_def Let_def)
  have "filter (\<lambda>p. pr_status p = Pending) (proposals_for_job reviewed 3 70) \<noteq> []"
    using reviewed_groups by (auto simp: by_entity_def)
  then show ?thesis
    unfolding confirm_proposals_def done' rbind.simps Let_def reviewed_groups
    by (simp add: one two)
qed

theorem confirm_settles_all_witness:
  "\<exists>rep d' outcome.
     confirm_proposals accept_all Postgres (\<lambda>i. i + 100) (\<lambda>_. ''t1'') 9 reviewed [fill_job JobCompleted 1] 3 70 None = Inr (rep, d') \<and>
     cr_confirmed rep = 1 \<and> cr_stale rep = 1 \<and> db_entities d' = [titled] \<and>
     settled_entity reviewed 3 70 (\<lambda>i. outcome i = Confirmed \<and>
        (\<exists>p \<in> set (db_proposals reviewed). pending_of_job 3 70 p \<and> pr_entity_id p = i)) emma titled"
proof -
  have inv: "entity_inv accept_all reviewed" using reviewed_inv by (simp add: inference_inv_def)
  have ents: "db_entities reviewed = [emma]" "db_entities confirmed_review = [titled]"
    by (simp_all add: review_defs confirmed_review_def)
  from confirm_settles_all [OF inv reviewed_confirm [of Postgres], unfolded ents]
  show ?thesis using reviewed_confirm [of Postgres] ents(2) by auto
qed

theorem undo_reverts_confirm_witness:
  "\<exists>rep d' r d''.
     confirm_proposals accept_all Sqlite (\<lambda>i. i + 100) (\<lambda>_. ''t1'') 9 reviewed [fill_job JobCompleted 1] 3 70 None = Inr (rep, d') \<and>
     undo_job (\<lambda>_. ''t2'') 10 d' 3 70 = Inr (r, d'') \<and> map en_data (db_entities d') = [JObj [(''title'', JStr ''Emma'')]] \<and>
     map en_data (db_entities d'') = [JObj []] \<and> map en_schema_version (db_entities d'') = [1]"
proof -
  have ents: "db_entities reviewed = [emma]" "db_entities confirmed_review = [titled]"
    by (simp_all add: review_defs confirmed_review_def)
  have ids: "distinct (map en_id (db_entities reviewed))" by (simp add: ents)
  have none: "\<forall>n \<in> set (db_snapshots reviewed). \<not> (sn_workspace_id n = 3 \<and> sn_job_id n = 70)"
    by (simp add: review_defs)
  show ?thesis
    using undo_reverts_confirm [OF ids none reviewed_confirm [of Sqlite], of "\<lambda>_. ''t2''" 10] reviewed_confirm [of Sqlite]
    by (cases "undo_job (\<lambda>_. ''t2'') 10 confirmed_review 3 70")
      (auto simp: ents emma_def titled_def content_def split: prod.splits)
qed

lemma reviewed_run:
  "(inference_step accept_all {70, 90, 91})\<^sup>*\<^sup>* (reviewed, [fill_job JobCompleted 1]) (confirmed_review, [fill_job JobCompleted 1])"
  using inference_step.confirmed [OF reviewed_confirm] by blast

lemma confirmed_review_inv: "inference_inv accept_all (confirmed_review, [fill_job JobCompleted 1])"
  by (rule inference_run_inv [OF reviewed_run reviewed_inv])


text \<open>After the confirmation, discarding the job changes nothing.\<close>

theorem settled_proposal_final_witness:
  "\<exists>n d'. discard_proposals 12 confirmed_review [fill_job JobCompleted 1] 3 70 = Inr (n, d') \<and>
     (\<forall>q \<in> set (db_proposals d'). pr_id q = 90 \<longrightarrow> q = settle_proposal Confirmed 9 (title_proposal 90 50))"
proof -
  obtain n d' where disc: "discard_proposals 12 confirmed_review [fill_job JobCompleted 1] 3 70 = Inr (n, d')"
    by (simp add: discard_proposals_def transition_pending_def require_completed_job_def get_job_def find_row_def
        fill_job_def confirmed_review_def title_proposal_def)
  have run: "(inference_step accept_all {70, 90, 91})\<^sup>*\<^sup>* (confirmed_review, [fill_job JobCompleted 1]) (d', [fill_job JobCompleted 1])"
    using inference_step.discarded [OF disc] by blast
  let ?p = "settle_proposal Confirmed 9 (title_proposal 90 50)"
  have p: "?p \<in> set (db_proposals confirmed_review)" "pr_status ?p \<noteq> Pending" "pr_id ?p \<in> {70, 90, 91}" "pr_id ?p = 90"
    by (simp_all add: confirmed_review_def settle_proposal_def title_proposal_def)
  have "q = ?p" if "q \<in> set (db_proposals d')" "pr_id q = 90" for q
    by (rule settled_proposal_final [OF run confirmed_review_inv p(1-3) that(1)]) (simp add: that(2) p(4))
  then show ?thesis using disc by blast
qed

text \<open>A job recovered under its second attempt: the first attempt's worker is fenced after the job completes.\<close>

theorem superseded_attempt_fenced_witness:
  "fail_attempt 20 [fill_job JobRunning 2] 70 1 ''late'' = (False, [fill_job JobRunning 2]) \<and>
   (\<exists>e. record_batch_attempt Sqlite (\<lambda>_ _. 95) 20 [fill_job JobRunning 2] \<lparr>pt_store = reviewed, pt_aborted = False\<rparr>
      3 70 1 11 2 [(50, ''title'', JStr ''late'')] = Inl e)"
proof -
  have inv: "inference_inv accept_all (reviewed, [fill_job JobRunning 2])"
    using reviewed_inv by (simp add: inference_inv_def jobs_ok_def running_jobs_def select_where_def fill_job_def)
  show ?thesis
    using superseded_attempt_fenced [OF rtranclp.rtrancl_refl inv, of 70 "{70}" 1] by (simp add: fill_job_def)
qed

text \<open>
  Recording the same answers again after a crash: on SQLite the second delivery stores nothing more and
  counts nothing; on PostgreSQL the first duplicate aborts the transaction, so the next field is an error.
\<close>

definition redelivered :: "(uuid \<times> string \<times> json) list" where
  "redelivered = [(50, ''title'', JStr ''Emma''), (51, ''title'', JStr ''Emma'')]"

theorem redelivery_aborts_on_postgres:
  "record_batch_attempt Sqlite (\<lambda>e _. e) 8 [fill_job JobRunning 2] \<lparr>pt_store = reviewed, pt_aborted = False\<rparr>
     3 70 2 11 2 redelivered = Inr (\<lparr>pt_store = reviewed, pt_aborted = False\<rparr>, 0) \<and>
   record_batch_attempt Postgres (\<lambda>e _. e) 8 [fill_job JobRunning 2] \<lparr>pt_store = reviewed, pt_aborted = False\<rparr>
     3 70 2 11 2 redelivered = Inl (Internal ''current transaction is aborted'')"
  by (simp add: record_batch_attempt_def redelivered_def get_job_def find_row_def fill_job_def proposal_of_def
      insert_proposal_def reviewed_def title_proposal_def delivery_key_def)

end
