(* ===== verification/Infer_Fill.thy ===== *)
theory Infer_Fill
  imports Inference_Proposals Dispatch_Outbox Access
begin

text \<open>
  The infer-fill worker: \<open>ee/data/provider.rs\<close>, \<open>ee/models/workspace_llm_keys.rs\<close>,
  \<open>ee/services/inference.rs\<close> and \<open>ee/workers/infer_fill.rs\<close>, on the jobs and proposals of
  \<open>Inference_Proposals\<close>, the lifecycles and the dispatch outbox, and the access decisions.

  The HTTP exchange with the provider is a parameter, and so are the rendering of an error, the
  serialised arguments, and what every other worker and the heartbeat do while the provider answers
  (\<open>ev_meanwhile\<close>): the worker holds no transaction open across its calls.
\<close>

section \<open>Credentials\<close>

text \<open>\<open>trim_end_matches\<close> of one character.\<close>

definition trim_end_char :: "char \<Rightarrow> string \<Rightarrow> string" where
  "trim_end_char c s = rev (dropWhile (\<lambda>x. x = c) (rev s))"

definition starts_with :: "string \<Rightarrow> string \<Rightarrow> bool" where
  "starts_with p s \<longleftrightarrow> take (length p) s = p"

definition validate_credentials :: "string \<Rightarrow> string \<Rightarrow> string result" where
  "validate_credentials base_url api_key =
     (if trim api_key = [] then Inl (ValidationFailed ''api_key must not be empty'' [])
      else let base_url = trim_end_char (CHR ''/'') (trim base_url) in
        if \<not> starts_with ''http://'' base_url \<and> \<not> starts_with ''https://'' base_url
        then Inl (ValidationFailed ''base_url must start with http:// or https://'' [])
        else Inr base_url)"

record inference_config =
  ic_base_url :: string
  ic_model :: string
  ic_api_key :: string

record llm_key_row =
  lk_workspace_id :: uuid
  lk_base_url :: string
  lk_model :: string
  lk_api_key :: string
  lk_created_at :: instant
  lk_updated_at :: instant

definition set_llm_key ::
  "instant \<Rightarrow> llm_key_row list \<Rightarrow> uuid \<Rightarrow> string \<Rightarrow> string \<Rightarrow> string \<Rightarrow> llm_key_row list result" where
  "set_llm_key now t workspace_id base_url model api_key =
     rbind (validate_credentials base_url api_key) (\<lambda>base_url.
     let row = \<lparr>lk_workspace_id = workspace_id, lk_base_url = base_url, lk_model = model,
                lk_api_key = api_key, lk_created_at = now, lk_updated_at = now\<rparr>;
         mine = (\<lambda>r. lk_workspace_id r = workspace_id)
     in Inr (if \<exists>r \<in> set t. mine r then update_where mine (\<lambda>r. row\<lparr>lk_created_at := lk_created_at r\<rparr>) t else t @ [row]))"

definition clear_llm_key :: "llm_key_row list \<Rightarrow> uuid \<Rightarrow> llm_key_row list" where
  "clear_llm_key t workspace_id = delete_where (\<lambda>r. lk_workspace_id r = workspace_id) t"

text \<open>The description of the endpoint and the model; the key is not among the columns read.\<close>

definition describe_llm_key :: "llm_key_row list \<Rightarrow> uuid \<Rightarrow> (string \<times> string \<times> bool) option" where
  "describe_llm_key t workspace_id =
     map_option (\<lambda>r. (lk_base_url r, lk_model r, True)) (find_row (\<lambda>r. lk_workspace_id r = workspace_id) t)"

definition get_llm_key :: "llm_key_row list \<Rightarrow> uuid \<Rightarrow> inference_config option" where
  "get_llm_key t workspace_id =
     map_option (\<lambda>r. \<lparr>ic_base_url = lk_base_url r, ic_model = lk_model r, ic_api_key = lk_api_key r\<rparr>)
       (find_row (\<lambda>r. lk_workspace_id r = workspace_id) t)"

section \<open>The inference client\<close>

text \<open>
  What an exchange yields: a failure to send, or a reply with its status, its \<open>Retry-After\<close> header as a
  number when it is one, and its body: unreadable, not a chat response, or the contents of its choices.
\<close>

datatype reply_body = Unread string | Undecodable | Choices "string list"

datatype http_reply = SendFailed string | Replied nat "nat option" reply_body

definition MAX_RETRY_AFTER_SECONDS :: nat where "MAX_RETRY_AFTER_SECONDS = 60"
definition DEFAULT_RETRY_AFTER :: nat where "DEFAULT_RETRY_AFTER = 5"

definition retry_after :: "nat \<Rightarrow> nat option \<Rightarrow> nat option" where
  "retry_after status header =
     (if status \<noteq> 429 \<and> status \<noteq> 503 then None
      else Some (case header of Some secs \<Rightarrow> min secs MAX_RETRY_AFTER_SECONDS | None \<Rightarrow> DEFAULT_RETRY_AFTER))"

text \<open>\<open>str::replace\<close> of a non-empty pattern.\<close>

function replace_all :: "string \<Rightarrow> string \<Rightarrow> string \<Rightarrow> string" where
  "replace_all p r s =
     (case s of
        [] \<Rightarrow> []
      | c # rest \<Rightarrow>
          (case strip_prefix p s of
             Some after \<Rightarrow> if p = [] then s else r @ replace_all p r after
           | None \<Rightarrow> c # replace_all p r rest))"
  by pat_completeness auto
termination
  by (relation "measure (\<lambda>(p, r, s). length s)") (auto simp: strip_prefix_Some)

declare replace_all.simps [simp del]

definition redact :: "string \<Rightarrow> string \<Rightarrow> string" where
  "redact message secret = (if secret = [] then message else replace_all secret ''[redacted]'' message)"

definition propose_fields ::
  "(string \<Rightarrow> json option) \<Rightarrow> (inference_config \<Rightarrow> json \<Rightarrow> string list \<Rightarrow> http_reply) \<Rightarrow> inference_config \<Rightarrow> json \<Rightarrow>
   string list \<Rightarrow> json btree_map result" where
  "propose_fields parse_json exchange config entity_data missing_fields =
     (if missing_fields = [] then Inr []
      else let config = config\<lparr>ic_base_url := trim_end_char (CHR ''/'') (ic_base_url config)\<rparr>
      in case exchange config entity_data missing_fields of
        SendFailed err \<Rightarrow> Inl (ProviderUnreachable (ic_base_url config) (redact err (ic_api_key config)))
      | Replied status header body \<Rightarrow>
          if \<not> (200 \<le> status \<and> status < 300)
          then (case retry_after status header of
                  Some after \<Rightarrow> Inl (ProviderBusy ''the configured inference provider returned {status}'' after)
                | None \<Rightarrow> Inl (ValidationFailed ''the configured inference provider returned {status}'' []))
          else (case body of
              Unread err \<Rightarrow> Inl (Internal (redact err (ic_api_key config)))
            | Undecodable \<Rightarrow> Inl (Internal ''error decoding response body'')
            | Choices contents \<Rightarrow>
                (case parse_json (case contents of [] \<Rightarrow> ''{}'' | c # _ \<Rightarrow> c) of
                   Some (JObj object) \<Rightarrow> Inr (filter (\<lambda>(k, v). k \<in> set missing_fields) object)
                 | _ \<Rightarrow> Inl (ValidationFailed ''the inference provider did not answer with a JSON object'' []))))"

section \<open>The worker\<close>

record infer_fill_args =
  ia_actor :: auth_context
  ia_lifecycle_id :: "uuid option"
  ia_job_id :: uuid
  ia_workspace_id :: uuid
  ia_schema_name :: string

record infer_state =
  is_identity :: identity_db
  is_queue :: queue_store
  is_jobs :: inference_jobs
  is_llm_keys :: "llm_key_row list"

abbreviation is_store :: "infer_state \<Rightarrow> db" where
  "is_store s \<equiv> id_store (is_identity s)"

record infer_env =
  ev_backend :: backend
  ev_hyphenated :: "uuid \<Rightarrow> string"
  ev_parse_uuid :: "string \<Rightarrow> uuid option"
  ev_parse_json :: "string \<Rightarrow> json option"
  ev_shown :: "yorishiro_error \<Rightarrow> string"
  ev_to_value :: "infer_fill_args \<Rightarrow> json"
  ev_exchange :: "inference_config \<Rightarrow> json \<Rightarrow> string list \<Rightarrow> http_reply"
  ev_fresh :: "uuid \<Rightarrow> string \<Rightarrow> uuid"
  ev_meanwhile :: "infer_state \<Rightarrow> infer_state"
  ev_start :: instant
  ev_end :: instant

definition check_actor :: "instant \<Rightarrow> infer_state \<Rightarrow> infer_fill_args \<Rightarrow> unit result" where
  "check_actor now s args =
     (if au_workspace_id (ia_actor args) \<noteq> ia_workspace_id args then Inl Unauthenticated
      else require_job_actor now (is_identity s) (ia_actor args) ScopeSchema)"

text \<open>\<open>open_workspace_scope\<close>: only the lookup of the workspace can fail.\<close>

definition open_workspace_scope :: "infer_state \<Rightarrow> uuid \<Rightarrow> string + uuid" where
  "open_workspace_scope s workspace_id =
     (case find_row (\<lambda>w. wk_id w = workspace_id) (db_workspaces (is_store s)) of
        None \<Rightarrow> Inl ''workspace {workspace_id} not found''
      | Some w \<Rightarrow> Inr (wk_tenant_id w))"

text \<open>\<open>Value::get\<close>: a member of an object, nothing of any other value.\<close>

definition value_get :: "json \<Rightarrow> string \<Rightarrow> json option" where
  "value_get v k = (case v of JObj fs \<Rightarrow> bt_get fs k | _ \<Rightarrow> None)"

definition missing_keys :: "entity_type_def \<Rightarrow> json \<Rightarrow> string list" where
  "missing_keys type_def data = filter (\<lambda>k. value_get data k = None) (bt_keys (et_fields type_def))"

primrec ask_rows ::
  "infer_env \<Rightarrow> inference_config \<Rightarrow> schema_row \<Rightarrow> entity_row list \<Rightarrow> (uuid \<times> json btree_map) list \<times> int \<Rightarrow>
   string + ((uuid \<times> json btree_map) list \<times> int)" where
  "ask_rows ev config active [] acc = Inr acc"
| "ask_rows ev config active (row # rows) acc =
     (case acc of (batches, skipped) \<Rightarrow>
      (case bt_get (md_entity_types (sc_definition active)) (en_entity_type row) of
         None \<Rightarrow> ask_rows ev config active rows acc
       | Some type_def \<Rightarrow>
           (let missing = missing_keys type_def (en_data row) in
            if missing = [] then ask_rows ev config active rows (batches, skipped + 1)
            else (case propose_fields (ev_parse_json ev) (ev_exchange ev) config (en_data row) missing of
                Inl e \<Rightarrow> Inl (''LLM propose_fields failed: '' @ ev_shown ev e)
              | Inr answers \<Rightarrow>
                  if answers = [] then ask_rows ev config active rows (batches, skipped + 1)
                  else ask_rows ev config active rows (batches @ [(en_id row, answers)], skipped)))))"

text \<open>The second transaction: it runs on the state the provider's answers find.\<close>

definition store_answers ::
  "infer_env \<Rightarrow> infer_fill_args \<Rightarrow> int \<Rightarrow> schema_row \<Rightarrow> (uuid \<times> json btree_map) list \<Rightarrow> int \<Rightarrow> infer_state \<Rightarrow>
   string + ((int \<times> int) \<times> infer_state)" where
  "store_answers ev args attempt active batches skipped s =
     (if batches = [] then Inr ((0, skipped), s)
      else
      rbind (map_err (ev_shown ev) (get_workspace_tenant (is_store s) (ia_workspace_id args))) (\<lambda>_.
      rbind (map_err (ev_shown ev) (require_job_actor (ev_end ev) (is_identity s) (ia_actor args) ScopeSchema)) (\<lambda>_.
      rbind (map_err (ev_shown ev) (get_active_schema (is_store s) (ia_workspace_id args) (ia_schema_name args))) (\<lambda>current.
      if sc_id current \<noteq> sc_id active \<or> sc_version current \<noteq> sc_version active
      then Inl ''active schema changed while infer-fill proposals were being generated''
      else
      rbind (map_err (ev_shown ev) (record_batches (ev_backend ev) (ev_fresh ev) (ev_end ev) (is_jobs s)
               (ia_workspace_id args) (ia_job_id args) attempt (sc_id active) (sc_version active) batches
               (\<lparr>pt_store = is_store s, pt_aborted = False\<rparr>, 0, skipped))) (\<lambda>(x, proposed, skipped).
        Inr ((proposed, skipped),
          s\<lparr>is_identity := (is_identity s)\<lparr>id_store := commit_proposals (is_store s) x\<rparr>\<rparr>))))))"

definition perform_infer_fill ::
  "infer_env \<Rightarrow> infer_fill_args \<Rightarrow> int \<Rightarrow> infer_state \<Rightarrow> (string + int \<times> int) \<times> infer_state" where
  "perform_infer_fill ev args attempt s =
     (case (rbind (map_err (ev_shown ev) (check_actor (ev_start ev) s args)) (\<lambda>_.
            rbind (ok_or (get_llm_key (is_llm_keys s) (ia_workspace_id args))
                     ''workspace has no LLM credentials configured'') (\<lambda>config.
            rbind (open_workspace_scope s (ia_workspace_id args)) (\<lambda>_.
            rbind (map_err (ev_shown ev) (get_active_schema (is_store s) (ia_workspace_id args) (ia_schema_name args))) (\<lambda>active.
            rbind (ask_rows ev config active (entities_on_outdated_schema (is_store s) (ia_workspace_id args)
                     (ia_schema_name args) (sc_id active)) ([], 0)) (\<lambda>(batches, skipped).
              Inr (active, batches, skipped))))))) of
        Inl e \<Rightarrow> (Inl e, ev_meanwhile ev s)
      | Inr (active, batches, skipped) \<Rightarrow>
          (let s' = ev_meanwhile ev s in
           case store_answers ev args attempt active batches skipped s' of
             Inl e \<Rightarrow> (Inl e, s')
           | Inr (counts, s'') \<Rightarrow> (Inr counts, s'')))"

definition defer_and_enqueue ::
  "infer_env \<Rightarrow> instant \<Rightarrow> infer_fill_args \<Rightarrow> int option \<Rightarrow> string \<Rightarrow> bool \<Rightarrow> infer_state \<Rightarrow> string + infer_state" where
  "defer_and_enqueue ev now args attempt err retry_inference_job s =
     rbind (ok_or (ia_lifecycle_id args) ''infer-fill retry has no lifecycle id'') (\<lambda>lifecycle_id.
     rbind (map_err (ev_shown ev) (get_workspace_tenant (is_store s) (ia_workspace_id args))) (\<lambda>_.
     let jobs = (case attempt of
           Some a \<Rightarrow> if retry_inference_job then snd (retry_job now (is_jobs s) (ia_job_id args) err a) else is_jobs s
         | None \<Rightarrow> is_jobs s)
     in rbind (map_err db_err_message (defer_job now (q_lifecycles (is_queue s)) lifecycle_id attempt err)) (\<lambda>t.
     rbind (map_err (ev_shown ev) (for_job (is_store s) Shared (ia_workspace_id args))) (\<lambda>target.
     let tag = job_tag (ev_hyphenated ev) target;
         payload = payload_insert ''lifecycle_id'' (ev_hyphenated ev lifecycle_id) (ev_to_value ev args)
     in rbind (map_err db_err_message (record_lifecycle_payload (ev_hyphenated ev) (ev_parse_uuid ev)
           ((is_queue s)\<lparr>q_lifecycles := t\<rparr>) lifecycle_id payload ''InferFillWorker'' (Some tag) (Some [tag]))) (\<lambda>q.
       Inr (s\<lparr>is_jobs := jobs, is_queue := q\<rparr>))))))"

definition defer_for_busy_workspace ::
  "infer_env \<Rightarrow> infer_fill_args \<Rightarrow> int \<Rightarrow> infer_state \<Rightarrow> (string + unit) \<times> infer_state" where
  "defer_for_busy_workspace ev args attempt s =
     (if ia_lifecycle_id args = None then (Inl ''workspace has a running infer-fill job'', s)
      else case defer_and_enqueue ev (ev_start ev) args (Some attempt) ''workspace has a running infer-fill job'' False s of
        Inl e \<Rightarrow> (Inl e, s)
      | Inr s' \<Rightarrow> (Inr (), s'))"

text \<open>
  The admission of a delivery: \<open>Inl\<close> when the delivery ends there, \<open>Inr\<close> with the attempt and whether the
  job has already been reconciled.
\<close>

definition admit_delivery ::
  "infer_env \<Rightarrow> infer_fill_args \<Rightarrow> infer_state \<Rightarrow> ((string + unit) + int \<times> bool) \<times> infer_state" where
  "admit_delivery ev args s =
     (case ia_lifecycle_id args of
        None \<Rightarrow> (Inr (0, False), s)
      | Some i \<Rightarrow>
          (case start_at (q_lifecycles (is_queue s)) i (ev_start ev) of
             Inl e \<Rightarrow> (Inl (Inl (db_err_message e)), s)
           | Inr (Started a, t) \<Rightarrow> (Inr (a, False), s\<lparr>is_queue := (is_queue s)\<lparr>q_lifecycles := t\<rparr>\<rparr>)
           | Inr (Recovered a, t) \<Rightarrow> (Inr (a, False), s\<lparr>is_queue := (is_queue s)\<lparr>q_lifecycles := t\<rparr>\<rparr>)
           | Inr (Duplicate a, _) \<Rightarrow>
               (case reconcile_attempt (ev_start ev) (is_jobs s) (ia_job_id args) a of
                  Inl e \<Rightarrow> (Inl (Inl (ev_shown ev e)), s)
                | Inr (False, _) \<Rightarrow> (Inl (Inr ()), s)
                | Inr (True, jobs) \<Rightarrow> (Inr (a, True), s\<lparr>is_jobs := jobs\<rparr>))
           | Inr (Terminal, _) \<Rightarrow> (Inl (Inr ()), s)
           | Inr (Saturated a, _) \<Rightarrow>
               (case defer_and_enqueue ev (ev_start ev) args a SATURATED False s of
                  Inl e \<Rightarrow> (Inl (Inl e), s)
                | Inr s' \<Rightarrow> (Inl (Inr ()), s'))))"

definition claim_delivery :: "infer_env \<Rightarrow> infer_fill_args \<Rightarrow> int \<Rightarrow> bool \<Rightarrow> infer_state \<Rightarrow> (bool \<times> inference_jobs) result" where
  "claim_delivery ev args attempt already_reconciled s =
     (if already_reconciled then Inr (True, is_jobs s)
      else if ia_lifecycle_id args \<noteq> None then reconcile_attempt (ev_start ev) (is_jobs s) (ia_job_id args) attempt
      else claim_job (ev_start ev) (is_jobs s) (ia_job_id args))"

text \<open>What a delivery does with the outcome of the run.\<close>

definition finish_delivery ::
  "infer_env \<Rightarrow> infer_fill_args \<Rightarrow> int \<Rightarrow> string + int \<times> int \<Rightarrow> infer_state \<Rightarrow> (string + unit) \<times> infer_state" where
  "finish_delivery ev args attempt outcome s =
     (case outcome of
        Inr (proposed, skipped) \<Rightarrow>
          (let (owned, jobs) = complete_proposals_attempt (ev_end ev) (is_jobs s) (ia_job_id args) attempt proposed skipped;
               s = s\<lparr>is_jobs := jobs\<rparr>
           in (Inr (), case (owned, ia_lifecycle_id args) of
                (True, Some i) \<Rightarrow>
                  (case finish_job (ev_end ev) (q_lifecycles (is_queue s)) i (Some attempt) Completed None of
                     Inl _ \<Rightarrow> s
                   | Inr t \<Rightarrow> s\<lparr>is_queue := (is_queue s)\<lparr>q_lifecycles := t\<rparr>\<rparr>)
              | _ \<Rightarrow> s))
      | Inl e \<Rightarrow>
          (let failed = s\<lparr>is_jobs := snd (fail_attempt (ev_end ev) (is_jobs s) (ia_job_id args) attempt e)\<rparr> in
           case ia_lifecycle_id args of
             None \<Rightarrow> (Inl e, failed)
           | Some i \<Rightarrow>
               (if (case check_actor (ev_end ev) s args of
                      Inl Unauthenticated \<Rightarrow> True | Inl (ScopeInsufficient _) \<Rightarrow> True | _ \<Rightarrow> False)
                then (case finish_job (ev_end ev) (q_lifecycles (is_queue failed)) i (Some attempt) Failed None of
                        Inl err \<Rightarrow> (Inl (db_err_message err), failed)
                      | Inr t \<Rightarrow> (Inl e, failed\<lparr>is_queue := (is_queue failed)\<lparr>q_lifecycles := t\<rparr>\<rparr>))
                else (case defer_and_enqueue ev (ev_end ev) args (Some attempt) e True s of
                        Inl err \<Rightarrow> (Inl err, s)
                      | Inr s' \<Rightarrow> (Inr (), s')))))"

definition perform_job :: "infer_env \<Rightarrow> infer_fill_args \<Rightarrow> infer_state \<Rightarrow> (string + unit) \<times> infer_state" where
  "perform_job ev args s =
     (case admit_delivery ev args s of
        (Inl result, s1) \<Rightarrow> (result, s1)
      | (Inr (attempt, already_reconciled), s1) \<Rightarrow>
          (case claim_delivery ev args attempt already_reconciled s1 of
             Inl e \<Rightarrow> if is_workspace_busy e then defer_for_busy_workspace ev args attempt s1
                      else (Inl (ev_shown ev e), s1)
           | Inr (False, _) \<Rightarrow> (Inr (), s1)
           | Inr (True, jobs) \<Rightarrow>
               (let s2 = s1\<lparr>is_jobs := jobs\<rparr>;
                    attempt = (case get_job jobs (ia_job_id args) of Some j \<Rightarrow> ij_attempt j | None \<Rightarrow> attempt);
                    (outcome, s3) = perform_infer_fill ev args attempt s2
                in finish_delivery ev args attempt outcome s3)))"

section \<open>Enqueueing\<close>

definition infer_fill_spec :: "infer_env \<Rightarrow> infer_fill_args \<Rightarrow> job_spec" where
  "infer_fill_spec ev args =
     \<lparr>js_job_name = ''infer_fill'', js_workspace_id = ia_workspace_id args, js_class = Shared,
      js_dispatch_payload = ev_to_value ev args, js_worker_name = ''InferFillWorker'',
      js_use_queue_concurrency = True\<rparr>"

text \<open>
  \<open>policy\<close> is the installed queue policy's answer.  The job row and the dispatch are one transaction, which
  an error drops, together with the refusal the dispatcher recorded in it.
\<close>

definition enqueue_infer_fill ::
  "infer_env \<Rightarrow> bool \<Rightarrow> (string + concurrency_policy) \<Rightarrow> uuid \<Rightarrow> uuid \<Rightarrow> infer_state \<Rightarrow> auth_context \<Rightarrow> string \<Rightarrow>
   (string + uuid) \<times> infer_state" where
  "enqueue_infer_fill ev has_queue policy job_id lifecycle_id s auth schema_name =
     (if \<not> has_queue
      then (Inl ''infer-fill requires a queue provider (configure queue: in the server config)'', s)
      else
      (case rbind (get_workspace_tenant (is_store s) (au_workspace_id auth)) (\<lambda>_.
              create_job (ev_start ev) (is_store s) (is_jobs s) job_id (au_workspace_id auth) schema_name) of
         Inl e \<Rightarrow> (Inl (ev_shown ev e), s)
       | Inr jobs \<Rightarrow>
           (let args = \<lparr>ia_actor = auth, ia_lifecycle_id = None, ia_job_id = job_id,
                        ia_workspace_id = au_workspace_id auth, ia_schema_name = schema_name\<rparr>
            in case dispatch_job (ev_hyphenated ev) (ev_parse_uuid ev) policy lifecycle_id (ev_start ev) (is_store s)
                      (is_queue s) (infer_fill_spec ev args) of
                 (Inl e, _) \<Rightarrow> (Inl e, s)
               | (Inr _, q) \<Rightarrow> (Inr job_id, s\<lparr>is_jobs := jobs, is_queue := q\<rparr>))))"

section \<open>What a run proposes\<close>

lemma map_err_Inr_iff: "map_err f m = Inr x \<longleftrightarrow> m = Inr x"
  by (cases m) auto

lemma propose_fields_asked:
  "propose_fields parse_json exchange config data missing = Inr answers \<Longrightarrow> fst ` set answers \<subseteq> set missing"
  by (auto simp: propose_fields_def Let_def split: if_splits http_reply.splits reply_body.splits option.splits json.splits)

text \<open>The answers kept for an entity: fields its type declares in the active version and it does not have.\<close>

definition asked :: "schema_row \<Rightarrow> entity_row set \<Rightarrow> uuid \<times> json btree_map \<Rightarrow> bool" where
  "asked active E g \<longleftrightarrow> (\<exists>e \<in> E. \<exists>type_def. fst g = en_id e \<and>
     bt_get (md_entity_types (sc_definition active)) (en_entity_type e) = Some type_def \<and>
     fst ` set (snd g) \<subseteq> set (missing_keys type_def (en_data e)))"

lemma ask_rows_asked:
  assumes "ask_rows ev config active rows (batches, skipped) = Inr (batches', skipped')"
    and "set rows \<subseteq> E" and "\<forall>g \<in> set batches. asked active E g"
  shows "\<forall>g \<in> set batches'. asked active E g"
  using assms
proof (induction rows arbitrary: batches skipped)
  case Nil
  then show ?case by simp
next
  case (Cons row rows)
  let ?more = "\<lambda>b k. ask_rows ev config active rows (b, k) = Inr (batches', skipped')"
  show ?case
  proof (cases "bt_get (md_entity_types (sc_definition active)) (en_entity_type row)")
    case None
    then show ?thesis using Cons by simp
  next
    case (Some td)
    let ?missing = "missing_keys td (en_data row)"
    consider (skip) "?more batches (skipped + 1)"
      | (keep) answers where "propose_fields (ev_parse_json ev) (ev_exchange ev) config (en_data row) ?missing = Inr answers"
          "?more (batches @ [(en_id row, answers)]) skipped"
      using Cons.prems(1) Some by (auto simp: Let_def split: if_splits sum.splits)
    then show ?thesis
    proof cases
      case skip
      then show ?thesis using Cons by auto
    next
      case keep
      have "asked active E (en_id row, answers)"
        using Some propose_fields_asked [OF keep(1)] Cons.prems(2) by (auto simp: asked_def)
      then show ?thesis using Cons.IH [OF keep(2)] Cons.prems by auto
    qed
  qed
qed

lemma store_answers_Inr:
  assumes store: "store_answers ev args attempt active batches k s = Inr ((proposed, skipped), s')"
    and "proposals_ok (is_store s)"
  shows "\<exists>new. is_store s' = (is_store s)\<lparr>db_proposals := db_proposals (is_store s) @ new\<rparr> \<and>
    set new \<subseteq> answer_rows (ev_fresh ev) (ev_end ev) (ia_workspace_id args) (ia_job_id args) (sc_id active) (sc_version active) batches \<and>
    (new = [] \<or> proposed = int (length new) \<and>
       (\<exists>current. get_active_schema (is_store s) (ia_workspace_id args) (ia_schema_name args) = Inr current \<and>
          sc_id current = sc_id active \<and> sc_version current = sc_version active))"
proof (cases "batches = []")
  case True
  then show ?thesis using store by (auto simp: store_answers_def intro!: exI [of _ "[]"])
next
  case False
  obtain current x where current: "get_active_schema (is_store s) (ia_workspace_id args) (ia_schema_name args) = Inr current"
      "sc_id current = sc_id active" "sc_version current = sc_version active"
    and rec: "record_batches (ev_backend ev) (ev_fresh ev) (ev_end ev) (is_jobs s) (ia_workspace_id args) (ia_job_id args) attempt
      (sc_id active) (sc_version active) batches (\<lparr>pt_store = is_store s, pt_aborted = False\<rparr>, 0, k) = Inr (x, proposed, skipped)"
    and s': "is_store s' = commit_proposals (is_store s) x"
    using store False by (auto simp: store_answers_def rbind_Inr_iff map_err_Inr_iff split: if_splits)
  have ok: "proposals_ok (pt_store \<lparr>pt_store = is_store s, pt_aborted = False\<rparr>)" using assms(2) by simp
  obtain new where new: "set new \<subseteq> answer_rows (ev_fresh ev) (ev_end ev) (ia_workspace_id args) (ia_job_id args)
      (sc_id active) (sc_version active) batches"
    "proposed = int (length new)" "pt_store x = (is_store s)\<lparr>db_proposals := db_proposals (is_store s) @ new\<rparr>"
    using record_batches_Inr [OF rec ok] by auto
  show ?thesis
  proof (cases "pt_aborted x")
    case True
    then show ?thesis using s' by (intro exI [of _ "[]"]) (simp add: commit_proposals_def)
  next
    case False
    then show ?thesis using s' current new by (intro exI [of _ new]) (simp add: commit_proposals_def)
  qed
qed

text \<open>
  A run proposes only what is missing: every proposal it adds is pending, belongs to its job
  and names an entity on an older version of the schema, a field that the entity's type declares in the
  active version and that the entity did not have when it was read; the schema version was still
  the active one when the proposals were stored.  The number it reports is the number it stored, unless
  the transaction was rolled back and it stored none; nothing else in the database changes.
\<close>

theorem infer_fill_proposes_missing:
  assumes "perform_infer_fill ev args attempt s = (Inr (proposed, skipped), s')"
    and "proposals_ok (is_store (ev_meanwhile ev s))"
  shows "\<exists>active new. get_active_schema (is_store s) (ia_workspace_id args) (ia_schema_name args) = Inr active \<and>
    is_store s' = (is_store (ev_meanwhile ev s))\<lparr>db_proposals := db_proposals (is_store (ev_meanwhile ev s)) @ new\<rparr> \<and>
    (new = [] \<or> proposed = int (length new) \<and>
       (\<exists>current. get_active_schema (is_store (ev_meanwhile ev s)) (ia_workspace_id args) (ia_schema_name args) = Inr current \<and>
          sc_id current = sc_id active \<and> sc_version current = sc_version active)) \<and>
    (\<forall>p \<in> set new. pending_of_job (ia_workspace_id args) (ia_job_id args) p \<and> pr_schema_id p = sc_id active \<and>
       (\<exists>e \<in> set (entities_on_outdated_schema (is_store s) (ia_workspace_id args) (ia_schema_name args) (sc_id active)).
          pr_entity_id p = en_id e \<and>
          (\<exists>type_def. bt_get (md_entity_types (sc_definition active)) (en_entity_type e) = Some type_def \<and>
             pr_source_field p \<in> set (missing_keys type_def (en_data e)))))"
proof -
  let ?w = "ia_workspace_id args" and ?m = "ev_meanwhile ev s"
  obtain config active batches k where active: "get_active_schema (is_store s) ?w (ia_schema_name args) = Inr active"
    and ask: "ask_rows ev config active
      (entities_on_outdated_schema (is_store s) ?w (ia_schema_name args) (sc_id active)) ([], 0) = Inr (batches, k)"
    and store: "store_answers ev args attempt active batches k ?m = Inr ((proposed, skipped), s')"
    using assms(1) by (auto simp: perform_infer_fill_def Let_def rbind_Inr_iff map_err_Inr_iff split: sum.splits)
  let ?E = "set (entities_on_outdated_schema (is_store s) ?w (ia_schema_name args) (sc_id active))"
  have asked: "\<forall>g \<in> set batches. asked active ?E g" by (rule ask_rows_asked [OF ask]) simp_all
  obtain new where new: "is_store s' = (is_store ?m)\<lparr>db_proposals := db_proposals (is_store ?m) @ new\<rparr>"
    "set new \<subseteq> answer_rows (ev_fresh ev) (ev_end ev) ?w (ia_job_id args) (sc_id active) (sc_version active) batches"
    "new = [] \<or> proposed = int (length new) \<and>
       (\<exists>current. get_active_schema (is_store ?m) ?w (ia_schema_name args) = Inr current \<and>
          sc_id current = sc_id active \<and> sc_version current = sc_version active)"
    using store_answers_Inr [OF store assms(2)] by blast
  have "\<forall>p \<in> set new. pending_of_job ?w (ia_job_id args) p \<and> pr_schema_id p = sc_id active \<and>
     (\<exists>e \<in> ?E. pr_entity_id p = en_id e \<and>
        (\<exists>type_def. bt_get (md_entity_types (sc_definition active)) (en_entity_type e) = Some type_def \<and>
           pr_source_field p \<in> set (missing_keys type_def (en_data e))))"
    using new(2) asked by (fastforce simp: answer_rows_def asked_def proposal_of_def pending_of_job_def)
  then show ?thesis using active new(1,3) by (intro exI [of _ active] exI [of _ new]) simp
qed

section \<open>Deliveries\<close>

lemma started_row:
  assumes "lifecycle_constraints t" "start_at t i now = Inr (adm, t')" "adm = Started a \<or> adm = Recovered a"
  obtains r where "job t' i = Some r" "lc_attempt r = a" "lc_status r = Running" "lifecycle_constraints t'"
proof -
  have "token adm = Some a" using assms(3) by (auto simp: token_admitted)
  moreover have "job_step (now, t) (Admitted i adm) (now, t')" using assms(2) by (rule job_step.intros)
  ultimately obtain r' where "job t' i = Some r'" "lc_attempt r' = a" "lc_status r' = Running"
    using admitted_attempt by blast
  moreover have "lifecycle_constraints t'" using start_at_admitted [OF assms(2,3)] by metis
  ultimately show ?thesis using that by blast
qed

lemma deferred_row:
  assumes "lifecycle_constraints t" "job t i = Some r" "lc_attempt r = a" "lc_status r = Running"
  shows "\<exists>t'. defer_job now t i (Some a) e = Inr t' \<and> lifecycle_constraints t' \<and>
    job t' i = Some ((deferred now e r)\<lparr>lc_provider_job_id := None\<rparr>)"
proof -
  have "\<exists>t'. update_lifecycles (\<lambda>r. lc_id r = i \<and> defer_filter (Some a) r)
        (\<lambda>r. (deferred now e r)\<lparr>lc_provider_job_id := None\<rparr>) t = Inr (1, t') \<and>
      lifecycle_constraints t' \<and> job t' i = Some ((deferred now e r)\<lparr>lc_provider_job_id := None\<rparr>)"
    by (rule job_update [OF assms(1,2)])
      (use assms(3,4) in \<open>auto simp: defer_filter_def deferred_def waiting_or_running_def\<close>)
  then show ?thesis by (auto simp: defer_job_def)
qed

text \<open>A running attempt is handed back: its lifecycle is queued again with its attempts reset, and due.\<close>

lemma defer_and_enqueue_returns:
  assumes "lifecycle_constraints (q_lifecycles (is_queue s))" "ia_lifecycle_id args = Some i"
    and "job (q_lifecycles (is_queue s)) i = Some r" "lc_attempt r = a" "lc_status r = Running"
    and "get_workspace_tenant (is_store s) (ia_workspace_id args) = Inr tenant"
    and "\<exists>row \<in> set (q_outbox (is_queue s)). ob_lifecycle_id row = Some i"
  shows "\<exists>q'. defer_and_enqueue ev now args (Some a) e retry s =
      Inr (s\<lparr>is_jobs := (if retry then snd (retry_job now (is_jobs s) (ia_job_id args) e a) else is_jobs s), is_queue := q'\<rparr>) \<and>
    (\<exists>r'. job (q_lifecycles q') i = Some r' \<and> lc_status r' = Queued \<and> lc_attempt r' = 0) \<and>
    (\<exists>row \<in> set (q_outbox q'). ob_lifecycle_id row = Some i) \<and>
    (\<forall>row \<in> set (q_outbox q'). ob_lifecycle_id row = Some i \<longrightarrow> (\<forall>now. is_due now q' row))"
proof -
  let ?r = "(deferred now e r)\<lparr>lc_provider_job_id := None\<rparr>"
  obtain t' where t': "defer_job now (q_lifecycles (is_queue s)) i (Some a) e = Inr t'"
    "lifecycle_constraints t'" "job t' i = Some ?r"
    using deferred_row [OF assms(1,3,4,5)] by blast
  let ?q = "(is_queue s)\<lparr>q_lifecycles := t'\<rparr>"
  let ?tag = "job_tag (ev_hyphenated ev) TargetShared"
  have q: "lifecycle_constraints (q_lifecycles ?q)" "job (q_lifecycles ?q) i = Some ?r" "lc_status ?r = Retrying"
    "\<exists>row \<in> set (q_outbox ?q). ob_lifecycle_id row = Some i"
    using t' assms(7) by (simp_all add: deferred_def)
  obtain q' where q': "record_lifecycle_payload (ev_hyphenated ev) (ev_parse_uuid ev) ?q i
      (payload_insert ''lifecycle_id'' (ev_hyphenated ev i) (ev_to_value ev args)) ''InferFillWorker'' (Some ?tag) (Some [?tag]) = Inr q'"
    "job (q_lifecycles q') i = Some (requeued ?r)" "\<exists>row \<in> set (q_outbox q'). ob_lifecycle_id row = Some i"
    "\<forall>row \<in> set (q_outbox q'). ob_lifecycle_id row = Some i \<longrightarrow> (\<forall>now. is_due now q' row)"
    using record_payload_returns [OF q] by metis
  have "defer_and_enqueue ev now args (Some a) e retry s =
      Inr (s\<lparr>is_jobs := (if retry then snd (retry_job now (is_jobs s) (ia_job_id args) e a) else is_jobs s), is_queue := q'\<rparr>)"
    using assms(2,6) t'(1) q'(1) by (simp add: defer_and_enqueue_def for_job_def Let_def)
  moreover have "\<exists>r'. job (q_lifecycles q') i = Some r' \<and> lc_status r' = Queued \<and> lc_attempt r' = 0"
    using q'(2) by (simp add: requeued_def)
  ultimately show ?thesis using q'(3,4) by blast
qed

lemma is_workspace_busy_iff: "is_workspace_busy e \<longleftrightarrow> e = Conflict WORKSPACE_BUSY"
  by (cases e) auto


text \<open>
  A failed run is not retried.  The retry leaves the job row queued under the attempt that failed, while the
  dispatcher resets the lifecycle's attempts to zero; the next delivery is admitted as attempt one again, which the job
  row has already used, so the delivery ends successfully without running: the job stays queued.
\<close>

theorem retried_job_not_claimed:
  assumes "ia_lifecycle_id args = Some i"
    and "start_at (q_lifecycles (is_queue s)) i (ev_start ev) = Inr (Started a, t)"
    and "get_job (is_jobs s) (ia_job_id args) = Some j" "ij_status j = JobQueued" "ij_attempt j = a"
  shows "perform_job ev args s = (Inr (), s\<lparr>is_queue := (is_queue s)\<lparr>q_lifecycles := t\<rparr>\<rparr>)"
proof -
  have "reconcile_attempt (ev_start ev) (is_jobs s) (ia_job_id args) a = Inr (False, is_jobs s)"
    using assms(3-5) by (simp add: reconcile_attempt_def)
  then show ?thesis
    using assms(1,2) by (simp add: perform_job_def admit_delivery_def claim_delivery_def)
qed

section \<open>Examples\<close>

text \<open>A workspace with one book on an older version, and a provider that knows its title.\<close>

definition acme_owner_actor :: auth_context where
  "acme_owner_actor = \<lparr>au_api_key_id = 60, au_workspace_id = 3, au_tenant_id = 9, au_scope = ScopeSchema,
     au_user_id = Some 20, au_audit = False\<rparr>"

definition library_args :: infer_fill_args where
  "library_args = \<lparr>ia_actor = acme_owner_actor, ia_lifecycle_id = Some 11, ia_job_id = 70, ia_workspace_id = 3,
     ia_schema_name = ''library''\<rparr>"

definition library_state :: "inference_jobs \<Rightarrow> infer_state" where
  "library_state jobs = \<lparr>is_identity = acme\<lparr>id_store := older_version\<rparr>,
     is_queue = \<lparr>q_lifecycles = [queued_row 0 (limited_job 11)], q_outbox = [cited_job 11]\<rparr>,
     is_jobs = jobs,
     is_llm_keys = [\<lparr>lk_workspace_id = 3, lk_base_url = ''http://llm'', lk_model = ''m'', lk_api_key = ''k'', lk_created_at = 0, lk_updated_at = 0\<rparr>]\<rparr>"

definition library_env :: "http_reply \<Rightarrow> infer_env" where
  "library_env reply = \<lparr>ev_backend = Postgres, ev_hyphenated = tally, ev_parse_uuid = untally,
     ev_parse_json = (\<lambda>_. Some (JObj [(''title'', JStr ''Emma''), (''year'', JInt 1815)])),
     ev_shown = (\<lambda>_. ''error''), ev_to_value = (\<lambda>_. JObj []), ev_exchange = (\<lambda>_ _ _. reply),
     ev_fresh = (\<lambda>e _. e + 40), ev_meanwhile = (\<lambda>s. s), ev_start = 5, ev_end = 6\<rparr>"

definition knows_title :: http_reply where
  "knows_title = Replied 200 None (Choices [''{...}''])"

lemma library_actor: "check_actor now (library_state jobs) library_args = Inr ()"
  by (simp add: check_actor_def require_job_actor_def library_args_def acme_owner_actor_def library_state_def
      older_version_def with_entity_def one_schema_def current_context_def find_key_def acme_defs find_row_def
      key_is_active_def with_current_membership_def context_of_def require_active_def get_membership_role_def
      workspace_access_def workspace_access_for_role_def get_workspace_tenant_def administers_tenant_def
      require_scope_def satisfies_def scope_order min_def)

lemma library_rows:
  "entities_on_outdated_schema older_version 3 ''library'' 11 = [emma]"
  by (simp add: entities_on_outdated_schema_def select_where_def older_version_def with_entity_def
      newer_schema_def followed_schema_def retire_def emma_def Let_def)

lemma library_ask:
  "ask_rows (library_env knows_title) config newer_schema [emma] ([], 0) =
     Inr ([(50, [(''title'', JStr ''Emma'')])], 0)"
  by (simp add: newer_schema_def followed_schema_def sample_definition_def emma_def missing_keys_def value_get_def
      bt_keys_def sample_fields_def propose_fields_def library_env_def knows_title_def Let_def)

lemma library_run:
  "\<exists>s'. perform_infer_fill (library_env knows_title) library_args 1 (library_state [fill_job JobRunning 1]) = (Inr (1, 0), s') \<and>
     map pr_source_field (db_proposals (is_store s')) = [''title'']"
proof -
  let ?s = "library_state [fill_job JobRunning 1]"
  have store: "is_store ?s = older_version" "is_jobs ?s = [fill_job JobRunning 1]" by (simp_all add: library_state_def)
  have env: "ev_meanwhile (library_env knows_title) x = x" for x by (simp add: library_env_def)
  have ws: "ia_workspace_id library_args = 3" "ia_schema_name library_args = ''library''" "ia_job_id library_args = 70"
    by (simp_all add: library_args_def)
  have key: "get_llm_key (is_llm_keys ?s) 3 = Some \<lparr>ic_base_url = ''http://llm'', ic_model = ''m'', ic_api_key = ''k''\<rparr>"
    by (simp add: get_llm_key_def library_state_def find_row_def)
  have open': "open_workspace_scope ?s 3 = Inr 9" "get_workspace_tenant older_version 3 = Inr 9"
    by (simp_all add: open_workspace_scope_def store find_row_def older_version_def with_entity_def one_schema_def
        get_workspace_tenant_def)
  have actor: "require_job_actor now (is_identity ?s) (ia_actor library_args) ScopeSchema = Inr ()" for now
    using library_actor [of now "[fill_job JobRunning 1]"] by (simp add: check_actor_def split: if_splits)
  have id: "sc_id newer_schema = 11" "sc_version newer_schema = 2" by (simp_all add: newer_schema_def)
  show ?thesis
    by (simp add: perform_infer_fill_def library_actor ws key open' store older_version_active id library_rows library_ask
        env store_answers_def actor del: ask_rows.simps)
      (simp add: record_batch_attempt_def get_job_def find_row_def fill_job_def proposal_of_def insert_proposal_def
        older_version_def with_entity_def one_schema_def empty_db_def library_env_def commit_proposals_def Let_def)
qed

theorem infer_fill_proposes_missing_witness:
  "\<exists>s' p. perform_infer_fill (library_env knows_title) library_args 1 (library_state [fill_job JobRunning 1]) = (Inr (1, 0), s') \<and>
     db_proposals (is_store s') = [p] \<and> pending_of_job 3 70 p \<and> pr_entity_id p = 50"
proof -
  let ?s = "library_state [fill_job JobRunning 1]"
  obtain s' where run: "perform_infer_fill (library_env knows_title) library_args 1 ?s = (Inr (1, 0), s')"
    "map pr_source_field (db_proposals (is_store s')) = [''title'']"
    using library_run by (elim exE conjE)
  have ok: "proposals_ok (is_store (ev_meanwhile (library_env knows_title) ?s))"
    and none: "db_proposals (is_store (ev_meanwhile (library_env knows_title) ?s)) = []"
    by (simp_all add: library_env_def library_state_def proposals_ok_def older_version_def with_entity_def one_schema_def empty_db_def)
  have args: "ia_workspace_id library_args = 3" "ia_job_id library_args = 70" "ia_schema_name library_args = ''library''"
    "is_store ?s = older_version"
    by (simp_all add: library_args_def library_state_def)
  obtain active new where new: "get_active_schema older_version 3 ''library'' = Inr active" "db_proposals (is_store s') = new"
    "\<forall>p \<in> set new. pending_of_job 3 70 p \<and>
       (\<exists>e \<in> set (entities_on_outdated_schema older_version 3 ''library'' (sc_id active)). pr_entity_id p = en_id e)"
    using infer_fill_proposes_missing [OF run(1) ok, unfolded args none] by fastforce
  have "active = newer_schema" using new(1) older_version_active by simp
  then have "sc_id active = 11" by (simp add: newer_schema_def)
  then have "\<forall>p \<in> set new. pending_of_job 3 70 p \<and> pr_entity_id p = 50"
    using new(3) library_rows by (auto simp: emma_def)
  moreover obtain p where "new = [p]" using run(2) new(2) by (cases new) auto
  ultimately show ?thesis using run(1) new(2) by auto
qed

definition other_job :: inference_job_row where
  "other_job = (fill_job JobRunning 1)\<lparr>ij_id := 71\<rparr>"

lemma library_started:
  "start_at (q_lifecycles (is_queue (library_state jobs))) 11 5 = Inr (Started 1, [claimed 5 (queued_row 0 (limited_job 11))])"
  by (simp add: library_state_def queue_eval)

lemma library_constraints: "lifecycle_constraints (q_lifecycles (is_queue (library_state jobs)))"
  by (simp add: library_state_def queue_eval)


text \<open>
  The provider is unreachable at the first delivery.  The second delivery, with the provider back, ends
  successfully too, but the job is still queued and has proposed nothing.
\<close>

definition unreachable :: infer_env where
  "unreachable = library_env (SendFailed ''timeout'')"

definition library_error :: string where
  "library_error = ''LLM propose_fields failed: error''"

lemma library_key:
  "get_llm_key (is_llm_keys (library_state jobs)) 3 = Some \<lparr>ic_base_url = ''http://llm'', ic_model = ''m'', ic_api_key = ''k''\<rparr>"
  by (simp add: get_llm_key_def library_state_def find_row_def)

lemma library_asked_fails:
  "ask_rows unreachable config newer_schema [emma] ([], 0) = Inl library_error"
  by (simp add: newer_schema_def followed_schema_def sample_definition_def emma_def missing_keys_def value_get_def
      bt_keys_def sample_fields_def propose_fields_def unreachable_def library_env_def library_error_def Let_def)

lemma library_actor_queue: "check_actor now (s\<lparr>is_queue := q\<rparr>) args = check_actor now s args"
  by (simp add: check_actor_def)

lemma library_fails:
  "perform_infer_fill unreachable library_args a (library_state jobs\<lparr>is_queue := q\<rparr>) =
     (Inl library_error, library_state jobs\<lparr>is_queue := q\<rparr>)"
proof -
  have "open_workspace_scope (library_state jobs\<lparr>is_queue := q\<rparr>) 3 = Inr 9"
    by (simp add: open_workspace_scope_def library_state_def find_row_def older_version_def with_entity_def one_schema_def)
  moreover have "is_store (library_state jobs) = older_version" "sc_id newer_schema = 11"
    "ia_workspace_id library_args = 3" "ia_schema_name library_args = ''library''" "ev_meanwhile unreachable x = x" for x
    by (simp_all add: library_state_def newer_schema_def library_args_def unreachable_def library_env_def)
  ultimately show ?thesis
    by (simp add: perform_infer_fill_def library_actor_queue library_actor library_key older_version_active library_rows
        library_asked_fails del: ask_rows.simps)
qed

definition retried_job :: inference_job_row where
  "retried_job = (fill_job JobQueued 1)\<lparr>ij_error := Some library_error\<rparr>"

lemma library_first:
  "\<exists>q. perform_job unreachable library_args (library_state [fill_job JobQueued 0]) =
     (Inr (), library_state [retried_job]\<lparr>is_queue := q\<rparr>) \<and>
     q_lifecycles q = [requeued ((deferred 6 library_error (claimed 5 (queued_row 0 (limited_job 11))))\<lparr>lc_provider_job_id := None\<rparr>)]"
proof -
  let ?q = "\<lparr>q_lifecycles = [claimed 5 (queued_row 0 (limited_job 11))], q_outbox = [cited_job 11]\<rparr>"
  let ?run = "(fill_job JobRunning 1)\<lparr>ij_updated_at := 5\<rparr>"
  have ev: "ev_start unreachable = 5" "ev_end unreachable = 6" "ev_hyphenated unreachable = tally"
    "ev_parse_uuid unreachable = untally" "ev_to_value unreachable x = JObj []" for x
    by (simp_all add: unreachable_def library_env_def)
  have args: "ia_lifecycle_id library_args = Some 11" "ia_job_id library_args = 70" "ia_workspace_id library_args = 3"
    by (simp_all add: library_args_def)
  have admit: "admit_delivery unreachable library_args (library_state [fill_job JobQueued 0]) =
      (Inr (1, False), library_state [fill_job JobQueued 0]\<lparr>is_queue := ?q\<rparr>)"
    using library_started [of "[fill_job JobQueued 0]"] by (simp add: admit_delivery_def ev args) (simp add: library_state_def)
  have claim: "claim_delivery unreachable library_args 1 False (library_state [fill_job JobQueued 0]\<lparr>is_queue := ?q\<rparr>) =
      Inr (True, [?run])"
    by (simp add: claim_delivery_def ev args reconcile_attempt_def get_job_def find_row_def library_state_def fill_job_def
        update_jobs_def update_where_def running_jobs_def select_where_def)
  have state: "library_state [fill_job JobQueued 0]\<lparr>is_queue := ?q, is_jobs := [?run]\<rparr> = library_state [?run]\<lparr>is_queue := ?q\<rparr>"
    by (simp add: library_state_def)
  have attempt: "get_job [?run] 70 = Some ?run" "ij_attempt ?run = 1" by (simp_all add: get_job_def find_row_def fill_job_def)
  have "perform_job unreachable library_args (library_state [fill_job JobQueued 0]) =
      finish_delivery unreachable library_args 1 (Inl library_error) (library_state [?run]\<lparr>is_queue := ?q\<rparr>)"
    using state attempt by (simp add: perform_job_def admit claim args library_fails Let_def)
  moreover have "get_workspace_tenant (is_store (library_state x)) 3 = Inr 9" for x
    by (simp add: get_workspace_tenant_def find_row_def library_state_def older_version_def with_entity_def one_schema_def)
  ultimately show ?thesis
    by (simp add: finish_delivery_def args ev library_actor_queue library_actor defer_and_enqueue_def for_job_def Let_def
        record_lifecycle_payload_def retry_job_def settle_job_def owned_attempt_def)
      (simp add: queue_eval cited_job_def fill_job_def library_state_def retried_job_def owned_attempt_def)
qed

theorem failed_run_not_retried:
  "\<exists>s s'. perform_job unreachable library_args (library_state [fill_job JobQueued 0]) = (Inr (), s) \<and>
     perform_job (library_env knows_title) library_args s = (Inr (), s') \<and>
     is_jobs s' = [retried_job] \<and> ij_status retried_job = JobQueued \<and> db_proposals (is_store s') = [] \<and>
     map lc_status (q_lifecycles (is_queue s')) = [Running]"
proof -
  obtain q where first: "perform_job unreachable library_args (library_state [fill_job JobQueued 0]) =
      (Inr (), library_state [retried_job]\<lparr>is_queue := q\<rparr>)"
    and q: "q_lifecycles q = [requeued ((deferred 6 library_error (claimed 5 (queued_row 0 (limited_job 11))))\<lparr>lc_provider_job_id := None\<rparr>)]"
    using library_first by (elim exE conjE)
  let ?s = "library_state [retried_job]\<lparr>is_queue := q\<rparr>" and ?ev = "library_env knows_title"
  obtain t where st: "start_at (q_lifecycles (is_queue ?s)) 11 (ev_start ?ev) = Inr (Started 1, t)" "map lc_status t = [Running]"
    by (simp add: q library_env_def) (simp add: queue_eval)
  have "get_job (is_jobs ?s) (ia_job_id library_args) = Some retried_job" "ij_status retried_job = JobQueued"
    "ij_attempt retried_job = 1" "ia_lifecycle_id library_args = Some 11"
    by (simp_all add: get_job_def find_row_def library_state_def library_args_def retried_job_def fill_job_def)
  then have second: "perform_job ?ev library_args ?s = (Inr (), ?s\<lparr>is_queue := (is_queue ?s)\<lparr>q_lifecycles := t\<rparr>\<rparr>)"
    using retried_job_not_claimed [OF _ st(1)] by simp
  show ?thesis
    by (intro exI conjI, rule first, rule second)
      (simp_all add: st library_state_def retried_job_def fill_job_def older_version_def with_entity_def one_schema_def empty_db_def)
qed

end
