(* ===== verification/Retirement.thy ===== *)
theory Retirement
  imports Accounts Templates Query_Embedding Infer_Fill
begin

text \<open>
  \<open>src/models/tenant_tenants/retirement.rs\<close>: the inventory of a tenant, disabling it, cancelling its work, and
  its deletion.

  The deletion issues one statement for each table that needs an order and leaves the rest to the foreign
  keys; every statement is modelled with the cascades it sets off, and fails when a row that stays still
  refers to one that goes.  The tables that hold nothing the deletion reads (column preferences, audit log, worker classes, embedding
  vectors and settings, reindex schedules) are left out: all of them cascade with the workspace or the
  tenant.  The lemmas show that a disabled tenant cannot act in any way, and that the deletion
  removes the rows of the tenant and no others.
\<close>

section \<open>State\<close>

datatype retirement_action = RetDisabled | RetDeleted

record retirement_event_row =
  ev_tenant_id :: uuid
  ev_actor_user_id :: "uuid option"
  ev_action :: retirement_action

record retire_db =
  rt_library :: library_db
  rt_queue :: queue_store
  rt_requests :: "request_row list"
  rt_invites :: "invite_row list"
  rt_billing :: "tenant_billing_row list"
  rt_ledger :: "ledger_row list"
  rt_jobs :: inference_jobs
  rt_llm_keys :: "llm_key_row list"
  rt_events :: "retirement_event_row list"

abbreviation rt_identity :: "retire_db \<Rightarrow> identity_db" where
  "rt_identity s \<equiv> lb_identity (rt_library s)"

abbreviation rt_store :: "retire_db \<Rightarrow> db" where
  "rt_store s \<equiv> id_store (rt_identity s)"

definition change_identity :: "(identity_db \<Rightarrow> identity_db) \<Rightarrow> retire_db \<Rightarrow> retire_db" where
  "change_identity f s = s\<lparr>rt_library := (rt_library s)\<lparr>lb_identity := f (rt_identity s)\<rparr>\<rparr>"

definition change_store :: "(db \<Rightarrow> db) \<Rightarrow> retire_db \<Rightarrow> retire_db" where
  "change_store f = change_identity (\<lambda>i. i\<lparr>id_store := f (id_store i)\<rparr>)"

definition tenant_workspaces :: "retire_db \<Rightarrow> uuid \<Rightarrow> uuid list" where
  "tenant_workspaces s t = map wk_id (select_where (\<lambda>w. wk_tenant_id w = t) (db_workspaces (rt_store s)))"

section \<open>Inventory\<close>

record retirement_inventory =
  ri_tenant_id :: uuid
  ri_tenant_name :: string
  ri_disabled_at :: "instant option"
  ri_workspace_ids :: "uuid list"
  ri_memberships :: nat
  ri_shared_user_accounts :: nat
  ri_external_workspace_forks :: nat
  ri_workspace_grants :: nat
  ri_api_keys :: nat
  ri_jobs :: nat
  ri_active_jobs :: nat
  ri_dispatches :: nat
  ri_entities :: nat
  ri_relations :: nat
  ri_schemas :: nat
  ri_templates :: nat
  ri_identity_policy :: string

definition external_forks :: "retire_db \<Rightarrow> uuid \<Rightarrow> uuid list \<Rightarrow> nat" where
  "external_forks s t ws =
     count_where (\<lambda>f. fk_source_workspace_id f \<in> set ws \<and> fk_tenant_id f \<noteq> t) (db_forks (rt_store s))"

definition inventory :: "retire_db \<Rightarrow> uuid \<Rightarrow> retirement_inventory result" where
  "inventory s t =
     (if t = INFRASTRUCTURE_TENANT_ID
      then Inl (ValidationFailed ''the infrastructure tenant cannot be retired'' [])
      else rbind (find_tenant_by_id (rt_identity s) t) (\<lambda>tenant.
        let ws = sort (tenant_workspaces s t);
            of_ws = (\<lambda>w. w \<in> set ws);
            members = select_where (\<lambda>m. mb_tenant_id m = t) (id_members (rt_identity s));
            job_rows = select_where (\<lambda>j. lc_workspace_id j \<in> Some ` set ws) (q_lifecycles (rt_queue s))
        in Inr \<lparr>ri_tenant_id = t, ri_tenant_name = tn_name tenant, ri_disabled_at = tn_disabled_at tenant,
          ri_workspace_ids = ws,
          ri_memberships = length members,
          ri_shared_user_accounts = length (remdups (map mb_user_id (select_where (\<lambda>m.
             mb_user_id m \<in> mb_user_id ` set members \<and> mb_tenant_id m \<noteq> t) (id_members (rt_identity s))))),
          ri_external_workspace_forks = external_forks s t ws,
          ri_workspace_grants = count_where (\<lambda>m. of_ws (wm_workspace_id m)) (id_workspace_members (rt_identity s)),
          ri_api_keys = count_where (\<lambda>k. ak_tenant_id k = t \<and> ak_revoked_at k = None) (id_keys (rt_identity s)),
          ri_jobs = length job_rows,
          ri_active_jobs = count_where (\<lambda>j. lc_status j \<in> {Queued, Running, Retrying}) job_rows,
          ri_dispatches = count_where (\<lambda>o'. ob_workspace_id o' \<in> Some ` set ws) (q_outbox (rt_queue s)),
          ri_entities = count_where (\<lambda>e. of_ws (en_workspace_id e)) (db_entities (rt_store s)),
          ri_relations = count_where (\<lambda>r. of_ws (re_workspace_id r)) (db_relations (rt_store s)),
          ri_schemas = count_where (\<lambda>c. sc_tenant_id c = t) (db_schemas (rt_store s)),
          ri_templates = count_where (\<lambda>x. tp_tenant_id x = t) (lb_templates (rt_library s)),
          ri_identity_policy = ''retain_all_user_accounts''\<rparr>))"

definition inventory_as :: "instant \<Rightarrow> retire_db \<Rightarrow> auth_context \<Rightarrow> retirement_inventory result" where
  "inventory_as now s actor =
     rbind (require_current_tenant_owner now (rt_identity s) actor) (\<lambda>_. inventory s (au_tenant_id actor))"

section \<open>Disabling\<close>

definition cancel_lifecycle :: "instant \<Rightarrow> lifecycle_row \<Rightarrow> lifecycle_row" where
  "cancel_lifecycle now r = r\<lparr>lc_status := Cancelled, lc_cancelled_at := Some now, lc_lease_until := None,
     lc_error := Some ''tenant disabled''\<rparr>"

definition cancel_work :: "instant \<Rightarrow> retire_db \<Rightarrow> uuid \<Rightarrow> retire_db result" where
  "cancel_work now s t =
     (if t = INFRASTRUCTURE_TENANT_ID then Inl Unauthenticated
      else rbind (find_tenant_by_id (rt_identity s) t) (\<lambda>tenant.
        if tn_disabled_at tenant = None then Inl (Conflict ''disable the tenant before cancelling its work'')
        else let ws = tenant_workspaces s t in
          case update_lifecycles (\<lambda>r. lc_workspace_id r \<in> Some ` set ws \<and> lc_status r \<notin> {lifecycle_status.Completed, Cancelled})
                 (cancel_lifecycle now) (q_lifecycles (rt_queue s)) of
            Inl _ \<Rightarrow> Inl (Internal ''constraint'')
          | Inr (_, lifecycles') \<Rightarrow>
              Inr (s\<lparr>rt_queue := \<lparr>q_lifecycles = lifecycles',
                       q_outbox = delete_where (\<lambda>x. ob_workspace_id x \<in> Some ` set ws) (q_outbox (rt_queue s))\<rparr>,
                     rt_requests := update_where (\<lambda>r. rq_workspace_id r \<in> set ws \<and> rq_status r = QPending)
                       (\<lambda>r. r\<lparr>rq_status := QFailed, rq_error := Some ''tenant disabled'', rq_completed_at := Some now\<rparr>)
                       (rt_requests s)\<rparr>)))"

definition record_event :: "uuid \<Rightarrow> uuid option \<Rightarrow> retirement_action \<Rightarrow> retire_db \<Rightarrow> retire_db" where
  "record_event t actor action s =
     s\<lparr>rt_events := rt_events s @ [\<lparr>ev_tenant_id = t, ev_actor_user_id = actor, ev_action = action\<rparr>]\<rparr>"

definition mark_disabled :: "instant \<Rightarrow> uuid \<Rightarrow> identity_db \<Rightarrow> identity_db" where
  "mark_disabled now t i =
     i\<lparr>id_tenants := update_where (\<lambda>x. tn_id x = t) (\<lambda>x. x\<lparr>tn_disabled_at := Some now\<rparr>) (id_tenants i)\<rparr>"

definition disable_in_transaction ::
  "(string \<Rightarrow> string) \<Rightarrow> instant \<Rightarrow> (uuid \<Rightarrow> string) \<Rightarrow> retire_db \<Rightarrow> uuid \<Rightarrow> uuid option \<Rightarrow> retire_db result" where
  "disable_in_transaction hash_key now fresh s t actor_user_id =
     rbind (find_tenant_by_id (rt_identity s) t) (\<lambda>tenant.
     let newly_disabled = (tn_disabled_at tenant = None);
         i = (if newly_disabled then mark_disabled now t (rt_identity s) else rt_identity s)
     in rbind (revoke_matching hash_key now fresh i (\<lambda>k. ak_tenant_id k = t)) (\<lambda>i'.
     rbind (cancel_work now (change_identity (\<lambda>_. i') s) t) (\<lambda>s'.
     Inr (if newly_disabled then record_event t actor_user_id RetDisabled s' else s'))))"

definition confirmed :: "string \<Rightarrow> uuid \<Rightarrow> uuid \<Rightarrow> unit result" where
  "confirmed message t confirmed_tenant_id =
     ensure (confirmed_tenant_id = t \<and> t \<noteq> INFRASTRUCTURE_TENANT_ID) (ValidationFailed message [])"

definition disable_as ::
  "(string \<Rightarrow> string) \<Rightarrow> instant \<Rightarrow> (uuid \<Rightarrow> string) \<Rightarrow> retire_db \<Rightarrow> auth_context \<Rightarrow> uuid \<Rightarrow> retire_db result" where
  "disable_as hash_key now fresh s actor confirmed_tenant_id =
     rbind (confirmed ''tenant retirement confirmation does not match the target'' (au_tenant_id actor) confirmed_tenant_id) (\<lambda>_.
     rbind (require_current_tenant_owner now (rt_identity s) actor) (\<lambda>user_id.
     disable_in_transaction hash_key now fresh s (au_tenant_id actor) (Some user_id)))"

definition disable_by_operator ::
  "(string \<Rightarrow> string) \<Rightarrow> instant \<Rightarrow> (uuid \<Rightarrow> string) \<Rightarrow> retire_db \<Rightarrow> uuid \<Rightarrow> uuid \<Rightarrow> retire_db result" where
  "disable_by_operator hash_key now fresh s t confirmed_tenant_id =
     rbind (confirmed ''tenant retirement confirmation does not match the target'' t confirmed_tenant_id) (\<lambda>_.
     disable_in_transaction hash_key now fresh s t None)"

section \<open>Deletion\<close>

text \<open>The statements, in the order of the source, each with its cascades.\<close>

definition drop_forks :: "uuid \<Rightarrow> db \<Rightarrow> db" where
  "drop_forks t d =
     (let gone = fk_id ` set (select_where (\<lambda>f. fk_tenant_id f = t) (db_forks d))
      in d\<lparr>db_fork_heads := delete_where (\<lambda>h. fh_fork_id h \<in> gone) (delete_where (\<lambda>h. fh_tenant_id h = t) (db_fork_heads d)),
           db_forks := delete_where (\<lambda>f. fk_tenant_id f = t) (db_forks d)\<rparr>)"

definition detach_workspaces :: "uuid \<Rightarrow> db \<Rightarrow> db" where
  "detach_workspaces t d =
     d\<lparr>db_workspaces := update_where (\<lambda>w. wk_tenant_id w = t) (\<lambda>w. w\<lparr>wk_schema_id := None\<rparr>) (db_workspaces d)\<rparr>"

definition drop_entities :: "uuid list \<Rightarrow> db \<Rightarrow> db" where
  "drop_entities ws d =
     (let gone = en_id ` set (select_where (\<lambda>e. en_workspace_id e \<in> set ws) (db_entities d))
      in d\<lparr>db_entities := delete_where (\<lambda>e. en_workspace_id e \<in> set ws) (db_entities d),
           db_relations := delete_where (\<lambda>r. re_source_id r \<in> gone \<or> re_target_id r \<in> gone) (db_relations d)\<rparr>)"

definition detach_schemas :: "instant \<Rightarrow> uuid set \<Rightarrow> schema_row list \<Rightarrow> schema_row list" where
  "detach_schemas now gone t =
     update_where (\<lambda>r. sc_origin_template_id r \<in> Some ` gone) (\<lambda>r. r\<lparr>sc_origin_template_id := None\<rparr>)
       (update_where (\<lambda>r. sc_origin_template_id r \<in> Some ` gone \<and> sc_origin_status r = Linked)
          (\<lambda>r. r\<lparr>sc_origin_status := Detached, sc_updated_at := Some now\<rparr>) t)"

definition drop_templates :: "instant \<Rightarrow> uuid \<Rightarrow> library_db \<Rightarrow> library_db" where
  "drop_templates now t l =
     (let gone = tp_id ` set (select_where (\<lambda>x. tp_tenant_id x = t) (lb_templates l)); i = lb_identity l; d = id_store i
      in l\<lparr>lb_identity := i\<lparr>id_store := d\<lparr>db_schemas := detach_schemas now gone (db_schemas d)\<rparr>\<rparr>,
           lb_templates := update_where (\<lambda>x. tp_fork_of x \<in> Some ` gone) (\<lambda>x. x\<lparr>tp_fork_of := None\<rparr>)
             (delete_where (\<lambda>x. tp_tenant_id x = t) (lb_templates l)),
           lb_versions := delete_where (\<lambda>v. tv_template_id v \<in> gone) (lb_versions l),
           lb_reviews := delete_where (\<lambda>r. rv_template_id r \<in> gone) (lb_reviews l)\<rparr>)"

text \<open>Schemas go only when no fork, fork head, workspace or entity that stays refers to them.\<close>

definition schemas_referenced :: "uuid set \<Rightarrow> db \<Rightarrow> bool" where
  "schemas_referenced gone d \<longleftrightarrow>
     (\<exists>f \<in> set (db_forks d). fk_source_schema_id f \<in> gone \<or> fk_fork_schema_id f \<in> gone) \<or>
     (\<exists>h \<in> set (db_fork_heads d). fh_schema_id h \<in> gone) \<or>
     (\<exists>w \<in> set (db_workspaces d). wk_schema_id w \<in> Some ` gone) \<or>
     (\<exists>e \<in> set (db_entities d). en_schema_id e \<in> gone)"

definition drop_workspace_rows :: "uuid list \<Rightarrow> db \<Rightarrow> db result" where
  "drop_workspace_rows ws d =
     (let gone_schemas = sc_id ` set (select_where (\<lambda>c. sc_workspace_id c \<in> set ws) (db_schemas d));
          gone_forks = fk_id ` set (select_where (\<lambda>f. fk_workspace_id f \<in> set ws) (db_forks d));
          rest = d\<lparr>db_workspaces := delete_where (\<lambda>w. wk_id w \<in> set ws) (db_workspaces d),
                   db_entities := delete_where (\<lambda>e. en_workspace_id e \<in> set ws) (db_entities d)\<rparr>
      in if (\<exists>f \<in> set (db_forks d). fk_source_workspace_id f \<in> set ws) \<or> schemas_referenced gone_schemas rest
         then Inl (Internal ''constraint'')
         else Inr (rest\<lparr>db_schemas := delete_where (\<lambda>c. sc_workspace_id c \<in> set ws) (db_schemas d),
                        db_relations := delete_where (\<lambda>r. re_workspace_id r \<in> set ws) (db_relations d),
                        db_snapshots := delete_where (\<lambda>n. sn_workspace_id n \<in> set ws) (db_snapshots d),
                        db_proposals := delete_where (\<lambda>p. pr_workspace_id p \<in> set ws) (db_proposals d),
                        db_forks := delete_where (\<lambda>f. fk_workspace_id f \<in> set ws) (db_forks d),
                        db_fork_heads := delete_where (\<lambda>h. fh_fork_id h \<in> gone_forks) (db_fork_heads d)\<rparr>))"

definition drop_workspaces :: "uuid list \<Rightarrow> retire_db \<Rightarrow> retire_db result" where
  "drop_workspaces ws s =
     rbind (drop_workspace_rows ws (rt_store s)) (\<lambda>d.
     Inr ((change_identity (\<lambda>i. i\<lparr>id_store := d,
             id_workspace_members := delete_where (\<lambda>m. wm_workspace_id m \<in> set ws) (id_workspace_members i),
             id_keys := delete_where (\<lambda>k. ak_workspace_id k \<in> Some ` set ws) (id_keys i)\<rparr>) s)
          \<lparr>rt_requests := delete_where (\<lambda>r. rq_workspace_id r \<in> set ws) (rt_requests s),
           rt_ledger := delete_where (\<lambda>r. le_workspace_id r \<in> set ws) (rt_ledger s),
           rt_jobs := delete_where (\<lambda>j. ij_workspace_id j \<in> set ws) (rt_jobs s),
           rt_llm_keys := delete_where (\<lambda>k. lk_workspace_id k \<in> set ws) (rt_llm_keys s)\<rparr>))"

definition drop_tenant :: "uuid \<Rightarrow> retire_db \<Rightarrow> retire_db result" where
  "drop_tenant t s =
     (let gone_schemas = sc_id ` set (select_where (\<lambda>c. sc_tenant_id c = t) (db_schemas (rt_store s)))
      in if schemas_referenced gone_schemas (rt_store s) \<or> t \<in> tp_tenant_id ` set (lb_templates (rt_library s))
         then Inl (Internal ''constraint'')
         else Inr (s\<lparr>rt_library := (rt_library s)
                \<lparr>lb_identity := (rt_identity s)
                   \<lparr>id_store := (rt_store s)\<lparr>db_schemas := delete_where (\<lambda>c. sc_tenant_id c = t) (db_schemas (rt_store s))\<rparr>,
                    id_tenants := delete_where (\<lambda>x. tn_id x = t) (id_tenants (rt_identity s)),
                    id_members := delete_where (\<lambda>m. mb_tenant_id m = t) (id_members (rt_identity s)),
                    id_keys := delete_where (\<lambda>k. ak_tenant_id k = t) (id_keys (rt_identity s))\<rparr>,
                 lb_reviews := delete_where (\<lambda>r. rv_tenant_id r = t) (lb_reviews (rt_library s))\<rparr>,
              rt_invites := delete_where (\<lambda>v. iv_tenant_id v = t) (rt_invites s),
              rt_billing := delete_where (\<lambda>b. tb_tenant_id b = t) (rt_billing s)\<rparr>))"

definition delete_rows :: "instant \<Rightarrow> uuid \<Rightarrow> uuid list \<Rightarrow> retire_db \<Rightarrow> retire_db result" where
  "delete_rows now t ws s =
     (let s1 = change_identity (\<lambda>i. i\<lparr>id_keys := delete_where (\<lambda>k. ak_tenant_id k = t) (id_keys i)\<rparr>) s;
          s2 = change_store (\<lambda>d. drop_entities ws (detach_workspaces t (drop_forks t d))) s1;
          s3 = s2\<lparr>rt_queue := (rt_queue s2)\<lparr>q_lifecycles :=
                  delete_where (\<lambda>r. lc_workspace_id r \<in> Some ` set ws) (q_lifecycles (rt_queue s2))\<rparr>\<rparr>;
          s4 = s3\<lparr>rt_library := drop_templates now t (rt_library s3)\<rparr>
      in rbind (drop_workspaces (tenant_workspaces s4 t) s4) (\<lambda>s5.
         rbind (drop_tenant t s5) (\<lambda>s6. Inr (record_event t None RetDeleted s6))))"

definition delete_by_operator :: "instant \<Rightarrow> retire_db \<Rightarrow> uuid \<Rightarrow> uuid \<Rightarrow> retire_db result" where
  "delete_by_operator now s t confirmed_tenant_id =
     rbind (confirmed ''tenant deletion confirmation does not match the target'' t confirmed_tenant_id) (\<lambda>_.
     case find_row (\<lambda>x. tn_id x = t) (id_tenants (rt_identity s)) of
       None \<Rightarrow>
         if \<exists>e \<in> set (rt_events s). ev_tenant_id e = t \<and> ev_action e = RetDeleted then Inr s
         else Inl (NotFound ''tenant not found'')
     | Some tenant \<Rightarrow>
         if tn_disabled_at tenant = None then Inl (Conflict ''disable the tenant before irreversible deletion'')
         else rbind (inventory s t) (\<lambda>snapshot.
           if ri_external_workspace_forks snapshot \<noteq> 0
           then Inl (Conflict ''external workspace forks must be resolved before tenant deletion'')
           else rbind (cancel_work now s t) (\<lambda>s1. delete_rows now t (ri_workspace_ids snapshot) s1)))"

section \<open>A disabled tenant cannot act\<close>

definition active_startup :: "lifecycle_row \<Rightarrow> bool" where
  "active_startup r \<longleftrightarrow> lc_job_name r = ''startup_reindex'' \<and> lc_workspace_id r \<noteq> None \<and> waiting_or_running (lc_status r)"

lemma startup_Cons:
  "startup_workspaces (r # t) = (if active_startup r then lc_workspace_id r # startup_workspaces t else startup_workspaces t)"
  by (simp add: startup_workspaces_def active_startup_def)

lemma not_startup [simp]: "\<not> active_startup (cancel_lifecycle now r)"
  by (simp add: active_startup_def cancel_lifecycle_def waiting_or_running_def)

lemma startup_cancel_subset:
  "set (startup_workspaces (update_where p (cancel_lifecycle now) t)) \<subseteq> set (startup_workspaces t)"
  by (induction t) (auto simp: update_where_def startup_Cons)

lemma startup_cancel:
  "distinct (startup_workspaces t) \<Longrightarrow> distinct (startup_workspaces (update_where p (cancel_lifecycle now) t))"
proof (induction t)
  case (Cons r t)
  have "update_where p (cancel_lifecycle now) (r # t) =
    (if p r then cancel_lifecycle now r else r) # update_where p (cancel_lifecycle now) t" by (simp add: update_where_def)
  then show ?case using Cons startup_cancel_subset [of p now t] by (auto simp: startup_Cons split: if_splits)
qed (simp add: startup_workspaces_def update_where_def)

lemma cancel_update:
  assumes "lifecycle_constraints t"
  shows "update_lifecycles p (cancel_lifecycle now) t = Inr (count_where p t, update_where p (cancel_lifecycle now) t)"
proof -
  have "map lc_id (update_where p (cancel_lifecycle now) t) = map lc_id t"
    "map lc_provider_job_id (update_where p (cancel_lifecycle now) t) = map lc_provider_job_id t"
    by (auto simp: update_where_def cancel_lifecycle_def)
  then have "lifecycle_constraints (update_where p (cancel_lifecycle now) t)"
    using assms startup_cancel unfolding lifecycle_constraints_def by simp
  then show ?thesis by (simp add: update_lifecycles_def write_lifecycles_def)
qed

text \<open>Nothing of the workspaces is waiting, running, due or pending.\<close>

definition work_stopped :: "uuid list \<Rightarrow> retire_db \<Rightarrow> bool" where
  "work_stopped ws s \<longleftrightarrow>
     (\<forall>r \<in> set (q_lifecycles (rt_queue s)). lc_workspace_id r \<in> Some ` set ws \<longrightarrow>
        lc_status r \<in> {lifecycle_status.Completed, Cancelled}) \<and>
     (\<forall>x \<in> set (q_outbox (rt_queue s)). ob_workspace_id x \<notin> Some ` set ws) \<and>
     (\<forall>r \<in> set (rt_requests s). rq_workspace_id r \<in> set ws \<longrightarrow> rq_status r \<noteq> QPending)"

text \<open>Nothing outside the workspaces has changed.\<close>

definition same_elsewhere :: "uuid list \<Rightarrow> retire_db \<Rightarrow> retire_db \<Rightarrow> bool" where
  "same_elsewhere ws s s' \<longleftrightarrow>
     delete_where (\<lambda>r. lc_workspace_id r \<in> Some ` set ws) (q_lifecycles (rt_queue s')) =
       delete_where (\<lambda>r. lc_workspace_id r \<in> Some ` set ws) (q_lifecycles (rt_queue s)) \<and>
     delete_where (\<lambda>x. ob_workspace_id x \<in> Some ` set ws) (q_outbox (rt_queue s')) =
       delete_where (\<lambda>x. ob_workspace_id x \<in> Some ` set ws) (q_outbox (rt_queue s)) \<and>
     delete_where (\<lambda>r. rq_workspace_id r \<in> set ws) (rt_requests s') =
       delete_where (\<lambda>r. rq_workspace_id r \<in> set ws) (rt_requests s) \<and>
     rt_store s' = rt_store s"

lemma delete_update_where:
  "(\<And>r. q r \<Longrightarrow> p r) \<Longrightarrow> (\<And>r. p (f r) = p r) \<Longrightarrow> delete_where p (update_where q f t) = delete_where p t"
  by (induction t) (auto simp: delete_where_def update_where_def)

lemma ball_update_where: "(\<forall>x \<in> set (update_where p f t). Q x) \<longleftrightarrow> (\<forall>x \<in> set t. if p x then Q (f x) else Q x)"
  by (auto simp: update_where_def)

lemma delete_delete_where: "delete_where p (delete_where q t) = delete_where (\<lambda>r. p r \<or> q r) t"
  by (auto simp: delete_where_def intro: filter_cong)

lemma delete_where_cong: "(\<And>r. r \<in> set t \<Longrightarrow> p r = q r) \<Longrightarrow> delete_where p t = delete_where q t"
  by (auto simp: delete_where_def intro: filter_cong)

lemma cancel_work_Inr:
  assumes "cancel_work now s t = Inr s'"
  shows "work_stopped (tenant_workspaces s t) s'" and "same_elsewhere (tenant_workspaces s t) s s'"
    and "rt_library s' = rt_library s" and "rt_events s' = rt_events s"
proof -
  let ?ws = "tenant_workspaces s t"
  let ?live = "\<lambda>r. lc_workspace_id r \<in> Some ` set ?ws \<and> lc_status r \<notin> {lifecycle_status.Completed, Cancelled}"
  obtain n l where u: "update_lifecycles ?live (cancel_lifecycle now) (q_lifecycles (rt_queue s)) = Inr (n, l)"
    and s': "s' = s\<lparr>rt_queue := \<lparr>q_lifecycles = l,
        q_outbox = delete_where (\<lambda>x. ob_workspace_id x \<in> Some ` set ?ws) (q_outbox (rt_queue s))\<rparr>,
      rt_requests := update_where (\<lambda>r. rq_workspace_id r \<in> set ?ws \<and> rq_status r = QPending)
        (\<lambda>r. r\<lparr>rq_status := QFailed, rq_error := Some ''tenant disabled'', rq_completed_at := Some now\<rparr>) (rt_requests s)\<rparr>"
    using assms by (auto simp: cancel_work_def rbind_Inr_iff Let_def split: if_splits sum.splits)
  have l: "l = update_where ?live (cancel_lifecycle now) (q_lifecycles (rt_queue s))"
    using u by (auto simp: update_lifecycles_def write_lifecycles_def rbind_Inr_iff split: if_splits)
  show "work_stopped ?ws s'"
    by (auto simp: work_stopped_def s' l ball_update_where set_delete_where cancel_lifecycle_def)
  show "same_elsewhere ?ws s s'"
    by (simp add: same_elsewhere_def s' l delete_delete_where)
      (intro conjI delete_update_where; auto simp: cancel_lifecycle_def)
  show "rt_library s' = rt_library s" "rt_events s' = rt_events s" by (simp_all add: s')
qed

lemma authenticated_tenant_active: "authenticated s requested key = Inr ctx \<Longrightarrow> require_active s (au_tenant_id ctx) = Inr ()"
  by (auto simp: authenticated_def with_current_membership_def rbind_Inr_iff context_of_def split: option.splits if_splits)

lemma login_tenant_active:
  "authenticate hash_key now s presented requested = Inr ctx \<or> authenticate_sqlite hash_key now s presented requested = Inr ctx \<Longrightarrow>
   require_active s (au_tenant_id ctx) = Inr ()"
  using authenticated_tenant_active unfolding authenticate_def authenticate_sqlite_def by blast

lemma revoke_keys_frame:
  "revoke_keys h now f ks i = Inr i' \<Longrightarrow> id_tenants i' = id_tenants i \<and> id_store i' = id_store i \<and>
     (\<forall>k' \<in> set (id_keys i'). \<exists>k \<in> set (id_keys i). ak_id k' = ak_id k \<and> ak_tenant_id k' = ak_tenant_id k)"
proof (induction ks arbitrary: i)
  case (Cons k ks)
  then obtain i1 where d: "delete_for_tenant h now (f (ak_id k)) i (ak_tenant_id k) (ak_id k) = Inr i1"
    and r: "revoke_keys h now f ks i1 = Inr i'"
    by (auto simp: rbind_Inr_iff)
  note i1 = conjunct2 [OF delete_for_tenant_Inr [OF d]]
  have same: "\<exists>x \<in> set (id_keys i). ak_id k' = ak_id x \<and> ak_tenant_id k' = ak_tenant_id x" if "k' \<in> set (id_keys i1)" for k'
  proof -
    from that obtain x where "x \<in> set (id_keys i)" "ak_id k' = ak_id x" "ak_tenant_id k' = ak_tenant_id x"
      unfolding i1 update_where_def by (auto split: if_splits)
    then show ?thesis by (intro bexI [of _ x]) simp_all
  qed
  have "id_tenants i1 = id_tenants i" "id_store i1 = id_store i" by (simp_all add: i1)
  then show ?case using Cons.IH [OF r] same by metis
qed auto

lemma disable_in_transaction_Inr:
  assumes "distinct (map ak_id (id_keys (rt_identity s)))" and "distinct (map tn_id (id_tenants (rt_identity s)))"
    and "disable_in_transaction hash_key now fresh s t u = Inr s'"
  shows "require_active (rt_identity s') t = Inl Unauthenticated"
    and "\<forall>k \<in> set (id_keys (rt_identity s')). ak_tenant_id k = t \<longrightarrow> ak_revoked_at k \<noteq> None"
    and "work_stopped (tenant_workspaces s t) s'" and "same_elsewhere (tenant_workspaces s t) s s'"
proof -
  obtain tenant i i' s1 where tn: "find_row (\<lambda>x. tn_id x = t) (id_tenants (rt_identity s)) = Some tenant"
    and i: "i = (if tn_disabled_at tenant = None then mark_disabled now t (rt_identity s) else rt_identity s)"
    and r: "revoke_matching hash_key now fresh i (\<lambda>k. ak_tenant_id k = t) = Inr i'"
    and c: "cancel_work now (change_identity (\<lambda>_. i') s) t = Inr s1"
    and s': "s' = (if tn_disabled_at tenant = None then record_event t u RetDisabled s1 else s1)"
    using assms(3) by (auto simp: disable_in_transaction_def find_tenant_by_id_def rbind_Inr_iff ok_or_Inr_iff Let_def)
  have fr: "id_tenants i' = id_tenants i" "id_store i' = id_store i"
    "\<forall>k' \<in> set (id_keys i'). \<exists>k \<in> set (id_keys i). ak_id k' = ak_id k \<and> ak_tenant_id k' = ak_tenant_id k"
    using revoke_keys_frame r unfolding revoke_matching_def by blast+
  have i0: "id_store i = rt_store s" "id_keys i = id_keys (rt_identity s)" by (simp_all add: i mark_disabled_def)
  have ws: "tenant_workspaces (change_identity (\<lambda>_. i') s) t = tenant_workspaces s t"
    by (simp add: tenant_workspaces_def change_identity_def fr(2) i0)
  note cw = cancel_work_Inr [OF c, unfolded ws]
  have lib: "rt_identity s' = i'" using cw(3) by (simp add: s' record_event_def change_identity_def)
  have "\<forall>x \<in> set (id_tenants i). tn_id x = t \<longrightarrow> tn_disabled_at x \<noteq> None"
    using tn assms(2) by (auto simp: i mark_disabled_def update_where_def dest!: find_row_Some dest: distinct_key_unique)
  then show "require_active (rt_identity s') t = Inl Unauthenticated"
    by (auto simp: lib fr(1) require_active_def split: option.splits dest!: find_row_Some)
  have "retired {j. \<exists>k \<in> set (id_keys i). ak_tenant_id k = t \<and> ak_id k = j} i'"
    using revoke_matching_retires(1) [OF _ r] assms(1) i0 by simp
  then show "\<forall>k \<in> set (id_keys (rt_identity s')). ak_tenant_id k = t \<longrightarrow> ak_revoked_at k \<noteq> None"
    using fr(3) unfolding lib retired_def by fastforce
  show "work_stopped (tenant_workspaces s t) s'"
    using cw(1) by (simp add: s' work_stopped_def record_event_def)
  show "same_elsewhere (tenant_workspaces s t) s s'"
    using cw(2,3) by (auto simp: s' same_elsewhere_def record_event_def change_identity_def fr(2) i0)
qed


section \<open>Deletion removes the tenant and nothing else\<close>

text \<open>
  The specification: every table without the rows of the tenant; elsewhere only the references to its
  templates are cut.
\<close>

definition store_without :: "instant \<Rightarrow> uuid \<Rightarrow> uuid set \<Rightarrow> uuid set \<Rightarrow> db \<Rightarrow> db" where
  "store_without now t ws templates d =
     \<lparr>db_workspaces = delete_where (\<lambda>w. wk_tenant_id w = t) (db_workspaces d),
      db_schemas = delete_where (\<lambda>c. sc_tenant_id c = t) (detach_schemas now templates (db_schemas d)),
      db_entities = delete_where (\<lambda>e. en_workspace_id e \<in> ws) (db_entities d),
      db_relations = delete_where (\<lambda>r. re_workspace_id r \<in> ws) (db_relations d),
      db_snapshots = delete_where (\<lambda>n. sn_workspace_id n \<in> ws) (db_snapshots d),
      db_proposals = delete_where (\<lambda>p. pr_workspace_id p \<in> ws) (db_proposals d),
      db_forks = delete_where (\<lambda>f. fk_tenant_id f = t) (db_forks d),
      db_fork_heads = delete_where (\<lambda>h. fh_tenant_id h = t) (db_fork_heads d)\<rparr>"

definition identity_without :: "instant \<Rightarrow> uuid \<Rightarrow> uuid set \<Rightarrow> uuid set \<Rightarrow> identity_db \<Rightarrow> identity_db" where
  "identity_without now t ws templates i =
     \<lparr>id_store = store_without now t ws templates (id_store i),
      id_tenants = delete_where (\<lambda>x. tn_id x = t) (id_tenants i),
      id_users = id_users i,
      id_members = delete_where (\<lambda>m. mb_tenant_id m = t) (id_members i),
      id_workspace_members = delete_where (\<lambda>m. wm_workspace_id m \<in> ws) (id_workspace_members i),
      id_keys = delete_where (\<lambda>k. ak_tenant_id k = t) (id_keys i)\<rparr>"

definition library_without :: "instant \<Rightarrow> uuid \<Rightarrow> uuid set \<Rightarrow> uuid set \<Rightarrow> library_db \<Rightarrow> library_db" where
  "library_without now t ws templates l =
     \<lparr>lb_identity = identity_without now t ws templates (lb_identity l),
      lb_templates = update_where (\<lambda>x. tp_fork_of x \<in> Some ` templates) (\<lambda>x. x\<lparr>tp_fork_of := None\<rparr>)
        (delete_where (\<lambda>x. tp_tenant_id x = t) (lb_templates l)),
      lb_versions = delete_where (\<lambda>v. tv_template_id v \<in> templates) (lb_versions l),
      lb_reviews = delete_where (\<lambda>r. rv_template_id r \<in> templates \<or> rv_tenant_id r = t) (lb_reviews l)\<rparr>"

definition without_tenant :: "instant \<Rightarrow> uuid \<Rightarrow> retire_db \<Rightarrow> retire_db" where
  "without_tenant now t s =
     (let ws = set (tenant_workspaces s t);
          templates = tp_id ` set (select_where (\<lambda>x. tp_tenant_id x = t) (lb_templates (rt_library s)))
      in \<lparr>rt_library = library_without now t ws templates (rt_library s),
          rt_queue = \<lparr>q_lifecycles = delete_where (\<lambda>r. lc_workspace_id r \<in> Some ` ws) (q_lifecycles (rt_queue s)),
                      q_outbox = delete_where (\<lambda>x. ob_workspace_id x \<in> Some ` ws) (q_outbox (rt_queue s))\<rparr>,
          rt_requests = delete_where (\<lambda>r. rq_workspace_id r \<in> ws) (rt_requests s),
          rt_invites = delete_where (\<lambda>v. iv_tenant_id v = t) (rt_invites s),
          rt_billing = delete_where (\<lambda>b. tb_tenant_id b = t) (rt_billing s),
          rt_ledger = delete_where (\<lambda>r. le_workspace_id r \<in> ws) (rt_ledger s),
          rt_jobs = delete_where (\<lambda>j. ij_workspace_id j \<in> ws) (rt_jobs s),
          rt_llm_keys = delete_where (\<lambda>k. lk_workspace_id k \<in> ws) (rt_llm_keys s),
          rt_events = rt_events s @ [\<lparr>ev_tenant_id = t, ev_actor_user_id = None, ev_action = RetDeleted\<rparr>]\<rparr>)"

text \<open>What the composite keys of the tables guarantee: a row and the rows it refers to are of one tenant.\<close>

definition forks_tenancy :: "db \<Rightarrow> uuid \<Rightarrow> uuid set \<Rightarrow> bool" where
  "forks_tenancy d t ws \<longleftrightarrow>
     (\<forall>f \<in> set (db_forks d). fk_workspace_id f \<in> ws \<longrightarrow> fk_tenant_id f = t) \<and>
     (\<forall>f \<in> set (db_forks d). \<forall>h \<in> set (db_fork_heads d). fh_fork_id h = fk_id f \<longrightarrow> fh_tenant_id h = fk_tenant_id f) \<and>
     (\<forall>c \<in> set (db_schemas d). sc_workspace_id c \<in> ws \<longrightarrow>
        (\<forall>f \<in> set (db_forks d). fk_source_schema_id f = sc_id c \<longrightarrow> fk_source_workspace_id f \<in> ws) \<and>
        (\<forall>f \<in> set (db_forks d). fk_fork_schema_id f = sc_id c \<longrightarrow> fk_tenant_id f = t) \<and>
        (\<forall>h \<in> set (db_fork_heads d). fh_schema_id h = sc_id c \<longrightarrow> fh_tenant_id h = t))"

definition tenancy_ok :: "retire_db \<Rightarrow> uuid \<Rightarrow> bool" where
  "tenancy_ok s t \<longleftrightarrow>
     (let d = rt_store s; ws = set (tenant_workspaces s t) in
      (\<forall>w \<in> set (db_workspaces d). wk_id w \<in> ws \<longleftrightarrow> wk_tenant_id w = t) \<and>
      (\<forall>c \<in> set (db_schemas d). sc_workspace_id c \<in> ws \<longleftrightarrow> sc_tenant_id c = t) \<and>
      (\<forall>c \<in> set (db_schemas d). sc_workspace_id c \<in> ws \<longrightarrow>
         (\<forall>w \<in> set (db_workspaces d). wk_schema_id w = Some (sc_id c) \<longrightarrow> wk_tenant_id w = t) \<and>
         (\<forall>e \<in> set (db_entities d). en_schema_id e = sc_id c \<longrightarrow> en_workspace_id e \<in> ws)) \<and>
      (\<forall>r \<in> set (db_relations d). \<forall>e \<in> set (db_entities d). en_id e = re_source_id r \<or> en_id e = re_target_id r \<longrightarrow>
         en_workspace_id e = re_workspace_id r) \<and>
      (\<forall>k \<in> set (id_keys (rt_identity s)). ak_workspace_id k \<in> Some ` ws \<longrightarrow> ak_tenant_id k = t) \<and>
      forks_tenancy d t ws \<and> lifecycle_constraints (q_lifecycles (rt_queue s)))"

lemma delete_idle: "(\<And>r. r \<in> set t \<Longrightarrow> \<not> p r) \<Longrightarrow> delete_where p t = t"
  by (simp add: delete_where_def)

lemma delete_idem: "delete_where p (delete_where p t) = delete_where p t"
  by (simp add: delete_where_def)

lemma detach_schemas_keys:
  "(\<forall>c \<in> set (detach_schemas now g t). Q (sc_id c) (sc_workspace_id c) (sc_tenant_id c)) \<longleftrightarrow>
   (\<forall>c \<in> set t. Q (sc_id c) (sc_workspace_id c) (sc_tenant_id c))"
  by (simp add: detach_schemas_def ball_update_where)

text \<open>The store once the statements before the workspaces have run.\<close>

definition prepared :: "instant \<Rightarrow> uuid \<Rightarrow> uuid list \<Rightarrow> uuid set \<Rightarrow> db \<Rightarrow> db" where
  "prepared now t ws templates d =
     (let d1 = drop_entities ws (detach_workspaces t (drop_forks t d))
      in d1\<lparr>db_schemas := detach_schemas now templates (db_schemas d1)\<rparr>)"

lemma prepared_tables:
  assumes "forks_tenancy d t (set ws)"
    and "\<forall>r \<in> set (db_relations d). \<forall>e \<in> set (db_entities d).
      en_id e = re_source_id r \<or> en_id e = re_target_id r \<longrightarrow> en_workspace_id e = re_workspace_id r"
  shows "db_forks (prepared now t ws g d) = delete_where (\<lambda>f. fk_tenant_id f = t) (db_forks d)"
    and "db_fork_heads (prepared now t ws g d) = delete_where (\<lambda>h. fh_tenant_id h = t) (db_fork_heads d)"
    and "db_workspaces (prepared now t ws g d) =
      update_where (\<lambda>w. wk_tenant_id w = t) (\<lambda>w. w\<lparr>wk_schema_id := None\<rparr>) (db_workspaces d)"
    and "db_entities (prepared now t ws g d) = delete_where (\<lambda>e. en_workspace_id e \<in> set ws) (db_entities d)"
    and "db_schemas (prepared now t ws g d) = detach_schemas now g (db_schemas d)"
    and "delete_where (\<lambda>r. re_workspace_id r \<in> set ws) (db_relations (prepared now t ws g d)) =
      delete_where (\<lambda>r. re_workspace_id r \<in> set ws) (db_relations d)"
    and "db_snapshots (prepared now t ws g d) = db_snapshots d" and "db_proposals (prepared now t ws g d) = db_proposals d"
proof -
  note defs = prepared_def Let_def drop_entities_def detach_workspaces_def drop_forks_def
  show "db_forks (prepared now t ws g d) = delete_where (\<lambda>f. fk_tenant_id f = t) (db_forks d)"
    "db_workspaces (prepared now t ws g d) = update_where (\<lambda>w. wk_tenant_id w = t) (\<lambda>w. w\<lparr>wk_schema_id := None\<rparr>) (db_workspaces d)"
    "db_entities (prepared now t ws g d) = delete_where (\<lambda>e. en_workspace_id e \<in> set ws) (db_entities d)"
    "db_schemas (prepared now t ws g d) = detach_schemas now g (db_schemas d)"
    "db_snapshots (prepared now t ws g d) = db_snapshots d" "db_proposals (prepared now t ws g d) = db_proposals d"
    by (simp_all add: defs)
  show "db_fork_heads (prepared now t ws g d) = delete_where (\<lambda>h. fh_tenant_id h = t) (db_fork_heads d)"
    using assms(1) by (simp add: defs delete_delete_where forks_tenancy_def)
      (rule delete_where_cong, auto simp: set_select_where)
  show "delete_where (\<lambda>r. re_workspace_id r \<in> set ws) (db_relations (prepared now t ws g d)) =
      delete_where (\<lambda>r. re_workspace_id r \<in> set ws) (db_relations d)"
    using assms(2) by (simp add: defs delete_delete_where)
      (rule delete_where_cong, auto simp: set_select_where)
qed

lemma prepared_deletable:
  assumes "\<forall>w \<in> set (db_workspaces d). wk_id w \<in> set ws \<longleftrightarrow> wk_tenant_id w = t"
    and "\<forall>c \<in> set (db_schemas d). sc_workspace_id c \<in> set ws \<longrightarrow>
         (\<forall>w \<in> set (db_workspaces d). wk_schema_id w = Some (sc_id c) \<longrightarrow> wk_tenant_id w = t) \<and>
         (\<forall>e \<in> set (db_entities d). en_schema_id e = sc_id c \<longrightarrow> en_workspace_id e \<in> set ws)"
    and ft: "forks_tenancy d t (set ws)"
    and ext: "\<forall>f \<in> set (db_forks d). fk_source_workspace_id f \<in> set ws \<longrightarrow> fk_tenant_id f = t"
    and gone: "gone \<subseteq> {sc_id c | c. c \<in> set (db_schemas d) \<and> sc_workspace_id c \<in> set ws}"
    and d': "db_forks d' = delete_where (\<lambda>f. fk_tenant_id f = t) (db_forks d)"
      "db_fork_heads d' = delete_where (\<lambda>h. fh_tenant_id h = t) (db_fork_heads d)"
      "db_workspaces d' = delete_where (\<lambda>w. wk_tenant_id w = t) (db_workspaces d)"
      "db_entities d' = delete_where (\<lambda>e. en_workspace_id e \<in> set ws) (db_entities d)"
  shows "\<not> schemas_referenced gone d'"
proof
  assume "schemas_referenced gone d'"
  then obtain i where "i \<in> gone" and ref: "(\<exists>f \<in> set (db_forks d'). fk_source_schema_id f = i \<or> fk_fork_schema_id f = i) \<or>
     (\<exists>h \<in> set (db_fork_heads d'). fh_schema_id h = i) \<or> (\<exists>w \<in> set (db_workspaces d'). wk_schema_id w = Some i) \<or>
     (\<exists>e \<in> set (db_entities d'). en_schema_id e = i)"
    unfolding schemas_referenced_def by blast
  from subsetD [OF gone \<open>i \<in> gone\<close>] obtain c where c: "c \<in> set (db_schemas d)" "sc_workspace_id c \<in> set ws" "sc_id c = i"
    by blast
  have w: "wk_tenant_id w = t" if "w \<in> set (db_workspaces d)" "wk_schema_id w = Some i" for w
    using assms(2) c(1,2) that unfolding c(3) [symmetric] by simp
  have e: "en_workspace_id e \<in> set ws" if "e \<in> set (db_entities d)" "en_schema_id e = i" for e
    using assms(2) c(1,2) that unfolding c(3) [symmetric] by simp
  have owned: "(\<forall>f \<in> set (db_forks d). fk_source_schema_id f = i \<longrightarrow> fk_source_workspace_id f \<in> set ws) \<and>
      (\<forall>f \<in> set (db_forks d). fk_fork_schema_id f = i \<longrightarrow> fk_tenant_id f = t) \<and>
      (\<forall>h \<in> set (db_fork_heads d). fh_schema_id h = i \<longrightarrow> fh_tenant_id h = t)"
    using ft c(1,2) unfolding forks_tenancy_def c(3) [symmetric] by simp
  have f: "fk_tenant_id f = t" if "f \<in> set (db_forks d)" "fk_source_schema_id f = i \<or> fk_fork_schema_id f = i" for f
    using owned ext that by blast
  have h: "fh_tenant_id h = t" if "h \<in> set (db_fork_heads d)" "fh_schema_id h = i" for h
    using owned that by blast
  show False using ref w e f h unfolding d' set_delete_where by blast
qed

lemma drop_workspace_rows_prepared:
  assumes w: "\<forall>w \<in> set (db_workspaces d). wk_id w \<in> set ws \<longleftrightarrow> wk_tenant_id w = t"
    and c: "\<forall>c \<in> set (db_schemas d). sc_workspace_id c \<in> set ws \<longleftrightarrow> sc_tenant_id c = t"
    and refs: "\<forall>c \<in> set (db_schemas d). sc_workspace_id c \<in> set ws \<longrightarrow>
         (\<forall>w \<in> set (db_workspaces d). wk_schema_id w = Some (sc_id c) \<longrightarrow> wk_tenant_id w = t) \<and>
         (\<forall>e \<in> set (db_entities d). en_schema_id e = sc_id c \<longrightarrow> en_workspace_id e \<in> set ws)"
    and rel: "\<forall>r \<in> set (db_relations d). \<forall>e \<in> set (db_entities d).
      en_id e = re_source_id r \<or> en_id e = re_target_id r \<longrightarrow> en_workspace_id e = re_workspace_id r"
    and ft: "forks_tenancy d t (set ws)"
    and ext: "\<forall>f \<in> set (db_forks d). fk_source_workspace_id f \<in> set ws \<longrightarrow> fk_tenant_id f = t"
  shows "drop_workspace_rows ws (prepared now t ws g d) = Inr (store_without now t (set ws) g d)"
proof -
  let ?p = "prepared now t ws g d"
  note tables = prepared_tables [OF ft rel, of now g]
  have works: "delete_where (\<lambda>w. wk_id w \<in> set ws) (db_workspaces ?p) = delete_where (\<lambda>w. wk_tenant_id w = t) (db_workspaces d)"
  proof -
    have "delete_where (\<lambda>w. wk_id w \<in> set ws) (db_workspaces ?p) = delete_where (\<lambda>w. wk_tenant_id w = t) (db_workspaces ?p)"
      using w by (intro delete_where_cong) (auto simp: tables update_where_def)
    then show ?thesis by (simp add: tables delete_update_where)
  qed
  have gone: "sc_id ` set (select_where (\<lambda>c. sc_workspace_id c \<in> set ws) (db_schemas ?p)) \<subseteq>
      {sc_id c | c. c \<in> set (db_schemas d) \<and> sc_workspace_id c \<in> set ws}"
    using detach_schemas_keys [of now g "db_schemas d"
        "\<lambda>i w _. w \<in> set ws \<longrightarrow> (\<exists>c. i = sc_id c \<and> c \<in> set (db_schemas d) \<and> sc_workspace_id c \<in> set ws)"]
    by (simp add: tables set_select_where) blast
  have free: "\<not> (\<exists>f \<in> set (db_forks ?p). fk_source_workspace_id f \<in> set ws)" using ext by (auto simp: tables set_delete_where)
  have schemas: "delete_where (\<lambda>c. sc_workspace_id c \<in> set ws) (detach_schemas now g (db_schemas d)) =
      delete_where (\<lambda>c. sc_tenant_id c = t) (detach_schemas now g (db_schemas d))"
    by (rule delete_where_cong) (use c detach_schemas_keys [of now g "db_schemas d" "\<lambda>_ w x. w \<in> set ws \<longleftrightarrow> x = t"] in blast)
  have forks: "delete_where (\<lambda>f. fk_workspace_id f \<in> set ws) (db_forks ?p) = db_forks ?p"
    by (rule delete_idle) (use ft in \<open>auto simp: tables set_delete_where forks_tenancy_def\<close>)
  have heads: "delete_where (\<lambda>h. fh_fork_id h \<in> fk_id ` set (select_where (\<lambda>f. fk_workspace_id f \<in> set ws) (db_forks ?p))) (db_fork_heads ?p) =
      db_fork_heads ?p"
    by (rule delete_idle) (use ft in \<open>auto simp: tables set_delete_where set_select_where forks_tenancy_def\<close>)
  show ?thesis
    unfolding drop_workspace_rows_def Let_def
    using prepared_deletable [OF w refs ft ext gone, of "?p\<lparr>db_workspaces := delete_where (\<lambda>w. wk_id w \<in> set ws) (db_workspaces ?p),
        db_entities := delete_where (\<lambda>e. en_workspace_id e \<in> set ws) (db_entities ?p)\<rparr>"] free
    by (simp add: tables(1-5,7,8) works [unfolded tables] store_without_def delete_idem schemas forks [unfolded tables]
        heads [unfolded tables] tables(6))
qed

lemma drop_workspace_rows_cong: "set ws = set ws' \<Longrightarrow> drop_workspace_rows ws d = drop_workspace_rows ws' d"
  unfolding drop_workspace_rows_def by (simp only:)

lemma not_referenced_empty [simp]: "\<not> schemas_referenced {} d"
  by (simp add: schemas_referenced_def)

lemma select_delete_same [simp]: "select_where p (delete_where p t) = []"
  by (simp add: select_where_def delete_where_def)

lemma not_in_templates: "t \<notin> tp_tenant_id ` set (update_where p (\<lambda>x. x\<lparr>tp_fork_of := None\<rparr>) (delete_where (\<lambda>x. tp_tenant_id x = t) l))"
  by (auto simp: update_where_def delete_where_def)

text \<open>The state before the workspaces go.\<close>

definition before_workspaces :: "instant \<Rightarrow> uuid \<Rightarrow> uuid list \<Rightarrow> retire_db \<Rightarrow> retire_db" where
  "before_workspaces now t ws s =
     (let s1 = change_identity (\<lambda>i. i\<lparr>id_keys := delete_where (\<lambda>k. ak_tenant_id k = t) (id_keys i)\<rparr>) s;
          s2 = change_store (\<lambda>d. drop_entities ws (detach_workspaces t (drop_forks t d))) s1;
          s3 = s2\<lparr>rt_queue := (rt_queue s2)\<lparr>q_lifecycles :=
                  delete_where (\<lambda>r. lc_workspace_id r \<in> Some ` set ws) (q_lifecycles (rt_queue s2))\<rparr>\<rparr>
      in s3\<lparr>rt_library := drop_templates now t (rt_library s3)\<rparr>)"

lemma delete_rows_alt:
  "delete_rows now t ws s =
     (let s4 = before_workspaces now t ws s in
      rbind (drop_workspaces (tenant_workspaces s4 t) s4) (\<lambda>s5.
      rbind (drop_tenant t s5) (\<lambda>s6. Inr (record_event t None RetDeleted s6))))"
  by (simp add: delete_rows_def before_workspaces_def Let_def)

abbreviation templates_of :: "retire_db \<Rightarrow> uuid \<Rightarrow> uuid set" where
  "templates_of s t \<equiv> tp_id ` set (select_where (\<lambda>x. tp_tenant_id x = t) (lb_templates (rt_library s)))"

lemma before_workspaces_eq:
  "before_workspaces now t ws s =
     s\<lparr>rt_library := (rt_library s)\<lparr>
       lb_identity := (rt_identity s)\<lparr>id_store := prepared now t ws (templates_of s t) (rt_store s),
         id_keys := delete_where (\<lambda>k. ak_tenant_id k = t) (id_keys (rt_identity s))\<rparr>,
       lb_templates := update_where (\<lambda>x. tp_fork_of x \<in> Some ` templates_of s t) (\<lambda>x. x\<lparr>tp_fork_of := None\<rparr>)
         (delete_where (\<lambda>x. tp_tenant_id x = t) (lb_templates (rt_library s))),
       lb_versions := delete_where (\<lambda>v. tv_template_id v \<in> templates_of s t) (lb_versions (rt_library s)),
       lb_reviews := delete_where (\<lambda>r. rv_template_id r \<in> templates_of s t) (lb_reviews (rt_library s))\<rparr>,
     rt_queue := (rt_queue s)\<lparr>q_lifecycles :=
       delete_where (\<lambda>r. lc_workspace_id r \<in> Some ` set ws) (q_lifecycles (rt_queue s))\<rparr>\<rparr>"
  by (simp add: before_workspaces_def Let_def change_identity_def change_store_def drop_templates_def prepared_def)

lemma before_workspaces_kept: "tenant_workspaces (before_workspaces now t ws s) t = tenant_workspaces s t"
proof -
  have "db_workspaces (rt_store (before_workspaces now t ws s)) =
      update_where (\<lambda>w. wk_tenant_id w = t) (\<lambda>w. w\<lparr>wk_schema_id := None\<rparr>) (db_workspaces (rt_store s))"
    by (simp add: before_workspaces_eq prepared_def Let_def drop_entities_def detach_workspaces_def drop_forks_def)
  then show ?thesis
    unfolding tenant_workspaces_def by (simp add: select_where_def update_where_def filter_map comp_def if_distrib cong: if_cong)
qed

lemma delete_rows_spec:
  assumes ok: "tenancy_ok s t" and ws: "set ws = set (tenant_workspaces s t)"
    and ext: "external_forks s t (tenant_workspaces s t) = 0"
    and quiet: "\<forall>x \<in> set (q_outbox (rt_queue s)). ob_workspace_id x \<notin> Some ` set ws"
  shows "delete_rows now t ws s = Inr (without_tenant now t s)"
proof -
  let ?g = "templates_of s t"
  let ?d = "store_without now t (set ws) ?g (rt_store s)"
  note okd = ok [unfolded tenancy_ok_def Let_def, folded ws]
  have ext': "\<forall>f \<in> set (db_forks (rt_store s)). fk_source_workspace_id f \<in> set ws \<longrightarrow> fk_tenant_id f = t"
    using ext unfolding external_forks_def count_where_0 ws by blast
  have rows: "drop_workspace_rows (tenant_workspaces s t) (prepared now t ws ?g (rt_store s)) = Inr ?d"
    unfolding drop_workspace_rows_cong [OF ws [symmetric]]
    by (rule drop_workspace_rows_prepared) (insert okd ext', (elim conjE, assumption)+)
  have keys: "delete_where (\<lambda>k. ak_workspace_id k \<in> Some ` set ws) (delete_where (\<lambda>k. ak_tenant_id k = t) (id_keys (rt_identity s))) =
      delete_where (\<lambda>k. ak_tenant_id k = t) (id_keys (rt_identity s))"
    by (rule delete_idle) (use ok in \<open>auto simp: tenancy_ok_def Let_def ws set_delete_where\<close>)
  have outbox: "delete_where (\<lambda>x. ob_workspace_id x \<in> Some ` set ws) (q_outbox (rt_queue s)) = q_outbox (rt_queue s)"
    by (rule delete_idle) (use quiet in blast)
  have schemas: "delete_where (\<lambda>c. sc_tenant_id c = t) (db_schemas ?d) = db_schemas ?d" "select_where (\<lambda>c. sc_tenant_id c = t) (db_schemas ?d) = []"
    by (simp_all add: store_without_def delete_idem)
  have "drop_workspaces (tenant_workspaces s t) (before_workspaces now t ws s) =
    Inr (s\<lparr>rt_library := (rt_library s)\<lparr>
       lb_identity := (rt_identity s)\<lparr>id_store := ?d,
         id_workspace_members := delete_where (\<lambda>m. wm_workspace_id m \<in> set ws) (id_workspace_members (rt_identity s)),
         id_keys := delete_where (\<lambda>k. ak_tenant_id k = t) (id_keys (rt_identity s))\<rparr>,
       lb_templates := update_where (\<lambda>x. tp_fork_of x \<in> Some ` ?g) (\<lambda>x. x\<lparr>tp_fork_of := None\<rparr>)
         (delete_where (\<lambda>x. tp_tenant_id x = t) (lb_templates (rt_library s))),
       lb_versions := delete_where (\<lambda>v. tv_template_id v \<in> ?g) (lb_versions (rt_library s)),
       lb_reviews := delete_where (\<lambda>r. rv_template_id r \<in> ?g) (lb_reviews (rt_library s))\<rparr>,
     rt_queue := (rt_queue s)\<lparr>q_lifecycles := delete_where (\<lambda>r. lc_workspace_id r \<in> Some ` set ws) (q_lifecycles (rt_queue s))\<rparr>,
     rt_requests := delete_where (\<lambda>r. rq_workspace_id r \<in> set ws) (rt_requests s),
     rt_ledger := delete_where (\<lambda>r. le_workspace_id r \<in> set ws) (rt_ledger s),
     rt_jobs := delete_where (\<lambda>j. ij_workspace_id j \<in> set ws) (rt_jobs s),
     rt_llm_keys := delete_where (\<lambda>k. lk_workspace_id k \<in> set ws) (rt_llm_keys s)\<rparr>)"
    by (simp add: drop_workspaces_def before_workspaces_eq rows keys change_identity_def flip: ws)
  then show ?thesis
    by (simp add: delete_rows_alt Let_def before_workspaces_kept drop_tenant_def schemas not_in_templates delete_delete_where
        without_tenant_def library_without_def identity_without_def record_event_def outbox disj_commute flip: ws)
qed

lemma cancelled_tenancy:
  assumes "cancel_work now s t = Inr s1" and "tenancy_ok s t"
  shows "tenancy_ok s1 t" and "tenant_workspaces s1 t = tenant_workspaces s t" and "external_forks s1 t ws = external_forks s t ws"
    and "without_tenant now' t s1 = without_tenant now' t s"
proof -
  obtain l where l: "lifecycle_constraints l" "s1 = s\<lparr>rt_queue := rt_queue s1, rt_requests := rt_requests s1\<rparr>" "q_lifecycles (rt_queue s1) = l"
    using assms(1) by (auto simp: cancel_work_def rbind_Inr_iff Let_def update_lifecycles_def write_lifecycles_def split: if_splits sum.splits)
  note c = cancel_work_Inr [OF assms(1)]
  show ws: "tenant_workspaces s1 t = tenant_workspaces s t" by (simp add: tenant_workspaces_def c(3))
  show "external_forks s1 t ws = external_forks s t ws" by (simp add: external_forks_def c(3))
  show "tenancy_ok s1 t" using assms(2) l unfolding tenancy_ok_def Let_def ws c(3) by simp
  have "rt_invites s1 = rt_invites s" "rt_billing s1 = rt_billing s" "rt_ledger s1 = rt_ledger s" "rt_jobs s1 = rt_jobs s" "rt_llm_keys s1 = rt_llm_keys s"
    by (subst l(2), simp)+
  then show "without_tenant now' t s1 = without_tenant now' t s"
    using c(2) by (simp add: without_tenant_def Let_def ws c(3,4) same_elsewhere_def)
qed

lemma cancel_work_returns:
  assumes "lifecycle_constraints (q_lifecycles (rt_queue s))" "t \<noteq> INFRASTRUCTURE_TENANT_ID"
    and "find_row (\<lambda>x. tn_id x = t) (id_tenants (rt_identity s)) = Some tenant" "tn_disabled_at tenant \<noteq> None"
  obtains s1 where "cancel_work now s t = Inr s1"
  using assms by (simp add: cancel_work_def find_tenant_by_id_def cancel_update Let_def)


section \<open>Sample tenants\<close>

text \<open>Tenant 9 has a queued job and a pending search in workspace 3; workspace 77 is of tenant 12.\<close>

definition sample_job :: "uuid \<Rightarrow> uuid \<Rightarrow> lifecycle_row" where
  "sample_job i w = queued_row 2 \<lparr>eq_id = i, eq_job_name = ''fill_defaults'', eq_worker_class = Shared,
     eq_workspace_id = Some w, eq_plan = None, eq_concurrency_key = None, eq_concurrency_limit = None\<rparr>"

definition sample_request :: request_row where
  "sample_request = \<lparr>rq_id = 90, rq_workspace_id = 3, rq_query_text = ''q'', rq_status = QPending, rq_result_vector = None,
     rq_dimensions = None, rq_model = None, rq_error = None, rq_expires_at = 100, rq_deadline_at = Some 50, rq_completed_at = None\<rparr>"

definition two_tenants :: "instant option \<Rightarrow> retire_db" where
  "two_tenants disabled_at =
     \<lparr>rt_library = \<lparr>lb_identity = acme
        \<lparr>id_store := empty_db\<lparr>db_workspaces := [acme_workspace 3 ''main'', acme_workspace 4 ''lab'', (acme_workspace 77 ''other'')\<lparr>wk_tenant_id := 12\<rparr>]\<rparr>,
         id_tenants := [\<lparr>tn_id = 9, tn_name = ''acme'', tn_max_workspaces = Some 2, tn_disabled_at = disabled_at\<rparr>,
                        \<lparr>tn_id = 12, tn_name = ''other'', tn_max_workspaces = None, tn_disabled_at = None\<rparr>]\<rparr>,
        lb_templates = [], lb_versions = [], lb_reviews = []\<rparr>,
      rt_queue = \<lparr>q_lifecycles = [sample_job 80 3, sample_job 81 77], q_outbox = []\<rparr>,
      rt_requests = [sample_request], rt_invites = [], rt_billing = [], rt_ledger = [], rt_jobs = [], rt_llm_keys = [], rt_events = []\<rparr>"

lemmas two_tenants_defs = two_tenants_def sample_job_def sample_request_def queued_row_def acme_defs

lemma two_tenants_tenancy: "tenancy_ok (two_tenants a) 9"
  by (simp add: tenancy_ok_def forks_tenancy_def tenant_workspaces_def select_where_def two_tenants_defs lifecycle_constraints_def
      startup_workspaces_def Let_def)

lemma two_tenants_disable: "\<exists>s'. disable_by_operator id 5 (\<lambda>_. ''new'') (two_tenants None) 9 9 = Inr s'"
proof -
  have "\<exists>i. revoke_matching id 5 (\<lambda>_. ''new'') (mark_disabled 5 9 (rt_identity (two_tenants None))) (\<lambda>k. ak_tenant_id k = 9) = Inr i \<and>
      id_tenants i = id_tenants (mark_disabled 5 9 (rt_identity (two_tenants None)))"
    by (simp add: revoke_matching_def mark_disabled_def two_tenants_defs select_where_def delete_for_tenant_def update_where_def Let_def)
  then obtain i where i: "revoke_matching id 5 (\<lambda>_. ''new'') (mark_disabled 5 9 (rt_identity (two_tenants None))) (\<lambda>k. ak_tenant_id k = 9) = Inr i"
    and tn: "id_tenants i = id_tenants (mark_disabled 5 9 (rt_identity (two_tenants None)))" by blast
  have "\<exists>s'. cancel_work 5 (change_identity (\<lambda>_. i) (two_tenants None)) 9 = Inr s'"
    by (rule cancel_work_returns [of "change_identity (\<lambda>_. i) (two_tenants None)" 9])
      (auto simp: change_identity_def tn mark_disabled_def two_tenants_defs update_where_def find_row_def lifecycle_constraints_def
        startup_workspaces_def INFRASTRUCTURE_TENANT_ID_def)
  then show ?thesis
    using i by (auto simp: disable_by_operator_def disable_in_transaction_def confirmed_def INFRASTRUCTURE_TENANT_ID_def
        find_tenant_by_id_def find_row_def two_tenants_defs Let_def)
qed



end
