(* ===== verification/Schema_Forks.thy ===== *)
theory Schema_Forks
  imports Schema_Store
begin

text \<open>
  \<open>ee/models/workspace_schema_forks.rs\<close>: copies of another workspace's schema that can be edited locally or
  follow their source.

  A fork points at an archived schema row of its own workspace, its head; every edit inserts another head.
  On PostgreSQL the sources are read through functions that cross the workspace isolation, on SQLite by the
  same queries; both are one definition here.  The transactions that create a fork are serialised by one
  lock, so the search for a cycle and the insert are one step.  The lemmas show that the search ends and
  decides reachability, that no history makes the workspaces fork from each other in a circle, and
  that forks leave the schemas in use alone.
\<close>

section \<open>Reading\<close>

record fork_record =
  fr_id :: uuid
  fr_tenant_id :: uuid
  fr_workspace_id :: uuid
  fr_source_workspace_id :: uuid
  fr_source_schema_id :: uuid
  fr_source_schema_version :: int
  fr_source_schema_name :: string
  fr_fork_schema_id :: uuid
  fr_fork_schema_version :: int
  fr_customized :: bool
  fr_upstream_version :: "int option"
  fr_definition :: metaschema_definition
  fr_created_at :: instant
  fr_updated_at :: instant

record create_fork_input =
  cf_source_workspace_id :: uuid
  cf_source_schema_id :: uuid

record update_fork_input =
  uf_definition :: "metaschema_definition option"
  uf_action :: "string option"
  uf_force :: bool
  uf_expected_fork_schema_id :: "uuid option"
  uf_expected_source_schema_id :: "uuid option"

definition source_by_id :: "db \<Rightarrow> uuid \<Rightarrow> uuid \<Rightarrow> uuid \<Rightarrow> schema_row option" where
  "source_by_id d tenant_id source_workspace_id source_schema_id =
     find_row (\<lambda>s. sc_id s = source_schema_id \<and> sc_tenant_id s = tenant_id \<and> sc_workspace_id s = source_workspace_id)
       (db_schemas d)"

definition latest_source_by_name :: "db \<Rightarrow> uuid \<Rightarrow> uuid \<Rightarrow> string \<Rightarrow> schema_row option" where
  "latest_source_by_name d tenant_id source_workspace_id name =
     latest_by sc_version (select_where (\<lambda>s. sc_tenant_id s = tenant_id \<and> sc_workspace_id s = source_workspace_id \<and>
       sc_name s = name \<and> sc_status s = SchemaActive) (db_schemas d))"

definition fork_edges :: "db \<Rightarrow> uuid \<Rightarrow> uuid \<Rightarrow> uuid list" where
  "fork_edges d tenant_id workspace_id =
     map fk_source_workspace_id
       (select_where (\<lambda>f. fk_tenant_id f = tenant_id \<and> fk_workspace_id f = workspace_id) (db_forks d))"

definition current_source :: "db \<Rightarrow> uuid \<Rightarrow> uuid \<Rightarrow> uuid \<Rightarrow> schema_row result" where
  "current_source d tenant_id source_workspace_id source_schema_id =
     rbind (ok_or (source_by_id d tenant_id source_workspace_id source_schema_id)
              (NotFound ''source schema was not found'')) (\<lambda>source.
     if sc_status source \<noteq> SchemaActive
     then Inl (ValidationFailed ''source_schema_id must name the active source schema'' [])
     else Inr source)"

definition latest_source :: "db \<Rightarrow> uuid \<Rightarrow> uuid \<Rightarrow> string \<Rightarrow> schema_row result" where
  "latest_source d tenant_id source_workspace_id name =
     ok_or (latest_source_by_name d tenant_id source_workspace_id name) (NotFound ''source schema was not found'')"

definition get_fork :: "db \<Rightarrow> uuid \<Rightarrow> uuid \<Rightarrow> uuid \<Rightarrow> fork_row result" where
  "get_fork d tenant_id workspace_id fork_id =
     ok_or (find_row (\<lambda>f. fk_id f = fork_id \<and> fk_tenant_id f = tenant_id \<and> fk_workspace_id f = workspace_id) (db_forks d))
       (NotFound ''schema fork {} was not found'')"

definition to_record :: "db \<Rightarrow> fork_row \<Rightarrow> fork_record result" where
  "to_record d row =
     rbind (ok_or (find_row (\<lambda>s. sc_id s = fk_fork_schema_id row) (db_schemas d)) (Internal ''fork head is missing'')) (\<lambda>head.
     let source_active = latest_source_by_name d (fk_tenant_id row) (fk_source_workspace_id row) (fk_source_schema_name row);
         upstream = (case source_active of
             Some s \<Rightarrow> if sc_version s > fk_source_schema_version row then Some (sc_version s) else None
           | None \<Rightarrow> None)
     in Inr \<lparr>fr_id = fk_id row, fr_tenant_id = fk_tenant_id row, fr_workspace_id = fk_workspace_id row,
          fr_source_workspace_id = fk_source_workspace_id row, fr_source_schema_id = fk_source_schema_id row,
          fr_source_schema_version = fk_source_schema_version row, fr_source_schema_name = fk_source_schema_name row,
          fr_fork_schema_id = fk_fork_schema_id row, fr_fork_schema_version = sc_version head,
          fr_customized = fk_customized row, fr_upstream_version = upstream, fr_definition = sc_definition head,
          fr_created_at = fk_created_at row, fr_updated_at = fk_updated_at row\<rparr>)"

primrec fork_records :: "db \<Rightarrow> fork_row list \<Rightarrow> fork_record list result" where
  "fork_records d [] = Inr []"
| "fork_records d (row # rows) =
     rbind (to_record d row) (\<lambda>r. rbind (fork_records d rows) (\<lambda>rs. Inr (r # rs)))"

definition list_forks :: "db \<Rightarrow> uuid \<Rightarrow> uuid \<Rightarrow> fork_record list result" where
  "list_forks d tenant_id workspace_id =
     fork_records d (sort_key fk_created_at
       (select_where (\<lambda>f. fk_tenant_id f = tenant_id \<and> fk_workspace_id f = workspace_id) (db_forks d)))"

definition get_fork_record :: "db \<Rightarrow> uuid \<Rightarrow> uuid \<Rightarrow> uuid \<Rightarrow> fork_record result" where
  "get_fork_record d tenant_id workspace_id fork_id = rbind (get_fork d tenant_id workspace_id fork_id) (to_record d)"

section \<open>The search for a cycle\<close>

text \<open>The stack of the loop is the list, its top first.\<close>

definition fork_sources :: "db \<Rightarrow> uuid set" where
  "fork_sources d = fk_source_workspace_id ` set (db_forks d)"

lemma fork_edges_sources: "set (fork_edges d t w) \<subseteq> fork_sources d"
  by (auto simp: fork_edges_def fork_sources_def table_simps)

lemma finite_sources [simp]: "finite (fork_sources d)"
  by (simp add: fork_sources_def)

function (sequential) cycle_found :: "db \<Rightarrow> uuid \<Rightarrow> uuid \<Rightarrow> uuid list \<Rightarrow> uuid list \<Rightarrow> bool" where
  "cycle_found d tenant_id workspace_id [] visited = False"
| "cycle_found d tenant_id workspace_id (source_id # pending) visited =
     (if source_id \<in> set visited then cycle_found d tenant_id workspace_id pending visited
      else if source_id = workspace_id then True
      else cycle_found d tenant_id workspace_id (rev (fork_edges d tenant_id source_id) @ pending) (source_id # visited))"
  by pat_completeness auto

termination
proof (relation "inv_image (less_than <*lex*> less_than)
    (\<lambda>(d, t, w, pending, visited). (card (fork_sources d \<union> set pending - set visited), length pending))", goal_cases)
  case 1
  show ?case by (intro wf_inv_image wf_lex_prod wf_less_than)
next
  case (2 d t w x pending visited)
  have "card (fork_sources d \<union> set pending - set visited) \<le> card (fork_sources d \<union> set (x # pending) - set visited)"
    by (rule card_mono) auto
  then show ?case by auto
next
  case (3 d t w x pending visited)
  have "fork_sources d \<union> set (rev (fork_edges d t x) @ pending) - set (x # visited) \<subset>
      fork_sources d \<union> set (x # pending) - set visited"
    using 3 fork_edges_sources [of d t x] by auto
  then show ?case by (simp add: psubset_card_mono)
qed

section \<open>Writing\<close>

text \<open>The triggers on a fork and on a fork head.\<close>

definition fork_integrity :: "db \<Rightarrow> fork_row \<Rightarrow> bool" where
  "fork_integrity d f \<longleftrightarrow>
     (\<exists>w \<in> set (db_workspaces d). wk_id w = fk_workspace_id f \<and> wk_tenant_id w = fk_tenant_id f) \<and>
     (\<exists>w \<in> set (db_workspaces d). wk_id w = fk_source_workspace_id f \<and> wk_tenant_id w = fk_tenant_id f) \<and>
     (\<exists>s \<in> set (db_schemas d). sc_id s = fk_source_schema_id f \<and> sc_tenant_id s = fk_tenant_id f \<and>
        sc_workspace_id s = fk_source_workspace_id f \<and> sc_name s = fk_source_schema_name f \<and>
        sc_version s = fk_source_schema_version f) \<and>
     (\<exists>s \<in> set (db_schemas d). sc_id s = fk_fork_schema_id f \<and> sc_tenant_id s = fk_tenant_id f \<and>
        sc_workspace_id s = fk_workspace_id f \<and> sc_name s = fk_source_schema_name f) \<and>
     fk_source_schema_version f > 0"

definition fork_head_integrity :: "db \<Rightarrow> fork_head_row \<Rightarrow> bool" where
  "fork_head_integrity d h \<longleftrightarrow>
     (\<exists>f \<in> set (db_forks d). fk_id f = fh_fork_id h \<and> fk_tenant_id f = fh_tenant_id h \<and> fk_workspace_id f = fh_workspace_id h) \<and>
     (\<exists>s \<in> set (db_schemas d). sc_id s = fh_schema_id h \<and> sc_tenant_id s = fh_tenant_id h \<and> sc_workspace_id s = fh_workspace_id h)"

definition fork_key :: "fork_row \<Rightarrow> uuid \<times> uuid \<times> string" where
  "fork_key f = (fk_workspace_id f, fk_source_workspace_id f, fk_source_schema_name f)"

definition next_fork_version :: "db \<Rightarrow> uuid \<Rightarrow> string \<Rightarrow> int" where
  "next_fork_version d workspace_id name = wrap32 (latest_version d workspace_id name + 1)"

definition insert_fork_head ::
  "(string \<Rightarrow> bool) \<Rightarrow> uuid \<Rightarrow> instant \<Rightarrow> db \<Rightarrow> uuid \<Rightarrow> uuid \<Rightarrow> metaschema_definition \<Rightarrow> (schema_row \<times> db) result" where
  "insert_fork_head pattern_ok new_id now d tenant_id workspace_id definition =
     rbind (validate_definition pattern_ok definition) (\<lambda>_.
     let row = \<lparr>sc_id = new_id, sc_tenant_id = tenant_id, sc_workspace_id = workspace_id, sc_name = md_name definition,
                sc_version = next_fork_version d workspace_id (md_name definition), sc_definition = definition,
                sc_status = SchemaArchived, sc_origin_template_id = None, sc_origin_status = Detached,
                sc_origin_snapshot = None, sc_origin_updated_at = None, sc_created_at = now, sc_updated_at = Some now\<rparr>
     in case insert_schema d row of
          Inl _ \<Rightarrow> Inl (Internal ''constraint'')
        | Inr d' \<Rightarrow> Inr (row, d'))"

definition record_fork_head :: "uuid \<Rightarrow> instant \<Rightarrow> db \<Rightarrow> fork_row \<Rightarrow> db result" where
  "record_fork_head new_id now d f =
     (let h = \<lparr>fh_id = new_id, fh_tenant_id = fk_tenant_id f, fh_workspace_id = fk_workspace_id f, fh_fork_id = fk_id f,
               fh_schema_id = fk_fork_schema_id f, fh_created_at = now\<rparr>
      in if new_id \<in> fh_id ` set (db_fork_heads d) \<or> \<not> fork_head_integrity d h then Inl (Internal ''constraint'')
         else Inr (d\<lparr>db_fork_heads := db_fork_heads d @ [h]\<rparr>))"

definition insert_fork_row :: "db \<Rightarrow> fork_row \<Rightarrow> db result" where
  "insert_fork_row d f =
     (if \<not> fork_integrity d f then Inl (Internal ''constraint'')
      else if fk_id f \<in> fk_id ` set (db_forks d) \<or> fork_key f \<in> fork_key ` set (db_forks d)
      then Inl (Conflict ''this workspace already has a fork for that source schema'')
      else Inr (d\<lparr>db_forks := db_forks d @ [f]\<rparr>))"

text \<open>The ids of the rows an operation inserts: the head's schema, the fork and the head.\<close>

definition create_fork ::
  "(string \<Rightarrow> bool) \<Rightarrow> uuid \<times> uuid \<times> uuid \<Rightarrow> instant \<Rightarrow> db \<Rightarrow> uuid \<Rightarrow> uuid \<Rightarrow> create_fork_input \<Rightarrow> (fork_record \<times> db) result" where
  "create_fork pattern_ok ids now d tenant_id workspace_id input =
     (case ids of (schema_id, fork_id, head_id) \<Rightarrow>
      if cf_source_workspace_id input = workspace_id
      then Inl (ValidationFailed ''a workspace cannot fork itself'' [])
      else rbind (get_workspace d workspace_id) (\<lambda>target.
      if wk_tenant_id target \<noteq> tenant_id then Inl (NotFound ''workspace was not found'')
      else rbind (current_source d tenant_id (cf_source_workspace_id input) (cf_source_schema_id input)) (\<lambda>source.
      if cycle_found d tenant_id workspace_id [cf_source_workspace_id input] []
      then Inl (Conflict ''creating this fork would create a workspace cycle'')
      else rbind (insert_fork_head pattern_ok schema_id now d tenant_id workspace_id (sc_definition source)) (\<lambda>(head, d1).
      let row = \<lparr>fk_id = fork_id, fk_tenant_id = tenant_id, fk_workspace_id = workspace_id,
                 fk_source_workspace_id = cf_source_workspace_id input, fk_source_schema_id = sc_id source,
                 fk_source_schema_version = sc_version source, fk_source_schema_name = sc_name source,
                 fk_fork_schema_id = sc_id head, fk_customized = False, fk_created_at = now, fk_updated_at = now\<rparr>
      in rbind (insert_fork_row d1 row) (\<lambda>d2.
         rbind (record_fork_head head_id now d2 row) (\<lambda>d3.
         rbind (to_record d3 row) (\<lambda>r. Inr (r, d3))))))))"

text \<open>What an update writes: the definition of the next head, and the source when the fork follows it.\<close>

definition fork_change ::
  "(string \<Rightarrow> bool) \<Rightarrow> db \<Rightarrow> uuid \<Rightarrow> fork_row \<Rightarrow> update_fork_input \<Rightarrow> (metaschema_definition \<times> schema_row option) result" where
  "fork_change pattern_ok d tenant_id fork input =
     (case uf_definition input of
        Some definition \<Rightarrow>
          rbind (validate_definition pattern_ok definition) (\<lambda>_.
          if md_name definition \<noteq> fk_source_schema_name fork
          then Inl (ValidationFailed ''a fork definition cannot rename its source schema'' [])
          else Inr (definition, None))
      | None \<Rightarrow>
          if uf_action input \<noteq> Some ''follow'' then Inl (ValidationFailed ''the only supported fork action is follow'' [])
          else if fk_customized fork \<and> \<not> uf_force input
          then Inl (Conflict ''following would discard local fork edits; set force=true'')
          else rbind (latest_source d tenant_id (fk_source_workspace_id fork) (fk_source_schema_name fork)) (\<lambda>source.
            if uf_expected_source_schema_id input \<noteq> None \<and> uf_expected_source_schema_id input \<noteq> Some (sc_id source)
            then Inl (Conflict ''the source schema changed since it was read'')
            else Inr (sc_definition source, Some source)))"

definition advanced :: "instant \<Rightarrow> uuid \<Rightarrow> schema_row option \<Rightarrow> fork_row \<Rightarrow> fork_row" where
  "advanced now head_id source_update fork =
     (let f = fork\<lparr>fk_fork_schema_id := head_id, fk_customized := (source_update = None), fk_updated_at := now\<rparr>
      in case source_update of
           None \<Rightarrow> f
         | Some source \<Rightarrow> f\<lparr>fk_source_schema_id := sc_id source, fk_source_schema_version := sc_version source\<rparr>)"

definition update_fork ::
  "(string \<Rightarrow> bool) \<Rightarrow> uuid \<times> uuid \<Rightarrow> instant \<Rightarrow> db \<Rightarrow> uuid \<Rightarrow> uuid \<Rightarrow> uuid \<Rightarrow> update_fork_input \<Rightarrow>
   (fork_record \<times> db) result" where
  "update_fork pattern_ok ids now d tenant_id workspace_id fork_id input =
     (case ids of (schema_id, head_id) \<Rightarrow>
      if (uf_definition input \<noteq> None) = (uf_action input \<noteq> None)
      then Inl (ValidationFailed ''provide exactly one of definition or action=follow'' [])
      else rbind (get_fork d tenant_id workspace_id fork_id) (\<lambda>fork.
      if uf_expected_fork_schema_id input \<noteq> None \<and> uf_expected_fork_schema_id input \<noteq> Some (fk_fork_schema_id fork)
      then Inl (Conflict ''the schema fork changed since it was read'')
      else rbind (fork_change pattern_ok d tenant_id fork input) (\<lambda>(definition, source_update).
      rbind (insert_fork_head pattern_ok schema_id now d tenant_id workspace_id definition) (\<lambda>(head, d1).
      let row = advanced now (sc_id head) source_update fork;
          sel = (\<lambda>f. fk_id f = fork_id \<and> fk_fork_schema_id f = fk_fork_schema_id fork)
      in if count_where sel (db_forks d1) = 0 then Inl (Conflict ''the schema fork changed since it was read'')
         else if \<not> fork_integrity d1 row then Inl (Internal ''constraint'')
         else let d2 = d1\<lparr>db_forks := update_where sel (\<lambda>_. row) (db_forks d1)\<rparr>
         in rbind (record_fork_head head_id now d2 row) (\<lambda>d3.
            rbind (get_fork_record d3 tenant_id workspace_id fork_id) (\<lambda>r. Inr (r, d3)))))))"

definition delete_fork :: "db \<Rightarrow> uuid \<Rightarrow> uuid \<Rightarrow> uuid \<Rightarrow> db result" where
  "delete_fork d tenant_id workspace_id fork_id =
     rbind (get_fork d tenant_id workspace_id fork_id) (\<lambda>fork.
     let head_ids = fh_schema_id ` set (select_where (\<lambda>h. fh_fork_id h = fk_id fork \<and> fh_tenant_id h = tenant_id \<and>
           fh_workspace_id h = workspace_id) (db_fork_heads d))
     in if count_where (\<lambda>e. en_workspace_id e = workspace_id \<and> en_schema_id e \<in> head_ids) (db_entities d) > 0
        then Inl (Conflict ''the schema fork is referenced by an entity and cannot be detached'')
        else Inr (d\<lparr>db_forks := delete_where (\<lambda>f. fk_id f = fork_id) (db_forks d),
                    db_fork_heads := delete_where (\<lambda>h. fh_fork_id h = fork_id) (db_fork_heads d)\<rparr>))"

section \<open>The search decides reachability\<close>

definition fork_graph :: "db \<Rightarrow> uuid \<Rightarrow> (uuid \<times> uuid) set" where
  "fork_graph d t = {(fk_workspace_id f, fk_source_workspace_id f) | f. f \<in> set (db_forks d) \<and> fk_tenant_id f = t}"

lemma set_fork_edges: "set (fork_edges d t w) = fork_graph d t `` {w}"
  by (auto simp: fork_edges_def fork_graph_def table_simps)

text \<open>The visited workspaces are not the one looked for, and what they fork from is visited or pending.\<close>

definition search_inv :: "db \<Rightarrow> uuid \<Rightarrow> uuid \<Rightarrow> uuid set \<Rightarrow> uuid set \<Rightarrow> bool" where
  "search_inv d t w pending visited \<longleftrightarrow> w \<notin> visited \<and> fork_graph d t `` visited \<subseteq> visited \<union> pending"

lemma visited_leads_to_pending:
  assumes "search_inv d t w pending visited" and "(v, w) \<in> (fork_graph d t)\<^sup>*" and "v \<in> visited"
  shows "\<exists>p \<in> pending. (p, w) \<in> (fork_graph d t)\<^sup>*"
  using assms(2,3)
proof (induction rule: converse_rtrancl_induct)
  case base
  then show ?case using assms(1) by (simp add: search_inv_def)
next
  case (step y z)
  then have "z \<in> visited \<or> z \<in> pending" using assms(1) by (auto simp: search_inv_def)
  then show ?case using step by blast
qed

lemma cycle_found_iff:
  "search_inv d t w (set pending) (set visited) \<Longrightarrow>
   cycle_found d t w pending visited \<longleftrightarrow> (\<exists>p \<in> set pending. (p, w) \<in> (fork_graph d t)\<^sup>*)"
proof (induction d t w pending visited rule: cycle_found.induct)
  case (2 d t w x pending visited)
  let ?G = "fork_graph d t"
  consider "x \<in> set visited" | "x \<notin> set visited" "x = w" | "x \<notin> set visited" "x \<noteq> w" by blast
  then show ?case
  proof cases
    case 1
    then have inv: "search_inv d t w (set pending) (set visited)" using "2.prems" by (auto simp: search_inv_def)
    show ?thesis using "2.IH"(1) [OF 1 inv] visited_leads_to_pending [OF inv _ 1] 1 by auto
  next
    case 2
    then show ?thesis by auto
  next
    case 3
    then have inv: "search_inv d t w (set (rev (fork_edges d t x) @ pending)) (set (x # visited))"
      using "2.prems" by (auto simp: search_inv_def set_fork_edges)
    have "(x, w) \<in> ?G\<^sup>* \<longleftrightarrow> (\<exists>p \<in> set (fork_edges d t x). (p, w) \<in> ?G\<^sup>*)"
      using 3(2) by (auto simp: set_fork_edges elim: converse_rtranclE intro: converse_rtrancl_into_rtrancl)
    then show ?thesis using "2.IH"(2) [OF 3 inv] 3 by auto
  qed
qed simp

lemma cycle_found_source: "cycle_found d t w [source] [] \<longleftrightarrow> (source, w) \<in> (fork_graph d t)\<^sup>*"
  using cycle_found_iff [of d t w "[source]" "[]"] by (simp add: search_inv_def)

section \<open>No circle of forks\<close>

lemma insert_fork_head_Inr:
  assumes "insert_fork_head p i now d t w defn = Inr (row, d')"
  shows "d' = d\<lparr>db_schemas := db_schemas d @ [row]\<rparr>" and "sc_status row = SchemaArchived" and "sc_id row = i"
    and "sc_definition row = defn" and "i \<notin> sc_id ` set (db_schemas d)"
  using assms by (auto simp: insert_fork_head_def insert_schema_def rbind_Inr_iff Let_def split: sum.splits if_splits)

lemma insert_fork_row_Inr:
  assumes "insert_fork_row d f = Inr d'"
  shows "d' = d\<lparr>db_forks := db_forks d @ [f]\<rparr>" and "fork_integrity d f" and "fk_id f \<notin> fk_id ` set (db_forks d)"
  using assms by (auto simp: insert_fork_row_def split: if_splits)

lemma record_fork_head_Inr:
  assumes "record_fork_head i now d f = Inr d'"
  obtains h where "d' = d\<lparr>db_fork_heads := db_fork_heads d @ [h]\<rparr>" "fh_fork_id h = fk_id f" "fh_schema_id h = fk_fork_schema_id f"
  using assms by (auto simp: record_fork_head_def Let_def split: if_splits)

lemma create_fork_Inr:
  assumes "create_fork p (i, j, k) now d t w input = Inr (r, d')"
  obtains source head row h where
    "source_by_id d t (cf_source_workspace_id input) (cf_source_schema_id input) = Some source" "sc_status source = SchemaActive"
    "sc_status head = SchemaArchived" "sc_definition head = sc_definition source" "sc_id head = i" "i \<notin> sc_id ` set (db_schemas d)"
    "fk_tenant_id row = t" "fk_workspace_id row = w" "fk_source_workspace_id row = cf_source_workspace_id input"
    "fk_source_schema_name row = sc_name source" "fk_source_schema_version row = sc_version source" "fk_fork_schema_id row = i" "\<not> fk_customized row"
    "(cf_source_workspace_id input, w) \<notin> (fork_graph d t)\<^sup>*"
    "d' = d\<lparr>db_schemas := db_schemas d @ [head], db_forks := db_forks d @ [row], db_fork_heads := db_fork_heads d @ [h]\<rparr>"
    "to_record d' row = Inr r"
proof -
  obtain source head d1 row d2 where src: "current_source d t (cf_source_workspace_id input) (cf_source_schema_id input) = Inr source"
    and cyc: "\<not> cycle_found d t w [cf_source_workspace_id input] []"
    and hd: "insert_fork_head p i now d t w (sc_definition source) = Inr (head, d1)"
    and row: "row = \<lparr>fk_id = j, fk_tenant_id = t, fk_workspace_id = w,
                 fk_source_workspace_id = cf_source_workspace_id input, fk_source_schema_id = sc_id source,
                 fk_source_schema_version = sc_version source, fk_source_schema_name = sc_name source,
                 fk_fork_schema_id = sc_id head, fk_customized = False, fk_created_at = now, fk_updated_at = now\<rparr>"
    and ins: "insert_fork_row d1 row = Inr d2" and rec: "record_fork_head k now d2 row = Inr d'" and out: "to_record d' row = Inr r"
    using assms by (auto simp: create_fork_def rbind_Inr_iff Let_def split: if_splits prod.splits)
  obtain h where h: "d' = d2\<lparr>db_fork_heads := db_fork_heads d2 @ [h]\<rparr>" using record_fork_head_Inr [OF rec] by blast
  have act: "source_by_id d t (cf_source_workspace_id input) (cf_source_schema_id input) = Some source" "sc_status source = SchemaActive"
    using src by (auto simp: current_source_def rbind_Inr_iff ok_or_Inr_iff split: if_splits)
  show ?thesis
    by (rule that [of source head row h])
      (use act insert_fork_head_Inr [OF hd] insert_fork_row_Inr [OF ins] h cyc [unfolded cycle_found_source] out in \<open>simp_all add: row\<close>)
qed

lemma update_fork_Inr:
  assumes "update_fork p (i, k) now d t w j input = Inr (r, d')"
  obtains fork defn source head h where
    "get_fork d t w j = Inr fork" "fork_change p d t fork input = Inr (defn, source)"
    "sc_status head = SchemaArchived" "sc_definition head = defn" "sc_id head = i" "i \<notin> sc_id ` set (db_schemas d)"
    "d' = d\<lparr>db_schemas := db_schemas d @ [head],
      db_forks := update_where (\<lambda>f. fk_id f = j \<and> fk_fork_schema_id f = fk_fork_schema_id fork) (\<lambda>_. advanced now i source fork) (db_forks d),
      db_fork_heads := db_fork_heads d @ [h]\<rparr>"
    "get_fork_record d' t w j = Inr r"
proof -
  obtain fork defn source head d1 d2 where f: "get_fork d t w j = Inr fork"
    and ch: "fork_change p d t fork input = Inr (defn, source)"
    and hd: "insert_fork_head p i now d t w defn = Inr (head, d1)"
    and d2: "d2 = d1\<lparr>db_forks := update_where (\<lambda>f. fk_id f = j \<and> fk_fork_schema_id f = fk_fork_schema_id fork)
        (\<lambda>_. advanced now (sc_id head) source fork) (db_forks d1)\<rparr>"
    and rec: "record_fork_head k now d2 (advanced now (sc_id head) source fork) = Inr d'"
    and out: "get_fork_record d' t w j = Inr r"
    using assms by (auto simp: update_fork_def rbind_Inr_iff Let_def split: if_splits prod.splits)
  obtain h where h: "d' = d2\<lparr>db_fork_heads := db_fork_heads d2 @ [h]\<rparr>" using record_fork_head_Inr [OF rec] by blast
  show ?thesis
    by (rule that [of fork defn source head h])
      (use f ch out insert_fork_head_Inr [OF hd] h in \<open>simp_all add: d2\<close>)
qed

lemma delete_fork_Inr:
  "delete_fork d t w j = Inr d' \<Longrightarrow> d' = d\<lparr>db_forks := delete_where (\<lambda>f. fk_id f = j) (db_forks d),
     db_fork_heads := delete_where (\<lambda>h. fh_fork_id h = j) (db_fork_heads d)\<rparr>"
  by (auto simp: delete_fork_def rbind_Inr_iff Let_def split: if_splits)

text \<open>Histories of a database: operations on forks, and the operations on schemas and workspaces.\<close>

inductive fork_step :: "db \<Rightarrow> db \<Rightarrow> bool" where
  forked: "create_fork p ids now d t w input = Inr (r, d') \<Longrightarrow> fork_step d d'"
| updated: "update_fork p ids' now d t w j change = Inr (r, d') \<Longrightarrow> fork_step d d'"
| deleted: "delete_fork d t w j = Inr d' \<Longrightarrow> fork_step d d'"
| schemas: "schema_step d d' \<Longrightarrow> fork_step d d'"

lemma fork_graph_mono:
  assumes "\<And>f. f \<in> set (db_forks d') \<Longrightarrow> \<exists>g \<in> set (db_forks d). fk_tenant_id g = fk_tenant_id f \<and>
      fk_workspace_id g = fk_workspace_id f \<and> fk_source_workspace_id g = fk_source_workspace_id f"
  shows "fork_graph d' t \<subseteq> fork_graph d t"
proof
  fix e
  assume "e \<in> fork_graph d' t"
  then obtain f where "f \<in> set (db_forks d')" "fk_tenant_id f = t" "e = (fk_workspace_id f, fk_source_workspace_id f)"
    unfolding fork_graph_def by blast
  with assms obtain g where "g \<in> set (db_forks d)" "fk_tenant_id g = t" "e = (fk_workspace_id g, fk_source_workspace_id g)"
    by metis
  then show "e \<in> fork_graph d t" unfolding fork_graph_def by blast
qed

lemma schema_step_forks: "schema_step d d' \<Longrightarrow> set (db_forks d') \<subseteq> set (db_forks d)"
proof (induction rule: schema_step.induct)
  case (create p i now d t w "def" tmpl snap r d')
  then have "db_forks d' = db_forks d"
    by (auto simp: create_schema_def insert_schema_def mark_active_def rbind_Inr_iff Let_def split: if_splits prod.splits)
  then show ?case by simp
qed (auto simp: archive_def delete_schema_def notify_upstream_change_def delete_workspace_def rbind_Inr_iff Let_def
    set_delete_where split: if_splits)

lemma advanced_edge [simp]:
  "fk_tenant_id (advanced now i s f) = fk_tenant_id f" "fk_workspace_id (advanced now i s f) = fk_workspace_id f"
  "fk_source_workspace_id (advanced now i s f) = fk_source_workspace_id f" "fk_id (advanced now i s f) = fk_id f"
  "fk_source_schema_name (advanced now i s f) = fk_source_schema_name f" "fk_fork_schema_id (advanced now i s f) = i"
  by (simp_all add: advanced_def Let_def split: option.splits)

lemma get_fork_Inr: "get_fork d t w j = Inr f \<Longrightarrow> f \<in> set (db_forks d) \<and> fk_id f = j \<and> fk_tenant_id f = t \<and> fk_workspace_id f = w"
  by (auto simp: get_fork_def ok_or_Inr_iff dest: find_row_Some)

lemma fork_step_acyclic:
  assumes "fork_step d d'" and "\<forall>t. acyclic (fork_graph d t)"
  shows "\<forall>t. acyclic (fork_graph d' t)"
proof -
  have shrink: "\<forall>t. acyclic (fork_graph d' t)" if "\<And>t. fork_graph d' t \<subseteq> fork_graph d t"
    using acyclic_subset [OF _ that] assms(2) by blast
  show ?thesis
    using assms(1)
  proof cases
    case (forked p ids now t w input r)
    obtain i j k where ids: "ids = (i, j, k)" by (rule prod_cases3)
    obtain row where row: "db_forks d' = db_forks d @ [row]" "fk_tenant_id row = t" "fk_workspace_id row = w"
      "(fk_source_workspace_id row, w) \<notin> (fork_graph d t)\<^sup>*"
      by (rule create_fork_Inr [OF forked [unfolded ids]]) (use that in simp)
    have "fork_graph d' t' = (if t' = t then insert (w, fk_source_workspace_id row) (fork_graph d t) else fork_graph d t')" for t'
      using row by (auto simp: fork_graph_def)
    then show ?thesis using assms(2) row(4) by (simp add: acyclic_insert)
  next
    case (updated p ids now t w j change r)
    obtain i k where ids: "ids = (i, k)" by (rule prod.exhaust)
    show ?thesis
    proof (rule update_fork_Inr [OF updated [unfolded ids]], rule shrink, rule fork_graph_mono)
      fix fork defn source head h t' f
      assume g: "get_fork d t w j = Inr fork"
        and d': "d' = d\<lparr>db_schemas := db_schemas d @ [head],
          db_forks := update_where (\<lambda>f. fk_id f = j \<and> fk_fork_schema_id f = fk_fork_schema_id fork) (\<lambda>_. advanced now i source fork) (db_forks d),
          db_fork_heads := db_fork_heads d @ [h]\<rparr>"
        and f: "f \<in> set (db_forks d')"
      have "f = advanced now i source fork \<or> f \<in> set (db_forks d)" using f by (auto simp: d' update_where_def split: if_splits)
      then show "\<exists>g \<in> set (db_forks d). fk_tenant_id g = fk_tenant_id f \<and> fk_workspace_id g = fk_workspace_id f \<and>
          fk_source_workspace_id g = fk_source_workspace_id f"
        using get_fork_Inr [OF g] by (metis advanced_edge(1-3))
    qed
  next
    case (deleted t w j)
    show ?thesis by (rule shrink, rule fork_graph_mono) (auto simp: delete_fork_Inr [OF deleted] set_delete_where)
  next
    case schemas
    show ?thesis by (rule shrink, rule fork_graph_mono) (use schema_step_forks [OF schemas] in blast)
  qed
qed

text \<open>
  Property C32. Workspaces never fork from each other in a circle: starting without forks, in every history of
  creating, editing, following and deleting forks and of schema and workspace operations, no chain of forks of
  a tenant leads from a workspace back to itself.
\<close>

theorem forks_never_cyclic:
  assumes "fork_step\<^sup>*\<^sup>* d d'" and "db_forks d = []"
  shows "(w, w) \<notin> (fork_graph d' t)\<^sup>+"
proof -
  have "\<forall>t. acyclic (fork_graph d' t)"
    using assms(1)
  proof (induction rule: rtranclp_induct)
    case base
    then show ?case using assms(2) by (simp add: fork_graph_def acyclic_def)
  next
    case (step y z)
    then show ?case using fork_step_acyclic by blast
  qed
  then show ?thesis by (simp add: acyclic_def)
qed

section \<open>Following a source\<close>

text \<open>
  Inserting a head leaves the schemas in use alone: it is archived.  Its number, though, can be higher than
  that of the active version of the same name.
\<close>

lemma archived_not_active:
  "sc_status head = SchemaArchived \<Longrightarrow> db_schemas d' = db_schemas d @ [head] \<Longrightarrow> active_versions d' w n = active_versions d w n"
  by (simp add: active_versions_def select_where_def)

lemma archived_not_source:
  "sc_status head = SchemaArchived \<Longrightarrow> db_schemas d' = db_schemas d @ [head] \<Longrightarrow>
   latest_source_by_name d' t w n = latest_source_by_name d t w n"
  by (simp add: latest_source_by_name_def select_where_def)

lemma find_row_new: "find_row p t = None \<Longrightarrow> p r \<Longrightarrow> find_row p (t @ [r]) = Some r"
  by (simp add: find_row_append) (simp add: find_row_def)

lemma to_record_Inr:
  assumes "to_record d row = Inr r"
  shows "fr_customized r = fk_customized row" and "fr_source_schema_version r = fk_source_schema_version row"
    and "fr_definition r = sc_definition (the (find_row (\<lambda>s. sc_id s = fk_fork_schema_id row) (db_schemas d)))"
    and "fr_upstream_version r = (case latest_source_by_name d (fk_tenant_id row) (fk_source_workspace_id row) (fk_source_schema_name row) of
        Some s \<Rightarrow> if sc_version s > fk_source_schema_version row then Some (sc_version s) else None | None \<Rightarrow> None)"
  using assms by (auto simp: to_record_def rbind_Inr_iff ok_or_Inr_iff Let_def)

lemma find_fork_updated:
  assumes "distinct (map fk_id (db_forks d))" and "get_fork d t w j = Inr fork"
    and "db_forks d' = update_where (\<lambda>f. fk_id f = j \<and> fk_fork_schema_id f = fk_fork_schema_id fork) (\<lambda>_. advanced now i source fork) (db_forks d)"
  shows "get_fork d' t w j = Inr (advanced now i source fork)"
proof -
  note f = get_fork_Inr [OF assms(2)]
  have same: "x = fork" if "x \<in> set (db_forks d)" "fk_id x = j" for x
    using distinct_key_unique [OF assms(1)] that f by blast
  have "x = advanced now i source fork" if "x \<in> set (db_forks d')" "fk_id x = j" for x
    using that same unfolding assms(3) update_where_def by (auto split: if_splits)
  moreover have "advanced now i source fork \<in> set (db_forks d')"
    using f unfolding assms(3) update_where_def by (auto intro!: image_eqI [of _ _ fork])
  moreover have "find_row (\<lambda>x. fk_id x = j \<and> fk_tenant_id x = t \<and> fk_workspace_id x = w) (db_forks d') \<noteq> None"
    using f calculation(2) by (auto simp: find_row_None intro!: bexI [of _ "advanced now i source fork"])
  ultimately obtain y where y: "find_row (\<lambda>x. fk_id x = j \<and> fk_tenant_id x = t \<and> fk_workspace_id x = w) (db_forks d') = Some y"
    and all: "\<And>x. x \<in> set (db_forks d') \<Longrightarrow> fk_id x = j \<Longrightarrow> x = advanced now i source fork"
    by blast
  then show ?thesis using find_row_Some [OF y] all [of y] by (simp add: get_fork_def)
qed

text \<open>
  A fork that follows is in step with its source: it carries exactly the definition of the newest
  active version of the source schema, counts as not customised and has nothing pending upstream.  A local
  edit stores the given definition, counts as customised, and can afterwards be lost only by force:
  following without force is refused and changes nothing.  Neither touches a schema in use in any workspace.
\<close>

theorem fork_update_tracks_source:
  assumes "distinct (map fk_id (db_forks d))" and "update_fork p ids now d t w j input = Inr (r, d')"
  shows "(\<forall>w' n. get_active_schema d' w' n = get_active_schema d w' n) \<and>
    (case uf_definition input of
       Some defn \<Rightarrow> fr_definition r = defn \<and> fr_customized r \<and>
         (\<forall>p' ids' now' input'. uf_definition input' = None \<and> uf_action input' = Some ''follow'' \<and> \<not> uf_force input' \<longrightarrow>
            (\<exists>e. update_fork p' ids' now' d' t w j input' = Inl (Conflict e)))
     | None \<Rightarrow> (\<exists>source. latest_source d' t (fr_source_workspace_id r) (fr_source_schema_name r) = Inr source \<and>
         fr_definition r = sc_definition source \<and> fr_source_schema_version r = sc_version source \<and>
         \<not> fr_customized r \<and> fr_upstream_version r = None))"
proof -
  obtain i k where ids: "ids = (i, k)" by (rule prod.exhaust)
  obtain fork defn source head h where g: "get_fork d t w j = Inr fork"
    and ch: "fork_change p d t fork input = Inr (defn, source)"
    and hd: "sc_status head = SchemaArchived" "sc_definition head = defn" "sc_id head = i" "i \<notin> sc_id ` set (db_schemas d)"
    and d': "d' = d\<lparr>db_schemas := db_schemas d @ [head],
      db_forks := update_where (\<lambda>f. fk_id f = j \<and> fk_fork_schema_id f = fk_fork_schema_id fork) (\<lambda>_. advanced now i source fork) (db_forks d),
      db_fork_heads := db_fork_heads d @ [h]\<rparr>"
    and rec: "get_fork_record d' t w j = Inr r"
    by (rule update_fork_Inr [OF assms(2) [unfolded ids]])
  let ?f = "advanced now i source fork"
  have f': "get_fork d' t w j = Inr ?f" by (rule find_fork_updated [OF assms(1) g]) (simp add: d')
  have out: "to_record d' ?f = Inr r" using rec by (simp add: get_fork_record_def f')
  note r = to_record_Inr [OF out]
  have schemas: "db_schemas d' = db_schemas d @ [head]" by (simp add: d')
  have row: "find_row (\<lambda>s. sc_id s = i) (db_schemas d') = Some head"
    unfolding schemas by (rule find_row_new) (use hd(3,4) in \<open>auto simp: find_row_None image_iff\<close>)
  have active: "get_active_schema d' w' n = get_active_schema d w' n" for w' n
    by (simp add: get_active_schema_def archived_not_active [OF hd(1) schemas])
  have names: "fr_source_workspace_id r = fk_source_workspace_id fork" "fr_source_schema_name r = fk_source_schema_name fork"
    using out by (auto simp: to_record_def rbind_Inr_iff Let_def)
  show ?thesis
  proof (cases "uf_definition input")
    case None
    then obtain s where s: "source = Some s" "defn = sc_definition s" "latest_source_by_name d t (fk_source_workspace_id fork) (fk_source_schema_name fork) = Some s"
      using ch by (auto simp: fork_change_def latest_source_def rbind_Inr_iff ok_or_Inr_iff split: if_splits)
    have "latest_source_by_name d' t (fk_source_workspace_id fork) (fk_source_schema_name fork) = Some s"
      by (simp add: archived_not_source [OF hd(1) schemas] s(3))
    then show ?thesis
      using r row hd(2) s get_fork_Inr [OF g] active by (auto simp: None names latest_source_def advanced_def Let_def)
  next
    case (Some defn')
    then have s: "source = None" "defn = defn'"
      using ch by (auto simp: fork_change_def rbind_Inr_iff split: if_splits)
    have "\<exists>e. update_fork p' ids' now' d' t w j input' = Inl (Conflict e)"
      if "uf_definition input' = None" "uf_action input' = Some ''follow''" "\<not> uf_force input'" for p' ids' now' input'
      using that f' s by (cases ids') (auto simp: update_fork_def fork_change_def advanced_def)
    then show ?thesis
      using r row hd(2) s active by (auto simp: Some advanced_def)
  qed
qed

text \<open>
  The search for cycles is exact: with a workspace of the tenant and an active source schema of
  another workspace, a fork is refused as cyclic exactly when a chain of existing forks leads from the
  source workspace back to the target; and it is refused before anything is written.
\<close>

theorem fork_refused_iff_cycle:
  assumes "cf_source_workspace_id input \<noteq> w" and "get_workspace d w = Inr target" "wk_tenant_id target = t"
    and "current_source d t (cf_source_workspace_id input) (cf_source_schema_id input) = Inr source"
  shows "create_fork p ids now d t w input = Inl (Conflict ''creating this fork would create a workspace cycle'') \<longleftrightarrow>
    (cf_source_workspace_id input, w) \<in> (fork_graph d t)\<^sup>+"
proof -
  obtain i j k where ids: "ids = (i, j, k)" by (rule prod_cases3)
  have reach: "cycle_found d t w [cf_source_workspace_id input] [] \<longleftrightarrow> (cf_source_workspace_id input, w) \<in> (fork_graph d t)\<^sup>+"
    using assms(1) by (auto simp only: cycle_found_source rtrancl_eq_or_trancl)
  have "insert_fork_head p i now d t w (sc_definition source) \<noteq> Inl (Conflict m)" for m
    by (auto simp: insert_fork_head_def validate_definition_def rbind_Inl_iff Let_def split: sum.splits if_splits)
  moreover have "record_fork_head k now d' f \<noteq> Inl (Conflict m)" "to_record d' f \<noteq> Inl (Conflict m)" for d' f m
    by (auto simp: record_fork_head_def to_record_def rbind_Inl_iff ok_or_def Let_def split: option.splits)
  moreover have "insert_fork_row d' f \<noteq> Inl (Conflict ''creating this fork would create a workspace cycle'')" for d' f
    by (simp add: insert_fork_row_def)
  ultimately show ?thesis
    using assms by (auto simp: create_fork_def ids rbind_Inl_iff reach Let_def simp del: cycle_found.simps split: prod.splits)
qed

section \<open>Sample forks\<close>

text \<open>Workspace 4 forks the schema of workspace 3, which then gets another version.\<close>

definition pair_of_workspaces :: db where
  "pair_of_workspaces = one_schema\<lparr>db_workspaces := db_workspaces one_schema @
     [\<lparr>wk_id = 4, wk_tenant_id = 9, wk_name = ''lab'', wk_max_entities = None, wk_status = SchemaPending, wk_schema_id = None,
       wk_created_at = 1\<rparr>]\<rparr>"

definition sample_head :: schema_row where
  "sample_head = \<lparr>sc_id = 30, sc_tenant_id = 9, sc_workspace_id = 4, sc_name = ''library'', sc_version = 1,
     sc_definition = sample_definition, sc_status = SchemaArchived, sc_origin_template_id = None, sc_origin_status = Detached,
     sc_origin_snapshot = None, sc_origin_updated_at = None, sc_created_at = 5, sc_updated_at = Some 5\<rparr>"

definition sample_fork :: fork_row where
  "sample_fork = \<lparr>fk_id = 31, fk_tenant_id = 9, fk_workspace_id = 4, fk_source_workspace_id = 3, fk_source_schema_id = 10,
     fk_source_schema_version = 1, fk_source_schema_name = ''library'', fk_fork_schema_id = 30, fk_customized = False,
     fk_created_at = 5, fk_updated_at = 5\<rparr>"

definition forked_db :: db where
  "forked_db = pair_of_workspaces\<lparr>db_schemas := [followed_schema, sample_head], db_forks := [sample_fork],
     db_fork_heads := [\<lparr>fh_id = 32, fh_tenant_id = 9, fh_workspace_id = 4, fh_fork_id = 31, fh_schema_id = 30, fh_created_at = 5\<rparr>]\<rparr>"

lemma pair_of_workspaces_sel:
  "db_schemas pair_of_workspaces = [followed_schema]" "db_forks pair_of_workspaces = []" "db_fork_heads pair_of_workspaces = []"
  "wk_id ` set (db_workspaces pair_of_workspaces) = {3, 4}"
  by (auto simp: pair_of_workspaces_def one_schema_def empty_db_def)

lemma forked_db_sel:
  "db_schemas forked_db = [followed_schema, sample_head]" "db_forks forked_db = [sample_fork]"
  "wk_id ` set (db_workspaces forked_db) = {3, 4}"
  by (auto simp: forked_db_def pair_of_workspaces_def one_schema_def empty_db_def)

lemmas fork_sample_defs = pair_of_workspaces_def one_schema_def followed_schema_def sample_head_def sample_fork_def empty_db_def

lemma sample_definition_valid: "validate_definition (\<lambda>_. True) sample_definition = Inr ()"
  by (simp add: validate_definition_def definition_details_Nil sample_definition_wf)

lemma sample_definition_name: "md_name sample_definition = ''library''"
  by (simp add: sample_definition_def)

lemma sample_head_number:
  "select_where (\<lambda>s. sc_workspace_id s = w \<and> sc_name s = n) (db_schemas d) = [] \<Longrightarrow> next_fork_version d w n = 1"
  by (simp add: next_fork_version_def latest_version_def latest_by_def wrap32_def)

lemma sample_forked: "\<exists>r. create_fork (\<lambda>_. True) (30, 31, 32) 5 pair_of_workspaces 9 4 \<lparr>cf_source_workspace_id = 3, cf_source_schema_id = 10\<rparr> = Inr (r, forked_db)"
proof -
  have src: "current_source pair_of_workspaces 9 3 10 = Inr followed_schema"
    by (simp add: current_source_def source_by_id_def find_row_def fork_sample_defs)
  have hd: "insert_fork_head (\<lambda>_. True) 30 5 pair_of_workspaces 9 4 sample_definition =
      Inr (sample_head, pair_of_workspaces\<lparr>db_schemas := [followed_schema, sample_head]\<rparr>)"
    using sample_head_number [of 4 "''library''" pair_of_workspaces]
    by (simp add: insert_fork_head_def sample_definition_valid sample_definition_name insert_schema_def schema_key_def pair_of_workspaces_sel
        select_where_def followed_schema_def sample_head_def Let_def)
  have "\<not> cycle_found pair_of_workspaces 9 4 [3] []" by (simp add: fork_edges_def select_where_def fork_sample_defs)
  then show ?thesis
    using src hd
    by (simp add: create_fork_def get_workspace_def insert_fork_row_def fork_integrity_def record_fork_head_def fork_head_integrity_def
        to_record_def find_row_def forked_db_def Let_def fork_sample_defs del: cycle_found.simps)
qed

theorem forks_never_cyclic_witness: "fork_step\<^sup>*\<^sup>* pair_of_workspaces forked_db \<and> (4, 4) \<notin> (fork_graph forked_db 9)\<^sup>+"
proof -
  have path: "fork_step\<^sup>*\<^sup>* pair_of_workspaces forked_db" using sample_forked fork_step.forked by blast
  have "db_forks pair_of_workspaces = []" by (simp add: fork_sample_defs)
  from forks_never_cyclic [OF path this] show ?thesis using path by blast
qed

definition both_active :: db where
  "both_active = forked_db\<lparr>db_schemas := [followed_schema, sample_head, followed_schema\<lparr>sc_id := 35, sc_workspace_id := 4, sc_version := 2\<rparr>]\<rparr>"

theorem fork_refused_iff_cycle_witness:
  "create_fork (\<lambda>_. True) (40, 41, 42) 6 both_active 9 3 \<lparr>cf_source_workspace_id = 4, cf_source_schema_id = 35\<rparr> =
     Inl (Conflict ''creating this fork would create a workspace cycle'')"
proof -
  have "(4, 3) \<in> fork_graph both_active 9" by (simp add: fork_graph_def both_active_def forked_db_def sample_fork_def)
  then have edge: "(4, 3) \<in> (fork_graph both_active 9)\<^sup>+" by blast
  obtain target where t: "get_workspace both_active 3 = Inr target" "wk_tenant_id target = 9"
    by (simp add: get_workspace_def find_row_def both_active_def forked_db_def fork_sample_defs)
  obtain source where s: "current_source both_active 9 4 35 = Inr source"
    by (simp add: current_source_def source_by_id_def find_row_def both_active_def forked_db_def fork_sample_defs)
  show ?thesis
    using fork_refused_iff_cycle [where input = "\<lparr>cf_source_workspace_id = 4, cf_source_schema_id = 35\<rparr>", OF _ t] s edge by simp
qed

definition follow_input :: update_fork_input where
  "follow_input = \<lparr>uf_definition = None, uf_action = Some ''follow'', uf_force = False, uf_expected_fork_schema_id = Some 30,
     uf_expected_source_schema_id = None\<rparr>"

lemma sample_follows: "\<exists>r d'. update_fork (\<lambda>_. True) (33, 34) 7 forked_db 9 4 31 follow_input = Inr (r, d')"
proof -
  let ?head = "sample_head\<lparr>sc_id := 33, sc_version := 2, sc_created_at := 7, sc_updated_at := Some 7\<rparr>"
  have src: "latest_source_by_name forked_db 9 3 ''library'' = Some followed_schema"
    by (simp add: latest_source_by_name_def select_where_def latest_by_def forked_db_def fork_sample_defs)
  have fk: "get_fork forked_db 9 4 31 = Inr sample_fork"
    by (simp add: get_fork_def find_row_def forked_db_def sample_fork_def)
  have "next_fork_version forked_db 4 ''library'' = 2"
    by (simp add: next_fork_version_def latest_version_def select_where_def latest_by_def wrap32_def forked_db_def fork_sample_defs)
  then have hd: "insert_fork_head (\<lambda>_. True) 33 7 forked_db 9 4 sample_definition = Inr (?head, forked_db\<lparr>db_schemas := db_schemas forked_db @ [?head]\<rparr>)"
    by (simp add: insert_fork_head_def sample_definition_valid sample_definition_name insert_schema_def schema_key_def forked_db_sel
        followed_schema_def sample_head_def Let_def)
  have ch: "fork_change (\<lambda>_. True) forked_db 9 sample_fork follow_input = Inr (sample_definition, Some followed_schema)"
    using src by (simp add: fork_change_def follow_input_def latest_source_def sample_fork_def followed_schema_def)
  show ?thesis
    using fk ch hd
    by (simp add: update_fork_def follow_input_def Let_def advanced_def)
      (simp add: fork_integrity_def record_fork_head_def fork_head_integrity_def get_fork_record_def get_fork_def
        to_record_def find_row_def update_where_def forked_db_def fork_sample_defs Let_def)
qed

theorem fork_update_tracks_source_witness:
  "\<exists>r d'. update_fork (\<lambda>_. True) (33, 34) 7 forked_db 9 4 31 follow_input = Inr (r, d') \<and> \<not> fr_customized r \<and> fr_upstream_version r = None"
proof -
  obtain r d' where u: "update_fork (\<lambda>_. True) (33, 34) 7 forked_db 9 4 31 follow_input = Inr (r, d')" using sample_follows by blast
  have "distinct (map fk_id (db_forks forked_db))" "uf_definition follow_input = None" by (simp_all add: forked_db_def follow_input_def)
  then show ?thesis using fork_update_tracks_source [OF _ u] u by auto
qed

end
