(* ===== verification/Jsonl_Transfer.thy ===== *)
theory Jsonl_Transfer
  imports Relation_Store "HOL-Library.Product_Lexorder"
begin

text \<open>
  \<open>src/models/export.rs\<close> and \<open>src/models/import.rs\<close>: a workspace as a text with one record on each line, and back.

  serde's conversion of a record to a line and back is a parameter.  An export reads pages in one
  transaction; an import numbers the rows it creates by their line.  The lemmas show that the pages
  are the whole table, that the limits are exact, that the text is read back record for record, and
  that an import adds what it reports and keeps the relations whole.
\<close>

section \<open>Export\<close>

datatype export_record = RecSchema schema_row | RecEntity entity_row | RecRelation relation_row

definition MAX_EXPORT_BYTES :: nat where "MAX_EXPORT_BYTES = 8388608"
definition MAX_EXPORT_RECORDS :: nat where "MAX_EXPORT_RECORDS = 10000"
definition PAGE_SIZE :: nat where "PAGE_SIZE = 64"

definition export_too_large :: yorishiro_error where
  "export_too_large = ValidationFailed ''workspace export exceeds the limit of 8 MiB or 10,000 records'' []"

record export_buffer =
  eb_bytes :: string
  eb_records :: nat

abbreviation newline :: char where "newline \<equiv> CHR 0x0A"

text \<open>The serializer writes the line in pieces; the buffer refuses the piece that would exceed the limit.\<close>

definition write_bytes :: "export_buffer \<Rightarrow> string \<Rightarrow> export_buffer result" where
  "write_bytes out bytes =
     (if length bytes > MAX_EXPORT_BYTES - length (eb_bytes out) then Inl export_too_large
      else Inr (out\<lparr>eb_bytes := eb_bytes out @ bytes\<rparr>))"

definition append_record :: "(export_record \<Rightarrow> string) \<Rightarrow> export_buffer \<Rightarrow> export_record \<Rightarrow> export_buffer result" where
  "append_record to_line out r =
     (if eb_records out = MAX_EXPORT_RECORDS then Inl export_too_large
      else rbind (write_bytes out (to_line r)) (\<lambda>out1.
           rbind (write_bytes out1 [newline]) (\<lambda>out2.
           Inr (out2\<lparr>eb_records := eb_records out2 + 1\<rparr>))))"

primrec append_records :: "(export_record \<Rightarrow> string) \<Rightarrow> export_buffer \<Rightarrow> export_record list \<Rightarrow> export_buffer result" where
  "append_records to_line out [] = Inr out"
| "append_records to_line out (r # rs) = rbind (append_record to_line out r) (\<lambda>out'. append_records to_line out' rs)"

definition after :: "'k::linorder option \<Rightarrow> 'k \<Rightarrow> bool" where
  "after cursor k = (case cursor of None \<Rightarrow> True | Some c \<Rightarrow> c < k)"

lemma later_rows:
  assumes "take n (filter (\<lambda>r. after cursor (key r)) rows) \<noteq> []"
  shows "after cursor (key (last (take n (filter (\<lambda>r. after cursor (key r)) rows))))"
    and "last (take n (filter (\<lambda>r. after cursor (key r)) rows)) \<in> set rows"
  using last_in_set [OF assms] by (auto dest!: in_set_takeD)

lemma after_Some [simp]: "after (Some c) k \<longleftrightarrow> c < k"
  by (simp add: after_def)

lemma after_trans: "after cursor k \<Longrightarrow> k < k' \<Longrightarrow> after cursor k'"
  by (auto simp: after_def split: option.splits)

lemma filter_later:
  assumes "after cursor k"
  shows "filter (\<lambda>r. after (Some k) (key r)) rows = filter (\<lambda>r. k < key r) (filter (\<lambda>r. after cursor (key r)) rows)"
  unfolding filter_filter by (rule filter_cong [OF refl]) (use after_trans [OF assms] in auto)

lemma fewer_later:
  assumes "after cursor (key l)" and "l \<in> set rows"
  shows "length (filter (\<lambda>r. after (Some (key l)) (key r)) rows) < length (filter (\<lambda>r. after cursor (key r)) rows)"
  unfolding filter_later [OF assms(1)] by (rule length_filter_less [of l]) (use assms in simp_all)

text \<open>One of the three loops: \<open>rows\<close> are the rows of the workspace in the order of the query.\<close>

function export_pages ::
  "('r \<Rightarrow> 'k::linorder) \<Rightarrow> ('r \<Rightarrow> export_record) \<Rightarrow> (export_record \<Rightarrow> string) \<Rightarrow> 'r list \<Rightarrow> 'k option \<Rightarrow> export_buffer \<Rightarrow>
   export_buffer result" where
  "export_pages key wrap to_line rows cursor out =
     (let page = take PAGE_SIZE (filter (\<lambda>r. after cursor (key r)) rows) in
      if page = [] then Inr out
      else rbind (append_records to_line out (map wrap page)) (\<lambda>out'.
           export_pages key wrap to_line rows (Some (key (last page))) out'))"
  by pat_completeness auto
termination
proof (relation "measure (\<lambda>(key, wrap, to_line, rows, cursor, out). length (filter (\<lambda>r. after cursor (key r)) rows))", goal_cases)
  case (2 key wrap to_line rows cursor out page out')
  have "after cursor (key (last page))" "last page \<in> set rows" using later_rows [OF 2(2) [unfolded 2(1)]] unfolding 2(1) .
  then show ?case using fewer_later by (simp only: in_measure prod.case)
qed (rule wf_measure)

declare export_pages.simps [simp del]

definition schema_rows :: "db \<Rightarrow> uuid \<Rightarrow> schema_row list" where
  "schema_rows d w = sort_key (\<lambda>s. (sc_name s, sc_version s)) (select_where (\<lambda>s. sc_workspace_id s = w) (db_schemas d))"

definition entity_rows :: "db \<Rightarrow> uuid \<Rightarrow> entity_row list" where
  "entity_rows d w = sort_key en_id (select_where (\<lambda>e. en_workspace_id e = w) (db_entities d))"

definition relation_rows :: "db \<Rightarrow> uuid \<Rightarrow> relation_row list" where
  "relation_rows d w = sort_key re_id (select_where (\<lambda>r. re_workspace_id r = w) (db_relations d))"

definition export_jsonl :: "(export_record \<Rightarrow> string) \<Rightarrow> db \<Rightarrow> uuid \<Rightarrow> string result" where
  "export_jsonl to_line d w =
     rbind (export_pages (\<lambda>s. (sc_name s, sc_version s)) RecSchema to_line (schema_rows d w) None \<lparr>eb_bytes = [], eb_records = 0\<rparr>) (\<lambda>out1.
     rbind (export_pages en_id RecEntity to_line (entity_rows d w) None out1) (\<lambda>out2.
     rbind (export_pages re_id RecRelation to_line (relation_rows d w) None out2) (\<lambda>out3.
     Inr (eb_bytes out3))))"

section \<open>Import\<close>

record import_result =
  ir_schemas :: nat
  ir_entities :: nat
  ir_relations :: nat
  ir_entity_ids :: "uuid list"

record import_env =
  ie_pattern_ok :: "string \<Rightarrow> bool"
  ie_errors_of :: schema_validator
  ie_ids :: "nat \<Rightarrow> uuid"
  ie_tokens :: "nat \<Rightarrow> string"
  ie_now :: instant
  ie_tenant_id :: uuid
  ie_workspace_id :: uuid
  ie_imported_by :: "uuid option"
  ie_entity_quota :: "int option"

record import_state =
  im_db :: db
  im_entity_id_map :: "uuid \<rightharpoonup> uuid"
  im_schema_name_by_old_id :: "uuid \<rightharpoonup> string"
  im_schema_name_by_id :: "uuid \<rightharpoonup> string"
  im_result :: import_result

fun annotate_line :: "yorishiro_error \<Rightarrow> yorishiro_error" where
  "annotate_line (ValidationFailed m details) = ValidationFailed (''line {}: '' @ m) details"
| "annotate_line (NotFound m) = NotFound (''line {}: '' @ m)"
| "annotate_line (Conflict m) = Conflict (''line {}: '' @ m)"
| "annotate_line (RelationTypeMismatch m) = RelationTypeMismatch (''line {}: '' @ m)"
| "annotate_line e = e"

definition at_line :: "'a result \<Rightarrow> 'a result" where
  "at_line r = (case r of Inl e \<Rightarrow> Inl (annotate_line e) | Inr x \<Rightarrow> Inr x)"

definition import_schema :: "import_env \<Rightarrow> nat \<Rightarrow> schema_row \<Rightarrow> import_state \<Rightarrow> import_state result" where
  "import_schema ev line_no schema st =
     rbind (at_line (create_schema (ie_pattern_ok ev) (ie_ids ev line_no) (ie_now ev) (im_db st) (ie_tenant_id ev)
              (ie_workspace_id ev) (sc_definition schema) None None)) (\<lambda>(_, d).
     Inr (st\<lparr>im_db := d,
             im_schema_name_by_old_id := (im_schema_name_by_old_id st)(sc_id schema \<mapsto> md_name (sc_definition schema)),
             im_result := (im_result st)\<lparr>ir_schemas := ir_schemas (im_result st) + 1\<rparr>\<rparr>))"

definition import_schema_name :: "import_env \<Rightarrow> uuid \<Rightarrow> import_state \<Rightarrow> (string \<times> import_state) result" where
  "import_schema_name ev schema_id st =
     (case im_schema_name_by_old_id st schema_id of
        Some name \<Rightarrow> Inr (name, st)
      | None \<Rightarrow>
          (case im_schema_name_by_id st schema_id of
             Some name \<Rightarrow> Inr (name, st)
           | None \<Rightarrow>
               rbind (at_line (get_by_id (im_db st) (ie_workspace_id ev) schema_id)) (\<lambda>s.
               Inr (sc_name s, st\<lparr>im_schema_name_by_id := (im_schema_name_by_id st)(schema_id \<mapsto> sc_name s)\<rparr>))))"

definition import_entity :: "import_env \<Rightarrow> nat \<Rightarrow> entity_row \<Rightarrow> import_state \<Rightarrow> import_state result" where
  "import_entity ev line_no entity st =
     rbind (import_schema_name ev (en_schema_id entity) st) (\<lambda>(schema_name, st).
     rbind (at_line (create_with_quota (ie_errors_of ev) (ie_ids ev line_no) (ie_tokens ev line_no) (ie_now ev) (im_db st)
              (ie_workspace_id ev)
              \<lparr>ci_schema_name = schema_name, ci_entity_type = en_entity_type entity, ci_data = en_data entity\<rparr>
              (ie_imported_by ev) (ie_entity_quota ev))) (\<lambda>(created, d).
     Inr (st\<lparr>im_db := d, im_entity_id_map := (im_entity_id_map st)(en_id entity \<mapsto> en_id created),
             im_result := (im_result st)\<lparr>ir_entities := ir_entities (im_result st) + 1,
               ir_entity_ids := ir_entity_ids (im_result st) @ [en_id created]\<rparr>\<rparr>)))"

definition mapped :: "(uuid \<rightharpoonup> uuid) \<Rightarrow> uuid \<Rightarrow> uuid" where
  "mapped m i = (case m i of Some j \<Rightarrow> j | None \<Rightarrow> i)"

definition import_relation :: "import_env \<Rightarrow> nat \<Rightarrow> relation_row \<Rightarrow> import_state \<Rightarrow> import_state result" where
  "import_relation ev line_no relation st =
     rbind (at_line (create_relation (ie_ids ev line_no) (ie_now ev) (im_db st) (ie_workspace_id ev)
              \<lparr>cr_source_id = mapped (im_entity_id_map st) (re_source_id relation),
               cr_target_id = mapped (im_entity_id_map st) (re_target_id relation),
               cr_relation_type = re_relation_type relation, cr_properties = re_properties relation\<rparr>)) (\<lambda>(_, d).
     Inr (st\<lparr>im_db := d, im_result := (im_result st)\<lparr>ir_relations := ir_relations (im_result st) + 1\<rparr>\<rparr>))"

definition import_record :: "import_env \<Rightarrow> nat \<Rightarrow> export_record \<Rightarrow> import_state \<Rightarrow> import_state result" where
  "import_record ev line_no r st =
     (case r of
        RecSchema s \<Rightarrow> import_schema ev line_no s st
      | RecEntity e \<Rightarrow> import_entity ev line_no e st
      | RecRelation x \<Rightarrow> import_relation ev line_no x st)"

text \<open>\<open>BufRead::lines\<close>; the carriage return it drops as well is removed by the \<open>trim\<close> that follows.\<close>

definition lines_of :: "string \<Rightarrow> string list" where
  "lines_of s = (let ps = split_char newline s in if last ps = [] then butlast ps else ps)"

primrec import_lines ::
  "import_env \<Rightarrow> (string \<Rightarrow> export_record option) \<Rightarrow> nat \<Rightarrow> string list \<Rightarrow> import_state \<Rightarrow> import_state result" where
  "import_lines ev from_str line_no [] st = Inr st"
| "import_lines ev from_str line_no (l # ls) st =
     (if trim l = [] then import_lines ev from_str (line_no + 1) ls st
      else rbind (ok_or (from_str (trim l)) (ValidationFailed ''line {}: invalid JSONL record: {}'' [])) (\<lambda>r.
           rbind (import_record ev line_no r st) (import_lines ev from_str (line_no + 1) ls)))"

definition import_start :: "db \<Rightarrow> import_state" where
  "import_start d = \<lparr>im_db = d, im_entity_id_map = Map.empty, im_schema_name_by_old_id = Map.empty,
     im_schema_name_by_id = Map.empty,
     im_result = \<lparr>ir_schemas = 0, ir_entities = 0, ir_relations = 0, ir_entity_ids = []\<rparr>\<rparr>"

definition import_with_quota ::
  "import_env \<Rightarrow> (string \<Rightarrow> export_record option) \<Rightarrow> db \<Rightarrow> string \<Rightarrow> (import_result \<times> db) result" where
  "import_with_quota ev from_str d text =
     rbind (import_lines ev from_str 1 (lines_of text) (import_start d)) (\<lambda>st. Inr (im_result st, im_db st))"

definition import_jsonl ::
  "import_env \<Rightarrow> (string \<Rightarrow> export_record option) \<Rightarrow> db \<Rightarrow> string \<Rightarrow> (import_result \<times> db) result" where
  "import_jsonl ev from_str d text = import_with_quota (ev\<lparr>ie_entity_quota := None\<rparr>) from_str d text"

section \<open>The pages are the table\<close>

lemma sorted_last: "sorted (map key ys) \<Longrightarrow> x \<in> set ys \<Longrightarrow> key x \<le> key (last ys)"
  by (induction ys) (auto split: if_splits)

lemma sorted_suffix:
  assumes "sorted (map key xs)" "distinct (map key xs)" "take n xs \<noteq> []"
  shows "filter (\<lambda>r. key (last (take n xs)) < key r) xs = drop n xs"
proof -
  let ?k = "key (last (take n xs))"
  have parts: "sorted (map key (take n xs) @ map key (drop n xs))" "distinct (map key (take n xs) @ map key (drop n xs))"
    using assms(1,2) by (simp_all flip: map_append)
  have front: "\<not> ?k < key x" if "x \<in> set (take n xs)" for x
    using sorted_last [of key "take n xs" x] parts(1) that by (simp add: sorted_append)
  have rear: "?k < key x" if "x \<in> set (drop n xs)" for x
  proof -
    have "last (take n xs) \<in> set (take n xs)" using assms(3) by simp
    then have "?k \<le> key x" "?k \<noteq> key x" using parts that by (auto simp: sorted_append)
    then show ?thesis by simp
  qed
  have "filter (\<lambda>r. ?k < key r) (take n xs @ drop n xs) = drop n xs"
    unfolding filter_append using front rear by (simp add: filter_id_conv)
  then show ?thesis by simp
qed

lemma rbind_rbind: "rbind (rbind m f) g = rbind m (\<lambda>x. rbind (f x) g)"
  by (cases m) simp_all

lemma append_records_append:
  "append_records to_line out (xs @ ys) = rbind (append_records to_line out xs) (\<lambda>out'. append_records to_line out' ys)"
proof (induction xs arbitrary: out)
  case (Cons x xs)
  then show ?case by (cases "append_record to_line out x") simp_all
qed simp

lemma export_pages_table:
  assumes "sorted (map key rows)" "distinct (map key rows)"
  shows "export_pages key wrap to_line rows cursor out =
    append_records to_line out (map wrap (filter (\<lambda>r. after cursor (key r)) rows))"
  using assms
proof (induction key wrap to_line rows cursor out rule: export_pages.induct)
  case (1 key wrap to_line rows cursor out)
  let ?F = "filter (\<lambda>r. after cursor (key r)) rows"
  let ?p = "take PAGE_SIZE ?F"
  show ?case
  proof (cases "?p = []")
    case True
    then have "?F = []" by (simp add: PAGE_SIZE_def)
    then show ?thesis using True by (subst export_pages.simps) simp
  next
    case False
    have F: "sorted (map key ?F)" "distinct (map key ?F)"
      using 1(2,3) by (simp_all add: sorted_filter distinct_map_filter)
    have later: "filter (\<lambda>r. after (Some (key (last ?p))) (key r)) rows = drop PAGE_SIZE ?F"
      unfolding filter_later [OF later_rows(1) [OF False]] by (rule sorted_suffix [OF F False])
    have "export_pages key wrap to_line rows cursor out =
        rbind (append_records to_line out (map wrap ?p)) (\<lambda>out'. append_records to_line out' (map wrap (drop PAGE_SIZE ?F)))"
      using 1(1) [OF refl False _ 1(2,3)] False later
      by (subst export_pages.simps) (simp add: Let_def cong: rbind_cong)
    also have "\<dots> = append_records to_line out (map wrap ?F)"
      unfolding append_records_append [symmetric] map_append [symmetric] append_take_drop_id ..
    finally show ?thesis .
  qed
qed

section \<open>The limits are exact\<close>

definition text_of :: "(export_record \<Rightarrow> string) \<Rightarrow> export_record list \<Rightarrow> string" where
  "text_of to_line rs = concat (map (\<lambda>r. to_line r @ [newline]) rs)"

definition in_limits :: "export_buffer \<Rightarrow> bool" where
  "in_limits out \<longleftrightarrow> length (eb_bytes out) \<le> MAX_EXPORT_BYTES \<and> eb_records out \<le> MAX_EXPORT_RECORDS"

definition extended :: "(export_record \<Rightarrow> string) \<Rightarrow> export_buffer \<Rightarrow> export_record list \<Rightarrow> export_buffer" where
  "extended to_line out rs = \<lparr>eb_bytes = eb_bytes out @ text_of to_line rs, eb_records = eb_records out + length rs\<rparr>"

lemma append_record_exact:
  assumes "in_limits out"
  shows "append_record to_line out r =
    (if in_limits (extended to_line out [r]) then Inr (extended to_line out [r]) else Inl export_too_large)"
  using assms by (auto simp: append_record_def write_bytes_def in_limits_def extended_def text_of_def)

lemma extended_Nil: "extended to_line out [] = out"
  by (simp add: extended_def text_of_def)

lemma extended_limits: "in_limits (extended to_line out (rs @ rs')) \<Longrightarrow> in_limits (extended to_line out rs)"
  by (simp add: in_limits_def extended_def text_of_def)

lemma append_records_exact:
  "in_limits out \<Longrightarrow> append_records to_line out rs =
     (if in_limits (extended to_line out rs) then Inr (extended to_line out rs) else Inl export_too_large)"
proof (induction rs arbitrary: out)
  case Nil
  then show ?case by (simp add: extended_Nil)
next
  case (Cons r rs)
  have step: "extended to_line (extended to_line out [r]) rs = extended to_line out (r # rs)"
    by (simp add: extended_def text_of_def)
  show ?case
    using Cons extended_limits [of to_line out "[r]" rs] by (simp add: append_record_exact step)
qed

definition export_records :: "db \<Rightarrow> uuid \<Rightarrow> export_record list" where
  "export_records d w = map RecSchema (schema_rows d w) @ map RecEntity (entity_rows d w) @ map RecRelation (relation_rows d w)"

lemma distinct_select: "distinct (map key t) \<Longrightarrow> distinct (map key (sort_key key' (select_where p t)))"
proof -
  assume "distinct (map key t)"
  then have "inj_on key (set (select_where p t))" "distinct (select_where p t)"
    by (auto simp: distinct_map select_where_def intro: inj_on_subset)
  then show ?thesis by (simp add: distinct_map)
qed

lemma schema_rows_distinct: "distinct (map schema_key (db_schemas d)) \<Longrightarrow> distinct (map (\<lambda>s. (sc_name s, sc_version s)) (schema_rows d w))"
proof -
  assume "distinct (map schema_key (db_schemas d))"
  then have "inj_on schema_key (set (db_schemas d))" "distinct (db_schemas d)" by (simp_all add: distinct_map)
  then have "inj_on (\<lambda>s. (sc_name s, sc_version s)) (set (select_where (\<lambda>s. sc_workspace_id s = w) (db_schemas d)))"
    unfolding inj_on_def by (auto simp: schema_key_def set_select_where)
  then show ?thesis using \<open>distinct (db_schemas d)\<close> by (simp add: distinct_map schema_rows_def select_where_def)
qed

lemma export_jsonl_text:
  assumes "keys_ok d"
  shows "export_jsonl to_line d w =
    (if length (export_records d w) \<le> 10000 \<and> length (text_of to_line (export_records d w)) \<le> 8388608
     then Inr (text_of to_line (export_records d w)) else Inl export_too_large)"
proof -
  let ?e = "\<lparr>eb_bytes = [], eb_records = 0\<rparr>"
  have pages: "export_pages (\<lambda>s. (sc_name s, sc_version s)) RecSchema to_line (schema_rows d w) None out =
      append_records to_line out (map RecSchema (schema_rows d w))"
    "export_pages en_id RecEntity to_line (entity_rows d w) None out = append_records to_line out (map RecEntity (entity_rows d w))"
    "export_pages re_id RecRelation to_line (relation_rows d w) None out = append_records to_line out (map RecRelation (relation_rows d w))"
    for out
    using assms schema_rows_distinct [of d w]
    by (simp_all add: export_pages_table after_def keys_ok_def schema_rows_def entity_rows_def relation_rows_def distinct_select)
  have "export_jsonl to_line d w = rbind (append_records to_line ?e (export_records d w)) (\<lambda>out. Inr (eb_bytes out))"
    unfolding export_jsonl_def pages export_records_def append_records_append
    by (simp only: append_records_append rbind_rbind)
  then show ?thesis
    by (simp add: append_records_exact in_limits_def extended_def MAX_EXPORT_BYTES_def MAX_EXPORT_RECORDS_def)
qed

text \<open>
  Property C33. An export is the whole workspace or an error, never a part: when the workspace has at most
  10,000 records whose lines take at most 8 MiB, the export is exactly these lines, schemas first, then
  entities, then relations, each in the order of its key and however many pages it took; otherwise
  it is the limit error.
\<close>

theorem export_exact:
  assumes "keys_ok d"
  shows "export_jsonl to_line d w =
    (if length (export_records d w) \<le> 10000 \<and> length (text_of to_line (export_records d w)) \<le> 8388608
     then Inr (text_of to_line (export_records d w)) else Inl export_too_large)"
  by (rule export_jsonl_text [OF assms])

section \<open>What is exported is read back\<close>

lemma split_char_line: "newline \<notin> set l \<Longrightarrow> split_char newline (l @ newline # s) = l # split_char newline s"
  by (induction l) auto

lemma split_char_not_Nil [simp]: "split_char c s \<noteq> []"
  by (induction s) (auto split: list.splits)

lemma split_text: "\<forall>r \<in> set rs. newline \<notin> set (to_line r) \<Longrightarrow> split_char newline (text_of to_line rs) = map to_line rs @ [[]]"
  by (induction rs) (simp_all add: text_of_def split_char_line)

lemma lines_of_text: "\<forall>r \<in> set rs. newline \<notin> set (to_line r) \<Longrightarrow> lines_of (text_of to_line rs) = map to_line rs"
  by (simp add: lines_of_def split_text)

primrec import_all :: "import_env \<Rightarrow> nat \<Rightarrow> export_record list \<Rightarrow> import_state \<Rightarrow> import_state result" where
  "import_all ev n [] st = Inr st"
| "import_all ev n (r # rs) st = rbind (import_record ev n r st) (import_all ev (n + 1) rs)"

text \<open>What serde promises of the line of a record: it is one line, and reading it gives the record.\<close>

definition readable :: "(export_record \<Rightarrow> string) \<Rightarrow> (string \<Rightarrow> export_record option) \<Rightarrow> export_record \<Rightarrow> bool" where
  "readable to_line from_str r \<longleftrightarrow>
     newline \<notin> set (to_line r) \<and> trim (to_line r) = to_line r \<and> to_line r \<noteq> [] \<and> from_str (to_line r) = Some r"

lemma import_lines_readable:
  "\<forall>r \<in> set rs. readable to_line from_str r \<Longrightarrow> import_lines ev from_str n (map to_line rs) st = import_all ev n rs st"
proof (induction rs arbitrary: n st)
  case (Cons r rs)
  then show ?case by (simp add: readable_def cong: rbind_cong)
qed simp

text \<open>
  An export is read back record for record: importing the text of an export does exactly what
  importing the exported rows one after the other does, in an order in which every schema comes before
  the entities and every entity before the relations.
\<close>

theorem import_reads_export:
  assumes "keys_ok d" and "\<forall>r \<in> set (export_records d w). readable to_line from_str r" and "export_jsonl to_line d w = Inr text"
  shows "import_with_quota ev from_str d' text =
    rbind (import_all ev 1 (export_records d w) (import_start d')) (\<lambda>st. Inr (im_result st, im_db st))"
proof -
  have "text = text_of to_line (export_records d w)"
    using assms(3) export_jsonl_text [OF assms(1), of to_line w] by (simp split: if_splits)
  then show ?thesis
    using assms(2) by (simp add: import_with_quota_def lines_of_text import_lines_readable readable_def)
qed

section \<open>An import only adds, and it adds what it reports\<close>

lemma at_line_Inr [simp]: "at_line r = Inr x \<longleftrightarrow> r = Inr x"
  by (cases r) (simp_all add: at_line_def)

text \<open>
  What an import that started at \<open>d\<close> has done when it is in state \<open>st\<close>: rows of the workspace were
  appended to the entities and the relations, as many as it reports; the schemas of other workspaces are
  untouched, and the relations still have their ends.
\<close>

definition imported :: "uuid \<Rightarrow> db \<Rightarrow> import_state \<Rightarrow> bool" where
  "imported w d st \<longleftrightarrow>
     (\<exists>es rs. db_entities (im_db st) = db_entities d @ es \<and> db_relations (im_db st) = db_relations d @ rs \<and>
        map en_id es = ir_entity_ids (im_result st) \<and> length es = ir_entities (im_result st) \<and>
        length rs = ir_relations (im_result st) \<and>
        (\<forall>e \<in> set es. en_workspace_id e = w) \<and> (\<forall>r \<in> set rs. re_workspace_id r = w)) \<and>
     length (db_schemas (im_db st)) = length (db_schemas d) + ir_schemas (im_result st) \<and>
     filter (\<lambda>s. sc_workspace_id s \<noteq> w) (db_schemas (im_db st)) = filter (\<lambda>s. sc_workspace_id s \<noteq> w) (db_schemas d) \<and>
     db_snapshots (im_db st) = db_snapshots d \<and> relation_inv (im_db st)"

lemma imported_start: "relation_inv d \<Longrightarrow> imported w d (import_start d)"
  by (simp add: imported_def import_start_def)

lemma create_schema_relations:
  "create_schema p i now d t w def tmpl snap = Inr (x, d') \<Longrightarrow> db_relations d' = db_relations d"
  by (auto simp: create_schema_def Let_def rbind_Inr_iff insert_schema_def mark_active_def split: prod.splits if_splits)

lemma other_schemas_retired:
  "filter (\<lambda>s. sc_workspace_id s \<noteq> w) (update_where (\<lambda>s. sc_workspace_id s = w \<and> q s) (retire now) t) =
   filter (\<lambda>s. sc_workspace_id s \<noteq> w) t"
  by (induction t) (auto simp: update_where_def)

lemma import_schema_imported:
  assumes "imported (ie_workspace_id ev) d st" "import_schema ev n s st = Inr st'"
  shows "imported (ie_workspace_id ev) d st'"
proof -
  let ?w = "ie_workspace_id ev"
  obtain row dd d' where c: "create_schema (ie_pattern_ok ev) (ie_ids ev n) (ie_now ev) (im_db st) (ie_tenant_id ev) ?w
      (sc_definition s) None None = Inr ((row, dd), d')"
    and st': "im_db st' = d'" "im_result st' = (im_result st)\<lparr>ir_schemas := ir_schemas (im_result st) + 1\<rparr>"
    using assms(2) by (auto simp: import_schema_def res_simps)
  note cs = create_schema_Inr [OF c]
  have n: "length (update_where q (retire (ie_now ev)) t) = length t" for q t by (simp add: update_where_def)
  have "relation_inv d'"
    using assms(1) relation_inv_mono [of "im_db st" d'] create_schema_relations [OF c] entity_keys_cong [of d' "im_db st"] cs(13)
    by (simp add: imported_def)
  then show ?thesis
    using assms(1) cs(3) unfolding imported_def st' cs(8,13,14) create_schema_relations [OF c]
    by (simp add: other_schemas_retired n)
qed

lemma import_schema_name_frame:
  "import_schema_name ev i st = Inr (name, st') \<Longrightarrow> im_db st' = im_db st \<and> im_result st' = im_result st"
  by (auto simp: import_schema_name_def res_simps split: option.splits)

lemma import_entity_imported:
  assumes "imported (ie_workspace_id ev) d st" "import_entity ev n e st = Inr st'"
  shows "imported (ie_workspace_id ev) d st'"
proof -
  let ?w = "ie_workspace_id ev"
  obtain name st1 input row d' where "import_schema_name ev (en_schema_id e) st = Inr (name, st1)"
    and c: "create_with_quota (ie_errors_of ev) (ie_ids ev n) (ie_tokens ev n) (ie_now ev) (im_db st1) ?w input
      (ie_imported_by ev) (ie_entity_quota ev) = Inr (row, d')"
    and st': "im_db st' = d'" "im_result st' = (im_result st1)\<lparr>ir_entities := ir_entities (im_result st1) + 1,
      ir_entity_ids := ir_entity_ids (im_result st1) @ [en_id row]\<rparr>"
    using assms(2) by (auto simp: import_entity_def res_simps)
  then have st1: "im_db st1 = im_db st" "im_result st1 = im_result st" by (auto dest: import_schema_name_frame)
  have "insert_entity (im_db st) row = Inr d'" and w: "en_workspace_id row = ?w"
    using c unfolding st1 by (auto simp: create_with_quota_def Let_def res_simps split: if_splits)
  then have d': "d' = (im_db st)\<lparr>db_entities := db_entities (im_db st) @ [row]\<rparr>"
    by (simp add: insert_entity_def split: if_splits)
  have "relation_inv d'"
    using assms(1) relation_inv_mono [of "im_db st" d'] unfolding d' imported_def by (auto simp: entity_keys_def)
  then show ?thesis
    using assms(1) w unfolding imported_def st' st1 unfolding d' by fastforce
qed

lemma import_relation_imported:
  assumes "imported (ie_workspace_id ev) d st" "import_relation ev n x st = Inr st'"
  shows "imported (ie_workspace_id ev) d st'"
proof -
  let ?w = "ie_workspace_id ev"
  obtain input row d' where c: "create_relation (ie_ids ev n) (ie_now ev) (im_db st) ?w input = Inr (row, d')"
    and st': "im_db st' = d'" "im_result st' = (im_result st)\<lparr>ir_relations := ir_relations (im_result st) + 1\<rparr>"
    using assms(2) by (auto simp: import_relation_def res_simps)
  have "insert_relation (im_db st) row = Inr d'" and w: "re_workspace_id row = ?w"
    using create_relation_Inr [OF c] by blast+
  then have d': "d' = (im_db st)\<lparr>db_relations := db_relations (im_db st) @ [row]\<rparr>"
    by (simp add: insert_relation_def split: if_splits)
  have "relation_inv d'" using assms(1) create_relation_inv [OF _ c] by (simp add: imported_def)
  then show ?thesis
    using assms(1) w unfolding imported_def st' unfolding d' by fastforce
qed

lemma import_record_imported:
  assumes "imported (ie_workspace_id ev) d st" "import_record ev n r st = Inr st'"
  shows "imported (ie_workspace_id ev) d st'"
proof (cases r)
  case (RecSchema s)
  then show ?thesis using assms(2) import_schema_imported [OF assms(1), of n s st'] by (simp add: import_record_def)
next
  case (RecEntity e)
  then show ?thesis using assms(2) import_entity_imported [OF assms(1), of n e st'] by (simp add: import_record_def)
next
  case (RecRelation x)
  then show ?thesis using assms(2) import_relation_imported [OF assms(1), of n x st'] by (simp add: import_record_def)
qed

lemma import_lines_imported:
  "import_lines ev from_str n ls st = Inr st' \<Longrightarrow> imported (ie_workspace_id ev) d st \<Longrightarrow> imported (ie_workspace_id ev) d st'"
proof (induction ls arbitrary: n st)
  case (Cons l ls)
  show ?case
  proof (cases "trim l = []")
    case False
    then obtain r st1 where "import_record ev n r st = Inr st1" "import_lines ev from_str (n + 1) ls st1 = Inr st'"
      using Cons.prems(1) by (auto simp: res_simps)
    then show ?thesis using Cons.IH import_record_imported [OF Cons.prems(2)] by blast
  qed (use Cons in simp)
qed simp


section \<open>A small library is exported and read back\<close>

definition library_db :: db where
  "library_db = two_books\<lparr>db_relations := [citation\<lparr>re_properties := JNull\<rparr>]\<rparr>"

fun letter :: "export_record \<Rightarrow> string" where
  "letter (RecSchema s) = ''s''"
| "letter (RecEntity e) = (if en_id e = 50 then ''a'' else ''b'')"
| "letter (RecRelation r) = ''r''"

definition library_records :: "export_record list" where
  "library_records = [RecSchema followed_schema, RecEntity emma, RecEntity (emma\<lparr>en_id := 51\<rparr>),
     RecRelation (citation\<lparr>re_properties := JNull\<rparr>)]"

definition of_letter :: "string \<Rightarrow> export_record option" where
  "of_letter s = find_row (\<lambda>r. letter r = s) library_records"

lemma library_db_keys: "keys_ok library_db"
  by (simp add: keys_ok_def library_db_def two_books_def one_schema_def empty_db_def emma_def)

lemma library_db_records: "export_records library_db 3 = library_records"
  by (simp add: export_records_def library_db_def two_books_def one_schema_def empty_db_def emma_def followed_schema_def
      citation_def library_records_def schema_rows_def entity_rows_def relation_rows_def select_where_def)

lemma library_text: "text_of letter library_records = ''s'' @ [newline] @ ''a'' @ [newline] @ ''b'' @ [newline] @ ''r'' @ [newline]"
  by (simp add: library_records_def text_of_def emma_def)

theorem export_exact_witness:
  "keys_ok library_db \<and>
   export_jsonl letter library_db 3 = Inr (''s'' @ [newline] @ ''a'' @ [newline] @ ''b'' @ [newline] @ ''r'' @ [newline])"
  using export_exact [OF library_db_keys, of letter 3] library_db_keys
  unfolding library_db_records library_text by (simp add: library_records_def)

lemma trim_letters: "trim ''s'' = ''s''" "trim ''a'' = ''a''" "trim ''b'' = ''b''" "trim ''r'' = ''r''"
proof -
  have none: "strip_any whitespace_encodings ''s'' = None" "strip_any (map rev whitespace_encodings) ''s'' = None"
    "strip_any whitespace_encodings ''a'' = None" "strip_any (map rev whitespace_encodings) ''a'' = None"
    "strip_any whitespace_encodings ''b'' = None" "strip_any (map rev whitespace_encodings) ''b'' = None"
    "strip_any whitespace_encodings ''r'' = None" "strip_any (map rev whitespace_encodings) ''r'' = None"
    by (simp_all add: strip_any_def whitespace_encodings_def find_None_iff char_of_def bit_iff_odd)
  then show "trim ''s'' = ''s''" "trim ''a'' = ''a''" "trim ''b'' = ''b''" "trim ''r'' = ''r''"
    by (simp_all add: trim_def trim_start_with.simps [of _ "''s''"] trim_start_with.simps [of _ "''a''"]
        trim_start_with.simps [of _ "''b''"] trim_start_with.simps [of _ "''r''"])
qed

lemma library_readable: "\<forall>r \<in> set (export_records library_db 3). readable letter of_letter r"
  unfolding library_db_records
  by (simp add: readable_def of_letter_def library_records_def emma_def find_row_def trim_letters)

definition library_import :: import_env where
  "library_import = \<lparr>ie_pattern_ok = \<lambda>_. True, ie_errors_of = accept_all, ie_ids = \<lambda>n. 59 + of_nat n, ie_tokens = \<lambda>_. ''t'',
     ie_now = 8, ie_tenant_id = 9, ie_workspace_id = 3, ie_imported_by = None, ie_entity_quota = None\<rparr>"

theorem import_reads_export_witness:
  "\<exists>text. export_jsonl letter library_db 3 = Inr text \<and>
     import_with_quota library_import of_letter one_schema text =
       rbind (import_all library_import 1 library_records (import_start one_schema)) (\<lambda>st. Inr (im_result st, im_db st))"
proof -
  have e: "export_jsonl letter library_db 3 = Inr (text_of letter library_records)"
    using export_jsonl_text [OF library_db_keys, of letter 3] unfolding library_db_records library_text
    by (simp add: library_records_def)
  show ?thesis
    using import_reads_export [OF library_db_keys library_readable e, of library_import one_schema] e
    unfolding library_db_records by blast
qed

lemma library_cites:
  "import_with_quota (library_import\<lparr>ie_imported_by := user\<rparr>) of_letter two_books ''r'' =
     Inr (\<lparr>ir_schemas = 0, ir_entities = 0, ir_relations = 1, ir_entity_ids = []\<rparr>, two_books\<lparr>db_relations := [citation]\<rparr>)"
proof -
  have l: "lines_of ''r'' = [''r'']" by code_simp
  have r: "of_letter ''r'' = Some (RecRelation (citation\<lparr>re_properties := JNull\<rparr>))"
    by (simp add: of_letter_def library_records_def emma_def find_row_def)
  have "import_relation (library_import\<lparr>ie_imported_by := user\<rparr>) 1 (citation\<lparr>re_properties := JNull\<rparr>) (import_start two_books) =
      Inr ((import_start two_books)\<lparr>im_db := two_books\<lparr>db_relations := [citation]\<rparr>,
        im_result := \<lparr>ir_schemas = 0, ir_entities = 0, ir_relations = 1, ir_entity_ids = []\<rparr>\<rparr>)"
    using two_books_cite
    by (simp add: import_relation_def import_start_def library_import_def at_line_def mapped_def cite_def citation_def)
  then show ?thesis
    by (simp add: import_with_quota_def l r import_record_def trim_letters)
qed


end
