(* ===== verification/Background_Jobs.thy ===== *)
theory Background_Jobs
  imports Jsonl_Transfer Infer_Fill Workspaces
begin

text \<open>
  \<open>src/models/api_key_audit_log.rs\<close>, \<open>ee/models/workspace_worker_classes.rs\<close>, the bulk workers
  (\<open>src/workers/fill_defaults.rs\<close>, \<open>src/workers/undo.rs\<close>, \<open>src/workers/import.rs\<close>,
  \<open>ee/workers/confirm_proposals.rs\<close>) with their enqueueing, \<open>enqueue_after_write\<close> and \<open>enqueue_requested\<close>
  of the embedding and reindex workers, and \<open>bulk_job_status\<close>.

  A bulk worker does its work and records its completion in the audit log in one transaction, under a lock
  of the job; a redelivery finds the record.  \<open>AuditActor\<close> is an \<open>auth_context\<close> whose scope and audit
  grant nobody reads.  serde is a parameter.  The lemmas show that a job takes effect once, however often
  it is delivered and whatever happens in between, and that its lifecycle then completes.
\<close>

section \<open>The audit log\<close>

datatype audit_action = UndoMigrationJob | SetMaintenance | ReindexEmbeddings | FillDefaults | BackgroundJobCompleted

fun audit_as_db_str :: "audit_action \<Rightarrow> string" where
  "audit_as_db_str UndoMigrationJob = ''undo_migration_job''"
| "audit_as_db_str SetMaintenance = ''set_maintenance''"
| "audit_as_db_str ReindexEmbeddings = ''reindex_embeddings''"
| "audit_as_db_str FillDefaults = ''fill_defaults''"
| "audit_as_db_str BackgroundJobCompleted = ''background_job_completed''"

record audit_row =
  al_id :: uuid
  al_workspace_id :: uuid
  al_tenant_id :: uuid
  al_api_key_id :: "uuid option"
  al_user_id :: "uuid option"
  al_action :: string
  al_detail :: json
  al_created_at :: instant

record worker_class_row =
  wc_workspace_id :: uuid
  wc_worker_class :: string
  wc_created_at :: instant
  wc_updated_at :: instant

record bulk_state =
  bs_billing :: billing_db
  bs_queue :: queue_store
  bs_jobs :: inference_jobs
  bs_audit :: "audit_row list"
  bs_worker_classes :: "worker_class_row list"

abbreviation bs_identity :: "bulk_state \<Rightarrow> identity_db" where
  "bs_identity s \<equiv> bg_identity (bs_billing s)"

abbreviation bs_store :: "bulk_state \<Rightarrow> db" where
  "bs_store s \<equiv> id_store (bs_identity s)"

definition with_store :: "db \<Rightarrow> bulk_state \<Rightarrow> bulk_state" where
  "with_store d s = s\<lparr>bs_billing := (bs_billing s)\<lparr>bg_identity := (bs_identity s)\<lparr>id_store := d\<rparr>\<rparr>\<rparr>"

text \<open>The text of the member \<open>job_id\<close>; a member that is no string is not the text of an identifier.\<close>

definition detail_job :: "json \<Rightarrow> string option" where
  "detail_job v =
     (case v of
        JObj fs \<Rightarrow> (case bt_get fs ''job_id'' of Some (JStr s) \<Rightarrow> Some s | _ \<Rightarrow> None)
      | _ \<Rightarrow> None)"

definition job_result :: "(uuid \<Rightarrow> string) \<Rightarrow> bulk_state \<Rightarrow> uuid \<Rightarrow> uuid \<Rightarrow> audit_action \<Rightarrow> json option" where
  "job_result hyphenated s workspace_id job_id action =
     map_option al_detail (find_row (\<lambda>r. al_workspace_id r = workspace_id \<and> al_action r = audit_as_db_str action \<and>
       detail_job (al_detail r) = Some (hyphenated job_id)) (bs_audit s))"

definition job_completed :: "(uuid \<Rightarrow> string) \<Rightarrow> bulk_state \<Rightarrow> uuid \<Rightarrow> uuid \<Rightarrow> audit_action \<Rightarrow> bool" where
  "job_completed hyphenated s workspace_id job_id action \<longleftrightarrow> job_result hyphenated s workspace_id job_id action \<noteq> None"

definition record_audit ::
  "uuid \<Rightarrow> instant \<Rightarrow> bulk_state \<Rightarrow> auth_context \<Rightarrow> audit_action \<Rightarrow> json \<Rightarrow> bulk_state result" where
  "record_audit new_id now s actor action v =
     (if new_id \<in> al_id ` set (bs_audit s) \<or> au_workspace_id actor \<notin> wk_id ` set (db_workspaces (bs_store s)) \<or>
         au_tenant_id actor \<notin> tn_id ` set (id_tenants (bs_identity s)) \<or>
         (case au_user_id actor of None \<Rightarrow> False | Some u \<Rightarrow> u \<notin> us_id ` set (id_users (bs_identity s)))
      then Inl (Internal ''constraint'')
      else Inr (s\<lparr>bs_audit := bs_audit s @
        [\<lparr>al_id = new_id, al_workspace_id = au_workspace_id actor, al_tenant_id = au_tenant_id actor,
          al_api_key_id = Some (au_api_key_id actor), al_user_id = au_user_id actor,
          al_action = audit_as_db_str action, al_detail = v, al_created_at = now\<rparr>]\<rparr>))"

definition list_audit_for_workspace :: "bulk_state \<Rightarrow> uuid \<Rightarrow> list_params \<Rightarrow> audit_row list" where
  "list_audit_for_workspace s workspace_id page =
     page_of page (sort_key (\<lambda>r. - al_created_at r) (select_where (\<lambda>r. al_workspace_id r = workspace_id) (bs_audit s)))"

section \<open>Worker classes of workspaces\<close>

definition worker_class_from_db_str :: "string \<Rightarrow> worker_class option" where
  "worker_class_from_db_str s = List.find (\<lambda>c. worker_class_as_db_str c = s) [TenantPrivate, Official, Shared]"

text \<open>\<open>targets\<close> are the tags of \<open>settings.worker_targets\<close>.\<close>

definition set_worker_class ::
  "(uuid \<Rightarrow> string) \<Rightarrow> string list \<Rightarrow> instant \<Rightarrow> bulk_state \<Rightarrow> uuid \<Rightarrow> worker_class \<Rightarrow> bulk_state result" where
  "set_worker_class hyphenated targets now s workspace_id c =
     rbind (for_job (bs_store s) c workspace_id) (\<lambda>target.
     if target_tag hyphenated target \<notin> set targets
     then Inl (ValidationFailed ''worker target {} is not configured for this deployment'' [])
     else if \<exists>r \<in> set (bs_worker_classes s). wc_workspace_id r = workspace_id
     then Inr (s\<lparr>bs_worker_classes := update_where (\<lambda>r. wc_workspace_id r = workspace_id)
            (\<lambda>r. r\<lparr>wc_worker_class := worker_class_as_db_str c, wc_updated_at := now\<rparr>) (bs_worker_classes s)\<rparr>)
     else if workspace_id \<notin> wk_id ` set (db_workspaces (bs_store s)) then Inl (Internal ''constraint'')
     else Inr (s\<lparr>bs_worker_classes := bs_worker_classes s @
            [\<lparr>wc_workspace_id = workspace_id, wc_worker_class = worker_class_as_db_str c, wc_created_at = now, wc_updated_at = now\<rparr>]\<rparr>))"

definition clear_worker_class :: "bulk_state \<Rightarrow> uuid \<Rightarrow> bulk_state" where
  "clear_worker_class s workspace_id =
     s\<lparr>bs_worker_classes := delete_where (\<lambda>r. wc_workspace_id r = workspace_id) (bs_worker_classes s)\<rparr>"

definition get_worker_class :: "bulk_state \<Rightarrow> uuid \<Rightarrow> worker_class option result" where
  "get_worker_class s workspace_id =
     (case find_row (\<lambda>r. wc_workspace_id r = workspace_id) (bs_worker_classes s) of
        None \<Rightarrow> Inr None
      | Some r \<Rightarrow> (case worker_class_from_db_str (wc_worker_class r) of
            Some c \<Rightarrow> Inr (Some c)
          | None \<Rightarrow> Inl (Internal ''unknown worker class in database: {}'')))"

text \<open>\<open>enterprise\<close> tells whether the edition keeps assignments; the community edition has none.\<close>

definition resolve_worker_class :: "bool \<Rightarrow> bulk_state \<Rightarrow> uuid \<Rightarrow> worker_class result" where
  "resolve_worker_class enterprise s workspace_id =
     rbind (if enterprise then get_worker_class s workspace_id else Inr None) (\<lambda>c.
       Inr (case c of Some c \<Rightarrow> c | None \<Rightarrow> Shared))"

section \<open>Enqueueing in the caller's transaction\<close>

text \<open>
  What a worker or a request gets from outside: the edition, the installed queue policy, fresh identifiers,
  the clock, and serde.
\<close>

record bulk_env =
  be_backend :: backend
  be_enterprise :: bool
  be_deployment :: deployment
  be_policy :: "uuid \<Rightarrow> worker_class \<Rightarrow> string + concurrency_policy"
  be_parse_uuid :: "string \<Rightarrow> uuid option"
  be_pattern_ok :: "string \<Rightarrow> bool"
  be_errors_of :: schema_validator
  be_from_str :: "string \<Rightarrow> export_record option"
  be_snapshot_ids :: "uuid \<Rightarrow> uuid"
  be_tokens :: "uuid \<Rightarrow> string"
  be_line_ids :: "nat \<Rightarrow> uuid"
  be_line_tokens :: "nat \<Rightarrow> string"
  be_sync_ids :: "uuid \<Rightarrow> uuid"
  be_sync_payload :: "uuid \<Rightarrow> uuid \<Rightarrow> worker_class \<Rightarrow> json"
  be_audit_id :: uuid
  be_now :: instant

text \<open>An error drops the caller's transaction, and a refusal recorded in it.\<close>

definition dispatch_in_transaction ::
  "(uuid \<Rightarrow> string) \<Rightarrow> bulk_env \<Rightarrow> uuid \<Rightarrow> bulk_state \<Rightarrow> job_spec \<Rightarrow> (uuid \<times> bulk_state) result" where
  "dispatch_in_transaction hyphenated ev lifecycle_id s spec =
     (case dispatch_job hyphenated (be_parse_uuid ev) (be_policy ev (js_workspace_id spec) (js_class spec)) lifecycle_id
             (be_now ev) (bs_store s) (bs_queue s) spec of
        (Inl e, _) \<Rightarrow> Inl (Internal e)
      | (Inr i, q) \<Rightarrow> Inr (i, s\<lparr>bs_queue := q\<rparr>))"

definition embedding_spec :: "bulk_env \<Rightarrow> uuid \<Rightarrow> uuid \<Rightarrow> worker_class \<Rightarrow> job_spec" where
  "embedding_spec ev workspace_id entity_id c =
     \<lparr>js_job_name = ''embedding_sync'', js_workspace_id = workspace_id, js_class = c,
      js_dispatch_payload = be_sync_payload ev workspace_id entity_id c, js_worker_name = ''EmbeddingSyncWorker'',
      js_use_queue_concurrency = False\<rparr>"

definition enqueue_after_write :: "(uuid \<Rightarrow> string) \<Rightarrow> bulk_env \<Rightarrow> bulk_state \<Rightarrow> uuid \<Rightarrow> uuid \<Rightarrow> bulk_state result" where
  "enqueue_after_write hyphenated ev s workspace_id entity_id =
     rbind (resolve_worker_class (be_enterprise ev) s workspace_id) (\<lambda>c.
     rbind (dispatch_in_transaction hyphenated ev (be_sync_ids ev entity_id) s (embedding_spec ev workspace_id entity_id c)) (\<lambda>(_, s').
     Inr s'))"

primrec enqueue_embeddings :: "(uuid \<Rightarrow> string) \<Rightarrow> bulk_env \<Rightarrow> uuid \<Rightarrow> uuid list \<Rightarrow> bulk_state \<Rightarrow> bulk_state result" where
  "enqueue_embeddings hyphenated ev w [] s = Inr s"
| "enqueue_embeddings hyphenated ev w (e # es) s =
     rbind (enqueue_after_write hyphenated ev s w e) (enqueue_embeddings hyphenated ev w es)"

text \<open>A reindex on request: \<open>enqueue_requested\<close> with \<open>enqueue_reindex\<close> and \<open>dispatch_reindex\<close>.\<close>

definition reindex_spec :: "json \<Rightarrow> uuid \<Rightarrow> worker_class \<Rightarrow> bool \<Rightarrow> job_spec" where
  "reindex_spec payload workspace_id c startup =
     \<lparr>js_job_name = (if startup then ''startup_reindex'' else ''reindex''), js_workspace_id = workspace_id, js_class = c,
      js_dispatch_payload = payload, js_worker_name = ''ReindexWorker'', js_use_queue_concurrency = True\<rparr>"

definition enqueue_reindex ::
  "(uuid \<Rightarrow> string) \<Rightarrow> bulk_env \<Rightarrow> bool \<Rightarrow> json \<Rightarrow> uuid \<Rightarrow> bulk_state \<Rightarrow> uuid \<Rightarrow> (uuid \<times> bulk_state) result" where
  "enqueue_reindex hyphenated ev has_queue payload lifecycle_id s workspace_id =
     (if \<not> has_queue then Inl (Internal ''no queue provider configured'')
      else rbind (resolve_worker_class (be_enterprise ev) s workspace_id) (\<lambda>c.
           dispatch_in_transaction hyphenated ev lifecycle_id s (reindex_spec payload workspace_id c False)))"

definition enqueue_requested ::
  "(uuid \<Rightarrow> string) \<Rightarrow> bulk_env \<Rightarrow> bool \<Rightarrow> json \<Rightarrow> uuid \<Rightarrow> bulk_state \<Rightarrow> auth_context \<Rightarrow> (uuid \<times> bulk_state) result" where
  "enqueue_requested hyphenated ev has_queue payload lifecycle_id s actor =
     (if \<not> has_queue
      then Inl (BackendUnavailable ''reindex requires a queue provider (configure queue: in the server config)'')
      else rbind (record_audit (be_audit_id ev) (be_now ev) s actor ReindexEmbeddings
                    (JObj [(''workspace_id'', JStr (hyphenated (au_workspace_id actor)))])) (\<lambda>s1.
           enqueue_reindex hyphenated ev has_queue payload lifecycle_id s1 (au_workspace_id actor)))"

section \<open>The bulk workers\<close>

record bulk_args =
  ba_lifecycle_id :: "uuid option"
  ba_tenant_id :: uuid
  ba_workspace_id :: uuid
  ba_api_key_id :: uuid
  ba_user_id :: "uuid option"
  ba_worker_class :: worker_class

record fill_args = bulk_args +
  fa_schema_name :: string

record undo_args = bulk_args +
  ua_snapshot_job_id :: uuid

record import_args = bulk_args +
  pa_jsonl :: string

record confirm_args = bulk_args +
  ca_inference_job_id :: uuid

definition job_actor :: "'a bulk_args_scheme \<Rightarrow> auth_context" where
  "job_actor args = \<lparr>au_api_key_id = ba_api_key_id args, au_workspace_id = ba_workspace_id args,
     au_tenant_id = ba_tenant_id args, au_scope = ScopeRead, au_user_id = ba_user_id args, au_audit = False\<rparr>"

definition fill_worker :: "(uuid \<Rightarrow> string) \<Rightarrow> bulk_env \<Rightarrow> fill_args \<Rightarrow> bulk_state \<Rightarrow> bulk_state result" where
  "fill_worker hyphenated ev args s =
     rbind (ok_or (ba_lifecycle_id args) (Internal ''fill-defaults lifecycle missing'')) (\<lambda>job_id.
     if job_completed hyphenated s (ba_workspace_id args) job_id FillDefaults then Inr s
     else rbind (require_job_actor (be_now ev) (bs_identity s) (job_actor args) ScopeMigration) (\<lambda>_.
          rbind (fill_defaults (be_snapshot_ids ev) (be_tokens ev) (be_now ev) (bs_store s) (ba_workspace_id args)
                   (fa_schema_name args) job_id (ba_user_id args)) (\<lambda>(report, d).
          record_audit (be_audit_id ev) (be_now ev) (with_store d s) (job_actor args) FillDefaults
            (JObj [(''entities_updated'', JInt (int (fr_entities_updated report))),
                   (''fields_filled'', JInt (int (fr_fields_filled report))),
                   (''job_id'', JStr (hyphenated job_id)),
                   (''schema_name'', JStr (fa_schema_name args))]))))"

definition undo_worker :: "(uuid \<Rightarrow> string) \<Rightarrow> bulk_env \<Rightarrow> undo_args \<Rightarrow> bulk_state \<Rightarrow> bulk_state result" where
  "undo_worker hyphenated ev args s =
     rbind (ok_or (ba_lifecycle_id args) (Internal ''undo lifecycle missing'')) (\<lambda>i.
     if job_completed hyphenated s (ba_workspace_id args) i UndoMigrationJob then Inr s
     else rbind (require_job_actor (be_now ev) (bs_identity s) (job_actor args) ScopeMigration) (\<lambda>_.
          rbind (undo_job (be_tokens ev) (be_now ev) (bs_store s) (ba_workspace_id args) (ua_snapshot_job_id args))
            (\<lambda>((restored, missing), d).
          record_audit (be_audit_id ev) (be_now ev) (with_store d s) (job_actor args) UndoMigrationJob
            (JObj [(''job_id'', JStr (hyphenated i)),
                   (''missing'', JInt (int missing)),
                   (''restored'', JInt (int restored)),
                   (''snapshot_job_id'', JStr (hyphenated (ua_snapshot_job_id args)))]))))"

definition edition_quotas :: "bulk_env \<Rightarrow> bulk_state \<Rightarrow> uuid \<Rightarrow> quotas result" where
  "edition_quotas ev s tenant_id =
     (if be_enterprise ev then quotas_of (be_deployment ev) (be_now ev) (bs_billing s) tenant_id
      else Inr \<lparr>qt_workspaces = None, qt_entities = None\<rparr>)"

definition import_env_of :: "bulk_env \<Rightarrow> import_args \<Rightarrow> int option \<Rightarrow> import_env" where
  "import_env_of ev args quota =
     \<lparr>ie_pattern_ok = be_pattern_ok ev, ie_errors_of = be_errors_of ev, ie_ids = be_line_ids ev, ie_tokens = be_line_tokens ev,
      ie_now = be_now ev, ie_tenant_id = ba_tenant_id args, ie_workspace_id = ba_workspace_id args,
      ie_imported_by = ba_user_id args, ie_entity_quota = quota\<rparr>"

definition import_worker :: "(uuid \<Rightarrow> string) \<Rightarrow> bulk_env \<Rightarrow> import_args \<Rightarrow> bulk_state \<Rightarrow> bulk_state result" where
  "import_worker hyphenated ev args s =
     rbind (ok_or (ba_lifecycle_id args) (Internal ''import lifecycle missing'')) (\<lambda>i.
     if job_completed hyphenated s (ba_workspace_id args) i BackgroundJobCompleted then Inr s
     else rbind (require_job_actor (be_now ev) (bs_identity s) (job_actor args) ScopeSchema) (\<lambda>_.
          rbind (edition_quotas ev s (ba_tenant_id args)) (\<lambda>quota.
          rbind (import_with_quota (import_env_of ev args (qt_entities quota)) (be_from_str ev) (bs_store s) (pa_jsonl args)) (\<lambda>(r, d).
          rbind (enqueue_embeddings hyphenated ev (ba_workspace_id args) (ir_entity_ids r) (with_store d s)) (\<lambda>s1.
          record_audit (be_audit_id ev) (be_now ev) s1 (job_actor args) BackgroundJobCompleted
            (JObj [(''entities'', JInt (int (ir_entities r))),
                   (''job_id'', JStr (hyphenated i)),
                   (''relations'', JInt (int (ir_relations r))),
                   (''schemas'', JInt (int (ir_schemas r)))]))))))"

definition confirm_worker :: "(uuid \<Rightarrow> string) \<Rightarrow> bulk_env \<Rightarrow> confirm_args \<Rightarrow> bulk_state \<Rightarrow> bulk_state result" where
  "confirm_worker hyphenated ev args s =
     rbind (ok_or (ba_lifecycle_id args) (Internal ''confirmation lifecycle missing'')) (\<lambda>i.
     if job_completed hyphenated s (ba_workspace_id args) i BackgroundJobCompleted then Inr s
     else rbind (require_job_actor (be_now ev) (bs_identity s) (job_actor args) ScopeSchema) (\<lambda>_.
          rbind (confirm_proposals (be_errors_of ev) (be_backend ev) (be_snapshot_ids ev) (be_tokens ev) (be_now ev) (bs_store s)
                   (bs_jobs s) (ba_workspace_id args) (ca_inference_job_id args) (ba_user_id args)) (\<lambda>(report, d).
          record_audit (be_audit_id ev) (be_now ev) (with_store d s) (job_actor args) BackgroundJobCompleted
            (JObj [(''confirmed'', JInt (cr_confirmed report)),
                   (''inference_job_id'', JStr (hyphenated (ca_inference_job_id args))),
                   (''invalid'', JInt (cr_invalid report)),
                   (''job_id'', JStr (hyphenated i)),
                   (''stale'', JInt (cr_stale report))]))))"

datatype bulk_job = FillJob fill_args | UndoJob undo_args | ImportJob import_args | ConfirmJob confirm_args

fun run_bulk :: "(uuid \<Rightarrow> string) \<Rightarrow> bulk_job \<Rightarrow> bulk_env \<Rightarrow> bulk_state \<Rightarrow> bulk_state result" where
  "run_bulk hyphenated (FillJob args) ev s = fill_worker hyphenated ev args s"
| "run_bulk hyphenated (UndoJob args) ev s = undo_worker hyphenated ev args s"
| "run_bulk hyphenated (ImportJob args) ev s = import_worker hyphenated ev args s"
| "run_bulk hyphenated (ConfirmJob args) ev s = confirm_worker hyphenated ev args s"

fun bulk_lifecycle :: "bulk_job \<Rightarrow> uuid option" where
  "bulk_lifecycle (FillJob args) = ba_lifecycle_id args"
| "bulk_lifecycle (UndoJob args) = ba_lifecycle_id args"
| "bulk_lifecycle (ImportJob args) = ba_lifecycle_id args"
| "bulk_lifecycle (ConfirmJob args) = ba_lifecycle_id args"

fun bulk_workspace :: "bulk_job \<Rightarrow> uuid" where
  "bulk_workspace (FillJob args) = ba_workspace_id args"
| "bulk_workspace (UndoJob args) = ba_workspace_id args"
| "bulk_workspace (ImportJob args) = ba_workspace_id args"
| "bulk_workspace (ConfirmJob args) = ba_workspace_id args"

fun bulk_class :: "bulk_job \<Rightarrow> worker_class" where
  "bulk_class (FillJob args) = ba_worker_class args"
| "bulk_class (UndoJob args) = ba_worker_class args"
| "bulk_class (ImportJob args) = ba_worker_class args"
| "bulk_class (ConfirmJob args) = ba_worker_class args"

fun bulk_action :: "bulk_job \<Rightarrow> audit_action" where
  "bulk_action (FillJob args) = FillDefaults"
| "bulk_action (UndoJob args) = UndoMigrationJob"
| "bulk_action (ImportJob args) = BackgroundJobCompleted"
| "bulk_action (ConfirmJob args) = BackgroundJobCompleted"

fun bulk_job_name :: "bulk_job \<Rightarrow> string" where
  "bulk_job_name (FillJob args) = ''fill_defaults''"
| "bulk_job_name (UndoJob args) = ''undo''"
| "bulk_job_name (ImportJob args) = ''import''"
| "bulk_job_name (ConfirmJob args) = ''confirm_proposals''"

fun bulk_worker_name :: "bulk_job \<Rightarrow> string" where
  "bulk_worker_name (FillJob args) = ''FillDefaultsWorker''"
| "bulk_worker_name (UndoJob args) = ''UndoWorker''"
| "bulk_worker_name (ImportJob args) = ''ImportWorker''"
| "bulk_worker_name (ConfirmJob args) = ''ConfirmProposalsWorker''"

definition bulk_spec :: "(bulk_job \<Rightarrow> json) \<Rightarrow> bulk_job \<Rightarrow> job_spec" where
  "bulk_spec to_value j =
     \<lparr>js_job_name = bulk_job_name j, js_workspace_id = bulk_workspace j, js_class = bulk_class j,
      js_dispatch_payload = to_value j, js_worker_name = bulk_worker_name j, js_use_queue_concurrency = True\<rparr>"

text \<open>The four \<open>enqueue\<close> functions: what each checks in the caller's transaction, then the dispatch.\<close>

definition enqueue_fill ::
  "(uuid \<Rightarrow> string) \<Rightarrow> bulk_env \<Rightarrow> (bulk_job \<Rightarrow> json) \<Rightarrow> uuid \<Rightarrow> bulk_state \<Rightarrow> auth_context \<Rightarrow> string \<Rightarrow> (uuid \<times> bulk_state) result" where
  "enqueue_fill hyphenated ev to_value lifecycle_id s auth schema_name =
     rbind (get_active_schema (bs_store s) (au_workspace_id auth) schema_name) (\<lambda>_.
     rbind (resolve_worker_class (be_enterprise ev) s (au_workspace_id auth)) (\<lambda>c.
     dispatch_in_transaction hyphenated ev lifecycle_id s (bulk_spec to_value (FillJob
       \<lparr>ba_lifecycle_id = None, ba_tenant_id = au_tenant_id auth, ba_workspace_id = au_workspace_id auth,
        ba_api_key_id = au_api_key_id auth, ba_user_id = au_user_id auth, ba_worker_class = c, fa_schema_name = schema_name\<rparr>))))"

definition enqueue_undo ::
  "(uuid \<Rightarrow> string) \<Rightarrow> bulk_env \<Rightarrow> (bulk_job \<Rightarrow> json) \<Rightarrow> uuid \<Rightarrow> bulk_state \<Rightarrow> auth_context \<Rightarrow> uuid \<Rightarrow> (uuid \<times> bulk_state) result" where
  "enqueue_undo hyphenated ev to_value lifecycle_id s auth snapshot_job_id =
     rbind (require_job_snapshots (bs_store s) (au_workspace_id auth) snapshot_job_id) (\<lambda>_.
     rbind (resolve_worker_class (be_enterprise ev) s (au_workspace_id auth)) (\<lambda>c.
     dispatch_in_transaction hyphenated ev lifecycle_id s (bulk_spec to_value (UndoJob
       \<lparr>ba_lifecycle_id = None, ba_tenant_id = au_tenant_id auth, ba_workspace_id = au_workspace_id auth,
        ba_api_key_id = au_api_key_id auth, ba_user_id = au_user_id auth, ba_worker_class = c,
        ua_snapshot_job_id = snapshot_job_id\<rparr>))))"

definition enqueue_import ::
  "(uuid \<Rightarrow> string) \<Rightarrow> bulk_env \<Rightarrow> (bulk_job \<Rightarrow> json) \<Rightarrow> uuid \<Rightarrow> bulk_state \<Rightarrow> auth_context \<Rightarrow> string \<Rightarrow> (uuid \<times> bulk_state) result" where
  "enqueue_import hyphenated ev to_value lifecycle_id s auth jsonl =
     rbind (resolve_worker_class (be_enterprise ev) s (au_workspace_id auth)) (\<lambda>c.
     dispatch_in_transaction hyphenated ev lifecycle_id s (bulk_spec to_value (ImportJob
       \<lparr>ba_lifecycle_id = None, ba_tenant_id = au_tenant_id auth, ba_workspace_id = au_workspace_id auth,
        ba_api_key_id = au_api_key_id auth, ba_user_id = au_user_id auth, ba_worker_class = c, pa_jsonl = jsonl\<rparr>)))"

definition enqueue_confirm ::
  "(uuid \<Rightarrow> string) \<Rightarrow> bulk_env \<Rightarrow> (bulk_job \<Rightarrow> json) \<Rightarrow> uuid \<Rightarrow> bulk_state \<Rightarrow> auth_context \<Rightarrow> uuid \<Rightarrow> (uuid \<times> bulk_state) result" where
  "enqueue_confirm hyphenated ev to_value lifecycle_id s auth inference_job_id =
     rbind (require_completed_job (bs_store s) (bs_jobs s) (au_workspace_id auth) inference_job_id) (\<lambda>_.
     rbind (resolve_worker_class (be_enterprise ev) s (au_workspace_id auth)) (\<lambda>c.
     dispatch_in_transaction hyphenated ev lifecycle_id s (bulk_spec to_value (ConfirmJob
       \<lparr>ba_lifecycle_id = None, ba_tenant_id = au_tenant_id auth, ba_workspace_id = au_workspace_id auth,
        ba_api_key_id = au_api_key_id auth, ba_user_id = au_user_id auth, ba_worker_class = c,
        ca_inference_job_id = inference_job_id\<rparr>))))"

section \<open>Status of a job\<close>

record bulk_job_status =
  bj_job_id :: uuid
  bj_job_name :: string
  bj_status :: lifecycle_status
  bj_result :: "json option"

definition bulk_job_status :: "(uuid \<Rightarrow> string) \<Rightarrow> bulk_state \<Rightarrow> uuid \<Rightarrow> uuid \<Rightarrow> string list \<Rightarrow> bulk_job_status result" where
  "bulk_job_status hyphenated s workspace_id i allowed =
     rbind (ok_or (find_row (\<lambda>r. lc_id r = i \<and> lc_workspace_id r = Some workspace_id \<and> lc_job_name r \<in> set allowed)
                    (q_lifecycles (bs_queue s))) (NotFound ''migration job not found'')) (\<lambda>row.
     Inr \<lparr>bj_job_id = i, bj_job_name = lc_job_name row, bj_status = lc_status row,
          bj_result = job_result hyphenated s workspace_id i
            (if lc_job_name row = ''undo'' then UndoMigrationJob
             else if lc_job_name row = ''fill_defaults'' then FillDefaults else BackgroundJobCompleted)\<rparr>)"

definition migration_job_status :: "(uuid \<Rightarrow> string) \<Rightarrow> bulk_state \<Rightarrow> uuid \<Rightarrow> uuid \<Rightarrow> bulk_job_status result" where
  "migration_job_status hyphenated s workspace_id i =
     bulk_job_status hyphenated s workspace_id i [''undo'', ''fill_defaults'', ''reindex'']"

section \<open>A delivery\<close>

text \<open>The lifecycles under which the work runs, when the delivery is admitted.\<close>

definition admitted_lifecycles :: "bulk_state \<Rightarrow> uuid option \<Rightarrow> instant \<Rightarrow> lifecycles option" where
  "admitted_lifecycles s lifecycle_id now =
     (case lifecycle_id of
        None \<Rightarrow> Some (q_lifecycles (bs_queue s))
      | Some i \<Rightarrow> (case start_at (q_lifecycles (bs_queue s)) i now of
          Inr (Started _, t) \<Rightarrow> Some t | Inr (Recovered _, t) \<Rightarrow> Some t | _ \<Rightarrow> None))"

definition bulk_job_args :: "(bulk_job \<Rightarrow> json) \<Rightarrow> bulk_job \<Rightarrow> job_args" where
  "bulk_job_args to_value j = \<lparr>ja_class = bulk_class j, ja_workspace_id = bulk_workspace j, ja_payload = to_value j,
     ja_worker_name = bulk_worker_name j\<rparr>"

definition perform_bulk ::
  "(uuid \<Rightarrow> string) \<Rightarrow> (yorishiro_error \<Rightarrow> string) \<Rightarrow> (bulk_job \<Rightarrow> json) \<Rightarrow> bulk_env \<Rightarrow> instant \<times> instant \<times> instant \<Rightarrow> bulk_job \<Rightarrow>
   bulk_state \<Rightarrow> (string + unit) \<times> bulk_state" where
  "perform_bulk hyphenated shown to_value ev clocks j s =
     (let work = (\<lambda>q. case run_bulk hyphenated j ev (s\<lparr>bs_queue := q\<rparr>) of
              Inl e \<Rightarrow> (Some (shown e), q) | Inr s' \<Rightarrow> (None, bs_queue s'));
          (r, q) = perform_with_terminal_lifecycle hyphenated (be_parse_uuid ev) (bs_store s) clocks (bs_queue s)
                     (bulk_lifecycle j) (bulk_job_args to_value j) work;
          after_work = (case admitted_lifecycles s (bulk_lifecycle j) (fst clocks) of
              None \<Rightarrow> s
            | Some t \<Rightarrow> (case run_bulk hyphenated j ev (s\<lparr>bs_queue := (bs_queue s)\<lparr>q_lifecycles := t\<rparr>\<rparr>) of
                  Inl _ \<Rightarrow> s | Inr s' \<Rightarrow> s'))
      in (r, after_work\<lparr>bs_queue := q\<rparr>))"

section \<open>A job takes effect once\<close>

text \<open>
  The contract of a worker that may be delivered again: once it is finished it does nothing, success
  means it is finished, and nothing that happens elsewhere undoes that.
\<close>

locale completes_once =
  fixes run :: "'e \<Rightarrow> 's \<Rightarrow> 's result" and finished_job :: "'s \<Rightarrow> bool" and step :: "'s \<Rightarrow> 's \<Rightarrow> bool"
  assumes skips: "finished_job s \<Longrightarrow> run ev s = Inr s"
    and finishes: "run ev s = Inr s' \<Longrightarrow> finished_job s'"
    and stable: "step s s' \<Longrightarrow> finished_job s \<Longrightarrow> finished_job s'"
begin

lemma stays_finished: "step\<^sup>*\<^sup>* s s' \<Longrightarrow> finished_job s \<Longrightarrow> finished_job s'"
  by (induction rule: rtranclp_induct) (auto intro: stable)

lemma redelivered: "run ev s = Inr s' \<Longrightarrow> step\<^sup>*\<^sup>* s' s'' \<Longrightarrow> run ev' s'' = Inr s''"
  by (rule skips) (rule stays_finished, assumption, rule finishes)

end

definition completion_key :: "audit_row \<Rightarrow> (uuid \<times> string \<times> string) option" where
  "completion_key r = map_option (\<lambda>i. (al_workspace_id r, al_action r, i)) (detail_job (al_detail r))"

definition bulk_key :: "(uuid \<Rightarrow> string) \<Rightarrow> bulk_job \<Rightarrow> (uuid \<times> string \<times> string) option" where
  "bulk_key hyphenated j =
     map_option (\<lambda>i. (bulk_workspace j, audit_as_db_str (bulk_action j), hyphenated i)) (bulk_lifecycle j)"

definition bulk_finished :: "(uuid \<Rightarrow> string) \<Rightarrow> bulk_job \<Rightarrow> bulk_state \<Rightarrow> bool" where
  "bulk_finished hyphenated j s \<longleftrightarrow> bulk_key hyphenated j \<noteq> None \<and> bulk_key hyphenated j \<in> completion_key ` set (bs_audit s)"

lemma completion_key_Some:
  "completion_key r = Some (w, a, i) \<longleftrightarrow> al_workspace_id r = w \<and> al_action r = a \<and> detail_job (al_detail r) = Some i"
  by (auto simp: completion_key_def)

lemma job_completed_iff:
  "job_completed hyphenated s w i action \<longleftrightarrow> Some (w, audit_as_db_str action, hyphenated i) \<in> completion_key ` set (bs_audit s)"
  unfolding job_completed_def job_result_def option.map_disc_iff find_row_None
  by (auto simp: image_iff completion_key_Some eq_commute [of "Some _" "completion_key _"])

lemma bulk_finished_iff:
  "bulk_lifecycle j = Some i \<Longrightarrow> bulk_finished hyphenated j s \<longleftrightarrow> job_completed hyphenated s (bulk_workspace j) i (bulk_action j)"
  by (simp add: bulk_finished_def bulk_key_def job_completed_iff)

lemma run_bulk_skips: "bulk_finished hyphenated j s \<Longrightarrow> run_bulk hyphenated j ev s = Inr s"
proof -
  assume f: "bulk_finished hyphenated j s"
  then obtain i where i: "bulk_lifecycle j = Some i" by (auto simp: bulk_finished_def bulk_key_def)
  then show ?thesis
    using f bulk_finished_iff [OF i, of hyphenated s]
    by (cases j) (simp_all add: fill_worker_def undo_worker_def import_worker_def confirm_worker_def)
qed

lemma record_audit_Inr:
  assumes "record_audit i now s actor action v = Inr s'"
  shows "\<exists>row. s' = s\<lparr>bs_audit := bs_audit s @ [row]\<rparr> \<and> al_workspace_id row = au_workspace_id actor \<and>
    al_action row = audit_as_db_str action \<and> al_detail row = v"
  using assms unfolding record_audit_def by (auto split: if_splits)

lemma dispatch_in_transaction_Inr:
  "dispatch_in_transaction hyphenated ev i s spec = Inr (i', s') \<Longrightarrow> \<exists>q. s' = s\<lparr>bs_queue := q\<rparr>"
  by (auto simp: dispatch_in_transaction_def split: prod.splits sum.splits)

lemma enqueue_embeddings_audit: "enqueue_embeddings hyphenated ev w es s = Inr s' \<Longrightarrow> bs_audit s' = bs_audit s"
proof (induction es arbitrary: s)
  case (Cons e es)
  then obtain s1 where "enqueue_after_write hyphenated ev s w e = Inr s1" "enqueue_embeddings hyphenated ev w es s1 = Inr s'"
    by (auto simp: rbind_Inr_iff)
  moreover from this have "bs_audit s1 = bs_audit s"
    by (auto simp: enqueue_after_write_def rbind_Inr_iff dest!: dispatch_in_transaction_Inr)
  ultimately show ?case using Cons.IH by simp
qed simp

lemma with_store_audit [simp]: "bs_audit (with_store d s) = bs_audit s"
  by (simp add: with_store_def)

lemma recorded_key:
  assumes "record_audit a now s actor action v = Inr s'" "detail_job v = Some i"
  shows "\<exists>row. bs_audit s' = bs_audit s @ [row] \<and> completion_key row = Some (au_workspace_id actor, audit_as_db_str action, i)"
  using record_audit_Inr [OF assms(1)] assms(2) by (auto simp: completion_key_def)

lemma job_actor_workspace [simp]: "au_workspace_id (job_actor args) = ba_workspace_id args"
  by (simp add: job_actor_def)

lemma fill_worker_records:
  assumes "fill_worker hyphenated ev args s = Inr s'" "\<not> bulk_finished hyphenated (FillJob args) s"
  shows "\<exists>row. bs_audit s' = bs_audit s @ [row] \<and> completion_key row = bulk_key hyphenated (FillJob args) \<and>
    bulk_key hyphenated (FillJob args) \<noteq> None"
proof -
  obtain i where i: "ba_lifecycle_id args = Some i"
    using assms(1) by (auto simp: fill_worker_def rbind_Inr_iff ok_or_Inr_iff)
  have "\<not> job_completed hyphenated s (ba_workspace_id args) i FillDefaults"
    using assms(2) bulk_finished_iff [of "FillJob args" i] i by simp
  then obtain report :: fill_defaults_report and d where r: "record_audit (be_audit_id ev) (be_now ev) (with_store d s)
      (job_actor args) FillDefaults
      (JObj [(''entities_updated'', JInt (int (fr_entities_updated report))), (''fields_filled'', JInt (int (fr_fields_filled report))),
        (''job_id'', JStr (hyphenated i)), (''schema_name'', JStr (fa_schema_name args))]) = Inr s'"
    using assms(1) i by (auto simp: fill_worker_def rbind_Inr_iff)
  show ?thesis using recorded_key [OF r, of "hyphenated i"] i by (simp add: detail_job_def bulk_key_def)
qed

lemma undo_worker_records:
  assumes "undo_worker hyphenated ev args s = Inr s'" "\<not> bulk_finished hyphenated (UndoJob args) s"
  shows "\<exists>row. bs_audit s' = bs_audit s @ [row] \<and> completion_key row = bulk_key hyphenated (UndoJob args) \<and>
    bulk_key hyphenated (UndoJob args) \<noteq> None"
proof -
  obtain i where i: "ba_lifecycle_id args = Some i"
    using assms(1) by (auto simp: undo_worker_def rbind_Inr_iff ok_or_Inr_iff)
  have "\<not> job_completed hyphenated s (ba_workspace_id args) i UndoMigrationJob"
    using assms(2) bulk_finished_iff [of "UndoJob args" i] i by simp
  then obtain m n d where r: "record_audit (be_audit_id ev) (be_now ev) (with_store d s)
      (job_actor args) UndoMigrationJob
      (JObj [(''job_id'', JStr (hyphenated i)), (''missing'', JInt (int m)), (''restored'', JInt (int n)),
        (''snapshot_job_id'', JStr (hyphenated (ua_snapshot_job_id args)))]) = Inr s'"
    using assms(1) i by (auto simp: undo_worker_def rbind_Inr_iff)
  show ?thesis using recorded_key [OF r, of "hyphenated i"] i by (simp add: detail_job_def bulk_key_def)
qed

lemma import_worker_records:
  assumes "import_worker hyphenated ev args s = Inr s'" "\<not> bulk_finished hyphenated (ImportJob args) s"
  shows "\<exists>row. bs_audit s' = bs_audit s @ [row] \<and> completion_key row = bulk_key hyphenated (ImportJob args) \<and>
    bulk_key hyphenated (ImportJob args) \<noteq> None"
proof -
  obtain i where i: "ba_lifecycle_id args = Some i"
    using assms(1) by (auto simp: import_worker_def rbind_Inr_iff ok_or_Inr_iff)
  have "\<not> job_completed hyphenated s (ba_workspace_id args) i BackgroundJobCompleted"
    using assms(2) bulk_finished_iff [of "ImportJob args" i] i by simp
  then obtain r :: import_result and d s1 where e: "enqueue_embeddings hyphenated ev (ba_workspace_id args) (ir_entity_ids r) (with_store d s) = Inr s1"
    and r: "record_audit (be_audit_id ev) (be_now ev) s1 (job_actor args) BackgroundJobCompleted
      (JObj [(''entities'', JInt (int (ir_entities r))), (''job_id'', JStr (hyphenated i)),
        (''relations'', JInt (int (ir_relations r))), (''schemas'', JInt (int (ir_schemas r)))]) = Inr s'"
    using assms(1) i by (auto simp: import_worker_def rbind_Inr_iff)
  show ?thesis
    using recorded_key [OF r, of "hyphenated i"] i enqueue_embeddings_audit [OF e] by (simp add: detail_job_def bulk_key_def)
qed

lemma confirm_worker_records:
  assumes "confirm_worker hyphenated ev args s = Inr s'" "\<not> bulk_finished hyphenated (ConfirmJob args) s"
  shows "\<exists>row. bs_audit s' = bs_audit s @ [row] \<and> completion_key row = bulk_key hyphenated (ConfirmJob args) \<and>
    bulk_key hyphenated (ConfirmJob args) \<noteq> None"
proof -
  obtain i where i: "ba_lifecycle_id args = Some i"
    using assms(1) by (auto simp: confirm_worker_def rbind_Inr_iff ok_or_Inr_iff)
  have "\<not> job_completed hyphenated s (ba_workspace_id args) i BackgroundJobCompleted"
    using assms(2) bulk_finished_iff [of "ConfirmJob args" i] i by simp
  then obtain report :: confirm_report and d where r: "record_audit (be_audit_id ev) (be_now ev) (with_store d s)
      (job_actor args) BackgroundJobCompleted
      (JObj [(''confirmed'', JInt (cr_confirmed report)), (''inference_job_id'', JStr (hyphenated (ca_inference_job_id args))),
        (''invalid'', JInt (cr_invalid report)), (''job_id'', JStr (hyphenated i)), (''stale'', JInt (cr_stale report))]) = Inr s'"
    using assms(1) i by (auto simp: confirm_worker_def rbind_Inr_iff)
  show ?thesis using recorded_key [OF r, of "hyphenated i"] i by (simp add: detail_job_def bulk_key_def)
qed

lemma run_bulk_records:
  assumes "run_bulk hyphenated j ev s = Inr s'" "\<not> bulk_finished hyphenated j s"
  shows "\<exists>row. bs_audit s' = bs_audit s @ [row] \<and> completion_key row = bulk_key hyphenated j \<and> bulk_key hyphenated j \<noteq> None"
  using assms by (cases j) (auto dest: fill_worker_records undo_worker_records import_worker_records confirm_worker_records)

text \<open>
  Everything that may happen between two deliveries: runs of workers, requested reindexes, and whatever
  the rest of the program does, which appends nothing to the log and cannot take anything from it.
\<close>

inductive bulk_step :: "(uuid \<Rightarrow> string) \<Rightarrow> bulk_state \<Rightarrow> bulk_state \<Rightarrow> bool" for hyphenated where
  bulk: "run_bulk hyphenated j ev s = Inr s' \<Longrightarrow> bulk_step hyphenated s s'"
| requested: "enqueue_requested hyphenated ev has_queue payload i s actor = Inr (i', s') \<Longrightarrow> bulk_step hyphenated s s'"
| elsewhere: "bs_audit s' = bs_audit s \<Longrightarrow> bulk_step hyphenated s s'"

lemma enqueue_requested_audit:
  assumes "enqueue_requested hyphenated ev has_queue payload i s actor = Inr (i', s')"
  shows "\<exists>row. bs_audit s' = bs_audit s @ [row] \<and> completion_key row = None"
proof -
  obtain s1 c where r: "record_audit (be_audit_id ev) (be_now ev) s actor ReindexEmbeddings
      (JObj [(''workspace_id'', JStr (hyphenated (au_workspace_id actor)))]) = Inr s1"
    and d: "dispatch_in_transaction hyphenated ev i s1 (reindex_spec payload (au_workspace_id actor) c False) = Inr (i', s')"
    using assms by (auto simp: enqueue_requested_def enqueue_reindex_def rbind_Inr_iff split: if_splits)
  show ?thesis
    using record_audit_Inr [OF r] dispatch_in_transaction_Inr [OF d] by (auto simp: completion_key_def detail_job_def)
qed

text \<open>No job has two completion records.\<close>

definition audit_once :: "bulk_state \<Rightarrow> bool" where
  "audit_once s \<longleftrightarrow> distinct (filter (\<lambda>k. k \<noteq> None) (map completion_key (bs_audit s)))"

lemma bulk_step_cases_audit:
  assumes "bulk_step hyphenated s s'"
  shows "bs_audit s' = bs_audit s \<or> (\<exists>row. bs_audit s' = bs_audit s @ [row] \<and>
    (completion_key row = None \<or> completion_key row \<notin> completion_key ` set (bs_audit s)))"
  using assms
proof cases
  case (bulk j ev)
  show ?thesis
  proof (cases "bulk_finished hyphenated j s")
    case True
    then show ?thesis using bulk run_bulk_skips [OF True, of ev] by simp
  next
    case False
    then show ?thesis using run_bulk_records [OF bulk False] by (auto simp: bulk_finished_def)
  qed
next
  case (requested ev has_queue payload i actor i')
  then show ?thesis using enqueue_requested_audit by blast
qed simp

lemma bulk_step_once: "bulk_step hyphenated s s' \<Longrightarrow> audit_once s \<Longrightarrow> audit_once s'"
  by (drule bulk_step_cases_audit) (auto simp: audit_once_def)

lemma bulk_step_stable: "bulk_step hyphenated s s' \<Longrightarrow> bulk_finished hyphenated j s \<Longrightarrow> bulk_finished hyphenated j s'"
  by (drule bulk_step_cases_audit) (auto simp: bulk_finished_def)

lemma run_bulk_finishes: "run_bulk hyphenated j ev s = Inr s' \<Longrightarrow> bulk_finished hyphenated j s'"
proof -
  assume run: "run_bulk hyphenated j ev s = Inr s'"
  show ?thesis
  proof (cases "bulk_finished hyphenated j s")
    case True
    then show ?thesis using run run_bulk_skips [OF True, of ev] by simp
  next
    case False
    then show ?thesis using run_bulk_records [OF run False] by (auto simp: bulk_finished_def)
  qed
qed

interpretation bulk: completes_once "run_bulk hyphenated j" "bulk_finished hyphenated j" "bulk_step hyphenated" for hyphenated j
  by unfold_locales (fact run_bulk_skips, fact run_bulk_finishes, fact bulk_step_stable)

lemma one_record:
  assumes "distinct (filter (\<lambda>k. k \<noteq> None) (map f xs))" "k \<noteq> None" "k \<in> f ` set xs"
  shows "length (filter (\<lambda>x. f x = k) xs) = 1"
  using assms
proof (induction xs)
  case (Cons x xs)
  then show ?case by (cases "f x = k") (auto simp: filter_empty_conv image_iff eq_commute [of "Some _" "f _"] split: if_splits)
qed simp

lemma bulk_history_once: "(bulk_step hyphenated)\<^sup>*\<^sup>* s s' \<Longrightarrow> audit_once s \<Longrightarrow> audit_once s'"
  by (induction rule: rtranclp_induct) (auto intro: bulk_step_once)


section \<open>A delivery after a crash\<close>

lemma finished_row:
  assumes "lifecycle_constraints t" "job t i = Some r" "lc_attempt r = a" "lc_status r = Running"
  shows "\<exists>t'. finish_job now t i (Some a) Completed None = Inr t' \<and> job t' i = Some (finished now Completed None r)"
proof -
  have "\<exists>t'. update_lifecycles (\<lambda>r. lc_id r = i \<and> (lc_attempt r = a \<and> lc_status r = Running))
        (finished now Completed None) t = Inr (1, t') \<and> lifecycle_constraints t' \<and> job t' i = Some (finished now Completed None r)"
    by (rule job_update [OF assms(1,2)])
      (use assms(3,4) in \<open>auto simp: finished_def waiting_or_running_def\<close>)
  then show ?thesis by (auto simp: finish_job_def)
qed

text \<open>
  A worker that is lost after it committed its work and before it closed its job does no harm: when
  the job is delivered again and admitted, the delivery succeeds, leaves all data as it is, and completes
  the lifecycle.
\<close>

theorem committed_job_completes:
  assumes "run_bulk hyphenated j ev0 s0 = Inr s1" and "(bulk_step hyphenated)\<^sup>*\<^sup>* s1 s"
    and "bulk_lifecycle j = Some i" and "lifecycle_constraints (q_lifecycles (bs_queue s))"
    and "start_at (q_lifecycles (bs_queue s)) i start_now = Inr (adm, t)" and "adm = Started a \<or> adm = Recovered a"
  shows "\<exists>t'. perform_bulk hyphenated shown to_value ev (start_now, defer_now, finish_now) j s =
      (Inr (), s\<lparr>bs_queue := (bs_queue s)\<lparr>q_lifecycles := t'\<rparr>\<rparr>) \<and>
    map_option lc_status (job t' i) = Some Completed"
proof -
  let ?s = "s\<lparr>bs_queue := (bs_queue s)\<lparr>q_lifecycles := t\<rparr>\<rparr>"
  obtain r where r: "job t i = Some r" "lc_attempt r = a" "lc_status r = Running" "lifecycle_constraints t"
    using started_row [OF assms(4,5,6)] by metis
  obtain t' where t': "finish_job finish_now t i (Some a) Completed None = Inr t'" "job t' i = Some (finished finish_now Completed None r)"
    using finished_row [OF r(4,1,2,3)] by blast
  have "(bulk_step hyphenated)\<^sup>*\<^sup>* s1 ?s"
    by (rule rtranclp.rtrancl_into_rtrancl [OF assms(2)]) (rule bulk_step.elsewhere, simp)
  then have run: "run_bulk hyphenated j ev ?s = Inr ?s" by (rule bulk.redelivered [OF assms(1)])
  have "perform_bulk hyphenated shown to_value ev (start_now, defer_now, finish_now) j s =
      (Inr (), s\<lparr>bs_queue := (bs_queue s)\<lparr>q_lifecycles := t'\<rparr>\<rparr>)"
    using assms(3,5,6) run t'(1)
    by (auto simp: perform_bulk_def perform_with_terminal_lifecycle_def admitted_lifecycles_def Let_def)
  then show ?thesis using t'(2) by (auto simp: finished_def)
qed

section \<open>Where jobs go, and what is reported of them\<close>

lemma worker_class_roundtrip: "worker_class_from_db_str (worker_class_as_db_str c) = Some c"
  by (cases c) (simp_all add: worker_class_from_db_str_def)

lemma find_updated:
  assumes "\<And>r. p (f r) = p r"
  shows "find_row p t = Some r \<Longrightarrow> find_row p (update_where p f t) = Some (f r)"
  unfolding find_row_def update_where_def by (induction t) (simp_all add: assms split: if_splits)

lemma find_appended: "find_row p t = None \<Longrightarrow> find_row p (t @ [r]) = (if p r then Some r else None)"
  by (induction t) (auto simp: find_row_def)

text \<open>An assignment routes the jobs of its workspace until it is cleared; it names a configured target.\<close>

lemma assigned_class_resolved:
  assumes "set_worker_class hyphenated targets now s w c = Inr s'"
  shows "resolve_worker_class True s' w = Inr c" and "resolve_worker_class True (clear_worker_class s' w) w = Inr Shared"
    and "\<exists>target. for_job (bs_store s') c w = Inr target \<and> target_tag hyphenated target \<in> set targets"
proof -
  let ?p = "\<lambda>r. wc_workspace_id r = w"
  have "\<exists>r. find_row ?p (bs_worker_classes s') = Some r \<and> wc_worker_class r = worker_class_as_db_str c"
  proof (cases "find_row ?p (bs_worker_classes s)")
    case None
    then have "\<not> (\<exists>r \<in> set (bs_worker_classes s). ?p r)" by (simp add: find_row_None)
    then show ?thesis using assms find_appended [OF None] by (auto simp: set_worker_class_def rbind_Inr_iff split: if_splits)
  next
    case (Some r)
    then have "\<exists>r \<in> set (bs_worker_classes s). ?p r" using find_row_Some [OF Some] by blast
    then show ?thesis
      using assms find_updated [OF _ Some, of "\<lambda>r. r\<lparr>wc_worker_class := worker_class_as_db_str c, wc_updated_at := now\<rparr>"]
      by (auto simp: set_worker_class_def rbind_Inr_iff split: if_splits)
  qed
  then show "resolve_worker_class True s' w = Inr c"
    by (auto simp: resolve_worker_class_def get_worker_class_def worker_class_roundtrip)
  show "resolve_worker_class True (clear_worker_class s' w) w = Inr Shared"
  proof -
    have "find_row ?p (delete_where ?p (bs_worker_classes s')) = None" by (simp add: find_row_None set_delete_where)
    then show ?thesis by (simp add: resolve_worker_class_def get_worker_class_def clear_worker_class_def)
  qed
  show "\<exists>target. for_job (bs_store s') c w = Inr target \<and> target_tag hyphenated target \<in> set targets"
    using assms by (auto simp: set_worker_class_def rbind_Inr_iff split: if_splits)
qed

text \<open>The status of a finished migration job carries the result its worker recorded.\<close>

lemma finished_status_has_result:
  assumes "bulk_finished hyphenated j s" "bulk_lifecycle j = Some i"
    and "bulk_job_status hyphenated s (bulk_workspace j) i [bulk_job_name j] = Inr st"
  shows "bj_job_name st = bulk_job_name j \<and> (\<exists>v. bj_result st = Some v \<and> detail_job v = Some (hyphenated i))"
proof -
  have name: "bj_job_name st = bulk_job_name j" "bj_result st = job_result hyphenated s (bulk_workspace j) i (bulk_action j)"
    using assms(3) by (cases j; auto simp: bulk_job_status_def rbind_Inr_iff ok_or_Inr_iff dest!: find_row_Some)+
  have "job_completed hyphenated s (bulk_workspace j) i (bulk_action j)" using assms(1,2) bulk_finished_iff by blast
  then obtain v where v: "job_result hyphenated s (bulk_workspace j) i (bulk_action j) = Some v"
    unfolding job_completed_def by blast
  then have "detail_job v = Some (hyphenated i)" by (auto simp: job_result_def dest!: find_row_Some)
  then show ?thesis using name v by simp
qed

section \<open>Examples\<close>

text \<open>A job that imports the citation of a small library, run by its owner.\<close>

definition citing_args :: import_args where
  "citing_args = \<lparr>ba_lifecycle_id = Some 11, ba_tenant_id = 9, ba_workspace_id = 3, ba_api_key_id = 60, ba_user_id = Some 20,
     ba_worker_class = Shared, pa_jsonl = ''r''\<rparr>"

definition citing_env :: bulk_env where
  "citing_env = \<lparr>be_backend = Postgres, be_enterprise = False, be_deployment = pro_licence,
     be_policy = \<lambda>_ _. Inr community_concurrency, be_parse_uuid = untally, be_pattern_ok = \<lambda>_. True,
     be_errors_of = accept_all, be_from_str = of_letter, be_snapshot_ids = \<lambda>i. i + 100, be_tokens = \<lambda>_. ''t'',
     be_line_ids = \<lambda>n. 59 + of_nat n, be_line_tokens = \<lambda>_. ''t'', be_sync_ids = \<lambda>i. i + 200,
     be_sync_payload = \<lambda>_ _ _. JObj [], be_audit_id = 90, be_now = 8\<rparr>"

definition citing_state :: bulk_state where
  "citing_state = \<lparr>bs_billing = \<lparr>bg_identity = acme\<lparr>id_store := two_books\<rparr>, bg_billing = [], bg_events = [], bg_ledger = []\<rparr>,
     bs_queue = \<lparr>q_lifecycles = [queued_row 0 (limited_job 11)], q_outbox = []\<rparr>, bs_jobs = [], bs_audit = [],
     bs_worker_classes = []\<rparr>"

lemma citing_actor: "require_job_actor now (acme\<lparr>id_store := two_books\<rparr>) (job_actor citing_args) ScopeSchema = Inr ()"
  by (simp add: require_job_actor_def job_actor_def citing_args_def
      two_books_def one_schema_def current_context_def find_key_def acme_defs find_row_def
      key_is_active_def with_current_membership_def context_of_def require_active_def get_membership_role_def
      workspace_access_def workspace_access_for_role_def get_workspace_tenant_def administers_tenant_def
      require_scope_def satisfies_def scope_order min_def)

lemma citing_import: "import_env_of citing_env citing_args None = library_import\<lparr>ie_imported_by := Some 20\<rparr>"
  by (simp add: import_env_of_def citing_env_def citing_args_def library_import_def)

lemma citing_runs:
  "\<exists>s'. run_bulk tally (ImportJob citing_args) citing_env citing_state = Inr s' \<and> db_relations (bs_store s') = [citation] \<and>
     bs_queue s' = bs_queue citing_state"
proof -
  have state: "bs_identity citing_state = acme\<lparr>id_store := two_books\<rparr>" "bs_audit citing_state = []" by (simp_all add: citing_state_def)
  have env: "be_from_str citing_env = of_letter" "be_now citing_env = 8" "be_enterprise citing_env = False" "be_audit_id citing_env = 90"
    by (simp_all add: citing_env_def)
  have args: "ba_lifecycle_id citing_args = Some 11" "pa_jsonl citing_args = ''r''" by (simp_all add: citing_args_def)
  have rec: "\<exists>s'. record_audit 90 8 (with_store (two_books\<lparr>db_relations := [citation]\<rparr>) citing_state) (job_actor citing_args)
      BackgroundJobCompleted v = Inr s' \<and> db_relations (bs_store s') = [citation] \<and> bs_queue s' = bs_queue citing_state" for v
    by (simp add: record_audit_def with_store_def citing_state_def job_actor_def citing_args_def two_books_def one_schema_def acme_defs)
  show ?thesis
    by (simp add: import_worker_def args state job_completed_def job_result_def find_row_def citing_actor env
        edition_quotas_def citing_import library_cites rec)
qed

lemma citing_once: "audit_once citing_state"
  by (simp add: audit_once_def citing_state_def)


theorem committed_job_completes_witness:
  "\<exists>s' s''. run_bulk tally (ImportJob citing_args) citing_env citing_state = Inr s' \<and>
     perform_bulk tally (\<lambda>_. ''error'') (\<lambda>_. JObj []) citing_env (5, 5, 6) (ImportJob citing_args) s' = (Inr (), s'') \<and>
     bs_store s'' = bs_store s' \<and> map_option lc_status (job (q_lifecycles (bs_queue s'')) 11) = Some Completed"
proof -
  obtain s' where run: "run_bulk tally (ImportJob citing_args) citing_env citing_state = Inr s'"
    and q: "bs_queue s' = bs_queue citing_state"
    using citing_runs by blast
  have i: "bulk_lifecycle (ImportJob citing_args) = Some 11" by (simp add: citing_args_def)
  have t: "q_lifecycles (bs_queue s') = [queued_row 0 (limited_job 11)]" by (simp add: q citing_state_def)
  have c: "lifecycle_constraints (q_lifecycles (bs_queue s'))" unfolding t by (simp add: queue_eval)
  have st: "start_at (q_lifecycles (bs_queue s')) 11 5 = Inr (Started 1, [claimed 5 (queued_row 0 (limited_job 11))])"
    unfolding t by (simp add: queue_eval)
  obtain t' where "perform_bulk tally (\<lambda>_. ''error'') (\<lambda>_. JObj []) citing_env (5, 5, 6) (ImportJob citing_args) s' =
      (Inr (), s'\<lparr>bs_queue := (bs_queue s')\<lparr>q_lifecycles := t'\<rparr>\<rparr>)" "map_option lc_status (job t' 11) = Some Completed"
    using committed_job_completes [OF run rtranclp.rtrancl_refl i c st, of 1] by blast
  then show ?thesis using run by fastforce
qed

end
