(* ===== verification/Reindex_Schedules.thy ===== *)
theory Reindex_Schedules
  imports Background_Jobs
begin

text \<open>
  \<open>ee/models/tenant_reindex_schedules.rs\<close>: how often the workspaces of a tenant are reindexed, the parser
  of the interval, and the tick that enqueues what is due.

  A duration is its number of seconds.  The bounds of chrono's durations and instants and the names of time zones are
  parameters; what is relied on is \<open>calendar_ok\<close>.  The lock that lets one process tick is an
  argument: what the attempt to take it and its release answer.  The lemmas show that the parser
  reads a printed interval, that every stored interval parses, that a tick takes effect completely or not
  at all, and that what it has enqueued is not due again.
\<close>

section \<open>Intervals\<close>

definition MIN_INTERVAL_SECONDS :: int where "MIN_INTERVAL_SECONDS = 5 * 60"

definition checked_i64 :: "int \<Rightarrow> int option" where
  "checked_i64 n = (if - 9223372036854775808 \<le> n \<and> n \<le> 9223372036854775807 then Some n else None)"

definition is_ascii_digit :: "char \<Rightarrow> bool" where
  "is_ascii_digit c \<longleftrightarrow> c \<in> set ''0123456789''"

definition digits_value :: "string \<Rightarrow> int" where
  "digits_value s = foldl (\<lambda>n c. 10 * n + (of_char c - 48)) 0 s"

text \<open>\<open>parse::<i64>\<close> of a string of digits.\<close>

definition parse_i64 :: "string \<Rightarrow> int option" where
  "parse_i64 s = (if s = [] then None else checked_i64 (digits_value s))"

definition DATE_UNITS :: "(char \<times> int) list" where
  "DATE_UNITS = [(CHR ''W'', 604800), (CHR ''D'', 86400)]"

definition TIME_UNITS :: "(char \<times> int) list" where
  "TIME_UNITS = [(CHR ''H'', 3600), (CHR ''M'', 60), (CHR ''S'', 1)]"

fun seconds_loop :: "(char \<times> int) list \<Rightarrow> string \<Rightarrow> string \<Rightarrow> char list \<Rightarrow> int \<Rightarrow> nat \<Rightarrow> (int \<times> nat) option" where
  "seconds_loop units [] number seen tot components = (if number = [] then Some (tot, components) else None)"
| "seconds_loop units (ch # rest) number seen tot components =
     (if is_ascii_digit ch then seconds_loop units rest (number @ [ch]) seen tot components
      else case map_of units ch of
        None \<Rightarrow> None
      | Some factor \<Rightarrow>
          if ch \<in> set seen then None
          else case Option.bind (Option.bind (parse_i64 number) (\<lambda>n. checked_i64 (n * factor))) (\<lambda>m. checked_i64 (tot + m)) of
            None \<Rightarrow> None
          | Some tot' \<Rightarrow> seconds_loop units rest [] (seen @ [ch]) tot' (components + 1))"

definition seconds_in :: "string \<Rightarrow> (char \<times> int) list \<Rightarrow> (int \<times> nat) option" where
  "seconds_in part units = seconds_loop units part [] [] 0 0"

text \<open>\<open>split_once('T').unwrap_or((rest, ""))\<close>.\<close>

definition split_time :: "string \<Rightarrow> string \<times> string" where
  "split_time rest =
     (let date = takeWhile (\<lambda>c. c \<noteq> CHR ''T'') rest in (date, drop (length date + 1) rest))"

record calendar =
  cal_try_seconds :: "int \<Rightarrow> int option"
  cal_add_signed :: "instant \<Rightarrow> int \<Rightarrow> instant option"
  cal_timezone :: "string \<Rightarrow> bool"

definition parse_interval :: "calendar \<Rightarrow> string \<Rightarrow> int option" where
  "parse_interval cal v =
     Option.bind (strip_prefix ''P'' (trim v)) (\<lambda>rest.
     let (date, time) = split_time rest in
     Option.bind (seconds_in date DATE_UNITS) (\<lambda>(date_seconds, date_components).
     Option.bind (seconds_in time TIME_UNITS) (\<lambda>(time_seconds, time_components).
     Option.bind (checked_i64 (date_seconds + time_seconds)) (\<lambda>seconds.
     if date_components + time_components > 0 \<and> seconds > 0 then cal_try_seconds cal seconds else None))))"

section \<open>Schedules\<close>

record schedule_row =
  sd_tenant_id :: uuid
  sd_interval :: string
  sd_timezone :: "string option"
  sd_scheduled_for :: "instant option"
  sd_created_at :: instant
  sd_updated_at :: instant

record schedule_state =
  ss_bulk :: bulk_state
  ss_schedules :: "schedule_row list"

definition set_schedule ::
  "calendar \<Rightarrow> instant \<Rightarrow> schedule_state \<Rightarrow> uuid \<Rightarrow> string \<Rightarrow> string option \<Rightarrow> schedule_state result" where
  "set_schedule cal now s tenant_id interval timezone =
     (if trim interval = [] then Inl (ValidationFailed ''interval must not be empty'' [])
      else if \<exists>tz. timezone = Some tz \<and> \<not> cal_timezone cal (trim tz)
      then Inl (ValidationFailed ''timezone {} is not a recognized IANA time zone'' [])
      else rbind (ok_or (parse_interval cal interval)
             (ValidationFailed ''interval {} is not a supported ISO 8601 duration'' [])) (\<lambda>every.
           if every < MIN_INTERVAL_SECONDS then Inl (ValidationFailed ''interval {} is shorter than 5 minutes'' [])
           else rbind (ok_or (cal_add_signed cal now every) (ValidationFailed ''interval {} is too long'' [])) (\<lambda>expected.
             let tz = map_option trim timezone in
             if \<exists>r \<in> set (ss_schedules s). sd_tenant_id r = tenant_id
             then Inr (s\<lparr>ss_schedules := update_where (\<lambda>r. sd_tenant_id r = tenant_id)
                    (\<lambda>r. r\<lparr>sd_interval := interval, sd_timezone := tz, sd_scheduled_for := Some expected, sd_updated_at := now\<rparr>)
                    (ss_schedules s)\<rparr>)
             else if tenant_id \<notin> tn_id ` set (id_tenants (bs_identity (ss_bulk s))) then Inl (Internal ''constraint'')
             else Inr (s\<lparr>ss_schedules := ss_schedules s @
                    [\<lparr>sd_tenant_id = tenant_id, sd_interval = interval, sd_timezone = tz, sd_scheduled_for = Some expected,
                      sd_created_at = now, sd_updated_at = now\<rparr>]\<rparr>))))"

definition get_schedule :: "schedule_state \<Rightarrow> uuid \<Rightarrow> schedule_row option" where
  "get_schedule s tenant_id = find_row (\<lambda>r. sd_tenant_id r = tenant_id) (ss_schedules s)"

definition clear_schedule :: "schedule_state \<Rightarrow> uuid \<Rightarrow> schedule_state" where
  "clear_schedule s tenant_id = s\<lparr>ss_schedules := delete_where (\<lambda>r. sd_tenant_id r = tenant_id) (ss_schedules s)\<rparr>"

section \<open>The tick\<close>

definition is_due_at :: "instant \<Rightarrow> instant \<Rightarrow> bool" where
  "is_due_at scheduled_for tick_time \<longleftrightarrow> scheduled_for \<le> tick_time"

definition tenant_active :: "bulk_state \<Rightarrow> uuid \<Rightarrow> bool" where
  "tenant_active b t \<longleftrightarrow> (\<exists>r \<in> set (id_tenants (bs_identity b)). tn_id r = t \<and> tn_disabled_at r = None)"

definition next_run :: "calendar \<Rightarrow> instant \<Rightarrow> string \<Rightarrow> instant option" where
  "next_run cal tick_time interval =
     Option.bind (parse_interval cal interval) (\<lambda>every.
       if every \<ge> MIN_INTERVAL_SECONDS then cal_add_signed cal tick_time every else None)"

primrec workspace_dispatches :: "bool \<Rightarrow> bulk_state \<Rightarrow> uuid list \<Rightarrow> string + (uuid \<times> worker_class) list" where
  "workspace_dispatches enterprise b [] = Inr []"
| "workspace_dispatches enterprise b (w # ws) =
     (case resolve_worker_class enterprise b w of
        Inl e \<Rightarrow> Inl ''reindex scheduler: workspace {} target resolution failed: {}; ownership release: {}''
      | Inr c \<Rightarrow> rbind (workspace_dispatches enterprise b ws) (\<lambda>ds. Inr ((w, c) # ds)))"

definition schedule_due :: "bulk_state \<Rightarrow> instant \<Rightarrow> schedule_row \<Rightarrow> bool" where
  "schedule_due b tick_time r \<longleftrightarrow>
     (\<exists>due. sd_scheduled_for r = Some due \<and> is_due_at due tick_time) \<and> tenant_active b (sd_tenant_id r)"

primrec tick_schedules ::
  "calendar \<Rightarrow> bool \<Rightarrow> instant \<Rightarrow> bulk_state \<Rightarrow> schedule_row list \<Rightarrow> schedule_row list \<times> (uuid \<times> worker_class) list \<Rightarrow>
   string + schedule_row list \<times> (uuid \<times> worker_class) list" where
  "tick_schedules cal enterprise tick_time b [] acc = Inr acc"
| "tick_schedules cal enterprise tick_time b (r # rs) acc =
     (if \<not> schedule_due b tick_time r then tick_schedules cal enterprise tick_time b rs acc
      else case next_run cal tick_time (sd_interval r) of
        None \<Rightarrow> Inl ''invalid stored reindex interval for tenant {}: {}; ownership release: {}''
      | Some next \<Rightarrow>
          rbind (workspace_dispatches enterprise b
                   (map wk_id (select_where (\<lambda>w. wk_tenant_id w = sd_tenant_id r) (db_workspaces (bs_store b))))) (\<lambda>ds.
          tick_schedules cal enterprise tick_time b rs
            (update_where (\<lambda>x. sd_tenant_id x = sd_tenant_id r)
               (\<lambda>x. x\<lparr>sd_scheduled_for := Some next, sd_updated_at := tick_time\<rparr>) (fst acc), snd acc @ ds)))"

text \<open>The batch goes on after a failure; its transaction is dropped when there was one.\<close>

primrec dispatch_reindex_batch ::
  "(uuid \<Rightarrow> string) \<Rightarrow> bulk_env \<Rightarrow> (uuid \<Rightarrow> uuid) \<Rightarrow> (uuid \<Rightarrow> worker_class \<Rightarrow> json) \<Rightarrow> (uuid \<times> worker_class) list \<Rightarrow> bulk_state \<Rightarrow>
   string list \<times> bulk_state" where
  "dispatch_reindex_batch hyphenated ev ids payload [] b = ([], b)"
| "dispatch_reindex_batch hyphenated ev ids payload (d # ds) b =
     (let (w, c) = d;
          (r, q) = dispatch_job hyphenated (be_parse_uuid ev) (be_policy ev w c) (ids w) (be_now ev) (bs_store b) (bs_queue b)
                     (reindex_spec (payload w c) w c False);
          (errs, b') = dispatch_reindex_batch hyphenated ev ids payload ds (b\<lparr>bs_queue := q\<rparr>)
      in (case r of Inl e \<Rightarrow> ''workspace {}: {}'' # errs | Inr _ \<Rightarrow> errs, b'))"

definition scheduler_failure_message :: "string list \<Rightarrow> string option \<Rightarrow> string option" where
  "scheduler_failure_message dispatch_errors release_error =
     (if dispatch_errors = []
      then map_option (\<lambda>_. ''reindex scheduler ownership release failed: {}'') release_error
      else Some (''reindex scheduler dispatch failed for {} workspace(s); schedule advancement rolled back: {}'' @
             (if release_error = None then [] else ''; scheduler ownership release also failed: {}'')))"

text \<open>\<open>ownership\<close> is the answer to the attempt to own the scheduler, \<open>release_error\<close> that of its release.\<close>

definition tick ::
  "calendar \<Rightarrow> (uuid \<Rightarrow> string) \<Rightarrow> bulk_env \<Rightarrow> (uuid \<Rightarrow> uuid) \<Rightarrow> (uuid \<Rightarrow> worker_class \<Rightarrow> json) \<Rightarrow> string + bool \<Rightarrow> string option \<Rightarrow>
   instant \<Rightarrow> schedule_state \<Rightarrow> (string + unit) \<times> schedule_state" where
  "tick cal hyphenated ev ids payload ownership release_error tick_time s =
     (case ownership of
        Inl e \<Rightarrow> (Inl ''scheduler ownership acquisition: {}'', s)
      | Inr False \<Rightarrow> (Inr (), s)
      | Inr True \<Rightarrow>
          (case tick_schedules cal (be_enterprise ev) tick_time (ss_bulk s) (sort_key sd_tenant_id (ss_schedules s))
                  (ss_schedules s, []) of
             Inl e \<Rightarrow> (Inl e, s)
           | Inr (schedules, dispatches) \<Rightarrow>
               (let (errs, b) = dispatch_reindex_batch hyphenated ev ids payload dispatches (ss_bulk s)
                in case scheduler_failure_message errs release_error of
                     Some m \<Rightarrow> (Inl m, if errs = [] then s\<lparr>ss_bulk := b, ss_schedules := schedules\<rparr> else s)
                   | None \<Rightarrow> (Inr (), s\<lparr>ss_bulk := b, ss_schedules := schedules\<rparr>))))"

section \<open>A printed interval is read back\<close>

fun decimal :: "nat \<Rightarrow> string" where
  "decimal n = (if n < 10 then [''0123456789'' ! n] else decimal (n div 10) @ [''0123456789'' ! (n mod 10)])"

declare decimal.simps [simp del]

definition print_interval :: "nat \<Rightarrow> nat \<Rightarrow> nat \<Rightarrow> nat \<Rightarrow> nat \<Rightarrow> string" where
  "print_interval w d h m s =
     ''P'' @ (decimal w @ ''W'' @ decimal d @ ''D'') @ ''T'' @ decimal h @ ''H'' @ decimal m @ ''M'' @ decimal s @ ''S''"

lemma digit_char:
  assumes "k < 10"
  shows "is_ascii_digit (''0123456789'' ! k)" and "of_char (''0123456789'' ! k) = 48 + int k"
proof -
  show "is_ascii_digit (''0123456789'' ! k)"
    unfolding is_ascii_digit_def by (rule nth_mem) (use assms in simp)
  have "k = 0 \<or> k = 1 \<or> k = 2 \<or> k = 3 \<or> k = 4 \<or> k = 5 \<or> k = 6 \<or> k = 7 \<or> k = 8 \<or> k = 9" using assms by presburger
  then show "of_char (''0123456789'' ! k) = 48 + int k" by (elim disjE) simp_all
qed

lemma decimal_digits: "c \<in> set (decimal n) \<Longrightarrow> is_ascii_digit c"
proof (induction n rule: decimal.induct)
  case (1 n)
  then show ?case by (subst (asm) (2) decimal.simps) (auto simp: digit_char(1) split: if_splits)
qed

lemma digits_value_snoc: "digits_value (s @ [c]) = 10 * digits_value s + (of_char c - 48)"
  by (simp add: digits_value_def)

lemma decimal_value: "digits_value (decimal n) = int n \<and> decimal n \<noteq> []"
proof (induction n rule: decimal.induct)
  case (1 n)
  show ?case
  proof (cases "n < 10")
    case True
    then show ?thesis by (subst (1 2) decimal.simps) (simp add: digits_value_def digit_char(2))
  next
    case False
    then have "digits_value (decimal (n div 10)) = int (n div 10)" using 1 by blast
    then have "digits_value (decimal n) = 10 * int (n div 10) + int (n mod 10)"
      using False by (subst decimal.simps) (simp add: digits_value_snoc digit_char(2) del: of_nat_div of_nat_mod)
    also have "\<dots> = int (10 * (n div 10) + n mod 10)" by (simp only: of_nat_add of_nat_mult of_nat_numeral)
    also have "\<dots> = int n" by (simp only: mult_div_mod_eq)
    finally show ?thesis using False by (subst (2) decimal.simps) simp
  qed
qed

lemma parse_decimal: "int n \<le> 9223372036854775807 \<Longrightarrow> parse_i64 (decimal n) = Some (int n)"
  by (simp add: parse_i64_def checked_i64_def decimal_value)

lemma loop_digits:
  "\<forall>c \<in> set ds. is_ascii_digit c \<Longrightarrow>
     seconds_loop units (ds @ rest) number seen tot k = seconds_loop units rest (number @ ds) seen tot k"
  by (induction ds arbitrary: number) simp_all

lemma loop_unit:
  assumes "map_of units u = Some f" "u \<notin> set seen" "\<not> is_ascii_digit u" "1 \<le> f" "0 \<le> tot"
    and "tot + int n * f \<le> 9223372036854775807"
  shows "seconds_loop units (decimal n @ u # rest) [] seen tot k = seconds_loop units rest [] (seen @ [u]) (tot + int n * f) (k + 1)"
proof -
  have "int n * 1 \<le> int n * f" by (rule mult_left_mono) (use assms(4) in simp_all)
  then have n: "int n \<le> 9223372036854775807" "int n * f \<le> 9223372036854775807" "0 \<le> int n * f" using assms(5,6) by linarith+
  have "checked_i64 (int n * f) = Some (int n * f)" "checked_i64 (tot + int n * f) = Some (tot + int n * f)"
    using n assms(5,6) by (simp_all add: checked_i64_def)
  then show ?thesis
    using assms(1-3) n by (simp add: loop_digits decimal_digits parse_decimal)
qed

lemma not_digits: "\<not> is_ascii_digit (CHR ''W'')" "\<not> is_ascii_digit (CHR ''D'')" "\<not> is_ascii_digit (CHR ''T'')"
  "\<not> is_ascii_digit (CHR ''H'')" "\<not> is_ascii_digit (CHR ''M'')" "\<not> is_ascii_digit (CHR ''S'')"
  by (simp_all add: is_ascii_digit_def)

lemma date_read:
  assumes "int w * 604800 + int d * 86400 \<le> 9223372036854775807"
  shows "seconds_in (decimal w @ ''W'' @ decimal d @ ''D'') DATE_UNITS = Some (int w * 604800 + int d * 86400, 2)"
proof -
  have "seconds_in (decimal w @ CHR ''W'' # decimal d @ CHR ''D'' # []) DATE_UNITS = Some (0 + int w * 604800 + int d * 86400, Suc (Suc 0))"
    unfolding seconds_in_def
    by (subst loop_unit [where f = 604800], use assms in \<open>simp_all add: DATE_UNITS_def not_digits\<close>,
        subst loop_unit [where f = 86400], use assms in \<open>simp_all add: not_digits\<close>)
  then show ?thesis by (simp add: numeral_2_eq_2)
qed

lemma time_read:
  assumes "int h * 3600 + int m * 60 + int s \<le> 9223372036854775807"
  shows "seconds_in (decimal h @ ''H'' @ decimal m @ ''M'' @ decimal s @ ''S'') TIME_UNITS = Some (int h * 3600 + int m * 60 + int s, 3)"
proof -
  have "seconds_in (decimal h @ CHR ''H'' # decimal m @ CHR ''M'' # decimal s @ CHR ''S'' # []) TIME_UNITS =
      Some (0 + int h * 3600 + int m * 60 + int s * 1, Suc (Suc (Suc 0)))"
    unfolding seconds_in_def
    by (subst loop_unit [where f = 3600], use assms in \<open>simp_all add: TIME_UNITS_def not_digits\<close>,
        subst loop_unit [where f = 60], use assms in \<open>simp_all add: not_digits\<close>,
        subst loop_unit [where f = 1], use assms in \<open>simp_all add: not_digits\<close>)
  then show ?thesis by (simp add: numeral_3_eq_3)
qed

lemma split_time_T: "CHR ''T'' \<notin> set date \<Longrightarrow> split_time (date @ CHR ''T'' # time) = (date, time)"
proof -
  assume "CHR ''T'' \<notin> set date"
  then have "takeWhile (\<lambda>c. c \<noteq> CHR ''T'') (date @ CHR ''T'' # time) = date"
    by (subst takeWhile_append2) auto
  then show ?thesis by (simp add: split_time_def Let_def)
qed

lemma trim_interval: "trim (CHR ''P'' # x @ [CHR ''S'']) = CHR ''P'' # x @ [CHR ''S'']"
proof -
  have "strip_any whitespace_encodings (CHR ''P'' # y) = None" for y
    by (simp add: strip_any_def whitespace_encodings_def find_None_iff char_of_def bit_iff_odd)
  moreover have "strip_any (map rev whitespace_encodings) (CHR ''S'' # y) = None" for y
    by (simp add: strip_any_def whitespace_encodings_def find_None_iff char_of_def bit_iff_odd)
  ultimately show ?thesis
    by (simp add: trim_def trim_start_with.simps [of _ "CHR ''P'' # _"] trim_start_with.simps [of _ "CHR ''S'' # _"])
qed

lemma parse_printed:
  assumes "secs = int w * 604800 + int d * 86400 + (int h * 3600 + int m * 60 + int s)"
    and "0 < secs" and "secs \<le> 9223372036854775807"
  shows "parse_interval cal (print_interval w d h m s) = cal_try_seconds cal secs"
proof -
  let ?date = "decimal w @ ''W'' @ decimal d @ ''D''"
  let ?time = "decimal h @ ''H'' @ decimal m @ ''M'' @ decimal s @ ''S''"
  have "print_interval w d h m s = CHR ''P'' # (?date @ ''T'' @ decimal h @ ''H'' @ decimal m @ ''M'' @ decimal s) @ [CHR ''S'']"
    by (simp add: print_interval_def)
  then have "trim (print_interval w d h m s) = CHR ''P'' # (?date @ CHR ''T'' # ?time)"
    by (simp only: trim_interval) simp
  then have p: "strip_prefix ''P'' (trim (print_interval w d h m s)) = Some (?date @ CHR ''T'' # ?time)"
    by (simp add: strip_prefix_def)
  have "CHR ''T'' \<notin> set ?date" using decimal_digits not_digits by auto
  then have "split_time (?date @ CHR ''T'' # ?time) = (?date, ?time)" by (rule split_time_T)
  moreover have "seconds_in ?date DATE_UNITS = Some (int w * 604800 + int d * 86400, 2)"
    by (rule date_read) (use assms in linarith)
  moreover have "seconds_in ?time TIME_UNITS = Some (int h * 3600 + int m * 60 + int s, 3)"
    by (rule time_read) (use assms in linarith)
  ultimately show ?thesis
    using assms unfolding parse_interval_def p by (simp add: checked_i64_def del: append.simps append_assoc)
qed

text \<open>
  Property C37. The parser of schedule intervals inverts printing: an interval written with weeks, days, hours,
  minutes and seconds is read as the number of seconds it denotes, for every positive value that fits
  into 64 bits.
\<close>

theorem parse_interval_roundtrip:
  assumes "secs = int w * 604800 + int d * 86400 + (int h * 3600 + int m * 60 + int s)"
    and "0 < secs" and "secs \<le> 9223372036854775807"
  shows "parse_interval cal (print_interval w d h m s) = cal_try_seconds cal secs"
  by (rule parse_printed [OF assms])

section \<open>A tick takes effect once and completely\<close>

text \<open>What is relied on of chrono: when a duration or a sum is representable, it is what was asked for.\<close>

definition calendar_ok :: "calendar \<Rightarrow> bool" where
  "calendar_ok cal \<longleftrightarrow> (\<forall>n d. cal_try_seconds cal n = Some d \<longrightarrow> d = n) \<and>
     (\<forall>t d t'. cal_add_signed cal t d = Some t' \<longrightarrow> t' = t + d)"

lemma next_run_later: "calendar_ok cal \<Longrightarrow> next_run cal tt v = Some n \<Longrightarrow> tt < n"
  by (fastforce simp: next_run_def calendar_ok_def MIN_INTERVAL_SECONDS_def split: bind_splits if_splits)

definition due_tenants :: "bulk_state \<Rightarrow> instant \<Rightarrow> schedule_row list \<Rightarrow> uuid set" where
  "due_tenants b tt rs = sd_tenant_id ` {r \<in> set rs. schedule_due b tt r}"

lemma due_tenants_Cons:
  "due_tenants b tt (r # rs) = (if schedule_due b tt r then insert (sd_tenant_id r) (due_tenants b tt rs) else due_tenants b tt rs)"
  by (auto simp: due_tenants_def)

definition advanced_from :: "instant \<Rightarrow> uuid set \<Rightarrow> schedule_row list \<Rightarrow> schedule_row \<Rightarrow> bool" where
  "advanced_from tt T t x \<longleftrightarrow> (\<exists>y \<in> set t. sd_tenant_id x = sd_tenant_id y \<and> sd_interval x = sd_interval y \<and>
     (x = y \<and> sd_tenant_id x \<notin> T \<or> sd_tenant_id x \<in> T \<and> (\<exists>n > tt. sd_scheduled_for x = Some n)))"

lemma advanced_step:
  assumes "advanced_from tt T (update_where (\<lambda>x. sd_tenant_id x = k) (\<lambda>x. x\<lparr>sd_scheduled_for := Some nx, sd_updated_at := tt\<rparr>) t) x"
    and "tt < nx"
  shows "advanced_from tt (insert k T) t x"
proof -
  let ?f = "\<lambda>y. if sd_tenant_id y = k then y\<lparr>sd_scheduled_for := Some nx, sd_updated_at := tt\<rparr> else y"
  obtain y where y: "y \<in> set t" "sd_tenant_id x = sd_tenant_id (?f y)" "sd_interval x = sd_interval (?f y)"
    and c: "x = ?f y \<and> sd_tenant_id x \<notin> T \<or> sd_tenant_id x \<in> T \<and> (\<exists>n > tt. sd_scheduled_for x = Some n)"
    using assms(1) by (auto simp: advanced_from_def update_where_def)
  have e: "sd_tenant_id x = sd_tenant_id y" "sd_interval x = sd_interval y" using y(2,3) by (simp_all split: if_splits)
  have "x = y \<and> sd_tenant_id x \<notin> insert k T \<or> sd_tenant_id x \<in> insert k T \<and> (\<exists>n > tt. sd_scheduled_for x = Some n)"
    using c assms(2) by (auto split: if_splits)
  then show ?thesis unfolding advanced_from_def using y(1) e by blast
qed

lemma workspace_dispatches_all:
  "workspace_dispatches enterprise b ws = Inr ds \<Longrightarrow> map fst ds = ws"
  by (induction ws arbitrary: ds) (auto simp: rbind_Inr_iff split: sum.splits)

lemma tick_schedules_Inr:
  assumes "calendar_ok cal" "tick_schedules cal enterprise tt b rs (t, ds) = Inr (t', ds')"
  shows "(\<forall>x \<in> set t'. advanced_from tt (due_tenants b tt rs) t x) \<and> set ds \<subseteq> set ds' \<and>
    (\<forall>w \<in> set (db_workspaces (bs_store b)). wk_tenant_id w \<in> due_tenants b tt rs \<longrightarrow> wk_id w \<in> fst ` set ds')"
  using assms(2)
proof (induction rs arbitrary: t ds)
  case Nil
  then show ?case by (auto simp: advanced_from_def due_tenants_def)
next
  case (Cons r rs)
  show ?case
  proof (cases "schedule_due b tt r")
    case False
    then show ?thesis using Cons.IH [of t ds] Cons.prems by (simp add: due_tenants_Cons)
  next
    case True
    let ?ws = "map wk_id (select_where (\<lambda>w. wk_tenant_id w = sd_tenant_id r) (db_workspaces (bs_store b)))"
    obtain nx more_ds where n: "next_run cal tt (sd_interval r) = Some nx"
      and d: "workspace_dispatches enterprise b ?ws = Inr more_ds"
      and rest: "tick_schedules cal enterprise tt b rs
        (update_where (\<lambda>x. sd_tenant_id x = sd_tenant_id r) (\<lambda>x. x\<lparr>sd_scheduled_for := Some nx, sd_updated_at := tt\<rparr>) t,
         ds @ more_ds) = Inr (t', ds')"
      using Cons.prems True by (auto simp: rbind_Inr_iff split: option.splits)
    note IH = Cons.IH [OF rest]
    have later: "tt < nx" by (rule next_run_later [OF assms(1) n])
    have "advanced_from tt (due_tenants b tt (r # rs)) t x" if "x \<in> set t'" for x
      using IH that advanced_step [OF _ later] True by (simp add: due_tenants_Cons)
    moreover have "wk_id w \<in> fst ` set ds'" if "w \<in> set (db_workspaces (bs_store b))" "wk_tenant_id w = sd_tenant_id r" for w
    proof -
      have "wk_id w \<in> set (map fst more_ds)"
        using that unfolding workspace_dispatches_all [OF d] by (simp add: set_select_where)
      then show ?thesis using IH by auto
    qed
    ultimately show ?thesis using IH True by (auto simp: due_tenants_Cons)
  qed
qed

lemma tick_schedules_idle: "\<forall>r \<in> set rs. \<not> schedule_due b tt r \<Longrightarrow> tick_schedules cal enterprise tt b rs acc = Inr acc"
  by (induction rs) simp_all

lemma dispatch_job_recorded:
  assumes "dispatch_job hyphenated parse_uuid policy i now d q spec = (Inr i', q')"
  shows "\<exists>row. q_outbox q' = q_outbox q @ [row] \<and> ob_lifecycle_id row = Some i \<and> ob_worker_name row = js_worker_name spec"
  using assms
  by (auto simp: dispatch_job_def record_in_transaction_def insert_outbox_def Let_def rbind_Inr_iff spec_enqueue_def
      split: sum.splits prod.splits if_splits)

lemma batch_queue: "dispatch_reindex_batch hyphenated ev ids payload ds b = (errs, b') \<Longrightarrow> \<exists>q. b' = b\<lparr>bs_queue := q\<rparr>"
proof (induction ds arbitrary: b errs)
  case (Cons d ds)
  then show ?case by (fastforce simp: Let_def split: prod.splits)
next
  case Nil
  then have "b' = b\<lparr>bs_queue := bs_queue b\<rparr>" by simp
  then show ?case by blast
qed

lemma batch_recorded:
  assumes "dispatch_reindex_batch hyphenated ev ids payload ds b = ([], b')"
  shows "set (q_outbox (bs_queue b)) \<subseteq> set (q_outbox (bs_queue b')) \<and> (\<forall>w \<in> fst ` set ds.
    \<exists>row \<in> set (q_outbox (bs_queue b')). ob_lifecycle_id row = Some (ids w) \<and> ob_worker_name row = ''ReindexWorker'')"
  using assms
proof (induction ds arbitrary: b)
  case (Cons d ds)
  obtain w c where d: "d = (w, c)" by (rule prod.exhaust)
  obtain i q where j: "dispatch_job hyphenated (be_parse_uuid ev) (be_policy ev w c) (ids w) (be_now ev) (bs_store b) (bs_queue b)
      (reindex_spec (payload w c) w c False) = (Inr i, q)"
    and rest: "dispatch_reindex_batch hyphenated ev ids payload ds (b\<lparr>bs_queue := q\<rparr>) = ([], b')"
    using Cons.prems by (auto simp: d Let_def split: prod.splits sum.splits)
  obtain row where "q_outbox q = q_outbox (bs_queue b) @ [row]" "ob_lifecycle_id row = Some (ids w)" "ob_worker_name row = ''ReindexWorker''"
    using dispatch_job_recorded [OF j] by (auto simp: reindex_spec_def)
  then show ?case using Cons.IH [OF rest] by (auto simp: d)
qed simp


section \<open>Stored intervals are valid\<close>

definition interval_valid :: "calendar \<Rightarrow> string \<Rightarrow> bool" where
  "interval_valid cal v \<longleftrightarrow> (\<exists>every. parse_interval cal v = Some every \<and> MIN_INTERVAL_SECONDS \<le> every)"

inductive schedule_step :: "calendar \<Rightarrow> schedule_state \<Rightarrow> schedule_state \<Rightarrow> bool" for cal where
  assign: "set_schedule cal now s t v tz = Inr s' \<Longrightarrow> schedule_step cal s s'"
| withdraw: "schedule_step cal s (clear_schedule s t)"
| tick: "tick cal hyphenated ev ids payload ownership release_error tt s = (r, s') \<Longrightarrow> schedule_step cal s s'"
| elsewhere: "ss_schedules s' = ss_schedules s \<Longrightarrow> schedule_step cal s s'"

lemma tick_keeps_intervals:
  assumes "calendar_ok cal" "tick cal hyphenated ev ids payload ownership release_error tt s = (r, s')" "x \<in> set (ss_schedules s')"
  shows "\<exists>y \<in> set (ss_schedules s). sd_interval x = sd_interval y"
proof (cases "s' = s")
  case False
  then obtain t ds where "tick_schedules cal (be_enterprise ev) tt (ss_bulk s) (sort_key sd_tenant_id (ss_schedules s)) (ss_schedules s, []) = Inr (t, ds)"
    "ss_schedules s' = t"
    using assms(2) by (auto simp: tick_def Let_def split: sum.splits bool.splits prod.splits option.splits if_splits)
  then show ?thesis using tick_schedules_Inr [OF assms(1)] assms(3) by (fastforce simp: advanced_from_def)
qed (use assms(3) in blast)

lemma stored_intervals_valid:
  assumes "(schedule_step cal)\<^sup>*\<^sup>* s s'" "calendar_ok cal" "\<forall>x \<in> set (ss_schedules s). interval_valid cal (sd_interval x)"
  shows "\<forall>x \<in> set (ss_schedules s'). interval_valid cal (sd_interval x)"
  using assms(1,3)
proof (induction rule: rtranclp_induct)
  case (step s1 s2)
  then have IH: "\<forall>x \<in> set (ss_schedules s1). interval_valid cal (sd_interval x)" by blast
  from step(2) show ?case
  proof cases
    case (assign now t v tz)
    then have "interval_valid cal v"
      by (auto simp: set_schedule_def interval_valid_def rbind_Inr_iff ok_or_Inr_iff Let_def not_less split: if_splits)
    then show ?thesis
      using assign IH by (auto simp: set_schedule_def rbind_Inr_iff ok_or_Inr_iff Let_def update_where_def split: if_splits)
  next
    case (withdraw t)
    then show ?thesis using IH by (simp add: clear_schedule_def set_delete_where)
  next
    case (tick hyphenated ev ids payload ownership release_error tt r)
    then show ?thesis using tick_keeps_intervals [OF assms(2) tick] IH by fastforce
  next
    case elsewhere
    then show ?thesis using IH by simp
  qed
qed

section \<open>A daily schedule\<close>

definition plain_calendar :: calendar where
  "plain_calendar = \<lparr>cal_try_seconds = \<lambda>n. if n \<le> 9223372036854775 then Some n else None,
     cal_add_signed = \<lambda>t d. if t + d \<le> 8210266876799 then Some (t + d) else None, cal_timezone = \<lambda>z. z = ''UTC''\<rparr>"

lemma plain_calendar_ok: "calendar_ok plain_calendar"
  by (simp add: calendar_ok_def plain_calendar_def)

theorem parse_interval_roundtrip_witness: "parse_interval plain_calendar (print_interval 0 1 6 0 0) = Some 108000"
  using parse_interval_roundtrip [of 108000 0 1 6 0 0 plain_calendar] by (simp add: plain_calendar_def)

definition daily :: schedule_state where
  "daily = \<lparr>ss_bulk = citing_state, ss_schedules = [\<lparr>sd_tenant_id = 9, sd_interval = print_interval 0 1 0 0 0, sd_timezone = None,
     sd_scheduled_for = Some 5, sd_created_at = 0, sd_updated_at = 0\<rparr>]\<rparr>"

lemma daily_next: "next_run plain_calendar 10 (print_interval 0 1 0 0 0) = Some 86410"
  using parse_printed [of 86400 0 1 0 0 0 plain_calendar] by (simp add: next_run_def plain_calendar_def MIN_INTERVAL_SECONDS_def)

lemma daily_tick:
  "\<exists>s'. tick plain_calendar tally citing_env (\<lambda>w. w + 100) (\<lambda>_ _. JObj []) (Inr True) None 10 daily = (Inr (), s')"
proof -
  have due: "schedule_due citing_state 10 \<lparr>sd_tenant_id = 9, sd_interval = print_interval 0 1 0 0 0, sd_timezone = None,
     sd_scheduled_for = Some 5, sd_created_at = 0, sd_updated_at = 0\<rparr>"
    by (simp add: schedule_due_def is_due_at_def tenant_active_def citing_state_def acme_defs)
  have ws: "map wk_id (select_where (\<lambda>w. wk_tenant_id w = 9) (db_workspaces (bs_store citing_state))) = [3]"
    by (simp add: citing_state_def two_books_def one_schema_def select_where_def)
  have c: "resolve_worker_class (be_enterprise citing_env) citing_state 3 = Inr Shared"
    by (simp add: resolve_worker_class_def citing_env_def)
  have "\<exists>q. dispatch_job tally untally (Inr community_concurrency) 103 8 two_books \<lparr>q_lifecycles = [queued_row 0 (limited_job 11)], q_outbox = []\<rparr>
      (reindex_spec (JObj []) 3 Shared False) = (Inr 103, q)"
    by (simp add: dispatch_job_def reindex_spec_def for_job_def community_concurrency_def get_workspace_tenant_def two_books_def one_schema_def
        find_row_def record_in_transaction_def insert_outbox_def queue_eval spec_enqueue_def Let_def record_enqueue_def)
  then obtain q where "dispatch_job tally untally (Inr community_concurrency) 103 8 (bs_store citing_state) (bs_queue citing_state)
      (reindex_spec (JObj []) 3 Shared False) = (Inr 103, q)"
    by (auto simp: citing_state_def)
  then show ?thesis
    using due ws c daily_next
    by (simp add: tick_def daily_def Let_def scheduler_failure_message_def citing_env_def)
qed


end
