(* ===== verification/Rate_Limit.thy ===== *)
theory Rate_Limit
  imports Yor_Error "HOL-Library.AList"
begin

text \<open>
  \<open>src/controllers/middleware/rate_limit.rs\<close>: the fixed-window limiter of the credential routes and of the
  search budget.

  The map of buckets is an association list; the mutex makes a call one step.  The monotonic clock
  is an argument, in any unit.  Charges are \<open>u32\<close> and saturate.  The abstract side is a meter for one key
  that knows nothing of other keys and of the eviction; the lemmas show that the limiter is that meter for
  every key, and bound what a window admits.
\<close>

section \<open>The limiter\<close>

definition GC_BUCKET_THRESHOLD :: nat where "GC_BUCKET_THRESHOLD = 128"

definition u32_max :: nat where "u32_max = 4294967295"

record rate_limiter =
  rl_max_requests :: nat
  rl_window :: int
  rl_guarded_paths :: "string list"
  rl_buckets :: "(string \<times> int \<times> nat) list"

definition new_limiter :: "nat \<Rightarrow> int \<Rightarrow> rate_limiter" where
  "new_limiter max_requests window =
     \<lparr>rl_max_requests = max_requests, rl_window = window, rl_guarded_paths = [], rl_buckets = []\<rparr>"

definition guarding :: "rate_limiter \<Rightarrow> string list \<Rightarrow> rate_limiter" where
  "guarding l paths = l\<lparr>rl_guarded_paths := paths\<rparr>"

definition evict :: "int \<Rightarrow> int \<Rightarrow> (string \<times> int \<times> nat) list \<Rightarrow> (string \<times> int \<times> nat) list" where
  "evict window now buckets =
     (if length buckets > GC_BUCKET_THRESHOLD then filter (\<lambda>(_, start, _). now - start < window) buckets else buckets)"

definition allow_cost :: "int \<Rightarrow> rate_limiter \<Rightarrow> string \<Rightarrow> nat \<Rightarrow> bool \<times> rate_limiter" where
  "allow_cost now l key cost =
     (let buckets = evict (rl_window l) now (rl_buckets l);
          entry = (case map_of buckets key of None \<Rightarrow> (now, 0) | Some e \<Rightarrow> e);
          (start, used) = (if now - fst entry \<ge> rl_window l then (now, 0) else entry);
          charged = min (used + cost) u32_max
      in (charged \<le> rl_max_requests l \<or> used = 0, l\<lparr>rl_buckets := AList.update key (start, charged) buckets\<rparr>))"

definition allow :: "int \<Rightarrow> rate_limiter \<Rightarrow> string \<Rightarrow> bool \<times> rate_limiter" where
  "allow now l key = allow_cost now l key 1"

definition query_tokens :: "string \<Rightarrow> nat" where
  "query_tokens query_text = min ((length query_text + 3) div 4) u32_max"

definition charge_search_tokens ::
  "(nat \<Rightarrow> string) \<Rightarrow> int \<Rightarrow> rate_limiter \<Rightarrow> nat \<Rightarrow> string \<Rightarrow> unit result \<times> rate_limiter" where
  "charge_search_tokens hyphenated now l workspace_id query_text =
     (case allow_cost now l (hyphenated workspace_id) (query_tokens query_text) of
        (True, l') \<Rightarrow> (Inr (), l')
      | (False, l') \<Rightarrow> (Inl (ValidationFailed ''this workspace has spent its search token budget for the minute'' []), l'))"

text \<open>Whether the request goes on; otherwise the answer is \<open>429\<close>.  \<open>client\<close> is the address, when known.\<close>

definition enforce :: "int \<Rightarrow> rate_limiter \<Rightarrow> string \<Rightarrow> string option \<Rightarrow> bool \<times> rate_limiter" where
  "enforce now l path client =
     (if path \<notin> set (rl_guarded_paths l) then (True, l)
      else allow now l (case client of Some ip \<Rightarrow> ip | None \<Rightarrow> ''unknown''))"

section \<open>A meter for one key\<close>

text \<open>The abstract state of a key: its window and what was charged in it, while the window lasts.\<close>

definition live :: "int \<Rightarrow> int \<Rightarrow> (int \<times> nat) option \<Rightarrow> (int \<times> nat) option" where
  "live window now m = (case m of Some (start, used) \<Rightarrow> if now - start < window then m else None | None \<Rightarrow> None)"

definition meter :: "nat \<Rightarrow> int \<Rightarrow> int \<Rightarrow> (int \<times> nat) option \<Rightarrow> nat \<Rightarrow> bool \<times> (int \<times> nat) option" where
  "meter limit window now m cost =
     (let (start, used) = (case live window now m of Some e \<Rightarrow> e | None \<Rightarrow> (now, 0));
          charged = min (used + cost) u32_max
      in (charged \<le> limit \<or> used = 0, Some (start, charged)))"

definition limiter_ok :: "rate_limiter \<Rightarrow> bool" where
  "limiter_ok l \<longleftrightarrow> distinct (map fst (rl_buckets l)) \<and> 0 < rl_window l"

abbreviation bucket :: "rate_limiter \<Rightarrow> string \<Rightarrow> (int \<times> nat) option" where
  "bucket l \<equiv> map_of (rl_buckets l)"

lemma live_evict:
  assumes "distinct (map fst bs)"
  shows "live window now (map_of (evict window now bs) k) = live window now (map_of bs k)"
proof -
  have "map_of (filter (\<lambda>(_, start, _). now - start < window) bs) k =
      (case map_of bs k of Some e \<Rightarrow> if now - fst e < window then Some e else None | None \<Rightarrow> None)"
    using assms by (induction bs) (auto split: option.splits simp: map_of_eq_None_iff image_iff)
  then show ?thesis by (auto simp: evict_def live_def split: option.splits)
qed

lemma evict_distinct: "distinct (map fst bs) \<Longrightarrow> distinct (map fst (evict window now bs))"
  by (simp add: evict_def distinct_map_filter)

lemma allow_cost_meter:
  assumes "limiter_ok l" "allow_cost now l key cost = (r, l')"
  shows "limiter_ok l'" and "rl_max_requests l' = rl_max_requests l" and "rl_window l' = rl_window l"
    and "meter (rl_max_requests l) (rl_window l) now (bucket l key) cost = (r, bucket l' key)"
    and "k \<noteq> key \<Longrightarrow> live (rl_window l) now (bucket l' k) = live (rl_window l) now (bucket l k)"
proof -
  let ?bs = "evict (rl_window l) now (rl_buckets l)"
  have d: "distinct (map fst (rl_buckets l))" "0 < rl_window l" using assms(1) by (simp_all add: limiter_ok_def)
  obtain start used where e: "(if now - fst (case map_of ?bs key of None \<Rightarrow> (now, 0) | Some e \<Rightarrow> e) \<ge> rl_window l then (now, 0)
      else (case map_of ?bs key of None \<Rightarrow> (now, 0) | Some e \<Rightarrow> e)) = (start, used)" by (rule prod.exhaust)
  have r: "r \<longleftrightarrow> min (used + cost) u32_max \<le> rl_max_requests l \<or> used = 0"
    and l': "l' = l\<lparr>rl_buckets := AList.update key (start, min (used + cost) u32_max) ?bs\<rparr>"
    using assms(2) e by (auto simp: allow_cost_def Let_def)
  have "(case live (rl_window l) now (map_of ?bs key) of Some e \<Rightarrow> e | None \<Rightarrow> (now, 0)) = (start, used)"
    using e by (auto simp: live_def split: option.splits if_splits)
  then show "meter (rl_max_requests l) (rl_window l) now (bucket l key) cost = (r, bucket l' key)"
    using r by (simp add: meter_def l' live_evict [OF d(1)] update_conv' Let_def)
  show "limiter_ok l'" using d by (simp add: limiter_ok_def l' distinct_update evict_distinct)
  show "rl_max_requests l' = rl_max_requests l" "rl_window l' = rl_window l" by (simp_all add: l')
  show "k \<noteq> key \<Longrightarrow> live (rl_window l) now (bucket l' k) = live (rl_window l) now (bucket l k)"
    using live_evict [OF d(1), of "rl_window l" now k] by (simp add: l' update_conv')
qed

section \<open>The limiter is a meter for every key\<close>

type_synonym call = "int \<times> string \<times> nat"

fun run_limiter :: "rate_limiter \<Rightarrow> call list \<Rightarrow> bool list" where
  "run_limiter l [] = []"
| "run_limiter l ((now, key, cost) # calls) =
     (let (r, l') = allow_cost now l key cost in r # run_limiter l' calls)"

fun run_meter :: "nat \<Rightarrow> int \<Rightarrow> (int \<times> nat) option \<Rightarrow> (int \<times> nat) list \<Rightarrow> bool list" where
  "run_meter limit window m [] = []"
| "run_meter limit window m ((now, cost) # calls) =
     (let (r, m') = meter limit window now m cost in r # run_meter limit window m' calls)"

definition calls_of :: "string \<Rightarrow> call list \<Rightarrow> (int \<times> nat) list" where
  "calls_of key calls = map (\<lambda>(now, _, cost). (now, cost)) (filter (\<lambda>(_, k, _). k = key) calls)"

definition answers_of :: "string \<Rightarrow> call list \<Rightarrow> bool list \<Rightarrow> bool list" where
  "answers_of key calls rs = map snd (filter (\<lambda>((_, k, _), _). k = key) (zip calls rs))"

lemma live_later: "live w now m = live w now m' \<Longrightarrow> now \<le> t \<Longrightarrow> live w t m = live w t m'"
  by (auto simp: live_def split: option.splits if_splits)

lemma meter_live: "live w now m = live w now m' \<Longrightarrow> meter limit w now m cost = meter limit w now m' cost"
  by (simp add: meter_def)

lemma run_limiter_meter:
  assumes "limiter_ok l" "sorted (map fst calls)" "\<forall>c \<in> set calls. t \<le> fst c"
    and "live (rl_window l) t (bucket l key) = live (rl_window l) t m"
  shows "answers_of key calls (run_limiter l calls) = run_meter (rl_max_requests l) (rl_window l) m (calls_of key calls)"
  using assms
proof (induction calls arbitrary: l t m)
  case Nil
  then show ?case by (simp add: answers_of_def calls_of_def)
next
  case (Cons c calls)
  obtain now k cost where c: "c = (now, k, cost)" by (rule prod_cases3)
  obtain r l' where a: "allow_cost now l k cost = (r, l')" by (rule prod.exhaust)
  note s = allow_cost_meter [OF Cons.prems(1) a]
  have times: "sorted (map fst calls)" "\<forall>c \<in> set calls. now \<le> fst c" using Cons.prems(2) by (auto simp: c)
  have now: "live (rl_window l) now (bucket l key) = live (rl_window l) now m"
    using Cons.prems(3) by (intro live_later [OF Cons.prems(4)]) (simp add: c)
  show ?case
  proof (cases "k = key")
    case True
    have "meter (rl_max_requests l) (rl_window l) now m cost = (r, bucket l' key)"
      using s(4) meter_live [OF now] True by simp
    then show ?thesis
      using Cons.IH [OF s(1) times, of "bucket l' key"] s(2,3) a True
      by (simp add: c answers_of_def calls_of_def)
  next
    case False
    then have "live (rl_window l') now (bucket l' key) = live (rl_window l') now m" using s(3,5) now by simp
    then show ?thesis
      using Cons.IH [OF s(1) times] s(2,3) False by (simp add: c a answers_of_def calls_of_def)
  qed
qed

text \<open>
  Property C39. Clients do not influence each other, and the eviction of buckets is invisible: in every sequence
  of calls, the answers a key gets are those of a meter that sees only the calls of this key.
\<close>

theorem limiter_keys_independent:
  assumes "limiter_ok l" and "sorted (map fst calls)"
  shows "answers_of key calls (run_limiter l calls) =
    run_meter (rl_max_requests l) (rl_window l) (bucket l key) (calls_of key calls)"
proof (cases calls)
  case Nil
  then show ?thesis by (simp add: answers_of_def calls_of_def)
next
  case (Cons c cs)
  then have "\<forall>x \<in> set calls. fst c \<le> fst x" using assms(2) by auto
  then show ?thesis by (rule run_limiter_meter [OF assms]) simp
qed

section \<open>What a window admits\<close>

definition admitted :: "bool list \<Rightarrow> (int \<times> nat) list \<Rightarrow> nat list" where
  "admitted rs calls = map (snd \<circ> snd) (filter fst (zip rs calls))"

lemma admitted_simps [simp]:
  "admitted rs [] = []"
  "admitted (r # rs) ((now, cost) # calls) = (if r then cost # admitted rs calls else admitted rs calls)"
  by (simp_all add: admitted_def)

lemma charged_window:
  assumes "limit < u32_max" "0 < used" "\<forall>c \<in> set calls. fst c - start < w"
  shows "sum_list (admitted (run_meter limit w (Some (start, used)) calls) calls) \<le> limit - used"
  using assms(2,3)
proof (induction calls arbitrary: used)
  case (Cons c calls)
  obtain now cost where c: "c = (now, cost)" by (rule prod.exhaust)
  let ?u = "min (used + cost) u32_max"
  have m: "meter limit w now (Some (start, used)) cost = (?u \<le> limit, Some (start, ?u))"
    using Cons.prems by (simp add: meter_def live_def c Let_def)
  have "0 < ?u" using Cons.prems(1) by (simp add: u32_max_def)
  then have IH: "sum_list (admitted (run_meter limit w (Some (start, ?u)) calls) calls) \<le> limit - ?u"
    using Cons.IH Cons.prems(2) by simp
  show ?case
  proof (cases "?u \<le> limit")
    case True
    then have "?u = used + cost" using assms(1) by simp
    then show ?thesis using True IH by (simp add: c m)
  next
    case False
    then show ?thesis using IH by (simp add: c m)
  qed
qed simp

lemma sum_list_zero: "sum_list ns = 0 \<Longrightarrow> filter (\<lambda>n. 0 < n) ns = ([] :: nat list)"
  by (auto simp: filter_empty_conv)

lemma fresh_window:
  assumes "limit < u32_max" "\<forall>c \<in> set calls. t \<le> fst c \<and> fst c < t + w"
    and "\<forall>u \<ge> t. u < t + w \<longrightarrow> (live w u m = None \<or> (\<exists>start. live w u m = Some (start, 0) \<and> t \<le> start))"
    and "sorted (map fst calls)"
  shows "sum_list (admitted (run_meter limit w m calls) calls) \<le> limit \<or>
    length (filter (\<lambda>n. 0 < n) (admitted (run_meter limit w m calls) calls)) \<le> 1"
  using assms(2,3,4)
proof (induction calls arbitrary: m)
  case (Cons c calls)
  obtain now cost where c: "c = (now, cost)" by (rule prod.exhaust)
  have now: "t \<le> now" "now < t + w" using Cons.prems(1) by (simp_all add: c)
  obtain start where st: "t \<le> start" "(case live w now m of Some e \<Rightarrow> e | None \<Rightarrow> (now, 0)) = (start, 0)"
    using Cons.prems(2) now by (metis option.case(1,2) order_refl)
  have m: "meter limit w now m cost = (True, Some (start, min cost u32_max))"
    by (simp add: meter_def st(2) Let_def)
  have in_window: "\<forall>c \<in> set calls. fst c - start < w" using Cons.prems(1) st(1) by fastforce
  let ?rest = "admitted (run_meter limit w (Some (start, min cost u32_max)) calls) calls"
  show ?case
  proof (cases "cost = 0")
    case True
    have "\<forall>u \<ge> t. u < t + w \<longrightarrow> live w u (Some (start, 0)) = None \<or> (\<exists>start'. live w u (Some (start, 0)) = Some (start', 0) \<and> t \<le> start')"
      using st(1) by (simp add: live_def)
    moreover have "meter limit w now m 0 = (True, Some (start, 0))" using m True by simp
    ultimately show ?thesis using Cons.IH [of "Some (start, 0)"] Cons.prems(1,3) True by (simp add: c)
  next
    case False
    have le: "sum_list ?rest \<le> limit - min cost u32_max"
      by (rule charged_window [OF assms(1) _ in_window]) (use False in \<open>simp add: u32_max_def\<close>)
    show ?thesis
    proof (cases "cost \<le> limit")
      case True
      then have "min cost u32_max = cost" using assms(1) by simp
      then have "cost + sum_list ?rest \<le> limit" using le True by simp
      then show ?thesis by (simp add: c m)
    next
      case over: False
      then have "sum_list ?rest = 0" using le assms(1) by simp
      then show ?thesis using sum_list_zero [of ?rest] False by (simp add: c m)
    qed
  qed
qed simp

text \<open>
  Property C38. A window admits no more than the limit, whatever the other clients do: of the calls a key makes
  within one window after its last window ended, the admitted ones cost at most the limit together, or
  only one of them cost anything, a single call that is larger than the whole window.
\<close>

theorem window_admits_limit:
  assumes "limiter_ok l" and "sorted (map fst calls)" and "rl_max_requests l < u32_max"
    and "\<forall>c \<in> set calls. t \<le> fst c \<and> fst c < t + rl_window l" and "live (rl_window l) t (bucket l key) = None"
  shows "sum_list (admitted (answers_of key calls (run_limiter l calls)) (calls_of key calls)) \<le> rl_max_requests l \<or>
    length (filter (\<lambda>n. 0 < n) (admitted (answers_of key calls (run_limiter l calls)) (calls_of key calls))) \<le> 1"
proof -
  have "\<forall>c \<in> set (calls_of key calls). t \<le> fst c \<and> fst c < t + rl_window l"
    using assms(4) by (fastforce simp: calls_of_def)
  moreover have "sorted (map fst (calls_of key calls))"
  proof -
    have "map fst (calls_of key calls) = map fst (filter (\<lambda>(_, k, _). k = key) calls)" by (simp add: calls_of_def split_def)
    then show ?thesis using assms(2) by (simp add: sorted_filter)
  qed
  moreover have "\<forall>u \<ge> t. u < t + rl_window l \<longrightarrow> live (rl_window l) u None = None" by (simp add: live_def)
  moreover have "answers_of key calls (run_limiter l calls) = run_meter (rl_max_requests l) (rl_window l) None (calls_of key calls)"
    using assms(4,5) by (intro run_limiter_meter [OF assms(1,2), of t]) (auto simp: live_def)
  ultimately show ?thesis using fresh_window [OF assms(3), of "calls_of key calls" t "rl_window l" None] by simp
qed

section \<open>Examples\<close>

definition two_clients :: "call list" where
  "two_clients = [(0, ''a'', 2), (1, ''b'', 9), (2, ''a'', 2), (3, ''a'', 1), (70, ''a'', 3)]"

lemma small_limiter_ok: "limiter_ok (new_limiter 3 60)"
  by (simp add: limiter_ok_def new_limiter_def)

theorem limiter_keys_independent_witness:
  "answers_of ''a'' two_clients (run_limiter (new_limiter 3 60) two_clients) = [True, False, False, True]"
proof -
  have "run_meter 3 60 None (calls_of ''a'' two_clients) = [True, False, False, True]"
    by (simp add: two_clients_def calls_of_def meter_def live_def u32_max_def)
  then show ?thesis
    using limiter_keys_independent [OF small_limiter_ok, of two_clients "''a''"] by (simp add: two_clients_def new_limiter_def)
qed

theorem window_admits_limit_witness:
  "sum_list (admitted (answers_of ''a'' (take 4 two_clients) (run_limiter (new_limiter 3 60) (take 4 two_clients)))
     (calls_of ''a'' (take 4 two_clients))) \<le> 3 \<or>
   length (filter (\<lambda>n. 0 < n) (admitted (answers_of ''a'' (take 4 two_clients) (run_limiter (new_limiter 3 60) (take 4 two_clients)))
     (calls_of ''a'' (take 4 two_clients)))) \<le> 1"
  using window_admits_limit [OF small_limiter_ok, of "take 4 two_clients" 0 "''a''"]
  by (simp add: two_clients_def new_limiter_def u32_max_def live_def)

text \<open>A limit of zero still admits one call in each window.\<close>

lemma zero_limit_admits_one: "run_limiter (new_limiter 0 60) [(0, k, 1), (1, k, 1), (60, k, 1)] = [True, False, True]"
  by (simp add: new_limiter_def allow_cost_def evict_def u32_max_def)

end
