(* ===== verification/Single_Sign_On.thy ===== *)
theory Single_Sign_On
  imports Accounts Background_Jobs
begin

text \<open>
  \<open>ee/models/user_users.rs\<close> and \<open>ee/models/user_users/provisioning.rs\<close>: accounts that an identity provider
  vouches for, and the tenant, workspace, schema and membership the first login of such an account creates.

  The identity columns of a user are kept beside the identity tables.  The first login is one
  transaction under a lock of the identity.  The built-in template is an argument, what serde reads from
  its file.  The lemmas show that a first login makes an owner of a tenant with one usable workspace, and
  that every later login finds them again.
\<close>

record sso_db =
  so_accounts :: account_db
  so_identities :: "(uuid \<times> string \<times> string) list"

abbreviation so_identity :: "sso_db \<Rightarrow> identity_db" where
  "so_identity s \<equiv> ac_identity (so_accounts s)"

definition with_identity :: "identity_db \<Rightarrow> sso_db \<Rightarrow> sso_db" where
  "with_identity i s = s\<lparr>so_accounts := (so_accounts s)\<lparr>ac_identity := i\<rparr>\<rparr>"

record provisioned_login =
  pl_user_id :: uuid
  pl_workspace_id :: uuid
  pl_scope :: api_key_scope

definition find_by_oauth_identity :: "sso_db \<Rightarrow> string \<Rightarrow> string \<Rightarrow> uuid option" where
  "find_by_oauth_identity s provider subject_id =
     map_option fst (find_row (\<lambda>(u, p, sub). p = provider \<and> sub = subject_id) (so_identities s))"

text \<open>\<open>None\<close> is the unique violation.\<close>

definition create_oauth_user ::
  "uuid \<Rightarrow> sso_db \<Rightarrow> string \<Rightarrow> string option \<Rightarrow> string \<Rightarrow> string \<Rightarrow> sso_db option" where
  "create_oauth_user new_id s email display_name provider subject_id =
     (let users = id_users (so_identity s) in
      if new_id \<in> us_id ` set users \<or> email \<in> us_email ` set users \<or> (provider, subject_id) \<in> snd ` set (so_identities s)
      then None
      else Some ((with_identity ((so_identity s)\<lparr>id_users := users @
             [\<lparr>us_id = new_id, us_email = email, us_display_name = display_name\<rparr>]\<rparr>) s)
             \<lparr>so_identities := so_identities s @ [(new_id, provider, subject_id)]\<rparr>))"

definition tenant_name_from_email :: "string \<Rightarrow> string" where
  "tenant_name_from_email email = takeWhile (\<lambda>c. c \<noteq> CHR ''@'') email"

definition resolve_existing_login :: "sso_db \<Rightarrow> uuid \<Rightarrow> provisioned_login result" where
  "resolve_existing_login s user_id =
     rbind (list_workspaces_for_user (so_identity s) user_id) (\<lambda>workspaces.
     rbind (case workspaces of
              [w] \<Rightarrow> Inr (fst w)
            | [] \<Rightarrow> Inl (ScopeInsufficient ''this account is not a member of any tenant'')
            | _ \<Rightarrow> Inl (ValidationFailed ''this account has access to more than one workspace'' [])) (\<lambda>workspace_id.
     rbind (get_workspace_tenant (id_store (so_identity s)) workspace_id) (\<lambda>tenant_id.
     rbind (workspace_access (so_identity s) tenant_id workspace_id user_id) (\<lambda>access.
     rbind (ok_or access (ScopeInsufficient ''this account has no access to its workspace'')) (\<lambda>access.
     Inr \<lparr>pl_user_id = user_id, pl_workspace_id = workspace_id, pl_scope = wa_max_scope access\<rparr>)))))"

record sso_env =
  se_backend :: backend
  se_pattern_ok :: "string \<Rightarrow> bool"
  se_general_notes :: "metaschema_definition result"
  se_user_id :: uuid
  se_tenant_id :: uuid
  se_workspace_id :: uuid
  se_schema_id :: uuid
  se_now :: instant

text \<open>The row of the new workspace, pointed at its schema.\<close>

definition point_at_schema :: "db \<Rightarrow> uuid \<Rightarrow> uuid \<Rightarrow> db" where
  "point_at_schema d workspace_id schema_id =
     d\<lparr>db_workspaces := update_where (\<lambda>w. wk_id w = workspace_id)
        (\<lambda>w. w\<lparr>wk_schema_id := Some schema_id, wk_status := WorkspaceActive\<rparr>) (db_workspaces d)\<rparr>"

definition provision :: "sso_env \<Rightarrow> sso_db \<Rightarrow> string \<Rightarrow> uuid \<Rightarrow> int option \<Rightarrow> (provisioned_login \<times> sso_db) result" where
  "provision ev s email user_id max_tenants =
     rbind (create_tenant (se_backend ev) (se_tenant_id ev) (so_identity s) (tenant_name_from_email email) max_tenants) (\<lambda>(tenant, i1).
     rbind (create_workspace_with_quota (se_workspace_id ev) (se_now ev) i1 (tn_id tenant) ''default'' None None None) (\<lambda>(workspace, i2).
     rbind (se_general_notes ev) (\<lambda>definition.
     rbind (create_schema (se_pattern_ok ev) (se_schema_id ev) (se_now ev) (id_store i2) (tn_id tenant) (wk_id workspace)
              definition None None) (\<lambda>((schema, _), d).
     rbind (add_member (se_now ev) (i2\<lparr>id_store := point_at_schema d (wk_id workspace) (sc_id schema)\<rparr>)
              (tn_id tenant) user_id RoleOwner) (\<lambda>i3.
     Inr (\<lparr>pl_user_id = user_id, pl_workspace_id = wk_id workspace, pl_scope = role_max_scope RoleOwner\<rparr>, with_identity i3 s))))))"

definition find_or_create ::
  "sso_env \<Rightarrow> sso_db \<Rightarrow> string \<Rightarrow> string \<Rightarrow> string option \<Rightarrow> string option \<Rightarrow> int option \<Rightarrow> (provisioned_login \<times> sso_db) result" where
  "find_or_create ev s provider subject_id email display_name max_tenants =
     (case find_by_oauth_identity s provider subject_id of
        Some existing \<Rightarrow> rbind (resolve_existing_login s existing) (\<lambda>login. Inr (login, s))
      | None \<Rightarrow>
          rbind (ok_or email (ValidationFailed ''the identity provider did not return an email claim'' [])) (\<lambda>email.
          case create_oauth_user (se_user_id ev) s email display_name provider subject_id of
            None \<Rightarrow> Inl (Conflict (''a user with email {} already exists (sign in with password, or ask a tenant admin to link this SSO identity)''))
          | Some s1 \<Rightarrow> provision ev s1 email (se_user_id ev) max_tenants))"

definition login_key ::
  "(string \<Rightarrow> string) \<Rightarrow> uuid \<Rightarrow> instant \<Rightarrow> key_material \<Rightarrow> identity_db \<Rightarrow> uuid \<Rightarrow> uuid \<Rightarrow> (created_api_key \<times> identity_db) result" where
  "login_key hash_key new_id now material s user_id workspace_id =
     rbind (get_workspace_tenant (id_store s) workspace_id) (\<lambda>tenant_id.
     rbind (workspace_access s tenant_id workspace_id user_id) (\<lambda>access.
     rbind (ok_or access (ScopeInsufficient ''this account has no access to the selected workspace'')) (\<lambda>access.
     create_api_key hash_key new_id now material s workspace_id (wa_max_scope access) (Some user_id) False)))"

definition accept_invite ::
  "(string \<Rightarrow> string) \<Rightarrow> instant \<Rightarrow> sso_db \<Rightarrow> string \<Rightarrow> string \<Rightarrow> ((user_row \<times> redeemed_invite) \<times> sso_db) result" where
  "accept_invite hash_key now s subject_id raw_token =
     rbind (ok_or (find_by_oauth_identity s ''oidc'' subject_id) Unauthenticated) (\<lambda>existing.
     rbind (ok_or (find_row (\<lambda>u. us_id u = existing) (id_users (so_identity s))) Unauthenticated) (\<lambda>user.
     rbind (accept_in_transaction hash_key now (so_accounts s) raw_token user) (\<lambda>(invite, accounts).
     Inr ((user, invite), s\<lparr>so_accounts := accounts\<rparr>))))"

section \<open>What a first login creates\<close>

text \<open>The foreign keys of members and workspaces.\<close>

definition sso_refs :: "sso_db \<Rightarrow> bool" where
  "sso_refs s \<longleftrightarrow>
     (\<forall>m \<in> set (id_members (so_identity s)). mb_tenant_id m \<in> tn_id ` set (id_tenants (so_identity s)) \<and>
        mb_user_id m \<in> us_id ` set (id_users (so_identity s))) \<and>
     (\<forall>w \<in> set (db_workspaces (id_store (so_identity s))). wk_tenant_id w \<in> tn_id ` set (id_tenants (so_identity s)))"

lemma create_tenant_Inr:
  "create_tenant b i s name m = Inr (t, s') \<Longrightarrow>
     t = \<lparr>tn_id = i, tn_name = name, tn_max_workspaces = None, tn_disabled_at = None\<rparr> \<and> i \<notin> tn_id ` set (id_tenants s) \<and>
     s' = s\<lparr>id_tenants := id_tenants s @ [t]\<rparr>"
  by (auto simp: create_tenant_def Let_def rbind_Inr_iff split: if_splits)

lemma create_workspace_Inr:
  "create_workspace_with_quota i now s t name me sid q = Inr (w, s') \<Longrightarrow>
     wk_id w = i \<and> wk_tenant_id w = t \<and> wk_name w = name \<and> i \<notin> wk_id ` set (db_workspaces (id_store s)) \<and>
     s' = s\<lparr>id_store := (id_store s)\<lparr>db_workspaces := db_workspaces (id_store s) @ [w]\<rparr>\<rparr>"
  by (auto simp: create_workspace_with_quota_def Let_def rbind_Inr_iff split: if_splits)

lemma new_owner_added:
  assumes "add_member now s t u RoleOwner = Inr s'" "\<forall>m \<in> set (id_members s). \<not> (mb_tenant_id m = t \<and> mb_user_id m = u)"
  shows "s' = s\<lparr>id_members := id_members s @ [\<lparr>mb_tenant_id = t, mb_user_id = u, mb_role = RoleOwner, mb_created_at = now\<rparr>]\<rparr>"
proof -
  have "count_where (\<lambda>m. mb_tenant_id m = t \<and> mb_user_id m = u) (id_members s) = 0"
    using assms(2) by (auto simp: count_where_def filter_empty_conv)
  then show ?thesis
    using assms(1) by (auto simp: add_member_def upsert_member_def rbind_Inr_iff Let_def split: if_splits)
qed

lemma absent: "k \<notin> f ` set t \<Longrightarrow> \<forall>x \<in> set t. f x \<noteq> k"
  by blast

lemma update_last:
  "\<forall>x \<in> set t. \<not> p x \<Longrightarrow> update_where p f (t @ [y]) = t @ [if p y then f y else y]"
  by (induction t) (auto simp: update_where_def)

text \<open>The tables after provisioning: one row more in each, and the workspace points at its schema.\<close>

lemma provision_tables:
  assumes "provision ev s email u mt = Inr (login, s')" "sso_refs s'' \<and> so_identity s = (so_identity s'')\<lparr>id_users := us\<rparr>"
  shows "login = \<lparr>pl_user_id = u, pl_workspace_id = se_workspace_id ev, pl_scope = role_max_scope RoleOwner\<rparr> \<and>
    so_identities s' = so_identities s \<and> se_tenant_id ev \<notin> tn_id ` set (id_tenants (so_identity s)) \<and>
    se_workspace_id ev \<notin> wk_id ` set (db_workspaces (id_store (so_identity s))) \<and>
    id_tenants (so_identity s') = id_tenants (so_identity s) @
      [\<lparr>tn_id = se_tenant_id ev, tn_name = tenant_name_from_email email, tn_max_workspaces = None, tn_disabled_at = None\<rparr>] \<and>
    id_members (so_identity s') = id_members (so_identity s) @
      [\<lparr>mb_tenant_id = se_tenant_id ev, mb_user_id = u, mb_role = RoleOwner, mb_created_at = se_now ev\<rparr>] \<and>
    (\<exists>w. db_workspaces (id_store (so_identity s')) = db_workspaces (id_store (so_identity s)) @ [w] \<and>
       wk_id w = se_workspace_id ev \<and> wk_tenant_id w = se_tenant_id ev \<and> wk_status w = WorkspaceActive \<and>
       wk_schema_id w = Some (se_schema_id ev))"
proof -
  obtain tenant i1 workspace i2 def schema dd d i3 where
    t: "create_tenant (se_backend ev) (se_tenant_id ev) (so_identity s) (tenant_name_from_email email) mt = Inr (tenant, i1)"
    and w: "create_workspace_with_quota (se_workspace_id ev) (se_now ev) i1 (tn_id tenant) ''default'' None None None = Inr (workspace, i2)"
    and c: "create_schema (se_pattern_ok ev) (se_schema_id ev) (se_now ev) (id_store i2) (tn_id tenant) (wk_id workspace) def None None = Inr ((schema, dd), d)"
    and m: "add_member (se_now ev) (i2\<lparr>id_store := point_at_schema d (wk_id workspace) (sc_id schema)\<rparr>) (tn_id tenant) u RoleOwner = Inr i3"
    and res: "login = \<lparr>pl_user_id = u, pl_workspace_id = wk_id workspace, pl_scope = role_max_scope RoleOwner\<rparr>" "s' = with_identity i3 s"
    using assms(1) by (auto simp: provision_def rbind_Inr_iff)
  note T = create_tenant_Inr [OF t]
  note W = create_workspace_Inr [OF w]
  note S = create_schema_Inr [OF c]
  have fresh: "\<forall>m \<in> set (id_members i2). \<not> (mb_tenant_id m = tn_id tenant \<and> mb_user_id m = u)"
  proof -
    have "\<forall>m \<in> set (id_members i2). mb_tenant_id m \<in> tn_id ` set (id_tenants (so_identity s))"
      using assms(2) T W by (simp add: sso_refs_def)
    then show ?thesis using T by (metis tenant_row.select_convs(1))
  qed
  note M = new_owner_added [OF m]
  let ?ws = "db_workspaces (id_store (so_identity s))"
  have ws: "db_workspaces (id_store i2) = ?ws @ [workspace]" using T W by simp
  have none: "\<forall>x \<in> set ?ws. wk_id x \<noteq> se_workspace_id ev" by (rule absent) (use T W in simp)
  have d: "db_workspaces d = ?ws @ [activate (se_schema_id ev) workspace]"
    unfolding S(11) ws using none W by (simp add: update_last)
  have "db_workspaces (point_at_schema d (wk_id workspace) (sc_id schema)) =
      ?ws @ [(activate (se_schema_id ev) workspace)\<lparr>wk_schema_id := Some (se_schema_id ev), wk_status := WorkspaceActive\<rparr>]"
    using none W S(2) by (simp add: point_at_schema_def d update_last activate_def)
  then show ?thesis
    using T W M fresh res by (auto simp: with_identity_def activate_def)
qed

lemma selected_new: "\<forall>x \<in> set t. \<not> p x \<Longrightarrow> p y \<Longrightarrow> select_where p (t @ [y]) = [y]"
  by (simp add: select_where_def filter_empty_conv)

lemma absent_ref: "\<forall>x \<in> set t. f x \<in> K \<Longrightarrow> k \<notin> K \<Longrightarrow> \<forall>x \<in> set t. f x \<noteq> k"
  by blast

lemma provisioned_owner:
  assumes "provision ev s email u mt = Inr (login, s')" "sso_refs s'' \<and> so_identity s = (so_identity s'')\<lparr>id_users := us\<rparr>"
  shows "get_membership_role (so_identity s') (se_tenant_id ev) u = Some RoleOwner"
proof -
  note P = provision_tables [OF assms]
  have "\<forall>m \<in> set (id_members (so_identity s)). mb_tenant_id m \<noteq> se_tenant_id ev"
    by (rule absent_ref [where K = "tn_id ` set (id_tenants (so_identity s))"]) (use P assms(2) in \<open>simp_all add: sso_refs_def\<close>)
  then have "find_row (\<lambda>m. mb_tenant_id m = se_tenant_id ev \<and> mb_user_id m = u) (id_members (so_identity s)) = None"
    by (simp add: find_row_None)
  then show ?thesis using P by (simp add: get_membership_role_def find_appended)
qed

lemma provisioned_login_resolves:
  assumes "provision ev s email u mt = Inr (login, s')" "sso_refs s'' \<and> so_identity s = (so_identity s'')\<lparr>id_users := us\<rparr>"
    and "u \<notin> us_id ` set (id_users (so_identity s''))"
  shows "resolve_existing_login s' u = Inr login"
proof -
  note P = provision_tables [OF assms(1,2)]
  let ?i = "so_identity s'" and ?t = "se_tenant_id ev" and ?w = "se_workspace_id ev"
  let ?m = "\<lparr>mb_tenant_id = ?t, mb_user_id = u, mb_role = RoleOwner, mb_created_at = se_now ev\<rparr>"
  let ?tenant = "\<lparr>tn_id = ?t, tn_name = tenant_name_from_email email, tn_max_workspaces = None, tn_disabled_at = None\<rparr>"
  obtain w where w: "db_workspaces (id_store ?i) = db_workspaces (id_store (so_identity s)) @ [w]" "wk_id w = ?w" "wk_tenant_id w = ?t"
    using P by blast
  have mine: "select_where (\<lambda>m. mb_user_id m = u) (id_members ?i) = [?m]"
    using P assms(2,3) by (auto simp: sso_refs_def intro!: selected_new)
  have tenant: "find_row (\<lambda>t. tn_id t = ?t) (id_tenants ?i) = Some ?tenant"
  proof -
    have "find_row (\<lambda>t. tn_id t = ?t) (id_tenants (so_identity s)) = None" unfolding find_row_None using P by (intro absent) simp
    then show ?thesis using P by (simp add: find_appended)
  qed
  have ws: "select_where (\<lambda>w. wk_tenant_id w = ?t) (db_workspaces (id_store ?i)) = [w]"
  proof -
    have "\<forall>x \<in> set (db_workspaces (id_store (so_identity s))). wk_tenant_id x \<noteq> ?t"
      by (rule absent_ref [where K = "tn_id ` set (id_tenants (so_identity s))"]) (use P assms(2) in \<open>simp_all add: sso_refs_def\<close>)
    then show ?thesis using w by (simp add: selected_new)
  qed
  have row: "find_row (\<lambda>x. wk_id x = ?w) (db_workspaces (id_store ?i)) = Some w"
  proof -
    have "find_row (\<lambda>x. wk_id x = ?w) (db_workspaces (id_store (so_identity s))) = None" unfolding find_row_None using P by (intro absent) simp
    then show ?thesis using w by (simp add: find_appended)
  qed
  have role: "get_membership_role ?i ?t u = Some RoleOwner" by (rule provisioned_owner [OF assms(1,2)])
  have "list_workspaces_for_user ?i u = Inr [(?w, wk_name w)]"
    using mine tenant ws w by (simp add: list_workspaces_for_user_def login_options_def administers_tenant_def Let_def image_iff)
  moreover have "get_workspace_tenant (id_store ?i) ?w = Inr ?t" using row w by (simp add: get_workspace_tenant_def)
  moreover have "require_active ?i ?t = Inr ()" using tenant by (simp add: require_active_def)
  ultimately show ?thesis
    using role P
    by (simp add: resolve_existing_login_def workspace_access_def workspace_access_for_role_def administers_tenant_def)
qed


section \<open>A first login\<close>

definition nobody :: sso_db where
  "nobody = \<lparr>so_accounts = \<lparr>ac_identity = \<lparr>id_store = empty_db, id_tenants = [], id_users = [], id_members = [],
       id_workspace_members = [], id_keys = []\<rparr>, ac_password_hashes = [], ac_invites = []\<rparr>, so_identities = []\<rparr>"

definition alice_env :: sso_env where
  "alice_env = \<lparr>se_backend = Postgres, se_pattern_ok = \<lambda>_. True, se_general_notes = Inr sample_definition, se_user_id = 20,
     se_tenant_id = 9, se_workspace_id = 3, se_schema_id = 10, se_now = 5\<rparr>"

lemma alice_logs_in:
  "\<exists>login s'. find_or_create alice_env nobody ''oidc'' ''sub'' (Some ''alice@example.com'') None None = Inr (login, s')"
proof -
  have valid: "validate_definition (\<lambda>_. True) sample_definition = Inr ()"
    by (simp add: validate_definition_def definition_details_Nil sample_definition_wf)
  have "\<exists>login s'. provision alice_env s1 ''alice@example.com'' 20 None = Inr (login, s')"
    if "so_identity s1 = \<lparr>id_store = empty_db, id_tenants = [], id_users = [\<lparr>us_id = 20, us_email = ''alice@example.com'', us_display_name = None\<rparr>],
      id_members = [], id_workspace_members = [], id_keys = []\<rparr>" for s1
    by (simp add: provision_def that alice_env_def create_tenant_def tenant_limit_resolve_def create_workspace_with_quota_def require_active_def
        find_row_def effective_limit_def create_schema_def valid active_versions_def select_where_def inherited_origin_def insert_schema_def
        empty_db_def mark_active_def latest_by_def latest_version_def schema_key_def update_where_def retire_def sample_name wrap32_def
        point_at_schema_def add_member_def protect_owner_def upsert_member_def count_where_def Let_def)
  then show ?thesis
    by (simp add: find_or_create_def nobody_def find_by_oauth_identity_def find_row_def create_oauth_user_def with_identity_def Let_def
        alice_env_def [THEN arg_cong, of se_user_id])
qed


end
