(* ===== verification/Spec2Isabelle.thy ===== *)
theory Spec2Isabelle
  imports Recall Origin_Merge Accounts Query_Embedding Maintenance Retirement Schema_Forks Reindex_Schedules Rate_Limit Single_Sign_On
begin

text \<open>
  A verification development of yorishiro, a multi-tenant store of schema-governed entities and
  relations for AI agents.

  \<^bold>\<open>The program.\<close>  A deployment holds tenants; a tenant has workspaces, users, members and API keys; a
  workspace has versioned schemas (the metaschema), entities valid for a schema version, typed relations,
  snapshots for undo, and inference proposals.  Requests come in through REST and MCP controllers, which
  authenticate a key, check its scope and the maintenance state, open a transaction for the workspace, and
  call the functions of \<open>src/models\<close> and \<open>ee/models\<close>, where the rules of the program are.  Long work is a job:
  the request records a lifecycle row and an outbox row in its transaction, a relay publishes the
  outbox to the queue provider, and a worker admits the delivery under a lease before it runs.  The
  enterprise part (\<open>ee/\<close>) adds plans, billing, the template marketplace, schema forks, origin merges and
  inference.

  \<^bold>\<open>Theories.\<close>

  \<^item> \<open>Yor_Prelude\<close>: results, string functions, ordered maps, tables with the SQL statements SeaORM builds.
    \<open>Yor_Error\<close>: \<open>src/error.rs\<close>.  \<open>Yor_Tables\<close>: the rows of \<open>src/models/_entities\<close> and the record \<open>db\<close>.
    \<open>Pagination\<close>: \<open>src/models/pagination.rs\<close>.
  \<^item> \<open>Metaschema_Types\<close>, \<open>Metaschema_Validate\<close>, \<open>Metaschema_Versioning\<close>, \<open>Metaschema_Projection\<close>:
    \<open>src/models/schema_schemas/metaschema/\<close> and \<open>entity_entities/validation.rs\<close>.  The checker decides a
    declarative predicate; the generated JSON Schema admits exactly the data the definition admits; a
    change reported as non-breaking keeps stored data valid.
  \<^item> \<open>Schema_Store\<close>, \<open>Entity_Store\<close>, \<open>Relation_Store\<close>, \<open>Recall\<close>: \<open>schema_schemas.rs\<close>, \<open>entity_entities/\<close>,
    \<open>entity_relations.rs\<close>, \<open>recall.rs\<close>.  Invariants of every history of operations: one active version of a
    name and it is the newest, stored data is valid, relations have both ends; quotas; lost updates
    are conflicts; undo reverts a migration; the traversal is a breadth-first search.
  \<^item> \<open>Jsonl_Transfer\<close>: \<open>export.rs\<close> and \<open>import.rs\<close>.  An export is the whole workspace or the limit error, its
    text is read back record by record, and an import adds what it reports.
  \<^item> \<open>Access\<close>, \<open>Api_Keys\<close>, \<open>Memberships\<close>, \<open>Accounts\<close>, \<open>Workspaces\<close>, \<open>Retirement\<close>: \<open>access.rs\<close>, \<open>api_keys.rs\<close>,
    \<open>tenant_memberships/\<close>, \<open>workspace_memberships.rs\<close>, \<open>tenant_tenants.rs\<close>, \<open>user_users/\<close>, \<open>tenancy.rs\<close>,
    \<open>workspace_invites/\<close>, \<open>workspace_workspaces.rs\<close>, \<open>tenant_tenants/retirement.rs\<close>.  A context never exceeds
    the stored key and the current role; a tenant keeps an owner; a removed member and a disabled tenant
    are locked out in every later history; invites work once; the deletion of a tenant is exact.
  \<^item> \<open>Single_Sign_On\<close>: \<open>ee/models/user_users.rs\<close> and \<open>provisioning.rs\<close>.  A first login through a provider makes an
    owner of a new tenant with a usable workspace, and every later login of the identity finds them again.
  \<^item> \<open>Worker_Target\<close>, \<open>Queue_Lifecycle\<close>, \<open>Dispatch_Outbox\<close>, \<open>Query_Embedding\<close>, \<open>Background_Jobs\<close>:
    \<open>src/workers/\<close>, \<open>queue_job_lifecycles.rs\<close>, \<open>queue_job_dispatch_outbox.rs\<close>,
    \<open>query_embedding_requests.rs\<close>, \<open>api_key_audit_log.rs\<close>, and \<open>Reindex_Schedules\<close>:
    \<open>ee/models/tenant_reindex_schedules.rs\<close>.  The lifecycle follows its machine, capacity is
    respected, a stale attempt is fenced, lost and refused jobs come back, the wait for a query
    embedding ends, a bulk job and a tick of the scheduler take effect once.
  \<^item> \<open>Templates\<close>, \<open>Origin_Merge\<close>, \<open>Schema_Forks\<close>, \<open>Billing\<close>, \<open>Inference_Proposals\<close>, \<open>Infer_Fill\<close>: the
    models and workers of \<open>ee/\<close>.  Merging is three-way and settles; forks are never cyclic; payment events
    converge in any order; confirming settles every proposal and can be undone.
  \<^item> \<open>Maintenance\<close>: \<open>system_maintenance.rs\<close> and \<open>db_load_guard.rs\<close>.  No interleaving of guards overrides an
    operator.  \<open>Rate_Limit\<close>: \<open>src/controllers/middleware/rate_limit.rs\<close>.  Clients do not influence each other
    and a window admits no more than its limit.

  \<^bold>\<open>Interfaces.\<close>  Contracts between components are locales that are interpreted on the model's own definitions in the
    theory that provides them, and the properties use the facts of the interpretation.

  \<^bold>\<open>Conventions.\<close>  A fallible function returns a \<open>result\<close>; an error returns no state, because the transaction
  is rolled back.  Row level security and advisory locks make transactions serial: a transaction is one
  step.  Where the code awaits between transactions, the model says what may happen there: a second instant,
  the state other processes leave (\<open>ev_meanwhile\<close>, \<open>others\<close>), or separate read and write steps that
  interleave (\<open>Maintenance\<close>).  In \<open>Inference_Proposals\<close> a failed statement aborts the transaction on
  PostgreSQL and not on SQLite.  Generated ids, tokens, secrets and the clock are arguments.
  Third-party code is a parameter: hashing, passwords, serde, UUID printing and parsing, regular expressions,
  the JSON Schema validator, the queue provider, HTTP exchanges; what is relied on is a hypothesis of the
  lemma that needs it.  A message is its format string with \<open>{}\<close> for the values, without the hints.

  \<^bold>\<open>Numbers and termination.\<close>  Version and attempt numbers that the code adds to wrap as \<open>i32\<close>; where a
  lemma needs room it says so.  Recursive definitions end by a measure: the size of a definition for
  nested fields, the rows that remain for the pages of an export, the unseen workspaces for the search for
  a cycle.  The wait for a query embedding takes fuel, \<open>timeout div interval + 2\<close> reads, and the property
  states that this is enough whatever the other processes do.

  \<^bold>\<open>Not modelled.\<close>  The controllers, MCP tools, views and task entry points translate requests and
  results; the decisions they call are modelled.  Embedding vectors, search ranking and the providers
  are numerical or network code around the sqlite-vec and pgvector extensions, and the startup scan
  compares their stamps.  Connection pools, configuration, OAuth discovery,
  the migrations apart from the constraints and triggers named in the theories, generated entity relations
  and the patches of the web framework are left out.
\<close>

end
